(* ===== verification/Prelude.thy ===== *)
theory Prelude
  imports Main "HOL-Library.AList" "HOL-Library.Sublist"
begin

text \<open>
  Shared library of the development: the collections the component proofs are automated
  with, and the generic facts on association lists (JavaScript's insertion-ordered
  \<^verbatim>\<open>Map\<close> and object fields) and on strings with a separator (the composite keys
  \<^verbatim>\<open>`${type}:${id}`\<close> of the stores).
\<close>

named_theorems act_simps \<open>unfolding rules that run an effectful operation on a state\<close>
named_theorems js_simps \<open>evaluation rules for JavaScript values\<close>
named_theorems valid_intros \<open>syntax-directed rules of the pre/postcondition judgement\<close>

section \<open>Insertion-ordered maps\<close>

text \<open>
  A JavaScript \<^verbatim>\<open>Map\<close> iterates in insertion order and overwriting a key keeps its
  position: exactly an association list under \<open>AList.update\<close>, which replaces in place or
  appends at the end, and \<open>AList.delete\<close>.
\<close>

type_synonym 'v js_map = "(string \<times> 'v) list"

lemma map_of_alist_update [simp]:
  "map_of (AList.update k v m) k' = (if k' = k then Some v else map_of m k')"
  by (simp add: AList.update_conv')

lemma map_of_alist_delete [simp]:
  "map_of (AList.delete k m) k' = (if k' = k then None else map_of m k')"
  by (simp add: AList.delete_conv')

lemma distinct_alist_update [intro]:
  "distinct (map fst m) \<Longrightarrow> distinct (map fst (AList.update k v m))"
  by (rule AList.distinct_update)

lemma distinct_alist_delete [intro]:
  "distinct (map fst m) \<Longrightarrow> distinct (map fst (AList.delete k m))"
  by (rule AList.distinct_delete)

lemma alist_update_old: "map_of m k \<noteq> None \<Longrightarrow> length (AList.update k v m) = length m"
  by (induction m) auto

lemma alist_update_new: "map_of m k = None \<Longrightarrow> AList.update k v m = m @ [(k, v)]"
  by (induction m) (auto split: if_splits)

text \<open>The values listed under the keys that satisfy a predicate are those the map holds there.\<close>

lemma set_map_snd_filter:
  assumes "distinct (map fst m)"
  shows "set (map snd (filter (\<lambda>e. P (fst e)) m)) = {v. \<exists>k. P k \<and> map_of m k = Some v}"
proof -
  have "(k, v) \<in> set m \<longleftrightarrow> map_of m k = Some v" for k v
    using assms by (simp add: map_of_eq_Some_iff)
  then show ?thesis by (force simp: image_iff)
qed

section \<open>Strings with a separator\<close>

text \<open>A segment is a nonempty string without the separator \<^verbatim>\<open>':'\<close>.\<close>

definition colon :: char where
  "colon = CHR '':''"

definition segment :: "string \<Rightarrow> bool" where
  "segment t \<longleftrightarrow> t \<noteq> [] \<and> colon \<notin> set t"

lemma segmentD [dest]: "segment t \<Longrightarrow> t \<noteq> []" "segment t \<Longrightarrow> colon \<notin> set t"
  by (simp_all add: segment_def)

lemma takeWhile_segment: "colon \<notin> set t \<Longrightarrow> takeWhile (\<lambda>c. c \<noteq> colon) (t @ colon # i) = t"
  by (induction t) auto

lemma segment_append_inject:
  assumes "segment t" "segment t'"
  shows "t @ colon # i = t' @ colon # i' \<longleftrightarrow> t = t' \<and> i = i'"
proof
  assume eq: "t @ colon # i = t' @ colon # i'"
  have "t = t'"
    using arg_cong [OF eq, of "takeWhile (\<lambda>c. c \<noteq> colon)"]
    unfolding takeWhile_segment [OF segmentD(2) [OF assms(1)]]
      takeWhile_segment [OF segmentD(2) [OF assms(2)]] .
  with eq show "t = t' \<and> i = i'" by simp
qed simp

end
