(* ===== verification/JsValue.thy ===== *)
theory JsValue
  imports Prelude
begin

text \<open>
  The JavaScript values the modelled code handles, with the operators it applies to them:
  truthiness, \<^verbatim>\<open>===\<close>, property reads, object spread, string and number conversion,
  \<^verbatim>\<open>JSON.stringify\<close>/\<^verbatim>\<open>parse\<close> and errors. Numbers are the integers of JavaScript's
  \<^verbatim>\<open>Number\<close> with \<^verbatim>\<open>NaN\<close> and the two infinities: the modelled code counts, compares and
  stamps milliseconds, it never divides, and rounding beyond 2^53 is not modelled.
  Strings are sequences of code units restricted to Isabelle's 8-bit characters. Values carry
  no identity: \<^verbatim>\<open>structuredClone\<close> is the identity, and two separately built objects are
  never \<^verbatim>\<open>===\<close>.
\<close>

datatype jsval =
    Undefined
  | Null
  | Boolean bool
  | Num int
  | NaN
  | Inf bool \<comment> \<open>\<^verbatim>\<open>Infinity\<close> for True, \<^verbatim>\<open>-Infinity\<close> for False\<close>
  | Str string
  | Arr "jsval list"
  | Obj "jsval js_map"

section \<open>Truthiness, equality, property reads\<close>

fun truthy :: "jsval \<Rightarrow> bool" where
  "truthy Undefined = False"
| "truthy Null = False"
| "truthy (Boolean b) = b"
| "truthy (Num n) = (n \<noteq> 0)"
| "truthy NaN = False"
| "truthy (Inf _) = True"
| "truthy (Str s) = (s \<noteq> [])"
| "truthy (Arr _) = True"
| "truthy (Obj _) = True"

fun is_obj :: "jsval \<Rightarrow> bool" where
  "is_obj (Obj _) = True"
| "is_obj _ = False"

fun is_str :: "jsval \<Rightarrow> bool" where
  "is_str (Str _) = True"
| "is_str _ = False"

fun is_ref :: "jsval \<Rightarrow> bool" where
  "is_ref (Obj _) = True"
| "is_ref (Arr _) = True"
| "is_ref _ = False"

text \<open>\<^verbatim>\<open>a || b\<close> and \<^verbatim>\<open>a ?? b\<close>.\<close>

definition js_or :: "jsval \<Rightarrow> jsval \<Rightarrow> jsval" where
  "js_or a b = (if truthy a then a else b)"

definition js_coalesce :: "jsval \<Rightarrow> jsval \<Rightarrow> jsval" where
  "js_coalesce a b = (if a = Undefined \<or> a = Null then b else a)"

definition strict_eq :: "jsval \<Rightarrow> jsval \<Rightarrow> bool" where
  "strict_eq a b \<longleftrightarrow> a = b \<and> a \<noteq> NaN \<and> \<not> is_ref a"

text \<open>\<^verbatim>\<open>Number.isInteger\<close> and \<^verbatim>\<open>Number.isFinite\<close> (the same set in this number domain).\<close>

fun is_integer :: "jsval \<Rightarrow> bool" where
  "is_integer (Num _) = True"
| "is_integer _ = False"

text \<open>
  A property read on a value that is not null or undefined. Reads on null and undefined throw;
  the code that can reach one is modelled with \<open>null_read_error\<close>.
\<close>

fun field :: "jsval \<Rightarrow> string \<Rightarrow> jsval" where
  "field (Obj fs) k = (case map_of fs k of Some v \<Rightarrow> v | None \<Rightarrow> Undefined)"
| "field (Arr xs) k = (if k = ''length'' then Num (int (length xs)) else Undefined)"
| "field (Str s) k = (if k = ''length'' then Num (int (length s)) else Undefined)"
| "field _ k = Undefined"

text \<open>Optional chaining \<^verbatim>\<open>v?.k\<close> coincides with \<open>field\<close>: it is undefined on null and undefined.\<close>

section \<open>Strings and numbers\<close>

fun nat_str :: "nat \<Rightarrow> string" where
  "nat_str n = (if n < 10 then [''0123456789'' ! n] else nat_str (n div 10) @ [''0123456789'' ! (n mod 10)])"

declare nat_str.simps [simp del]

definition int_str :: "int \<Rightarrow> string" where
  "int_str n = (if n < 0 then CHR ''-'' # nat_str (nat (- n)) else nat_str (nat n))"

fun join :: "string \<Rightarrow> string list \<Rightarrow> string" where
  "join sep [] = []"
| "join sep [x] = x"
| "join sep (x # y # xs) = x @ sep @ join sep (y # xs)"

text \<open>\<^verbatim>\<open>String(v)\<close>, which template literals and composite keys apply to their parts.\<close>

fun to_str :: "jsval \<Rightarrow> string" where
  "to_str Undefined = ''undefined''"
| "to_str Null = ''null''"
| "to_str (Boolean b) = (if b then ''true'' else ''false'')"
| "to_str (Num n) = int_str n"
| "to_str NaN = ''NaN''"
| "to_str (Inf b) = (if b then ''Infinity'' else ''-Infinity'')"
| "to_str (Str s) = s"
| "to_str (Arr xs) = join '','' (map (\<lambda>x. if x = Undefined \<or> x = Null then [] else to_str x) xs)"
| "to_str (Obj _) = ''[object Object]''"

fun digits_val :: "nat \<Rightarrow> string \<Rightarrow> nat option" where
  "digits_val acc [] = Some acc"
| "digits_val acc (c # cs) =
     (if 48 \<le> (of_char c :: nat) \<and> (of_char c :: nat) \<le> 57
      then digits_val (10 * acc + (of_char c - 48)) cs else None)"

definition is_space :: "char \<Rightarrow> bool" where
  "is_space c \<longleftrightarrow> c \<in> {CHR '' '', CHR 0x09, CHR 0x0A, CHR 0x0B, CHR 0x0C, CHR 0x0D, CHR 0xA0}"

text \<open>\<^verbatim>\<open>s.trim()\<close>\<close>

definition trim :: "string \<Rightarrow> string" where
  "trim s = rev (dropWhile is_space (rev (dropWhile is_space s)))"

text \<open>
  \<^verbatim>\<open>Number(s)\<close> on the integer literals of the number domain; every other text is not a number here.
\<close>

definition str_to_num :: "string \<Rightarrow> jsval" where
  "str_to_num s =
     (case trim s of
        [] \<Rightarrow> Num 0
      | c # cs \<Rightarrow>
          (let body = (if c = CHR ''-'' \<or> c = CHR ''+'' then cs else c # cs) in
           case digits_val 0 body of
             Some n \<Rightarrow> if body = [] then NaN else if c = CHR ''-'' then Num (- int n) else Num (int n)
           | None \<Rightarrow> NaN))"

fun to_num :: "jsval \<Rightarrow> jsval" where
  "to_num Undefined = NaN"
| "to_num Null = Num 0"
| "to_num (Boolean b) = Num (if b then 1 else 0)"
| "to_num (Num n) = Num n"
| "to_num NaN = NaN"
| "to_num (Inf b) = Inf b"
| "to_num (Str s) = str_to_num s"
| "to_num (Arr xs) = str_to_num (to_str (Arr xs))"
| "to_num (Obj _) = NaN"

fun num_add :: "jsval \<Rightarrow> jsval \<Rightarrow> jsval" where
  "num_add (Num a) (Num b) = Num (a + b)"
| "num_add (Inf a) (Inf b) = (if a = b then Inf a else NaN)"
| "num_add (Inf a) (Num _) = Inf a"
| "num_add (Num _) (Inf b) = Inf b"
| "num_add _ _ = NaN"

text \<open>\<^verbatim>\<open>a + b\<close>: concatenation when a side is a string or an object, addition otherwise.\<close>

definition js_add :: "jsval \<Rightarrow> jsval \<Rightarrow> jsval" where
  "js_add a b =
     (if is_str a \<or> is_str b \<or> is_ref a \<or> is_ref b then Str (to_str a @ to_str b)
      else num_add (to_num a) (to_num b))"

fun num_le :: "jsval \<Rightarrow> jsval \<Rightarrow> bool" where
  "num_le (Num a) (Num b) = (a \<le> b)"
| "num_le (Inf a) (Inf b) = (a \<longrightarrow> b)"
| "num_le (Inf a) (Num _) = (\<not> a)"
| "num_le (Num _) (Inf b) = b"
| "num_le _ _ = False"

text \<open>Code-unit order on strings.\<close>

fun str_le :: "string \<Rightarrow> string \<Rightarrow> bool" where
  "str_le [] _ = True"
| "str_le (_ # _) [] = False"
| "str_le (x # xs) (y # ys) =
     ((of_char x :: nat) < of_char y \<or> (x = y \<and> str_le xs ys))"

text \<open>\<^verbatim>\<open>a <= b\<close>: two strings by code units, anything else as numbers.\<close>

definition js_le :: "jsval \<Rightarrow> jsval \<Rightarrow> bool" where
  "js_le a b =
     (let p = (\<lambda>v. if is_ref v then Str (to_str v) else v) in
      if is_str (p a) \<and> is_str (p b) then str_le (to_str a) (to_str b)
      else num_le (to_num a) (to_num b))"

section \<open>Object spread\<close>

fun own_fields :: "jsval \<Rightarrow> jsval js_map" where
  "own_fields (Obj fs) = fs"
| "own_fields (Arr xs) = zip (map nat_str [0..<length xs]) xs"
| "own_fields (Str s) = zip (map nat_str [0..<length s]) (map (\<lambda>c. Str [c]) s)"
| "own_fields _ = []"

fun put_fields :: "jsval js_map \<Rightarrow> jsval js_map \<Rightarrow> jsval js_map" where
  "put_fields fs [] = fs"
| "put_fields fs ((k, v) # kvs) = put_fields (AList.update k v fs) kvs"

text \<open>
  \<^verbatim>\<open>{ ...v, k1: x1, k2: x2 }\<close>; on an object it is also the value after the assignments
  \<^verbatim>\<open>v.k1 = x1; v.k2 = x2\<close>.
\<close>

definition spread :: "jsval \<Rightarrow> jsval js_map \<Rightarrow> jsval" where
  "spread v kvs = Obj (put_fields (own_fields v) kvs)"

lemma map_of_put_fields:
  "map_of (put_fields fs kvs) k = (case map_of (rev kvs) k of Some v \<Rightarrow> Some v | None \<Rightarrow> map_of fs k)"
  by (induction fs kvs rule: put_fields.induct) (auto simp: map_add_def split: option.splits)

lemma field_Obj_own_fields: "is_obj v \<Longrightarrow> field (Obj (own_fields v)) k = field v k"
  by (cases v) auto

lemma is_obj_spread [simp]: "is_obj (spread v kvs)"
  by (simp add: spread_def)

lemma truthy_obj [simp]: "is_obj v \<Longrightarrow> truthy v"
  by (cases v) auto

lemma truthy_spread [simp]: "truthy (spread v kvs)"
  by simp

lemma spread_not_Null [simp]: "spread v kvs \<noteq> Null" "spread v kvs \<noteq> Undefined"
  by (simp_all add: spread_def)

lemma field_spread [js_simps]:
  "is_obj v \<Longrightarrow> field (spread v kvs) k = (case map_of (rev kvs) k of Some x \<Rightarrow> x | None \<Rightarrow> field v k)"
  by (cases v) (auto simp: spread_def map_of_put_fields split: option.splits)

lemma field_Str_is_obj: "field v k = Str x \<Longrightarrow> is_obj v"
  by (cases v) (auto split: if_splits)

section \<open>JSON\<close>

text \<open>
  What \<^verbatim>\<open>JSON.parse(JSON.stringify(v))\<close> gives back: undefined fields vanish, undefined
  elements and non-finite numbers become null. (A top-level undefined has no JSON text.)
\<close>

fun to_json :: "jsval \<Rightarrow> jsval" where
  "to_json NaN = Null"
| "to_json (Inf _) = Null"
| "to_json (Arr xs) = Arr (map (\<lambda>x. if x = Undefined then Null else to_json x) xs)"
| "to_json (Obj fs) = Obj (map (\<lambda>(k, v). (k, to_json v)) (filter (\<lambda>(k, v). v \<noteq> Undefined) fs))"
| "to_json v = v"

fun is_json :: "jsval \<Rightarrow> bool" where
  "is_json Undefined = False"
| "is_json NaN = False"
| "is_json (Inf _) = False"
| "is_json (Arr xs) = (\<forall>x \<in> set xs. is_json x)"
| "is_json (Obj fs) = (\<forall>(k, v) \<in> set fs. is_json v)"
| "is_json _ = True"

lemma to_json_id: "is_json v \<Longrightarrow> to_json v = v"
proof (induction v rule: to_json.induct)
  case (3 xs)
  then show ?case by (force intro!: map_idI)
next
  case (4 fs)
  have "filter (\<lambda>(k, v). v \<noteq> Undefined) fs = fs"
    using "4.prems" by (auto simp: filter_id_conv)
  moreover have "map (\<lambda>(k, v). (k, to_json v)) fs = fs"
  proof (rule map_idI)
    fix e assume e: "e \<in> set fs"
    then have "is_json (snd e)" using "4.prems" by auto
    moreover from this have "snd e \<noteq> Undefined" by auto
    ultimately show "(\<lambda>(k, v). (k, to_json v)) e = e"
      using "4.IH" [of e "fst e" "snd e"] e by (auto simp: case_prod_beta)
  qed
  ultimately show ?case by simp
qed auto

lemma is_json_put_fields:
  "\<forall>(k, v) \<in> set fs. is_json v \<Longrightarrow> \<forall>(k, v) \<in> set kvs. is_json v \<Longrightarrow>
   \<forall>(k, v) \<in> set (put_fields fs kvs). is_json v"
proof (induction fs kvs rule: put_fields.induct)
  case (2 fs k v kvs)
  have "\<forall>(k', v') \<in> set (AList.update k v fs). is_json v'"
    using 2(2,3) by (induction fs) auto
  with 2 show ?case by simp
qed simp

lemma is_json_own_fields:
  assumes "is_json v" "(k, x) \<in> set (own_fields v)"
  shows "is_json x"
proof (cases v)
  case (Str s)
  with assms(2) have "x \<in> set (map (\<lambda>c. Str [c]) s)" by (auto dest: set_zip_rightD)
  then show ?thesis by auto
next
  case (Arr xs)
  with assms(2) have "x \<in> set xs" by (auto dest: set_zip_rightD)
  with Arr assms(1) show ?thesis by simp
qed (use assms in auto)

lemma is_json_spread:
  assumes "is_json v" "\<forall>(k, x) \<in> set kvs. is_json x"
  shows "is_json (spread v kvs)"
proof -
  have "\<forall>(k, x) \<in> set (own_fields v). is_json x"
    by (auto intro: is_json_own_fields [OF assms(1)])
  from is_json_put_fields [OF this assms(2)] show ?thesis by (simp add: spread_def)
qed

section \<open>Errors\<close>

text \<open>
  A thrown value: an \<^verbatim>\<open>Error\<close> object with its name, message and extra properties
  (\<^verbatim>\<open>code\<close>, \<^verbatim>\<open>statusCode\<close>, ...), or any other value.
\<close>

datatype js_error =
    Exn (exn_name: string) (exn_msg: string) (exn_props: "jsval js_map")
  | Thrown jsval

abbreviation Error :: "string \<Rightarrow> js_error" where
  "Error m \<equiv> Exn ''Error'' m []"

abbreviation TypeError :: "string \<Rightarrow> js_error" where
  "TypeError m \<equiv> Exn ''TypeError'' m []"

definition null_read_error :: js_error where
  "null_read_error = TypeError ''Cannot read properties of null or undefined''"

text \<open>\<^verbatim>\<open>error?.k\<close>\<close>

fun error_field :: "js_error \<Rightarrow> string \<Rightarrow> jsval" where
  "error_field (Exn n m ps) k =
     (if k = ''message'' then Str m else if k = ''name'' then Str n else field (Obj ps) k)"
| "error_field (Thrown v) k = field v k"

text \<open>\<^verbatim>\<open>error instanceof Error ? error.message : String(error)\<close>\<close>

fun error_text :: "js_error \<Rightarrow> string" where
  "error_text (Exn n m ps) = m"
| "error_text (Thrown v) = to_str v"

text \<open>\<^verbatim>\<open>error.message\<close> of a caught error, which itself throws when null or undefined was thrown.\<close>

fun message_of :: "js_error \<Rightarrow> js_error + jsval" where
  "message_of (Thrown v) = (if v = Undefined \<or> v = Null then Inl null_read_error else Inr (field v ''message''))"
| "message_of e = Inr (error_field e ''message'')"

end
