(* ===== verification/Action.thy ===== *)
theory Action
  imports JsValue
begin

text \<open>
  Effectful operations: an \<^verbatim>\<open>async\<close> method takes the state of everything it can reach and
  returns either the value it resolves to or the error it rejects with, together with the
  state as it is then. Effects performed before a throw stay, as they do in the code.
  An \<^verbatim>\<open>await\<close> is sequencing; where the code can be interleaved at an \<^verbatim>\<open>await\<close> by another
  caller, the interleaving is a step relation of its own (theory \<open>ClaimRace\<close>).
\<close>

type_synonym ('s, 'a) act = "'s \<Rightarrow> (js_error + 'a) \<times> 's"

definition ret :: "'a \<Rightarrow> ('s, 'a) act" where
  "ret a = (\<lambda>s. (Inr a, s))"

definition throw :: "js_error \<Rightarrow> ('s, 'a) act" where
  "throw e = (\<lambda>s. (Inl e, s))"

text \<open>\<^verbatim>\<open>const x = await m; ...\<close>\<close>

definition bnd :: "('s, 'a) act \<Rightarrow> ('a \<Rightarrow> ('s, 'b) act) \<Rightarrow> ('s, 'b) act" where
  "bnd m k = (\<lambda>s. case m s of (Inl e, s') \<Rightarrow> (Inl e, s') | (Inr a, s') \<Rightarrow> k a s')"

definition try_catch :: "('s, 'a) act \<Rightarrow> (js_error \<Rightarrow> ('s, 'a) act) \<Rightarrow> ('s, 'a) act" where
  "try_catch m h = (\<lambda>s. case m s of (Inl e, s') \<Rightarrow> h e s' | (Inr a, s') \<Rightarrow> (Inr a, s'))"

text \<open>\<^verbatim>\<open>try { m } finally { f }\<close> for a finalizer \<open>f\<close> that cannot throw.\<close>

definition try_finally :: "('s, 'a) act \<Rightarrow> ('s \<Rightarrow> 's) \<Rightarrow> ('s, 'a) act" where
  "try_finally m f = (\<lambda>s. case m s of (r, s') \<Rightarrow> (r, f s'))"

text \<open>\<^verbatim>\<open>for (const x of xs) out.push(await body(x)); return out\<close>\<close>

primrec for_each :: "('a \<Rightarrow> ('s, 'b) act) \<Rightarrow> 'a list \<Rightarrow> ('s, 'b list) act" where
  "for_each body [] = ret []"
| "for_each body (x # xs) = bnd (body x) (\<lambda>y. bnd (for_each body xs) (\<lambda>ys. ret (y # ys)))"

text \<open>The same loop where an iteration may \<^verbatim>\<open>continue\<close> without pushing.\<close>

primrec for_collect :: "('a \<Rightarrow> ('s, 'b option) act) \<Rightarrow> 'a list \<Rightarrow> ('s, 'b list) act" where
  "for_collect body [] = ret []"
| "for_collect body (x # xs) =
     bnd (body x) (\<lambda>y. bnd (for_collect body xs) (\<lambda>ys. ret (case y of None \<Rightarrow> ys | Some z \<Rightarrow> z # ys)))"

lemmas [act_simps] = ret_def throw_def bnd_def try_catch_def try_finally_def

lemma ret_run [simp]: "ret a s = (Inr a, s)"
  by (simp add: ret_def)

lemma throw_run [simp]: "throw e s = (Inl e, s)"
  by (simp add: throw_def)

section \<open>Pre- and postconditions\<close>

text \<open>
  \<open>valid P m Q E\<close>: from a state in \<open>P\<close>, the operation either resolves with a value and state in
  \<open>Q\<close>, or rejects with an error and state in \<open>E\<close>.
\<close>

definition valid :: "('s \<Rightarrow> bool) \<Rightarrow> ('s, 'a) act \<Rightarrow> ('a \<Rightarrow> 's \<Rightarrow> bool) \<Rightarrow> (js_error \<Rightarrow> 's \<Rightarrow> bool) \<Rightarrow> bool" where
  "valid P m Q E \<longleftrightarrow> (\<forall>s. P s \<longrightarrow> (case m s of (Inr a, s') \<Rightarrow> Q a s' | (Inl e, s') \<Rightarrow> E e s'))"

text \<open>An operation keeps \<open>P\<close>, whether it resolves or rejects.\<close>

definition keeps :: "('s \<Rightarrow> bool) \<Rightarrow> ('s, 'a) act \<Rightarrow> bool" where
  "keeps P m \<longleftrightarrow> (\<forall>s. P s \<longrightarrow> P (snd (m s)))"

lemma keepsI: "(\<And>s. P s \<Longrightarrow> P (snd (m s))) \<Longrightarrow> keeps P m"
  by (simp add: keeps_def)

lemma keepsD: "keeps P m \<Longrightarrow> P s \<Longrightarrow> P (snd (m s))"
  by (simp add: keeps_def)

lemma keeps_iff_valid: "keeps P m \<longleftrightarrow> valid P m (\<lambda>_. P) (\<lambda>_. P)"
proof -
  have "(case m s of (Inr a, s') \<Rightarrow> P s' | (Inl e, s') \<Rightarrow> P s') = P (snd (m s))" for s
    by (cases "m s"; cases "fst (m s)") auto
  then show ?thesis by (simp add: keeps_def valid_def)
qed

lemma keeps_ret [valid_intros]: "keeps P (ret a)"
  by (simp add: keeps_def ret_def)

lemma keeps_throw [valid_intros]: "keeps P (throw e)"
  by (simp add: keeps_def throw_def)

lemma keeps_if [valid_intros]: "(b \<Longrightarrow> keeps P m) \<Longrightarrow> (\<not> b \<Longrightarrow> keeps P m') \<Longrightarrow> keeps P (if b then m else m')"
  by simp

lemma keeps_bnd [valid_intros]: "keeps P m \<Longrightarrow> (\<And>a. keeps P (k a)) \<Longrightarrow> keeps P (bnd m k)"
  unfolding keeps_def bnd_def by (fastforce split: prod.splits sum.splits)

lemma keeps_try_catch [valid_intros]: "keeps P m \<Longrightarrow> (\<And>e. keeps P (h e)) \<Longrightarrow> keeps P (try_catch m h)"
  unfolding keeps_def try_catch_def by (fastforce split: prod.splits sum.splits)

lemma keeps_for_each [valid_intros]:
  "(\<And>x. x \<in> set xs \<Longrightarrow> keeps P (body x)) \<Longrightarrow> keeps P (for_each body xs)"
  by (induction xs) (auto intro!: keeps_ret keeps_bnd)

lemma keeps_for_collect [valid_intros]:
  "(\<And>x. x \<in> set xs \<Longrightarrow> keeps P (body x)) \<Longrightarrow> keeps P (for_collect body xs)"
  by (induction xs) (auto intro!: keeps_ret keeps_bnd)

text \<open>
  Sequencing with an intermediate assertion, for operations whose second half relies on the
  value the first half read.
\<close>

lemma valid_bnd:
  assumes "valid P m R E" "\<And>a. valid (R a) (k a) Q E"
  shows "valid P (bnd m k) Q E"
  using assms unfolding valid_def bnd_def by (fastforce split: prod.splits sum.splits)

lemma bnd_assoc: "bnd (bnd m f) g = bnd m (\<lambda>a. bnd (f a) g)"
  by (rule ext) (auto simp: bnd_def split: prod.splits sum.splits)

lemma bnd_ret_left [simp]: "bnd (ret a) k = k a"
  by (rule ext) (simp add: bnd_def ret_def)

lemma bnd_throw_left [simp]: "bnd (throw e) k = throw e"
  by (rule ext) (simp add: bnd_def throw_def)

lemma bnd_run: "m s = (Inr a, s') \<Longrightarrow> bnd m k s = k a s'" "m s = (Inl e, s') \<Longrightarrow> bnd m k s = (Inl e, s')"
  by (simp_all add: bnd_def)

lemma bnd_run':
  "bnd m k s = (case m s of (Inl e, s') \<Rightarrow> (Inl e, s') | (Inr a, s') \<Rightarrow> k a s')"
  by (simp add: bnd_def)

lemma bnd_InrE:
  assumes "bnd m k s = (Inr b, t)"
  obtains a s' where "m s = (Inr a, s')" "k a s' = (Inr b, t)"
  using assms by (auto simp: bnd_def split: prod.splits sum.splits)

end
