(* ===== verification/Domain.thy ===== *)
theory Domain
  imports Action
begin

text \<open>
  The frozen domain records (\<^verbatim>\<open>modules/business/domain.js\<close>, \<^verbatim>\<open>modules/identity/domain.js\<close>):
  constructors that check their required fields and build a tagged object. Parameters the
  caller omits are \<open>Undefined\<close>; default values apply to exactly those.
\<close>

definition default_to :: "jsval \<Rightarrow> jsval \<Rightarrow> jsval" where
  "default_to v d = (if v = Undefined then d else v)"

section \<open>Business, process, task\<close>

definition createBusiness :: "jsval \<Rightarrow> jsval \<Rightarrow> jsval \<Rightarrow> jsval \<Rightarrow> jsval \<Rightarrow> js_error + jsval" where
  "createBusiness i organizationId name slug description =
     (if \<not> truthy i \<or> \<not> truthy organizationId \<or> \<not> truthy name \<or> \<not> truthy slug
      then Inl (TypeError ''Business requires id, organizationId, name, and slug'')
      else Inr (Obj [(''id'', i), (''organizationId'', organizationId), (''name'', name), (''slug'', slug),
                     (''description'', default_to description (Str [])), (''type'', Str ''business'')]))"

definition createProcess :: "jsval \<Rightarrow> jsval \<Rightarrow> jsval \<Rightarrow> jsval \<Rightarrow> js_error + jsval" where
  "createProcess i businessId name description =
     (if \<not> truthy i \<or> \<not> truthy businessId \<or> \<not> truthy name
      then Inl (TypeError ''Process requires id, businessId, and name'')
      else Inr (Obj [(''id'', i), (''businessId'', businessId), (''name'', name),
                     (''description'', default_to description (Str [])), (''type'', Str ''process'')]))"

definition task_statuses :: "jsval list" where
  "task_statuses = [Str ''pending'', Str ''in_progress'', Str ''completed'']"

definition createTask :: "jsval \<Rightarrow> jsval \<Rightarrow> jsval \<Rightarrow> jsval \<Rightarrow> js_error + jsval" where
  "createTask i processId name status =
     (let st = default_to status (Str ''pending'') in
      if \<not> truthy i \<or> \<not> truthy processId \<or> \<not> truthy name
      then Inl (TypeError ''Task requires id, processId, and name'')
      else if st \<notin> set task_statuses
      then Inl (TypeError (''Unsupported task status: '' @ to_str st))
      else Inr (Obj [(''id'', i), (''processId'', processId), (''name'', name),
                     (''status'', st), (''type'', Str ''task'')]))"

section \<open>Organization, user, role assignment, workspace\<close>

definition ROLE_VALUES :: "jsval list" where
  "ROLE_VALUES = [Str ''owner'', Str ''admin'', Str ''member'']"

definition createOrganization :: "jsval \<Rightarrow> jsval \<Rightarrow> jsval \<Rightarrow> js_error + jsval" where
  "createOrganization i name slug =
     (if \<not> truthy i \<or> \<not> truthy name \<or> \<not> truthy slug
      then Inl (TypeError ''Organization requires id, name, and slug'')
      else Inr (Obj [(''id'', i), (''name'', name), (''slug'', slug), (''type'', Str ''organization'')]))"

definition createUser :: "jsval \<Rightarrow> jsval \<Rightarrow> jsval \<Rightarrow> js_error + jsval" where
  "createUser i email name =
     (if \<not> truthy i \<or> \<not> truthy email \<or> \<not> truthy name
      then Inl (TypeError ''User requires id, email, and name'')
      else Inr (Obj [(''id'', i), (''email'', email), (''name'', name), (''type'', Str ''user'')]))"

definition createRoleAssignment :: "jsval \<Rightarrow> jsval \<Rightarrow> jsval \<Rightarrow> js_error + jsval" where
  "createRoleAssignment organizationId userId role =
     (if \<not> truthy organizationId \<or> \<not> truthy userId
      then Inl (TypeError ''Role assignment requires organizationId and userId'')
      else if role \<notin> set ROLE_VALUES
      then Inl (TypeError (''Unsupported role: '' @ to_str role))
      else Inr (Obj [(''organizationId'', organizationId), (''userId'', userId), (''role'', role),
                     (''type'', Str ''role_assignment'')]))"

definition createWorkspace :: "jsval \<Rightarrow> jsval \<Rightarrow> jsval \<Rightarrow> js_error + jsval" where
  "createWorkspace i organizationId name =
     (if \<not> truthy i \<or> \<not> truthy organizationId \<or> \<not> truthy name
      then Inl (TypeError ''Workspace requires id, organizationId, and name'')
      else Inr (Obj [(''id'', i), (''organizationId'', organizationId), (''name'', name),
                     (''type'', Str ''workspace'')]))"

lemma createTask_InrD:
  "createTask i p n st = Inr t \<Longrightarrow>
     field t ''id'' = i \<and> field t ''processId'' = p \<and> field t ''status'' \<in> set task_statuses \<and> is_obj t"
  by (auto simp: createTask_def Let_def split: if_splits)

end
