(* ===== verification/Repository.thy ===== *)
theory Repository
  imports Action
begin

text \<open>
  The persistence boundary (\<^verbatim>\<open>packages/persistence\<close>): the record repository interface the
  engines are written against, its laws as the locale \<open>record_repository\<close>, and the
  repository's own implementations: \<open>InMemoryRepository\<close>, the tenant repositories
  \<open>TestStore\<close> and \<open>PostgresRepository\<close>, and \<open>TenantScopedRepository\<close>, which turns
  a tenant repository into a record repository.
\<close>

section \<open>The interface\<close>

text \<open>
  The methods the engines call on \<^verbatim>\<open>this.repository\<close>. Record types are always string literals
  of the code, ids are arbitrary values.
\<close>

record 's repository =
  rsave :: "string \<Rightarrow> jsval \<Rightarrow> jsval \<Rightarrow> ('s, jsval) act"
  rfind :: "string \<Rightarrow> jsval \<Rightarrow> ('s, jsval) act"
  rall :: "string \<Rightarrow> ('s, jsval list) act"
  rdelete :: "string \<Rightarrow> jsval \<Rightarrow> ('s, bool) act"

record 's tenant_repository =
  tsave :: "jsval \<Rightarrow> string \<Rightarrow> jsval \<Rightarrow> jsval \<Rightarrow> ('s, jsval) act"
  tfind :: "jsval \<Rightarrow> string \<Rightarrow> jsval \<Rightarrow> ('s, jsval) act"
  tall :: "jsval \<Rightarrow> string \<Rightarrow> ('s, jsval list) act"
  tdelete :: "jsval \<Rightarrow> string \<Rightarrow> jsval \<Rightarrow> ('s, bool) act"

text \<open>\<^verbatim>\<open>value === undefined ? null : value\<close> on a map lookup.\<close>

definition or_null :: "jsval option \<Rightarrow> jsval" where
  "or_null x = (case x of None \<Rightarrow> Null | Some v \<Rightarrow> if v = Undefined then Null else v)"

lemma or_null_simps [simp]:
  "or_null None = Null"
  "v \<noteq> Undefined \<Longrightarrow> or_null (Some v) = v"
  "is_obj v \<Longrightarrow> or_null (Some v) = v"
  by (auto simp: or_null_def)

section \<open>The contract\<close>

text \<open>
  What every client relies on. \<open>look\<close> is the abstract content, \<open>put\<close> the state after a
  save, \<open>listing\<close> what \<^verbatim>\<open>all\<close> returns, \<open>okty\<close> the record types the contract covers
  and \<open>storable\<close> the values that are stored unchanged.
\<close>

locale record_repository =
  fixes R :: "'s repository"
    and inv :: "'s \<Rightarrow> bool"
    and okty :: "string \<Rightarrow> bool"
    and storable :: "jsval \<Rightarrow> bool"
    and look :: "'s \<Rightarrow> string \<Rightarrow> string \<Rightarrow> jsval option"
    and put :: "string \<Rightarrow> string \<Rightarrow> jsval \<Rightarrow> 's \<Rightarrow> 's"
    and remove :: "string \<Rightarrow> string \<Rightarrow> 's \<Rightarrow> 's"
    and listing :: "'s \<Rightarrow> string \<Rightarrow> jsval list"
  assumes find_law: "\<lbrakk>inv s; okty t; i \<noteq> []\<rbrakk> \<Longrightarrow> rfind R t (Str i) s = (Inr (or_null (look s t i)), s)"
    and save_law: "\<lbrakk>inv s; okty t; i \<noteq> []; storable v\<rbrakk> \<Longrightarrow> rsave R t (Str i) v s = (Inr v, put t i v s)"
    and inv_put: "\<lbrakk>inv s; okty t; i \<noteq> []; storable v\<rbrakk> \<Longrightarrow> inv (put t i v s)"
    and look_put: "\<lbrakk>inv s; okty t; okty t'; i \<noteq> []\<rbrakk> \<Longrightarrow>
      look (put t i v s) t' i' = (if t' = t \<and> i' = i then Some v else look s t' i')"
    and delete_law: "\<lbrakk>inv s; okty t; i \<noteq> []\<rbrakk> \<Longrightarrow>
      rdelete R t (Str i) s = (Inr (look s t i \<noteq> None), remove t i s)"
    and inv_remove: "\<lbrakk>inv s; okty t; i \<noteq> []\<rbrakk> \<Longrightarrow> inv (remove t i s)"
    and look_remove: "\<lbrakk>inv s; okty t; okty t'; i \<noteq> []\<rbrakk> \<Longrightarrow>
      look (remove t i s) t' i' = (if t' = t \<and> i' = i then None else look s t' i')"
    and all_law: "\<lbrakk>inv s; okty t\<rbrakk> \<Longrightarrow> rall R t s = (Inr (listing s t), s)"
    and set_listing: "\<lbrakk>inv s; okty t\<rbrakk> \<Longrightarrow> set (listing s t) = {v. \<exists>i. look s t i = Some v}"
    and look_storable: "\<lbrakk>inv s; okty t; look s t i = Some v\<rbrakk> \<Longrightarrow> storable v"
    and storable_spread: "\<lbrakk>storable v; \<forall>(k, x) \<in> set kvs. storable x\<rbrakk> \<Longrightarrow> storable (spread v kvs)"
    and storable_json: "is_json v \<Longrightarrow> storable v"
begin

lemmas repo_run = find_law save_law delete_law all_law

lemma save_find:
  assumes "inv s" "okty t" "i \<noteq> []" "storable v" "v \<noteq> Undefined"
  shows "bnd (rsave R t (Str i) v) (\<lambda>_. rfind R t (Str i)) s = (Inr v, put t i v s)"
  using assms by (simp add: act_simps repo_run inv_put look_put)

lemma find_other_after_save:
  assumes "inv s" "okty t" "okty t'" "i \<noteq> []" "i' \<noteq> []" "storable v" "t' \<noteq> t \<or> i' \<noteq> i"
  shows "fst (bnd (rsave R t (Str i) v) (\<lambda>_. rfind R t' (Str i')) s) = fst (rfind R t' (Str i') s)"
  using assms by (auto simp: act_simps repo_run inv_put look_put)

lemma delete_find:
  assumes "inv s" "okty t" "i \<noteq> []"
  shows "fst (bnd (rdelete R t (Str i)) (\<lambda>_. rfind R t (Str i)) s) = Inr Null"
  using assms by (simp add: act_simps repo_run inv_remove look_remove)

lemma storable_update:
  "\<lbrakk>inv s; okty t; look s t i = Some v; \<forall>(k, x) \<in> set kvs. is_json x\<rbrakk> \<Longrightarrow> storable (spread v kvs)"
  by (rule storable_spread) (auto intro: storable_json dest: look_storable)

lemma storable_Obj: "\<forall>(k, x) \<in> set kvs. is_json x \<Longrightarrow> storable (Obj kvs)"
  by (rule storable_json) simp

end

locale tenant_repository =
  fixes T :: "'s tenant_repository"
    and inv :: "'s \<Rightarrow> bool"
    and okty :: "string \<Rightarrow> string \<Rightarrow> bool"
    and storable :: "jsval \<Rightarrow> bool"
    and look :: "'s \<Rightarrow> string \<Rightarrow> string \<Rightarrow> string \<Rightarrow> jsval option"
    and put :: "string \<Rightarrow> string \<Rightarrow> string \<Rightarrow> jsval \<Rightarrow> 's \<Rightarrow> 's"
    and remove :: "string \<Rightarrow> string \<Rightarrow> string \<Rightarrow> 's \<Rightarrow> 's"
    and listing :: "'s \<Rightarrow> string \<Rightarrow> string \<Rightarrow> jsval list"
  assumes tfind_law: "\<lbrakk>inv s; okty n t; i \<noteq> []\<rbrakk> \<Longrightarrow>
      tfind T (Str n) t (Str i) s = (Inr (or_null (look s n t i)), s)"
    and tsave_law: "\<lbrakk>inv s; okty n t; i \<noteq> []; storable v\<rbrakk> \<Longrightarrow>
      tsave T (Str n) t (Str i) v s = (Inr v, put n t i v s)"
    and inv_tput: "\<lbrakk>inv s; okty n t; i \<noteq> []; storable v\<rbrakk> \<Longrightarrow> inv (put n t i v s)"
    and look_tput: "\<lbrakk>inv s; okty n t; okty n' t'; i \<noteq> []\<rbrakk> \<Longrightarrow>
      look (put n t i v s) n' t' i' = (if n' = n \<and> t' = t \<and> i' = i then Some v else look s n' t' i')"
    and tdelete_law: "\<lbrakk>inv s; okty n t; i \<noteq> []\<rbrakk> \<Longrightarrow>
      tdelete T (Str n) t (Str i) s = (Inr (look s n t i \<noteq> None), remove n t i s)"
    and inv_tremove: "\<lbrakk>inv s; okty n t; i \<noteq> []\<rbrakk> \<Longrightarrow> inv (remove n t i s)"
    and look_tremove: "\<lbrakk>inv s; okty n t; okty n' t'; i \<noteq> []\<rbrakk> \<Longrightarrow>
      look (remove n t i s) n' t' i' = (if n' = n \<and> t' = t \<and> i' = i then None else look s n' t' i')"
    and tall_law: "\<lbrakk>inv s; okty n t\<rbrakk> \<Longrightarrow> tall T (Str n) t s = (Inr (listing s n t), s)"
    and set_tlisting: "\<lbrakk>inv s; okty n t\<rbrakk> \<Longrightarrow> set (listing s n t) = {v. \<exists>i. look s n t i = Some v}"
    and tlook_storable: "\<lbrakk>inv s; okty n t; look s n t i = Some v\<rbrakk> \<Longrightarrow> storable v"
    and tstorable_spread: "\<lbrakk>storable v; \<forall>(k, x) \<in> set kvs. storable x\<rbrakk> \<Longrightarrow> storable (spread v kvs)"
    and tstorable_json: "is_json v \<Longrightarrow> storable v"

section \<open>TenantScopedRepository\<close>

text \<open>
  \<^verbatim>\<open>packages/persistence/tenant_scoped_repository.js\<close>: every method passes \<^verbatim>\<open>this.tenantId\<close>.
\<close>

definition tenant_scoped :: "'s tenant_repository \<Rightarrow> jsval \<Rightarrow> 's repository" where
  "tenant_scoped T tenantId =
     \<lparr>rsave = (\<lambda>t i v. tsave T tenantId t i v),
      rfind = (\<lambda>t i. tfind T tenantId t i),
      rall = (\<lambda>t. tall T tenantId t),
      rdelete = (\<lambda>t i. tdelete T tenantId t i)\<rparr>"

definition new_TenantScopedRepository ::
  "'s tenant_repository option \<Rightarrow> jsval \<Rightarrow> js_error + 's repository" where
  "new_TenantScopedRepository repository tenantId =
     (case repository of
        None \<Rightarrow> Inl (TypeError ''TenantScopedRepository requires a repository'')
      | Some T \<Rightarrow>
          if \<not> truthy tenantId then Inl (TypeError ''TenantScopedRepository requires tenantId'')
          else Inr (tenant_scoped T tenantId))"

lemma tenant_scoped_simps [simp]:
  "rsave (tenant_scoped T n) = (\<lambda>t i v. tsave T n t i v)"
  "rfind (tenant_scoped T n) = (\<lambda>t i. tfind T n t i)"
  "rall (tenant_scoped T n) = (\<lambda>t. tall T n t)"
  "rdelete (tenant_scoped T n) = (\<lambda>t i. tdelete T n t i)"
  by (simp_all add: tenant_scoped_def)

text \<open>A tenant repository seen through one tenant is a record repository.\<close>

sublocale tenant_repository \<subseteq> scoped: record_repository
  "tenant_scoped T (Str n)" inv "okty n" storable "\<lambda>s. look s n" "put n" "remove n" "\<lambda>s. listing s n"
  for n
  by unfold_locales
    (auto simp: tfind_law tsave_law tdelete_law tall_law inv_tput inv_tremove look_tput look_tremove
      set_tlisting intro: tlook_storable tstorable_spread tstorable_json)

end
