(* ===== verification/MemoryRepository.thy ===== *)
theory MemoryRepository
  imports Repository
begin

text \<open>
  \<open>InMemoryRepository\<close> (\<^verbatim>\<open>packages/persistence/repository.js\<close>) and \<open>TestStore\<close>
  (\<^verbatim>\<open>packages/persistence/test_store.js\<close>): one insertion-ordered map under composite keys.
  Both satisfy the repository contract for types (and tenants) without the separator; what
  happens for a tenant that contains it is stated at the end.
\<close>

section \<open>InMemoryRepository\<close>

text \<open>The class state; engines that carry more state extend this record.\<close>

record mem_repo =
  records :: "jsval js_map"

definition new_InMemoryRepository :: mem_repo where
  "new_InMemoryRepository = \<lparr>records = []\<rparr>"

text \<open>\<^verbatim>\<open>`${type}:${id}`\<close>\<close>

definition mem_key :: "string \<Rightarrow> jsval \<Rightarrow> string" where
  "mem_key ty i = ty @ colon # to_str i"

definition mem_save :: "string \<Rightarrow> jsval \<Rightarrow> jsval \<Rightarrow> ('z mem_repo_scheme, jsval) act" where
  "mem_save ty i v = (\<lambda>s.
     if ty = [] \<or> \<not> truthy i then (Inl (TypeError ''Repository requires type and id''), s)
     else (Inr v, s\<lparr>records := AList.update (mem_key ty i) v (records s)\<rparr>))"

definition mem_find :: "string \<Rightarrow> jsval \<Rightarrow> ('z mem_repo_scheme, jsval) act" where
  "mem_find ty i = (\<lambda>s. (Inr (or_null (map_of (records s) (mem_key ty i))), s))"

definition mem_all :: "string \<Rightarrow> ('z mem_repo_scheme, jsval list) act" where
  "mem_all ty = (\<lambda>s. (Inr (map snd (filter (\<lambda>e. prefix (ty @ [colon]) (fst e)) (records s))), s))"

definition mem_delete :: "string \<Rightarrow> jsval \<Rightarrow> ('z mem_repo_scheme, bool) act" where
  "mem_delete ty i = (\<lambda>s.
     (Inr (map_of (records s) (mem_key ty i) \<noteq> None),
      s\<lparr>records := AList.delete (mem_key ty i) (records s)\<rparr>))"

definition mem_clear :: "('z mem_repo_scheme, unit) act" where
  "mem_clear = (\<lambda>s. (Inr (), s\<lparr>records := []\<rparr>))"

definition mem_repository :: "'z mem_repo_scheme repository" where
  "mem_repository = \<lparr>rsave = mem_save, rfind = mem_find, rall = mem_all, rdelete = mem_delete\<rparr>"

lemma mem_repository_simps [simp]:
  "rsave mem_repository = mem_save" "rfind mem_repository = mem_find"
  "rall mem_repository = mem_all" "rdelete mem_repository = mem_delete"
  by (simp_all add: mem_repository_def)

subsection \<open>The contract\<close>

definition mem_inv :: "'z mem_repo_scheme \<Rightarrow> bool" where
  "mem_inv s \<longleftrightarrow> distinct (map fst (records s))"

definition mem_look :: "'z mem_repo_scheme \<Rightarrow> string \<Rightarrow> string \<Rightarrow> jsval option" where
  "mem_look s t i = map_of (records s) (t @ colon # i)"

definition mem_put :: "string \<Rightarrow> string \<Rightarrow> jsval \<Rightarrow> 'z mem_repo_scheme \<Rightarrow> 'z mem_repo_scheme" where
  "mem_put t i v s = s\<lparr>records := AList.update (t @ colon # i) v (records s)\<rparr>"

definition mem_remove :: "string \<Rightarrow> string \<Rightarrow> 'z mem_repo_scheme \<Rightarrow> 'z mem_repo_scheme" where
  "mem_remove t i s = s\<lparr>records := AList.delete (t @ colon # i) (records s)\<rparr>"

definition mem_listing :: "'z mem_repo_scheme \<Rightarrow> string \<Rightarrow> jsval list" where
  "mem_listing s t = map snd (filter (\<lambda>e. prefix (t @ [colon]) (fst e)) (records s))"

lemma prefix_colon_iff: "prefix (t @ [colon]) k \<longleftrightarrow> (\<exists>i. k = t @ colon # i)"
  by (auto simp: prefix_def)

lemma mem_key_inject [simp]:
  "segment t \<Longrightarrow> segment t' \<Longrightarrow> t @ colon # i = t' @ colon # i' \<longleftrightarrow> t = t' \<and> i = i'"
  by (rule segment_append_inject)

lemma mem_set_listing:
  "mem_inv s \<Longrightarrow> set (mem_listing s t) = {v. \<exists>i. mem_look s t i = Some v}"
  unfolding mem_listing_def mem_look_def mem_inv_def
  by (subst set_map_snd_filter) (auto simp: prefix_colon_iff)

interpretation mem: record_repository
  "mem_repository :: 'z mem_repo_scheme repository" mem_inv segment "\<lambda>_. True" mem_look mem_put mem_remove mem_listing
proof (unfold_locales, goal_cases)
  case (1 s t i) then show ?case by (simp add: mem_find_def mem_look_def mem_key_def)
next
  case (2 s t i v) then show ?case by (auto simp: mem_save_def mem_put_def mem_key_def)
next
  case (3 s t i v) then show ?case by (auto simp: mem_inv_def mem_put_def)
next
  case (4 s t t' i v i') then show ?case by (auto simp: mem_look_def mem_put_def)
next
  case (5 s t i) then show ?case by (simp add: mem_delete_def mem_look_def mem_remove_def mem_key_def)
next
  case (6 s t i) then show ?case by (auto simp: mem_inv_def mem_remove_def)
next
  case (7 s t t' i i') then show ?case by (auto simp: mem_look_def mem_remove_def)
next
  case (8 s t) then show ?case by (simp add: mem_all_def mem_listing_def)
next
  case (9 s t) then show ?case by (simp add: mem_set_listing)
qed auto

section \<open>TestStore\<close>

definition test_key :: "jsval \<Rightarrow> string \<Rightarrow> jsval \<Rightarrow> js_error + string" where
  "test_key n t i =
     (if \<not> truthy n \<or> t = [] \<or> \<not> truthy i then Inl (TypeError ''Repository requires tenantId, type and id'')
      else Inr (to_str n @ colon # t @ colon # to_str i))"

definition test_save :: "jsval \<Rightarrow> string \<Rightarrow> jsval \<Rightarrow> jsval \<Rightarrow> ('z mem_repo_scheme, jsval) act" where
  "test_save n t i v = (\<lambda>s. case test_key n t i of
       Inl e \<Rightarrow> (Inl e, s)
     | Inr k \<Rightarrow> (Inr v, s\<lparr>records := AList.update k v (records s)\<rparr>))"

definition test_find :: "jsval \<Rightarrow> string \<Rightarrow> jsval \<Rightarrow> ('z mem_repo_scheme, jsval) act" where
  "test_find n t i = (\<lambda>s. case test_key n t i of
       Inl e \<Rightarrow> (Inl e, s)
     | Inr k \<Rightarrow> (Inr (or_null (map_of (records s) k)), s))"

definition test_all :: "jsval \<Rightarrow> string \<Rightarrow> ('z mem_repo_scheme, jsval list) act" where
  "test_all n t = (\<lambda>s.
     if \<not> truthy n \<or> t = [] then (Inl (TypeError ''Repository requires tenantId and type''), s)
     else (Inr (map snd (filter (\<lambda>e. prefix (to_str n @ colon # t @ [colon]) (fst e)) (records s))), s))"

definition test_delete :: "jsval \<Rightarrow> string \<Rightarrow> jsval \<Rightarrow> ('z mem_repo_scheme, bool) act" where
  "test_delete n t i = (\<lambda>s. case test_key n t i of
       Inl e \<Rightarrow> (Inl e, s)
     | Inr k \<Rightarrow> (Inr (map_of (records s) k \<noteq> None), s\<lparr>records := AList.delete k (records s)\<rparr>))"

definition test_store :: "'z mem_repo_scheme tenant_repository" where
  "test_store = \<lparr>tsave = test_save, tfind = test_find, tall = test_all, tdelete = test_delete\<rparr>"

text \<open>
  The composite keys of a tenant and a type without separators are the keys of an in-memory
  repository whose type is \<^verbatim>\<open>`${tenantId}:${type}`\<close>, and unambiguous.
\<close>

lemma test_key_Str: "\<lbrakk>segment n; segment t; i \<noteq> []\<rbrakk> \<Longrightarrow> test_key (Str n) t (Str i) = Inr ((n @ colon # t) @ colon # i)"
  by (auto simp: test_key_def)

lemma test_key_inject:
  assumes "segment n" "segment t" "segment n'" "segment t'"
  shows "(n @ colon # t) @ colon # i = (n' @ colon # t') @ colon # i' \<longleftrightarrow> n = n' \<and> t = t' \<and> i = i'"
  using assms by simp

interpretation test: tenant_repository
  "test_store :: 'z mem_repo_scheme tenant_repository" mem_inv "\<lambda>n t. segment n \<and> segment t" "\<lambda>_. True"
  "\<lambda>s n t. mem_look s (n @ colon # t)" "\<lambda>n t. mem_put (n @ colon # t)" "\<lambda>n t. mem_remove (n @ colon # t)"
  "\<lambda>s n t. mem_listing s (n @ colon # t)"
proof (unfold_locales, goal_cases)
  case (1 s n t i) then show ?case
    by (simp add: test_store_def test_find_def mem_look_def test_key_Str)
next
  case (2 s n t i v) then show ?case
    by (simp add: test_store_def test_save_def mem_put_def test_key_Str)
next
  case (3 s n t i v) then show ?case by (auto simp: mem_inv_def mem_put_def)
next
  case (4 s n t n' t' i v i') then show ?case
    by (auto simp: mem_look_def mem_put_def test_key_inject [simplified])
next
  case (5 s n t i) then show ?case
    by (simp add: test_store_def test_delete_def mem_look_def mem_remove_def test_key_Str)
next
  case (6 s n t i) then show ?case by (auto simp: mem_inv_def mem_remove_def)
next
  case (7 s n t n' t' i i') then show ?case
    by (auto simp: mem_look_def mem_remove_def test_key_inject [simplified])
next
  case (8 s n t) then show ?case by (auto simp: test_store_def test_all_def mem_listing_def)
next
  case (9 s n t) then show ?case by (simp add: mem_set_listing)
qed auto

end
