(* ===== verification/PostgresRepository.thy ===== *)
theory PostgresRepository
  imports Repository
begin

text \<open>
  \<open>PostgresRepository\<close> (\<^verbatim>\<open>packages/persistence/postgres_repository.js\<close>) over the table
  \<^verbatim>\<open>bos_records\<close> of \<^verbatim>\<open>packages/persistence/production_store.js\<close>, whose primary key is
  (tenant, type, id). Each SQL statement of the source is one definition on the table; the
  database's \<^verbatim>\<open>NOW()\<close> is a component of the state. JSON columns keep their key order here
  (no modelled code observes it), and rows with equal \<^verbatim>\<open>created_at\<close> keep their table order,
  which Postgres leaves open.
\<close>

record bos_row =
  row_tenant :: string
  row_type :: string
  row_id :: string
  row_value :: jsval
  row_created :: int
  row_updated :: int

record pg_db =
  bos_records :: "bos_row list"
  pg_now :: int

definition row_key :: "bos_row \<Rightarrow> string \<times> string \<times> string" where
  "row_key r = (row_tenant r, row_type r, row_id r)"

text \<open>\<^verbatim>\<open>INSERT ... ON CONFLICT (tenant_id, record_type, record_id) DO UPDATE SET value, updated_at\<close>\<close>

fun sql_upsert :: "bos_row \<Rightarrow> bos_row list \<Rightarrow> bos_row list" where
  "sql_upsert r [] = [r]"
| "sql_upsert r (x # xs) =
     (if row_key x = row_key r then x\<lparr>row_value := row_value r, row_updated := row_updated r\<rparr> # xs
      else x # sql_upsert r xs)"

text \<open>\<^verbatim>\<open>SELECT value ... WHERE tenant_id = $1 AND record_type = $2 AND record_id = $3\<close>\<close>

definition sql_select_value :: "string \<times> string \<times> string \<Rightarrow> bos_row list \<Rightarrow> jsval list" where
  "sql_select_value k rs = map row_value (filter (\<lambda>r. row_key r = k) rs)"

text \<open>\<^verbatim>\<open>SELECT value ... WHERE tenant_id = $1 AND record_type = $2 ORDER BY created_at ASC\<close>\<close>

definition sql_select_all :: "string \<Rightarrow> string \<Rightarrow> bos_row list \<Rightarrow> jsval list" where
  "sql_select_all n t rs = map row_value (sort_key row_created (filter (\<lambda>r. row_tenant r = n \<and> row_type r = t) rs))"

text \<open>\<^verbatim>\<open>DELETE FROM bos_records WHERE ...\<close>: the remaining rows and the row count.\<close>

definition sql_delete :: "string \<times> string \<times> string \<Rightarrow> bos_row list \<Rightarrow> bos_row list \<times> nat" where
  "sql_delete k rs = (filter (\<lambda>r. row_key r \<noteq> k) rs, length (filter (\<lambda>r. row_key r = k) rs))"

section \<open>The methods\<close>

definition validateIdentity :: "jsval \<Rightarrow> string \<Rightarrow> jsval \<Rightarrow> js_error option" where
  "validateIdentity n t i =
     (if \<not> truthy n \<or> t = [] \<or> \<not> truthy i
      then Some (TypeError ''Repository requires tenantId, type and id'') else None)"

text \<open>The NOT NULL constraint on the value column, which an undefined value violates.\<close>

definition not_null_violation :: js_error where
  "not_null_violation = Exn ''error'' ''null value in column \"value\" violates not-null constraint'' [(''code'', Str ''23502'')]"

definition pg_save :: "jsval \<Rightarrow> string \<Rightarrow> jsval \<Rightarrow> jsval \<Rightarrow> (pg_db, jsval) act" where
  "pg_save n t i v = (\<lambda>s. case validateIdentity n t i of
       Some e \<Rightarrow> (Inl e, s)
     | None \<Rightarrow>
         if v = Undefined then (Inl not_null_violation, s)
         else (let r = \<lparr>row_tenant = to_str n, row_type = t, row_id = to_str i, row_value = to_json v,
                        row_created = pg_now s, row_updated = pg_now s\<rparr>
               in (Inr (row_value r), s\<lparr>bos_records := sql_upsert r (bos_records s)\<rparr>)))"

definition pg_find :: "jsval \<Rightarrow> string \<Rightarrow> jsval \<Rightarrow> (pg_db, jsval) act" where
  "pg_find n t i = (\<lambda>s. case validateIdentity n t i of
       Some e \<Rightarrow> (Inl e, s)
     | None \<Rightarrow>
         (Inr (case sql_select_value (to_str n, t, to_str i) (bos_records s) of
                 [] \<Rightarrow> Null | v # _ \<Rightarrow> js_coalesce v Null), s))"

definition pg_all :: "jsval \<Rightarrow> string \<Rightarrow> (pg_db, jsval list) act" where
  "pg_all n t = (\<lambda>s.
     if \<not> truthy n \<or> t = [] then (Inl (TypeError ''Repository requires tenantId and type''), s)
     else (Inr (sql_select_all (to_str n) t (bos_records s)), s))"

definition pg_delete :: "jsval \<Rightarrow> string \<Rightarrow> jsval \<Rightarrow> (pg_db, bool) act" where
  "pg_delete n t i = (\<lambda>s. case validateIdentity n t i of
       Some e \<Rightarrow> (Inl e, s)
     | None \<Rightarrow>
         (let (rs, rowCount) = sql_delete (to_str n, t, to_str i) (bos_records s)
          in (Inr (rowCount = 1), s\<lparr>bos_records := rs\<rparr>)))"

text \<open>
  \<^verbatim>\<open>transaction(callback)\<close>: BEGIN, the callback, COMMIT; a rejection rolls the tables back to
  what they were at BEGIN and is rethrown. Connection failures are outside the model.
\<close>

definition pg_transaction :: "(pg_db, 'a) act \<Rightarrow> (pg_db, 'a) act" where
  "pg_transaction callback = (\<lambda>s. case callback s of
       (Inr r, s') \<Rightarrow> (Inr r, s')
     | (Inl e, s') \<Rightarrow> (Inl e, s'\<lparr>bos_records := bos_records s\<rparr>))"

definition pg_repository :: "pg_db tenant_repository" where
  "pg_repository = \<lparr>tsave = pg_save, tfind = pg_find, tall = pg_all, tdelete = pg_delete\<rparr>"

text \<open>\<^verbatim>\<open>PostgresRepository.fromConnectionString\<close> refuses an empty connection string.\<close>

definition fromConnectionString :: "jsval \<Rightarrow> js_error + pg_db tenant_repository" where
  "fromConnectionString c =
     (if \<not> truthy c then Inl (TypeError ''DATABASE_URL is required'') else Inr pg_repository)"

section \<open>Stored values\<close>

lemma is_json_to_json: "v \<noteq> Undefined \<Longrightarrow> is_json (to_json v)"
proof (induction v rule: to_json.induct)
  case (4 fs)
  then show ?case by fastforce
qed auto

section \<open>The contract\<close>

definition pg_content :: "bos_row list \<Rightarrow> (string \<times> string \<times> string) \<Rightarrow> jsval option" where
  "pg_content rs = map_of (map (\<lambda>r. (row_key r, row_value r)) rs)"

definition pg_look :: "pg_db \<Rightarrow> string \<Rightarrow> string \<Rightarrow> string \<Rightarrow> jsval option" where
  "pg_look s n t i = pg_content (bos_records s) (n, t, i)"

definition pg_inv :: "pg_db \<Rightarrow> bool" where
  "pg_inv s \<longleftrightarrow> distinct (map row_key (bos_records s)) \<and> (\<forall>r \<in> set (bos_records s). is_json (row_value r))"

definition pg_put :: "string \<Rightarrow> string \<Rightarrow> string \<Rightarrow> jsval \<Rightarrow> pg_db \<Rightarrow> pg_db" where
  "pg_put n t i v s =
     s\<lparr>bos_records := sql_upsert \<lparr>row_tenant = n, row_type = t, row_id = i, row_value = v,
         row_created = pg_now s, row_updated = pg_now s\<rparr> (bos_records s)\<rparr>"

definition pg_remove :: "string \<Rightarrow> string \<Rightarrow> string \<Rightarrow> pg_db \<Rightarrow> pg_db" where
  "pg_remove n t i s = s\<lparr>bos_records := fst (sql_delete (n, t, i) (bos_records s))\<rparr>"

lemma content_upsert: "pg_content (sql_upsert r rs) k = (if k = row_key r then Some (row_value r) else pg_content rs k)"
  by (induction r rs rule: sql_upsert.induct) (auto simp: pg_content_def row_key_def)

lemma set_keys_upsert: "set (map row_key (sql_upsert r rs)) = insert (row_key r) (set (map row_key rs))"
  by (induction r rs rule: sql_upsert.induct) (auto simp: row_key_def)

lemma distinct_upsert: "distinct (map row_key rs) \<Longrightarrow> distinct (map row_key (sql_upsert r rs))"
proof (induction r rs rule: sql_upsert.induct)
  case (2 r x xs)
  have "row_key (x\<lparr>row_value := row_value r, row_updated := row_updated r\<rparr>) = row_key x"
    by (simp add: row_key_def)
  with 2 show ?case using set_keys_upsert [of r xs] by auto
qed simp

lemma json_upsert:
  "\<forall>x \<in> set rs. is_json (row_value x) \<Longrightarrow> is_json (row_value r) \<Longrightarrow> \<forall>x \<in> set (sql_upsert r rs). is_json (row_value x)"
  by (induction r rs rule: sql_upsert.induct) auto

lemma select_value:
  "distinct (map row_key rs) \<Longrightarrow>
   sql_select_value k rs = (case pg_content rs k of None \<Rightarrow> [] | Some v \<Rightarrow> [v])"
proof (induction rs)
  case (Cons r rs)
  have "filter (\<lambda>x. row_key x = row_key r) rs = []"
    using Cons.prems by (force simp: filter_empty_conv image_iff)
  with Cons show ?case
    by (auto simp: sql_select_value_def pg_content_def split: option.splits)
qed (simp add: sql_select_value_def pg_content_def)

lemma content_eq_Some:
  "distinct (map row_key rs) \<Longrightarrow> pg_content rs k = Some v \<longleftrightarrow> (\<exists>r \<in> set rs. row_key r = k \<and> row_value r = v)"
proof -
  assume "distinct (map row_key rs)"
  then have "distinct (map fst (map (\<lambda>r. (row_key r, row_value r)) rs))" by (simp add: comp_def)
  then show ?thesis unfolding pg_content_def by (subst map_of_eq_Some_iff) auto
qed

lemma content_delete: "pg_content (filter (\<lambda>r. row_key r \<noteq> k) rs) k' = (if k' = k then None else pg_content rs k')"
  by (induction rs) (auto simp: pg_content_def)

lemma delete_count:
  "distinct (map row_key rs) \<Longrightarrow> length (filter (\<lambda>r. row_key r = k) rs) = (if pg_content rs k = None then 0 else 1)"
  using select_value [of rs k] by (auto simp: sql_select_value_def split: option.splits dest: arg_cong [of _ _ length])

interpretation pg: tenant_repository
  pg_repository pg_inv "\<lambda>n t. n \<noteq> [] \<and> t \<noteq> []" is_json pg_look pg_put pg_remove
  "\<lambda>s n t. sql_select_all n t (bos_records s)"
proof (unfold_locales, goal_cases)
  case (1 s n t i)
  then show ?case
    by (auto simp: pg_repository_def pg_find_def validateIdentity_def select_value pg_inv_def pg_look_def
        js_coalesce_def or_null_def split: option.splits)
next
  case (2 s n t i v)
  then show ?case
    by (auto simp: pg_repository_def pg_save_def validateIdentity_def pg_put_def to_json_id)
next
  case (3 s n t i v)
  then show ?case by (auto simp: pg_inv_def pg_put_def distinct_upsert dest: json_upsert [rule_format, rotated -1])
next
  case (4 s n t n' t' i v i')
  then show ?case by (auto simp: pg_look_def pg_put_def content_upsert row_key_def)
next
  case (5 s n t i)
  then show ?case
    by (auto simp: pg_repository_def pg_delete_def validateIdentity_def sql_delete_def pg_remove_def
        pg_inv_def pg_look_def delete_count)
next
  case (6 s n t i)
  then show ?case by (auto simp: pg_inv_def pg_remove_def sql_delete_def distinct_map_filter)
next
  case (7 s n t n' t' i i')
  then show ?case by (auto simp: pg_look_def pg_remove_def sql_delete_def content_delete)
next
  case (8 s n t)
  then show ?case by (simp add: pg_repository_def pg_all_def)
next
  case (9 s n t)
  then show ?case by (force simp: sql_select_all_def pg_look_def pg_inv_def content_eq_Some row_key_def)
next
  case (10 s n t i v)
  then show ?case by (auto simp: pg_look_def pg_inv_def content_eq_Some)
next
  case (11 v kvs)
  then show ?case by (rule is_json_spread)
qed auto

text \<open>Whatever is saved, the table stays well formed, and a saved value is found as its JSON image.\<close>

lemma pg_save_Inr:
  assumes "pg_inv s" "pg_save n t i v s = (Inr r, s')"
  shows "r = to_json v" "is_json r" "s' = pg_put (to_str n) t (to_str i) r s" "pg_inv s'" "truthy n \<and> t \<noteq> [] \<and> truthy i"
proof -
  have v: "v \<noteq> Undefined" "truthy n \<and> t \<noteq> [] \<and> truthy i" "r = to_json v" "s' = pg_put (to_str n) t (to_str i) r s"
    using assms(2) by (auto simp: pg_save_def validateIdentity_def pg_put_def Let_def split: if_splits)
  then show "r = to_json v" "s' = pg_put (to_str n) t (to_str i) r s" "truthy n \<and> t \<noteq> [] \<and> truthy i" "is_json r" by (simp_all add: is_json_to_json)
  then show "pg_inv s'" using assms(1)
    by (auto simp: pg_inv_def pg_put_def distinct_upsert dest: json_upsert [rule_format, rotated -1])
qed

lemma keeps_pg_save: "keeps pg_inv (pg_save n t i v)"
proof (rule keepsI)
  fix s assume s: "pg_inv s"
  obtain r s' where r: "pg_save n t i v s = (r, s')" by fastforce
  show "pg_inv (snd (pg_save n t i v s))"
  proof (cases r)
    case (Inl e)
    then have "s' = s" using r by (auto simp: pg_save_def Let_def split: option.splits if_splits)
    with r s show ?thesis by simp
  next
    case (Inr v)
    with r pg_save_Inr(4) [OF s] show ?thesis by simp
  qed
qed

end
