(* ===== verification/Workflow.thy ===== *)
theory Workflow
  imports Domain MemoryRepository PostgresRepository
begin

text \<open>
  \<open>WorkflowEngine\<close> (\<^verbatim>\<open>modules/workflow/engine.js\<close>): task transitions persisted through a
  record repository and announced on an optional event bus after they are persisted.
\<close>

section \<open>The engine\<close>

text \<open>An event bus is what its \<^verbatim>\<open>publish\<close> does; null is no bus.\<close>

type_synonym 's bus = "(jsval \<Rightarrow> ('s, jsval) act) option"

text \<open>\<^verbatim>\<open>if (this.eventBus) await this.eventBus.publish(event)\<close>\<close>

definition publish_on :: "'s bus \<Rightarrow> jsval \<Rightarrow> ('s, unit) act" where
  "publish_on bus event = (case bus of None \<Rightarrow> ret () | Some p \<Rightarrow> bnd (p event) (\<lambda>_. ret ()))"

record 's workflow_engine =
  we_repository :: "'s repository"
  we_eventBus :: "'s bus"

definition new_WorkflowEngine :: "'s repository option \<Rightarrow> 's bus \<Rightarrow> js_error + 's workflow_engine" where
  "new_WorkflowEngine repository bus =
     (case repository of
        None \<Rightarrow> Inl (TypeError ''WorkflowEngine requires a repository'')
      | Some R \<Rightarrow> Inr \<lparr>we_repository = R, we_eventBus = bus\<rparr>)"

definition VALID_STATUSES :: "jsval list" where
  "VALID_STATUSES = [Str ''pending'', Str ''in_progress'', Str ''completed'']"

definition task_event :: "string \<Rightarrow> jsval \<Rightarrow> jsval" where
  "task_event ty result =
     Obj [(''type'', Str ty), (''taskId'', field result ''id''),
          (''processId'', field result ''processId''), (''status'', field result ''status'')]"

definition startTask :: "'s workflow_engine \<Rightarrow> jsval \<Rightarrow> jsval \<Rightarrow> ('s, jsval) act" where
  "startTask we taskId processId =
     bnd (rfind (we_repository we) ''task'' taskId) (\<lambda>task.
       if \<not> truthy task then throw (Error ''TASK_NOT_FOUND'')
       else if \<not> strict_eq (field task ''processId'') processId then throw (Error ''PROCESS_BOUNDARY_VIOLATION'')
       else if field task ''status'' = Str ''completed'' then throw (Error ''TASK_ALREADY_COMPLETED'')
       else bnd (rsave (we_repository we) ''task'' (field task ''id'') (spread task [(''status'', Str ''in_progress'')])) (\<lambda>result.
            bnd (publish_on (we_eventBus we) (task_event ''task.started'' result)) (\<lambda>_. ret result)))"

definition completeTask :: "'s workflow_engine \<Rightarrow> jsval \<Rightarrow> jsval \<Rightarrow> ('s, jsval) act" where
  "completeTask we taskId processId =
     bnd (rfind (we_repository we) ''task'' taskId) (\<lambda>task.
       if \<not> truthy task then throw (Error ''TASK_NOT_FOUND'')
       else if \<not> strict_eq (field task ''processId'') processId then throw (Error ''PROCESS_BOUNDARY_VIOLATION'')
       else if field task ''status'' = Str ''completed'' then throw (Error ''TASK_ALREADY_COMPLETED'')
       else bnd (rsave (we_repository we) ''task'' (field task ''id'') (spread task [(''status'', Str ''completed'')])) (\<lambda>result.
            bnd (publish_on (we_eventBus we) (task_event ''task.completed'' result)) (\<lambda>_. ret result)))"

definition getTask :: "'s workflow_engine \<Rightarrow> jsval \<Rightarrow> ('s, jsval) act" where
  "getTask we taskId =
     bnd (rfind (we_repository we) ''task'' taskId) (\<lambda>task.
       if \<not> truthy task then throw (Error ''TASK_NOT_FOUND'')
       else if field task ''status'' \<notin> set VALID_STATUSES then throw (Error ''INVALID_TASK_STATE'')
       else ret task)"

section \<open>The task lifecycle as an abstract machine\<close>

text \<open>The documented lifecycle, ordered.\<close>

datatype task_status = Pending | In_Progress | Completed

instantiation task_status :: linorder
begin

fun status_rank :: "task_status \<Rightarrow> nat" where
  "status_rank Pending = 0"
| "status_rank In_Progress = 1"
| "status_rank Completed = 2"

definition less_eq_task_status :: "task_status \<Rightarrow> task_status \<Rightarrow> bool" where
  "less_eq_task_status a b \<longleftrightarrow> status_rank a \<le> status_rank b"

definition less_task_status :: "task_status \<Rightarrow> task_status \<Rightarrow> bool" where
  "less_task_status a b \<longleftrightarrow> status_rank a < status_rank b"

instance
proof
  fix a b :: task_status
  show "a \<le> b \<Longrightarrow> b \<le> a \<Longrightarrow> a = b"
    by (cases a; cases b) (simp_all add: less_eq_task_status_def)
qed (auto simp: less_eq_task_status_def less_task_status_def)

end

fun status_val :: "task_status \<Rightarrow> jsval" where
  "status_val Pending = Str ''pending''"
| "status_val In_Progress = Str ''in_progress''"
| "status_val Completed = Str ''completed''"

datatype task_op = Start | Finish

fun op_event :: "task_op \<Rightarrow> string" where
  "op_event Start = ''task.started''"
| "op_event Finish = ''task.completed''"

fun op_target :: "task_op \<Rightarrow> task_status" where
  "op_target Start = In_Progress"
| "op_target Finish = Completed"

text \<open>What a transition may do: nothing leaves the completed state.\<close>

fun spec_step :: "task_op \<Rightarrow> task_status \<Rightarrow> task_status option" where
  "spec_step _ Completed = None"
| "spec_step x _ = Some (op_target x)"

definition run_op :: "'s workflow_engine \<Rightarrow> task_op \<Rightarrow> jsval \<Rightarrow> jsval \<Rightarrow> ('s, jsval) act" where
  "run_op we x = (case x of Start \<Rightarrow> startTask we | Finish \<Rightarrow> completeTask we)"

lemma spec_step_monotone: "spec_step x st = Some st' \<Longrightarrow> st \<le> st'"
  by (cases x; cases st) (auto simp: less_eq_task_status_def)

lemma status_val_simps [simp]:
  "status_val st = Str ''completed'' \<longleftrightarrow> st = Completed"
  "status_val st \<in> set VALID_STATUSES"
  "status_val st = status_val st' \<longleftrightarrow> st = st'"
  by (cases st; cases st'; simp add: VALID_STATUSES_def)+

text \<open>A task as it is stored: its id is its key, its status one of the three.\<close>

definition stored_task :: "string \<Rightarrow> jsval \<Rightarrow> task_status \<Rightarrow> jsval \<Rightarrow> bool" where
  "stored_task i pid st t \<longleftrightarrow>
     is_obj t \<and> field t ''id'' = Str i \<and> field t ''processId'' = pid \<and> field t ''status'' = status_val st"

lemma stored_task_spread:
  "stored_task i pid st t \<Longrightarrow> stored_task i pid st' (spread t [(''status'', status_val st')])"
  by (auto simp: stored_task_def js_simps)

lemma stored_task_simps:
  assumes "stored_task i pid st t"
  shows "truthy t" "t \<noteq> Undefined" "or_null (Some t) = t" "field t ''id'' = Str i"
    "field t ''processId'' = pid" "field t ''status'' = status_val st" "is_obj t"
  using assms by (cases t; simp add: stored_task_def)+

lemma run_op_unfold:
  "run_op we x taskId processId =
     bnd (rfind (we_repository we) ''task'' taskId) (\<lambda>task.
       if \<not> truthy task then throw (Error ''TASK_NOT_FOUND'')
       else if \<not> strict_eq (field task ''processId'') processId then throw (Error ''PROCESS_BOUNDARY_VIOLATION'')
       else if field task ''status'' = Str ''completed'' then throw (Error ''TASK_ALREADY_COMPLETED'')
       else bnd (rsave (we_repository we) ''task'' (field task ''id'') (spread task [(''status'', status_val (op_target x))])) (\<lambda>result.
            bnd (publish_on (we_eventBus we) (task_event (op_event x) result)) (\<lambda>_. ret result)))"
  by (cases x) (simp_all add: run_op_def startTask_def completeTask_def cong: if_cong)

text \<open>All tasks of a repository are well formed.\<close>

definition tasks_wf :: "('s \<Rightarrow> string \<Rightarrow> string \<Rightarrow> jsval option) \<Rightarrow> 's \<Rightarrow> bool" where
  "tasks_wf look s \<longleftrightarrow> (\<forall>i t. look s ''task'' i = Some t \<longrightarrow> i \<noteq> [] \<and> (\<exists>pid st. stored_task i pid st t))"

text \<open>The abstract status of a stored task.\<close>

definition status_of :: "jsval option \<Rightarrow> task_status option" where
  "status_of x = (case x of None \<Rightarrow> None | Some t \<Rightarrow>
     (if field t ''status'' = Str ''completed'' then Some Completed
      else if field t ''status'' = Str ''in_progress'' then Some In_Progress else Some Pending))"

lemma status_of_stored: "stored_task i pid st t \<Longrightarrow> status_of (Some t) = Some st"
  by (cases st) (auto simp: status_of_def stored_task_def)

lemma tasks_wfD:
  assumes "tasks_wf look s" "look s ''task'' i = Some t"
  obtains pid st where "i \<noteq> []" "stored_task i pid st t"
  using assms unfolding tasks_wf_def by blast

section \<open>The engine refines the lifecycle\<close>

context record_repository
begin

text \<open>
  One transition on a well-formed task, every branch: it refuses a foreign process and a
  completed task without touching the state, and otherwise persists the new status before
  anything is published.
\<close>

lemma run_op_spec:
  assumes "inv s" "okty ''task''" "i \<noteq> []" "look s ''task'' i = Some t" "stored_task i pid st t"
    and "we_repository we = R"
  shows "run_op we x (Str i) p s =
     (if \<not> strict_eq pid p then (Inl (Error ''PROCESS_BOUNDARY_VIOLATION''), s)
      else case spec_step x st of
        None \<Rightarrow> (Inl (Error ''TASK_ALREADY_COMPLETED''), s)
      | Some st' \<Rightarrow>
          (let t' = spread t [(''status'', status_val st')]
           in bnd (publish_on (we_eventBus we) (task_event (op_event x) t')) (\<lambda>_. ret t') (put ''task'' i t' s)))"
proof -
  note st = assms(5)
  have storable: "storable (spread t [(''status'', Str x)])" for x
    using assms by (auto intro: storable_update)
  show ?thesis
    using assms st storable
    by (cases st; cases x)
      (simp_all add: run_op_unfold bnd_run find_law save_law Let_def stored_task_simps)
qed

lemma run_op_missing:
  assumes "inv s" "okty ''task''" "i \<noteq> []" "look s ''task'' i = None" "we_repository we = R"
  shows "run_op we x (Str i) p s = (Inl (Error ''TASK_NOT_FOUND''), s)"
  using assms by (simp add: run_op_unfold act_simps find_law)

text \<open>
  With no bus, a transition either leaves the state alone or saves the named task with a
  status that is not earlier in the lifecycle.
\<close>

lemma run_op_state:
  assumes "inv s" "okty ''task''" "tasks_wf look s" "i \<noteq> []"
    and "we_repository we = R" "we_eventBus we = None"
  obtains (same) "snd (run_op we x (Str i) p s) = s"
  | (saved) t t' pid st st' where "look s ''task'' i = Some t" "stored_task i pid st t" "stored_task i pid st' t'"
      "st \<le> st'" "storable t'" "snd (run_op we x (Str i) p s) = put ''task'' i t' s"
proof (cases "look s ''task'' i")
  case None
  with assms have "snd (run_op we x (Str i) p s) = s" by (simp add: run_op_missing)
  then show ?thesis by (rule same)
next
  case (Some t)
  then obtain pid st where t: "stored_task i pid st t"
    using tasks_wfD [OF assms(3) Some] by blast
  show ?thesis
  proof (cases "strict_eq pid p \<and> spec_step x st \<noteq> None")
    case False
    then have "snd (run_op we x (Str i) p s) = s"
      using assms(1,2,4,5) Some t by (auto simp: run_op_spec split: option.splits)
    then show ?thesis by (rule same)
  next
    case True
    then obtain st' where st': "spec_step x st = Some st'" by auto
    let ?t' = "spread t [(''status'', status_val st')]"
    have "snd (run_op we x (Str i) p s) = put ''task'' i ?t' s"
      using assms(1,2,4-6) Some t True st' by (simp add: run_op_spec publish_on_def Let_def)
    moreover have "storable ?t'"
      using assms(1,2) Some by (rule storable_update) (cases st', auto)
    ultimately show ?thesis
      using Some t stored_task_spread [OF t] spec_step_monotone [OF st'] by (blast intro: saved)
  qed
qed

lemma run_op_keeps:
  assumes "inv s" "okty ''task''" "tasks_wf look s" "i \<noteq> []"
    and "we_repository we = R" "we_eventBus we = None"
  shows "inv (snd (run_op we x (Str i) p s))" "tasks_wf look (snd (run_op we x (Str i) p s))"
    "\<lbrakk>okty t'; t' \<noteq> ''task'' \<or> k \<noteq> i\<rbrakk> \<Longrightarrow> look (snd (run_op we x (Str i) p s)) t' k = look s t' k"
    "rel_option (\<le>) (status_of (look s ''task'' k)) (status_of (look (snd (run_op we x (Str i) p s)) ''task'' k))"
proof -
  let ?s' = "snd (run_op we x (Str i) p s)"
  have "inv ?s' \<and> tasks_wf look ?s' \<and> (\<forall>t' k. okty t' \<longrightarrow> t' \<noteq> ''task'' \<or> k \<noteq> i \<longrightarrow> look ?s' t' k = look s t' k)
    \<and> (\<forall>k. rel_option (\<le>) (status_of (look s ''task'' k)) (status_of (look ?s' ''task'' k)))"
    using assms
  proof (cases rule: run_op_state [where x = x and p = p, case_names same saved])
    case same
    with assms show ?thesis by (simp add: rel_option_iff split: option.splits)
  next
    case (saved t t' pid st st')
    have look: "okty ty \<Longrightarrow> look ?s' ty k = (if ty = ''task'' \<and> k = i then Some t' else look s ty k)" for ty k
      using saved(6) assms by (simp add: look_put)
    have "tasks_wf look ?s'"
      using assms(2-4) saved(3) unfolding tasks_wf_def by (auto simp: look)
    moreover have "rel_option (\<le>) (status_of (look s ''task'' k)) (status_of (look ?s' ''task'' k))" for k
      using look [OF assms(2), of k] saved(1-4)
      by (cases "k = i") (auto simp: status_of_stored rel_option_iff split: option.splits)
    ultimately show ?thesis using saved assms look by (auto simp: inv_put)
  qed
  then show "inv ?s'" "tasks_wf look ?s'" "\<lbrakk>okty t'; t' \<noteq> ''task'' \<or> k \<noteq> i\<rbrakk> \<Longrightarrow> look ?s' t' k = look s t' k"
    "rel_option (\<le>) (status_of (look s ''task'' k)) (status_of (look ?s' ''task'' k))" by auto
qed

text \<open>A transition that resolves leaves the task in its target status.\<close>

lemma run_op_resolved:
  assumes "inv s" "okty ''task''" "tasks_wf look s" "i \<noteq> []"
    and "we_repository we = R" "we_eventBus we = None" "fst (run_op we x (Str i) p s) = Inr r"
  shows "status_of (look (snd (run_op we x (Str i) p s)) ''task'' i) = Some (op_target x)"
proof (cases "look s ''task'' i")
  case None
  with assms show ?thesis by (simp add: run_op_missing)
next
  case (Some t)
  then obtain pid st where t: "stored_task i pid st t"
    using tasks_wfD [OF assms(3) Some] by blast
  note spec = run_op_spec [OF assms(1,2,4) Some t assms(5), of x p]
  have st: "strict_eq pid p" "spec_step x st = Some (op_target x)"
    using assms(7) unfolding spec by (cases st; simp split: if_splits)+
  have "snd (run_op we x (Str i) p s) = put ''task'' i (spread t [(''status'', status_val (op_target x))]) s"
    unfolding spec using st assms(6) by (simp add: publish_on_def Let_def)
  then show ?thesis
    using assms(1,2,4) status_of_stored [OF stored_task_spread [OF t]] by (simp add: look_put)
qed

end

end
