(* ===== verification/Queue.thy ===== *)
theory Queue
  imports Workflow
begin

text \<open>
  \<open>QueueWorkerEngine\<close> (\<^verbatim>\<open>modules/queue/engine.js\<close>): queue records with worker leases, kept in
  a record repository. The abstract queue item and its transitions follow; the engine is
  shown to refine them operation by operation.
\<close>

section \<open>The engine\<close>

text \<open>
  \<^verbatim>\<open>this.workflowEngine\<close> is used through \<^verbatim>\<open>completeTask({ taskId, processId })\<close> only. The event
  subscription of the constructor registers \<open>handleTaskCompleted\<close> (theory \<open>System\<close>).
\<close>

record 's queue_engine =
  qe_repository :: "'s repository"
  qe_completeTask :: "jsval \<Rightarrow> jsval \<Rightarrow> ('s, jsval) act"
  qe_leaseMs :: int

definition new_QueueWorkerEngine ::
  "'s repository option \<Rightarrow> (jsval \<Rightarrow> jsval \<Rightarrow> ('s, jsval) act) option \<Rightarrow> jsval \<Rightarrow> js_error + 's queue_engine" where
  "new_QueueWorkerEngine repository workflowEngine leaseMs =
     (case (repository, workflowEngine) of
        (Some R, Some w) \<Rightarrow>
          (case default_to leaseMs (Num 30000) of
             Num n \<Rightarrow> if n < 1 then Inl (TypeError ''leaseMs must be a positive integer'')
                      else Inr \<lparr>qe_repository = R, qe_completeTask = w, qe_leaseMs = n\<rparr>
           | _ \<Rightarrow> Inl (TypeError ''leaseMs must be a positive integer''))
      | _ \<Rightarrow> Inl (TypeError ''QueueWorkerEngine requires repository and workflowEngine''))"

definition enqueue :: "'s queue_engine \<Rightarrow> jsval \<Rightarrow> jsval \<Rightarrow> ('s, jsval) act" where
  "enqueue qe taskId processId =
     bnd (rfind (qe_repository qe) ''task'' taskId) (\<lambda>task.
       if \<not> truthy task \<or> \<not> strict_eq (field task ''processId'') processId then throw (Error ''TASK_NOT_FOUND'')
       else bnd (rfind (qe_repository qe) ''queue'' taskId) (\<lambda>existing.
         if truthy existing \<and> field existing ''status'' \<in> set [Str ''queued'', Str ''processing''] then ret existing
         else rsave (qe_repository qe) ''queue'' taskId
           (Obj [(''id'', taskId), (''processId'', processId), (''status'', Str ''queued''), (''attempts'', Num 0),
                 (''workerId'', Null), (''leaseExpiresAt'', Null)])))"

definition handleTaskCompleted :: "'s queue_engine \<Rightarrow> jsval \<Rightarrow> ('s, jsval) act" where
  "handleTaskCompleted qe event =
     (if \<not> truthy event \<or> \<not> truthy (field event ''nextTaskId'') then ret Null
      else if \<not> truthy (field event ''processId'') then throw (Error ''PROCESS_ID_REQUIRED'')
      else enqueue qe (field event ''nextTaskId'') (field event ''processId''))"

text \<open>\<^verbatim>\<open>item.leaseExpiresAt && item.leaseExpiresAt <= now\<close>\<close>

definition lease_expired :: "int \<Rightarrow> jsval \<Rightarrow> bool" where
  "lease_expired now item \<longleftrightarrow>
     truthy (field item ''leaseExpiresAt'') \<and> js_le (field item ''leaseExpiresAt'') (Num now)"

text \<open>
  The body of \<^verbatim>\<open>claim\<close> between its two awaits: from the record read (and the clock) to the
  record to save.
\<close>

definition claim_decide :: "int \<Rightarrow> int \<Rightarrow> jsval \<Rightarrow> jsval \<Rightarrow> js_error + jsval" where
  "claim_decide leaseMs now workerId item =
     (if \<not> truthy item then Inl (Error ''QUEUE_ITEM_NOT_FOUND'')
      else let expired = (field item ''status'' = Str ''processing'' \<and> lease_expired now item) in
        if field item ''status'' \<noteq> Str ''queued'' \<and> \<not> expired then Inl (Error ''QUEUE_ITEM_NOT_CLAIMABLE'')
        else Inr (spread item [(''status'', Str ''processing''),
               (''attempts'', js_add (js_or (field item ''attempts'') (Num 0)) (Num 1)),
               (''workerId'', workerId), (''leaseExpiresAt'', Num (now + leaseMs))]))"

definition claim :: "'s queue_engine \<Rightarrow> int \<Rightarrow> int \<Rightarrow> jsval \<Rightarrow> jsval \<Rightarrow> ('s, jsval) act" where
  "claim qe leaseMs now taskId workerId =
     (if \<not> truthy workerId then throw (TypeError ''workerId is required'')
      else bnd (rfind (qe_repository qe) ''queue'' taskId) (\<lambda>item.
        case claim_decide leaseMs now workerId item of
          Inl e \<Rightarrow> throw e
        | Inr item' \<Rightarrow> rsave (qe_repository qe) ''queue'' taskId item'))"

definition heartbeat :: "'s queue_engine \<Rightarrow> int \<Rightarrow> int \<Rightarrow> jsval \<Rightarrow> jsval \<Rightarrow> ('s, jsval) act" where
  "heartbeat qe leaseMs now taskId workerId =
     bnd (rfind (qe_repository qe) ''queue'' taskId) (\<lambda>item.
       if \<not> truthy item then throw (Error ''QUEUE_ITEM_NOT_FOUND'')
       else if field item ''status'' \<noteq> Str ''processing'' \<or> \<not> strict_eq (field item ''workerId'') workerId
       then throw (Error ''LEASE_NOT_OWNED'')
       else rsave (qe_repository qe) ''queue'' taskId (spread item [(''leaseExpiresAt'', Num (now + leaseMs))]))"

definition complete :: "'s queue_engine \<Rightarrow> int \<Rightarrow> jsval \<Rightarrow> jsval \<Rightarrow> ('s, jsval) act" where
  "complete qe now taskId workerId =
     bnd (rfind (qe_repository qe) ''queue'' taskId) (\<lambda>item.
       if \<not> truthy item then throw (Error ''QUEUE_ITEM_NOT_FOUND'')
       else if field item ''status'' \<noteq> Str ''processing'' then throw (Error ''QUEUE_ITEM_NOT_COMPLETABLE'')
       else if truthy workerId \<and> \<not> strict_eq (field item ''workerId'') workerId then throw (Error ''LEASE_NOT_OWNED'')
       else if lease_expired now item then throw (Error ''LEASE_EXPIRED'')
       else bnd (qe_completeTask qe taskId (field item ''processId'')) (\<lambda>_.
         rsave (qe_repository qe) ''queue'' taskId
           (spread item [(''status'', Str ''completed''), (''workerId'', Null), (''leaseExpiresAt'', Null)])))"

definition retry :: "'s queue_engine \<Rightarrow> jsval \<Rightarrow> jsval \<Rightarrow> ('s, jsval) act" where
  "retry qe taskId workerId =
     bnd (rfind (qe_repository qe) ''queue'' taskId) (\<lambda>item.
       if \<not> truthy item then throw (Error ''QUEUE_ITEM_NOT_FOUND'')
       else if field item ''status'' \<noteq> Str ''processing'' then throw (Error ''QUEUE_ITEM_NOT_RETRYABLE'')
       else if truthy workerId \<and> \<not> strict_eq (field item ''workerId'') workerId then throw (Error ''LEASE_NOT_OWNED'')
       else rsave (qe_repository qe) ''queue'' taskId
         (spread item [(''status'', Str ''queued''), (''workerId'', Null), (''leaseExpiresAt'', Null)]))"

text \<open>
  The listing may hold any value; a property read on a null or undefined element throws.
\<close>

definition reclaim_item :: "'s queue_engine \<Rightarrow> int \<Rightarrow> jsval \<Rightarrow> ('s, jsval option) act" where
  "reclaim_item qe now item =
     (if item = Null \<or> item = Undefined then throw null_read_error
      else if field item ''status'' = Str ''processing'' \<and> lease_expired now item
      then bnd (rsave (qe_repository qe) ''queue'' (field item ''id'')
             (spread item [(''status'', Str ''queued''), (''workerId'', Null), (''leaseExpiresAt'', Null)]))
           (\<lambda>saved. ret (Some saved))
      else ret None)"

definition reclaimExpired :: "'s queue_engine \<Rightarrow> int \<Rightarrow> ('s, jsval list) act" where
  "reclaimExpired qe now =
     bnd (rall (qe_repository qe) ''queue'') (\<lambda>items. for_collect (reclaim_item qe now) items)"

end
