(* ===== verification/QueueSpec.thy ===== *)
theory QueueSpec
  imports Queue
begin

text \<open>
  What the queue promises, as an abstract machine on one item, and the representation of
  items as stored records. The lemmas in \<open>record_repository\<close> show that each operation of
  \<open>QueueWorkerEngine\<close> performs exactly the abstract step, on every branch.
\<close>

section \<open>Abstract items\<close>

datatype lease = Queued | Processing (holder: jsval) (expires: int) | Done

record qitem =
  q_process :: jsval
  q_attempts :: int
  q_lease :: lease

text \<open>A lease that counts as expired: a stamp of zero never does (it is falsy in the code).\<close>

fun expired_at :: "int \<Rightarrow> lease \<Rightarrow> bool" where
  "expired_at now (Processing w t) = (t \<noteq> 0 \<and> t \<le> now)"
| "expired_at now _ = False"

fun claimable :: "int \<Rightarrow> lease \<Rightarrow> bool" where
  "claimable now Queued = True"
| "claimable now l = expired_at now l"

text \<open>\<^verbatim>\<open>workerId && item.workerId !== workerId\<close>: the ownership test of complete and retry.\<close>

definition foreign :: "jsval \<Rightarrow> jsval \<Rightarrow> bool" where
  "foreign held w \<longleftrightarrow> truthy w \<and> \<not> strict_eq held w"

definition spec_claim :: "int \<Rightarrow> int \<Rightarrow> jsval \<Rightarrow> qitem \<Rightarrow> js_error + qitem" where
  "spec_claim leaseMs now w q =
     (if \<not> truthy w then Inl (TypeError ''workerId is required'')
      else if \<not> claimable now (q_lease q) then Inl (Error ''QUEUE_ITEM_NOT_CLAIMABLE'')
      else Inr (q\<lparr>q_attempts := q_attempts q + 1, q_lease := Processing w (now + leaseMs)\<rparr>))"

definition spec_heartbeat :: "int \<Rightarrow> int \<Rightarrow> jsval \<Rightarrow> qitem \<Rightarrow> js_error + qitem" where
  "spec_heartbeat leaseMs now w q =
     (case q_lease q of
        Processing h t \<Rightarrow> if strict_eq h w then Inr (q\<lparr>q_lease := Processing h (now + leaseMs)\<rparr>)
                          else Inl (Error ''LEASE_NOT_OWNED'')
      | _ \<Rightarrow> Inl (Error ''LEASE_NOT_OWNED''))"

definition spec_complete :: "int \<Rightarrow> jsval \<Rightarrow> qitem \<Rightarrow> js_error + qitem" where
  "spec_complete now w q =
     (case q_lease q of
        Processing h t \<Rightarrow>
          if foreign h w then Inl (Error ''LEASE_NOT_OWNED'')
          else if expired_at now (q_lease q) then Inl (Error ''LEASE_EXPIRED'')
          else Inr (q\<lparr>q_lease := Done\<rparr>)
      | _ \<Rightarrow> Inl (Error ''QUEUE_ITEM_NOT_COMPLETABLE''))"

definition spec_retry :: "jsval \<Rightarrow> qitem \<Rightarrow> js_error + qitem" where
  "spec_retry w q =
     (case q_lease q of
        Processing h t \<Rightarrow> if foreign h w then Inl (Error ''LEASE_NOT_OWNED'') else Inr (q\<lparr>q_lease := Queued\<rparr>)
      | _ \<Rightarrow> Inl (Error ''QUEUE_ITEM_NOT_RETRYABLE''))"

definition spec_reclaim :: "int \<Rightarrow> qitem \<Rightarrow> qitem" where
  "spec_reclaim now q = (if expired_at now (q_lease q) then q\<lparr>q_lease := Queued\<rparr> else q)"

lemma spec_reclaim_not_expired [simp]: "\<not> expired_at now (q_lease (spec_reclaim now q))"
  by (auto simp: spec_reclaim_def)

definition spec_enqueue :: "jsval \<Rightarrow> qitem option \<Rightarrow> qitem" where
  "spec_enqueue p x =
     (case x of Some q \<Rightarrow> (if q_lease q = Done then \<lparr>q_process = p, q_attempts = 0, q_lease = Queued\<rparr> else q)
      | None \<Rightarrow> \<lparr>q_process = p, q_attempts = 0, q_lease = Queued\<rparr>)"

section \<open>Representation\<close>

fun lease_fields :: "lease \<Rightarrow> jsval \<times> jsval \<times> jsval" where
  "lease_fields Queued = (Str ''queued'', Null, Null)"
| "lease_fields (Processing w t) = (Str ''processing'', w, Num t)"
| "lease_fields Done = (Str ''completed'', Null, Null)"

definition encode :: "string \<Rightarrow> qitem \<Rightarrow> jsval" where
  "encode i q = (case lease_fields (q_lease q) of (st, w, t) \<Rightarrow>
     Obj [(''id'', Str i), (''processId'', q_process q), (''status'', st), (''attempts'', Num (q_attempts q)),
          (''workerId'', w), (''leaseExpiresAt'', t)])"

definition decode :: "jsval \<Rightarrow> qitem" where
  "decode v = \<lparr>q_process = field v ''processId'',
     q_attempts = (case field v ''attempts'' of Num n \<Rightarrow> n | _ \<Rightarrow> 0),
     q_lease = (if field v ''status'' = Str ''queued'' then Queued
                else if field v ''status'' = Str ''processing''
                then Processing (field v ''workerId'') (case field v ''leaseExpiresAt'' of Num t \<Rightarrow> t | _ \<Rightarrow> 0)
                else Done)\<rparr>"

lemma decode_encode [simp]: "decode (encode i q) = q"
  by (cases "q_lease q") (simp_all add: decode_def encode_def)

lemma encode_inject [simp]: "encode i q = encode i q' \<longleftrightarrow> q = q'"
  by (metis decode_encode)

lemma is_obj_encode [simp]: "is_obj (encode i q)"
  by (simp add: encode_def split: prod.splits)

lemma encode_not_null [simp]: "encode i q \<noteq> Null" "encode i q \<noteq> Undefined"
  by (simp_all add: encode_def split: prod.splits)

lemma or_null_encode [simp]: "or_null (Some (encode i q)) = encode i q"
  by simp

lemma field_encode [simp]:
  "field (encode i q) ''id'' = Str i"
  "field (encode i q) ''processId'' = q_process q"
  "field (encode i q) ''attempts'' = Num (q_attempts q)"
  "field (encode i q) ''status'' = fst (lease_fields (q_lease q))"
  "field (encode i q) ''workerId'' = fst (snd (lease_fields (q_lease q)))"
  "field (encode i q) ''leaseExpiresAt'' = snd (snd (lease_fields (q_lease q)))"
  by (simp_all add: encode_def split: prod.splits)

lemma encode_inject_id: "encode i q = encode k q' \<longleftrightarrow> i = k \<and> q = q'"
proof
  assume e: "encode i q = encode k q'"
  from arg_cong [OF e, of "\<lambda>v. field v ''id''"] arg_cong [OF e, of decode]
  show "i = k \<and> q = q'" by simp
qed simp

lemma status_field_simps [simp]:
  "fst (lease_fields l) = Str ''processing'' \<longleftrightarrow> (\<exists>w t. l = Processing w t)"
  "fst (lease_fields l) = Str ''queued'' \<longleftrightarrow> l = Queued"
  "fst (lease_fields l) = Str ''completed'' \<longleftrightarrow> l = Done"
  by (cases l; simp)+

lemma lease_expired_encode [simp]: "lease_expired now (encode i q) = expired_at now (q_lease q)"
  by (cases "q_lease q") (simp_all add: lease_expired_def js_le_def)

lemma attempts_succ [simp]: "js_add (js_or (Num n) (Num 0)) (Num 1) = Num (n + 1)"
  by (simp add: js_add_def js_or_def)

text \<open>The assignments of each operation, on the representation.\<close>

lemma encode_assign:
  "spread (encode i q) [(''status'', Str ''processing''), (''attempts'', Num n), (''workerId'', w), (''leaseExpiresAt'', Num t)]
     = encode i (q\<lparr>q_attempts := n, q_lease := Processing w t\<rparr>)"
  "spread (encode i q) [(''status'', Str ''queued''), (''workerId'', Null), (''leaseExpiresAt'', Null)]
     = encode i (q\<lparr>q_lease := Queued\<rparr>)"
  "spread (encode i q) [(''status'', Str ''completed''), (''workerId'', Null), (''leaseExpiresAt'', Null)]
     = encode i (q\<lparr>q_lease := Done\<rparr>)"
  by (cases "q_lease q"; simp add: encode_def spread_def)+

lemma encode_heartbeat:
  "q_lease q = Processing w t' \<Longrightarrow>
   spread (encode i q) [(''leaseExpiresAt'', Num t)] = encode i (q\<lparr>q_lease := Processing w t\<rparr>)"
  by (simp add: encode_def spread_def)

lemma claim_decide_encode:
  "truthy w \<Longrightarrow> claim_decide leaseMs now w (encode i q) = map_sum id (encode i) (spec_claim leaseMs now w q)"
  by (cases "q_lease q")
    (auto simp: claim_decide_def spec_claim_def encode_assign Let_def)

text \<open>Every queue record of a repository represents an item, under its own id.\<close>

definition queue_wf :: "('s \<Rightarrow> string \<Rightarrow> string \<Rightarrow> jsval option) \<Rightarrow> 's \<Rightarrow> bool" where
  "queue_wf look s \<longleftrightarrow> (\<forall>i v. look s ''queue'' i = Some v \<longrightarrow> i \<noteq> [] \<and> (\<exists>q. v = encode i q))"

definition queue_view :: "('s \<Rightarrow> string \<Rightarrow> string \<Rightarrow> jsval option) \<Rightarrow> 's \<Rightarrow> string \<Rightarrow> qitem option" where
  "queue_view look s i = map_option decode (look s ''queue'' i)"

lemma queue_wfD: "queue_wf look s \<Longrightarrow> look s ''queue'' i = Some v \<Longrightarrow> i \<noteq> [] \<and> v = encode i (decode v)"
  unfolding queue_wf_def by force

lemma queue_wfE:
  assumes "queue_wf look s" "look s ''queue'' i = Some v"
  obtains q where "look s ''queue'' i = Some (encode i q)" "queue_view look s i = Some q" "i \<noteq> []"
proof -
  from assms obtain q where "v = encode i q" "i \<noteq> []" unfolding queue_wf_def by blast
  with assms(2) that show thesis by (simp add: queue_view_def)
qed

lemma queue_view_Some:
  "queue_wf look s \<Longrightarrow> queue_view look s i = Some q \<longleftrightarrow> look s ''queue'' i = Some (encode i q)"
  unfolding queue_view_def using queue_wfD by fastforce

lemma queue_items:
  assumes "queue_wf look s"
  shows "{v. \<exists>i. look s ''queue'' i = Some v} = {encode k q | k q. queue_view look s k = Some q}"
proof -
  have "(\<exists>i. look s ''queue'' i = Some v) \<longleftrightarrow> (\<exists>k q. v = encode k q \<and> look s ''queue'' k = Some (encode k q))" for v
    using assms unfolding queue_wf_def by metis
  then show ?thesis by (simp add: queue_view_Some [OF assms])
qed

lemma queue_view_None: "queue_view look s i = None \<longleftrightarrow> look s ''queue'' i = None"
  by (simp add: queue_view_def)

end
