(* ===== verification/QueueRefinement.thy ===== *)
theory QueueRefinement
  imports QueueSpec
begin

text \<open>
  \<open>QueueWorkerEngine\<close> refines the abstract queue of theory \<open>QueueSpec\<close>, over any record
  repository: one lemma per operation, each covering every branch.
\<close>

section \<open>Single operations\<close>

text \<open>An abstract step performed on the stored record: a rejection leaves the state alone.\<close>

definition perform :: "(string \<Rightarrow> string \<Rightarrow> jsval \<Rightarrow> 's \<Rightarrow> 's) \<Rightarrow> string \<Rightarrow> js_error + qitem \<Rightarrow> 's \<Rightarrow> (js_error + jsval) \<times> 's" where
  "perform put i r s = (case r of Inl e \<Rightarrow> (Inl e, s) | Inr q \<Rightarrow> (Inr (encode i q), put ''queue'' i (encode i q) s))"

lemma perform_simps [simp]:
  "perform put i (Inl e) s = (Inl e, s)"
  "perform put i (Inr q) s = (Inr (encode i q), put ''queue'' i (encode i q) s)"
  by (simp_all add: perform_def)

context record_repository
begin

lemma storable_encode:
  assumes "inv s" "okty ''queue''" "look s ''queue'' i = Some (encode i q)"
  shows "storable w \<Longrightarrow> storable (encode i (q\<lparr>q_attempts := n, q_lease := Processing w t\<rparr>))"
    "storable (encode i (q\<lparr>q_lease := Queued\<rparr>))" "storable (encode i (q\<lparr>q_lease := Done\<rparr>))"
    "q_lease q = Processing w' t' \<Longrightarrow> storable (encode i (q\<lparr>q_lease := Processing w' t\<rparr>))"
proof -
  have q: "storable (encode i q)" using assms by (rule look_storable)
  show "storable w \<Longrightarrow> storable (encode i (q\<lparr>q_attempts := n, q_lease := Processing w t\<rparr>))"
    unfolding encode_assign(1) [symmetric] using q by (rule storable_spread) (auto intro: storable_json)
  show "storable (encode i (q\<lparr>q_lease := Queued\<rparr>))"
    unfolding encode_assign(2) [symmetric] using q by (rule storable_spread) (auto intro: storable_json)
  show "storable (encode i (q\<lparr>q_lease := Done\<rparr>))"
    unfolding encode_assign(3) [symmetric] using q by (rule storable_spread) (auto intro: storable_json)
  show "storable (encode i (q\<lparr>q_lease := Processing w' t\<rparr>))" if "q_lease q = Processing w' t'"
    unfolding encode_heartbeat [OF that, symmetric] using q by (rule storable_spread) (auto intro: storable_json)
qed

lemma claim_refines:
  assumes "inv s" "okty ''queue''" "i \<noteq> []" "qe_repository qe = R" "storable w"
    and "look s ''queue'' i = Some (encode i q)"
  shows "claim qe leaseMs now (Str i) w s = perform put i (spec_claim leaseMs now w q) s"
  using assms storable_encode [OF assms(1,2,6)]
  by (auto simp: claim_def bnd_run find_law save_law claim_decide_encode spec_claim_def)

lemma heartbeat_refines:
  assumes "inv s" "okty ''queue''" "i \<noteq> []" "qe_repository qe = R"
    and "look s ''queue'' i = Some (encode i q)"
  shows "heartbeat qe leaseMs now (Str i) w s = perform put i (spec_heartbeat leaseMs now w q) s"
  using assms storable_encode(4) [OF assms(1,2,5)]
  by (cases "q_lease q")
    (auto simp: heartbeat_def bnd_run find_law save_law spec_heartbeat_def encode_heartbeat)

lemma retry_refines:
  assumes "inv s" "okty ''queue''" "i \<noteq> []" "qe_repository qe = R"
    and "look s ''queue'' i = Some (encode i q)"
  shows "retry qe (Str i) w s = perform put i (spec_retry w q) s"
  using assms storable_encode [OF assms(1,2,5)]
  by (cases "q_lease q")
    (auto simp: retry_def bnd_run find_law save_law spec_retry_def foreign_def encode_assign)

text \<open>Completion hands the task to the workflow engine first and saves only if that resolves.\<close>

lemma complete_refines:
  assumes "inv s" "okty ''queue''" "i \<noteq> []" "qe_repository qe = R"
    and "look s ''queue'' i = Some (encode i q)"
    and "inv (snd (qe_completeTask qe (Str i) (q_process q) s))"
  shows "complete qe now (Str i) w s =
    (case spec_complete now w q of
       Inl e \<Rightarrow> (Inl e, s)
     | Inr q' \<Rightarrow>
         (case qe_completeTask qe (Str i) (q_process q) s of
            (Inl e, s') \<Rightarrow> (Inl e, s')
          | (Inr _, s') \<Rightarrow> perform put i (Inr q') s'))"
proof -
  have "storable (encode i (q\<lparr>q_lease := Done\<rparr>))"
    using assms(1,2,5) by (rule storable_encode(3))
  then show ?thesis
    using assms
    by (cases "q_lease q"; cases "qe_completeTask qe (Str i) (q_process q) s"; cases "fst (qe_completeTask qe (Str i) (q_process q) s)")
      (auto simp: complete_def bnd_run find_law save_law spec_complete_def foreign_def encode_assign)
qed

lemma missing_refines:
  assumes "inv s" "okty ''queue''" "i \<noteq> []" "qe_repository qe = R" "look s ''queue'' i = None"
  shows "truthy w \<Longrightarrow> claim qe leaseMs now (Str i) w s = (Inl (Error ''QUEUE_ITEM_NOT_FOUND''), s)"
    "heartbeat qe leaseMs now (Str i) w s = (Inl (Error ''QUEUE_ITEM_NOT_FOUND''), s)"
    "complete qe now (Str i) w s = (Inl (Error ''QUEUE_ITEM_NOT_FOUND''), s)"
    "retry qe (Str i) w s = (Inl (Error ''QUEUE_ITEM_NOT_FOUND''), s)"
  using assms
  by (simp_all add: claim_def heartbeat_def complete_def retry_def bnd_run find_law claim_decide_def)

text \<open>Enqueueing keeps a live item and starts a finished or missing one afresh.\<close>

lemma enqueue_refines:
  assumes "inv s" "okty ''queue''" "okty ''task''" "i \<noteq> []" "qe_repository qe = R" "queue_wf look s"
    and "look s ''task'' i = Some t" "truthy t" "strict_eq (field t ''processId'') p" "storable p"
  defines "q' \<equiv> spec_enqueue p (queue_view look s i)"
  shows "enqueue qe (Str i) p s =
    (if queue_view look s i = Some q' then (Inr (encode i q'), s) else perform put i (Inr q') s)"
proof -
  have ornull: "or_null (Some t) = t" using assms(8) by (cases t) (auto simp: or_null_def)
  have enc: "Obj [(''id'', Str i), (''processId'', p), (''status'', Str ''queued''), (''attempts'', Num 0),
      (''workerId'', Null), (''leaseExpiresAt'', Null)] = encode i \<lparr>q_process = p, q_attempts = 0, q_lease = Queued\<rparr>"
    by (simp add: encode_def)
  have new: "storable (encode i \<lparr>q_process = p, q_attempts = 0, q_lease = Queued\<rparr>)"
  proof -
    have "storable (spread (Obj []) [(''id'', Str i), (''processId'', p), (''status'', Str ''queued''),
        (''attempts'', Num 0), (''workerId'', Null), (''leaseExpiresAt'', Null)])"
      using assms(10) by (intro storable_spread) (auto intro: storable_json)
    then show ?thesis by (simp add: spread_def encode_def)
  qed
  show ?thesis
  proof (cases "look s ''queue'' i")
    case None
    then show ?thesis using assms(1-5,7-9) ornull new
      by (simp add: q'_def spec_enqueue_def queue_view_def enqueue_def bnd_run find_law save_law enc)
  next
    case (Some v)
    then obtain q where v: "v = encode i q" using queue_wfD [OF assms(6)] by blast
    show ?thesis using assms(1-5,7-9) ornull new Some v
      by (cases "q_lease q")
        (auto simp: q'_def spec_enqueue_def queue_view_def enqueue_def bnd_run find_law save_law enc)
  qed
qed

lemma enqueue_rejects:
  assumes "inv s" "okty ''task''" "i \<noteq> []" "qe_repository qe = R"
    and "case look s ''task'' i of None \<Rightarrow> True | Some t \<Rightarrow> is_obj t \<and> \<not> strict_eq (field t ''processId'') p"
  shows "enqueue qe (Str i) p s = (Inl (Error ''TASK_NOT_FOUND''), s)"
  using assms by (auto simp: enqueue_def bnd_run find_law split: option.splits)

text \<open>One iteration of the sweep, and the whole of it.\<close>

lemma reclaim_item_refines:
  assumes "inv s" "okty ''queue''" "i \<noteq> []" "qe_repository qe = R" "storable (encode i q)"
  shows "reclaim_item qe now (encode i q) s =
    (if expired_at now (q_lease q)
     then (Inr (Some (encode i (spec_reclaim now q))), put ''queue'' i (encode i (spec_reclaim now q)) s)
     else (Inr None, s))"
proof -
  have "storable (spread (encode i q) [(''status'', Str ''queued''), (''workerId'', Null), (''leaseExpiresAt'', Null)])"
    using assms(5) by (rule storable_spread) (auto intro: storable_json)
  then show ?thesis using assms(1-4)
    by (cases "q_lease q") (auto simp: reclaim_item_def spec_reclaim_def encode_assign bnd_run save_law)
qed

lemma sweep:
  assumes "okty ''queue''" "qe_repository qe = R"
    and "inv s" "\<forall>v \<in> set xs. \<exists>i q. v = encode i q \<and> i \<noteq> [] \<and> f i = Some q \<and> storable v"
  obtains s' where
    "for_collect (reclaim_item qe now) xs s =
       (Inr (map (\<lambda>v. encode (to_str (field v ''id'')) (spec_reclaim now (decode v)))
             (filter (\<lambda>v. expired_at now (q_lease (decode v))) xs)), s')"
    "inv s'"
    "\<And>t k. okty t \<Longrightarrow> look s' t k =
       (case f k of Some q \<Rightarrow> if t = ''queue'' \<and> encode k q \<in> set xs \<and> expired_at now (q_lease q)
          then Some (encode k (spec_reclaim now q)) else look s t k | None \<Rightarrow> look s t k)"
  using assms(3,4)
proof (induction xs arbitrary: s thesis)
  case Nil
  show ?case by (rule Nil(1) [of s]) (auto simp: Nil split: option.splits)
next
  case (Cons v xs)
  obtain i q where v: "v = encode i q" "i \<noteq> []" "f i = Some q" "storable v" using Cons.prems(3) by auto
  define s1 where "s1 = snd (reclaim_item qe now v s)"
  have step: "reclaim_item qe now v s =
      (Inr (if expired_at now (q_lease q) then Some (encode i (spec_reclaim now q)) else None), s1)"
    and s1: "s1 = (if expired_at now (q_lease q) then put ''queue'' i (encode i (spec_reclaim now q)) s else s)"
    using reclaim_item_refines [OF Cons.prems(2) assms(1) v(2) assms(2), of q now] v(1,4)
    by (auto simp: s1_def)
  have st: "storable (encode i (spec_reclaim now q))"
  proof -
    have "storable (spread (encode i q) [(''status'', Str ''queued''), (''workerId'', Null), (''leaseExpiresAt'', Null)])"
      by (rule storable_spread) (use v(1,4) in \<open>auto intro: storable_json\<close>)
    with v(1,4) show ?thesis by (simp add: spec_reclaim_def encode_assign)
  qed
  have inv1: "inv s1" using s1 Cons.prems(2) assms(1) v(2) st by (simp add: inv_put)
  have look1: "okty t \<Longrightarrow> look s1 t k = (if t = ''queue'' \<and> k = i \<and> expired_at now (q_lease q)
      then Some (encode i (spec_reclaim now q)) else look s t k)" for t k
    using s1 Cons.prems(2) assms(1) v(2) by (auto simp: look_put)
  obtain s' where s': "for_collect (reclaim_item qe now) xs s1 =
       (Inr (map (\<lambda>v. encode (to_str (field v ''id'')) (spec_reclaim now (decode v)))
             (filter (\<lambda>v. expired_at now (q_lease (decode v))) xs)), s')" "inv s'"
    "\<And>t k. okty t \<Longrightarrow> look s' t k =
       (case f k of Some q \<Rightarrow> if t = ''queue'' \<and> encode k q \<in> set xs \<and> expired_at now (q_lease q)
          then Some (encode k (spec_reclaim now q)) else look s1 t k | None \<Rightarrow> look s1 t k)"
    by (rule Cons.IH [OF _ inv1]) (use Cons.prems(3) in simp_all)
  show ?case
  proof (rule Cons.prems(1) [of s'])
    show "for_collect (reclaim_item qe now) (v # xs) s =
       (Inr (map (\<lambda>v. encode (to_str (field v ''id'')) (spec_reclaim now (decode v)))
             (filter (\<lambda>v. expired_at now (q_lease (decode v))) (v # xs))), s')"
      by (simp add: bnd_def step s'(1)) (simp add: v(1))
    show "inv s'" by (rule s'(2))
    show "look s' t k = (case f k of Some q \<Rightarrow> if t = ''queue'' \<and> encode k q \<in> set (v # xs) \<and> expired_at now (q_lease q)
          then Some (encode k (spec_reclaim now q)) else look s t k | None \<Rightarrow> look s t k)" if "okty t" for t k
    proof (cases "k = i")
      case True
      then show ?thesis using that v(1,3) by (auto simp: s'(3) look1 assms(1))
    next
      case False
      then show ?thesis using that v(1) by (simp add: s'(3) look1 encode_inject_id split: option.splits)
    qed
  qed
qed

lemma reclaimExpired_refines:
  assumes "inv s" "okty ''queue''" "qe_repository qe = R" "queue_wf look s"
  obtains s' where
    "reclaimExpired qe now s =
       (Inr (map (\<lambda>v. encode (to_str (field v ''id'')) (spec_reclaim now (decode v)))
             (filter (\<lambda>v. expired_at now (q_lease (decode v))) (listing s ''queue''))), s')"
    "inv s'" "queue_wf look s'"
    "\<And>k. queue_view look s' k = map_option (spec_reclaim now) (queue_view look s k)"
    "\<And>t k. okty t \<Longrightarrow> t \<noteq> ''queue'' \<Longrightarrow> look s' t k = look s t k"
proof -
  have items: "\<forall>v \<in> set (listing s ''queue''). \<exists>i q. v = encode i q \<and> i \<noteq> [] \<and> queue_view look s i = Some q \<and> storable v"
  proof
    fix v assume "v \<in> set (listing s ''queue'')"
    then obtain i where i: "look s ''queue'' i = Some v" using assms(1,2) by (auto simp: set_listing)
    with queue_wfD [OF assms(4)] have "i \<noteq> []" "v = encode i (decode v)" by auto
    moreover have "queue_view look s i = Some (decode v)" using i by (simp add: queue_view_def)
    moreover have "storable v" using assms(1,2) i by (rule look_storable)
    ultimately show "\<exists>i q. v = encode i q \<and> i \<noteq> [] \<and> queue_view look s i = Some q \<and> storable v" by blast
  qed
  obtain s' where s': "for_collect (reclaim_item qe now) (listing s ''queue'') s =
       (Inr (map (\<lambda>v. encode (to_str (field v ''id'')) (spec_reclaim now (decode v)))
             (filter (\<lambda>v. expired_at now (q_lease (decode v))) (listing s ''queue''))), s')" "inv s'"
    "\<And>t k. okty t \<Longrightarrow> look s' t k =
       (case queue_view look s k of Some q \<Rightarrow> if t = ''queue'' \<and> encode k q \<in> set (listing s ''queue'') \<and> expired_at now (q_lease q)
          then Some (encode k (spec_reclaim now q)) else look s t k | None \<Rightarrow> look s t k)"
    by (rule sweep [OF assms(2,3,1) items, where now = now]) (rule that; simp)
  have look': "look s' ''queue'' k = map_option (\<lambda>q. encode k (spec_reclaim now q)) (queue_view look s k)" for k
  proof (cases "queue_view look s k")
    case None
    then show ?thesis using s'(3) [OF assms(2), of k] None by (simp add: queue_view_None [symmetric])
  next
    case (Some q)
    then have l: "look s ''queue'' k = Some (encode k q)" using queue_view_Some [OF assms(4)] by blast
    then have "encode k q \<in> set (listing s ''queue'')" using assms(1,2) by (auto simp: set_listing)
    with Some l show ?thesis using s'(3) [OF assms(2), of k] by (simp add: spec_reclaim_def)
  qed
  have wf: "queue_wf look s'"
    unfolding queue_wf_def
  proof (intro allI impI)
    fix i v assume "look s' ''queue'' i = Some v"
    then obtain q where q: "queue_view look s i = Some q" "v = encode i (spec_reclaim now q)"
      by (auto simp: look')
    then show "i \<noteq> [] \<and> (\<exists>q. v = encode i q)"
      using queue_wfD [OF assms(4)] queue_view_Some [OF assms(4)] by blast
  qed
  show ?thesis
  proof (rule that [OF _ s'(2) wf])
    show "reclaimExpired qe now s =
       (Inr (map (\<lambda>v. encode (to_str (field v ''id'')) (spec_reclaim now (decode v)))
             (filter (\<lambda>v. expired_at now (q_lease (decode v))) (listing s ''queue''))), s')"
      using assms(1-3) by (simp add: reclaimExpired_def bnd_run all_law s'(1))
    show "queue_view look s' k = map_option (spec_reclaim now) (queue_view look s k)" for k
      unfolding queue_view_def [of look s'] look' by (simp add: option.map_comp comp_def)
    show "\<And>t k. okty t \<Longrightarrow> t \<noteq> ''queue'' \<Longrightarrow> look s' t k = look s t k"
      by (simp add: s'(3) split: option.splits)
  qed
qed

end

end
