(* ===== verification/QueueProtocol.thy ===== *)
theory QueueProtocol
  imports QueueRefinement
begin

text \<open>
  Whole histories of the queue: a request names an operation of \<open>QueueWorkerEngine\<close> or a
  task transition of \<open>WorkflowEngine\<close>, made at a clock reading for a task id; a history is a
  list of them. Every request moves each queue item by one \<open>item_step\<close>, the step relation of
  the abstract queue; what holds of all histories is proved on that relation.
\<close>

section \<open>Requests\<close>

datatype request =
    Enqueue jsval
  | Claim int jsval
  | Heartbeat int jsval
  | Complete jsval
  | Retry jsval
  | Reclaim
  | Transition task_op jsval

definition serve :: "'s queue_engine \<Rightarrow> 's workflow_engine \<Rightarrow> int \<Rightarrow> string \<Rightarrow> request \<Rightarrow> ('s, jsval) act" where
  "serve qe we now i r =
     (case r of
        Enqueue p \<Rightarrow> enqueue qe (Str i) p
      | Claim leaseMs w \<Rightarrow> claim qe leaseMs now (Str i) w
      | Heartbeat leaseMs w \<Rightarrow> heartbeat qe leaseMs now (Str i) w
      | Complete w \<Rightarrow> complete qe now (Str i) w
      | Retry w \<Rightarrow> retry qe (Str i) w
      | Reclaim \<Rightarrow> bnd (reclaimExpired qe now) (\<lambda>items. ret (Arr items))
      | Transition x p \<Rightarrow> run_op we x (Str i) p)"

fun serve_all :: "'s queue_engine \<Rightarrow> 's workflow_engine \<Rightarrow> (int \<times> string \<times> request) list \<Rightarrow> 's \<Rightarrow> 's" where
  "serve_all qe we [] s = s"
| "serve_all qe we ((now, i, r) # rs) s = serve_all qe we rs (snd (serve qe we now i r s))"

section \<open>The step relation of one item\<close>

inductive item_step :: "int \<Rightarrow> request \<Rightarrow> qitem option \<Rightarrow> qitem option \<Rightarrow> bool" for now :: int where
  Idle: "item_step now r x x"
| Enqueued: "item_step now (Enqueue p) x (Some (spec_enqueue p x))"
| Claimed: "spec_claim leaseMs now w q = Inr q' \<Longrightarrow> item_step now (Claim leaseMs w) (Some q) (Some q')"
| Renewed: "spec_heartbeat leaseMs now w q = Inr q' \<Longrightarrow> item_step now (Heartbeat leaseMs w) (Some q) (Some q')"
| Finished: "spec_complete now w q = Inr q' \<Longrightarrow> item_step now (Complete w) (Some q) (Some q')"
| Released: "spec_retry w q = Inr q' \<Longrightarrow> item_step now (Retry w) (Some q) (Some q')"
| Swept: "item_step now Reclaim x (map_option (spec_reclaim now) x)"

inductive_cases item_step_SomeE: "item_step now r (Some q) x"

inductive_simps item_step_request:
  "item_step now (Claim leaseMs w) x y" "item_step now (Enqueue p) x y" "item_step now (Complete w) x y"
  "item_step now (Retry w) x y" "item_step now (Heartbeat leaseMs w) x y" "item_step now Reclaim x y"
  "item_step now (Transition z p) x y"

lemmas spec_defs = spec_claim_def spec_heartbeat_def spec_complete_def spec_retry_def spec_reclaim_def spec_enqueue_def

text \<open>
  The requests that pass the ownership test of a lease held by \<open>w\<close>: renewals, completions and
  releases by \<open>w\<close>, and completions and releases that name no worker.
\<close>

fun acts_as :: "jsval \<Rightarrow> request \<Rightarrow> bool" where
  "acts_as h (Heartbeat _ w) = strict_eq h w"
| "acts_as h (Complete w) = (\<not> foreign h w)"
| "acts_as h (Retry w) = (\<not> foreign h w)"
| "acts_as h _ = False"

text \<open>A live lease cannot be touched by a request that does not act as its holder.\<close>

lemma item_step_live:
  assumes "item_step now r (Some q) x" "q_lease q = Processing w t" "now < t" "\<not> acts_as w r"
  shows "x = Some q"
  using assms(1)
proof (cases rule: item_step_SomeE)
qed (use assms(2-4) in \<open>auto simp: spec_defs split: if_splits\<close>)

text \<open>Attempts: a claim counts one, an enqueue of a finished item restarts, nothing else counts.\<close>

lemma item_step_attempts:
  assumes "item_step now r (Some q) x"
  obtains q' where "x = Some q'"
    "q_attempts q' = q_attempts q \<or> (\<exists>leaseMs w. r = Claim leaseMs w \<and> q_attempts q' = q_attempts q + 1
        \<and> q_lease q' = Processing w (now + leaseMs))
     \<or> (\<exists>p. r = Enqueue p \<and> q_lease q = Done \<and> q_attempts q' = 0)"
  using assms
proof (cases rule: item_step_SomeE)
qed (auto simp: spec_defs split: if_splits lease.splits intro: that)

text \<open>A finished item stays finished until it is enqueued again.\<close>

lemma item_step_done:
  assumes "item_step now r (Some q) x" "q_lease q = Done" "\<forall>p. r \<noteq> Enqueue p"
  shows "x = Some q"
  using assms(1)
proof (cases rule: item_step_SomeE)
qed (use assms(2,3) in \<open>auto simp: spec_defs split: if_splits\<close>)

lemma item_step_to_done:
  assumes "item_step now r x (Some q')" "q_lease q' = Done"
  shows "x = Some q' \<or> (\<exists>w. r = Complete w)"
  using assms(1)
proof (cases rule: item_step.cases)
qed (use assms(2) in \<open>auto simp: spec_defs map_option_case split: if_splits lease.splits option.splits\<close>)

section \<open>Every request is a step of every item\<close>

text \<open>The queue and the tasks agree: a finished item's task is completed.\<close>

definition done_ok :: "('s \<Rightarrow> string \<Rightarrow> string \<Rightarrow> jsval option) \<Rightarrow> 's \<Rightarrow> bool" where
  "done_ok look s \<longleftrightarrow>
     (\<forall>i q. queue_view look s i = Some q \<longrightarrow> q_lease q = Done \<longrightarrow> status_of (look s ''task'' i) = Some Completed)"

definition store_ok :: "('s \<Rightarrow> bool) \<Rightarrow> ('s \<Rightarrow> string \<Rightarrow> string \<Rightarrow> jsval option) \<Rightarrow> 's \<Rightarrow> bool" where
  "store_ok ok look s \<longleftrightarrow> ok s \<and> queue_wf look s \<and> tasks_wf look s \<and> done_ok look s"

definition requests_ok :: "(jsval \<Rightarrow> bool) \<Rightarrow> request \<Rightarrow> bool" where
  "requests_ok storable r = (case r of Enqueue p \<Rightarrow> storable p | Claim _ w \<Rightarrow> storable w | _ \<Rightarrow> True)"

lemma completed_stays:
  "rel_option (\<le>) (Some Completed) y \<Longrightarrow> y = Some Completed"
  by (cases y; cases "the y") (auto simp: less_eq_task_status_def)

text \<open>What a request does, from a good store: the state stays good, each item takes a step,
  items of other tasks are untouched by all but the sweep, tasks only advance.\<close>

definition served ::
  "('s \<Rightarrow> bool) \<Rightarrow> ('s \<Rightarrow> string \<Rightarrow> string \<Rightarrow> jsval option) \<Rightarrow> int \<Rightarrow> string \<Rightarrow> request \<Rightarrow> 's \<Rightarrow> 's \<Rightarrow> bool" where
  "served ok look now i r s s' \<longleftrightarrow> store_ok ok look s'
     \<and> (\<forall>k. item_step now r (queue_view look s k) (queue_view look s' k)
          \<and> (r \<noteq> Reclaim \<longrightarrow> k \<noteq> i \<longrightarrow> queue_view look s' k = queue_view look s k))
     \<and> (\<forall>k. rel_option (\<le>) (status_of (look s ''task'' k)) (status_of (look s' ''task'' k)))"

lemma status_refl: "rel_option (\<le>) (x :: task_status option) x"
  by (rule option.rel_refl) simp

lemma served_idle: "store_ok ok look s \<Longrightarrow> served ok look now i r s s"
  by (simp add: served_def status_refl item_step.Idle)

lemma served_after:
  assumes "queue_view look s1 = queue_view look s"
    and "\<And>k. rel_option (\<le>) (status_of (look s ''task'' k)) (status_of (look s1 ''task'' k))"
    and "served ok look now i r s1 s'"
  shows "served ok look now i r s s'"
proof -
  have "rel_option (\<le>) (status_of (look s ''task'' k)) (status_of (look s' ''task'' k))" for k
    using assms(2) [of k] assms(3) [unfolded served_def, THEN conjunct2, THEN conjunct2, rule_format, of k]
    by (auto simp: rel_option_iff split: option.splits)
  with assms(1,3) show ?thesis by (simp add: served_def)
qed

text \<open>The agreement of queue and tasks is kept by steps whose completions have their task done.\<close>

lemma done_ok_step:
  assumes "done_ok look s"
    and "\<And>k. item_step now r (queue_view look s k) (queue_view look s' k)"
    and "\<And>k. rel_option (\<le>) (status_of (look s ''task'' k)) (status_of (look s' ''task'' k))"
    and "\<And>w k. r = Complete w \<Longrightarrow> queue_view look s' k \<noteq> queue_view look s k \<Longrightarrow>
      status_of (look s' ''task'' k) = Some Completed"
  shows "done_ok look s'"
  unfolding done_ok_def
proof (intro allI impI)
  fix k q assume q: "queue_view look s' k = Some q" "q_lease q = Done"
  show "status_of (look s' ''task'' k) = Some Completed"
  proof (cases "queue_view look s k = Some q")
    case True
    then have "status_of (look s ''task'' k) = Some Completed" using assms(1) q(2) by (simp add: done_ok_def)
    with assms(3) [of k] show ?thesis by (auto intro: completed_stays)
  next
    case False
    with item_step_to_done [OF _ q(2), of now r "queue_view look s k"] assms(2) [of k] q(1)
    obtain w where "r = Complete w" by auto
    with False q(1) show ?thesis by (auto intro: assms(4))
  qed
qed

context record_repository
begin

abbreviation good :: "'s \<Rightarrow> bool" where
  "good s \<equiv> store_ok inv look s"

text \<open>A save of an item representation, and a rejection, as steps.\<close>

lemma put_item_served:
  assumes "good s" "okty ''queue''" "okty ''task''" "i \<noteq> []" "storable (encode i q')"
    and "item_step now r (queue_view look s i) (Some q')"
    and "\<And>w. r = Complete w \<Longrightarrow> status_of (look s ''task'' i) = Some Completed"
  shows "served inv look now i r s (put ''queue'' i (encode i q') s)"
proof -
  let ?s' = "put ''queue'' i (encode i q') s"
  have ok: "inv s" "queue_wf look s" "tasks_wf look s" "done_ok look s" using assms(1) by (auto simp: store_ok_def)
  have look': "okty t \<Longrightarrow> look ?s' t k = (if t = ''queue'' \<and> k = i then Some (encode i q') else look s t k)" for t k
    using ok(1) assms(2,4) by (simp add: look_put)
  have view': "queue_view look ?s' k = (if k = i then Some q' else queue_view look s k)" for k
    using look' [OF assms(2)] by (simp add: queue_view_def)
  have step: "item_step now r (queue_view look s k) (queue_view look ?s' k)" for k
    using assms(6) by (auto simp: view' intro: item_step.Idle)
  have task: "look ?s' ''task'' k = look s ''task'' k" for k using look' [OF assms(3)] by simp
  have "done_ok look ?s'"
    using ok(4) step by (rule done_ok_step) (use assms(7) in \<open>auto simp: task view' status_refl split: if_splits\<close>)
  moreover have "queue_wf look ?s'"
    using ok(2) assms(4) by (auto simp: queue_wf_def look' [OF assms(2)])
  moreover have "tasks_wf look ?s'" using ok(3) by (simp add: tasks_wf_def task)
  moreover have "inv ?s'" using ok(1) assms(2,4,5) by (rule inv_put)
  ultimately show ?thesis using step by (simp add: served_def store_ok_def view' task status_refl)
qed

lemma perform_served:
  assumes "good s" "okty ''queue''" "okty ''task''" "i \<noteq> []"
    and "\<And>q'. x = Inr q' \<Longrightarrow> storable (encode i q') \<and> item_step now r (queue_view look s i) (Some q')
      \<and> (\<forall>w. r = Complete w \<longrightarrow> status_of (look s ''task'' i) = Some Completed)"
  shows "served inv look now i r s (snd (perform put i x s))"
proof (cases x)
  case (Inl e)
  then show ?thesis using assms(1) by (simp add: served_idle)
next
  case (Inr q')
  with assms(5) [OF Inr] put_item_served [OF assms(1-4)] show ?thesis by simp
qed

text \<open>A task transition as a step.\<close>

lemma transition_served:
  assumes "good s" "okty ''queue''" "okty ''task''" "i \<noteq> []" "we_repository we = R" "we_eventBus we = None"
  shows "served inv look now j r s (snd (run_op we x (Str i) p s))"
proof -
  let ?s' = "snd (run_op we x (Str i) p s)"
  have ok: "inv s" "queue_wf look s" "tasks_wf look s" "done_ok look s" using assms(1) by (auto simp: store_ok_def)
  note run = run_op_keeps [OF ok(1) assms(3) ok(3) assms(4-6), where x = x and p = p]
  have same: "look ?s' ''queue'' k = look s ''queue'' k" for k using run(3) [OF assms(2)] by simp
  have view: "queue_view look ?s' k = queue_view look s k" for k by (simp add: queue_view_def same)
  have "queue_wf look ?s'" using ok(2) by (simp add: queue_wf_def same)
  moreover have "done_ok look ?s'"
  proof (rule done_ok_step [where r = r and now = now, OF ok(4)])
    show "item_step now r (queue_view look s k) (queue_view look ?s' k)" for k by (simp add: view item_step.Idle)
  qed (use run(4) view in auto)
  ultimately show ?thesis using run(1,2,4) by (simp add: served_def store_ok_def view item_step.Idle)
qed

text \<open>Completion: the workflow engine runs first, then the item is saved.\<close>

lemma complete_served:
  assumes "good s" "okty ''queue''" "okty ''task''" "i \<noteq> []" "we_repository we = R" "we_eventBus we = None"
    and "qe_repository qe = R" "qe_completeTask qe = completeTask we"
  shows "served inv look now i (Complete w) s (snd (complete qe now (Str i) w s))"
proof -
  have ok: "inv s" "queue_wf look s" "tasks_wf look s" "done_ok look s" using assms(1) by (auto simp: store_ok_def)
  show ?thesis
  proof (cases "look s ''queue'' i")
    case None
    then show ?thesis using missing_refines(3) [OF ok(1) assms(2,4,7)] assms(1) by (simp add: served_idle)
  next
    case (Some v)
    obtain q where v: "look s ''queue'' i = Some (encode i q)" and view: "queue_view look s i = Some q" and "i \<noteq> []"
      by (rule queue_wfE [OF ok(2), OF Some])
    let ?s1 = "snd (completeTask we (Str i) (q_process q) s)"
    have eq: "completeTask we = run_op we Finish" by (simp add: run_op_def)
    have sv: "served inv look now i (Complete w) s ?s1"
      unfolding eq by (rule transition_served [OF assms(1-6)])
    have good1: "good ?s1" using sv by (simp add: served_def)
    note run = run_op_keeps [OF ok(1) assms(3) ok(3) assms(4-6), where x = Finish and p = "q_process q", folded eq]
    have q1: "look ?s1 ''queue'' k = look s ''queue'' k" for k using run(3) [OF assms(2)] by simp
    have view1: "queue_view look ?s1 = queue_view look s" by (rule ext) (simp add: queue_view_def q1)
    have inv1: "inv (snd (qe_completeTask qe (Str i) (q_process q) s))" using good1 assms(8) by (simp add: store_ok_def)
    note run_complete = complete_refines [OF ok(1) assms(2,4,7) v inv1, of now w]
    show ?thesis
    proof (cases "spec_complete now w q")
      case (Inl e)
      then show ?thesis using run_complete assms(1) by (simp add: served_idle)
    next
      case (Inr q')
      note q' = this
      show ?thesis
      proof (cases "fst (completeTask we (Str i) (q_process q) s)")
        case (Inl e)
        then have "snd (complete qe now (Str i) w s) = ?s1"
          using run_complete q' assms(8) by (simp split: prod.splits)
        with sv show ?thesis by simp
      next
        case (Inr r)
        have fin: "status_of (look ?s1 ''task'' i) = Some Completed"
          unfolding eq by (rule run_op_resolved [OF ok(1) assms(3) ok(3) assms(4-6) Inr [unfolded eq], unfolded op_target.simps])
        have st: "storable (encode i q')"
          using storable_encode(3) [OF ok(1) assms(2) v] q' by (auto simp: spec_complete_def split: lease.splits if_splits)
        have "served inv look now i (Complete w) ?s1 (put ''queue'' i (encode i q') ?s1)"
          using good1 assms(2-4) st
          by (rule put_item_served) (use fin view view1 q' in \<open>auto intro: item_step.Finished\<close>)
        moreover have "snd (complete qe now (Str i) w s) = put ''queue'' i (encode i q') ?s1"
          using run_complete q' Inr assms(8) by (simp split: prod.splits)
        ultimately show ?thesis using served_after [OF view1] run(4) by simp
      qed
    qed
  qed
qed

text \<open>The remaining requests, and the whole of \<open>serve\<close>.\<close>

lemma enqueue_served:
  assumes "good s" "okty ''queue''" "okty ''task''" "i \<noteq> []" "qe_repository qe = R" "storable p"
  shows "served inv look now i (Enqueue p) s (snd (enqueue qe (Str i) p s))"
proof -
  have ok: "inv s" "queue_wf look s" "tasks_wf look s" using assms(1) by (auto simp: store_ok_def)
  show ?thesis
  proof (cases "\<exists>t. look s ''task'' i = Some t \<and> strict_eq (field t ''processId'') p")
    case False
    then have "enqueue qe (Str i) p s = (Inl (Error ''TASK_NOT_FOUND''), s)"
      using ok(3) by (intro enqueue_rejects [OF ok(1) assms(3-5)])
        (auto simp: stored_task_simps elim!: tasks_wfD split: option.splits)
    then show ?thesis using assms(1) by (simp add: served_idle)
  next
    case True
    then obtain t where t: "look s ''task'' i = Some t" "strict_eq (field t ''processId'') p" by blast
    obtain pid st where "stored_task i pid st t" using tasks_wfD [OF ok(3), OF t(1)] .
    then have "truthy t" by (rule stored_task_simps)
    define q' where "q' = spec_enqueue p (queue_view look s i)"
    have run: "enqueue qe (Str i) p s =
        (if queue_view look s i = Some q' then (Inr (encode i q'), s) else perform put i (Inr q') s)"
      unfolding q'_def by (rule enqueue_refines [OF ok(1) assms(2-5) ok(2) t(1) \<open>truthy t\<close> t(2) assms(6)])
    have step: "item_step now (Enqueue p) (queue_view look s i) (Some q')"
      unfolding q'_def by (rule item_step.Enqueued)
    show ?thesis
    proof (cases "queue_view look s i = Some q'")
      case True
      then show ?thesis using run assms(1) by (simp add: served_idle)
    next
      case False
      have q': "q' = \<lparr>q_process = p, q_attempts = 0, q_lease = Queued\<rparr>"
        using False by (auto simp: q'_def spec_enqueue_def split: option.splits if_splits)
      have "storable (spread (Obj []) [(''id'', Str i), (''processId'', p), (''status'', Str ''queued''),
          (''attempts'', Num 0), (''workerId'', Null), (''leaseExpiresAt'', Null)])"
        using assms(6) by (intro storable_spread) (auto intro: storable_json)
      then have "storable (encode i q')" by (simp add: q' spread_def encode_def)
      then have "served inv look now i (Enqueue p) s (put ''queue'' i (encode i q') s)"
        using assms(1-4) step by (intro put_item_served) auto
      with run False show ?thesis by simp
    qed
  qed
qed

lemma reclaim_served:
  assumes "good s" "okty ''queue''" "okty ''task''" "qe_repository qe = R"
  shows "served inv look now i Reclaim s (snd (bnd (reclaimExpired qe now) (\<lambda>xs. ret (Arr xs)) s))"
proof -
  have ok: "inv s" "queue_wf look s" "tasks_wf look s" "done_ok look s" using assms(1) by (auto simp: store_ok_def)
  obtain s' xs where s': "reclaimExpired qe now s = (Inr xs, s')" "inv s'" "queue_wf look s'"
    "\<And>k. queue_view look s' k = map_option (spec_reclaim now) (queue_view look s k)"
    "\<And>t k. okty t \<Longrightarrow> t \<noteq> ''queue'' \<Longrightarrow> look s' t k = look s t k"
    by (rule reclaimExpired_refines [OF ok(1) assms(2,4) ok(2), where now = now]) blast
  have task: "look s' ''task'' k = look s ''task'' k" for k using s'(5) [OF assms(3)] by simp
  have step: "item_step now Reclaim (queue_view look s k) (queue_view look s' k)" for k
    unfolding s'(4) by (rule item_step.Swept)
  have "done_ok look s'"
    using ok(4) step by (rule done_ok_step) (simp_all add: task status_refl)
  moreover have "tasks_wf look s'" using ok(3) by (simp add: tasks_wf_def task)
  ultimately have "served inv look now i Reclaim s s'"
    using s'(2,3) step by (simp add: served_def store_ok_def task status_refl)
  then show ?thesis by (simp add: bnd_def s'(1))
qed

text \<open>Claim, heartbeat and retry read one item and either reject or save its successor.\<close>

lemma item_op_served:
  assumes "good s" "okty ''queue''" "okty ''task''" "i \<noteq> []" "\<forall>w. r \<noteq> Complete w"
    and "look s ''queue'' i = None \<Longrightarrow> snd (m s) = s"
    and "\<And>q. look s ''queue'' i = Some (encode i q) \<Longrightarrow> m s = perform put i (f q) s"
    and "\<And>q q'. \<lbrakk>look s ''queue'' i = Some (encode i q); f q = Inr q'\<rbrakk> \<Longrightarrow>
      storable (encode i q') \<and> item_step now r (Some q) (Some q')"
  shows "served inv look now i r s (snd (m s))"
proof (cases "look s ''queue'' i")
  case None
  with assms(1,6) show ?thesis by (simp add: served_idle)
next
  case (Some v)
  have "queue_wf look s" using assms(1) by (simp add: store_ok_def)
  then obtain q where q: "look s ''queue'' i = Some (encode i q)" "queue_view look s i = Some q"
    using Some by (rule queue_wfE)
  have "served inv look now i r s (snd (perform put i (f q) s))"
    using assms(1-4) by (rule perform_served) (use assms(5,8) q in auto)
  with assms(7) [OF q(1)] show ?thesis by simp
qed

lemma claim_served:
  assumes "good s" "okty ''queue''" "okty ''task''" "i \<noteq> []" "qe_repository qe = R" "storable w"
  shows "served inv look now i (Claim leaseMs w) s (snd (claim qe leaseMs now (Str i) w s))"
proof -
  have ok: "inv s" using assms(1) by (simp add: store_ok_def)
  show ?thesis
  proof (rule item_op_served [OF assms(1-4), where f = "spec_claim leaseMs now w"])
    assume "look s ''queue'' i = None"
    from missing_refines(1) [OF ok assms(2,4,5) this]
    show "snd (claim qe leaseMs now (Str i) w s) = s" by (cases "truthy w") (simp_all add: claim_def)
  next
    fix q assume q: "look s ''queue'' i = Some (encode i q)"
    then show "claim qe leaseMs now (Str i) w s = perform put i (spec_claim leaseMs now w q) s"
      by (rule claim_refines [OF ok assms(2,4-6)])
    show "storable (encode i q') \<and> item_step now (Claim leaseMs w) (Some q) (Some q')"
      if "spec_claim leaseMs now w q = Inr q'" for q'
      using that storable_encode(1) [OF ok assms(2) q assms(6)]
      by (auto simp: spec_claim_def item_step_request split: if_splits)
  qed simp
qed

lemma heartbeat_served:
  assumes "good s" "okty ''queue''" "okty ''task''" "i \<noteq> []" "qe_repository qe = R"
  shows "served inv look now i (Heartbeat leaseMs w) s (snd (heartbeat qe leaseMs now (Str i) w s))"
proof -
  have ok: "inv s" using assms(1) by (simp add: store_ok_def)
  show ?thesis
  proof (rule item_op_served [OF assms(1-4), where f = "spec_heartbeat leaseMs now w"])
    assume "look s ''queue'' i = None"
    from missing_refines(2) [OF ok assms(2,4,5) this]
    show "snd (heartbeat qe leaseMs now (Str i) w s) = s" by simp
  next
    fix q assume q: "look s ''queue'' i = Some (encode i q)"
    then show "heartbeat qe leaseMs now (Str i) w s = perform put i (spec_heartbeat leaseMs now w q) s"
      by (rule heartbeat_refines [OF ok assms(2,4,5)])
    show "storable (encode i q') \<and> item_step now (Heartbeat leaseMs w) (Some q) (Some q')"
      if "spec_heartbeat leaseMs now w q = Inr q'" for q'
      using that storable_encode(4) [OF ok assms(2) q]
      by (auto simp: spec_heartbeat_def item_step_request split: if_splits lease.splits)
  qed simp
qed

lemma retry_served:
  assumes "good s" "okty ''queue''" "okty ''task''" "i \<noteq> []" "qe_repository qe = R"
  shows "served inv look now i (Retry w) s (snd (retry qe (Str i) w s))"
proof -
  have ok: "inv s" using assms(1) by (simp add: store_ok_def)
  show ?thesis
  proof (rule item_op_served [OF assms(1-4), where f = "spec_retry w"])
    assume "look s ''queue'' i = None"
    from missing_refines(4) [OF ok assms(2,4,5) this]
    show "snd (retry qe (Str i) w s) = s" by simp
  next
    fix q assume q: "look s ''queue'' i = Some (encode i q)"
    then show "retry qe (Str i) w s = perform put i (spec_retry w q) s"
      by (rule retry_refines [OF ok assms(2,4,5)])
    show "storable (encode i q') \<and> item_step now (Retry w) (Some q) (Some q')"
      if "spec_retry w q = Inr q'" for q'
      using that storable_encode(2) [OF ok assms(2) q]
      by (auto simp: spec_retry_def item_step_request split: if_splits lease.splits)
  qed simp
qed

lemma serve_served:
  assumes "good s" "okty ''queue''" "okty ''task''" "i \<noteq> []" "we_repository we = R" "we_eventBus we = None"
    and "qe_repository qe = R" "qe_completeTask qe = completeTask we" "requests_ok storable r"
  shows "served inv look now i r s (snd (serve qe we now i r s))"
  using assms(9) enqueue_served [OF assms(1-4,7)] claim_served [OF assms(1-4,7)] heartbeat_served [OF assms(1-4,7)]
    complete_served [OF assms(1-8)] retry_served [OF assms(1-4,7)] reclaim_served [OF assms(1-3,7)]
    transition_served [OF assms(1-6)]
  by (cases r) (simp_all add: serve_def requests_ok_def)

section \<open>Histories\<close>

text \<open>
  Along a history every store is good, tasks only advance, and a relation between items that
  every step keeps holds from start to end.
\<close>

lemma serve_all_good:
  assumes "okty ''queue''" "okty ''task''" "we_repository we = R" "we_eventBus we = None"
    and "qe_repository qe = R" "qe_completeTask qe = completeTask we"
    and "\<forall>(now, i, r) \<in> set h. i \<noteq> [] \<and> requests_ok storable r" "good s"
  shows "good (serve_all qe we h s)
    \<and> (\<forall>k. rel_option (\<le>) (status_of (look s ''task'' k)) (status_of (look (serve_all qe we h s) ''task'' k)))"
  using assms(7,8)
proof (induction h arbitrary: s)
  case Nil
  then show ?case by (simp add: status_refl)
next
  case (Cons e h)
  obtain now i r where e: "e = (now, i, r)" by (cases e) auto
  let ?s1 = "snd (serve qe we now i r s)"
  have "served inv look now i r s ?s1"
    using serve_served [OF Cons.prems(2) assms(1,2) _ assms(3-6)] Cons.prems(1) e by simp
  then have 1: "good ?s1" "\<And>k. rel_option (\<le>) (status_of (look s ''task'' k)) (status_of (look ?s1 ''task'' k))"
    by (simp_all add: served_def)
  have 2: "good (serve_all qe we h ?s1)"
    "rel_option (\<le>) (status_of (look ?s1 ''task'' k)) (status_of (look (serve_all qe we h ?s1) ''task'' k))" for k
    using Cons.IH [OF _ 1(1)] Cons.prems(1) by simp_all
  have "rel_option (\<le>) (status_of (look s ''task'' k)) (status_of (look (serve_all qe we h ?s1) ''task'' k))" for k
    using 1(2) [of k] 2(2) [of k] by (auto simp: rel_option_iff split: option.splits)
  with 2 e show ?case by simp
qed

lemma serve_all_item:
  assumes "okty ''queue''" "okty ''task''" "we_repository we = R" "we_eventBus we = None"
    and "qe_repository qe = R" "qe_completeTask qe = completeTask we"
    and "\<forall>(now, i, r) \<in> set h. i \<noteq> [] \<and> requests_ok storable r" "good s"
    and "P (queue_view look s k)"
    and "\<And>now i r x y. \<lbrakk>(now, i, r) \<in> set h; i = k \<or> r = Reclaim; P x; item_step now r x y\<rbrakk> \<Longrightarrow> P y"
  shows "P (queue_view look (serve_all qe we h s) k)"
  using assms(7-10)
proof (induction h arbitrary: s)
  case (Cons e h)
  obtain now i r where e: "e = (now, i, r)" by (cases e) auto
  let ?s1 = "snd (serve qe we now i r s)"
  have sv: "served inv look now i r s ?s1"
    using serve_served [OF Cons.prems(2) assms(1,2) _ assms(3-6)] Cons.prems(1) e by simp
  have "P (queue_view look ?s1 k)"
  proof (cases "i = k \<or> r = Reclaim")
    case True
    have "item_step now r (queue_view look s k) (queue_view look ?s1 k)" using sv by (simp add: served_def)
    with True show ?thesis using Cons.prems(3) Cons.prems(4) [of now i r] e by auto
  next
    case False
    with sv have "queue_view look ?s1 k = queue_view look s k" unfolding served_def by metis
    with Cons.prems(3) show ?thesis by simp
  qed
  moreover have "good ?s1" using sv by (simp add: served_def)
  ultimately have "P (queue_view look (serve_all qe we h ?s1) k)"
    using Cons.prems(1,4) by (intro Cons.IH) (simp_all, blast)
  with e show ?case by simp
qed simp

end

end
