(* ===== verification/WorkflowProperties.thy ===== *)
theory WorkflowProperties
  imports Workflow
begin

text \<open>
  Properties of the persistence boundary and of the workflow engine, on the repositories the
  program provides.
\<close>

section \<open>The engine on the in-memory repository\<close>

definition mem_workflow :: "'z mem_repo_scheme workflow_engine" where
  "mem_workflow = \<lparr>we_repository = mem_repository, we_eventBus = None\<rparr>"

lemma mem_workflow_simps [simp]:
  "we_repository mem_workflow = mem_repository" "we_eventBus mem_workflow = None"
  "new_WorkflowEngine (Some mem_repository) None = Inr mem_workflow"
  by (simp_all add: mem_workflow_def new_WorkflowEngine_def)

lemma record_types [simp]: "segment ''queue''" "segment ''task''" "segment ''scheduled_job''"
  by (simp_all add: segment_def colon_def)

abbreviation mem_status :: "'z mem_repo_scheme \<Rightarrow> string \<Rightarrow> task_status option" where
  "mem_status s i \<equiv> status_of (mem_look s ''task'' i)"

definition demo_task :: "string \<Rightarrow> task_status \<Rightarrow> jsval" where
  "demo_task i st = Obj [(''id'', Str i), (''processId'', Str ''p1''), (''name'', Str ''n''),
     (''status'', status_val st), (''type'', Str ''task'')]"

lemma demo_task_stored: "stored_task i (Str ''p1'') st (demo_task i st)"
  by (simp add: stored_task_def demo_task_def)

text \<open>A stored task is what the domain constructor builds.\<close>

lemma demo_task_created: "i \<noteq> [] \<Longrightarrow> createTask (Str i) (Str ''p1'') (Str ''n'') (status_val st) = Inr (demo_task i st)"
  by (cases st) (simp_all add: createTask_def demo_task_def default_to_def task_statuses_def Let_def)

section \<open>Properties\<close>

text \<open>Round trip. On the in-memory repository a saved value is what is found under the same type
  and id, whatever else is stored; every other record (a different id, or a different type) is found
  as before; and after a delete nothing is found.\<close>

theorem memory_repository_roundtrip:
  fixes s :: "'z mem_repo_scheme"
  assumes "mem_inv s" "segment t" "segment t'" "i \<noteq> []" "i' \<noteq> []" "v \<noteq> Undefined"
  shows "bnd (mem_save t (Str i) v) (\<lambda>_. mem_find t (Str i)) s = (Inr v, mem_put t i v s)
    \<and> (t' \<noteq> t \<or> i' \<noteq> i \<longrightarrow> fst (bnd (mem_save t (Str i) v) (\<lambda>_. mem_find t' (Str i')) s) = fst (mem_find t' (Str i') s))
    \<and> fst (bnd (mem_delete t (Str i)) (\<lambda>_. mem_find t (Str i)) s) = Inr Null"
  using mem.save_find [OF assms(1,2,4) _ assms(6)] mem.find_other_after_save [OF assms(1-5), of v]
    mem.delete_find [OF assms(1,2,4)] by simp

theorem memory_repository_roundtrip_witness:
  "fst (bnd (mem_save ''task'' (Str ''a'') (Num 1)) (\<lambda>_. mem_find ''task'' (Str ''a'')) new_InMemoryRepository) = Inr (Num 1)"
  using memory_repository_roundtrip [of new_InMemoryRepository "''task''" "''queue''" "''a''" "''b''" "Num 1"]
  by (simp add: mem_inv_def new_InMemoryRepository_def)

text \<open>Safety. Tenants are isolated on Postgres: through a repository scoped to one tenant, no
  save and no delete, accepted or rejected, changes any record of another tenant, and a find or a
  listing shows that tenant's own records only.\<close>

theorem postgres_tenants_are_isolated:
  assumes "pg_inv s" "n \<noteq> []" "n' \<noteq> []" "n' \<noteq> n" "ty \<noteq> []" "ty' \<noteq> []" "i \<noteq> []"
  shows "pg_look (snd (rsave (tenant_scoped pg_repository (Str n)) ty (Str i) v s)) n' ty' i' = pg_look s n' ty' i'
    \<and> pg_look (snd (rdelete (tenant_scoped pg_repository (Str n)) ty (Str i) s)) n' ty' i' = pg_look s n' ty' i'
    \<and> rfind (tenant_scoped pg_repository (Str n)) ty (Str i) s = (Inr (or_null (pg_look s n ty i)), s)
    \<and> (\<exists>xs. rall (tenant_scoped pg_repository (Str n)) ty s = (Inr xs, s)
         \<and> set xs = {v. \<exists>k. pg_look s n ty k = Some v})"
proof -
  have "pg_look (snd (pg_save (Str n) ty (Str i) v s)) n' ty' i' = pg_look s n' ty' i'"
    using assms(4) by (auto simp: pg_save_def pg_look_def content_upsert row_key_def Let_def split: option.split)
  moreover have "pg_look (snd (pg_delete (Str n) ty (Str i) s)) n' ty' i' = pg_look s n' ty' i'"
    using assms(4) by (auto simp: pg_delete_def pg_look_def content_delete sql_delete_def split: option.split)
  moreover have "tsave pg_repository = pg_save" "tdelete pg_repository = pg_delete"
    by (simp_all add: pg_repository_def)
  ultimately show ?thesis
    using pg.tfind_law [of s n ty i] pg.tall_law [of s n ty] pg.set_tlisting [of s n ty] assms by simp
qed

theorem postgres_tenants_are_isolated_witness:
  "pg_look (snd (rsave (tenant_scoped pg_repository (Str ''t1'')) ''task'' (Str ''a'') (Num 1)
      \<lparr>bos_records = [], pg_now = 5\<rparr>)) ''t2'' ''task'' ''a'' = None"
  using postgres_tenants_are_isolated [of "\<lparr>bos_records = [], pg_now = 5\<rparr>" "''t1''" "''t2''" "''task''" "''task''" "''a''" "Num 1" "''a''"]
  by (simp add: pg_inv_def pg_look_def pg_content_def)

text \<open>Safety limit. The test store's composite keys do not separate tenants whose ids contain the
  separator: a record saved for tenant \<open>n:t\<close> under a type and id is found by tenant \<open>n\<close> as type
  \<open>t\<close> with the id \<open>type:id\<close>, so such a tenant can read and overwrite another tenant's record.\<close>

theorem test_store_tenants_collide:
  fixes s :: "'z mem_repo_scheme"
  assumes "n \<noteq> []" "t \<noteq> []" "t' \<noteq> []" "i \<noteq> []" "v \<noteq> Undefined"
  shows "fst (bnd (test_save (Str (n @ colon # t)) t' (Str i) v) (\<lambda>_. test_find (Str n) t (Str (t' @ colon # i))) s) = Inr v"
  using assms by (simp add: bnd_def test_save_def test_find_def test_key_def)

theorem test_store_tenants_collide_witness:
  "fst (bnd (test_save (Str ''acme:task'') ''queue'' (Str ''i'') (Str ''secret''))
     (\<lambda>_. test_find (Str ''acme'') ''task'' (Str ''queue:i'')) new_InMemoryRepository) = Inr (Str ''secret'')"
  using test_store_tenants_collide [of "''acme''" "''task''" "''queue''" "''i''" "Str ''secret''" new_InMemoryRepository]
  by (simp add: colon_def)

text \<open>C22: Functional. A task transition on every branch, with any event bus: a missing task, a task of
  another process and a completed task are refused with their own error and nothing changes or is
  announced; otherwise the new status is persisted first, and only then announced with the
  persisted ids and status, so a bus that rejects leaves the task transitioned and its error is
  what the caller gets.\<close>

theorem task_transition_contract:
  fixes s :: "'z mem_repo_scheme"
  assumes "mem_inv s" "tasks_wf mem_look s" "i \<noteq> []"
  shows "run_op \<lparr>we_repository = mem_repository, we_eventBus = bus\<rparr> x (Str i) p s =
    (case mem_look s ''task'' i of
       None \<Rightarrow> (Inl (Error ''TASK_NOT_FOUND''), s)
     | Some t \<Rightarrow>
         if \<not> strict_eq (field t ''processId'') p then (Inl (Error ''PROCESS_BOUNDARY_VIOLATION''), s)
         else if mem_status s i = Some Completed then (Inl (Error ''TASK_ALREADY_COMPLETED''), s)
         else (let t' = spread t [(''status'', status_val (op_target x))];
                   s' = mem_put ''task'' i t' s;
                   event = Obj [(''type'', Str (op_event x)), (''taskId'', Str i), (''processId'', field t ''processId''),
                     (''status'', status_val (op_target x))]
               in case bus of
                 None \<Rightarrow> (Inr t', s')
               | Some publish \<Rightarrow>
                   (case publish event s' of (Inl e, s'') \<Rightarrow> (Inl e, s'') | (Inr _, s'') \<Rightarrow> (Inr t', s''))))"
proof (cases "mem_look s ''task'' i")
  case None
  then show ?thesis using mem.run_op_missing [OF assms(1) _ assms(3) None] by simp
next
  case (Some t)
  obtain pid st where t: "stored_task i pid st t" using tasks_wfD [OF assms(2), OF Some] .
  have st: "mem_status s i = Some st" using Some t by (simp add: status_of_stored)
  let ?t' = "spread t [(''status'', status_val (op_target x))]"
  have event: "task_event (op_event x) ?t' =
      Obj [(''type'', Str (op_event x)), (''taskId'', Str i), (''processId'', pid), (''status'', status_val (op_target x))]"
    using t by (simp add: task_event_def js_simps stored_task_simps)
  note spec = mem.run_op_spec [OF assms(1) _ assms(3) Some t, of "\<lparr>we_repository = mem_repository, we_eventBus = bus\<rparr>" x p]
  show ?thesis
    using spec t
    by (cases st; cases bus)
      (auto simp: Some [simplified] stored_task_simps Let_def publish_on_def event bnd_def st [simplified Some] split: prod.split sum.split)
qed

definition demo_tasks :: mem_repo where
  "demo_tasks = \<lparr>records = [(''task:a'', demo_task ''a'' In_Progress), (''task:c'', demo_task ''c'' Completed)]\<rparr>"

lemma demo_tasks_look:
  "mem_look demo_tasks ''task'' i =
     (if i = ''a'' then Some (demo_task ''a'' In_Progress) else if i = ''c'' then Some (demo_task ''c'' Completed) else None)"
  by (simp add: demo_tasks_def mem_look_def colon_def)

lemma demo_tasks_ok: "mem_inv demo_tasks" "tasks_wf mem_look demo_tasks"
  by (auto simp: mem_inv_def demo_tasks_def tasks_wf_def demo_tasks_look [unfolded demo_tasks_def] intro: demo_task_stored split: if_splits)

theorem task_transition_contract_witness:
  "fst (run_op mem_workflow Finish (Str ''a'') (Str ''p1'') demo_tasks) = Inr (demo_task ''a'' Completed)
   \<and> fst (run_op mem_workflow Start (Str ''c'') (Str ''p1'') demo_tasks) = Inl (Error ''TASK_ALREADY_COMPLETED'')"
  using task_transition_contract [OF demo_tasks_ok, of "''a''" None Finish "Str ''p1''"]
    task_transition_contract [OF demo_tasks_ok, of "''c''" None Start "Str ''p1''"]
  by (simp add: demo_tasks_look demo_task_def strict_eq_def spread_def status_of_def mem_workflow_def Let_def)

end
