(* ===== verification/QueueProperties.thy ===== *)
theory QueueProperties
  imports QueueProtocol WorkflowProperties
begin

text \<open>
  The queue over the repository the program runs it on: \<open>InMemoryRepository\<close>, with a
  \<open>WorkflowEngine\<close> on the same repository. The properties are those of the abstract queue,
  carried over by the interpretation \<open>mem\<close> of the repository contract.
\<close>

section \<open>The engines on the in-memory repository\<close>

definition mem_queue :: "'z mem_repo_scheme queue_engine" where
  "mem_queue = \<lparr>qe_repository = mem_repository, qe_completeTask = completeTask mem_workflow, qe_leaseMs = 30000\<rparr>"

lemma mem_engines [simp]:
  "qe_repository mem_queue = mem_repository" "qe_completeTask mem_queue = completeTask mem_workflow"
  "qe_leaseMs mem_queue = 30000"
  by (simp_all add: mem_queue_def)

lemma mem_engines_constructed:
  "new_QueueWorkerEngine (Some mem_repository) (Some (completeTask mem_workflow)) Undefined = Inr mem_queue"
  by (simp_all add: new_QueueWorkerEngine_def mem_queue_def default_to_def)

abbreviation mem_ok :: "'z mem_repo_scheme \<Rightarrow> bool" where
  "mem_ok \<equiv> store_ok mem_inv mem_look"

abbreviation mem_view :: "'z mem_repo_scheme \<Rightarrow> string \<Rightarrow> qitem option" where
  "mem_view \<equiv> queue_view mem_look"

text \<open>Histories of requests that name an id.\<close>

definition proper :: "(int \<times> string \<times> request) list \<Rightarrow> bool" where
  "proper h \<longleftrightarrow> (\<forall>(now, i, r) \<in> set h. i \<noteq> [])"

lemma requests_ok_mem [simp]: "requests_ok (\<lambda>_. True) r"
  by (cases r) (simp_all add: requests_ok_def)

lemma mem_look_view:
  "mem_ok s \<Longrightarrow> mem_view s i = Some q \<Longrightarrow> mem_look s ''queue'' i = Some (encode i q) \<and> mem_inv s \<and> i \<noteq> []"
  by (auto simp: store_ok_def queue_view_Some dest: queue_wfD)

lemma mem_ok_serve_all:
  "mem_ok s \<Longrightarrow> proper h \<Longrightarrow> mem_ok (serve_all mem_queue mem_workflow h s)"
  using mem.serve_all_good [of mem_workflow mem_queue h s] by (simp add: proper_def)

section \<open>A store to run on\<close>

text \<open>
  One process with three tasks: one leased to worker \<^verbatim>\<open>w1\<close> until time 100, one queued, one
  finished.
\<close>

definition demo_item :: "string \<Rightarrow> int \<Rightarrow> lease \<Rightarrow> jsval" where
  "demo_item i n l = encode i \<lparr>q_process = Str ''p1'', q_attempts = n, q_lease = l\<rparr>"

definition demo_store :: mem_repo where
  "demo_store = \<lparr>records = [(''task:a'', demo_task ''a'' In_Progress), (''task:b'', demo_task ''b'' Pending),
     (''task:c'', demo_task ''c'' Completed), (''queue:a'', demo_item ''a'' 1 (Processing (Str ''w1'') 100)),
     (''queue:b'', demo_item ''b'' 0 Queued), (''queue:c'', demo_item ''c'' 1 Done)]\<rparr>"

lemma demo_look:
  "mem_look demo_store ''task'' i =
     (if i = ''a'' then Some (demo_task ''a'' In_Progress) else if i = ''b'' then Some (demo_task ''b'' Pending)
      else if i = ''c'' then Some (demo_task ''c'' Completed) else None)"
  "mem_look demo_store ''queue'' i =
     (if i = ''a'' then Some (demo_item ''a'' 1 (Processing (Str ''w1'') 100)) else if i = ''b'' then Some (demo_item ''b'' 0 Queued)
      else if i = ''c'' then Some (demo_item ''c'' 1 Done) else None)"
  by (simp_all add: demo_store_def mem_look_def colon_def)

lemma demo_view:
  "mem_view demo_store i =
     (if i = ''a'' then Some \<lparr>q_process = Str ''p1'', q_attempts = 1, q_lease = Processing (Str ''w1'') 100\<rparr>
      else if i = ''b'' then Some \<lparr>q_process = Str ''p1'', q_attempts = 0, q_lease = Queued\<rparr>
      else if i = ''c'' then Some \<lparr>q_process = Str ''p1'', q_attempts = 1, q_lease = Done\<rparr> else None)"
  by (simp add: queue_view_def demo_look demo_item_def)

lemma demo_ok: "mem_ok demo_store"
proof -
  have "mem_inv demo_store" by (simp add: mem_inv_def demo_store_def)
  moreover have "queue_wf mem_look demo_store" by (auto simp: queue_wf_def demo_look demo_item_def)
  moreover have "tasks_wf mem_look demo_store"
    unfolding tasks_wf_def by (auto simp: demo_look intro: demo_task_stored split: if_splits)
  moreover have "done_ok mem_look demo_store"
    unfolding done_ok_def by (auto simp: demo_view demo_look status_of_stored [OF demo_task_stored] split: if_splits)
  ultimately show ?thesis by (simp add: store_ok_def)
qed

lemmas demo = demo_view demo_look demo_ok

section \<open>Properties\<close>

text \<open>C1: Refinement. On a queue record that represents item \<open>q\<close>, the engine's claim, heartbeat,
  retry and completion each perform exactly the abstract step on every branch: the same error
  with the state untouched, or the successor item saved under the same id; completion runs the
  workflow engine's completion first and saves only if that resolved.\<close>

theorem queue_refines_spec:
  fixes s :: "'z mem_repo_scheme"
  assumes "mem_ok s" "mem_view s i = Some q"
  shows "claim mem_queue leaseMs now (Str i) w s = perform mem_put i (spec_claim leaseMs now w q) s
    \<and> heartbeat mem_queue leaseMs now (Str i) w s = perform mem_put i (spec_heartbeat leaseMs now w q) s
    \<and> retry mem_queue (Str i) w s = perform mem_put i (spec_retry w q) s
    \<and> complete mem_queue now (Str i) w s =
        (case spec_complete now w q of
           Inl e \<Rightarrow> (Inl e, s)
         | Inr q' \<Rightarrow>
             (case completeTask mem_workflow (Str i) (q_process q) s of
                (Inl e, s') \<Rightarrow> (Inl e, s')
              | (Inr _, s') \<Rightarrow> perform mem_put i (Inr q') s'))"
proof -
  have l: "mem_look s ''queue'' i = Some (encode i q)" "mem_inv s" "i \<noteq> []"
    using mem_look_view [OF assms] by auto
  have "mem_ok (snd (run_op mem_workflow Finish (Str i) (q_process q) s))"
    using mem.transition_served [OF assms(1) _ _ l(3), of mem_workflow 0 i Reclaim Finish "q_process q"]
    by (simp add: served_def)
  then have "mem_inv (snd (qe_completeTask mem_queue (Str i) (q_process q) s))"
    by (simp add: store_ok_def run_op_def)
  then show ?thesis
    using mem.claim_refines [OF l(2) _ l(3) _ _ l(1)] mem.heartbeat_refines [OF l(2) _ l(3) _ l(1)]
      mem.retry_refines [OF l(2) _ l(3) _ l(1)] mem.complete_refines [OF l(2) _ l(3) _ l(1), of mem_queue now w]
    unfolding mem_engines mem_workflow_simps by simp
qed

theorem queue_refines_spec_witness:
  "fst (claim mem_queue 50 0 (Str ''b'') (Str ''w2'') demo_store) =
     Inr (demo_item ''b'' 1 (Processing (Str ''w2'') 50))"
  using queue_refines_spec [OF demo_ok, of "''b''"]
  by (simp add: demo_view spec_claim_def demo_item_def)

text \<open>C2: Safety. A live lease protects its holder: as long as the clock stays below the lease's
  expiry, no history of queue and workflow requests, sweeps included, changes the item, unless
  it contains a request for it that acts as the holder (a heartbeat, completion or release by the
  same worker, or a completion or release that names no worker).\<close>

theorem live_lease_is_exclusive:
  fixes s :: "'z mem_repo_scheme"
  assumes "mem_ok s" "proper h" "mem_view s k = Some q" "q_lease q = Processing w t"
    and "\<forall>(now, i, r) \<in> set h. now < t \<and> (i = k \<longrightarrow> \<not> acts_as w r)"
  shows "mem_view (serve_all mem_queue mem_workflow h s) k = Some q"
proof (rule mem.serve_all_item [where P = "\<lambda>x. x = Some q" and h = h and s = s and k = k])
  fix now i r x y
  assume step: "(now, i, r) \<in> set h" "i = k \<or> r = Reclaim" "x = Some q" "item_step now r x y"
  then have "now < t" "\<not> acts_as w r" using assms(5) by auto
  with step(3,4) assms(4) show "y = Some q" by (auto dest: item_step_live)
qed (use assms(1-3) in \<open>auto simp: proper_def\<close>)

theorem live_lease_is_exclusive_witness:
  "mem_view (serve_all mem_queue mem_workflow
     [(10, ''a'', Claim 50 (Str ''w2'')), (20, ''a'', Retry (Str ''w2'')), (30, ''b'', Reclaim), (40, ''a'', Enqueue (Str ''p1''))]
     demo_store) ''a'' = Some \<lparr>q_process = Str ''p1'', q_attempts = 1, q_lease = Processing (Str ''w1'') 100\<rparr>"
  by (rule live_lease_is_exclusive [OF demo_ok, where w = "Str ''w1''" and t = 100])
    (simp_all add: proper_def demo_view foreign_def strict_eq_def)

text \<open>C3: Invariant. Every history of queue and workflow requests keeps the store well formed:
  every queue record represents an item under its own id, every task record has one of the three
  statuses, a finished queue item's task is completed; and no task ever moves backwards in the
  lifecycle pending, in progress, completed.\<close>

theorem histories_keep_store:
  fixes s :: "'z mem_repo_scheme"
  assumes "mem_ok s" "proper h"
  shows "mem_ok (serve_all mem_queue mem_workflow h s)
    \<and> rel_option (\<le>) (mem_status s k) (mem_status (serve_all mem_queue mem_workflow h s) k)"
  using mem.serve_all_good [where we = mem_workflow and qe = mem_queue and s = s and h = h] assms
  by (auto simp: proper_def)

theorem histories_keep_store_witness:
  "mem_ok (serve_all mem_queue mem_workflow
     [(10, ''a'', Complete (Str ''w1'')), (20, ''b'', Transition Start (Str ''p1'')), (30, ''b'', Claim 5 (Str ''w2''))] demo_store)"
  by (rule histories_keep_store [OF demo_ok, THEN conjunct1]) (simp add: proper_def)

text \<open>Invariant. Work is never finished twice and attempts are never lost: along any history
  that does not enqueue the item again, a finished item stays exactly as it is, and the attempt
  counter of any item never decreases.\<close>

theorem attempts_and_completion_persist:
  fixes s :: "'z mem_repo_scheme"
  assumes "mem_ok s" "proper h" "mem_view s k = Some q"
    and "\<forall>(now, i, r) \<in> set h. i = k \<longrightarrow> (\<forall>p. r \<noteq> Enqueue p)"
  shows "\<exists>q'. mem_view (serve_all mem_queue mem_workflow h s) k = Some q'
    \<and> q_attempts q \<le> q_attempts q' \<and> (q_lease q = Done \<longrightarrow> q' = q)"
proof (rule mem.serve_all_item [where h = h and s = s and k = k
      and P = "\<lambda>x. \<exists>q'. x = Some q' \<and> q_attempts q \<le> q_attempts q' \<and> (q_lease q = Done \<longrightarrow> q' = q)"])
  fix now i r x y
  assume step: "(now, i, r) \<in> set h" "i = k \<or> r = Reclaim" "item_step now r x y"
    and "\<exists>q'. x = Some q' \<and> q_attempts q \<le> q_attempts q' \<and> (q_lease q = Done \<longrightarrow> q' = q)"
  then obtain q1 where q1: "x = Some q1" "q_attempts q \<le> q_attempts q1" "q_lease q = Done \<longrightarrow> q1 = q" by blast
  have r: "\<forall>p. r \<noteq> Enqueue p" using step(1,2) assms(4) by auto
  obtain q2 where "y = Some q2" "q_attempts q1 \<le> q_attempts q2"
    using step(3) q1(1) r by (auto elim!: item_step_attempts)
  with q1 r step(3) item_step_done [of now r q1 y]
  show "\<exists>q'. y = Some q' \<and> q_attempts q \<le> q_attempts q' \<and> (q_lease q = Done \<longrightarrow> q' = q)" by auto
qed (use assms(1-3) in \<open>auto simp: proper_def\<close>)

theorem attempts_and_completion_persist_witness:
  "\<exists>q'. mem_view (serve_all mem_queue mem_workflow [(200, ''c'', Claim 5 (Str ''w2'')), (300, ''c'', Retry Undefined)] demo_store) ''c''
     = Some q' \<and> q_attempts q' \<ge> 1 \<and> q_lease q' = Done"
  using attempts_and_completion_persist [OF demo_ok, of "[(200, ''c'', Claim 5 (Str ''w2'')), (300, ''c'', Retry Undefined)]" "''c''"]
  by (force simp: proper_def demo_view)

text \<open>Functional. The sweep of expired leases returns every processing item whose lease has
  expired to the queue, keeps its attempt count, touches no other item, returns exactly the
  records it saved, and afterwards no item holds a lease that is expired at that clock.\<close>

theorem sweep_reclaims_exactly_expired:
  fixes s :: "'z mem_repo_scheme"
  assumes "mem_ok s"
  shows "\<exists>xs s'. reclaimExpired mem_queue now s = (Inr xs, s') \<and> mem_ok s'
    \<and> (\<forall>k. mem_view s' k = map_option (spec_reclaim now) (mem_view s k))
    \<and> (\<forall>k q. mem_view s' k = Some q \<longrightarrow> \<not> expired_at now (q_lease q))
    \<and> set xs = {encode k (spec_reclaim now q) | k q. mem_view s k = Some q \<and> expired_at now (q_lease q)}"
proof -
  have ok: "mem_inv s" "queue_wf mem_look s" using assms by (auto simp: store_ok_def)
  obtain s' where s': "reclaimExpired mem_queue now s =
       (Inr (map (\<lambda>v. encode (to_str (field v ''id'')) (spec_reclaim now (decode v)))
             (filter (\<lambda>v. expired_at now (q_lease (decode v))) (mem_listing s ''queue''))), s')"
    "\<And>k. mem_view s' k = map_option (spec_reclaim now) (mem_view s k)"
    by (rule mem.reclaimExpired_refines [OF ok(1) _ _ ok(2), where now = now and qe = mem_queue]) auto
  have "mem_ok s'"
    using mem.reclaim_served [OF assms, of mem_queue now undefined] by (simp add: bnd_def s'(1) served_def)
  moreover have "\<not> expired_at now (q_lease q)" if "mem_view s' k = Some q" for k q
    using that by (auto simp: s'(2))
  moreover have "set (mem_listing s ''queue'') = {encode k q | k q. mem_view s k = Some q}"
    using mem.set_listing [OF ok(1), of "''queue''"] queue_items [OF ok(2)] by simp
  ultimately show ?thesis using s' by (fastforce simp: image_iff)
qed

theorem sweep_reclaims_exactly_expired_witness:
  "\<exists>xs s'. reclaimExpired mem_queue 100 demo_store = (Inr xs, s')
     \<and> mem_view s' ''a'' = Some \<lparr>q_process = Str ''p1'', q_attempts = 1, q_lease = Queued\<rparr>"
proof -
  obtain xs s' where "reclaimExpired mem_queue 100 demo_store = (Inr xs, s')"
    "\<forall>k. mem_view s' k = map_option (spec_reclaim 100) (mem_view demo_store k)"
    using sweep_reclaims_exactly_expired [OF demo_ok, of 100] by blast
  then show ?thesis by (simp add: demo_view spec_reclaim_def)
qed

text \<open>Liveness. An expired lease never strands its task: any other named worker can claim the
  item at once, which counts an attempt, and from then on the former holder's heartbeat, completion
  and release are all rejected as not owning the lease, with the state untouched.\<close>

theorem expired_lease_is_taken_over:
  fixes s :: "'z mem_repo_scheme"
  assumes "mem_ok s" "mem_view s i = Some q" "q_lease q = Processing w t" "t \<noteq> 0" "t \<le> now"
    and "truthy w" "truthy w'" "\<not> strict_eq w' w"
  shows "let q' = q\<lparr>q_attempts := q_attempts q + 1, q_lease := Processing w' (now + leaseMs)\<rparr>;
             s' = mem_put ''queue'' i (encode i q') s
         in claim mem_queue leaseMs now (Str i) w' s = (Inr (encode i q'), s')
          \<and> heartbeat mem_queue n1 n2 (Str i) w s' = (Inl (Error ''LEASE_NOT_OWNED''), s')
          \<and> complete mem_queue n2 (Str i) w s' = (Inl (Error ''LEASE_NOT_OWNED''), s')
          \<and> retry mem_queue (Str i) w s' = (Inl (Error ''LEASE_NOT_OWNED''), s')"
proof -
  define q' where "q' = q\<lparr>q_attempts := q_attempts q + 1, q_lease := Processing w' (now + leaseMs)\<rparr>"
  let ?s' = "mem_put ''queue'' i (encode i q') s"
  have l: "mem_look s ''queue'' i = Some (encode i q)" "mem_inv s" "i \<noteq> []"
    using mem_look_view [OF assms(1,2)] by auto
  have c: "claim mem_queue leaseMs now (Str i) w' s = (Inr (encode i q'), ?s')"
    using mem.claim_refines [OF l(2) _ l(3) _ _ l(1), where qe = mem_queue and w = w'] assms(3-5,7)
    by (simp add: spec_claim_def q'_def)
  have "served mem_inv mem_look now i (Claim leaseMs w') s ?s'"
    using mem.claim_served [OF assms(1) _ _ l(3), where qe = mem_queue and w = w' and now = now and leaseMs = leaseMs] by (simp add: c)
  then have "mem_inv ?s'" "mem_look ?s' ''queue'' i = Some (encode i q')"
    using l by (simp_all add: served_def store_ok_def mem.look_put)
  note l' = this
  have "mem_ok ?s'" using \<open>served mem_inv mem_look now i (Claim leaseMs w') s ?s'\<close> by (simp add: served_def)
  then have "mem_inv (snd (run_op mem_workflow Finish (Str i) (q_process q') ?s'))"
    using mem.transition_served [of ?s' i mem_workflow 0 i Reclaim Finish "q_process q'"] l(3)
    by (simp add: served_def store_ok_def)
  then have "mem_inv (snd (qe_completeTask mem_queue (Str i) (q_process q') ?s'))" by (simp add: run_op_def)
  then show ?thesis
    using c mem.heartbeat_refines [OF l'(1) _ l(3) _ l'(2), where qe = mem_queue and leaseMs = n1 and now = n2 and w = w]
      mem.retry_refines [OF l'(1) _ l(3) _ l'(2), where qe = mem_queue and w = w]
      mem.complete_refines [OF l'(1) _ l(3) _ l'(2), where qe = mem_queue and now = n2 and w = w] assms(6,8)
    by (simp add: Let_def q'_def [symmetric])
      (simp add: q'_def spec_heartbeat_def spec_retry_def spec_complete_def foreign_def)
qed

theorem expired_lease_is_taken_over_witness:
  "fst (claim mem_queue 50 100 (Str ''a'') (Str ''w2'') demo_store) = Inr (demo_item ''a'' 2 (Processing (Str ''w2'') 150))"
  using expired_lease_is_taken_over [OF demo_ok, of "''a''" _ "Str ''w1''" 100 100 "Str ''w2''" 50 0 0]
  by (simp add: demo_view demo_item_def Let_def strict_eq_def)

text \<open>Functional. Enqueueing is accepted exactly for an existing task of the named process. A
  queued or processing item is returned as it is and nothing is written, so enqueueing twice is
  enqueueing once; a missing or finished item is (re)started with no attempts and no lease.
  Otherwise it is rejected as a missing task and nothing changes.\<close>

theorem enqueue_contract:
  fixes s :: "'z mem_repo_scheme"
  assumes "mem_ok s" "i \<noteq> []"
  shows "enqueue mem_queue (Str i) p s =
    (if \<exists>t. mem_look s ''task'' i = Some t \<and> strict_eq (field t ''processId'') p
     then let q' = spec_enqueue p (mem_view s i)
          in (Inr (encode i q'), if mem_view s i = Some q' then s else mem_put ''queue'' i (encode i q') s)
     else (Inl (Error ''TASK_NOT_FOUND''), s))"
proof -
  have ok: "mem_inv s" "queue_wf mem_look s" "tasks_wf mem_look s" using assms(1) by (auto simp: store_ok_def)
  show ?thesis
  proof (cases "\<exists>t. mem_look s ''task'' i = Some t \<and> strict_eq (field t ''processId'') p")
    case False
    then have "enqueue mem_queue (Str i) p s = (Inl (Error ''TASK_NOT_FOUND''), s)"
      using ok(3) assms(2) by (intro mem.enqueue_rejects [OF ok(1)])
        (auto simp: stored_task_simps elim!: tasks_wfD split: option.splits)
    then show ?thesis by (simp only: False if_False)
  next
    case True
    then obtain t where t: "mem_look s ''task'' i = Some t" "strict_eq (field t ''processId'') p" by blast
    obtain pid st where "stored_task i pid st t" using tasks_wfD [OF ok(3), OF t(1)] .
    then have "truthy t" by (rule stored_task_simps)
    with mem.enqueue_refines [OF ok(1) _ _ assms(2) _ ok(2) t(1) _ t(2), of mem_queue] t True
    show ?thesis by (auto simp: Let_def)
  qed
qed

theorem enqueue_contract_witness:
  "fst (enqueue mem_queue (Str ''c'') (Str ''p1'') demo_store) = Inr (demo_item ''c'' 0 Queued)
   \<and> fst (enqueue mem_queue (Str ''c'') (Str ''p2'') demo_store) = Inl (Error ''TASK_NOT_FOUND'')"
  using enqueue_contract [OF demo_ok, of "''c''"]
  by (simp add: demo_look demo_view demo_task_def demo_item_def spec_enqueue_def strict_eq_def Let_def)

text \<open>Error. Once a task is completed, completing its queue item is always refused: a processing
  item whose task is completed answers every in-lease completion, by its holder or anonymous, with
  TASK_ALREADY_COMPLETED and stays processing, so it can only be released and claimed again. Such
  items arise when a finished item is enqueued again, which enqueueing does not refuse.\<close>

theorem completed_task_item_cannot_complete:
  fixes s :: "'z mem_repo_scheme"
  assumes "mem_ok s" "mem_view s i = Some q" "q_lease q = Processing w t" "t = 0 \<or> now < t"
    and "mem_status s i = Some Completed" "\<not> foreign w v"
    and "mem_look s ''task'' i = Some task" "strict_eq (field task ''processId'') (q_process q)"
  shows "complete mem_queue now (Str i) v s = (Inl (Error ''TASK_ALREADY_COMPLETED''), s)"
proof -
  have ok: "mem_inv s" "tasks_wf mem_look s" using assms(1) by (auto simp: store_ok_def)
  have l: "mem_look s ''queue'' i = Some (encode i q)" "mem_inv s" "i \<noteq> []"
    using mem_look_view [OF assms(1,2)] by auto
  obtain pid st where t: "stored_task i pid st task" using tasks_wfD [OF ok(2), OF assms(7)] .
  with assms(5,7) have "st = Completed" by (simp add: status_of_stored)
  then have "run_op mem_workflow Finish (Str i) (q_process q) s = (Inl (Error ''TASK_ALREADY_COMPLETED''), s)"
    using mem.run_op_spec [OF ok(1) _ l(3) assms(7) t, of mem_workflow Finish "q_process q"] t assms(8)
    by (simp add: stored_task_simps)
  then have run: "completeTask mem_workflow (Str i) (q_process q) s = (Inl (Error ''TASK_ALREADY_COMPLETED''), s)"
    by (simp add: run_op_def)
  show ?thesis
    using mem.complete_refines [OF ok(1) _ l(3) _ l(1), of mem_queue now v] ok(1) assms(3,4,6)
    by (auto simp: run spec_complete_def)
qed

theorem completed_task_item_cannot_complete_witness:
  "let s = serve_all mem_queue mem_workflow [(200, ''c'', Enqueue (Str ''p1'')), (210, ''c'', Claim 50 (Str ''w2''))] demo_store
   in fst (complete mem_queue 220 (Str ''c'') (Str ''w2'') s) = Inl (Error ''TASK_ALREADY_COMPLETED'')"
proof -
  define s where "s = serve_all mem_queue mem_workflow [(200, ''c'', Enqueue (Str ''p1'')), (210, ''c'', Claim 50 (Str ''w2''))] demo_store"
  have eq: "s = mem_put ''queue'' ''c'' (demo_item ''c'' 1 (Processing (Str ''w2'') 260))
      (mem_put ''queue'' ''c'' (demo_item ''c'' 0 Queued) demo_store)"
    unfolding s_def by code_simp
  have ok: "mem_ok s"
    unfolding s_def by (rule mem_ok_serve_all [OF demo_ok]) (simp add: proper_def)
  have look: "mem_look s ''task'' ''c'' = Some (demo_task ''c'' Completed)"
    "mem_view s ''c'' = Some \<lparr>q_process = Str ''p1'', q_attempts = 1, q_lease = Processing (Str ''w2'') 260\<rparr>"
    by (simp_all add: eq queue_view_def mem_look_def mem_put_def demo_store_def colon_def demo_item_def)
  have "complete mem_queue 220 (Str ''c'') (Str ''w2'') s = (Inl (Error ''TASK_ALREADY_COMPLETED''), s)"
    by (rule completed_task_item_cannot_complete [OF ok look(2), where w = "Str ''w2''" and t = 260, OF _ _ _ _ look(1)])
      (simp_all add: look foreign_def strict_eq_def demo_task_def status_of_def)
  then show ?thesis unfolding Let_def s_def [symmetric] by simp
qed

end
