(* ===== verification/ClaimRace.thy ===== *)
theory ClaimRace
  imports QueueProperties
begin

text \<open>
  Concurrent claims of one queue item. \<open>QueueWorkerEngine.claim\<close> awaits \<^verbatim>\<open>repository.find\<close> and
  then \<^verbatim>\<open>repository.save\<close>; other callers run in between. Here each worker's claim is a small
  state machine with one step per atomic section of the method: the read, and the decision
  on the record read together with the save (the body between the two awaits runs without a break).
  Any interleaving of any workers is a path of the step relation.
\<close>

section \<open>The step relation\<close>

datatype claim_pc = Waiting | Read jsval | Settled "js_error + jsval"

record 's race =
  race_store :: 's
  race_pc :: "string \<Rightarrow> claim_pc"

text \<open>
  \<^verbatim>\<open>leaseMs\<close> is the engine's; the clock is read when the worker resumes after its read, so every
  step may see its own.
\<close>

inductive claim_step :: "'s repository \<Rightarrow> int \<Rightarrow> string \<Rightarrow> 's race \<Rightarrow> 's race \<Rightarrow> bool"
  for R :: "'s repository" and leaseMs :: int and i :: string where
  Find: "\<lbrakk>race_pc c w = Waiting; w \<noteq> []; rfind R ''queue'' (Str i) (race_store c) = (Inr v, s')\<rbrakk> \<Longrightarrow>
    claim_step R leaseMs i c (c\<lparr>race_store := s', race_pc := (race_pc c)(w := Read v)\<rparr>)"
| Reject: "\<lbrakk>race_pc c w = Read v; claim_decide leaseMs now (Str w) v = Inl e\<rbrakk> \<Longrightarrow>
    claim_step R leaseMs i c (c\<lparr>race_pc := (race_pc c)(w := Settled (Inl e))\<rparr>)"
| Save: "\<lbrakk>race_pc c w = Read v; claim_decide leaseMs now (Str w) v = Inr item;
     rsave R ''queue'' (Str i) item (race_store c) = (r, s')\<rbrakk> \<Longrightarrow>
    claim_step R leaseMs i c (c\<lparr>race_store := s', race_pc := (race_pc c)(w := Settled r)\<rparr>)"

inductive_cases claim_stepE: "claim_step R leaseMs i c c'"

definition race_start :: "'s \<Rightarrow> 's race" where
  "race_start s = \<lparr>race_store = s, race_pc = (\<lambda>_. Waiting)\<rparr>"

text \<open>A claim that runs alone is the engine's \<open>claim\<close>.\<close>

lemma claim_alone:
  assumes "w \<noteq> []" "rfind R ''queue'' (Str i) s = (Inr v, s)" "qe_repository qe = R"
  obtains c r where "(claim_step R leaseMs i)\<^sup>*\<^sup>* (race_start s) c"
    "race_pc c w = Settled r" "claim qe leaseMs now (Str i) (Str w) s = (r, race_store c)"
proof -
  let ?c1 = "race_start s\<lparr>race_store := s, race_pc := (race_pc (race_start s))(w := Read v)\<rparr>"
  have 1: "claim_step R leaseMs i (race_start s) ?c1"
    by (rule claim_step.Find) (use assms in \<open>auto simp: race_start_def\<close>)
  show thesis
  proof (cases "claim_decide leaseMs now (Str w) v")
    case (Inl e)
    let ?c2 = "?c1\<lparr>race_pc := (race_pc ?c1)(w := Settled (Inl e))\<rparr>"
    have "claim_step R leaseMs i ?c1 ?c2" by (rule claim_step.Reject) (use Inl in auto)
    with 1 have "(claim_step R leaseMs i)\<^sup>*\<^sup>* (race_start s) ?c2" 
      by (rule converse_rtranclp_into_rtranclp [OF _ r_into_rtranclp])
    then show thesis by (rule that [where r = "Inl e"]) (use assms Inl in \<open>simp_all add: claim_def bnd_def\<close>)
  next
    case (Inr item)
    obtain r s' where r: "rsave R ''queue'' (Str i) item s = (r, s')" by fastforce
    let ?c2 = "?c1\<lparr>race_store := s', race_pc := (race_pc ?c1)(w := Settled r)\<rparr>"
    have "claim_step R leaseMs i ?c1 ?c2" by (rule claim_step.Save) (use Inr r in auto)
    with 1 have "(claim_step R leaseMs i)\<^sup>*\<^sup>* (race_start s) ?c2" 
      by (rule converse_rtranclp_into_rtranclp [OF _ r_into_rtranclp])
    then show thesis by (rule that [where r = r]) (use assms Inr r in \<open>simp_all add: claim_def bnd_def\<close>)
  qed
qed

section \<open>What holds in every interleaving\<close>

text \<open>
  The record always represents an item; a claim has read an item that was claimable then or is
  about to fail; a record that differs from the initial one is leased to a worker whose claim has
  resolved.
\<close>

definition race_inv :: "string \<Rightarrow> qitem \<Rightarrow> 'z mem_repo_scheme race \<Rightarrow> bool" where
  "race_inv i q c \<longleftrightarrow> mem_inv (race_store c)
     \<and> (\<exists>q'. mem_look (race_store c) ''queue'' i = Some (encode i q')
         \<and> (q' = q \<or> (\<exists>w t. w \<noteq> [] \<and> q_lease q' = Processing (Str w) t \<and> race_pc c w = Settled (Inr (encode i q')))))
     \<and> (\<forall>w v. race_pc c w = Read v \<longrightarrow> w \<noteq> [] \<and> (\<exists>q'. v = encode i q'))"

lemma race_inv_start:
  "mem_ok s \<Longrightarrow> mem_view s i = Some q \<Longrightarrow> race_inv i q (race_start s)"
  by (auto simp: race_inv_def race_start_def dest: mem_look_view)

lemma race_inv_step:
  assumes "race_inv i q c" "claim_step mem_repository leaseMs i c c'" "i \<noteq> []"
  shows "race_inv i q c'"
proof -
  obtain q' where inv: "mem_inv (race_store c)" and q': "mem_look (race_store c) ''queue'' i = Some (encode i q')"
    and own: "q' = q \<or> (\<exists>w t. w \<noteq> [] \<and> q_lease q' = Processing (Str w) t \<and> race_pc c w = Settled (Inr (encode i q')))"
    and rd: "\<And>w v. race_pc c w = Read v \<Longrightarrow> w \<noteq> [] \<and> (\<exists>q'. v = encode i q')"
    using assms(1) unfolding race_inv_def by blast
  from assms(2) show ?thesis
  proof (cases rule: claim_step.cases)
    case (Find w v s')
    then have v: "v = encode i q'" "s' = race_store c"
      using mem.find_law [OF inv _ assms(3), of "''queue''"] q' by simp_all
    have "q' = q \<or> (\<exists>w' t. w' \<noteq> [] \<and> q_lease q' = Processing (Str w') t
        \<and> ((race_pc c)(w := Read v)) w' = Settled (Inr (encode i q')))"
      using own Find(2) by (metis claim_pc.distinct(3) fun_upd_other)
    with Find(1,3) v inv q' rd show ?thesis unfolding race_inv_def by simp
  next
    case (Reject w v now e)
    have "q' = q \<or> (\<exists>w' t. w' \<noteq> [] \<and> q_lease q' = Processing (Str w') t
        \<and> ((race_pc c)(w := Settled (Inl e))) w' = Settled (Inr (encode i q')))"
      using own Reject(2) by (metis claim_pc.distinct(5) fun_upd_other)
    with Reject(1) inv q' rd show ?thesis unfolding race_inv_def by simp
  next
    case (Save w v now item r s')
    obtain q1 where q1: "v = encode i q1" "w \<noteq> []" using rd [OF Save(2)] by blast
    then obtain q2 where q2: "item = encode i q2" "q_lease q2 = Processing (Str w) (now + leaseMs)"
      using Save(3) by (auto simp: claim_decide_encode spec_claim_def split: if_splits)
    have r: "r = Inr (encode i q2)" "s' = mem_put ''queue'' i (encode i q2) (race_store c)"
      using mem.save_law [OF inv _ assms(3), of "''queue''" item] Save(4) q2(1) by simp_all
    have "mem_inv s'" "mem_look s' ''queue'' i = Some (encode i q2)"
      using inv assms(3) by (simp_all add: r mem.inv_put mem.look_put)
    with Save(1) q1(2) q2 r rd show ?thesis by (fastforce simp: race_inv_def)
  qed
qed

lemma race_inv_reachable:
  assumes "(claim_step mem_repository leaseMs i)\<^sup>*\<^sup>* (race_start s) c" "mem_ok s" "mem_view s i = Some q"
  shows "race_inv i q c"
  using assms(1)
proof (induction rule: rtranclp_induct)
  case base
  show ?case by (rule race_inv_start [OF assms(2,3)])
next
  case (step c c')
  then show ?case using mem_look_view [OF assms(2,3)] by (blast intro: race_inv_step)
qed

section \<open>Properties\<close>

text \<open>Safety. In every interleaving of concurrent claims of one item, the stored record is
  either the initial one or a lease naming a worker whose own claim resolved with exactly that
  record: no interleaving leaves a lease that nobody was granted, or a mixture of two claims.\<close>

theorem racing_claims_leave_a_granted_lease:
  fixes s :: "'z mem_repo_scheme"
  assumes "mem_ok s" "mem_view s i = Some q" "(claim_step mem_repository leaseMs i)\<^sup>*\<^sup>* (race_start s) c"
  shows "\<exists>q'. mem_view (race_store c) i = Some q'
    \<and> (q' = q \<or> (\<exists>w t. w \<noteq> [] \<and> q_lease q' = Processing (Str w) t \<and> race_pc c w = Settled (Inr (encode i q'))))"
  using race_inv_reachable [OF assms(3,1,2)] unfolding race_inv_def queue_view_def by auto

theorem racing_claims_leave_a_granted_lease_witness:
  "\<exists>q'. mem_view (race_store (race_start demo_store)) ''b'' = Some q'
    \<and> (q' = \<lparr>q_process = Str ''p1'', q_attempts = 0, q_lease = Queued\<rparr>
       \<or> (\<exists>w t. w \<noteq> [] \<and> q_lease q' = Processing (Str w) t \<and> race_pc (race_start demo_store) w = Settled (Inr (encode ''b'' q'))))"
  using racing_claims_leave_a_granted_lease [OF demo_ok, of "''b''" _ 30000 "race_start demo_store"]
  by (simp add: demo_view)

text \<open>Safety limit. Claims are not mutually exclusive across the await: for any two workers and
  any queued item there is an interleaving in which both claims resolve. One attempt is then lost
  from the counter, and only the second worker owns the lease: the first one's completion is
  rejected.\<close>

theorem both_racing_claims_can_resolve:
  fixes s :: "'z mem_repo_scheme"
  assumes "mem_ok s" "mem_view s i = Some q" "q_lease q = Queued" "w1 \<noteq> []" "w2 \<noteq> []" "w1 \<noteq> w2"
  shows "\<exists>c. (claim_step mem_repository leaseMs i)\<^sup>*\<^sup>* (race_start s) c
    \<and> (\<exists>v1 v2. race_pc c w1 = Settled (Inr v1) \<and> race_pc c w2 = Settled (Inr v2))
    \<and> (\<exists>t. mem_view (race_store c) i = Some (q\<lparr>q_attempts := q_attempts q + 1, q_lease := Processing (Str w2) t\<rparr>))
    \<and> fst (complete mem_queue now (Str i) (Str w1) (race_store c)) = Inl (Error ''LEASE_NOT_OWNED'')"
proof -
  define q1 where "q1 w = q\<lparr>q_attempts := q_attempts q + 1, q_lease := Processing (Str w) leaseMs\<rparr>" for w
  have l: "mem_look s ''queue'' i = Some (encode i q)" "mem_inv s" "i \<noteq> []"
    using mem_look_view [OF assms(1,2)] by auto
  have decide: "w \<noteq> [] \<Longrightarrow> claim_decide leaseMs 0 (Str w) (encode i q) = Inr (encode i (q1 w))" for w
    using assms(3) by (simp add: claim_decide_encode spec_claim_def q1_def)
  define s1 where "s1 = mem_put ''queue'' i (encode i (q1 w1)) s"
  define s2 where "s2 = mem_put ''queue'' i (encode i (q1 w2)) s1"
  define c1 where "c1 = \<lparr>race_store = s, race_pc = (\<lambda>_. Waiting)(w1 := Read (encode i q))\<rparr>"
  define c2 where "c2 = \<lparr>race_store = s, race_pc = (race_pc c1)(w2 := Read (encode i q))\<rparr>"
  define c3 where "c3 = \<lparr>race_store = s1, race_pc = (race_pc c2)(w1 := Settled (Inr (encode i (q1 w1))))\<rparr>"
  define c4 where "c4 = \<lparr>race_store = s2, race_pc = (race_pc c3)(w2 := Settled (Inr (encode i (q1 w2))))\<rparr>"
  have inv1: "mem_inv s1" using l by (simp add: s1_def mem.inv_put)
  have find: "rfind mem_repository ''queue'' (Str i) s = (Inr (encode i q), s)"
    using mem.find_law [OF l(2) _ l(3)] l(1) by simp
  have 1: "claim_step mem_repository leaseMs i (race_start s) c1"
    using claim_step.Find [of "race_start s" w1 mem_repository i] assms(4) find
    by (simp add: race_start_def c1_def)
  have 2: "claim_step mem_repository leaseMs i c1 c2"
    using claim_step.Find [of c1 w2 mem_repository i] assms(5,6) find by (simp add: c1_def c2_def)
  have 3: "claim_step mem_repository leaseMs i c2 c3"
    using claim_step.Save [of c2 w1 _ leaseMs 0 _ mem_repository i, OF _ decide] assms(4,6)
      mem.save_law [OF l(2) _ l(3), of "''queue''"] by (simp add: c1_def c2_def c3_def s1_def)
  have 4: "claim_step mem_repository leaseMs i c3 c4"
    using claim_step.Save [of c3 w2 _ leaseMs 0 _ mem_repository i, OF _ decide] assms(5,6)
      mem.save_law [OF inv1 _ l(3), of "''queue''"] by (simp add: c1_def c2_def c3_def c4_def s2_def)
  from 1 2 3 4 have "(claim_step mem_repository leaseMs i)\<^sup>*\<^sup>* (race_start s) c4"
    by (blast intro: converse_rtranclp_into_rtranclp rtranclp.rtrancl_refl)
  moreover have "race_pc c4 w1 = Settled (Inr (encode i (q1 w1)))" "race_pc c4 w2 = Settled (Inr (encode i (q1 w2)))"
    "race_store c4 = s2"
    using assms(6) by (simp_all add: c3_def c4_def)
  moreover have s2: "mem_inv s2" "mem_look s2 ''queue'' i = Some (encode i (q1 w2))"
    using inv1 l(3) by (simp_all add: s2_def mem.inv_put mem.look_put)
  moreover have "fst (complete mem_queue now (Str i) (Str w1) s2) = Inl (Error ''LEASE_NOT_OWNED'')"
    using mem.find_law [OF s2(1) _ l(3), of "''queue''"] s2(2) assms(4,6)
    by (simp add: complete_def bnd_def q1_def strict_eq_def)
  ultimately show ?thesis by (intro exI [of _ c4]) (auto simp: queue_view_def q1_def)
qed

theorem both_racing_claims_can_resolve_witness:
  "\<exists>c. (claim_step mem_repository 30000 ''b'')\<^sup>*\<^sup>* (race_start demo_store) c
    \<and> (\<exists>v1 v2. race_pc c ''w1'' = Settled (Inr v1) \<and> race_pc c ''w2'' = Settled (Inr v2))"
  using both_racing_claims_can_resolve [OF demo_ok, of "''b''" _ "''w1''" "''w2''" 30000 0]
  by (auto simp: demo_view)

end
