(* ===== verification/FailurePolicy.thy ===== *)
theory FailurePolicy
  imports Domain
begin

text \<open>
  \<open>FailurePolicy\<close> (\<^verbatim>\<open>modules/queue/failure_policy.js\<close>): which failures are retried, and after
  what delay. The three settings are integers; \<^verbatim>\<open>2 ** n\<close> is exact here, and the cap is what keeps
  the delay in the range where it is exact in the code too.
\<close>

section \<open>The policy\<close>

record failure_policy =
  maxAttempts :: int
  baseDelayMs :: int
  maxDelayMs :: int

definition default_failure_policy :: failure_policy where
  "default_failure_policy = \<lparr>maxAttempts = 3, baseDelayMs = 1000, maxDelayMs = 60000\<rparr>"

definition classify :: "js_error \<Rightarrow> string" where
  "classify error =
     (if error_field error ''retryable'' = Boolean False \<or> error_field error ''code'' = Str ''VALIDATION_ERROR''
         \<or> error_field error ''code'' = Str ''AUTHORIZATION_ERROR''
      then ''permanent'' else ''transient'')"

record decision =
  d_action :: string
  d_classification :: string
  d_delayMs :: int

definition policy_next :: "failure_policy \<Rightarrow> int \<Rightarrow> js_error \<Rightarrow> decision" where
  "policy_next fp attempt error =
     (let classification = classify error in
      if classification = ''permanent'' \<or> attempt \<ge> maxAttempts fp
      then \<lparr>d_action = ''dead-letter'', d_classification = classification, d_delayMs = 0\<rparr>
      else \<lparr>d_action = ''retry'', d_classification = classification,
            d_delayMs = min (baseDelayMs fp * 2 ^ nat (max 0 (attempt - 1))) (maxDelayMs fp)\<rparr>)"

lemma policy_next_action:
  "d_action (policy_next fp attempt error) = ''retry'' \<longleftrightarrow> classify error = ''transient'' \<and> attempt < maxAttempts fp"
  by (auto simp: policy_next_def classify_def Let_def)

section \<open>Properties\<close>

text \<open>Bounds. A failure is retried exactly when it is not marked permanent and the attempts
  are not used up; a retry delay never exceeds the cap, is not negative, and never shrinks from
  one attempt to the next; below the cap it doubles.\<close>

theorem backoff_schedule:
  fixes attempt attempt' :: int
  assumes "0 \<le> baseDelayMs fp" "0 \<le> maxDelayMs fp" "attempt \<le> attempt'" "attempt' < maxAttempts fp"
    "classify error = ''transient''"
  shows "d_action (policy_next fp attempt error) = ''retry''
    \<and> 0 \<le> d_delayMs (policy_next fp attempt error)
    \<and> d_delayMs (policy_next fp attempt error) \<le> d_delayMs (policy_next fp attempt' error)
    \<and> d_delayMs (policy_next fp attempt' error) \<le> maxDelayMs fp
    \<and> (1 \<le> attempt \<longrightarrow> attempt + 1 < maxAttempts fp \<longrightarrow> d_delayMs (policy_next fp (attempt + 1) error) < maxDelayMs fp \<longrightarrow>
         d_delayMs (policy_next fp (attempt + 1) error) = 2 * d_delayMs (policy_next fp attempt error))"
proof -
  have delay: "d_delayMs (policy_next fp a error) = min (baseDelayMs fp * 2 ^ nat (max 0 (a - 1))) (maxDelayMs fp)"
    if "a < maxAttempts fp" for a
    using that assms(5) by (simp add: policy_next_def)
  have "(2::int) ^ nat (max 0 (attempt - 1)) \<le> 2 ^ nat (max 0 (attempt' - 1))"
    using assms(3) by (intro power_increasing) auto
  then have "baseDelayMs fp * 2 ^ nat (max 0 (attempt - 1)) \<le> baseDelayMs fp * 2 ^ nat (max 0 (attempt' - 1))"
    using assms(1) by (rule mult_left_mono)
  moreover have "nat (max 0 (attempt + 1 - 1)) = Suc (nat (max 0 (attempt - 1)))" if "1 \<le> attempt"
    using that by (simp add: nat_diff_distrib' Suc_nat_eq_nat_zadd1)
  ultimately show ?thesis
    using assms(1-4) by (auto simp: policy_next_action assms(5) delay min_def)
qed

theorem backoff_schedule_witness:
  "d_delayMs (policy_next default_failure_policy 1 (Error ''boom'')) = 1000
   \<and> d_delayMs (policy_next default_failure_policy 2 (Error ''boom'')) = 2000"
  using backoff_schedule [of default_failure_policy 1 1 "Error ''boom''"]
  by (simp add: default_failure_policy_def policy_next_def classify_def)

end
