(* ===== verification/WorkerRuntime.thy ===== *)
theory WorkerRuntime
  imports QueueProperties
begin

text \<open>
  \<open>DistributedWorkerRuntime\<close> (\<^verbatim>\<open>modules/queue/worker_runtime.js\<close>): claim, heartbeat, handle and
  complete tasks with bounded concurrency. The methods come first, \<open>process\<close> as it runs without
  interruption; then the same method as a step relation with one step per await, for any number
  of tasks in flight.
\<close>

section \<open>State and configuration\<close>

text \<open>
  The queue and the handler are the constructor's arguments: actions on the environment
  state. A method the code tests with \<^verbatim>\<open>typeof\<close> is optional. Timers are numbered: an interval lives from
  \<^verbatim>\<open>setInterval\<close> to \<^verbatim>\<open>clearInterval\<close>.
\<close>

record 's worker_config =
  wc_claim :: "jsval \<Rightarrow> jsval \<Rightarrow> int \<Rightarrow> ('s, jsval) act"
  wc_complete :: "jsval \<Rightarrow> jsval \<Rightarrow> ('s, jsval) act"
  wc_retry :: "(jsval \<Rightarrow> jsval \<Rightarrow> ('s, jsval) act) option"
  wc_heartbeat :: "(jsval \<Rightarrow> jsval \<Rightarrow> int \<Rightarrow> ('s, jsval) act) option"
  wc_has_next :: bool
  wc_handler :: "jsval \<Rightarrow> jsval \<Rightarrow> ('s, jsval) act"
  wc_workerId :: jsval
  wc_concurrency :: int
  wc_leaseMs :: int

record 's runtime =
  rt_env :: 's
  rt_running :: bool
  rt_active :: int
  rt_timer :: bool
  rt_heartbeats :: "(jsval \<times> nat) list"
  rt_intervals :: "(nat \<times> jsval) list"
  rt_fresh :: nat

definition new_DistributedWorkerRuntime ::
  "'s worker_config \<Rightarrow> bool \<Rightarrow> bool \<Rightarrow> jsval \<Rightarrow> 's \<Rightarrow> js_error + ('s worker_config \<times> 's runtime)" where
  "new_DistributedWorkerRuntime cfg queueHasClaim handlerIsFunction concurrency env =
     (if \<not> queueHasClaim then Inl (TypeError ''DistributedWorkerRuntime requires queue'')
      else if \<not> handlerIsFunction then Inl (TypeError ''DistributedWorkerRuntime requires handler'')
      else if \<not> truthy (wc_workerId cfg) then Inl (TypeError ''DistributedWorkerRuntime requires workerId'')
      else case default_to concurrency (Num 1) of
        Num n \<Rightarrow>
          if n < 1 then Inl (TypeError ''concurrency must be a positive integer'')
          else Inr (cfg\<lparr>wc_concurrency := n\<rparr>,
            \<lparr>rt_env = env, rt_running = False, rt_active = 0, rt_timer = False,
             rt_heartbeats = [], rt_intervals = [], rt_fresh = 0\<rparr>)
      | _ \<Rightarrow> Inl (TypeError ''concurrency must be a positive integer''))"

text \<open>An operation of the environment, run on the environment part of the state.\<close>

definition on_env :: "('s, 'a) act \<Rightarrow> ('s runtime, 'a) act" where
  "on_env m = (\<lambda>s. case m (rt_env s) of (r, e) \<Rightarrow> (r, s\<lparr>rt_env := e\<rparr>))"

section \<open>The methods\<close>

definition startHeartbeat :: "'s worker_config \<Rightarrow> jsval \<Rightarrow> 's runtime \<Rightarrow> 's runtime" where
  "startHeartbeat cfg taskId s =
     (case wc_heartbeat cfg of
        None \<Rightarrow> s
      | Some _ \<Rightarrow> s\<lparr>rt_intervals := rt_intervals s @ [(rt_fresh s, taskId)],
                   rt_heartbeats := AList.update taskId (rt_fresh s) (rt_heartbeats s),
                   rt_fresh := Suc (rt_fresh s)\<rparr>)"

definition stopHeartbeat :: "jsval \<Rightarrow> 's runtime \<Rightarrow> 's runtime" where
  "stopHeartbeat taskId s =
     (let live = (case map_of (rt_heartbeats s) taskId of
          None \<Rightarrow> rt_intervals s | Some timer \<Rightarrow> filter (\<lambda>(n, _). n \<noteq> timer) (rt_intervals s))
      in s\<lparr>rt_intervals := live, rt_heartbeats := AList.delete taskId (rt_heartbeats s)\<rparr>)"

text \<open>The interval's callback for a task: renew the lease, ignore a rejection.\<close>

definition heartbeat_tick :: "'s worker_config \<Rightarrow> jsval \<Rightarrow> 's runtime \<Rightarrow> 's runtime" where
  "heartbeat_tick cfg taskId s =
     (case wc_heartbeat cfg of
        None \<Rightarrow> s
      | Some renew \<Rightarrow> snd (on_env (renew taskId (wc_workerId cfg) (wc_leaseMs cfg)) s))"

definition release :: "'s worker_config \<Rightarrow> jsval \<Rightarrow> ('s runtime, unit) act" where
  "release cfg taskId =
     (case wc_retry cfg of
        None \<Rightarrow> ret ()
      | Some again \<Rightarrow> try_catch (bnd (on_env (again taskId (wc_workerId cfg))) (\<lambda>_. ret ())) (\<lambda>_. ret ()))"

definition leave :: "jsval \<Rightarrow> 's runtime \<Rightarrow> 's runtime" where
  "leave taskId s = (stopHeartbeat taskId s)\<lparr>rt_active := rt_active s - 1\<rparr>"

definition run_process :: "'s worker_config \<Rightarrow> jsval \<Rightarrow> ('s runtime, bool) act" where
  "run_process cfg taskId = (\<lambda>s0.
     if rt_active s0 \<ge> wc_concurrency cfg then (Inr False, s0)
     else try_finally
       (try_catch
         (bnd (on_env (wc_claim cfg taskId (wc_workerId cfg) (wc_leaseMs cfg))) (\<lambda>item.
          bnd (\<lambda>s. (Inr (), startHeartbeat cfg taskId s)) (\<lambda>_.
          bnd (on_env (wc_handler cfg item (wc_workerId cfg))) (\<lambda>_.
          bnd (on_env (wc_complete cfg taskId (wc_workerId cfg))) (\<lambda>_.
          ret True)))))
         (\<lambda>error. bnd (release cfg taskId) (\<lambda>_. throw error)))
       (leave taskId)
       (s0\<lparr>rt_active := rt_active s0 + 1\<rparr>))"

definition start_worker :: "'s runtime \<Rightarrow> 's runtime" where
  "start_worker s = (if rt_running s then s else s\<lparr>rt_running := True, rt_timer := True\<rparr>)"

definition stop_worker :: "'s runtime \<Rightarrow> 's runtime" where
  "stop_worker s = fold stopHeartbeat (map fst (rt_heartbeats s)) (s\<lparr>rt_running := False, rt_timer := False\<rparr>)"

section \<open>One call without interruption\<close>

lemma on_env_frame [simp]:
  "rt_active (snd (on_env m s)) = rt_active s" "rt_heartbeats (snd (on_env m s)) = rt_heartbeats s"
  "rt_intervals (snd (on_env m s)) = rt_intervals s" "rt_running (snd (on_env m s)) = rt_running s"
  "rt_timer (snd (on_env m s)) = rt_timer s" "rt_fresh (snd (on_env m s)) = rt_fresh s"
  by (simp_all add: on_env_def split: prod.splits)

lemma heartbeat_frame [simp]:
  "rt_active (startHeartbeat cfg t s) = rt_active s" "rt_active (stopHeartbeat t s) = rt_active s"
  "rt_env (startHeartbeat cfg t s) = rt_env s" "rt_env (stopHeartbeat t s) = rt_env s"
  by (simp_all add: startHeartbeat_def stopHeartbeat_def Let_def split: option.splits)

lemma release_frame [simp]:
  "rt_active (snd (release cfg t s)) = rt_active s" "fst (release cfg t s) = Inr ()"
  by (simp_all add: release_def act_simps on_env_def split: option.splits prod.splits sum.splits)

lemma release_resolves [simp]: "release cfg t s \<noteq> (Inl e, s')"
  using release_frame(2) [of cfg t s] by (auto simp del: release_frame)

text \<open>Timers: intervals are distinct, younger ids are unused, and every recorded timer is live.\<close>

definition timers_ok :: "'s runtime \<Rightarrow> bool" where
  "timers_ok s \<longleftrightarrow> (\<forall>(n, t) \<in> set (rt_intervals s). n < rt_fresh s) \<and> distinct (map fst (rt_intervals s))"

text \<open>The run of \<open>run_process\<close>, call by call.\<close>

lemma run_process_steps:
  assumes "rt_active s < wc_concurrency cfg"
  defines "s0 \<equiv> s\<lparr>rt_active := rt_active s + 1\<rparr>"
  shows "run_process cfg t s =
    (case on_env (wc_claim cfg t (wc_workerId cfg) (wc_leaseMs cfg)) s0 of
       (Inl e, s1) \<Rightarrow> (Inl e, leave t (snd (release cfg t s1)))
     | (Inr item, s1) \<Rightarrow>
         (case on_env (wc_handler cfg item (wc_workerId cfg)) (startHeartbeat cfg t s1) of
            (Inl e, s2) \<Rightarrow> (Inl e, leave t (snd (release cfg t s2)))
          | (Inr _, s2) \<Rightarrow>
              (case on_env (wc_complete cfg t (wc_workerId cfg)) s2 of
                 (Inl e, s3) \<Rightarrow> (Inl e, leave t (snd (release cfg t s3)))
               | (Inr _, s3) \<Rightarrow> (Inr True, leave t s3))))"
  using assms(1) unfolding s0_def run_process_def
  by (auto simp: try_finally_def try_catch_def bnd_run' split: prod.split sum.split)

lemma on_env_env: "on_env m s = (fst (m (rt_env s)), s\<lparr>rt_env := snd (m (rt_env s))\<rparr>)"
  by (simp add: on_env_def split: prod.split)

lemma release_env:
  "snd (release cfg t s) =
     (case wc_retry cfg of None \<Rightarrow> s | Some f \<Rightarrow> s\<lparr>rt_env := snd (f t (wc_workerId cfg) (rt_env s))\<rparr>)"
  by (auto simp: release_def act_simps on_env_env split: option.splits prod.splits sum.splits)

text \<open>Starting and stopping the heartbeat of a task without one leaves no trace.\<close>

lemma heartbeat_balanced:
  assumes "timers_ok s" "map_of (rt_heartbeats s) t = None"
  shows "rt_intervals (stopHeartbeat t (startHeartbeat cfg t s)) = rt_intervals s"
    "rt_heartbeats (stopHeartbeat t (startHeartbeat cfg t s)) = rt_heartbeats s"
    "rt_intervals (stopHeartbeat t s) = rt_intervals s" "rt_heartbeats (stopHeartbeat t s) = rt_heartbeats s"
proof -
  have "t \<notin> fst ` set (rt_heartbeats s)" using assms(2) by (simp add: map_of_eq_None_iff)
  then have del: "AList.delete t (rt_heartbeats s) = rt_heartbeats s" by (rule AList.delete_id)
  moreover have "filter (\<lambda>(n, _). n \<noteq> rt_fresh s) (rt_intervals s) = rt_intervals s"
    using assms(1) by (auto simp: timers_ok_def filter_id_conv)
  ultimately show "rt_intervals (stopHeartbeat t (startHeartbeat cfg t s)) = rt_intervals s"
    "rt_heartbeats (stopHeartbeat t (startHeartbeat cfg t s)) = rt_heartbeats s"
    "rt_intervals (stopHeartbeat t s) = rt_intervals s" "rt_heartbeats (stopHeartbeat t s) = rt_heartbeats s"
    using assms(2) AList.delete_update_same [of t "rt_fresh s" "rt_heartbeats s"]
    by (auto simp: startHeartbeat_def stopHeartbeat_def split: option.splits)
qed

lemma stopHeartbeat_env: "stopHeartbeat t (s\<lparr>rt_env := e\<rparr>) = (stopHeartbeat t s)\<lparr>rt_env := e\<rparr>"
  by (simp add: stopHeartbeat_def Let_def split: option.split)

lemma startHeartbeat_env: "startHeartbeat cfg t (s\<lparr>rt_env := e\<rparr>) = (startHeartbeat cfg t s)\<lparr>rt_env := e\<rparr>"
  by (simp add: startHeartbeat_def split: option.split)

text \<open>
  Every way through \<open>run_process\<close> ends in \<open>leave\<close>, after the heartbeat was started or not, in some
  environment.
\<close>

lemma run_process_leaves:
  assumes "rt_active s < wc_concurrency cfg"
  obtains e where "snd (run_process cfg t s) = leave t (s\<lparr>rt_active := rt_active s + 1, rt_env := e\<rparr>)"
  | e where "snd (run_process cfg t s) = leave t (startHeartbeat cfg t (s\<lparr>rt_active := rt_active s + 1, rt_env := e\<rparr>))"
proof -
  have "(\<exists>e. snd (run_process cfg t s) = leave t (s\<lparr>rt_active := rt_active s + 1, rt_env := e\<rparr>))
    \<or> (\<exists>e. snd (run_process cfg t s) = leave t (startHeartbeat cfg t (s\<lparr>rt_active := rt_active s + 1, rt_env := e\<rparr>)))"
    unfolding run_process_steps [OF assms] on_env_env release_env
    by (auto simp: startHeartbeat_env split: sum.split option.split)
  then show thesis using that by blast
qed

section \<open>Many tasks in flight\<close>

text \<open>
  \<open>start\<close> launches \<open>process\<close> without awaiting it, so several calls are in flight at once. A job is
  a call of \<open>process\<close> that passed the capacity test, at the await it is suspended in; a step
  finishes one await and runs up to the next. The polling loop, other callers, the interval
  callbacks and \<open>start\<close>/\<open>stop\<close> may come at any point.
\<close>

datatype phase = Claiming | Handling jsval | Completing | Releasing js_error

record 's pool =
  pl_rt :: "'s runtime"
  pl_jobs :: "(jsval \<times> phase) list"

inductive pool_step :: "'s worker_config \<Rightarrow> 's pool \<Rightarrow> 's pool \<Rightarrow> bool" for cfg :: "'s worker_config" where
  Launch: "\<not> rt_active s \<ge> wc_concurrency cfg \<Longrightarrow>
    pool_step cfg \<lparr>pl_rt = s, pl_jobs = js\<rparr> \<lparr>pl_rt = s\<lparr>rt_active := rt_active s + 1\<rparr>, pl_jobs = js @ [(t, Claiming)]\<rparr>"
| Claimed: "on_env (wc_claim cfg t (wc_workerId cfg) (wc_leaseMs cfg)) s = (Inr item, s') \<Longrightarrow>
    pool_step cfg \<lparr>pl_rt = s, pl_jobs = xs @ (t, Claiming) # ys\<rparr>
      \<lparr>pl_rt = startHeartbeat cfg t s', pl_jobs = xs @ (t, Handling item) # ys\<rparr>"
| Claim_failed: "on_env (wc_claim cfg t (wc_workerId cfg) (wc_leaseMs cfg)) s = (Inl e, s') \<Longrightarrow>
    pool_step cfg \<lparr>pl_rt = s, pl_jobs = xs @ (t, Claiming) # ys\<rparr> \<lparr>pl_rt = s', pl_jobs = xs @ (t, Releasing e) # ys\<rparr>"
| Handled: "on_env (wc_handler cfg item (wc_workerId cfg)) s = (Inr v, s') \<Longrightarrow>
    pool_step cfg \<lparr>pl_rt = s, pl_jobs = xs @ (t, Handling item) # ys\<rparr> \<lparr>pl_rt = s', pl_jobs = xs @ (t, Completing) # ys\<rparr>"
| Handler_failed: "on_env (wc_handler cfg item (wc_workerId cfg)) s = (Inl e, s') \<Longrightarrow>
    pool_step cfg \<lparr>pl_rt = s, pl_jobs = xs @ (t, Handling item) # ys\<rparr> \<lparr>pl_rt = s', pl_jobs = xs @ (t, Releasing e) # ys\<rparr>"
| Finished: "on_env (wc_complete cfg t (wc_workerId cfg)) s = (Inr v, s') \<Longrightarrow>
    pool_step cfg \<lparr>pl_rt = s, pl_jobs = xs @ (t, Completing) # ys\<rparr> \<lparr>pl_rt = leave t s', pl_jobs = xs @ ys\<rparr>"
| Complete_failed: "on_env (wc_complete cfg t (wc_workerId cfg)) s = (Inl e, s') \<Longrightarrow>
    pool_step cfg \<lparr>pl_rt = s, pl_jobs = xs @ (t, Completing) # ys\<rparr> \<lparr>pl_rt = s', pl_jobs = xs @ (t, Releasing e) # ys\<rparr>"
| Released: "pool_step cfg \<lparr>pl_rt = s, pl_jobs = xs @ (t, Releasing e) # ys\<rparr>
      \<lparr>pl_rt = leave t (snd (release cfg t s)), pl_jobs = xs @ ys\<rparr>"
| Tick: "(n, t) \<in> set (rt_intervals s) \<Longrightarrow>
    pool_step cfg \<lparr>pl_rt = s, pl_jobs = js\<rparr> \<lparr>pl_rt = heartbeat_tick cfg t s, pl_jobs = js\<rparr>"
| Start: "pool_step cfg \<lparr>pl_rt = s, pl_jobs = js\<rparr> \<lparr>pl_rt = start_worker s, pl_jobs = js\<rparr>"
| Stop: "pool_step cfg \<lparr>pl_rt = s, pl_jobs = js\<rparr> \<lparr>pl_rt = stop_worker s, pl_jobs = js\<rparr>"

text \<open>
  The counter is the number of jobs, within the limit; a heartbeat is registered only for a
  task with a job past its claim.
\<close>

fun job_tasks :: "(jsval \<times> phase) list \<Rightarrow> jsval set" where
  "job_tasks [] = {}"
| "job_tasks ((t, ph) # js) = (if ph = Claiming then job_tasks js else insert t (job_tasks js))"

lemma job_tasks_append [simp]: "job_tasks (xs @ ys) = job_tasks xs \<union> job_tasks ys"
  by (induction xs rule: job_tasks.induct) auto

abbreviation hb_tasks :: "'s runtime \<Rightarrow> jsval set" where
  "hb_tasks s \<equiv> dom (map_of (rt_heartbeats s))"

definition pool_inv :: "'s worker_config \<Rightarrow> 's pool \<Rightarrow> bool" where
  "pool_inv cfg p \<longleftrightarrow> rt_active (pl_rt p) = int (length (pl_jobs p)) \<and> rt_active (pl_rt p) \<le> wc_concurrency cfg
     \<and> hb_tasks (pl_rt p) \<subseteq> job_tasks (pl_jobs p)"

lemma hb_tasks_simps [simp]:
  "hb_tasks (stopHeartbeat t s) = hb_tasks s - {t}"
  "hb_tasks (leave t s) = hb_tasks s - {t}"
  by (auto simp: stopHeartbeat_def leave_def Let_def AList.delete_conv' split: option.splits if_splits)

lemma hb_tasks_start: "hb_tasks (startHeartbeat cfg t s) \<subseteq> insert t (hb_tasks s)"
  by (auto simp: startHeartbeat_def AList.update_conv' split: option.splits if_splits)

lemma stop_worker_frame:
  "rt_active (stop_worker s) = rt_active s" "hb_tasks (stop_worker s) \<subseteq> hb_tasks s"
proof -
  have "rt_active (fold stopHeartbeat ts s') = rt_active s' \<and> hb_tasks (fold stopHeartbeat ts s') \<subseteq> hb_tasks s'"
    for ts and s' :: "'a runtime"
  proof (induction ts arbitrary: s')
    case (Cons t ts)
    from Cons [of "stopHeartbeat t s'"] show ?case by simp blast
  qed simp
  from this [of "map fst (rt_heartbeats s)" "s\<lparr>rt_running := False, rt_timer := False\<rparr>"]
  show "rt_active (stop_worker s) = rt_active s" "hb_tasks (stop_worker s) \<subseteq> hb_tasks s"
    by (simp_all add: stop_worker_def)
qed

lemma frames [simp]:
  "rt_active (heartbeat_tick cfg t s) = rt_active s" "rt_heartbeats (heartbeat_tick cfg t s) = rt_heartbeats s"
  "rt_active (start_worker s) = rt_active s" "rt_heartbeats (start_worker s) = rt_heartbeats s"
  "rt_active (leave t s) = rt_active s - 1" "rt_heartbeats (snd (release cfg t s)) = rt_heartbeats s"
  by (simp_all add: heartbeat_tick_def start_worker_def leave_def release_env split: option.split)

lemma on_env_run:
  assumes "on_env m s = (r, s')"
  shows "rt_active s' = rt_active s" "rt_heartbeats s' = rt_heartbeats s"
  using assms by (auto simp: on_env_def split: prod.splits)

lemma pool_invI:
  assumes "pool_inv cfg \<lparr>pl_rt = s, pl_jobs = js\<rparr>"
    and "rt_active s' - rt_active s = int (length js') - int (length js)" "rt_active s' \<le> rt_active s"
    and "hb_tasks s \<subseteq> job_tasks js \<Longrightarrow> hb_tasks s' \<subseteq> job_tasks js'"
  shows "pool_inv cfg \<lparr>pl_rt = s', pl_jobs = js'\<rparr>"
  using assms by (simp add: pool_inv_def)

lemma pool_inv_step: "pool_step cfg p p' \<Longrightarrow> pool_inv cfg p \<Longrightarrow> pool_inv cfg p'"
proof (induction rule: pool_step.induct)
  case (Launch s js t)
  then show ?case by (simp add: pool_inv_def)
next
  case (Claimed t s item s' xs ys)
  show ?case
    using Claimed(2) by (rule pool_invI) (use hb_tasks_start [of cfg t s'] on_env_run [OF Claimed(1)] in \<open>simp_all, blast\<close>)
next
  case (Claim_failed t s e s' xs ys)
  show ?case using Claim_failed(2) by (rule pool_invI) (use on_env_run [OF Claim_failed(1)] in auto)
next
  case (Handled item s v s' xs t ys)
  show ?case using Handled(2) by (rule pool_invI) (use on_env_run [OF Handled(1)] in auto)
next
  case (Handler_failed item s e s' xs t ys)
  show ?case using Handler_failed(2) by (rule pool_invI) (use on_env_run [OF Handler_failed(1)] in auto)
next
  case (Finished t s v s' xs ys)
  show ?case using Finished(2) by (rule pool_invI) (use on_env_run [OF Finished(1)] in auto)
next
  case (Complete_failed t s e s' xs ys)
  show ?case using Complete_failed(2) by (rule pool_invI) (use on_env_run [OF Complete_failed(1)] in auto)
next
  case (Released s xs t e ys)
  show ?case using Released by (rule pool_invI) auto
next
  case (Stop s js)
  show ?case using Stop by (rule pool_invI) (use stop_worker_frame [of s] in auto)
qed (simp_all add: pool_inv_def)

definition pool_start :: "'s \<Rightarrow> 's pool" where
  "pool_start e = \<lparr>pl_rt = \<lparr>rt_env = e, rt_running = False, rt_active = 0, rt_timer = False, rt_heartbeats = [],
     rt_intervals = [], rt_fresh = 0\<rparr>, pl_jobs = []\<rparr>"

lemma pool_inv_reachable:
  assumes "(pool_step cfg)\<^sup>*\<^sup>* (pool_start e) p" "0 \<le> wc_concurrency cfg"
  shows "pool_inv cfg p"
  using assms(1)
proof (induction rule: rtranclp_induct)
  case base
  then show ?case using assms(2) by (simp add: pool_inv_def pool_start_def)
qed (rule pool_inv_step)

section \<open>A worker on the queue\<close>

text \<open>
  The runtime on \<open>QueueWorkerEngine\<close>, with the clock readings of the claim and of the completion.
  The engine has no \<^verbatim>\<open>next\<close>.
\<close>

definition queue_worker ::
  "'s queue_engine \<Rightarrow> int \<Rightarrow> int \<Rightarrow> (jsval \<Rightarrow> jsval \<Rightarrow> ('s, jsval) act) \<Rightarrow> jsval \<Rightarrow> int \<Rightarrow> int \<Rightarrow> 's worker_config" where
  "queue_worker qe n1 n2 handler w concurrency leaseMs =
     \<lparr>wc_claim = (\<lambda>t w ms. claim qe ms n1 t w), wc_complete = (\<lambda>t w. complete qe n2 t w),
      wc_retry = Some (retry qe), wc_heartbeat = Some (\<lambda>t w ms. heartbeat qe ms n1 t w), wc_has_next = False,
      wc_handler = handler, wc_workerId = w, wc_concurrency = concurrency, wc_leaseMs = leaseMs\<rparr>"

definition idle_runtime :: "'s \<Rightarrow> 's runtime" where
  "idle_runtime e = pl_rt (pool_start e)"

lemma idle_runtime_simps [simp]:
  "rt_env (idle_runtime e) = e" "rt_active (idle_runtime e) = 0" "rt_heartbeats (idle_runtime e) = []"
  "rt_intervals (idle_runtime e) = []" "rt_fresh (idle_runtime e) = 0" "timers_ok (idle_runtime e)"
  by (simp_all add: idle_runtime_def pool_start_def timers_ok_def)

lemma queue_worker_simps [simp]:
  "wc_claim (queue_worker qe n1 n2 h w c ms) = (\<lambda>t w ms. claim qe ms n1 t w)"
  "wc_complete (queue_worker qe n1 n2 h w c ms) = (\<lambda>t w. complete qe n2 t w)"
  "wc_retry (queue_worker qe n1 n2 h w c ms) = Some (retry qe)"
  "wc_heartbeat (queue_worker qe n1 n2 h w c ms) = Some (\<lambda>t w ms. heartbeat qe ms n1 t w)"
  "wc_handler (queue_worker qe n1 n2 h w c ms) = h" "wc_workerId (queue_worker qe n1 n2 h w c ms) = w"
  "wc_concurrency (queue_worker qe n1 n2 h w c ms) = c" "wc_leaseMs (queue_worker qe n1 n2 h w c ms) = ms"
  by (simp_all add: queue_worker_def)

lemma leave_env [simp]: "rt_env (leave t s) = rt_env s"
  by (simp add: leave_def)

lemma leave_heartbeat [simp]: "map_of (rt_heartbeats (leave t s)) t = None"
proof -
  have "t \<notin> hb_tasks (leave t s)" by simp
  then show ?thesis by (simp only: domIff not_not)
qed

text \<open>One engine call on a represented item, as the new store and view.\<close>

lemma mem_claim:
  assumes "mem_ok e" "mem_view e i = Some q" "spec_claim ms n w q = Inr q'"
  obtains e' where "claim mem_queue ms n (Str i) w e = (Inr (encode i q'), e')" "mem_ok e'" "mem_view e' i = Some q'"
proof -
  have l: "mem_look e ''queue'' i = Some (encode i q)" "mem_inv e" "i \<noteq> []"
    using mem_look_view [OF assms(1,2)] by auto
  let ?e' = "mem_put ''queue'' i (encode i q') e"
  have c: "claim mem_queue ms n (Str i) w e = (Inr (encode i q'), ?e')"
    using mem.claim_refines [OF l(2) _ l(3) _ _ l(1), where qe = mem_queue and w = w and leaseMs = ms and now = n] assms(3) by simp
  have "mem_ok ?e'"
    using mem.claim_served [OF assms(1) _ _ l(3), where qe = mem_queue and w = w and now = n and leaseMs = ms]
    by (simp add: c served_def)
  moreover have "mem_view ?e' i = Some q'" using l by (simp add: queue_view_def mem.look_put)
  ultimately show thesis using c that by blast
qed

lemma mem_retry:
  assumes "mem_ok e" "mem_view e i = Some q" "q_lease q = Processing h t" "\<not> foreign h w"
  shows "mem_ok (snd (retry mem_queue (Str i) w e)) \<and> mem_view (snd (retry mem_queue (Str i) w e)) i = Some (q\<lparr>q_lease := Queued\<rparr>)"
proof -
  have l: "mem_look e ''queue'' i = Some (encode i q)" "mem_inv e" "i \<noteq> []"
    using mem_look_view [OF assms(1,2)] by auto
  have r: "retry mem_queue (Str i) w e = perform mem_put i (Inr (q\<lparr>q_lease := Queued\<rparr>)) e"
    using mem.retry_refines [OF l(2) _ l(3) _ l(1), where qe = mem_queue and w = w] assms(3,4) by (simp add: spec_retry_def)
  have "mem_ok (snd (retry mem_queue (Str i) w e))"
    using mem.retry_served [OF assms(1) _ _ l(3), where qe = mem_queue and w = w] by (simp add: served_def)
  with r show ?thesis using l by (simp add: queue_view_def mem.look_put)
qed

section \<open>Properties\<close>

text \<open>Invariant. However claims, handlers, completions, releases, heartbeat callbacks, starts and
  stops interleave, the active counter equals the number of tasks in flight and never exceeds the
  configured concurrency, and heartbeats are registered only for tasks in flight past their claim:
  a worker with nothing in flight has no registered heartbeat.\<close>

theorem concurrency_is_bounded:
  assumes "(pool_step cfg)\<^sup>*\<^sup>* (pool_start e) p" "0 \<le> wc_concurrency cfg"
  shows "rt_active (pl_rt p) = int (length (pl_jobs p)) \<and> length (pl_jobs p) \<le> nat (wc_concurrency cfg)
    \<and> (pl_jobs p = [] \<longrightarrow> rt_heartbeats (pl_rt p) = [])"
  using pool_inv_reachable [OF assms] assms(2) by (auto simp: pool_inv_def)

theorem concurrency_is_bounded_witness:
  "\<exists>p. (pool_step (queue_worker mem_queue 0 0 (\<lambda>_ _. ret Null) (Str ''w2'') 1 50))\<^sup>*\<^sup>* (pool_start demo_store) p
     \<and> length (pl_jobs p) = 1 \<and> rt_active (pl_rt p) = 1"
proof -
  let ?cfg = "queue_worker mem_queue 0 0 (\<lambda>_ _. ret Null) (Str ''w2'') 1 50 :: mem_repo worker_config"
  let ?s = "pl_rt (pool_start demo_store)"
  let ?p = "\<lparr>pl_rt = ?s\<lparr>rt_active := rt_active ?s + 1\<rparr>, pl_jobs = [] @ [(Str ''b'', Claiming)]\<rparr>"
  have "pool_step ?cfg \<lparr>pl_rt = ?s, pl_jobs = []\<rparr> ?p"
    by (rule pool_step.Launch) (simp add: pool_start_def queue_worker_def)
  moreover have "\<lparr>pl_rt = ?s, pl_jobs = []\<rparr> = pool_start demo_store" by (simp add: pool_start_def)
  ultimately have reach: "(pool_step ?cfg)\<^sup>*\<^sup>* (pool_start demo_store) ?p" by simp
  have "rt_active (pl_rt ?p) = 1" using concurrency_is_bounded [OF reach] by (simp add: queue_worker_def)
  with reach show ?thesis by (intro exI [of _ ?p]) simp
qed

text \<open>Safety. Processing a task gives back everything it took, on every path: whether the claim,
  the handler or the completion rejects or all resolve, the active counter, the registered heartbeats
  and the running intervals are afterwards what they were before (for a task that had no heartbeat).\<close>

theorem process_restores_runtime:
  assumes "timers_ok s" "map_of (rt_heartbeats s) t = None"
  shows "rt_active (snd (run_process cfg t s)) = rt_active s
    \<and> rt_heartbeats (snd (run_process cfg t s)) = rt_heartbeats s
    \<and> rt_intervals (snd (run_process cfg t s)) = rt_intervals s"
proof (cases "rt_active s < wc_concurrency cfg")
  case False
  then show ?thesis by (simp add: run_process_def)
next
  case True
  let ?s = "\<lambda>e. s\<lparr>rt_active := rt_active s + 1, rt_env := e\<rparr>"
  have s: "timers_ok (?s e)" "map_of (rt_heartbeats (?s e)) t = None" for e
    using assms by (simp_all add: timers_ok_def)
  show ?thesis
    by (rule run_process_leaves [OF True, of t])
      (simp_all add: leave_def heartbeat_balanced [OF s])
qed

theorem process_restores_runtime_witness:
  "rt_active (snd (run_process (queue_worker mem_queue 0 0 (\<lambda>_ _. throw (Error ''boom'')) (Str ''w2'') 1 50)
      (Str ''b'') (idle_runtime demo_store))) = 0"
  using process_restores_runtime [of "idle_runtime demo_store" "Str ''b''"] by simp

text \<open>Error. A handler that rejects puts its task back: the call rejects with the handler's own
  error, and the item is queued again with the attempt counted and the lease dropped.\<close>

theorem failed_handler_requeues:
  fixes e :: "'z mem_repo_scheme"
  assumes "mem_ok e" "mem_view e i = Some q" "claimable n1 (q_lease q)" "truthy w" "strict_eq w w"
    and "rt_env s = e" "rt_active s < c" "\<And>item e'. handler item w e' = (Inl err, e')"
  shows "fst (run_process (queue_worker mem_queue n1 n2 handler w c ms) (Str i) s) = Inl err
    \<and> mem_view (rt_env (snd (run_process (queue_worker mem_queue n1 n2 handler w c ms) (Str i) s))) i
        = Some (q\<lparr>q_attempts := q_attempts q + 1, q_lease := Queued\<rparr>)"
proof -
  let ?q' = "q\<lparr>q_attempts := q_attempts q + 1, q_lease := Processing w (n1 + ms)\<rparr>"
  obtain e' where e': "claim mem_queue ms n1 (Str i) w e = (Inr (encode i ?q'), e')" "mem_ok e'" "mem_view e' i = Some ?q'"
    by (rule mem_claim [OF assms(1,2), of ms n1 w ?q']) (use assms(3,4) in \<open>auto simp: spec_claim_def\<close>)
  have act: "rt_active s < wc_concurrency (queue_worker mem_queue n1 n2 handler w c ms)" using assms(7) by simp
  show ?thesis
    unfolding run_process_steps [OF act]
    using e'(1) mem_retry [OF e'(2,3), of w _ w] assms(5,6,8)
    by (simp add: on_env_env release_env startHeartbeat_env foreign_def)
qed

theorem failed_handler_requeues_witness:
  "fst (run_process (queue_worker mem_queue 0 0 (\<lambda>_ _. throw (Error ''boom'')) (Str ''w2'') 1 50) (Str ''b'') (idle_runtime demo_store))
     = Inl (Error ''boom'')"
  by (rule failed_handler_requeues [where q = "\<lparr>q_process = Str ''p1'', q_attempts = 0, q_lease = Queued\<rparr>", OF demo_ok, THEN conjunct1])
    (simp_all add: demo_view strict_eq_def)

text \<open>Safety limit. Processing a task the same worker is already processing does not merely fail:
  the claim is refused, and the release that follows every failure then passes the ownership
  test, so the item under the live lease goes back to the queue and its registered heartbeat is
  dropped, while the first call is still handling it.\<close>

theorem second_process_drops_own_lease:
  fixes e :: "'z mem_repo_scheme"
  assumes "mem_ok e" "mem_view e i = Some q" "q_lease q = Processing w t" "n1 < t" "truthy w" "strict_eq w w"
    and "rt_env s = e" "rt_active s < c"
  shows "fst (run_process (queue_worker mem_queue n1 n2 handler w c ms) (Str i) s) = Inl (Error ''QUEUE_ITEM_NOT_CLAIMABLE'')
    \<and> mem_view (rt_env (snd (run_process (queue_worker mem_queue n1 n2 handler w c ms) (Str i) s))) i = Some (q\<lparr>q_lease := Queued\<rparr>)
    \<and> map_of (rt_heartbeats (snd (run_process (queue_worker mem_queue n1 n2 handler w c ms) (Str i) s))) (Str i) = None"
proof -
  have l: "mem_look e ''queue'' i = Some (encode i q)" "mem_inv e" "i \<noteq> []"
    using mem_look_view [OF assms(1,2)] by auto
  have c: "claim mem_queue ms n1 (Str i) w e = (Inl (Error ''QUEUE_ITEM_NOT_CLAIMABLE''), e)"
    using mem.claim_refines [OF l(2) _ l(3) _ _ l(1), where qe = mem_queue and w = w and leaseMs = ms and now = n1] assms(3-5)
    by (simp add: spec_claim_def)
  have act: "rt_active s < wc_concurrency (queue_worker mem_queue n1 n2 handler w c ms)" using assms(8) by simp
  show ?thesis
    unfolding run_process_steps [OF act]
    using c mem_retry [OF assms(1-3), of w] assms(6,7)
    by (simp add: on_env_env release_env foreign_def)
qed

theorem second_process_drops_own_lease_witness:
  "fst (run_process (queue_worker mem_queue 0 0 (\<lambda>_ _. ret Null) (Str ''w1'') 2 50) (Str ''a'') (idle_runtime demo_store))
     = Inl (Error ''QUEUE_ITEM_NOT_CLAIMABLE'')"
  by (rule second_process_drops_own_lease [where t = 100
        and q = "\<lparr>q_process = Str ''p1'', q_attempts = 1, q_lease = Processing (Str ''w1'') 100\<rparr>", OF demo_ok, THEN conjunct1])
    (simp_all add: demo_view strict_eq_def)

end
