(* ===== verification/JsDate.thy ===== *)
theory JsDate
  imports JsValue
begin

text \<open>
  The part of JavaScript's \<^verbatim>\<open>Date\<close> the program uses: \<^verbatim>\<open>new Date(v).getTime()\<close> and
  \<^verbatim>\<open>new Date(n).toISOString()\<close>. A date is its time value in milliseconds, up to 8.64e15 either
  side of 1970. The calendar is the proleptic Gregorian one, computed on years that start in March.
  Strings in the format \<^verbatim>\<open>toISOString\<close> writes are parsed here; what any other string means to
  \<^verbatim>\<open>Date\<close> is left to the implementation by the language standard and is a parameter.
\<close>

section \<open>Days and civil dates\<close>

definition civil_of_days :: "int \<Rightarrow> int \<times> int \<times> int" where
  "civil_of_days z =
     (let z' = z + 719468; era = z' div 146097; r0 = z' mod 146097;
          a = min 3 (r0 div 36524); r1 = r0 - a * 36524;
          b = r1 div 1461; r2 = r1 mod 1461;
          c = min 3 (r2 div 365); doy = r2 - c * 365;
          y = era * 400 + a * 100 + b * 4 + c;
          mp = (5 * doy + 2) div 153;
          d = doy - (153 * mp + 2) div 5 + 1;
          m = (if mp < 10 then mp + 3 else mp - 9)
      in (if m \<le> 2 then y + 1 else y, m, d))"

definition days_of_civil :: "int \<Rightarrow> int \<Rightarrow> int \<Rightarrow> int" where
  "days_of_civil y0 m d =
     (let y = (if m \<le> 2 then y0 - 1 else y0); era = y div 400; yoe = y mod 400;
          doy = (153 * (if m > 2 then m - 3 else m + 9) + 2) div 5 + d - 1
      in era * 146097 + yoe * 365 + yoe div 4 - yoe div 100 + doy - 719468)"

lemma civil_steps:
  fixes r0 :: int
  assumes "0 \<le> r0" "r0 < 146097"
  defines "a \<equiv> min 3 (r0 div 36524)"
  defines "r1 \<equiv> r0 - a * 36524"
  defines "b \<equiv> r1 div 1461" defines "r2 \<equiv> r1 mod 1461"
  defines "c \<equiv> min 3 (r2 div 365)" defines "doy \<equiv> r2 - c * 365"
  shows "0 \<le> a \<and> a \<le> 3" "0 \<le> b \<and> b \<le> 24" "0 \<le> c \<and> c \<le> 3" "0 \<le> doy \<and> doy \<le> 365"
    "r0 = a * 36524 + b * 1461 + c * 365 + doy"
proof -
  show a: "0 \<le> a \<and> a \<le> 3" using assms(1) by (simp add: a_def pos_imp_zdiv_nonneg_iff)
  have "r0 = 36524 * (r0 div 36524) + r0 mod 36524" "0 \<le> r0 mod 36524" "r0 mod 36524 < 36524" by simp_all
  with assms(1,2) have r1: "0 \<le> r1 \<and> r1 \<le> 36524" unfolding r1_def a_def min_def by (simp split: if_split) linarith
  have "r1 = 1461 * b + r1 mod 1461" "0 \<le> r1 mod 1461" "r1 mod 1461 < 1461" unfolding b_def by simp_all
  with r1 show "0 \<le> b \<and> b \<le> 24" by arith
  have r2: "0 \<le> r2 \<and> r2 \<le> 1460" unfolding r2_def by simp
  show "0 \<le> c \<and> c \<le> 3" using r2 by (simp add: c_def pos_imp_zdiv_nonneg_iff)
  have "r2 = 365 * (r2 div 365) + r2 mod 365" "0 \<le> r2 mod 365" "r2 mod 365 < 365" by simp_all
  with r2 show "0 \<le> doy \<and> doy \<le> 365" unfolding doy_def c_def min_def by (simp split: if_split) linarith
  have "r1 = b * 1461 + r2" unfolding b_def r2_def by simp
  then show "r0 = a * 36524 + b * 1461 + c * 365 + doy" unfolding doy_def using r1_def by simp
qed

lemma year_of_era:
  fixes a b c :: int
  assumes "0 \<le> a \<and> a \<le> 3" "0 \<le> b \<and> b \<le> 24" "0 \<le> c \<and> c \<le> 3"
  shows "(era * 400 + a * 100 + b * 4 + c) div 400 = era" "(era * 400 + a * 100 + b * 4 + c) mod 400 = a * 100 + b * 4 + c"
    "(a * 100 + b * 4 + c) div 4 = a * 25 + b" "(a * 100 + b * 4 + c) div 100 = a"
proof -
  define k where "k = a * 100 + b * 4 + c"
  have k: "0 \<le> k" "k < 400" using assms by (auto simp: k_def)
  have eq: "era * 400 + a * 100 + b * 4 + c = k + era * 400" by (simp add: k_def)
  show "(era * 400 + a * 100 + b * 4 + c) div 400 = era" "(era * 400 + a * 100 + b * 4 + c) mod 400 = a * 100 + b * 4 + c"
    unfolding eq k_def [symmetric] using k by (simp_all add: div_pos_pos_trivial)
  have "(c + (a * 25 + b) * 4) div 4 = a * 25 + b" "(b * 4 + c + a * 100) div 100 = a"
    by (subst div_mult_self1; use assms(2,3) in \<open>simp add: div_pos_pos_trivial\<close>)+
  moreover have "a * 100 + b * 4 + c = c + (a * 25 + b) * 4" "a * 100 + b * 4 + c = b * 4 + c + a * 100" by simp_all
  ultimately show "(a * 100 + b * 4 + c) div 4 = a * 25 + b" "(a * 100 + b * 4 + c) div 100 = a" by metis+
qed

lemma month_of_doy:
  fixes doy :: int
  assumes "0 \<le> doy" "doy \<le> 365"
  defines "mp \<equiv> (5 * doy + 2) div 153"
  shows "0 \<le> mp \<and> mp \<le> 11" "1 \<le> doy - (153 * mp + 2) div 5 + 1 \<and> doy - (153 * mp + 2) div 5 + 1 \<le> 31"
proof -
  have "5 * doy + 2 = 153 * mp + (5 * doy + 2) mod 153" unfolding mp_def by simp
  moreover have "0 \<le> (5 * doy + 2) mod 153" "(5 * doy + 2) mod 153 < 153" by simp_all
  ultimately have mp: "153 * mp \<le> 5 * doy + 2" "5 * doy + 2 < 153 * mp + 153" by linarith+
  with assms(1,2) show "0 \<le> mp \<and> mp \<le> 11" by arith
  define e where "e = (153 * mp + 2) div 5"
  have "153 * mp + 2 = 5 * e + (153 * mp + 2) mod 5" unfolding e_def by simp
  moreover have "0 \<le> (153 * mp + 2) mod 5" "(153 * mp + 2) mod 5 < 5" by simp_all
  ultimately have "5 * e \<le> 153 * mp + 2" "153 * mp + 2 < 5 * e + 5" by linarith+
  with mp show "1 \<le> doy - (153 * mp + 2) div 5 + 1 \<and> doy - (153 * mp + 2) div 5 + 1 \<le> 31"
    unfolding e_def [symmetric] by arith
qed

lemma civil_shape:
  assumes "civil_of_days z = (y, m, d)"
  obtains era a b c doy mp where
    "0 \<le> a \<and> a \<le> 3" "0 \<le> b \<and> b \<le> 24" "0 \<le> c \<and> c \<le> 3" "0 \<le> doy \<and> doy \<le> 365"
    "z + 719468 = era * 146097 + a * 36524 + b * 1461 + c * 365 + doy" "mp = (5 * doy + 2) div 153"
    "m = (if mp < 10 then mp + 3 else mp - 9)" "d = doy - (153 * mp + 2) div 5 + 1"
    "y = (if m \<le> 2 then era * 400 + a * 100 + b * 4 + c + 1 else era * 400 + a * 100 + b * 4 + c)"
proof -
  define r0 where "r0 = (z + 719468) mod 146097"
  define era where "era = (z + 719468) div 146097"
  define a where "a = min 3 (r0 div 36524)"
  define r1 where "r1 = r0 - a * 36524"
  define b where "b = r1 div 1461"
  define r2 where "r2 = r1 mod 1461"
  define c where "c = min 3 (r2 div 365)"
  define doy where "doy = r2 - c * 365"
  define mp where "mp = (5 * doy + 2) div 153"
  have r0: "0 \<le> r0" "r0 < 146097" by (simp_all add: r0_def)
  note st = civil_steps [OF r0, folded a_def, folded r1_def, folded b_def r2_def, folded c_def, folded doy_def]
  have "z + 719468 = era * 146097 + r0" by (simp add: era_def r0_def)
  with st(5) have z: "z + 719468 = era * 146097 + a * 36524 + b * 1461 + c * 365 + doy" by simp
  have eq: "m = (if mp < 10 then mp + 3 else mp - 9)" "d = doy - (153 * mp + 2) div 5 + 1"
    "y = (if m \<le> 2 then era * 400 + a * 100 + b * 4 + c + 1 else era * 400 + a * 100 + b * 4 + c)"
    using assms unfolding civil_of_days_def Let_def
    by (auto simp: r0_def [symmetric] era_def [symmetric] a_def [symmetric] r1_def [symmetric] b_def [symmetric]
        r2_def [symmetric] c_def [symmetric] doy_def [symmetric] mp_def [symmetric] split: if_splits)
  show thesis by (rule that [OF st(1-4) z mp_def eq])
qed

lemma days_of_civil_of_days:
  assumes "civil_of_days z = (y, m, d)"
  shows "days_of_civil y m d = z \<and> 1 \<le> m \<and> m \<le> 12 \<and> 1 \<le> d \<and> d \<le> 31"
  using assms
proof (rule civil_shape)
  fix era a b c doy mp :: int
  assume st: "0 \<le> a \<and> a \<le> 3" "0 \<le> b \<and> b \<le> 24" "0 \<le> c \<and> c \<le> 3" "0 \<le> doy \<and> doy \<le> 365"
    and z: "z + 719468 = era * 146097 + a * 36524 + b * 1461 + c * 365 + doy" and mp_def: "mp = (5 * doy + 2) div 153"
    and eq: "m = (if mp < 10 then mp + 3 else mp - 9)" "d = doy - (153 * mp + 2) div 5 + 1"
    "y = (if m \<le> 2 then era * 400 + a * 100 + b * 4 + c + 1 else era * 400 + a * 100 + b * 4 + c)"
  note yr = year_of_era(1,2) [where era = era, OF st(1-3)] year_of_era(3,4) [OF st(1-3)]
  note mo = month_of_doy [of doy, folded mp_def]
  have mp: "0 \<le> mp \<and> mp \<le> 11" using mo(1) st(4) by simp
  have md: "1 \<le> m \<and> m \<le> 12" "1 \<le> d \<and> d \<le> 31" using eq(1,2) mp mo(2) st(4) by auto
  have m: "(if m > 2 then m - 3 else m + 9) = mp" using eq(1) mp by auto
  have yy: "(if m \<le> 2 then y - 1 else y) = era * 400 + a * 100 + b * 4 + c" using eq(3) by auto
  have "days_of_civil y m d = z" unfolding days_of_civil_def yy m Let_def yr eq(2) using z by simp
  with md show ?thesis by simp
qed

lemma civil_year_bound:
  assumes "civil_of_days z = (y, m, d)" "\<bar>z\<bar> \<le> 100000000"
  shows "- 300000 \<le> y \<and> y \<le> 300000"
  using assms(1)
proof (rule civil_shape)
  fix era a b c doy mp :: int
  assume st: "0 \<le> a \<and> a \<le> 3" "0 \<le> b \<and> b \<le> 24" "0 \<le> c \<and> c \<le> 3" "0 \<le> doy \<and> doy \<le> 365"
    and z: "z + 719468 = era * 146097 + a * 36524 + b * 1461 + c * 365 + doy"
    and y: "y = (if m \<le> 2 then era * 400 + a * 100 + b * 4 + c + 1 else era * 400 + a * 100 + b * 4 + c)"
  from st z assms(2) have "- 700 \<le> era" "era \<le> 700" by linarith+
  moreover have "y \<le> era * 400 + a * 100 + b * 4 + c + 1" "era * 400 + a * 100 + b * 4 + c \<le> y" using y by auto
  ultimately show ?thesis using st by linarith
qed

section \<open>Date strings\<close>

definition digit :: "nat \<Rightarrow> char" where
  "digit k = char_of (48 + k)"

fun pad :: "nat \<Rightarrow> nat \<Rightarrow> string" where
  "pad 0 n = []"
| "pad (Suc w) n = pad w (n div 10) @ [digit (n mod 10)]"

definition iso_year :: "int \<Rightarrow> string" where
  "iso_year y = (if 0 \<le> y \<and> y \<le> 9999 then pad 4 (nat y)
     else (if y < 0 then CHR ''-'' else CHR ''+'') # pad 6 (nat \<bar>y\<bar>))"

text \<open>\<^verbatim>\<open>toISOString\<close>: the year, then 20 characters.\<close>

definition iso_tail :: "int \<Rightarrow> int \<Rightarrow> int \<Rightarrow> string" where
  "iso_tail m d t =
     ''-'' @ pad 2 (nat m) @ ''-'' @ pad 2 (nat d) @ ''T'' @ pad 2 (nat (t div 3600000)) @ '':'' @ pad 2 (nat (t div 60000 mod 60))
     @ '':'' @ pad 2 (nat (t div 1000 mod 60)) @ ''.'' @ pad 3 (nat (t mod 1000)) @ ''Z''"

definition iso_of_ms :: "int \<Rightarrow> string" where
  "iso_of_ms n = (case civil_of_days (n div 86400000) of
     (y, m, d) \<Rightarrow> iso_year y @ iso_tail m d (n mod 86400000))"

definition num_at :: "string \<Rightarrow> nat \<Rightarrow> nat \<Rightarrow> nat option" where
  "num_at s k w = digits_val 0 (take w (drop k s))"

definition parse_tail :: "int \<Rightarrow> string \<Rightarrow> int option" where
  "parse_tail y r =
     (if length r \<noteq> 20 \<or> map (\<lambda>k. r ! k) [0, 3, 6, 9, 12, 15, 19] \<noteq> ''--T::.Z'' then None
      else case (num_at r 1 2, num_at r 4 2, num_at r 7 2, num_at r 10 2, num_at r 13 2, num_at r 16 3) of
        (Some m, Some d, Some h, Some mi, Some sec, Some ms) \<Rightarrow>
          (let days = days_of_civil y (int m) (int d) in
           if civil_of_days days = (y, int m, int d) \<and> h < 24 \<and> mi < 60 \<and> sec < 60
           then Some (days * 86400000 + int h * 3600000 + int mi * 60000 + int sec * 1000 + int ms) else None)
      | _ \<Rightarrow> None)"

definition parse_iso :: "string \<Rightarrow> int option" where
  "parse_iso s =
     (case s of [] \<Rightarrow> None
      | c # cs \<Rightarrow>
          if c = CHR ''-'' \<or> c = CHR ''+'' then
            (case num_at cs 0 6 of
               Some y \<Rightarrow> if length (take 6 cs) < 6 \<or> (c = CHR ''-'' \<and> y = 0) then None
                          else parse_tail (if c = CHR ''-'' then - int y else int y) (drop 6 cs)
             | None \<Rightarrow> None)
          else (case num_at s 0 4 of Some y \<Rightarrow> parse_tail (int y) (drop 4 s) | None \<Rightarrow> None))"

lemma of_char_digit [simp]: "k < 10 \<Longrightarrow> (of_char (digit k) :: nat) = 48 + k"
  by (simp add: digit_def)

lemma length_pad [simp]: "length (pad w n) = w"
  by (induction w arbitrary: n) simp_all

lemma pad_digits: "c \<in> set (pad w n) \<Longrightarrow> \<exists>k < 10. c = digit k"
  by (induction w arbitrary: n) (auto intro: exI [of _ "n mod 10" for n :: nat])

lemma digits_val_append:
  "digits_val acc (xs @ ys) = (case digits_val acc xs of None \<Rightarrow> None | Some n \<Rightarrow> digits_val n ys)"
  by (induction acc xs rule: digits_val.induct) simp_all

lemma digits_val_pad [simp]: "n < 10 ^ w \<Longrightarrow> digits_val 0 (pad w n) = Some n"
proof (induction w arbitrary: n)
  case (Suc w)
  have "n div 10 < 10 ^ w" using Suc.prems by (simp add: less_mult_imp_div_less mult.commute)
  then show ?case using Suc.IH [of "n div 10"] by (simp add: digits_val_append)
qed simp

lemma time_parts:
  fixes t :: int
  shows "t = t div 3600000 * 3600000 + t div 60000 mod 60 * 60000 + t div 1000 mod 60 * 1000 + t mod 1000"
proof -
  define u where "u = t div 1000"
  define r1 where "r1 = t mod 1000"
  define v where "v = u div 60"
  define r2 where "r2 = u mod 60"
  define w where "w = v div 60"
  define r3 where "r3 = v mod 60"
  have "t = u * 1000 + r1" "u = v * 60 + r2" "v = w * 60 + r3"
    by (simp_all add: u_def r1_def v_def r2_def w_def r3_def)
  then have eq: "t = w * 3600000 + r3 * 60000 + r2 * 1000 + r1" by simp
  have d: "t div 60000 = v" "t div 3600000 = w"
    by (simp_all add: u_def v_def w_def zdiv_zmult2_eq [symmetric])
  show ?thesis
    unfolding d u_def [symmetric] r1_def [symmetric] r2_def [symmetric] r3_def [symmetric] by (rule eq)
qed

lemma parse_iso_tail:
  assumes "0 \<le> m" "m < 100" "0 \<le> d" "d < 100" "0 \<le> t" "t < 86400000"
    and "civil_of_days days = (y, m, d)" "days_of_civil y m d = days"
  shows "parse_tail y (iso_tail m d t) = Some (days * 86400000 + t)"
proof -
  let ?r = "iso_tail m d t"
  define h where "h = nat (t div 3600000)"
  define mi where "mi = nat (t div 60000 mod 60)"
  define sec where "sec = nat (t div 1000 mod 60)"
  define ms where "ms = nat (t mod 1000)"
  have r: "?r = ''-'' @ pad 2 (nat m) @ ''-'' @ pad 2 (nat d) @ ''T'' @ pad 2 h @ '':'' @ pad 2 mi @ '':'' @ pad 2 sec
      @ ''.'' @ pad 3 ms @ ''Z''"
    by (simp add: iso_tail_def h_def mi_def sec_def ms_def)
  have len: "length ?r = 20" by (simp add: r)
  have cs: "map (\<lambda>k. ?r ! k) [0, 3, 6, 9, 12, 15, 19] = ''--T::.Z''"
    by (simp add: r nth_append)
  have bounds: "h < 24" "mi < 60" "sec < 60" "ms < 1000"
    using assms(5,6) by (simp_all add: h_def mi_def sec_def ms_def nat_less_iff pos_imp_zdiv_nonneg_iff)
  have nums: "num_at ?r 1 2 = Some (nat m)" "num_at ?r 4 2 = Some (nat d)" "num_at ?r 7 2 = Some h"
    "num_at ?r 10 2 = Some mi" "num_at ?r 13 2 = Some sec" "num_at ?r 16 3 = Some ms"
    using assms(1-4) bounds by (simp_all add: num_at_def r nat_less_iff)
  have "int h * 3600000 + int mi * 60000 + int sec * 1000 + int ms = t"
    using assms(5) time_parts [of t] by (simp add: h_def mi_def sec_def ms_def pos_imp_zdiv_nonneg_iff)
  with len cs bounds assms(1,3) show ?thesis
    unfolding parse_tail_def nums using assms(7,8) by (simp add: Let_def)
qed

text \<open>Parsing what was printed gives the time value back, over the whole range of dates.\<close>

definition max_time :: int where
  "max_time = 8640000000000000"

lemma parse_iso_of_ms:
  assumes "\<bar>n\<bar> \<le> max_time"
  shows "parse_iso (iso_of_ms n) = Some n"
proof -
  obtain y m d where c: "civil_of_days (n div 86400000) = (y, m, d)" by (cases "civil_of_days (n div 86400000)")
  note dc = days_of_civil_of_days [OF c]
  have "\<bar>n div 86400000\<bar> \<le> 100000000" using assms unfolding max_time_def by linarith
  note y = civil_year_bound [OF c this]
  with dc c have tail: "parse_tail y (iso_tail m d (n mod 86400000)) = Some n"
    by (subst parse_iso_tail [where days = "n div 86400000"]) auto
  show ?thesis
  proof (cases "0 \<le> y \<and> y \<le> 9999")
    case True
    then have y4: "nat y < 10 ^ 4" by (simp add: nat_less_iff)
    obtain c cs where p: "pad 4 (nat y) = c # cs" by (cases "pad 4 (nat y)") (use length_pad [of 4 "nat y"] in auto)
    obtain k where "k < 10" "c = digit k" using pad_digits [of c 4 "nat y"] p by auto
    then have "(of_char c :: nat) = 48 + k" by simp
    then have "c \<noteq> CHR ''-'' \<and> c \<noteq> CHR ''+''" by auto
    moreover have "num_at (iso_of_ms n) 0 4 = Some (nat y)"
      using y4 True c by (simp add: num_at_def iso_of_ms_def iso_year_def)
    moreover have "drop 4 (iso_of_ms n) = iso_tail m d (n mod 86400000)"
      using True c by (simp add: iso_of_ms_def iso_year_def)
    moreover have "iso_of_ms n = c # cs @ iso_tail m d (n mod 86400000)"
      using True \<open>civil_of_days (n div 86400000) = (y, m, d)\<close> p by (simp add: iso_of_ms_def iso_year_def)
    ultimately show ?thesis using tail True by (simp add: parse_iso_def)
  next
    case False
    then have y6: "nat \<bar>y\<bar> < 10 ^ 6" "nat \<bar>y\<bar> \<noteq> 0" using y by auto
    let ?c = "if y < 0 then CHR ''-'' else CHR ''+''"
    have "iso_of_ms n = ?c # pad 6 (nat \<bar>y\<bar>) @ iso_tail m d (n mod 86400000)"
      using False c by (auto simp: iso_of_ms_def iso_year_def)
    then show ?thesis using tail y6 by (auto simp: parse_iso_def num_at_def)
  qed
qed

section \<open>Date objects\<close>

text \<open>\<open>other\<close> is the implementation's reading of strings in other formats.\<close>

definition parse_date :: "(string \<Rightarrow> int option) \<Rightarrow> string \<Rightarrow> jsval" where
  "parse_date other s =
     (case parse_iso s of Some n \<Rightarrow> Num n | None \<Rightarrow> (case other s of Some n \<Rightarrow> Num n | None \<Rightarrow> NaN))"

fun time_clip :: "jsval \<Rightarrow> jsval" where
  "time_clip (Num n) = (if \<bar>n\<bar> \<le> max_time then Num n else NaN)"
| "time_clip _ = NaN"

text \<open>\<^verbatim>\<open>new Date(v).getTime()\<close>: strings, and objects by their string, are parsed, the rest are numbers.\<close>

definition date_time :: "(string \<Rightarrow> int option) \<Rightarrow> jsval \<Rightarrow> jsval" where
  "date_time other v =
     time_clip (if is_str v \<or> is_ref v then parse_date other (to_str v) else to_num v)"

text \<open>\<^verbatim>\<open>a > b\<close> on numbers.\<close>

definition num_gt :: "jsval \<Rightarrow> jsval \<Rightarrow> bool" where
  "num_gt a b \<longleftrightarrow> num_le b a \<and> \<not> num_le a b"

lemma num_gt_simps [simp]: "num_gt (Num a) (Num b) \<longleftrightarrow> b < a" "\<not> num_gt NaN w" "\<not> num_gt v NaN"
  by (auto simp: num_gt_def)

lemma date_time_cases:
  obtains "date_time other v = NaN" | n where "date_time other v = Num n" "\<bar>n\<bar> \<le> max_time"
proof -
  have "date_time other v = NaN \<or> (\<exists>n. date_time other v = Num n \<and> \<bar>n\<bar> \<le> max_time)"
    unfolding date_time_def by (cases "if is_str v \<or> is_ref v then parse_date other (to_str v) else to_num v") auto
  then show thesis using that by blast
qed

lemma date_time_iso [simp]: "\<bar>n\<bar> \<le> max_time \<Longrightarrow> date_time other (Str (iso_of_ms n)) = Num n"
  by (simp add: date_time_def parse_date_def parse_iso_of_ms)

lemma date_time_Num [simp]: "\<bar>n\<bar> \<le> max_time \<Longrightarrow> date_time other (Num n) = Num n"
  by (simp add: date_time_def)

end
