(* ===== verification/Scheduler.thy ===== *)
theory Scheduler
  imports QueueProperties JsDate
begin

text \<open>
  \<open>SchedulerEngine\<close> (\<^verbatim>\<open>modules/scheduler/engine.js\<close>): schedules kept in a record repository,
  dispatched to the queue when due.
\<close>

section \<open>The engine\<close>

text \<open>
  \<^verbatim>\<open>this.queueEngine\<close> is used through \<^verbatim>\<open>enqueue(taskId, processId)\<close>; \<open>se_dates\<close> is the
  JavaScript implementation's reading of date strings in other formats (theory \<open>JsDate\<close>). The
  subscription of the constructor registers \<open>handleScheduleRequested\<close>.
\<close>

record 's scheduler_engine =
  se_repository :: "'s repository"
  se_enqueue :: "jsval \<Rightarrow> jsval \<Rightarrow> ('s, jsval) act"
  se_eventBus :: "'s bus"
  se_dates :: "string \<Rightarrow> int option"

definition new_SchedulerEngine ::
  "'s repository option \<Rightarrow> (jsval \<Rightarrow> jsval \<Rightarrow> ('s, jsval) act) option \<Rightarrow> 's bus \<Rightarrow> (string \<Rightarrow> int option) \<Rightarrow> js_error + 's scheduler_engine" where
  "new_SchedulerEngine repository queueEngine bus dates =
     (case (repository, queueEngine) of
        (Some R, Some q) \<Rightarrow> Inr \<lparr>se_repository = R, se_enqueue = q, se_eventBus = bus, se_dates = dates\<rparr>
      | _ \<Rightarrow> Inl (TypeError ''SchedulerEngine requires repository and queueEngine''))"

definition schedule :: "'s scheduler_engine \<Rightarrow> jsval \<Rightarrow> jsval \<Rightarrow> jsval \<Rightarrow> jsval \<Rightarrow> ('s, jsval) act" where
  "schedule se i taskId processId runAt =
     (if \<not> truthy i \<or> \<not> truthy taskId \<or> \<not> truthy processId \<or> \<not> truthy runAt
      then throw (TypeError ''Scheduler requires id, taskId, processId and runAt'')
      else bnd (rfind (se_repository se) ''task'' taskId) (\<lambda>task.
        if \<not> truthy task \<or> \<not> strict_eq (field task ''processId'') processId then throw (Error ''TASK_NOT_FOUND'')
        else case date_time (se_dates se) runAt of
          Num timestamp \<Rightarrow>
            bnd (rfind (se_repository se) ''schedule'' i) (\<lambda>existing.
              if truthy existing then throw (Error ''SCHEDULE_EXISTS'')
              else bnd (rsave (se_repository se) ''schedule'' i
                   (Obj [(''id'', i), (''taskId'', taskId), (''processId'', processId),
                         (''runAt'', Str (iso_of_ms timestamp)), (''status'', Str ''scheduled'')])) (\<lambda>result.
                 bnd (publish_on (se_eventBus se)
                   (Obj [(''type'', Str ''schedule.created''), (''scheduleId'', field result ''id''), (''taskId'', field result ''taskId''),
                         (''processId'', field result ''processId''), (''runAt'', field result ''runAt'')])) (\<lambda>_.
                 ret result)))
        | _ \<Rightarrow> throw (Error ''INVALID_RUN_AT'')))"

definition cancel :: "'s scheduler_engine \<Rightarrow> jsval \<Rightarrow> ('s, jsval) act" where
  "cancel se i =
     bnd (rfind (se_repository se) ''schedule'' i) (\<lambda>sched.
       if \<not> truthy sched then throw (Error ''SCHEDULE_NOT_FOUND'')
       else if field sched ''status'' = Str ''dispatched'' then throw (Error ''SCHEDULE_ALREADY_DISPATCHED'')
       else bnd (rsave (se_repository se) ''schedule'' i (spread sched [(''status'', Str ''cancelled'')])) (\<lambda>result.
            bnd (publish_on (se_eventBus se) (Obj [(''type'', Str ''schedule.cancelled''), (''scheduleId'', i)])) (\<lambda>_.
            ret result)))"

definition handleScheduleRequested :: "'s scheduler_engine \<Rightarrow> jsval \<Rightarrow> ('s, jsval) act" where
  "handleScheduleRequested se event =
     (if \<not> truthy event \<or> \<not> truthy (field event ''scheduleId'') \<or> \<not> truthy (field event ''taskId'')
         \<or> \<not> truthy (field event ''processId'') \<or> \<not> truthy (field event ''runAt'')
      then ret Null
      else schedule se (field event ''scheduleId'') (field event ''taskId'') (field event ''processId'') (field event ''runAt''))"

text \<open>\<^verbatim>\<open>item.status !== 'scheduled' || new Date(item.runAt).getTime() > current\<close>, negated.\<close>

definition is_due :: "(string \<Rightarrow> int option) \<Rightarrow> int \<Rightarrow> jsval \<Rightarrow> bool" where
  "is_due dates current item \<longleftrightarrow>
     field item ''status'' = Str ''scheduled'' \<and> \<not> num_gt (date_time dates (field item ''runAt'')) (Num current)"

definition dispatch_item :: "'s scheduler_engine \<Rightarrow> int \<Rightarrow> jsval \<Rightarrow> ('s, jsval option) act" where
  "dispatch_item se current item =
     (if item = Null \<or> item = Undefined then throw null_read_error
      else if \<not> is_due (se_dates se) current item then ret None
      else
        let save = rsave (se_repository se) ''schedule'' (field item ''id'');
            claimed = spread item [(''status'', Str ''dispatching'')];
            completed = spread claimed [(''status'', Str ''dispatched'')]
        in bnd (save claimed) (\<lambda>_.
           try_catch
             (bnd (se_enqueue se (field item ''taskId'') (field item ''processId'')) (\<lambda>_.
              bnd (save completed) (\<lambda>_.
              bnd (publish_on (se_eventBus se)
                (Obj [(''type'', Str ''schedule.dispatched''), (''scheduleId'', field item ''id''),
                      (''taskId'', field item ''taskId''), (''processId'', field item ''processId'')])) (\<lambda>_.
              ret (Some completed)))))
             (\<lambda>error. case message_of error of
                Inl e \<Rightarrow> throw e
              | Inr m \<Rightarrow> bnd (save (spread claimed [(''status'', Str ''scheduled''), (''lastError'', m)])) (\<lambda>_. throw error))))"

definition dispatchDue :: "'s scheduler_engine \<Rightarrow> jsval \<Rightarrow> ('s, jsval list) act" where
  "dispatchDue se now =
     (case date_time (se_dates se) now of
        Num current \<Rightarrow>
          bnd (rall (se_repository se) ''schedule'') (\<lambda>schedules. for_collect (dispatch_item se current) schedules)
      | _ \<Rightarrow> throw (Error ''INVALID_NOW''))"

section \<open>Well-formed schedules\<close>

text \<open>A schedule record is an object stored under its own id, for a task and process named by strings.\<close>

definition schedule_ok :: "string \<Rightarrow> jsval \<Rightarrow> bool" where
  "schedule_ok i v \<longleftrightarrow> i \<noteq> [] \<and> is_obj v \<and> field v ''id'' = Str i \<and> (\<exists>j. j \<noteq> [] \<and> field v ''taskId'' = Str j)
     \<and> is_str (field v ''processId'')"

definition schedules_wf :: "('s \<Rightarrow> string \<Rightarrow> string \<Rightarrow> jsval option) \<Rightarrow> 's \<Rightarrow> bool" where
  "schedules_wf look s \<longleftrightarrow> (\<forall>i v. look s ''schedule'' i = Some v \<longrightarrow> schedule_ok i v)"

text \<open>The task of a schedule exists and belongs to the schedule's process.\<close>

definition task_matches :: "('s \<Rightarrow> string \<Rightarrow> string \<Rightarrow> jsval option) \<Rightarrow> 's \<Rightarrow> jsval \<Rightarrow> bool" where
  "task_matches look s v \<longleftrightarrow>
     (\<exists>j t. field v ''taskId'' = Str j \<and> look s ''task'' j = Some t \<and> strict_eq (field t ''processId'') (field v ''processId''))"

lemma schedule_ok_spread:
  "schedule_ok i v \<Longrightarrow> schedule_ok i (spread v [(''status'', st)])"
  "schedule_ok i v \<Longrightarrow> schedule_ok i (spread v [(''status'', st), (''lastError'', m)])"
  by (auto simp: schedule_ok_def js_simps)

lemma alist_update_twice: "AList.update k v (AList.update k w m) = AList.update k v m"
  by (induction m) auto

lemma spread_twice: "spread (spread v [(k, x)]) [(k, y)] = spread v [(k, y)]"
  by (simp add: spread_def alist_update_twice)

lemma schedule_ok_obj: "schedule_ok i v \<Longrightarrow> v \<noteq> Null \<and> v \<noteq> Undefined \<and> is_obj v \<and> field v ''id'' = Str i \<and> truthy v"
  by (auto simp: schedule_ok_def)

end
