(* ===== verification/SchedulerRefinement.thy ===== *)
theory SchedulerRefinement
  imports Scheduler
begin

text \<open>
  Dispatching over any record repository, with the queue engine on the same repository: what one
  iteration does to a due schedule, and what a whole run does.
\<close>

definition dispatched :: "jsval \<Rightarrow> jsval" where
  "dispatched v = spread v [(''status'', Str ''dispatched'')]"

text \<open>What dispatching the due schedules of a list does to the queue item of task \<open>j\<close>.\<close>

definition requeued ::
  "('s \<Rightarrow> string \<Rightarrow> string \<Rightarrow> jsval option) \<Rightarrow> 's \<Rightarrow> (jsval \<Rightarrow> bool) \<Rightarrow> jsval set \<Rightarrow> string \<Rightarrow> qitem option" where
  "requeued look s due vs j =
     (if \<exists>v \<in> vs. due v \<and> field v ''taskId'' = Str j
      then Some (spec_enqueue (field (the (look s ''task'' j)) ''processId'') (queue_view look s j)) else queue_view look s j)"

lemma spec_enqueue_twice [simp]: "spec_enqueue p (Some (spec_enqueue p x)) = spec_enqueue p x"
  by (simp add: spec_enqueue_def split: option.split)

lemma requeued_step:
  assumes "queue_view look s1 = (queue_view look s)(j := Some (spec_enqueue (field (the (look s ''task'' j)) ''processId'') (queue_view look s j)))"
    and "\<And>k. look s1 ''task'' k = look s ''task'' k" "due v" "field v ''taskId'' = Str j"
  shows "requeued look s1 due vs k = requeued look s due (insert v vs) k"
  using assms by (auto simp: requeued_def)

context record_repository
begin

lemma good_frame:
  assumes "good s" "inv s'" "\<And>k. look s' ''queue'' k = look s ''queue'' k" "\<And>k. look s' ''task'' k = look s ''task'' k"
  shows "good s'" "queue_view look s' = queue_view look s"
proof -
  show v: "queue_view look s' = queue_view look s" by (rule ext) (simp add: queue_view_def assms(3))
  show "good s'"
    using assms(1,2) by (simp add: store_ok_def queue_wf_def tasks_wf_def done_ok_def v assms(3,4))
qed

lemma enqueue_resolves:
  assumes "good s" "okty ''queue''" "okty ''task''" "i \<noteq> []" "qe_repository qe = R" "storable p"
    and "look s ''task'' i = Some t" "strict_eq (field t ''processId'') p"
  obtains r s' where "enqueue qe (Str i) p s = (Inr r, s')" "good s'"
    "\<And>ty k. okty ty \<Longrightarrow> ty \<noteq> ''queue'' \<Longrightarrow> look s' ty k = look s ty k"
    "queue_view look s' = (queue_view look s)(i := Some (spec_enqueue (field t ''processId'') (queue_view look s i)))"
proof -
  have ok: "inv s" "queue_wf look s" "tasks_wf look s" using assms(1) by (auto simp: store_ok_def)
  obtain pid st where "stored_task i pid st t" using tasks_wfD [OF ok(3), OF assms(7)] .
  then have t: "truthy t" by (rule stored_task_simps)
  have p: "field t ''processId'' = p" using assms(8) by (simp add: strict_eq_def)
  let ?q = "spec_enqueue p (queue_view look s i)"
  note run = enqueue_refines [OF ok(1) assms(2-5) ok(2) assms(7) t assms(8,6)]
  have sv: "served inv look 0 i (Enqueue p) s (snd (enqueue qe (Str i) p s))"
    by (rule enqueue_served [OF assms(1-6)])
  show thesis
  proof (cases "queue_view look s i = Some ?q")
    case True
    then have "enqueue qe (Str i) p s = (Inr (encode i ?q), s)" using run by simp
    then show thesis by (rule that) (use assms(1) True p in \<open>auto simp: fun_upd_idem\<close>)
  next
    case False
    then have r: "enqueue qe (Str i) p s = (Inr (encode i ?q), put ''queue'' i (encode i ?q) s)" using run by simp
    have "queue_view look (put ''queue'' i (encode i ?q) s) = (queue_view look s)(i := Some ?q)"
      using ok(1) assms(2,4) by (intro ext) (simp add: queue_view_def look_put)
    with r show thesis
      using ok(1) assms(2,4) sv p by (intro that [OF r]) (auto simp: served_def look_put)
  qed
qed

lemma put_schedule:
  assumes "good s" "okty ''schedule''" "okty ''queue''" "okty ''task''" "i \<noteq> []" "storable v"
  shows "good (put ''schedule'' i v s)" "queue_view look (put ''schedule'' i v s) = queue_view look s"
    "\<And>k. look (put ''schedule'' i v s) ''task'' k = look s ''task'' k"
    "\<And>k. look (put ''schedule'' i v s) ''schedule'' k = (if k = i then Some v else look s ''schedule'' k)"
proof -
  have inv: "inv s" using assms(1) by (simp add: store_ok_def)
  have inv': "inv (put ''schedule'' i v s)" by (rule inv_put [OF inv assms(2,5,6)])
  show "good (put ''schedule'' i v s)" "queue_view look (put ''schedule'' i v s) = queue_view look s"
    by (rule good_frame [OF assms(1) inv']; simp add: look_put [OF inv assms(2)] assms(3-5))+
  show "\<And>k. look (put ''schedule'' i v s) ''task'' k = look s ''task'' k"
    "\<And>k. look (put ''schedule'' i v s) ''schedule'' k = (if k = i then Some v else look s ''schedule'' k)"
    by (simp_all add: look_put [OF inv assms(2)] assms(2-5))
qed

text \<open>One due schedule whose task is there.\<close>

lemma dispatch_due_item:
  assumes "good s" "okty ''schedule''" "okty ''queue''" "okty ''task''"
    and "se_repository se = R" "se_enqueue se = enqueue qe" "se_eventBus se = None" "qe_repository qe = R"
    and "schedule_ok i v" "storable v" "is_due (se_dates se) now v"
    and "field v ''taskId'' = Str j" "look s ''task'' j = Some t" "strict_eq (field t ''processId'') (field v ''processId'')"
  obtains s' where "dispatch_item se now v s = (Inr (Some (dispatched v)), s')" "good s'"
    "\<And>k. look s' ''task'' k = look s ''task'' k"
    "\<And>k. look s' ''schedule'' k = (if k = i then Some (dispatched v) else look s ''schedule'' k)"
    "queue_view look s' = (queue_view look s)(j := Some (spec_enqueue (field t ''processId'') (queue_view look s j)))"
proof -
  note v = schedule_ok_obj [OF assms(9)]
  have i: "i \<noteq> []" and j: "j \<noteq> []" and p: "storable (field v ''processId'')"
    using assms(9,12) by (auto simp: schedule_ok_def intro!: storable_json) (cases "field v ''processId''"; simp)
  have st: "storable (spread v [(''status'', Str x)])" for x
    using assms(10) by (rule storable_spread) (auto intro: storable_json)
  let ?s1 = "put ''schedule'' i (spread v [(''status'', Str ''dispatching'')]) s"
  note s1 = put_schedule [OF assms(1-4) i st, of "''dispatching''"]
  have t1: "look ?s1 ''task'' j = Some t" using s1(3) assms(13) by simp
  obtain r s2 where s2: "enqueue qe (Str j) (field v ''processId'') ?s1 = (Inr r, s2)" "good s2"
    "\<And>ty k. okty ty \<Longrightarrow> ty \<noteq> ''queue'' \<Longrightarrow> look s2 ty k = look ?s1 ty k"
    "queue_view look s2 = (queue_view look ?s1)(j := Some (spec_enqueue (field t ''processId'') (queue_view look ?s1 j)))"
    by (rule enqueue_resolves [OF s1(1) assms(3,4) j assms(8) p t1 assms(14)]) (rule that; simp)
  note s3 = put_schedule [OF s2(2) assms(2-4) i st, of "''dispatched''"]
  have inv: "inv s" "inv s2" using assms(1) s2(2) by (simp_all add: store_ok_def)
  have run: "dispatch_item se now v s = (Inr (Some (dispatched v)), put ''schedule'' i (dispatched v) s2)"
    using v assms(5-7,11,12) s2(1) st
    by (simp add: dispatch_item_def Let_def bnd_def save_law [OF inv(1) assms(2) i] save_law [OF inv(2) assms(2) i]
        try_catch_def publish_on_def spread_twice dispatched_def)
  show thesis
    by (rule that [OF run]) (use s1 s2 s3 assms(2,4) in \<open>auto simp: dispatched_def\<close>)
qed

text \<open>One schedule, due or not.\<close>

lemma dispatch_item_effect:
  assumes "good s" "okty ''schedule''" "okty ''queue''" "okty ''task''"
    and "se_repository se = R" "se_enqueue se = enqueue qe" "se_eventBus se = None" "qe_repository qe = R"
    and "schedule_ok i v" "storable v" "is_due (se_dates se) now v \<longrightarrow> task_matches look s v"
  obtains s' where
    "dispatch_item se now v s = (Inr (if is_due (se_dates se) now v then Some (dispatched v) else None), s')" "good s'"
    "\<And>k. look s' ''task'' k = look s ''task'' k"
    "\<And>k. look s' ''schedule'' k = (if k = i \<and> is_due (se_dates se) now v then Some (dispatched v) else look s ''schedule'' k)"
    "queue_view look s' = requeued look s (is_due (se_dates se) now) {v}"
proof (cases "is_due (se_dates se) now v")
  case False
  then have "dispatch_item se now v s = (Inr None, s)"
    using schedule_ok_obj [OF assms(9)] by (simp add: dispatch_item_def)
  then show thesis using assms(1) False by (intro that [of s]) (auto simp: requeued_def)
next
  case True
  obtain j t where j: "field v ''taskId'' = Str j" "look s ''task'' j = Some t" "strict_eq (field t ''processId'') (field v ''processId'')"
    using assms(11) True by (auto simp: task_matches_def)
  obtain s1 where s1: "dispatch_item se now v s = (Inr (Some (dispatched v)), s1)" "good s1"
    "\<And>k. look s1 ''task'' k = look s ''task'' k"
    "\<And>k. look s1 ''schedule'' k = (if k = i then Some (dispatched v) else look s ''schedule'' k)"
    "queue_view look s1 = (queue_view look s)(j := Some (spec_enqueue (field t ''processId'') (queue_view look s j)))"
    by (rule dispatch_due_item [OF assms(1-10) True j]) (rule that; simp)
  have "queue_view look s1 = requeued look s (is_due (se_dates se) now) {v}"
    unfolding s1(5) using True j(1,2) by (auto simp: requeued_def fun_eq_iff)
  with s1 True show thesis by (intro that [of s1]) simp_all
qed

lemma requeued_append:
  assumes "queue_view look s1 = requeued look s due {v}" "\<And>k. look s1 ''task'' k = look s ''task'' k"
  shows "requeued look s1 due vs j = requeued look s due (insert v vs) j"
  using assms by (auto simp: requeued_def)

text \<open>A run over a list of snapshots \<open>f\<close>, all of whose due schedules have their task.\<close>

definition swept ::
  "'s scheduler_engine \<Rightarrow> int \<Rightarrow> (string \<Rightarrow> jsval option) \<Rightarrow> jsval list \<Rightarrow> 's \<Rightarrow> 's \<Rightarrow> bool" where
  "swept se now f xs s s' \<longleftrightarrow> good s' \<and> (\<forall>k. look s' ''task'' k = look s ''task'' k)
     \<and> (\<forall>k. look s' ''schedule'' k = (case f k of Some v \<Rightarrow> if v \<in> set xs \<and> is_due (se_dates se) now v then Some (dispatched v)
           else look s ''schedule'' k | None \<Rightarrow> look s ''schedule'' k))
     \<and> (\<forall>j. queue_view look s' j = requeued look s (is_due (se_dates se) now) (set xs) j)"

lemma dispatch_sweep:
  assumes "okty ''schedule''" "okty ''queue''" "okty ''task''"
    and "se_repository se = R" "se_enqueue se = enqueue qe" "se_eventBus se = None" "qe_repository qe = R"
    and "good s" "\<forall>v \<in> set xs. \<exists>i. f i = Some v \<and> schedule_ok i v \<and> storable v \<and> (is_due (se_dates se) now v \<longrightarrow> task_matches look s v)"
    and "\<forall>i v. f i = Some v \<longrightarrow> field v ''id'' = Str i"
  shows "\<exists>s'. for_collect (dispatch_item se now) xs s = (Inr (map dispatched (filter (is_due (se_dates se) now) xs)), s')
    \<and> swept se now f xs s s'"
  using assms(8,9)
proof (induction xs arbitrary: s)
  case Nil
  then show ?case by (simp add: swept_def requeued_def split: option.split)
next
  case (Cons v xs)
  obtain i where f: "f i = Some v" and v: "schedule_ok i v" "storable v" "is_due (se_dates se) now v \<longrightarrow> task_matches look s v"
    using Cons.prems(2) by auto
  obtain s1 where s1: "dispatch_item se now v s = (Inr (if is_due (se_dates se) now v then Some (dispatched v) else None), s1)"
    "good s1" "\<And>k. look s1 ''task'' k = look s ''task'' k"
    "\<And>k. look s1 ''schedule'' k = (if k = i \<and> is_due (se_dates se) now v then Some (dispatched v) else look s ''schedule'' k)"
    "queue_view look s1 = requeued look s (is_due (se_dates se) now) {v}"
    by (rule dispatch_item_effect [OF Cons.prems(1) assms(1-7) v]) (rule that; simp)
  have "\<forall>v \<in> set xs. \<exists>i. f i = Some v \<and> schedule_ok i v \<and> storable v \<and> (is_due (se_dates se) now v \<longrightarrow> task_matches look s1 v)"
    using Cons.prems(2) by (auto simp: task_matches_def s1(3))
  from Cons.IH [OF s1(2) this] obtain s' where
    s': "for_collect (dispatch_item se now) xs s1 = (Inr (map dispatched (filter (is_due (se_dates se) now) xs)), s')"
    and sw: "swept se now f xs s1 s'" by blast
  have "for_collect (dispatch_item se now) (v # xs) s = (Inr (map dispatched (filter (is_due (se_dates se) now) (v # xs))), s')"
    by (simp add: bnd_def s1(1) s')
  moreover have "swept se now f (v # xs) s s'"
  proof -
    have sched: "look s' ''schedule'' k = (case f k of Some w \<Rightarrow> if w \<in> set (v # xs) \<and> is_due (se_dates se) now w then Some (dispatched w)
          else look s ''schedule'' k | None \<Rightarrow> look s ''schedule'' k)" for k
    proof (cases "k = i")
      case True
      then show ?thesis using sw f by (simp add: swept_def s1(4))
    next
      case False
      then have k: "f k \<noteq> Some v" using assms(10) [rule_format, of k v] assms(10) [rule_format, OF f] by auto
      have same: "look s1 ''schedule'' k = look s ''schedule'' k" using s1(4) False by simp
      have "look s' ''schedule'' k = (case f k of Some w \<Rightarrow> if w \<in> set xs \<and> is_due (se_dates se) now w then Some (dispatched w)
          else look s1 ''schedule'' k | None \<Rightarrow> look s1 ''schedule'' k)"
        using sw unfolding swept_def by blast
      then have "look s' ''schedule'' k = (case f k of Some w \<Rightarrow> if w \<in> set xs \<and> is_due (se_dates se) now w then Some (dispatched w)
          else look s ''schedule'' k | None \<Rightarrow> look s ''schedule'' k)"
        unfolding same .
      with k show ?thesis by (simp split: option.split)
    qed
    have "queue_view look s' j = requeued look s (is_due (se_dates se) now) (set (v # xs)) j" for j
      using sw requeued_append [OF s1(5,3)] by (simp add: swept_def)
    with sw sched show ?thesis by (simp add: swept_def s1(3))
  qed
  ultimately show ?case by blast
qed

text \<open>A whole run of \<open>dispatchDue\<close>.\<close>

lemma dispatchDue_run:
  assumes "okty ''schedule''" "okty ''queue''" "okty ''task''"
    and "se_repository se = R" "se_enqueue se = enqueue qe" "se_eventBus se = None" "qe_repository qe = R"
    and "good s" "schedules_wf look s" "date_time (se_dates se) now = Num current"
    and "\<And>i v. look s ''schedule'' i = Some v \<Longrightarrow> is_due (se_dates se) current v \<Longrightarrow> task_matches look s v"
  obtains s' where
    "dispatchDue se now s = (Inr (map dispatched (filter (is_due (se_dates se) current) (listing s ''schedule''))), s')" "good s'"
    "\<And>k. look s' ''task'' k = look s ''task'' k"
    "\<And>k. look s' ''schedule'' k =
       map_option (\<lambda>v. if is_due (se_dates se) current v then dispatched v else v) (look s ''schedule'' k)"
    "\<And>j. queue_view look s' j = requeued look s (is_due (se_dates se) current) {v. \<exists>i. look s ''schedule'' i = Some v} j"
proof -
  have inv: "inv s" using assms(8) by (simp add: store_ok_def)
  have set: "set (listing s ''schedule'') = {v. \<exists>i. look s ''schedule'' i = Some v}" using inv assms(1) by (rule set_listing)
  have ok: "schedule_ok i v" if "look s ''schedule'' i = Some v" for i v using assms(9) that by (simp add: schedules_wf_def)
  obtain s' where s': "for_collect (dispatch_item se current) (listing s ''schedule'') s =
      (Inr (map dispatched (filter (is_due (se_dates se) current) (listing s ''schedule''))), s')"
    and sw: "swept se current (look s ''schedule'') (listing s ''schedule'') s s'"
  proof -
    have "\<forall>v \<in> set (listing s ''schedule''). \<exists>i. look s ''schedule'' i = Some v \<and> schedule_ok i v \<and> storable v
        \<and> (is_due (se_dates se) current v \<longrightarrow> task_matches look s v)"
      unfolding set using ok assms(11) look_storable [OF inv assms(1)] by blast
    moreover have "\<forall>i v. look s ''schedule'' i = Some v \<longrightarrow> field v ''id'' = Str i" using ok schedule_ok_obj by blast
    ultimately show thesis using dispatch_sweep [OF assms(1-8)] that by blast
  qed
  show thesis
  proof (rule that [of s'])
    show "dispatchDue se now s = (Inr (map dispatched (filter (is_due (se_dates se) current) (listing s ''schedule''))), s')"
      using assms(4,10) s' by (simp add: dispatchDue_def bnd_def all_law [OF inv assms(1)])
    show "look s' ''schedule'' k =
       map_option (\<lambda>v. if is_due (se_dates se) current v then dispatched v else v) (look s ''schedule'' k)" for k
      using sw by (auto simp: swept_def set split: option.split)
  qed (use sw in \<open>simp_all add: swept_def set\<close>)
qed

end

end
