(* ===== verification/SchedulerProperties.thy ===== *)
theory SchedulerProperties
  imports SchedulerRefinement
begin

text \<open>
  The scheduler on the in-memory repository, with the queue engine on the same repository.
\<close>

section \<open>The engine on the in-memory repository\<close>

definition mem_scheduler :: "'z mem_repo_scheme bus \<Rightarrow> (string \<Rightarrow> int option) \<Rightarrow> 'z mem_repo_scheme scheduler_engine" where
  "mem_scheduler bus dates =
     \<lparr>se_repository = mem_repository, se_enqueue = enqueue mem_queue, se_eventBus = bus, se_dates = dates\<rparr>"

lemma mem_scheduler_simps [simp]:
  "se_repository (mem_scheduler bus dates) = mem_repository" "se_enqueue (mem_scheduler bus dates) = enqueue mem_queue"
  "se_eventBus (mem_scheduler bus dates) = bus" "se_dates (mem_scheduler bus dates) = dates"
  "new_SchedulerEngine (Some mem_repository) (Some (enqueue mem_queue)) bus dates = Inr (mem_scheduler bus dates)"
  by (simp_all add: mem_scheduler_def new_SchedulerEngine_def)

lemma schedule_type [simp]: "segment ''schedule''"
  by (simp add: segment_def colon_def)

abbreviation sched :: "'z mem_repo_scheme \<Rightarrow> string \<Rightarrow> jsval option" where
  "sched s \<equiv> mem_look s ''schedule''"

text \<open>A store with two tasks and three schedules: due at 50, due at 150, cancelled.\<close>

definition demo_sched :: "string \<Rightarrow> string \<Rightarrow> int \<Rightarrow> string \<Rightarrow> jsval" where
  "demo_sched i j t st = Obj [(''id'', Str i), (''taskId'', Str j), (''processId'', Str ''p1''), (''runAt'', Str (iso_of_ms t)), (''status'', Str st)]"

definition demo_plan :: mem_repo where
  "demo_plan = \<lparr>records = [(''task:a'', demo_task ''a'' Pending), (''task:b'', demo_task ''b'' Pending),
     (''schedule:x'', demo_sched ''x'' ''a'' 50 ''scheduled''), (''schedule:y'', demo_sched ''y'' ''b'' 150 ''scheduled''),
     (''schedule:z'', demo_sched ''z'' ''b'' 10 ''cancelled'')]\<rparr>"

lemma demo_plan_look:
  "mem_look demo_plan ''task'' i =
     (if i = ''a'' then Some (demo_task ''a'' Pending) else if i = ''b'' then Some (demo_task ''b'' Pending) else None)"
  "sched demo_plan i = (if i = ''x'' then Some (demo_sched ''x'' ''a'' 50 ''scheduled'')
     else if i = ''y'' then Some (demo_sched ''y'' ''b'' 150 ''scheduled'')
     else if i = ''z'' then Some (demo_sched ''z'' ''b'' 10 ''cancelled'') else None)"
  "mem_look demo_plan ''queue'' i = None"
  by (simp_all add: demo_plan_def mem_look_def colon_def)

lemma demo_plan_ok: "mem_ok demo_plan" "schedules_wf mem_look demo_plan"
proof -
  show "schedules_wf mem_look demo_plan"
    by (auto simp: schedules_wf_def demo_plan_look schedule_ok_def demo_sched_def split: if_splits)
  have "mem_inv demo_plan" by (simp add: mem_inv_def demo_plan_def)
  moreover have "queue_wf mem_look demo_plan" "done_ok mem_look demo_plan"
    by (simp_all add: queue_wf_def done_ok_def queue_view_def demo_plan_look)
  moreover have "tasks_wf mem_look demo_plan"
    unfolding tasks_wf_def by (auto simp: demo_plan_look intro: demo_task_stored split: if_splits)
  ultimately show "mem_ok demo_plan" by (simp add: store_ok_def)
qed

lemma demo_sched_due [simp]:
  "\<bar>t\<bar> \<le> max_time \<Longrightarrow> is_due dates now (demo_sched i j t st) \<longleftrightarrow> st = ''scheduled'' \<and> t \<le> now"
  by (auto simp: is_due_def demo_sched_def)

section \<open>Properties\<close>

text \<open>C21: Functional. A dispatch run with every due schedule's task in place succeeds, and its effect
  is exactly this: every schedule still in state scheduled whose time has come is marked dispatched
  and its task is on the queue, live; no schedule that lies in the future, is cancelled or was
  dispatched before is touched; no task changes; and the run returns the dispatched schedules.\<close>

theorem dispatch_due_exactly:
  fixes s :: "'z mem_repo_scheme"
  assumes "mem_ok s" "schedules_wf mem_look s" "date_time dates now = Num current"
    and "\<forall>i v. sched s i = Some v \<longrightarrow> is_due dates current v \<longrightarrow> task_matches mem_look s v"
  shows "\<exists>xs s'. dispatchDue (mem_scheduler None dates) now s = (Inr xs, s') \<and> mem_ok s'
    \<and> (\<forall>k. sched s' k = map_option (\<lambda>v. if is_due dates current v then dispatched v else v) (sched s k))
    \<and> (\<forall>k. mem_look s' ''task'' k = mem_look s ''task'' k)
    \<and> (\<forall>j. mem_view s' j = requeued mem_look s (is_due dates current) {v. \<exists>i. sched s i = Some v} j)
    \<and> (\<forall>i v j. sched s i = Some v \<longrightarrow> is_due dates current v \<longrightarrow> field v ''taskId'' = Str j \<longrightarrow>
         (\<exists>q. mem_view s' j = Some q \<and> q_lease q \<noteq> Done))
    \<and> set xs = {dispatched v | v. \<exists>i. sched s i = Some v \<and> is_due dates current v}"
proof -
  have inv: "mem_inv s" using assms(1) by (simp add: store_ok_def)
  obtain s' where s': "dispatchDue (mem_scheduler None dates) now s =
      (Inr (map dispatched (filter (is_due dates current) (mem_listing s ''schedule''))), s')" "mem_ok s'"
    "\<And>k. mem_look s' ''task'' k = mem_look s ''task'' k"
    "\<And>k. sched s' k = map_option (\<lambda>v. if is_due dates current v then dispatched v else v) (sched s k)"
    "\<And>j. mem_view s' j = requeued mem_look s (is_due dates current) {v. \<exists>i. sched s i = Some v} j"
    by (rule mem.dispatchDue_run [where se = "mem_scheduler None dates" and qe = mem_queue and s = s and now = now and current = current])
      (use assms in auto)
  have live: "\<exists>q. mem_view s' j = Some q \<and> q_lease q \<noteq> Done"
    if "sched s i = Some v" "is_due dates current v" "field v ''taskId'' = Str j" for i v j
    using that by (auto simp: s'(5) requeued_def spec_enqueue_def split: option.split)
  have "set (mem_listing s ''schedule'') = {v. \<exists>i. sched s i = Some v}" using mem.set_listing [OF inv] by simp
  then have "set (map dispatched (filter (is_due dates current) (mem_listing s ''schedule'')))
      = {dispatched v | v. \<exists>i. sched s i = Some v \<and> is_due dates current v}" by auto
  with s' live show ?thesis by blast
qed

theorem dispatch_due_exactly_witness:
  "\<exists>xs s'. dispatchDue (mem_scheduler None (\<lambda>_. None)) (Num 100) demo_plan = (Inr xs, s')
     \<and> sched s' ''x'' = Some (dispatched (demo_sched ''x'' ''a'' 50 ''scheduled''))
     \<and> sched s' ''y'' = Some (demo_sched ''y'' ''b'' 150 ''scheduled'')"
proof -
  have "\<forall>i v. sched demo_plan i = Some v \<longrightarrow> is_due (\<lambda>_. None) 100 v \<longrightarrow> task_matches mem_look demo_plan v"
    by (auto simp: demo_plan_look task_matches_def demo_sched_def demo_task_def strict_eq_def is_due_def split: if_splits)
  from dispatch_due_exactly [OF demo_plan_ok _ this, of "Num 100"]
  show ?thesis by (force simp: demo_plan_look max_time_def)
qed

text \<open>Safety. Dispatching is idempotent: a second run at the same or an earlier time dispatches
  nothing and changes nothing, so no schedule is dispatched twice by runs that succeed.\<close>

theorem second_dispatch_is_idle:
  fixes s :: "'z mem_repo_scheme"
  assumes "mem_ok s" "schedules_wf mem_look s" "date_time dates now = Num current" "date_time dates now' = Num current'"
    and "current' \<le> current"
    and "\<forall>i v. sched s i = Some v \<longrightarrow> is_due dates current v \<longrightarrow> task_matches mem_look s v"
  shows "\<exists>xs s'. dispatchDue (mem_scheduler None dates) now s = (Inr xs, s')
    \<and> dispatchDue (mem_scheduler None dates) now' s' = (Inr [], s')"
proof -
  have inv: "mem_inv s" using assms(1) by (simp add: store_ok_def)
  obtain xs s' where s': "dispatchDue (mem_scheduler None dates) now s = (Inr xs, s')" "mem_ok s'"
    "\<And>k. sched s' k = map_option (\<lambda>v. if is_due dates current v then dispatched v else v) (sched s k)"
    by (rule mem.dispatchDue_run [where se = "mem_scheduler None dates" and qe = mem_queue and s = s and now = now and current = current])
      (use assms in auto)
  have inv': "mem_inv s'" using s'(2) by (simp add: store_ok_def)
  have ok: "schedule_ok i v \<and> \<not> is_due dates current' v" if i: "sched s' i = Some v" for i v
  proof -
    obtain w where w: "sched s i = Some w" "v = (if is_due dates current w then dispatched w else w)"
      using i by (auto simp: s'(3))
    then have wok: "schedule_ok i w" using assms(2) by (simp add: schedules_wf_def)
    then have "schedule_ok i v" using w(2) by (simp add: dispatched_def schedule_ok_spread)
    moreover have "\<not> is_due dates current' v"
    proof (cases "is_due dates current w")
      case True
      then show ?thesis using w(2) schedule_ok_obj [OF wok] by (simp add: is_due_def dispatched_def js_simps)
    next
      case False
      then show ?thesis using w(2) assms(5)
        by (cases rule: date_time_cases [of dates "field w ''runAt''"]) (auto simp: is_due_def)
    qed
    ultimately show ?thesis by simp
  qed
  have idle: "for_collect (dispatch_item (mem_scheduler None dates) current') vs s' = (Inr [], s')"
    if "\<forall>v \<in> set vs. \<exists>i. sched s' i = Some v" for vs
    using that
  proof (induction vs)
    case (Cons v vs)
    then obtain i where "sched s' i = Some v" by auto
    from ok [OF this] have "dispatch_item (mem_scheduler None dates) current' v s' = (Inr None, s')"
      using schedule_ok_obj [of i v] by (simp add: dispatch_item_def)
    then show ?case using Cons by (simp add: bnd_def)
  qed simp
  have "\<forall>v \<in> set (mem_listing s' ''schedule''). \<exists>i. sched s' i = Some v"
    using mem.set_listing [OF inv', of "''schedule''"] by simp
  then have "dispatchDue (mem_scheduler None dates) now' s' = (Inr [], s')"
    using idle by (simp add: dispatchDue_def assms(4) bnd_def mem.all_law [OF inv', simplified])
  with s'(1) show ?thesis by blast
qed

theorem second_dispatch_is_idle_witness:
  "\<exists>xs s'. dispatchDue (mem_scheduler None (\<lambda>_. None)) (Num 100) demo_plan = (Inr xs, s')
     \<and> dispatchDue (mem_scheduler None (\<lambda>_. None)) (Num 99) s' = (Inr [], s')"
proof -
  have "\<forall>i v. sched demo_plan i = Some v \<longrightarrow> is_due (\<lambda>_. None) 100 v \<longrightarrow> task_matches mem_look demo_plan v"
    by (auto simp: demo_plan_look task_matches_def demo_sched_def demo_task_def strict_eq_def is_due_def split: if_splits)
  from second_dispatch_is_idle [OF demo_plan_ok _ _ _ this, of "Num 100" "Num 99" 99]
  show ?thesis by (simp add: max_time_def)
qed

text \<open>Functional. Scheduling is accepted exactly when the task exists in the named process, the time
  is a date and the id is free, and then stores the time in normal form: what \<^verbatim>\<open>new Date\<close> later
  reads back from the record is the very time that was asked for. Each refusal has its own error
  and changes nothing.\<close>

theorem schedule_contract:
  fixes s :: "'z mem_repo_scheme"
  assumes "mem_ok s" "schedules_wf mem_look s" "i \<noteq> []" "j \<noteq> []" "p \<noteq> []" "truthy at"
  shows "schedule (mem_scheduler None dates) (Str i) (Str j) (Str p) at s =
      (if \<nexists>t. mem_look s ''task'' j = Some t \<and> strict_eq (field t ''processId'') (Str p) then (Inl (Error ''TASK_NOT_FOUND''), s)
       else case date_time dates at of
         Num n \<Rightarrow> if sched s i \<noteq> None then (Inl (Error ''SCHEDULE_EXISTS''), s)
                  else (let v = Obj [(''id'', Str i), (''taskId'', Str j), (''processId'', Str p),
                                     (''runAt'', Str (iso_of_ms n)), (''status'', Str ''scheduled'')]
                        in (Inr v, mem_put ''schedule'' i v s))
       | _ \<Rightarrow> (Inl (Error ''INVALID_RUN_AT''), s))
    \<and> (\<forall>n. date_time dates at = Num n \<longrightarrow> date_time dates (Str (iso_of_ms n)) = Num n)
    \<and> mem_ok (snd (schedule (mem_scheduler None dates) (Str i) (Str j) (Str p) at s))
    \<and> schedules_wf mem_look (snd (schedule (mem_scheduler None dates) (Str i) (Str j) (Str p) at s))"
proof -
  have ok: "mem_inv s" "tasks_wf mem_look s" using assms(1) by (auto simp: store_ok_def)
  have task: "truthy (or_null (mem_look s ''task'' j)) \<and> strict_eq (field (or_null (mem_look s ''task'' j)) ''processId'') (Str p)
      \<longleftrightarrow> (\<exists>t. mem_look s ''task'' j = Some t \<and> strict_eq (field t ''processId'') (Str p))"
    using ok(2) by (cases "mem_look s ''task'' j") (auto simp: stored_task_simps elim: tasks_wfD)
  have exists: "truthy (or_null (sched s i)) \<longleftrightarrow> sched s i \<noteq> None"
    using assms(2) schedule_ok_obj [of i] by (cases "sched s i") (auto simp: schedules_wf_def)
  let ?v = "\<lambda>n. Obj [(''id'', Str i), (''taskId'', Str j), (''processId'', Str p), (''runAt'', Str (iso_of_ms n)), (''status'', Str ''scheduled'')]"
  have run: "schedule (mem_scheduler None dates) (Str i) (Str j) (Str p) at s =
      (if \<nexists>t. mem_look s ''task'' j = Some t \<and> strict_eq (field t ''processId'') (Str p) then (Inl (Error ''TASK_NOT_FOUND''), s)
       else case date_time dates at of
         Num n \<Rightarrow> if sched s i \<noteq> None then (Inl (Error ''SCHEDULE_EXISTS''), s) else (Inr (?v n), mem_put ''schedule'' i (?v n) s)
       | _ \<Rightarrow> (Inl (Error ''INVALID_RUN_AT''), s))"
    using assms(3-6) task exists mem.find_law [OF ok(1) _ assms(4), of "''task''"] mem.find_law [OF ok(1) _ assms(3), of "''schedule''"]
      mem.save_law [OF ok(1) _ assms(3), of "''schedule''"]
    by (cases rule: date_time_cases [of dates at]) (auto simp: schedule_def bnd_def publish_on_def)
  have put: "mem_ok (mem_put ''schedule'' i (?v n) s)" "schedules_wf mem_look (mem_put ''schedule'' i (?v n) s)" for n
    using mem.put_schedule [OF assms(1) _ _ _ assms(3), of "?v n", simplified] assms(2-4)
    by (auto simp: schedules_wf_def schedule_ok_def)
  have "date_time dates (Str (iso_of_ms n)) = Num n" if "date_time dates at = Num n" for n
    using that by (cases rule: date_time_cases [of dates at]) auto
  with put assms(1,2) show ?thesis unfolding run Let_def
    by (cases rule: date_time_cases [of dates at]) auto
qed

theorem schedule_contract_witness:
  "\<exists>v s'. schedule (mem_scheduler None (\<lambda>_. None)) (Str ''w'') (Str ''a'') (Str ''p1'') (Num 70) demo_plan = (Inr v, s')
     \<and> date_time (\<lambda>_. None) (field v ''runAt'') = Num 70"
  using schedule_contract [OF demo_plan_ok, of "''w''" "''a''" "''p1''" "Num 70" "\<lambda>_. None"]
  by (simp add: demo_plan_look demo_task_def strict_eq_def max_time_def Let_def)

text \<open>The record a failed dispatch leaves: armed again, with the error noted.\<close>

definition rearmed :: "string \<Rightarrow> jsval \<Rightarrow> jsval" where
  "rearmed m v = spread (spread v [(''status'', Str ''dispatching'')]) [(''status'', Str ''scheduled''), (''lastError'', Str m)]"

lemma rearmed_due: "schedule_ok i v \<Longrightarrow> is_due dates now v \<Longrightarrow> is_due dates now (rearmed m v) \<and> schedule_ok i (rearmed m v)"
  by (auto simp: is_due_def rearmed_def schedule_ok_def js_simps)

text \<open>A due schedule at the head of the listing whose body rejects: the run ends there.\<close>

lemma dispatch_head_fails:
  fixes s :: "'z mem_repo_scheme"
  assumes "mem_ok s" "schedule_ok i v" "is_due dates current v" "mem_listing s ''schedule'' = v # vs"
    and "date_time dates now = Num current"
    and "bnd (enqueue mem_queue (field v ''taskId'') (field v ''processId'')) (\<lambda>_.
         bnd (mem_save ''schedule'' (Str i) (dispatched v)) (\<lambda>_.
         bnd (publish_on bus (Obj [(''type'', Str ''schedule.dispatched''), (''scheduleId'', Str i),
           (''taskId'', field v ''taskId''), (''processId'', field v ''processId'')])) (\<lambda>_. ret (Some (dispatched v)))))
         (mem_put ''schedule'' i (spread v [(''status'', Str ''dispatching'')]) s) = (Inl (Error m), s2)"
    and "mem_inv s2"
  shows "dispatchDue (mem_scheduler bus dates) now s = (Inl (Error m), mem_put ''schedule'' i (rearmed m v) s2)"
proof -
  have inv: "mem_inv s" using assms(1) by (simp add: store_ok_def)
  have i: "i \<noteq> []" using assms(2) by (simp add: schedule_ok_def)
  note v = schedule_ok_obj [OF assms(2)]
  have "dispatch_item (mem_scheduler bus dates) current v s = (Inl (Error m), mem_put ''schedule'' i (rearmed m v) s2)"
    using v assms(3,6) mem.save_law [OF inv _ i, of "''schedule''"] mem.save_law [OF assms(7) _ i, of "''schedule''"]
    by (simp add: dispatch_item_def Let_def bnd_def [of "mem_save _ _ (spread v _)"] try_catch_def spread_twice dispatched_def rearmed_def)
      (simp add: bnd_def)
  then show ?thesis
    using mem.all_law [OF inv, of "''schedule''"] assms(4,5) by (simp add: dispatchDue_def bnd_def)
qed

text \<open>Error limit. Dispatch is not atomic with its announcement: when the event bus rejects, the task
  is already on the queue, yet the schedule is armed again and still due, so the next run enqueues
  the task once more and announces it again.\<close>

theorem failed_announcement_rearms:
  fixes s :: "'z mem_repo_scheme"
  assumes "mem_ok s" "schedule_ok i v" "is_due dates current v" "mem_listing s ''schedule'' = v # vs"
    and "date_time dates now = Num current" "field v ''taskId'' = Str j" "task_matches mem_look s v"
  shows "\<exists>s'. dispatchDue (mem_scheduler (Some (\<lambda>event s. (Inl (Error m), s))) dates) now s = (Inl (Error m), s')
    \<and> sched s' i = Some (rearmed m v) \<and> is_due dates current (rearmed m v)
    \<and> (\<exists>q. mem_view s' j = Some q \<and> q_lease q \<noteq> Done)"
proof -
  have i: "i \<noteq> []" and j: "j \<noteq> []" using assms(2,6) by (auto simp: schedule_ok_def)
  obtain t where t: "mem_look s ''task'' j = Some t" "strict_eq (field t ''processId'') (field v ''processId'')"
    using assms(6,7) by (auto simp: task_matches_def)
  let ?s1 = "mem_put ''schedule'' i (spread v [(''status'', Str ''dispatching'')]) s"
  note s1 = mem.put_schedule [OF assms(1) _ _ _ i, of "spread v [(''status'', Str ''dispatching'')]", simplified]
  have t1: "mem_look ?s1 ''task'' j = Some t" using s1(3) t(1) by simp
  obtain r s2 where s2: "enqueue mem_queue (Str j) (field v ''processId'') ?s1 = (Inr r, s2)" "mem_ok s2"
    "mem_view s2 = (mem_view ?s1)(j := Some (spec_enqueue (field t ''processId'') (mem_view ?s1 j)))"
    by (rule mem.enqueue_resolves [OF s1(1) _ _ j _ _ t1 t(2), of mem_queue]) auto
  note s3 = mem.put_schedule [OF s2(2) _ _ _ i, of "dispatched v", simplified]
  have inv: "mem_inv s2" "mem_inv (mem_put ''schedule'' i (dispatched v) s2)" using s2(2) s3(1) by (simp_all add: store_ok_def)
  have "dispatchDue (mem_scheduler (Some (\<lambda>event s. (Inl (Error m), s))) dates) now s
      = (Inl (Error m), mem_put ''schedule'' i (rearmed m v) (mem_put ''schedule'' i (dispatched v) s2))"
    by (rule dispatch_head_fails [OF assms(1-5) _ inv(2)])
      (use mem.save_law [OF inv(1) _ i, of "''schedule''"] s2(1) assms(6) in \<open>simp add: bnd_def publish_on_def\<close>)
  moreover note mem.put_schedule [OF s3(1) _ _ _ i, of "rearmed m v", simplified]
  moreover have "\<exists>q. mem_view s2 j = Some q \<and> q_lease q \<noteq> Done"
    by (auto simp: s2(3) spec_enqueue_def split: option.split)
  ultimately show ?thesis using s3(2) rearmed_due [OF assms(2,3)] by auto
qed

lemma demo_plan_head:
  "mem_listing demo_plan ''schedule'' = demo_sched ''x'' ''a'' 50 ''scheduled'' #
     [demo_sched ''y'' ''b'' 150 ''scheduled'', demo_sched ''z'' ''b'' 10 ''cancelled'']"
  by (simp add: mem_listing_def demo_plan_def colon_def)

lemma demo_x_ok: "schedule_ok ''x'' (demo_sched ''x'' ''a'' 50 ''scheduled'')"
  using demo_plan_ok(2) by (simp add: schedules_wf_def demo_plan_look)

theorem failed_announcement_rearms_witness:
  "\<exists>s'. dispatchDue (mem_scheduler (Some (\<lambda>event s. (Inl (Error ''down''), s))) (\<lambda>_. None)) (Num 100) demo_plan = (Inl (Error ''down''), s')
     \<and> (\<exists>q. mem_view s' ''a'' = Some q \<and> q_lease q \<noteq> Done)"
proof -
  have m: "task_matches mem_look demo_plan (demo_sched ''x'' ''a'' 50 ''scheduled'')"
    by (simp add: task_matches_def demo_sched_def demo_plan_look demo_task_def strict_eq_def)
  have d: "is_due (\<lambda>_. None) 100 (demo_sched ''x'' ''a'' 50 ''scheduled'')" "date_time (\<lambda>_. None) (Num 100) = Num 100"
    "field (demo_sched ''x'' ''a'' 50 ''scheduled'') ''taskId'' = Str ''a''"
    by (simp_all add: max_time_def) (simp add: demo_sched_def)
  show ?thesis
    using failed_announcement_rearms [OF demo_plan_ok(1) demo_x_ok d(1) demo_plan_head d(2,3) m, of "''down''"] by blast
qed

text \<open>Error limit. A due schedule whose task is gone blocks the whole run: the run rejects with
  TASK_NOT_FOUND, the schedule stays armed and due, so every later run rejects at the same place,
  and no schedule listed after it is ever looked at; nothing reaches the queue.\<close>

theorem missing_task_blocks_dispatch:
  fixes s :: "'z mem_repo_scheme"
  assumes "mem_ok s" "schedule_ok i v" "is_due dates current v" "mem_listing s ''schedule'' = v # vs"
    and "date_time dates now = Num current" "\<not> task_matches mem_look s v"
  shows "\<exists>s'. dispatchDue (mem_scheduler bus dates) now s = (Inl (Error ''TASK_NOT_FOUND''), s')
    \<and> sched s' i = Some (rearmed ''TASK_NOT_FOUND'' v) \<and> is_due dates current (rearmed ''TASK_NOT_FOUND'' v)
    \<and> (\<forall>k. k \<noteq> i \<longrightarrow> sched s' k = sched s k) \<and> mem_view s' = mem_view s"
proof -
  have i: "i \<noteq> []" using assms(2) by (simp add: schedule_ok_def)
  obtain j where j: "field v ''taskId'' = Str j" "j \<noteq> []" using assms(2) by (auto simp: schedule_ok_def)
  let ?s1 = "mem_put ''schedule'' i (spread v [(''status'', Str ''dispatching'')]) s"
  note s1 = mem.put_schedule [OF assms(1) _ _ _ i, of "spread v [(''status'', Str ''dispatching'')]", simplified]
  have inv: "mem_inv ?s1" and wf: "tasks_wf mem_look ?s1" using s1(1) by (simp_all add: store_ok_def)
  have "case mem_look ?s1 ''task'' j of None \<Rightarrow> True | Some t \<Rightarrow> is_obj t \<and> \<not> strict_eq (field t ''processId'') (field v ''processId'')"
    using assms(6) j(1) wf by (auto simp: s1(3) task_matches_def stored_task_simps elim!: tasks_wfD split: option.split)
  then have e: "enqueue mem_queue (Str j) (field v ''processId'') ?s1 = (Inl (Error ''TASK_NOT_FOUND''), ?s1)"
    using mem.enqueue_rejects [OF inv _ j(2), of mem_queue] by simp
  have "dispatchDue (mem_scheduler bus dates) now s = (Inl (Error ''TASK_NOT_FOUND''), mem_put ''schedule'' i (rearmed ''TASK_NOT_FOUND'' v) ?s1)"
    by (rule dispatch_head_fails [OF assms(1-5) _ inv]) (simp add: bnd_def j(1) e)
  moreover note mem.put_schedule [OF s1(1) _ _ _ i, of "rearmed ''TASK_NOT_FOUND'' v", simplified]
  ultimately show ?thesis using s1(2,4) rearmed_due [OF assms(2,3)] by auto
qed

theorem missing_task_blocks_dispatch_witness:
  "let s = mem_remove ''task'' ''a'' demo_plan
   in \<exists>s'. dispatchDue (mem_scheduler None (\<lambda>_. None)) (Num 200) s = (Inl (Error ''TASK_NOT_FOUND''), s')
     \<and> sched s' ''y'' = Some (demo_sched ''y'' ''b'' 150 ''scheduled'')"
proof -
  let ?s = "mem_remove ''task'' ''a'' demo_plan"
  have inv: "mem_inv demo_plan" using demo_plan_ok(1) by (simp add: store_ok_def)
  have look: "segment t \<Longrightarrow> mem_look ?s t k = (if t = ''task'' \<and> k = ''a'' then None else mem_look demo_plan t k)" for t k
    using inv by (simp add: mem.look_remove)
  have "mem_ok ?s"
    using demo_plan_ok(1) mem.inv_remove [OF inv, of "''task''" "''a''"]
    by (auto simp: store_ok_def queue_wf_def tasks_wf_def done_ok_def queue_view_def look demo_plan_look split: if_splits)
  moreover have "mem_listing ?s ''schedule'' = demo_sched ''x'' ''a'' 50 ''scheduled'' #
     [demo_sched ''y'' ''b'' 150 ''scheduled'', demo_sched ''z'' ''b'' 10 ''cancelled'']"
    by (simp add: mem_listing_def mem_remove_def demo_plan_def colon_def)
  moreover have "\<not> task_matches mem_look ?s (demo_sched ''x'' ''a'' 50 ''scheduled'')"
    by (simp add: task_matches_def demo_sched_def look)
  ultimately show ?thesis
    using missing_task_blocks_dispatch [OF _ demo_x_ok, of ?s "\<lambda>_. None" 200 _ "Num 200" None]
    by (force simp: max_time_def look demo_plan_look Let_def)
qed

end
