(* ===== verification/Orchestration.thy ===== *)
theory Orchestration
  imports WorkflowProperties JsDate
begin

text \<open>
  Durable orchestration (\<^verbatim>\<open>modules/orchestration\<close>): execution records in a record repository
  (\<open>DurableOrchestrationState\<close>), their recovery, the orchestrator that runs an operation under an
  execution record, and the retry loop of \<open>OrchestrationReliability\<close>. The clock is read from the
  state: \<open>os_now s\<close> is the time value \<^verbatim>\<open>new Date()\<close> would have in state \<open>s\<close>.
\<close>

section \<open>DurableOrchestrationState\<close>

record 's orchestration =
  os_repository :: "'s repository"
  os_now :: "'s \<Rightarrow> int"

definition new_DurableOrchestrationState :: "'s repository option \<Rightarrow> ('s \<Rightarrow> int) \<Rightarrow> js_error + 's orchestration" where
  "new_DurableOrchestrationState repository clock =
     (case repository of
        None \<Rightarrow> Inl (TypeError ''DurableOrchestrationState requires a repository'')
      | Some R \<Rightarrow> Inr \<lparr>os_repository = R, os_now = clock\<rparr>)"

text \<open>\<open>PostgresOrchestrationState\<close>: the same over a tenant-scoped repository.\<close>

definition new_PostgresOrchestrationState ::
  "'s tenant_repository option \<Rightarrow> jsval \<Rightarrow> ('s \<Rightarrow> int) \<Rightarrow> js_error + 's orchestration" where
  "new_PostgresOrchestrationState repository tenantId clock =
     (case new_TenantScopedRepository repository tenantId of
        Inl e \<Rightarrow> Inl e
      | Inr R \<Rightarrow> new_DurableOrchestrationState (Some R) clock)"

abbreviation EXECUTION :: string where
  "EXECUTION \<equiv> ''orchestration_execution''"

text \<open>\<^verbatim>\<open>new Date().toISOString()\<close>\<close>

definition timestamp :: "'s orchestration \<Rightarrow> 's \<Rightarrow> jsval" where
  "timestamp os s = Str (iso_of_ms (os_now os s))"

definition int_or_zero :: "jsval \<Rightarrow> jsval" where
  "int_or_zero v = (if is_integer v then v else Num 0)"

definition create_execution :: "'s orchestration \<Rightarrow> jsval \<Rightarrow> ('s, jsval) act" where
  "create_execution os execution =
     (if \<not> truthy execution \<or> \<not> truthy (field execution ''id'') then throw (TypeError ''Execution requires id'')
      else bnd (rfind (os_repository os) EXECUTION (field execution ''id'')) (\<lambda>existing.
        if truthy existing then throw (Error ''EXECUTION_ALREADY_EXISTS'')
        else (\<lambda>s. rsave (os_repository os) EXECUTION (field execution ''id'')
          (spread execution
            [(''status'', js_or (field execution ''status'') (Str ''pending'')),
             (''attempts'', int_or_zero (field execution ''attempts'')),
             (''recoveryCount'', int_or_zero (field execution ''recoveryCount'')),
             (''updatedAt'', js_or (field execution ''updatedAt'') (timestamp os s))]) s)))"

definition get_execution :: "'s orchestration \<Rightarrow> jsval \<Rightarrow> ('s, jsval) act" where
  "get_execution os i =
     (if \<not> truthy i then throw (TypeError ''Execution id is required'')
      else rfind (os_repository os) EXECUTION i)"

definition all_executions :: "'s orchestration \<Rightarrow> ('s, jsval list) act" where
  "all_executions os = rall (os_repository os) EXECUTION"

definition update_execution :: "'s orchestration \<Rightarrow> jsval \<Rightarrow> jsval \<Rightarrow> ('s, jsval) act" where
  "update_execution os i patch =
     bnd (get_execution os i) (\<lambda>current.
       if \<not> truthy current then throw (Error ''EXECUTION_NOT_FOUND'')
       else if \<not> is_ref patch then throw (TypeError ''State patch must be an object'')
       else (\<lambda>s. rsave (os_repository os) EXECUTION i
         (spread current (own_fields patch @ [(''id'', field current ''id''), (''updatedAt'', timestamp os s)])) s))"

definition resume_execution :: "'s orchestration \<Rightarrow> jsval \<Rightarrow> ('s, jsval) act" where
  "resume_execution os i =
     bnd (get_execution os i) (\<lambda>current.
       if \<not> truthy current then throw (Error ''EXECUTION_NOT_FOUND'')
       else if field current ''status'' \<notin> set [Str ''pending'', Str ''retrying'', Str ''failed'']
       then throw (Error ''EXECUTION_NOT_RESUMABLE'')
       else update_execution os i (Obj [(''status'', Str ''resuming'')]))"

section \<open>DurableOrchestrationRecovery\<close>

record recovery =
  rc_recovered :: bool
  rc_execution :: jsval

definition RECOVERABLE :: "jsval list" where
  "RECOVERABLE = [Str ''pending'', Str ''retrying'', Str ''failed'', Str ''resuming'', Str ''running'']"

text \<open>\<open>no_resume\<close> is \<^verbatim>\<open>options.resume === false\<close>.\<close>

definition recover :: "'s orchestration \<Rightarrow> jsval \<Rightarrow> bool \<Rightarrow> ('s, recovery) act" where
  "recover os i no_resume =
     bnd (get_execution os i) (\<lambda>execution.
       if \<not> truthy execution then throw (Error ''EXECUTION_NOT_FOUND'')
       else if field execution ''status'' \<notin> set RECOVERABLE then ret \<lparr>rc_recovered = False, rc_execution = execution\<rparr>
       else if no_resume then ret \<lparr>rc_recovered = False, rc_execution = execution\<rparr>
       else bnd (\<lambda>s. update_execution os i
           (Obj [(''status'', Str ''resuming''),
                 (''recoveryCount'', js_add (js_or (field execution ''recoveryCount'') (Num 0)) (Num 1)),
                 (''lastRecoveredAt'', timestamp os s)]) s)
         (\<lambda>recovered. ret \<lparr>rc_recovered = True, rc_execution = recovered\<rparr>))"

definition recoverAll :: "'s orchestration \<Rightarrow> bool \<Rightarrow> ('s, recovery list) act" where
  "recoverAll os no_resume =
     bnd (all_executions os) (\<lambda>executions.
       for_each (\<lambda>execution. if execution = Null \<or> execution = Undefined then throw null_read_error
                             else recover os (field execution ''id'') no_resume) executions)"

section \<open>RecoveryAwareOrchestrator\<close>

record outcome =
  oc_execution :: jsval
  oc_result :: jsval
  oc_reused :: bool
  oc_idempotencyKey :: jsval

text \<open>\<^verbatim>\<open>Object.assign(error instanceof Error ? error : new Error(String(error)), { execution })\<close>\<close>

fun with_execution :: "js_error \<Rightarrow> jsval \<Rightarrow> js_error" where
  "with_execution (Exn n m ps) v = Exn n m (AList.update ''execution'' v ps)"
| "with_execution (Thrown x) v = Exn ''Error'' (to_str x) [(''execution'', v)]"

text \<open>The part of \<open>execute\<close> inside its try block, and its handler.\<close>

definition run_operation :: "'s orchestration \<Rightarrow> jsval \<Rightarrow> (jsval \<Rightarrow> ('s, jsval) act) \<Rightarrow> jsval \<Rightarrow> jsval \<Rightarrow> ('s, outcome) act" where
  "run_operation os i operation idempotencyKey execution =
     try_catch
       (bnd (operation execution) (\<lambda>result.
        bnd (update_execution os i (Obj [(''status'', Str ''completed''), (''result'', result), (''idempotencyKey'', idempotencyKey)])) (\<lambda>completed.
        ret \<lparr>oc_execution = completed, oc_result = result, oc_reused = False, oc_idempotencyKey = idempotencyKey\<rparr>)))
       (\<lambda>error.
        bnd (update_execution os i (Obj [(''status'', Str ''failed''), (''error'', Str (error_text error)), (''idempotencyKey'', idempotencyKey)])) (\<lambda>failed.
        throw (with_execution error failed)))"

definition execute :: "'s orchestration \<Rightarrow> jsval \<Rightarrow> (jsval \<Rightarrow> ('s, jsval) act) \<Rightarrow> jsval \<Rightarrow> ('s, outcome) act" where
  "execute os i operation optionKey =
     (if \<not> truthy i then throw (TypeError ''Execution id is required'')
      else let idempotencyKey = js_or optionKey i in
        bnd (get_execution os i) (\<lambda>found.
          if \<not> truthy found then throw (Error ''EXECUTION_NOT_FOUND'')
          else if truthy (field found ''idempotencyKey'') \<and> \<not> strict_eq (field found ''idempotencyKey'') idempotencyKey
          then throw (Error ''IDEMPOTENCY_KEY_MISMATCH'')
          else bnd (if \<not> truthy (field found ''idempotencyKey'')
                    then update_execution os i (Obj [(''idempotencyKey'', idempotencyKey)]) else ret found) (\<lambda>execution.
            if field execution ''status'' = Str ''completed''
            then ret \<lparr>oc_execution = execution, oc_result = field execution ''result'', oc_reused = True, oc_idempotencyKey = idempotencyKey\<rparr>
            else bnd (if field execution ''status'' \<noteq> Str ''running'' \<and> field execution ''status'' \<noteq> Str ''resuming''
                      then bnd (recover os i False) (\<lambda>result.
                        if \<not> rc_recovered result then throw (Error ''EXECUTION_NOT_RESUMABLE'') else ret (rc_execution result))
                      else ret execution) (\<lambda>execution.
              bnd (update_execution os i
                (Obj [(''status'', Str ''running''), (''attempts'', js_add (js_or (field execution ''attempts'') (Num 0)) (Num 1))])) (\<lambda>execution.
              run_operation os i operation idempotencyKey execution)))))"

section \<open>OrchestrationReliability\<close>

record 's reliability =
  or_maxAttempts :: int
  or_onFailure :: "(jsval \<Rightarrow> js_error \<Rightarrow> ('s, jsval) act) option"

text \<open>\<^verbatim>\<open>onFailure\<close> is a function, null, or something else; the failure object is its fields and the error.\<close>

definition new_OrchestrationReliability ::
  "jsval \<Rightarrow> (jsval \<Rightarrow> js_error \<Rightarrow> ('s, jsval) act) option \<Rightarrow> bool \<Rightarrow> js_error + 's reliability" where
  "new_OrchestrationReliability maxAttempts onFailure valid_handler =
     (case default_to maxAttempts (Num 3) of
        Num n \<Rightarrow> if n < 1 then Inl (TypeError ''INVALID_MAX_ATTEMPTS'')
                 else if \<not> valid_handler then Inl (TypeError ''INVALID_FAILURE_HANDLER'')
                 else Inr \<lparr>or_maxAttempts = n, or_onFailure = onFailure\<rparr>
      | _ \<Rightarrow> Inl (TypeError ''INVALID_MAX_ATTEMPTS''))"

text \<open>The loop from attempt \<open>attempt\<close> with \<open>left\<close> further attempts after it: the last error ends it.\<close>

fun attempt_from :: "(jsval \<Rightarrow> ('s, jsval) act) \<Rightarrow> jsval \<Rightarrow> int \<Rightarrow> nat \<Rightarrow> ('s, jsval) act" where
  "attempt_from operation context attempt 0 = operation (spread context [(''attempt'', Num attempt)])"
| "attempt_from operation context attempt (Suc left) =
     try_catch (operation (spread context [(''attempt'', Num attempt)]))
       (\<lambda>_. attempt_from operation context (attempt + 1) left)"

definition execute_reliably :: "'s reliability \<Rightarrow> (jsval \<Rightarrow> ('s, jsval) act) \<Rightarrow> jsval \<Rightarrow> ('s, jsval) act" where
  "execute_reliably rl operation context =
     try_catch (attempt_from operation context 1 (nat (or_maxAttempts rl - 1)))
       (\<lambda>lastError.
         (case or_onFailure rl of
            None \<Rightarrow> throw lastError
          | Some onFailure \<Rightarrow> bnd (onFailure (spread context [(''attempts'', Num (or_maxAttempts rl))]) lastError) (\<lambda>_. throw lastError)))"

end
