(* ===== verification/OrchestrationRefinement.thy ===== *)
theory OrchestrationRefinement
  imports Orchestration
begin

text \<open>
  What the orchestration operations do to a well-formed execution record, over any record
  repository: each ends in one save of the record, computed here in closed form.
\<close>

text \<open>An execution record: stored under its own id, with integer counters.\<close>

definition exec_ok :: "string \<Rightarrow> jsval \<Rightarrow> bool" where
  "exec_ok i v \<longleftrightarrow> i \<noteq> [] \<and> is_obj v \<and> field v ''id'' = Str i
     \<and> is_integer (field v ''attempts'') \<and> is_integer (field v ''recoveryCount'')"

text \<open>The record after an update with the fields \<open>kvs\<close>.\<close>

definition patched :: "'s orchestration \<Rightarrow> 's \<Rightarrow> jsval \<Rightarrow> jsval js_map \<Rightarrow> jsval" where
  "patched os s v kvs = spread v (kvs @ [(''id'', field v ''id''), (''updatedAt'', timestamp os s)])"

definition count_up :: "jsval \<Rightarrow> jsval" where
  "count_up v = (case v of Num n \<Rightarrow> Num (n + 1) | _ \<Rightarrow> Num 1)"

lemma count_up: "is_integer v \<Longrightarrow> js_add (js_or v (Num 0)) (Num 1) = count_up v"
  by (cases v) (auto simp: js_add_def js_or_def count_up_def)

lemma count_up_simps [simp]: "is_integer (count_up v)" "is_json (count_up v)" "count_up (Num n) = Num (n + 1)"
  by (cases v; simp add: count_up_def)+

lemma timestamp_json [simp]: "is_json (timestamp os s)"
  by (simp add: timestamp_def)

lemma exec_ok_simps:
  assumes "exec_ok i v"
  shows "truthy v" "is_obj v" "v \<noteq> Null" "v \<noteq> Undefined" "or_null (Some v) = v" "field v ''id'' = Str i" "i \<noteq> []"
    "is_integer (field v ''attempts'')" "is_integer (field v ''recoveryCount'')"
  using assms by (auto simp: exec_ok_def)

lemma field_patched:
  assumes "is_obj v"
  shows "field (patched os s v kvs) k =
    (if k = ''updatedAt'' then timestamp os s else if k = ''id'' then field v ''id''
     else case map_of (rev kvs) k of Some x \<Rightarrow> x | None \<Rightarrow> field v k)"
  using assms by (simp add: patched_def js_simps map_add_def split: option.split)

lemma exec_ok_patched:
  assumes "exec_ok i v" "''attempts'' \<notin> fst ` set kvs \<or> is_integer (field (patched os s v kvs) ''attempts'')"
    "''recoveryCount'' \<notin> fst ` set kvs \<or> is_integer (field (patched os s v kvs) ''recoveryCount'')"
  shows "exec_ok i (patched os s v kvs)"
proof -
  have "field (patched os s v kvs) k = field v k" if "k \<notin> fst ` set kvs" "k \<noteq> ''updatedAt''" for k
  proof -
    have "map_of (rev kvs) k = None" using that(1) by (simp add: map_of_eq_None_iff)
    with that(2) exec_ok_simps [OF assms(1)] show ?thesis by (simp add: field_patched)
  qed
  then have "is_integer (field (patched os s v kvs) ''attempts'')" "is_integer (field (patched os s v kvs) ''recoveryCount'')"
    using assms(2,3) exec_ok_simps [OF assms(1)] by force+
  moreover have "is_obj (patched os s v kvs)" by (simp add: patched_def)
  ultimately show ?thesis using exec_ok_simps [OF assms(1)] by (simp add: exec_ok_def field_patched)
qed

lemma exec_ok_status [simp]:
  "exec_ok i v \<Longrightarrow> exec_ok i (patched os s v [(''idempotencyKey'', key)])"
  "exec_ok i v \<Longrightarrow> exec_ok i (patched os s v [(''status'', st)])"
  "exec_ok i v \<Longrightarrow> exec_ok i (patched os s v [(''status'', st), (''attempts'', count_up a)])"
  "exec_ok i v \<Longrightarrow> exec_ok i (patched os s v [(''status'', st), (''recoveryCount'', count_up a), (''lastRecoveredAt'', t)])"
  "exec_ok i v \<Longrightarrow> exec_ok i (patched os s v [(''status'', st), (''result'', x), (''idempotencyKey'', key)])"
  "exec_ok i v \<Longrightarrow> exec_ok i (patched os s v [(''status'', st), (''error'', x), (''idempotencyKey'', key)])"
  by (rule exec_ok_patched; simp add: field_patched exec_ok_simps)+

text \<open>The execution record found, if any, is well formed.\<close>

definition execs_wf :: "('s \<Rightarrow> string \<Rightarrow> string \<Rightarrow> jsval option) \<Rightarrow> 's \<Rightarrow> bool" where
  "execs_wf look s \<longleftrightarrow> (\<forall>i v. look s EXECUTION i = Some v \<longrightarrow> exec_ok i v)"

definition recovered_record :: "'s orchestration \<Rightarrow> 's \<Rightarrow> jsval \<Rightarrow> jsval" where
  "recovered_record os s v = patched os s v
     [(''status'', Str ''resuming''), (''recoveryCount'', count_up (field v ''recoveryCount'')), (''lastRecoveredAt'', timestamp os s)]"

text \<open>What an execution record is when its operation starts.\<close>

definition begun :: "string \<Rightarrow> jsval \<Rightarrow> jsval \<Rightarrow> jsval \<Rightarrow> bool" where
  "begun i key v v1 \<longleftrightarrow> exec_ok i v1 \<and> field v1 ''status'' = Str ''running'' \<and> field v1 ''idempotencyKey'' = key
     \<and> field v1 ''attempts'' = count_up (field v ''attempts'')
     \<and> field v1 ''recoveryCount'' = (if field v ''status'' \<in> {Str ''running'', Str ''resuming''} then field v ''recoveryCount''
          else count_up (field v ''recoveryCount''))"

text \<open>The store after a save of one execution record.\<close>

definition one_saved :: "('s \<Rightarrow> string \<Rightarrow> string \<Rightarrow> jsval option) \<Rightarrow> 's \<Rightarrow> string \<Rightarrow> jsval \<Rightarrow> 's \<Rightarrow> bool" where
  "one_saved look s i v s' \<longleftrightarrow> (\<forall>k. look s' EXECUTION k = (if k = i then Some v else look s EXECUTION k))"

lemma one_saved_look: "one_saved look s i v s' \<Longrightarrow> look s' EXECUTION i = Some v"
  by (simp add: one_saved_def)

lemma one_saved_trans: "one_saved look s i v s' \<Longrightarrow> one_saved look s' i w s'' \<Longrightarrow> one_saved look s i w s''"
  by (simp add: one_saved_def)

lemma one_saved_refl: "look s EXECUTION i = Some v \<Longrightarrow> one_saved look s i v s"
  by (simp add: one_saved_def)

text \<open>How a sweep of recoveries may change a record: recoverable ones are resuming and counted.\<close>

definition recoveries :: "jsval \<Rightarrow> int" where
  "recoveries v = (case field v ''recoveryCount'' of Num n \<Rightarrow> n | _ \<Rightarrow> 0)"

definition recoverable :: "jsval \<Rightarrow> bool" where
  "recoverable v \<longleftrightarrow> field v ''status'' \<in> set RECOVERABLE"

definition swept_record :: "bool \<Rightarrow> jsval option \<Rightarrow> jsval option \<Rightarrow> bool" where
  "swept_record hit x y \<longleftrightarrow> (case x of None \<Rightarrow> y = None
     | Some v \<Rightarrow> if hit \<and> recoverable v
         then \<exists>w. y = Some w \<and> field w ''status'' = Str ''resuming'' \<and> recoveries v < recoveries w
         else y = Some v)"

lemma recovered_record_simps:
  assumes "exec_ok i v"
  shows "exec_ok i (recovered_record os s v)" "field (recovered_record os s v) ''status'' = Str ''resuming''"
    "recoveries (recovered_record os s v) = recoveries v + 1" "recoverable (recovered_record os s v)"
proof -
  have v: "is_obj v" "is_integer (field v ''recoveryCount'')" using assms by (simp_all add: exec_ok_def)
  then obtain n where n: "field v ''recoveryCount'' = Num n" by (cases "field v ''recoveryCount''") auto
  show "exec_ok i (recovered_record os s v)" using assms by (simp add: recovered_record_def)
  show st: "field (recovered_record os s v) ''status'' = Str ''resuming''"
    using v(1) by (simp add: recovered_record_def field_patched)
  then show "recoverable (recovered_record os s v)" by (simp add: recoverable_def RECOVERABLE_def)
  have "field (recovered_record os s v) ''recoveryCount'' = Num (n + 1)"
    using v(1) n by (simp add: recovered_record_def field_patched)
  with n show "recoveries (recovered_record os s v) = recoveries v + 1" by (simp add: recoveries_def)
qed

lemma swept_record_trans:
  assumes "x1 = (if hit1 then map_option (\<lambda>v. if recoverable v then recovered_record os s v else v) x else x)"
    and "\<And>v. x = Some v \<Longrightarrow> exec_ok i v" "swept_record hit2 x1 y"
  shows "swept_record (hit1 \<or> hit2) x y"
  using assms recovered_record_simps [of i _ os s]
  by (auto simp: swept_record_def split: option.splits if_splits)

definition key_matches :: "jsval \<Rightarrow> jsval \<Rightarrow> bool" where
  "key_matches v key \<longleftrightarrow> \<not> truthy (field v ''idempotencyKey'') \<or> strict_eq (field v ''idempotencyKey'') key"

text \<open>Saves of one execution record, and of nothing else.\<close>

definition record_saves :: "(string \<Rightarrow> string \<Rightarrow> jsval \<Rightarrow> 's \<Rightarrow> 's) \<Rightarrow> string \<Rightarrow> 's \<Rightarrow> 's \<Rightarrow> bool" where
  "record_saves put i s s' \<longleftrightarrow> (\<exists>vs. s' = fold (put EXECUTION i) vs s)"

lemma record_saves_intros:
  "record_saves put i s s" "record_saves put i s (put EXECUTION i v s)" "record_saves put i s s' \<Longrightarrow> record_saves put i s' s'' \<Longrightarrow> record_saves put i s s''"
proof -
  show "record_saves put i s s" unfolding record_saves_def by (rule exI [of _ "[]"]) simp
  show "record_saves put i s (put EXECUTION i v s)" unfolding record_saves_def by (rule exI [of _ "[v]"]) simp
  show "record_saves put i s s'' " if saves: "record_saves put i s s'" "record_saves put i s' s''"
  proof -
    obtain vs ws where "s' = fold (put EXECUTION i) vs s" "s'' = fold (put EXECUTION i) ws s'" using saves by (auto simp: record_saves_def)
    then show ?thesis unfolding record_saves_def by (intro exI [of _ "vs @ ws"]) simp
  qed
qed

context record_repository
begin

lemma get_run:
  assumes "inv s" "okty EXECUTION" "i \<noteq> []" "os_repository os = R"
  shows "get_execution os (Str i) s = (Inr (or_null (look s EXECUTION i)), s)"
  using assms by (simp add: get_execution_def find_law)

lemma storable_patched:
  assumes "inv s" "okty EXECUTION" "look s EXECUTION i = Some v" "exec_ok i v" "\<forall>(k, x) \<in> set kvs. storable x"
  shows "storable (patched os s' v kvs)"
  unfolding patched_def
  by (rule storable_spread [OF look_storable [OF assms(1-3)]])
    (use assms(5) exec_ok_simps [OF assms(4)] in \<open>auto intro: storable_json\<close>)

lemma update_run:
  assumes "inv s" "okty EXECUTION" "os_repository os = R" "look s EXECUTION i = Some v" "exec_ok i v"
    and "\<forall>(k, x) \<in> set kvs. storable x"
  shows "update_execution os (Str i) (Obj kvs) s = (Inr (patched os s v kvs), put EXECUTION i (patched os s v kvs) s)"
proof -
  note v = exec_ok_simps [OF assms(5)]
  have find: "get_execution os (Str i) s = (Inr v, s)"
    using get_run [OF assms(1,2) v(7) assms(3)] assms(4) v(5) by simp
  have save: "rsave R EXECUTION (Str i) (patched os s v kvs) s = (Inr (patched os s v kvs), put EXECUTION i (patched os s v kvs) s)"
    by (rule save_law [OF assms(1,2) v(7) storable_patched [OF assms(1,2,4-6)]])
  show ?thesis
    using v(1) save by (simp add: update_execution_def bnd_def find assms(3) patched_def)
qed

lemma put_execution:
  assumes "inv s" "okty EXECUTION" "i \<noteq> []" "storable v"
  shows "inv (put EXECUTION i v s)" "look (put EXECUTION i v s) EXECUTION k = (if k = i then Some v else look s EXECUTION k)"
  using assms by (simp_all add: inv_put look_put)

text \<open>The save that an update performs keeps the store and shows the patched record.\<close>

lemma update_effect:
  assumes "inv s" "okty EXECUTION" "os_repository os = R" "look s EXECUTION i = Some v" "exec_ok i v"
    and "\<forall>(k, x) \<in> set kvs. storable x"
  obtains s' where "update_execution os (Str i) (Obj kvs) s = (Inr (patched os s v kvs), s')" "inv s'"
    "one_saved look s i (patched os s v kvs) s'" "s' = put EXECUTION i (patched os s v kvs) s"
proof (rule that [OF update_run [OF assms]])
  note put = put_execution [OF assms(1,2) exec_ok_simps(7) [OF assms(5)] storable_patched [OF assms(1,2,4-6)]]
  show "inv (put EXECUTION i (patched os s v kvs) s)" by (rule put(1))
  show "one_saved look s i (patched os s v kvs) (put EXECUTION i (patched os s v kvs) s)"
    unfolding one_saved_def by (intro allI put(2))
qed simp

section \<open>Recovery\<close>

lemma recover_run:
  assumes "inv s" "okty EXECUTION" "os_repository os = R" "look s EXECUTION i = Some v" "exec_ok i v"
  shows "recover os (Str i) no_resume s =
    (if field v ''status'' \<in> set RECOVERABLE \<and> \<not> no_resume
     then (Inr \<lparr>rc_recovered = True, rc_execution = recovered_record os s v\<rparr>, put EXECUTION i (recovered_record os s v) s)
     else (Inr \<lparr>rc_recovered = False, rc_execution = v\<rparr>, s))"
proof -
  have "update_execution os (Str i) (Obj [(''status'', Str ''resuming''), (''recoveryCount'', count_up (field v ''recoveryCount'')),
      (''lastRecoveredAt'', timestamp os s)]) s = (Inr (recovered_record os s v), put EXECUTION i (recovered_record os s v) s)"
    unfolding recovered_record_def using assms by (rule update_run) (auto intro: storable_json)
  then show ?thesis
    using assms(1-4) exec_ok_simps [OF assms(5)] by (simp add: recover_def bnd_def get_run count_up)
qed

lemma recovered_storable:
  assumes "inv s" "okty EXECUTION" "look s EXECUTION i = Some v" "exec_ok i v"
  shows "storable (recovered_record os s' v)"
  unfolding recovered_record_def by (rule storable_patched [OF assms]) (auto intro: storable_json)

section \<open>Execution\<close>

text \<open>The first save: the idempotency key, if the record has none.\<close>

lemma key_step:
  assumes "inv s" "okty EXECUTION" "os_repository os = R" "look s EXECUTION i = Some v" "exec_ok i v"
    and "storable key" "key_matches v key"
  obtains v0 s0 where
    "(if \<not> truthy (field v ''idempotencyKey'') then update_execution os (Str i) (Obj [(''idempotencyKey'', key)]) else ret v) s = (Inr v0, s0)"
    "inv s0" "one_saved look s i v0 s0" "exec_ok i v0" "field v0 ''idempotencyKey'' = key"
    "\<forall>k \<in> {''status'', ''attempts'', ''recoveryCount'', ''result''}. field v0 k = field v k" "record_saves put i s s0"
proof (cases "truthy (field v ''idempotencyKey'')")
  case True
  then show thesis using assms by (intro that [of v s]) (auto simp: key_matches_def strict_eq_def one_saved_refl record_saves_intros(1))
next
  case False
  have "\<forall>(k, x) \<in> set [(''idempotencyKey'', key)]. storable x" using assms(6) by simp
  from update_effect [OF assms(1-5) this]
  obtain s' where s': "update_execution os (Str i) (Obj [(''idempotencyKey'', key)]) s = (Inr (patched os s v [(''idempotencyKey'', key)]), s')"
    "inv s'" "one_saved look s i (patched os s v [(''idempotencyKey'', key)]) s'" "s' = put EXECUTION i (patched os s v [(''idempotencyKey'', key)]) s" .
  show thesis
    by (rule that [of "patched os s v [(''idempotencyKey'', key)]" s'])
      (use False s' assms(5) exec_ok_simps [OF assms(5)] in \<open>auto simp: field_patched record_saves_intros(2)\<close>)
qed

text \<open>The second: recovery, unless the record is already running or resuming.\<close>

lemma recover_step:
  assumes "inv s" "okty EXECUTION" "os_repository os = R" "look s EXECUTION i = Some v" "exec_ok i v"
    and "field v ''status'' \<in> set RECOVERABLE"
  obtains v0 s0 where
    "(if field v ''status'' \<noteq> Str ''running'' \<and> field v ''status'' \<noteq> Str ''resuming''
      then bnd (recover os (Str i) False) (\<lambda>result.
        if \<not> rc_recovered result then throw (Error ''EXECUTION_NOT_RESUMABLE'') else ret (rc_execution result))
      else ret v) s = (Inr v0, s0)"
    "inv s0" "one_saved look s i v0 s0" "exec_ok i v0"
    "field v0 ''recoveryCount'' = (if field v ''status'' \<in> {Str ''running'', Str ''resuming''} then field v ''recoveryCount''
        else count_up (field v ''recoveryCount''))"
    "\<forall>k \<in> {''attempts'', ''idempotencyKey''}. field v0 k = field v k" "record_saves put i s s0"
proof (cases "field v ''status'' \<in> {Str ''running'', Str ''resuming''}")
  case True
  then show thesis using assms by (intro that [of v s]) (auto simp: one_saved_refl record_saves_intros(1))
next
  case False
  note v = exec_ok_simps [OF assms(5)]
  let ?w = "recovered_record os s v"
  have w: "exec_ok i ?w" "field ?w ''recoveryCount'' = count_up (field v ''recoveryCount'')"
    "\<forall>k \<in> {''attempts'', ''idempotencyKey''}. field ?w k = field v k"
    using assms(5) v by (simp_all add: recovered_record_def field_patched)
  note put = put_execution [OF assms(1,2) v(7) recovered_storable [OF assms(1,2,4,5)], of os s]
  have "one_saved look s i ?w (put EXECUTION i ?w s)" unfolding one_saved_def by (intro allI put(2))
  with False put(1) w recover_run [OF assms(1-5), of False] assms(6) show thesis
    by (intro that [of ?w "put EXECUTION i ?w s"]) (auto simp: bnd_def record_saves_intros(2))
qed

text \<open>Then the record is marked running and the operation starts.\<close>

lemma execute_begins:
  assumes "inv s" "okty EXECUTION" "os_repository os = R" "look s EXECUTION i = Some v" "exec_ok i v"
    and "field v ''status'' \<in> set RECOVERABLE" "key = js_or optionKey (Str i)" "storable key" "key_matches v key"
  obtains v1 s1 where "execute os (Str i) operation optionKey s = run_operation os (Str i) operation key v1 s1"
    "inv s1" "begun i key v v1" "one_saved look s i v1 s1" "record_saves put i s s1"
proof -
  note v = exec_ok_simps [OF assms(5)]
  obtain va sa where a: "(if \<not> truthy (field v ''idempotencyKey'') then update_execution os (Str i) (Obj [(''idempotencyKey'', key)]) else ret v) s = (Inr va, sa)"
    "inv sa" "one_saved look s i va sa" "exec_ok i va" "field va ''idempotencyKey'' = key"
    "\<forall>k \<in> {''status'', ''attempts'', ''recoveryCount'', ''result''}. field va k = field v k" "record_saves put i s sa"
    by (rule key_step [OF assms(1-5,8,9)])
  have st: "field va ''status'' \<in> set RECOVERABLE" using a(6) assms(6) by simp
  obtain vb sb where b: "(if field va ''status'' \<noteq> Str ''running'' \<and> field va ''status'' \<noteq> Str ''resuming''
      then bnd (recover os (Str i) False) (\<lambda>result.
        if \<not> rc_recovered result then throw (Error ''EXECUTION_NOT_RESUMABLE'') else ret (rc_execution result))
      else ret va) sa = (Inr vb, sb)"
    "inv sb" "one_saved look sa i vb sb" "exec_ok i vb"
    "field vb ''recoveryCount'' = (if field va ''status'' \<in> {Str ''running'', Str ''resuming''} then field va ''recoveryCount''
        else count_up (field va ''recoveryCount''))"
    "\<forall>k \<in> {''attempts'', ''idempotencyKey''}. field vb k = field va k" "record_saves put i sa sb"
    by (rule recover_step [OF a(2) assms(2,3) one_saved_look [OF a(3)] a(4) st])
  let ?kvs = "[(''status'', Str ''running''), (''attempts'', count_up (field vb ''attempts''))]"
  have "\<forall>(k, x) \<in> set ?kvs. storable x" by (auto intro: storable_json)
  from update_effect [OF b(2) assms(2,3) one_saved_look [OF b(3)] b(4) this]
  obtain sc where c: "update_execution os (Str i) (Obj ?kvs) sb = (Inr (patched os sb vb ?kvs), sc)" "inv sc"
    "one_saved look sb i (patched os sb vb ?kvs) sc" "sc = put EXECUTION i (patched os sb vb ?kvs) sb" .
  have find: "get_execution os (Str i) s = (Inr v, s)"
    using get_run [OF assms(1,2) v(7) assms(3)] assms(4) v(5) by simp
  have key: "\<not> (truthy (field v ''idempotencyKey'') \<and> \<not> strict_eq (field v ''idempotencyKey'') key)"
    using assms(9) by (auto simp: key_matches_def)
  have nc: "field va ''status'' \<noteq> Str ''completed''" using st by (auto simp: RECOVERABLE_def)
  show thesis
  proof (rule that [of "patched os sb vb ?kvs" sc])
    show "execute os (Str i) operation optionKey s = run_operation os (Str i) operation key (patched os sb vb ?kvs) sc"
      unfolding execute_def Let_def assms(7) [symmetric]
      using v(1,7) key nc count_up [OF exec_ok_simps(8) [OF b(4)]] by (auto simp: bnd_def find a(1) b(1) c(1))
    show "begun i key v (patched os sb vb ?kvs)"
      using b(4-6) a(5,6) exec_ok_simps [OF b(4)] by (simp add: begun_def field_patched)
    show "one_saved look s i (patched os sb vb ?kvs) sc" using a(3) b(3) c(3) by (blast intro: one_saved_trans)
    show "record_saves put i s sc" using a(7) b(7) c(4) by (blast intro: record_saves_intros)
  qed (rule c(2))
qed

text \<open>
  The operation's own effect: it may do anything to the store except touch its execution record.
\<close>

lemma run_operation_resolves:
  assumes "inv s1" "okty EXECUTION" "os_repository os = R" "exec_ok i v1"
    and "operation v1 s1 = (Inr x, s2)" "inv s2" "look s2 EXECUTION i = Some v1" "storable x" "storable key"
  obtains s3 v3 where
    "run_operation os (Str i) operation key v1 s1 = (Inr \<lparr>oc_execution = v3, oc_result = x, oc_reused = False, oc_idempotencyKey = key\<rparr>, s3)"
    "inv s3" "look s3 EXECUTION i = Some v3" "exec_ok i v3" "field v3 ''status'' = Str ''completed''" "field v3 ''result'' = x"
    "field v3 ''idempotencyKey'' = key" "field v3 ''attempts'' = field v1 ''attempts''" "s3 = put EXECUTION i v3 s2"
proof -
  let ?kvs = "[(''status'', Str ''completed''), (''result'', x), (''idempotencyKey'', key)]"
  have "\<forall>(k, x) \<in> set ?kvs. storable x" using assms(8,9) by (auto intro: storable_json)
  from update_effect [OF assms(6,2,3,7,4) this]
  obtain s3 where s3: "update_execution os (Str i) (Obj ?kvs) s2 = (Inr (patched os s2 v1 ?kvs), s3)" "inv s3"
    "one_saved look s2 i (patched os s2 v1 ?kvs) s3" "s3 = put EXECUTION i (patched os s2 v1 ?kvs) s2" .
  show thesis
    by (rule that [of "patched os s2 v1 ?kvs" s3])
      (use s3 one_saved_look [OF s3(3)] assms(4,5) exec_ok_simps [OF assms(4)] in \<open>simp_all add: run_operation_def try_catch_def bnd_def field_patched\<close>)
qed

lemma run_operation_rejects:
  assumes "inv s1" "okty EXECUTION" "os_repository os = R" "exec_ok i v1"
    and "operation v1 s1 = (Inl e, s2)" "inv s2" "look s2 EXECUTION i = Some v1" "storable key"
  obtains s3 v3 where
    "run_operation os (Str i) operation key v1 s1 = (Inl (with_execution e v3), s3)"
    "inv s3" "look s3 EXECUTION i = Some v3" "exec_ok i v3" "field v3 ''status'' = Str ''failed''" "field v3 ''error'' = Str (error_text e)"
    "field v3 ''idempotencyKey'' = key" "field v3 ''attempts'' = field v1 ''attempts''" "s3 = put EXECUTION i v3 s2"
proof -
  let ?kvs = "[(''status'', Str ''failed''), (''error'', Str (error_text e)), (''idempotencyKey'', key)]"
  have "\<forall>(k, x) \<in> set ?kvs. storable x" using assms(8) by (auto intro: storable_json)
  from update_effect [OF assms(6,2,3,7,4) this]
  obtain s3 where s3: "update_execution os (Str i) (Obj ?kvs) s2 = (Inr (patched os s2 v1 ?kvs), s3)" "inv s3"
    "one_saved look s2 i (patched os s2 v1 ?kvs) s3" "s3 = put EXECUTION i (patched os s2 v1 ?kvs) s2" .
  show thesis
    by (rule that [of "patched os s2 v1 ?kvs" s3])
      (use s3 one_saved_look [OF s3(3)] assms(4,5) exec_ok_simps [OF assms(4)] in \<open>simp_all add: run_operation_def try_catch_def bnd_def field_patched\<close>)
qed

text \<open>A completed execution is answered from its record.\<close>

lemma execute_completed:
  assumes "inv s" "okty EXECUTION" "os_repository os = R" "look s EXECUTION i = Some v" "exec_ok i v"
    and "field v ''status'' = Str ''completed''" "key = js_or optionKey (Str i)" "storable key" "key_matches v key"
  obtains v0 s0 where
    "\<forall>operation. execute os (Str i) operation optionKey s = (Inr \<lparr>oc_execution = v0, oc_result = field v ''result'', oc_reused = True, oc_idempotencyKey = key\<rparr>, s0)"
    "inv s0" "one_saved look s i v0 s0" "look s0 EXECUTION i = Some v0" "field v0 ''status'' = Str ''completed''" "field v0 ''result'' = field v ''result''"
    "field v0 ''attempts'' = field v ''attempts''"
proof -
  note v = exec_ok_simps [OF assms(5)]
  obtain va sa where a: "(if \<not> truthy (field v ''idempotencyKey'') then update_execution os (Str i) (Obj [(''idempotencyKey'', key)]) else ret v) s = (Inr va, sa)"
    "inv sa" "one_saved look s i va sa" "\<forall>k \<in> {''status'', ''attempts'', ''recoveryCount'', ''result''}. field va k = field v k"
    by (rule key_step [OF assms(1-5,8,9)])
  have find: "get_execution os (Str i) s = (Inr v, s)"
    using get_run [OF assms(1,2) v(7) assms(3)] assms(4) v(5) by simp
  have key: "\<not> (truthy (field v ''idempotencyKey'') \<and> \<not> strict_eq (field v ''idempotencyKey'') key)"
    using assms(9) by (auto simp: key_matches_def)
  have "execute os (Str i) operation optionKey s = (Inr \<lparr>oc_execution = va, oc_result = field v ''result'', oc_reused = True, oc_idempotencyKey = key\<rparr>, sa)" for operation
    unfolding execute_def Let_def assms(7) [symmetric]
    using v(1,7) key a(4) assms(6) by (auto simp: bnd_def find a(1))
  then show thesis by (intro that [of va sa] allI) (use one_saved_look [OF a(3)] a(2-4) assms(6) in simp_all)
qed

text \<open>The sweep over all executions.\<close>

lemma recover_sweep:
  assumes "okty EXECUTION" "os_repository os = R" "inv s" "execs_wf look s"
    and "\<forall>v \<in> set xs. \<exists>i w. field v ''id'' = Str i \<and> v \<noteq> Null \<and> v \<noteq> Undefined \<and> look s EXECUTION i = Some w"
  shows "\<exists>rs s'. for_each (\<lambda>v. if v = Null \<or> v = Undefined then throw null_read_error else recover os (field v ''id'') False) xs s = (Inr rs, s')
    \<and> length rs = length xs \<and> inv s' \<and> execs_wf look s'
    \<and> (\<forall>k. swept_record (Str k \<in> (\<lambda>v. field v ''id'') ` set xs) (look s EXECUTION k) (look s' EXECUTION k))"
  using assms(3-5)
proof (induction xs arbitrary: s)
  case Nil
  then show ?case by (simp add: swept_record_def split: option.split)
next
  case (Cons v xs)
  obtain i w where i: "field v ''id'' = Str i" "v \<noteq> Null" "v \<noteq> Undefined" "look s EXECUTION i = Some w"
    using Cons.prems(3) by auto
  have w: "exec_ok i w" using Cons.prems(2) i(4) by (simp add: execs_wf_def)
  define s1 where "s1 = snd (recover os (Str i) False s)"
  obtain r where run: "recover os (Str i) False s = (Inr r, s1)"
    and s1: "s1 = (if recoverable w then put EXECUTION i (recovered_record os s w) s else s)"
    using recover_run [OF Cons.prems(1) assms(1,2) i(4) w, of False]
    by (cases "recoverable w") (auto simp: s1_def recoverable_def)
  note put = put_execution [OF Cons.prems(1) assms(1) exec_ok_simps(7) [OF w] recovered_storable [OF Cons.prems(1) assms(1) i(4) w], of os s]
  have inv1: "inv s1" using s1 put(1) Cons.prems(1) by simp
  have look1: "look s1 EXECUTION k = (if k = i then map_option (\<lambda>v. if recoverable v then recovered_record os s v else v) (look s EXECUTION k)
      else look s EXECUTION k)" for k
  proof (cases "k = i \<and> recoverable w")
    case True
    then show ?thesis unfolding s1 by (simp add: put(2) i(4))
  next
    case False
    then show ?thesis unfolding s1 by (auto simp: put(2) i(4))
  qed
  have wf1: "execs_wf look s1"
    using Cons.prems(2) recovered_record_simps(1) [OF w] i(4) by (auto simp: execs_wf_def look1 split: if_splits)
  have "\<forall>v \<in> set xs. \<exists>i w. field v ''id'' = Str i \<and> v \<noteq> Null \<and> v \<noteq> Undefined \<and> look s1 EXECUTION i = Some w"
  proof
    fix u assume "u \<in> set xs"
    then obtain j x where j: "field u ''id'' = Str j" "u \<noteq> Null" "u \<noteq> Undefined" "look s EXECUTION j = Some x"
      using Cons.prems(3) by auto
    moreover have "\<exists>y. look s1 EXECUTION j = Some y" using j(4) i(4) by (simp add: look1)
    ultimately show "\<exists>i w. field u ''id'' = Str i \<and> u \<noteq> Null \<and> u \<noteq> Undefined \<and> look s1 EXECUTION i = Some w" by blast
  qed
  from Cons.IH [OF inv1 wf1 this] obtain rs s' where
    s': "for_each (\<lambda>v. if v = Null \<or> v = Undefined then throw null_read_error else recover os (field v ''id'') False) xs s1 = (Inr rs, s')"
    "length rs = length xs" "inv s'" "execs_wf look s'"
    "\<And>k. swept_record (Str k \<in> (\<lambda>v. field v ''id'') ` set xs) (look s1 EXECUTION k) (look s' EXECUTION k)" by blast
  have "swept_record (k = i \<or> Str k \<in> (\<lambda>v. field v ''id'') ` set xs) (look s EXECUTION k) (look s' EXECUTION k)" for k
    by (rule swept_record_trans [where i = k, OF look1 _ s'(5)]) (use Cons.prems(2) in \<open>simp add: execs_wf_def\<close>)
  then have "swept_record (Str k \<in> (\<lambda>v. field v ''id'') ` set (v # xs)) (look s EXECUTION k) (look s' EXECUTION k)" for k
    by (simp add: i(1))
  with s' i run show ?case by (simp add: bnd_def)
qed

lemma recoverAll_run:
  assumes "okty EXECUTION" "os_repository os = R" "inv s" "execs_wf look s"
  shows "\<exists>rs s'. recoverAll os False s = (Inr rs, s') \<and> inv s' \<and> execs_wf look s'
    \<and> (\<forall>k. swept_record True (look s EXECUTION k) (look s' EXECUTION k))"
proof -
  have set: "set (listing s EXECUTION) = {v. \<exists>i. look s EXECUTION i = Some v}" using assms(3,1) by (rule set_listing)
  have "\<forall>v \<in> set (listing s EXECUTION). \<exists>i w. field v ''id'' = Str i \<and> v \<noteq> Null \<and> v \<noteq> Undefined \<and> look s EXECUTION i = Some w"
    unfolding set using assms(4) by (force simp: execs_wf_def dest: exec_ok_simps)
  from recover_sweep [OF assms this] obtain rs s' where
    r: "for_each (\<lambda>v. if v = Null \<or> v = Undefined then throw null_read_error else recover os (field v ''id'') False) (listing s EXECUTION) s = (Inr rs, s')"
    "inv s'" "execs_wf look s'"
    "\<And>k. swept_record (Str k \<in> (\<lambda>v. field v ''id'') ` set (listing s EXECUTION)) (look s EXECUTION k) (look s' EXECUTION k)" by blast
  have "swept_record True (look s EXECUTION k) (look s' EXECUTION k)" for k
  proof (cases "look s EXECUTION k")
    case None
    with r(4) [of k] show ?thesis by (simp add: swept_record_def)
  next
    case (Some v)
    then have "Str k \<in> (\<lambda>v. field v ''id'') ` set (listing s EXECUTION)"
      unfolding set using assms(4) by (force simp: execs_wf_def dest: exec_ok_simps)
    with r(4) [of k] show ?thesis by simp
  qed
  with r(1-3) show ?thesis
    using assms by (simp add: recoverAll_def all_executions_def bnd_def all_law)
qed

end

end
