(* ===== verification/OrchestrationProperties.thy ===== *)
theory OrchestrationProperties
  imports OrchestrationRefinement
begin

text \<open>
  Durable orchestration on Postgres: the state of one tenant, as \<open>PostgresOrchestrationState\<close>
  builds it. An operation is any action on the database that resolves or rejects; what it must
  leave alone is its own execution record.
\<close>

section \<open>One tenant's orchestration state\<close>

definition pg_orchestration :: "string \<Rightarrow> pg_db orchestration" where
  "pg_orchestration n = \<lparr>os_repository = tenant_scoped pg_repository (Str n), os_now = pg_now\<rparr>"

lemma pg_orchestration_simps [simp]:
  "os_repository (pg_orchestration n) = tenant_scoped pg_repository (Str n)"
  "n \<noteq> [] \<Longrightarrow> new_PostgresOrchestrationState (Some pg_repository) (Str n) pg_now = Inr (pg_orchestration n)"
  by (simp_all add: pg_orchestration_def new_PostgresOrchestrationState_def new_TenantScopedRepository_def
      new_DurableOrchestrationState_def)

abbreviation execution :: "pg_db \<Rightarrow> string \<Rightarrow> string \<Rightarrow> jsval option" where
  "execution s n i \<equiv> pg_look s n EXECUTION i"

abbreviation pg_ok :: "string \<Rightarrow> pg_db \<Rightarrow> bool" where
  "pg_ok n s \<equiv> pg_inv s \<and> n \<noteq> [] \<and> execs_wf (\<lambda>s. pg_look s n) s"


definition demo_exec :: "string \<Rightarrow> string \<Rightarrow> jsval" where
  "demo_exec i st = Obj [(''id'', Str i), (''status'', Str st), (''attempts'', Num 0), (''recoveryCount'', Num 0), (''result'', Num 7)]"

definition demo_db :: pg_db where
  "demo_db = \<lparr>bos_records =
     [\<lparr>row_tenant = ''t1'', row_type = EXECUTION, row_id = ''p'', row_value = demo_exec ''p'' ''pending'', row_created = 1, row_updated = 1\<rparr>,
      \<lparr>row_tenant = ''t1'', row_type = EXECUTION, row_id = ''c'', row_value = demo_exec ''c'' ''completed'', row_created = 2, row_updated = 2\<rparr>,
      \<lparr>row_tenant = ''t1'', row_type = EXECUTION, row_id = ''r'', row_value = demo_exec ''r'' ''running'', row_created = 3, row_updated = 3\<rparr>],
     pg_now = 10\<rparr>"

lemma demo_db_look:
  "execution demo_db ''t1'' i = (if i = ''p'' then Some (demo_exec ''p'' ''pending'') else if i = ''c'' then Some (demo_exec ''c'' ''completed'')
     else if i = ''r'' then Some (demo_exec ''r'' ''running'') else None)"
  by (simp add: pg_look_def pg_content_def demo_db_def row_key_def)

lemma demo_db_ok: "pg_ok ''t1'' demo_db"
  by (auto simp: pg_inv_def demo_db_def row_key_def demo_exec_def execs_wf_def exec_ok_def
      pg_look_def pg_content_def split: if_splits)

section \<open>Properties\<close>




text \<open>Safety. A completed execution is never run again: whatever operation is passed, the call
  answers with the stored result and marks it reused, the record keeps its status, result and
  attempts, and the operation has no effect on the database (the outcome is the same for every
  operation). A different idempotency key is refused and nothing changes.\<close>

theorem completed_execution_is_reused:
  assumes "pg_ok n s" "execution s n i = Some v" "field v ''status'' = Str ''completed''" "is_json optionKey"
  shows "if key_matches v (js_or optionKey (Str i))
    then \<exists>v0 s0. (\<forall>operation. execute (pg_orchestration n) (Str i) operation optionKey s =
             (Inr \<lparr>oc_execution = v0, oc_result = field v ''result'', oc_reused = True, oc_idempotencyKey = js_or optionKey (Str i)\<rparr>, s0))
         \<and> execution s0 n i = Some v0 \<and> field v0 ''status'' = Str ''completed'' \<and> field v0 ''result'' = field v ''result''
         \<and> field v0 ''attempts'' = field v ''attempts''
    else \<forall>operation. execute (pg_orchestration n) (Str i) operation optionKey s = (Inl (Error ''IDEMPOTENCY_KEY_MISMATCH''), s)"
proof (cases "key_matches v (js_or optionKey (Str i))")
  case True
  have s: "pg_inv s" "n \<noteq> [] \<and> EXECUTION \<noteq> []" "exec_ok i v" using assms(1,2) by (auto simp: execs_wf_def)
  have key: "is_json (js_or optionKey (Str i))" using assms(4) by (simp add: js_or_def)
  obtain v0 s0 where e: "\<forall>operation. execute (pg_orchestration n) (Str i) operation optionKey s =
      (Inr \<lparr>oc_execution = v0, oc_result = field v ''result'', oc_reused = True, oc_idempotencyKey = js_or optionKey (Str i)\<rparr>, s0)"
    "execution s0 n i = Some v0" "field v0 ''status'' = Str ''completed''" "field v0 ''result'' = field v ''result''"
    "field v0 ''attempts'' = field v ''attempts''"
    by (rule pg.scoped.execute_completed [OF s(1,2) pg_orchestration_simps(1) assms(2) s(3) assms(3) refl key True])
  with True show ?thesis by auto
next
  case False
  have s: "pg_inv s" "n \<noteq> [] \<and> EXECUTION \<noteq> []" "exec_ok i v" using assms(1,2) by (auto simp: execs_wf_def)
  have "get_execution (pg_orchestration n) (Str i) s = (Inr v, s)"
    using pg.scoped.get_run [OF s(1,2) exec_ok_simps(7) [OF s(3)] pg_orchestration_simps(1)] assms(2) exec_ok_simps(5) [OF s(3)] by simp
  with False exec_ok_simps [OF s(3)] show ?thesis
    by (auto simp: execute_def bnd_def key_matches_def Let_def)
qed

theorem completed_execution_is_reused_witness:
  "\<exists>v0 s0. execute (pg_orchestration ''t1'') (Str ''c'') (\<lambda>_. throw (Error ''must not run'')) Undefined demo_db =
     (Inr \<lparr>oc_execution = v0, oc_result = Num 7, oc_reused = True, oc_idempotencyKey = Str ''c''\<rparr>, s0)
     \<and> field v0 ''status'' = Str ''completed''"
proof -
  have l: "execution demo_db ''t1'' ''c'' = Some (demo_exec ''c'' ''completed'')" by (simp add: demo_db_look)
  have "field (demo_exec ''c'' ''completed'') ''status'' = Str ''completed''" by (simp add: demo_exec_def)
  note reused = completed_execution_is_reused [OF demo_db_ok l this, of "Str ''c''"]
  have "key_matches (demo_exec ''c'' ''completed'') (js_or (Str ''c'') (Str ''c''))"
    "field (demo_exec ''c'' ''completed'') ''result'' = Num 7" "js_or (Str ''c'') (Str ''c'') = Str ''c''"
    "execute (pg_orchestration ''t1'') (Str ''c'') operation Undefined = execute (pg_orchestration ''t1'') (Str ''c'') operation (Str ''c'')" for operation
    by (simp_all add: key_matches_def demo_exec_def js_or_def execute_def)
  with reused show ?thesis by simp blast
qed

text \<open>Liveness. One sweep of \<open>recoverAll\<close> never fails on a sound store: every execution of the tenant
  that is pending, retrying, failed, resuming or running ends up resuming with its recovery count
  increased, and every other record (a completed one above all) is left exactly as it was.\<close>

theorem recovery_sweep_resumes_interrupted:
  assumes "pg_ok n s"
  shows "\<exists>rs s'. recoverAll (pg_orchestration n) False s = (Inr rs, s') \<and> pg_ok n s'
    \<and> (\<forall>i. case execution s n i of
          None \<Rightarrow> execution s' n i = None
        | Some v \<Rightarrow> if recoverable v
            then \<exists>w. execution s' n i = Some w \<and> field w ''status'' = Str ''resuming'' \<and> recoveries v < recoveries w
            else execution s' n i = Some v)"
proof -
  have s: "n \<noteq> [] \<and> EXECUTION \<noteq> []" "pg_inv s" "execs_wf (\<lambda>s. pg_look s n) s" using assms by simp_all
  obtain rs s' where r: "recoverAll (pg_orchestration n) False s = (Inr rs, s')" "pg_inv s'" "execs_wf (\<lambda>s. pg_look s n) s'"
    "\<And>i. swept_record True (execution s n i) (execution s' n i)"
    using pg.scoped.recoverAll_run [OF s(1) pg_orchestration_simps(1) s(2,3)] by blast
  have "case execution s n i of
          None \<Rightarrow> execution s' n i = None
        | Some v \<Rightarrow> if recoverable v
            then \<exists>w. execution s' n i = Some w \<and> field w ''status'' = Str ''resuming'' \<and> recoveries v < recoveries w
            else execution s' n i = Some v" for i
    using r(4) [of i] by (cases "execution s n i") (simp_all add: swept_record_def)
  with r(1-3) s(1) show ?thesis by blast
qed

theorem recovery_sweep_resumes_interrupted_witness:
  "\<exists>rs s'. recoverAll (pg_orchestration ''t1'') False demo_db = (Inr rs, s')
     \<and> execution s' ''t1'' ''c'' = Some (demo_exec ''c'' ''completed'')
     \<and> (\<exists>w. execution s' ''t1'' ''r'' = Some w \<and> field w ''status'' = Str ''resuming'')"
proof -
  obtain rs s' where r: "recoverAll (pg_orchestration ''t1'') False demo_db = (Inr rs, s')"
    and all: "\<And>i. case execution demo_db ''t1'' i of
          None \<Rightarrow> execution s' ''t1'' i = None
        | Some v \<Rightarrow> if recoverable v
            then \<exists>w. execution s' ''t1'' i = Some w \<and> field w ''status'' = Str ''resuming'' \<and> recoveries v < recoveries w
            else execution s' ''t1'' i = Some v"
    using recovery_sweep_resumes_interrupted [OF demo_db_ok] by blast
  from all [of "''c''"] all [of "''r''"] r show ?thesis
    by (auto simp: demo_db_look recoverable_def RECOVERABLE_def demo_exec_def)
qed

end
