(* ===== verification/JsObject.thy ===== *)
theory JsObject
  imports Domain JsDate
begin

text \<open>
  Object and collection operations shared by the components: indexing an object by a computed name,
  membership in arrays and sets, ordering, and the composite keys \<^verbatim>\<open>`${a}:${b}`\<close> of maps.
\<close>

section \<open>Indexing an object literal\<close>

type_synonym 'a js_object = "(string \<times> 'a) list"

text \<open>
  A lookup \<^verbatim>\<open>table[name]\<close> on an object literal also finds what the literal inherits: these names hold
  functions, or an object, that are neither iterable nor have a method \<^verbatim>\<open>includes\<close>.
\<close>

definition inherited :: "string list" where
  "inherited = [''constructor'', ''__defineGetter__'', ''__defineSetter__'', ''hasOwnProperty'', ''__lookupGetter__'',
     ''__lookupSetter__'', ''isPrototypeOf'', ''propertyIsEnumerable'', ''toString'', ''valueOf'', ''__proto__'', ''toLocaleString'']"

datatype member = Value jsval | Builtin

definition index :: "jsval \<Rightarrow> jsval \<Rightarrow> member" where
  "index table name =
     (case map_of (own_fields table) (to_str name) of
        Some v \<Rightarrow> Value v
      | None \<Rightarrow> if to_str name \<in> set inherited then Builtin else Value Undefined)"

lemma index_field: "to_str name \<notin> set inherited \<Longrightarrow> index (Obj fs) name = Value (field (Obj fs) (to_str name))"
  by (simp add: index_def split: option.split)

section \<open>Membership and ordering\<close>

text \<open>\<^verbatim>\<open>includes\<close> and \<^verbatim>\<open>Set.has\<close>: equality of primitive values, identity of objects.\<close>

definition has :: "jsval list \<Rightarrow> jsval \<Rightarrow> bool" where
  "has xs x \<longleftrightarrow> \<not> is_ref x \<and> x \<in> set xs"

text \<open>\<^verbatim>\<open>a > b\<close>: two strings by code units, anything else as numbers.\<close>

definition js_gt :: "jsval \<Rightarrow> jsval \<Rightarrow> bool" where
  "js_gt a b =
     (let p = (\<lambda>v. if is_ref v then Str (to_str v) else v) in
      if is_str (p a) \<and> is_str (p b) then \<not> str_le (to_str a) (to_str b)
      else num_gt (to_num a) (to_num b))"

text \<open>\<^verbatim>\<open>Array.prototype.filter\<close> with a predicate that may throw.\<close>

fun filter_or_throw :: "('a \<Rightarrow> js_error + bool) \<Rightarrow> 'a list \<Rightarrow> js_error + 'a list" where
  "filter_or_throw p [] = Inr []"
| "filter_or_throw p (x # xs) =
     (case p x of Inl e \<Rightarrow> Inl e
      | Inr b \<Rightarrow> (case filter_or_throw p xs of Inl e \<Rightarrow> Inl e | Inr ys \<Rightarrow> Inr (if b then x # ys else ys)))"

definition nullish :: "jsval \<Rightarrow> bool" where
  "nullish v \<longleftrightarrow> v = Null \<or> v = Undefined"

section \<open>JSON text\<close>

definition hex_digit :: "nat \<Rightarrow> char" where
  "hex_digit n = ''0123456789abcdef'' ! n"

definition json_char :: "char \<Rightarrow> string" where
  "json_char c =
     (let n = (of_char c :: nat) in
      if n = 34 then [char_of (92 :: nat), c] else if n = 92 then [c, c]
      else if n = 8 then char_of (92 :: nat) # ''b'' else if n = 9 then char_of (92 :: nat) # ''t''
      else if n = 10 then char_of (92 :: nat) # ''n'' else if n = 12 then char_of (92 :: nat) # ''f''
      else if n = 13 then char_of (92 :: nat) # ''r''
      else if n < 32 then char_of (92 :: nat) # ''u00'' @ [hex_digit (n div 16), hex_digit (n mod 16)]
      else [c])"

definition json_string :: "string \<Rightarrow> string" where
  "json_string s = [char_of (34 :: nat)] @ concat (map json_char s) @ [char_of (34 :: nat)]"

text \<open>\<^verbatim>\<open>JSON.stringify(v)\<close>; undefined has no text, and a field that has none is left out.\<close>

fun stringify :: "jsval \<Rightarrow> string option" where
  "stringify Undefined = None"
| "stringify Null = Some ''null''"
| "stringify (Boolean b) = Some (if b then ''true'' else ''false'')"
| "stringify (Num n) = Some (int_str n)"
| "stringify NaN = Some ''null''"
| "stringify (Inf _) = Some ''null''"
| "stringify (Str s) = Some (json_string s)"
| "stringify (Arr xs) = Some (''['' @ join '','' (map (\<lambda>x. case stringify x of None \<Rightarrow> ''null'' | Some t \<Rightarrow> t) xs) @ '']'')"
| "stringify (Obj fs) = Some (''{'' @ join '',''
     (concat (map (\<lambda>(k, v). case stringify v of None \<Rightarrow> [] | Some t \<Rightarrow> [json_string k @ '':'' @ t]) fs)) @ ''}'')"

section \<open>Composite keys\<close>

definition pair_key :: "jsval \<Rightarrow> jsval \<Rightarrow> string" where
  "pair_key a b = to_str a @ colon # to_str b"

lemma pair_key_inject: "segment t \<Longrightarrow> segment t' \<Longrightarrow> pair_key (Str t) a = pair_key (Str t') b \<longleftrightarrow> t = t' \<and> to_str a = to_str b"
  by (simp add: pair_key_def segment_append_inject)

end
