(* ===== verification/EventStore.thy ===== *)
theory EventStore
  imports WorkflowProperties JsObject "HOL-Library.Multiset"
begin

text \<open>
  \<open>DurableEventStore\<close> (\<^verbatim>\<open>modules/events/durable_store.js\<close>): events normalized, appended once per
  id to a record repository, and replayed in order. The clock and the UUID source are read from
  the state; \<open>collate\<close> is the sign of \<^verbatim>\<open>String.prototype.localeCompare\<close> in the runtime's locale.
\<close>

section \<open>Appending\<close>

record 's event_store =
  es_repository :: "'s repository"
  es_now :: "'s \<Rightarrow> int"
  es_uuid :: "'s \<Rightarrow> string"
  es_collate :: "string \<Rightarrow> string \<Rightarrow> int"

text \<open>\<open>usable\<close> is the constructor's test of the repository's \<^verbatim>\<open>save\<close> and \<^verbatim>\<open>all\<close> methods.\<close>

definition new_DurableEventStore ::
  "'s repository option \<Rightarrow> bool \<Rightarrow> ('s \<Rightarrow> int) \<Rightarrow> ('s \<Rightarrow> string) \<Rightarrow> (string \<Rightarrow> string \<Rightarrow> int) \<Rightarrow> js_error + 's event_store" where
  "new_DurableEventStore repository usable clock uuid collate =
     (case repository of
        None \<Rightarrow> Inl (TypeError ''INVALID_EVENT_STORE'')
      | Some R \<Rightarrow> if \<not> usable then Inl (TypeError ''INVALID_EVENT_STORE'')
          else Inr \<lparr>es_repository = R, es_now = clock, es_uuid = uuid, es_collate = collate\<rparr>)"

definition normalizeEvent :: "jsval \<Rightarrow> int \<Rightarrow> string \<Rightarrow> js_error + jsval" where
  "normalizeEvent event now uuid =
     (if \<not> truthy event \<or> \<not> is_ref event \<or> \<not> truthy (field event ''type'') then Inl (TypeError ''INVALID_EVENT'')
      else let i = js_or (field event ''id'') (Str (''evt_'' @ uuid)) in
        Inr (spread event
          [(''id'', i),
           (''correlationId'', js_or (field event ''correlationId'') i),
           (''createdAt'', js_or (field event ''createdAt'') (Str (iso_of_ms now))),
           (''version'', js_or (field event ''version'') (Num 1))]))"

definition append_event :: "'s event_store \<Rightarrow> jsval \<Rightarrow> ('s, jsval) act" where
  "append_event es event = (\<lambda>s.
     case normalizeEvent event (es_now es s) (es_uuid es s) of
       Inl e \<Rightarrow> (Inl e, s)
     | Inr r \<Rightarrow>
         bnd (rfind (es_repository es) ''event'' (field r ''id'')) (\<lambda>existing.
           if truthy existing then ret existing
           else rsave (es_repository es) ''event'' (field r ''id'') r) s)"

definition get_event :: "'s event_store \<Rightarrow> jsval \<Rightarrow> ('s, jsval) act" where
  "get_event es i = rfind (es_repository es) ''event'' i"

section \<open>Replay\<close>

definition of_type :: "jsval \<Rightarrow> jsval \<Rightarrow> js_error + bool" where
  "of_type type event =
     (if \<not> truthy type then Inr True
      else if nullish event then Inl null_read_error
      else Inr (strict_eq (field event ''type'') type))"

definition created_after :: "jsval \<Rightarrow> jsval \<Rightarrow> js_error + bool" where
  "created_after after event =
     (if \<not> truthy after then Inr True
      else if nullish event then Inl null_read_error
      else Inr (js_gt (field event ''createdAt'') after))"

text \<open>\<^verbatim>\<open>a.localeCompare(b)\<close>: a method of strings only; its argument is converted to a string.\<close>

fun locale_compare :: "(string \<Rightarrow> string \<Rightarrow> int) \<Rightarrow> jsval \<Rightarrow> jsval \<Rightarrow> js_error + int" where
  "locale_compare collate (Str x) b = Inr (collate x (to_str b))"
| "locale_compare collate a b =
     Inl (if nullish a then null_read_error else TypeError ''localeCompare is not a function'')"

definition compare_events :: "(string \<Rightarrow> string \<Rightarrow> int) \<Rightarrow> jsval \<Rightarrow> jsval \<Rightarrow> js_error + int" where
  "compare_events collate a b =
     (if nullish a \<or> nullish b then Inl null_read_error
      else case locale_compare collate (field a ''createdAt'') (field b ''createdAt'') of
        Inl e \<Rightarrow> Inl e
      | Inr c \<Rightarrow> if c \<noteq> 0 then Inr c else locale_compare collate (field a ''id'') (field b ''id''))"

text \<open>
  \<^verbatim>\<open>Array.prototype.sort\<close>: stable, with undefined elements last and never compared; the order
  of the comparisons is the implementation's, here those of an insertion sort from the left, and a
  throwing comparator aborts it.
\<close>

fun insert_sorted :: "('a \<Rightarrow> 'a \<Rightarrow> js_error + int) \<Rightarrow> 'a \<Rightarrow> 'a list \<Rightarrow> js_error + 'a list" where
  "insert_sorted cmp x [] = Inr [x]"
| "insert_sorted cmp x (y # ys) =
     (case cmp x y of Inl e \<Rightarrow> Inl e
      | Inr c \<Rightarrow> if c < 0 then Inr (x # y # ys)
                else (case insert_sorted cmp x ys of Inl e \<Rightarrow> Inl e | Inr zs \<Rightarrow> Inr (y # zs)))"

fun sort_from :: "('a \<Rightarrow> 'a \<Rightarrow> js_error + int) \<Rightarrow> 'a list \<Rightarrow> 'a list \<Rightarrow> js_error + 'a list" where
  "sort_from cmp acc [] = Inr acc"
| "sort_from cmp acc (x # xs) =
     (case insert_sorted cmp x acc of Inl e \<Rightarrow> Inl e | Inr acc' \<Rightarrow> sort_from cmp acc' xs)"

definition js_sort :: "(jsval \<Rightarrow> jsval \<Rightarrow> js_error + int) \<Rightarrow> jsval list \<Rightarrow> js_error + jsval list" where
  "js_sort cmp xs =
     (case sort_from cmp [] (filter (\<lambda>x. x \<noteq> Undefined) xs) of
        Inl e \<Rightarrow> Inl e
      | Inr ys \<Rightarrow> Inr (ys @ filter (\<lambda>x. x = Undefined) xs))"

definition select_events :: "'s event_store \<Rightarrow> jsval \<Rightarrow> jsval \<Rightarrow> jsval list \<Rightarrow> js_error + jsval list" where
  "select_events es type after events =
     (case filter_or_throw (of_type type) events of
        Inl e \<Rightarrow> Inl e
      | Inr typed \<Rightarrow> (case filter_or_throw (created_after after) typed of
          Inl e \<Rightarrow> Inl e
        | Inr recent \<Rightarrow> js_sort (compare_events (es_collate es)) recent))"

definition replay :: "'s event_store \<Rightarrow> jsval \<Rightarrow> jsval \<Rightarrow> (jsval \<Rightarrow> ('s, unit) act) option \<Rightarrow> ('s, nat) act" where
  "replay es type after handler =
     (case handler of
        None \<Rightarrow> throw (TypeError ''INVALID_REPLAY_HANDLER'')
      | Some h \<Rightarrow> bnd (rall (es_repository es) ''event'') (\<lambda>events.
          case select_events es type after events of
            Inl e \<Rightarrow> throw e
          | Inr filtered \<Rightarrow> bnd (for_each h filtered) (\<lambda>_. ret (length filtered))))"

section \<open>Sorting\<close>

text \<open>The comparator never throws on the elements and orders them consistently.\<close>

definition compares_as :: "('a \<Rightarrow> 'a \<Rightarrow> js_error + int) \<Rightarrow> ('a \<Rightarrow> 'a \<Rightarrow> int) \<Rightarrow> 'a set \<Rightarrow> bool" where
  "compares_as cmp c A \<longleftrightarrow> (\<forall>a \<in> A. \<forall>b \<in> A. cmp a b = Inr (c a b))"

definition consistent :: "('a \<Rightarrow> 'a \<Rightarrow> int) \<Rightarrow> bool" where
  "consistent c \<longleftrightarrow> (\<forall>a b. c a b < 0 \<longleftrightarrow> 0 < c b a) \<and> (\<forall>x y z. c x y \<le> 0 \<longrightarrow> c y z \<le> 0 \<longrightarrow> c x z \<le> 0)"

lemma consistentD:
  assumes "consistent c"
  shows "c a b < 0 \<longleftrightarrow> 0 < c b a" "c x y \<le> 0 \<Longrightarrow> c y z \<le> 0 \<Longrightarrow> c x z \<le> 0" "c a a = 0"
    "\<not> c a b < 0 \<longleftrightarrow> c b a \<le> 0"
proof -
  note c = assms [unfolded consistent_def]
  show "c a b < 0 \<longleftrightarrow> 0 < c b a" "c x y \<le> 0 \<Longrightarrow> c y z \<le> 0 \<Longrightarrow> c x z \<le> 0" using c by blast+
  have "c a a < 0 \<longleftrightarrow> 0 < c a a" using c by blast
  then show "c a a = 0" by linarith
  have "c b a < 0 \<longleftrightarrow> 0 < c a b" "c a b < 0 \<longleftrightarrow> 0 < c b a" using c by blast+
  then show "\<not> c a b < 0 \<longleftrightarrow> c b a \<le> 0" by linarith
qed

lemma insert_sorted_total:
  assumes "consistent c" "compares_as cmp c (insert x (set ys))" "sorted_wrt (\<lambda>a b. c a b \<le> 0) ys"
  shows "\<exists>zs. insert_sorted cmp x ys = Inr zs \<and> mset zs = add_mset x (mset ys) \<and> sorted_wrt (\<lambda>a b. c a b \<le> 0) zs"
  using assms(2,3)
proof (induction ys)
  case (Cons y ys)
  have xy: "cmp x y = Inr (c x y)" using Cons.prems(1) by (simp add: compares_as_def)
  show ?case
  proof (cases "c x y < 0")
    case True
    have "\<forall>z \<in> set ys. c x z \<le> 0"
    proof
      fix z assume "z \<in> set ys"
      then have "c y z \<le> 0" using Cons.prems(2) by simp
      with True show "c x z \<le> 0" by (intro consistentD(2) [OF assms(1), of x y z]) simp
    qed
    with True xy Cons.prems(2) show ?thesis by auto
  next
    case False
    have "compares_as cmp c (insert x (set ys))" using Cons.prems(1) by (simp add: compares_as_def)
    with Cons.IH Cons.prems(2) obtain zs where zs: "insert_sorted cmp x ys = Inr zs" "mset zs = add_mset x (mset ys)"
      "sorted_wrt (\<lambda>a b. c a b \<le> 0) zs" by auto
    have "set zs = insert x (set ys)" using arg_cong [OF zs(2), of set_mset] by simp
    then have "\<forall>z \<in> set zs. c y z \<le> 0" using Cons.prems(2) False consistentD(4) [OF assms(1)] by auto
    with False xy zs show ?thesis by simp
  qed
qed simp

lemma sort_from_total:
  assumes "consistent c" "compares_as cmp c (set acc \<union> set xs)" "sorted_wrt (\<lambda>a b. c a b \<le> 0) acc"
  shows "\<exists>zs. sort_from cmp acc xs = Inr zs \<and> mset zs = mset acc + mset xs \<and> sorted_wrt (\<lambda>a b. c a b \<le> 0) zs"
  using assms(2,3)
proof (induction xs arbitrary: acc)
  case (Cons x xs)
  have "compares_as cmp c (insert x (set acc))" using Cons.prems(1) by (simp add: compares_as_def)
  from insert_sorted_total [OF assms(1) this Cons.prems(2)] obtain acc' where
    acc': "insert_sorted cmp x acc = Inr acc'" "mset acc' = add_mset x (mset acc)" "sorted_wrt (\<lambda>a b. c a b \<le> 0) acc'" by blast
  have "set acc' = insert x (set acc)" using arg_cong [OF acc'(2), of set_mset] by simp
  then have "compares_as cmp c (set acc' \<union> set xs)" using Cons.prems(1) by simp
  from Cons.IH [OF this acc'(3)] acc' show ?case by simp
qed simp

lemma filter_or_throw_total:
  "(\<And>x. x \<in> set xs \<Longrightarrow> p x = Inr (q x)) \<Longrightarrow> filter_or_throw p xs = Inr (filter q xs)"
  by (induction xs) simp_all

text \<open>The order of replay: by creation time, then by id.\<close>

definition event_order :: "(string \<Rightarrow> string \<Rightarrow> int) \<Rightarrow> jsval \<Rightarrow> jsval \<Rightarrow> int" where
  "event_order collate a b =
     (let c = collate (to_str (field a ''createdAt'')) (to_str (field b ''createdAt'')) in
      if c \<noteq> 0 then c else collate (to_str (field a ''id'')) (to_str (field b ''id'')))"

lemma event_order_consistent:
  assumes "consistent collate"
  shows "consistent (event_order collate)"
proof -
  note c = consistentD [OF assms]
  have zero: "collate a b = 0 \<longleftrightarrow> collate a b \<le> 0 \<and> collate b a \<le> 0" for a b
    using c(4) [of a b] c(4) [of b a] by linarith
  have strict: "collate x z < 0" if "collate x y \<le> 0" "collate y z \<le> 0" "collate x y < 0 \<or> collate y z < 0" for x y z
    using that c(2) [of z x y] c(2) [of y z x] c(4) [of x z] c(4) [of x y] c(4) [of y z] by linarith
  show ?thesis
    unfolding consistent_def
  proof (intro conjI allI impI)
    fix a b :: jsval
    show "event_order collate a b < 0 \<longleftrightarrow> 0 < event_order collate b a"
      using c(1) [of "to_str (field a ''createdAt'')" "to_str (field b ''createdAt'')"]
        c(1) [of "to_str (field b ''createdAt'')" "to_str (field a ''createdAt'')"]
        c(1) [of "to_str (field a ''id'')" "to_str (field b ''id'')"]
      by (auto simp: event_order_def Let_def)
  next
    fix x y z :: jsval
    let ?t = "\<lambda>v. to_str (field v ''createdAt'')" and ?i = "\<lambda>v. to_str (field v ''id'')"
    assume xy: "event_order collate x y \<le> 0" and yz: "event_order collate y z \<le> 0"
    then have t: "collate (?t x) (?t y) \<le> 0" "collate (?t y) (?t z) \<le> 0"
      by (auto simp: event_order_def Let_def split: if_splits)
    show "event_order collate x z \<le> 0"
    proof (cases "collate (?t x) (?t y) < 0 \<or> collate (?t y) (?t z) < 0")
      case True
      with strict [OF t] show ?thesis by (simp add: event_order_def)
    next
      case False
      with t have "collate (?t x) (?t y) = 0" "collate (?t y) (?t z) = 0" by simp_all
      moreover from this have "collate (?t x) (?t z) = 0"
        using zero c(2) [of "?t x" "?t y" "?t z"] c(2) [of "?t z" "?t y" "?t x"] by simp
      ultimately show ?thesis
        using xy yz c(2) [of "?i x" "?i y" "?i z"] by (simp add: event_order_def)
    qed
  qed
qed

text \<open>A stored event: an object under its own id, with a creation time to order it by.\<close>

definition event_ok :: "string \<Rightarrow> jsval \<Rightarrow> bool" where
  "event_ok i v \<longleftrightarrow> i \<noteq> [] \<and> is_obj v \<and> field v ''id'' = Str i \<and> is_str (field v ''createdAt'')"

definition events_wf :: "('s \<Rightarrow> string \<Rightarrow> string \<Rightarrow> jsval option) \<Rightarrow> 's \<Rightarrow> bool" where
  "events_wf look s \<longleftrightarrow> (\<forall>i v. look s ''event'' i = Some v \<longrightarrow> event_ok i v)"

definition matches_query :: "jsval \<Rightarrow> jsval \<Rightarrow> jsval \<Rightarrow> bool" where
  "matches_query type after v \<longleftrightarrow> (truthy type \<longrightarrow> strict_eq (field v ''type'') type)
     \<and> (truthy after \<longrightarrow> js_gt (field v ''createdAt'') after)"

lemma event_ok_simps:
  assumes "event_ok i v"
  shows "\<not> nullish v" "v \<noteq> Undefined" "truthy v" "is_obj v" "field v ''id'' = Str i" "\<exists>t. field v ''createdAt'' = Str t"
  using assms by (cases "field v ''createdAt''"; auto simp: event_ok_def nullish_def)+

lemma compare_events_ok:
  assumes "event_ok i a" "event_ok j b"
  shows "compare_events collate a b = Inr (event_order collate a b)"
  using event_ok_simps [OF assms(1)] event_ok_simps [OF assms(2)]
  by (auto simp: compare_events_def event_order_def Let_def)

lemma select_events_ok:
  assumes "consistent (es_collate es)" "\<forall>v \<in> set xs. \<exists>i. event_ok i v"
  shows "\<exists>ys. select_events es type after xs = Inr ys \<and> mset ys = mset (filter (matches_query type after) xs)
    \<and> sorted_wrt (\<lambda>a b. event_order (es_collate es) a b \<le> 0) ys"
proof -
  let ?T = "\<lambda>v. truthy type \<longrightarrow> strict_eq (field v ''type'') type"
  let ?A = "\<lambda>v. truthy after \<longrightarrow> js_gt (field v ''createdAt'') after"
  have ok: "\<And>v. v \<in> set xs \<Longrightarrow> \<not> nullish v \<and> v \<noteq> Undefined" using assms(2) by (blast dest: event_ok_simps)
  have T: "filter_or_throw (of_type type) xs = Inr (filter ?T xs)"
    by (rule filter_or_throw_total) (use ok in \<open>auto simp: of_type_def\<close>)
  have A: "filter_or_throw (created_after after) (filter ?T xs) = Inr (filter ?A (filter ?T xs))"
    by (rule filter_or_throw_total) (use ok in \<open>auto simp: created_after_def\<close>)
  define zs where "zs = filter ?A (filter ?T xs)"
  have zs: "zs = filter (matches_query type after) xs" by (auto simp: zs_def matches_query_def intro: filter_cong)
  have sub: "set zs \<subseteq> set xs" by (auto simp: zs)
  have "compares_as (compare_events (es_collate es)) (event_order (es_collate es)) (set [] \<union> set zs)"
  proof -
    have "compare_events (es_collate es) a b = Inr (event_order (es_collate es) a b)" if "a \<in> set xs" "b \<in> set xs" for a b
      using assms(2) that compare_events_ok by blast
    then show ?thesis using sub by (auto simp: compares_as_def)
  qed
  from sort_from_total [OF event_order_consistent [OF assms(1)] this] obtain ys where
    ys: "sort_from (compare_events (es_collate es)) [] zs = Inr ys" "mset ys = mset zs"
    "sorted_wrt (\<lambda>a b. event_order (es_collate es) a b \<le> 0) ys" by auto
  have "\<forall>v \<in> set zs. v \<noteq> Undefined" using ok sub by blast
  then have "filter (\<lambda>x. x \<noteq> Undefined) zs = zs" "filter (\<lambda>x. x = Undefined) zs = []"
    unfolding filter_id_conv filter_empty_conv by blast+
  then have "select_events es type after xs = Inr ys"
    using ys(1) by (simp add: select_events_def js_sort_def T A [folded zs_def] del: filter_filter)
  with ys(2,3) zs show ?thesis by blast
qed

section \<open>What an append does\<close>

text \<open>An event whose id, if it has one, is a string.\<close>

definition named :: "jsval \<Rightarrow> bool" where
  "named event \<longleftrightarrow> (truthy (field event ''id'') \<longrightarrow> is_str (field event ''id''))"

lemma field_spread_last:
  "map_of (rev kvs) k = Some x \<Longrightarrow> field (spread v kvs) k = x"
  by (simp add: spread_def map_of_put_fields)

lemma normalizeEvent_Inr:
  assumes "normalizeEvent event now uuid = Inr r" "is_json event" "named event"
  obtains i where "field r ''id'' = Str i" "i \<noteq> []" "is_json r" "is_obj r"
    "truthy (field event ''id'') \<Longrightarrow> field event ''id'' = Str i"
    "truthy (field event ''createdAt'') \<Longrightarrow> field r ''createdAt'' = field event ''createdAt''"
    "\<not> truthy (field event ''createdAt'') \<Longrightarrow> field r ''createdAt'' = Str (iso_of_ms now)"
proof -
  let ?i = "js_or (field event ''id'') (Str (''evt_'' @ uuid))"
  let ?kvs = "[(''id'', ?i), (''correlationId'', js_or (field event ''correlationId'') ?i),
           (''createdAt'', js_or (field event ''createdAt'') (Str (iso_of_ms now))),
           (''version'', js_or (field event ''version'') (Num 1))]"
  have r: "r = spread event ?kvs" using assms(1) by (simp add: normalizeEvent_def Let_def split: if_splits)
  have "\<exists>i. ?i = Str i \<and> i \<noteq> []"
    using assms(3) by (cases "field event ''id''") (auto simp: js_or_def named_def)
  then obtain i where i: "?i = Str i" "i \<noteq> []" by blast
  have json: "is_json (js_or (field event k) x)" if "is_json x" for k x
  proof (cases "truthy (field event k)")
    case True
    have "is_json (field event k)"
    proof (cases event)
      case (Obj fs)
      with True obtain y where y: "map_of fs k = Some y" "field event k = y" by (auto split: option.splits)
      then have "(k, y) \<in> set fs" by (simp add: map_of_SomeD)
      with y assms(2) Obj show ?thesis by auto
    qed (use True in \<open>auto split: if_splits\<close>)
    then show ?thesis using True by (simp add: js_or_def)
  qed (use that in \<open>simp add: js_or_def\<close>)
  have "is_json r"
    unfolding r using assms(2) by (rule is_json_spread) (simp add: json)
  with i show thesis
    by (intro that [of i]) (auto simp: r field_spread_last js_or_def split: if_splits)
qed

fun append_all :: "'s event_store \<Rightarrow> jsval list \<Rightarrow> 's \<Rightarrow> 's" where
  "append_all es [] s = s"
| "append_all es (event # events) s = append_all es events (snd (append_event es event s))"

context record_repository
begin

lemma append_run:
  assumes "inv s" "okty ''event''" "es_repository es = R" "is_json event" "named event"
    and "normalizeEvent event (es_now es s) (es_uuid es s) = Inr r" "field r ''id'' = Str i"
  shows "append_event es event s =
    (if truthy (or_null (look s ''event'' i)) then (Inr (or_null (look s ''event'' i)), s)
     else (Inr r, put ''event'' i r s))"
proof -
  obtain j where j: "field r ''id'' = Str j" "j \<noteq> []" "is_json r"
    by (rule normalizeEvent_Inr [OF assms(6,4,5)])
  then have "i \<noteq> []" "storable r" using assms(7) by (auto intro: storable_json)
  with assms show ?thesis by (simp add: append_event_def bnd_def find_law save_law)
qed

lemma append_keeps:
  assumes "inv s" "okty ''event''" "es_repository es = R" "is_json event" "named event"
  shows "inv (snd (append_event es event s))"
    and "look s ''event'' i = Some v \<Longrightarrow> truthy v \<Longrightarrow> look (snd (append_event es event s)) ''event'' i = Some v"
proof -
  have "inv (snd (append_event es event s)) \<and>
    (\<forall>i v. look s ''event'' i = Some v \<longrightarrow> truthy v \<longrightarrow> look (snd (append_event es event s)) ''event'' i = Some v)"
  proof (cases "normalizeEvent event (es_now es s) (es_uuid es s)")
    case (Inl e)
    then show ?thesis using assms(1) by (simp add: append_event_def)
  next
    case (Inr r)
    obtain j where j: "field r ''id'' = Str j" "j \<noteq> []" "is_json r"
      by (rule normalizeEvent_Inr [OF Inr assms(4,5)])
    then have "storable r" by (auto intro: storable_json)
    with assms(1,2) j(2) show ?thesis
      unfolding append_run [OF assms Inr j(1)]
      by (auto simp: inv_put look_put or_null_def split: option.splits)
  qed
  then show "inv (snd (append_event es event s))"
    "look s ''event'' i = Some v \<Longrightarrow> truthy v \<Longrightarrow> look (snd (append_event es event s)) ''event'' i = Some v" by blast+
qed

lemma append_all_keeps:
  assumes "okty ''event''" "es_repository es = R"
  shows "inv s \<Longrightarrow> \<forall>event \<in> set events. is_json event \<and> named event \<Longrightarrow> inv (append_all es events s)"
    and "inv s \<Longrightarrow> \<forall>event \<in> set events. is_json event \<and> named event \<Longrightarrow> look s ''event'' i = Some v \<Longrightarrow> truthy v
      \<Longrightarrow> look (append_all es events s) ''event'' i = Some v"
  by (induction events arbitrary: s) (auto simp: append_keeps assms)

lemma replay_run:
  assumes "inv s" "okty ''event''" "es_repository es = R" "events_wf look s" "consistent (es_collate es)"
  shows "\<exists>xs. replay es type after (Some h) s = bnd (for_each h xs) (\<lambda>_. ret (length xs)) s
    \<and> mset xs = mset (filter (matches_query type after) (listing s ''event''))
    \<and> sorted_wrt (\<lambda>a b. event_order (es_collate es) a b \<le> 0) xs"
proof -
  have "\<forall>v \<in> set (listing s ''event''). \<exists>i. event_ok i v"
    using assms(4) unfolding set_listing [OF assms(1,2)] events_wf_def by blast
  from select_events_ok [OF assms(5) this] obtain ys where
    "select_events es type after (listing s ''event'') = Inr ys" "mset ys = mset (filter (matches_query type after) (listing s ''event''))"
    "sorted_wrt (\<lambda>a b. event_order (es_collate es) a b \<le> 0) ys" by blast
  then show ?thesis using assms(1-3) by (auto simp: replay_def bnd_def all_law)
qed

end

end
