(* ===== verification/EventBus.thy ===== *)
theory EventBus
  imports EventStore
begin

text \<open>
  \<open>EventBus\<close> (\<^verbatim>\<open>modules/events/bus.js\<close>). The handlers of a type are a JavaScript \<^verbatim>\<open>Set\<close>: it
  iterates in insertion order over the entries as they are at each step, so an entry deleted before its
  turn is skipped and one added meanwhile is visited. A deleted entry leaves a hole in the entry
  list, as in the language definition, which keeps the positions of a running iteration valid.
\<close>

section \<open>Sets with a running iteration\<close>

type_synonym 'h slots = "'h option list"

definition set_add :: "'h \<Rightarrow> 'h slots \<Rightarrow> 'h slots" where
  "set_add h hs = (if Some h \<in> set hs then hs else hs @ [Some h])"

definition set_delete :: "'h \<Rightarrow> 'h slots \<Rightarrow> 'h slots" where
  "set_delete h hs = map (\<lambda>x. if x = Some h then None else x) hs"

definition live :: "'h slots \<Rightarrow> 'h list" where
  "live hs = List.map_filter id hs"

lemma live_simps [simp]:
  "live [] = []" "live (None # hs) = live hs" "live (Some h # hs) = h # live hs" "live (xs @ ys) = live xs @ live ys"
  by (simp_all add: live_def List.map_filter_def)

lemma set_live [simp]: "h \<in> set (live hs) \<longleftrightarrow> Some h \<in> set hs"
  by (force simp: live_def List.map_filter_def image_iff)

lemma live_set_add: "live (set_add h hs) = (if h \<in> set (live hs) then live hs else live hs @ [h])"
  by (simp add: set_add_def)

lemma live_set_delete: "live (set_delete h hs) = filter (\<lambda>x. x \<noteq> h) (live hs)"
proof (induction hs)
  case (Cons x hs)
  then show ?case by (cases x) (auto simp: set_delete_def)
qed (simp add: set_delete_def)

section \<open>The bus\<close>

text \<open>
  \<open>hb_env\<close> is the rest of the state: what the handlers and the store work on. Handlers are
  identified by \<open>'h\<close>; event types are primitive values, on which a \<^verbatim>\<open>Map\<close> compares by value.
\<close>

record ('h, 's) hub =
  hb_handlers :: "(jsval \<times> 'h slots) list"
  hb_env :: 's

definition new_EventBus :: "'s \<Rightarrow> ('h, 's) hub" where
  "new_EventBus s = \<lparr>hb_handlers = [], hb_env = s\<rparr>"

definition slots :: "('h, 's) hub \<Rightarrow> jsval \<Rightarrow> 'h slots" where
  "slots w t = (case map_of (hb_handlers w) t of None \<Rightarrow> [] | Some hs \<Rightarrow> hs)"

text \<open>The result stands for the returned \<^verbatim>\<open>() => handlers.delete(handler)\<close>.\<close>

definition subscribe :: "jsval \<Rightarrow> 'h option \<Rightarrow> (('h, 's) hub, jsval \<times> 'h) act" where
  "subscribe eventType handler = (\<lambda>w.
     case handler of
       None \<Rightarrow> (Inl (TypeError ''INVALID_SUBSCRIPTION''), w)
     | Some h \<Rightarrow>
         if \<not> truthy eventType then (Inl (TypeError ''INVALID_SUBSCRIPTION''), w)
         else (Inr (eventType, h), w\<lparr>hb_handlers := AList.update eventType (set_add h (slots w eventType)) (hb_handlers w)\<rparr>))"

definition unsubscribe :: "jsval \<times> 'h \<Rightarrow> (('h, 's) hub, bool) act" where
  "unsubscribe token = (\<lambda>w. case token of (eventType, h) \<Rightarrow>
     (Inr (Some h \<in> set (slots w eventType)),
      w\<lparr>hb_handlers := AList.update eventType (set_delete h (slots w eventType)) (hb_handlers w)\<rparr>))"

text \<open>
  \<^verbatim>\<open>for (const handler of handlers) await handler(persisted)\<close> from position \<open>i\<close>. A handler may
  subscribe others, so the loop need not end: \<open>None\<close> is a loop that does not.
\<close>

partial_function (option) deliver ::
  "('h \<Rightarrow> jsval \<Rightarrow> (('h, 's) hub, unit) act) \<Rightarrow> jsval \<Rightarrow> jsval \<Rightarrow> nat \<Rightarrow> ('h, 's) hub
    \<Rightarrow> ((js_error + unit) \<times> ('h, 's) hub) option" where
  "deliver run t event i w =
     (if length (slots w t) \<le> i then Some (Inr (), w)
      else case slots w t ! i of
        None \<Rightarrow> deliver run t event (Suc i) w
      | Some h \<Rightarrow> (case run h event w of (r, w') \<Rightarrow>
          (case r of Inl e \<Rightarrow> Some (Inl e, w') | Inr _ \<Rightarrow> deliver run t event (Suc i) w')))"

text \<open>\<open>store\<close> is the optional store's \<^verbatim>\<open>append\<close>.\<close>

definition publish ::
  "('h \<Rightarrow> jsval \<Rightarrow> (('h, 's) hub, unit) act) \<Rightarrow> (jsval \<Rightarrow> (('h, 's) hub, jsval) act) option \<Rightarrow> jsval \<Rightarrow> ('h, 's) hub
    \<Rightarrow> ((js_error + jsval) \<times> ('h, 's) hub) option" where
  "publish run store event w =
     (if \<not> truthy event \<or> \<not> truthy (field event ''type'') then Some (Inl (TypeError ''INVALID_EVENT''), w)
      else case (case store of Some f \<Rightarrow> f event w | None \<Rightarrow> (Inr event, w)) of
        (Inl e, w') \<Rightarrow> Some (Inl e, w')
      | (Inr persisted, w') \<Rightarrow>
          if nullish persisted then Some (Inl null_read_error, w')
          else (case deliver run (field persisted ''type'') persisted 0 w' of
            None \<Rightarrow> None
          | Some (Inl e, w'') \<Rightarrow> Some (Inl e, w'')
          | Some (Inr _, w'') \<Rightarrow> Some (Inr persisted, w'')))"

text \<open>The store's \<^verbatim>\<open>append\<close> works on the environment.\<close>

definition on_hub :: "('s, 'a) act \<Rightarrow> (('h, 's) hub, 'a) act" where
  "on_hub m = (\<lambda>w. case m (hb_env w) of (r, s) \<Rightarrow> (r, w\<lparr>hb_env := s\<rparr>))"

lemma slots_on_hub [simp]: "slots (snd (on_hub m w)) t = slots w t"
  by (simp add: on_hub_def slots_def split: prod.split)

lemma slots_new_EventBus [simp]: "slots (new_EventBus s) t = []"
  by (simp add: slots_def new_EventBus_def)

lemma slots_subscribe [simp]:
  "truthy t \<Longrightarrow> slots (snd (subscribe t (Some h) w)) t' = (if t' = t then set_add h (slots w t) else slots w t')"
  by (simp add: subscribe_def slots_def)

lemma slots_unsubscribe [simp]:
  "slots (snd (unsubscribe (t, h) w)) t' = (if t' = t then set_delete h (slots w t) else slots w t')"
  by (simp add: unsubscribe_def slots_def)

section \<open>Delivery\<close>

text \<open>Handlers that add no subscriptions of the type while it is delivered.\<close>

definition no_growth :: "('h \<Rightarrow> jsval \<Rightarrow> (('h, 's) hub, unit) act) \<Rightarrow> jsval \<Rightarrow> bool" where
  "no_growth run t \<longleftrightarrow> (\<forall>h v w. length (slots (snd (run h v w)) t) \<le> length (slots w t))"

lemma deliver_returns:
  assumes "no_growth run t" "n = length (slots w t) - i"
  shows "\<exists>r. deliver run t event i w = Some r"
  using assms(2)
proof (induction n arbitrary: i w rule: less_induct)
  case (less n)
  show ?case
  proof (cases "length (slots w t) \<le> i")
    case True
    then show ?thesis by (simp add: deliver.simps [of run t event i w])
  next
    case False
    have step: "\<exists>r. deliver run t event (Suc i) w' = Some r" if "length (slots w' t) \<le> length (slots w t)" for w'
      using less.IH [of "length (slots w' t) - Suc i" w' "Suc i"] less.prems False that by fastforce
    have grow: "length (slots (snd (run h event w)) t) \<le> length (slots w t)" for h
      using assms(1) by (simp add: no_growth_def)
    have "\<exists>r. (case run h event w of (r, w') \<Rightarrow> case r of Inl e \<Rightarrow> Some (Inl e, w') | Inr _ \<Rightarrow> deliver run t event (Suc i) w') = Some r" for h
    proof (cases "run h event w")
      case (Pair r w')
      then show ?thesis using step [of w'] grow [of h] by (cases r) auto
    qed
    with step [of w] False show ?thesis by (simp add: deliver.simps [of run t event i w] split: option.split)
  qed
qed

text \<open>Handlers that leave the subscriptions of the type alone.\<close>

definition quiet :: "('h \<Rightarrow> jsval \<Rightarrow> (('h, 's) hub, unit) act) \<Rightarrow> jsval \<Rightarrow> bool" where
  "quiet run t \<longleftrightarrow> (\<forall>h v w. slots (snd (run h v w)) t = slots w t)"

text \<open>The reference: call each of the handlers in turn, stop at the first rejection.\<close>

primrec call_all :: "('h \<Rightarrow> jsval \<Rightarrow> ('s, unit) act) \<Rightarrow> jsval \<Rightarrow> 'h list \<Rightarrow> ('s, unit) act" where
  "call_all run event [] = ret ()"
| "call_all run event (h # hs) = bnd (run h event) (\<lambda>_. call_all run event hs)"

lemma deliver_quiet:
  assumes "quiet run t" "i \<le> length (slots w t)"
  shows "deliver run t event i w = Some (call_all run event (live (drop i (slots w t))) w)"
  using assms(2)
proof (induction "length (slots w t) - i" arbitrary: i w)
  case 0
  then show ?case by (simp add: deliver.simps [of run t event i w])
next
  case (Suc n)
  have i: "i < length (slots w t)" using Suc.hyps(2) by simp
  have drop: "drop i (slots w t) = slots w t ! i # drop (Suc i) (slots w t)" by (rule Cons_nth_drop_Suc [OF i, symmetric])
  have IH: "deliver run t event (Suc i) w' = Some (call_all run event (live (drop (Suc i) (slots w t))) w')"
    if "slots w' t = slots w t" for w'
    using Suc.hyps(1) [of w' "Suc i"] Suc.hyps(2) i that by simp
  show ?case
  proof (cases "slots w t ! i")
    case None
    then show ?thesis using i IH [of w] by (simp add: deliver.simps [of run t event i w] drop)
  next
    case (Some h)
    obtain r w' where run: "run h event w = (r, w')" by fastforce
    have "slots w' t = slots w t" using assms(1) run unfolding quiet_def by (metis snd_conv)
    from IH [OF this] show ?thesis
      using i Some run by (cases r) (simp_all add: deliver.simps [of run t event i w] drop bnd_run')
  qed
qed

section \<open>Subscriptions\<close>

datatype 'h sub_op = Sub jsval 'h | Unsub jsval 'h

fun do_sub :: "'h sub_op \<Rightarrow> ('h, 's) hub \<Rightarrow> ('h, 's) hub" where
  "do_sub (Sub t h) w = snd (subscribe t (Some h) w)"
| "do_sub (Unsub t h) w = snd (unsubscribe (t, h) w)"

text \<open>The abstract subscriber list of a type.\<close>

fun spec_sub :: "jsval \<Rightarrow> 'h sub_op \<Rightarrow> 'h list \<Rightarrow> 'h list" where
  "spec_sub t (Sub t' h) hs = (if t' = t \<and> h \<notin> set hs then hs @ [h] else hs)"
| "spec_sub t (Unsub t' h) hs = (if t' = t then filter (\<lambda>x. x \<noteq> h) hs else hs)"

lemma do_sub_refines:
  "truthy t \<Longrightarrow> live (slots (do_sub x w) t) = spec_sub t x (live (slots w t))"
proof (cases x)
  case (Sub t' h)
  assume "truthy t"
  with Sub show ?thesis
    by (cases "truthy t'") (auto simp: live_set_add, simp_all add: subscribe_def)
next
  case (Unsub t' h)
  then show ?thesis by (simp add: live_set_delete)
qed

lemma spec_sub_distinct: "distinct hs \<Longrightarrow> distinct (spec_sub t x hs)"
  by (cases x) auto

fun do_subs :: "'h sub_op list \<Rightarrow> ('h, 's) hub \<Rightarrow> ('h, 's) hub" where
  "do_subs [] w = w"
| "do_subs (x # xs) w = do_subs xs (do_sub x w)"

lemma do_subs_refines:
  "truthy t \<Longrightarrow> live (slots (do_subs xs w) t) = fold (spec_sub t) xs (live (slots w t))"
  by (induction xs arbitrary: w) (simp_all add: do_sub_refines)

lemma fold_spec_sub_distinct: "distinct hs \<Longrightarrow> distinct (fold (spec_sub t) xs hs)"
  by (induction xs arbitrary: hs) (simp_all add: spec_sub_distinct)

end
