(* ===== verification/EventProperties.thy ===== *)
theory EventProperties
  imports EventBus
begin

text \<open>
  The event bus and the durable event store on the in-memory repository.
\<close>

section \<open>The store on the in-memory repository\<close>

definition mem_events ::
  "('z mem_repo_scheme \<Rightarrow> int) \<Rightarrow> ('z mem_repo_scheme \<Rightarrow> string) \<Rightarrow> (string \<Rightarrow> string \<Rightarrow> int) \<Rightarrow> 'z mem_repo_scheme event_store" where
  "mem_events clock uuid collate = \<lparr>es_repository = mem_repository, es_now = clock, es_uuid = uuid, es_collate = collate\<rparr>"

lemma mem_events_simps [simp]:
  "es_repository (mem_events clock uuid collate) = mem_repository" "es_collate (mem_events clock uuid collate) = collate"
  "es_now (mem_events clock uuid collate) = clock" "es_uuid (mem_events clock uuid collate) = uuid"
  "new_DurableEventStore (Some mem_repository) True clock uuid collate = Inr (mem_events clock uuid collate)"
  by (simp_all add: mem_events_def new_DurableEventStore_def)

lemma segment_event [simp]: "segment ''event''"
  by (simp add: segment_def colon_def)

abbreviation mem_event :: "'z mem_repo_scheme \<Rightarrow> string \<Rightarrow> jsval option" where
  "mem_event s i \<equiv> mem_look s ''event'' i"

text \<open>A consistent comparator to instantiate the theorems with: by code units.\<close>

fun unit_cmp :: "string \<Rightarrow> string \<Rightarrow> int" where
  "unit_cmp [] [] = 0"
| "unit_cmp [] (_ # _) = -1"
| "unit_cmp (_ # _) [] = 1"
| "unit_cmp (x # xs) (y # ys) =
     (if (of_char x :: nat) < of_char y then -1 else if (of_char y :: nat) < of_char x then 1 else unit_cmp xs ys)"

lemma unit_cmp_flip: "unit_cmp a b < 0 \<longleftrightarrow> 0 < unit_cmp b a"
  by (induction a b rule: unit_cmp.induct) auto

lemma unit_cmp_trans: "unit_cmp x y \<le> 0 \<Longrightarrow> unit_cmp y z \<le> 0 \<Longrightarrow> unit_cmp x z \<le> 0"
proof (induction x y arbitrary: z rule: unit_cmp.induct)
  case (2 c cs)
  then show ?case by (cases z) auto
next
  case (4 c cs d ds)
  show ?case
  proof (cases z)
    case (Cons e es)
    let ?n = "of_char :: char \<Rightarrow> nat"
    consider "?n c < ?n d" | "?n d < ?n c" | "?n c = ?n d" by linarith
    then show ?thesis
    proof cases
      case 3
      then show ?thesis using "4.prems" Cons "4.IH" [of es] by (auto split: if_split_asm)
    qed (use "4.prems" Cons in \<open>auto split: if_split_asm\<close>)
  qed (use "4.prems" in simp)
qed auto

lemma unit_cmp_consistent: "consistent unit_cmp"
  unfolding consistent_def
proof (intro conjI allI impI)
  show "unit_cmp a b < 0 \<longleftrightarrow> 0 < unit_cmp b a" for a b by (rule unit_cmp_flip)
  show "unit_cmp x z \<le> 0" if "unit_cmp x y \<le> 0" "unit_cmp y z \<le> 0" for x y z using that by (rule unit_cmp_trans)
qed

definition demo_event :: "string \<Rightarrow> string \<Rightarrow> jsval" where
  "demo_event i at = Obj [(''id'', Str i), (''type'', Str ''task.completed''), (''createdAt'', Str at)]"

definition demo_events :: mem_repo where
  "demo_events = \<lparr>records = [(''event:b'', demo_event ''b'' ''2024-01-02''), (''event:a'', demo_event ''a'' ''2024-01-01'')]\<rparr>"

lemma demo_events_look:
  "mem_event demo_events i = (if i = ''b'' then Some (demo_event ''b'' ''2024-01-02'') else if i = ''a'' then Some (demo_event ''a'' ''2024-01-01'') else None)"
  by (simp add: mem_look_def demo_events_def colon_def)

lemma demo_events_ok: "mem_inv demo_events" "events_wf mem_look demo_events"
proof -
  show "mem_inv demo_events" by (simp add: mem_inv_def demo_events_def)
  show "events_wf mem_look demo_events"
    unfolding events_wf_def demo_events_look by (simp add: event_ok_def demo_event_def)
qed

section \<open>Properties of the store\<close>

text \<open>Functional. Appending an event either refuses it (no type) with nothing changed, or answers with
  the record stored under its id: the one stored before, if there is one, with nothing changed, and
  otherwise the normalized event, stored now. From then on every append of an event with that id
  answers with that same record and changes nothing.\<close>

theorem append_is_idempotent:
  assumes "mem_inv s" "is_json event" "named event"
  shows "let es = mem_events clock uuid collate in
    case normalizeEvent event (clock s) (uuid s) of
      Inl e \<Rightarrow> append_event es event s = (Inl e, s) \<and> e = TypeError ''INVALID_EVENT''
    | Inr r \<Rightarrow> \<exists>i. field r ''id'' = Str i \<and>
        (\<forall>v. mem_event s i = Some v \<longrightarrow> truthy v \<longrightarrow> append_event es event s = (Inr v, s)) \<and>
        (mem_event s i = None \<longrightarrow> (\<exists>s'. append_event es event s = (Inr r, s') \<and> mem_inv s' \<and> mem_event s' i = Some r
           \<and> (\<forall>j. j \<noteq> i \<longrightarrow> mem_event s' j = mem_event s j)
           \<and> (\<forall>again r'. is_json again \<longrightarrow> named again \<longrightarrow> normalizeEvent again (clock s') (uuid s') = Inr r' \<longrightarrow> field r' ''id'' = Str i
                \<longrightarrow> append_event es again s' = (Inr r, s'))))"
proof (cases "normalizeEvent event (clock s) (uuid s)")
  case (Inl e)
  then show ?thesis by (auto simp: append_event_def normalizeEvent_def Let_def split: if_splits)
next
  case (Inr r)
  let ?es = "mem_events clock uuid collate"
  obtain i where i: "field r ''id'' = Str i" "i \<noteq> []" "is_obj r"
    by (rule normalizeEvent_Inr [OF Inr assms(2,3)])
  note run = mem.append_run [OF assms(1) segment_event mem_events_simps(1) assms(2,3)]
  have r: "append_event ?es event s = (if truthy (or_null (mem_event s i)) then (Inr (or_null (mem_event s i)), s)
      else (Inr r, mem_put ''event'' i r s))"
    by (rule run) (use Inr i in simp_all)
  let ?s = "mem_put ''event'' i r s"
  have s': "mem_inv ?s" "mem_event ?s i = Some r" "\<forall>j. j \<noteq> i \<longrightarrow> mem_event ?s j = mem_event s j"
    using mem.inv_put [OF assms(1) segment_event i(2)] mem.look_put [OF assms(1) segment_event segment_event i(2)] by auto
  have again: "append_event ?es again ?s = (Inr r, ?s)"
    if "is_json again" "named again" "normalizeEvent again (clock ?s) (uuid ?s) = Inr r'" "field r' ''id'' = Str i" for again r'
    using mem.append_run [where es = ?es and event = again and r = r' and i = i, OF s'(1) segment_event mem_events_simps(1) that(1,2)]
      that(3,4) s'(2) i(3) by simp
  have known: "append_event ?es event s = (Inr v, s)" if "mem_event s i = Some v" "truthy v" for v
    using r that by (auto simp: or_null_def)
  show ?thesis
    unfolding Let_def Inr sum.case
  proof (intro exI [of _ i] conjI allI impI)
    assume "mem_event s i = None"
    with r s' again show "\<exists>s'. append_event ?es event s = (Inr r, s') \<and> mem_inv s' \<and> mem_event s' i = Some r
           \<and> (\<forall>j. j \<noteq> i \<longrightarrow> mem_event s' j = mem_event s j)
           \<and> (\<forall>again r'. is_json again \<longrightarrow> named again \<longrightarrow> normalizeEvent again (clock s') (uuid s') = Inr r' \<longrightarrow> field r' ''id'' = Str i
                \<longrightarrow> append_event ?es again s' = (Inr r, s'))"
      by (intro exI [of _ ?s]) simp
  qed (use i known in simp_all)
qed

theorem append_is_idempotent_witness:
  "append_event (mem_events (\<lambda>_. 0) (\<lambda>_. ''u'') unit_cmp) (Obj [(''id'', Str ''a''), (''type'', Str ''other'')]) demo_events
     = (Inr (demo_event ''a'' ''2024-01-01''), demo_events)"
proof -
  let ?e = "Obj [(''id'', Str ''a''), (''type'', Str ''other'')]"
  have e: "is_json ?e" "named ?e" by (simp_all add: named_def)
  have n: "\<exists>r. normalizeEvent ?e 0 ''u'' = Inr r \<and> field r ''id'' = Str ''a''"
    by (simp add: normalizeEvent_def Let_def js_or_def field_spread_last)
  have "truthy (demo_event ''a'' ''2024-01-01'')" by (simp add: demo_event_def)
  with append_is_idempotent [OF demo_events_ok(1) e, of "\<lambda>_. 0" "\<lambda>_. ''u''" unit_cmp] n show ?thesis
    by (auto simp: demo_events_look Let_def)
qed

text \<open>Invariant. Events are immutable: whatever is appended afterwards, an event once stored under its
  id stays there unchanged.\<close>

theorem stored_events_are_immutable:
  assumes "mem_inv s" "\<forall>event \<in> set events. is_json event \<and> named event" "mem_event s i = Some v" "truthy v"
  shows "mem_event (append_all (mem_events clock uuid collate) events s) i = Some v
    \<and> mem_inv (append_all (mem_events clock uuid collate) events s)"
  using mem.append_all_keeps [OF segment_event mem_events_simps(1)] assms by blast

theorem stored_events_are_immutable_witness:
  "mem_event (append_all (mem_events (\<lambda>_. 0) (\<lambda>_. ''u'') unit_cmp)
      [Obj [(''id'', Str ''a''), (''type'', Str ''other'')], Obj [(''type'', Str ''x'')]] demo_events) ''a''
    = Some (demo_event ''a'' ''2024-01-01'')"
  by (rule stored_events_are_immutable [OF demo_events_ok(1), THEN conjunct1])
    (simp_all add: named_def demo_events_look demo_event_def)

text \<open>C25: Functional. A replay calls the handler once for every stored event that matches the type and the
  lower bound on the creation time and for no other, in the order of creation time and then of
  id, up to the first rejection, and then answers with how many there were.\<close>

theorem replay_is_complete_and_ordered:
  assumes "mem_inv s" "events_wf mem_look s" "consistent collate"
  shows "\<exists>xs. replay (mem_events clock uuid collate) type after (Some h) s = bnd (for_each h xs) (\<lambda>_. ret (length xs)) s
    \<and> mset xs = mset (filter (matches_query type after) (mem_listing s ''event''))
    \<and> set xs = {v. matches_query type after v \<and> (\<exists>i. mem_event s i = Some v)}
    \<and> sorted_wrt (\<lambda>a b. event_order collate a b \<le> 0) xs"
proof -
  have c: "consistent (es_collate (mem_events clock uuid collate))" using assms(3) by simp
  obtain xs where xs: "replay (mem_events clock uuid collate) type after (Some h) s = bnd (for_each h xs) (\<lambda>_. ret (length xs)) s"
    "mset xs = mset (filter (matches_query type after) (mem_listing s ''event''))"
    "sorted_wrt (\<lambda>a b. event_order collate a b \<le> 0) xs"
    using mem.replay_run [OF assms(1) segment_event mem_events_simps(1) assms(2) c, of type after h]
    unfolding mem_events_simps(2) by blast
  have "set xs = set (filter (matches_query type after) (mem_listing s ''event''))"
    using arg_cong [OF xs(2), of set_mset] by simp
  then have "set xs = {v. matches_query type after v \<and> (\<exists>i. mem_event s i = Some v)}"
    using mem.set_listing [OF assms(1) segment_event] by auto
  with xs show ?thesis by blast
qed

theorem replay_is_complete_and_ordered_witness:
  "\<exists>xs. replay (mem_events (\<lambda>_. 0) (\<lambda>_. ''u'') unit_cmp) Undefined Undefined (Some (\<lambda>_. ret ())) demo_events
      = bnd (for_each (\<lambda>_. ret ()) xs) (\<lambda>_. ret (length xs)) demo_events
    \<and> set xs = {demo_event ''a'' ''2024-01-01'', demo_event ''b'' ''2024-01-02''}"
proof -
  have "{v. matches_query Undefined Undefined v \<and> (\<exists>i. mem_event demo_events i = Some v)}
      = {demo_event ''a'' ''2024-01-01'', demo_event ''b'' ''2024-01-02''}"
    using mem.set_listing [OF demo_events_ok(1) segment_event, symmetric]
    by (auto simp: matches_query_def mem_listing_def demo_events_def colon_def)
  moreover obtain xs where "replay (mem_events (\<lambda>_. 0) (\<lambda>_. ''u'') unit_cmp) Undefined Undefined (Some (\<lambda>_. ret ())) demo_events
      = bnd (for_each (\<lambda>_. ret ()) xs) (\<lambda>_. ret (length xs)) demo_events"
    "set xs = {v. matches_query Undefined Undefined v \<and> (\<exists>i. mem_event demo_events i = Some v)}"
    using replay_is_complete_and_ordered [OF demo_events_ok unit_cmp_consistent, of "\<lambda>_. 0" "\<lambda>_. ''u''" Undefined Undefined "\<lambda>_. ret ()"]
    by blast
  ultimately show ?thesis by (intro exI [of _ xs]) simp
qed

section \<open>Properties of the bus\<close>

text \<open>Refinement. After any sequence of subscriptions and cancellations on a new bus, publishing
  calls the handlers subscribed to the event's type at that moment, each once, in the order in which they
  subscribed, awaiting each before the next and stopping at the first that rejects; it answers
  with the event. (The handlers may do anything but change the subscriptions of that type.)\<close>

theorem publish_reaches_current_subscribers:
  assumes "truthy event" "field event ''type'' = t" "truthy t" "quiet run t"
  shows "distinct (fold (spec_sub t) xs []) \<and>
    publish run None event (do_subs xs (new_EventBus s)) =
      Some (bnd (call_all run event (fold (spec_sub t) xs [])) (\<lambda>_. ret event) (do_subs xs (new_EventBus s)))"
proof -
  let ?w = "do_subs xs (new_EventBus s)"
  have "live (slots ?w t) = fold (spec_sub t) xs []"
    using do_subs_refines [OF assms(3), of xs "new_EventBus s"] by simp
  moreover have "\<not> nullish event" using assms(1) by (auto simp: nullish_def)
  ultimately show ?thesis
    using assms deliver_quiet [OF assms(4), of 0 ?w event]
    by (auto simp: publish_def fold_spec_sub_distinct bnd_run' split: prod.split sum.split)
qed

theorem publish_reaches_current_subscribers_witness:
  "publish (\<lambda>h v w. (Inr (), w\<lparr>hb_env := hb_env w @ [h]\<rparr>)) None (demo_event ''a'' ''2024-01-01'')
      (do_subs [Sub (Str ''task.completed'') (1::nat), Sub (Str ''task.completed'') 2, Sub (Str ''x'') 3,
         Sub (Str ''task.completed'') 1, Unsub (Str ''task.completed'') 2, Sub (Str ''task.completed'') 4] (new_EventBus []))
    = Some (Inr (demo_event ''a'' ''2024-01-01''), (do_subs [Sub (Str ''task.completed'') (1::nat), Sub (Str ''task.completed'') 2, Sub (Str ''x'') 3,
         Sub (Str ''task.completed'') 1, Unsub (Str ''task.completed'') 2, Sub (Str ''task.completed'') 4] (new_EventBus []))\<lparr>hb_env := [1, 4]\<rparr>)"
proof -
  have q: "quiet (\<lambda>h v w. (Inr (), w\<lparr>hb_env := hb_env w @ [h]\<rparr>)) (Str ''task.completed'')" by (simp add: quiet_def slots_def)
  have e: "truthy (demo_event ''a'' ''2024-01-01'')" "field (demo_event ''a'' ''2024-01-01'') ''type'' = Str ''task.completed''"
    "truthy (Str ''task.completed'')" by (simp_all add: demo_event_def)
  show ?thesis
    unfolding publish_reaches_current_subscribers [OF e q, THEN conjunct2]
    by (simp add: bnd_run' ret_def subscribe_def unsubscribe_def new_EventBus_def)
qed

text \<open>Termination. Publishing always returns when no handler adds subscriptions to the type being
  delivered; handlers may cancel any of them, their own included, at any time.\<close>

theorem publish_terminates:
  assumes "\<And>t. no_growth run t"
  shows "\<exists>r. publish run store event w = Some r"
proof -
  have d: "deliver run t v 0 w' \<noteq> None" for t v w'
    using deliver_returns [OF assms refl, of t v 0 w'] by auto
  show ?thesis
    by (auto simp: publish_def d split: prod.split sum.split option.split)
qed

theorem publish_terminates_witness:
  "\<exists>r. publish (\<lambda>h v w. (Inr (), snd (unsubscribe (Str ''task.completed'', h) w))) None (demo_event ''a'' ''2024-01-01'')
      (do_subs [Sub (Str ''task.completed'') (1::nat), Sub (Str ''task.completed'') 2] (new_EventBus (0::int))) = Some r"
  by (rule publish_terminates) (simp add: no_growth_def set_delete_def)

text \<open>Safety. On a bus with a durable store, handlers only ever see stored events: publishing an event
  whose id is already stored, with whatever content and type, delivers the stored event, to the
  subscribers of the stored type, and leaves the store as it was until the handlers run.\<close>

theorem republishing_delivers_the_stored_event:
  assumes "mem_inv (hb_env w)" "is_json event" "named event" "truthy (field event ''type'')" "truthy event" "is_ref event"
    and "field event ''id'' = Str i" "i \<noteq> []" "mem_event (hb_env w) i = Some v" "is_obj v" "quiet run (field v ''type'')"
  shows "publish run (Some (\<lambda>e. on_hub (append_event (mem_events clock uuid collate) e))) event w
    = Some (bnd (call_all run v (live (slots w (field v ''type'')))) (\<lambda>_. ret v) w)"
proof -
  let ?es = "mem_events clock uuid collate"
  obtain r where r: "normalizeEvent event (clock (hb_env w)) (uuid (hb_env w)) = Inr r" "field r ''id'' = Str i"
    using assms by (auto simp: normalizeEvent_def Let_def js_or_def field_spread_last)
  have "append_event ?es event (hb_env w) = (Inr v, hb_env w)"
    using mem.append_run [OF assms(1) segment_event mem_events_simps(1) assms(2,3), where clock1 = clock and uuid1 = uuid and collate1 = collate and r = r and i = i]
      r assms(9,10) by simp
  then have append: "on_hub (append_event ?es event) w = (Inr v, w)" by (simp add: on_hub_def)
  have "\<not> nullish v" using assms(10) by (auto simp: nullish_def)
  with assms append deliver_quiet [OF assms(11), of 0 w v] show ?thesis
    by (auto simp: publish_def bnd_run' split: prod.split sum.split)
qed

theorem republishing_delivers_the_stored_event_witness:
  "\<exists>w'. publish (\<lambda>h v w. (Inr (), w)) (Some (\<lambda>e. on_hub (append_event (mem_events (\<lambda>_. 0) (\<lambda>_. ''u'') unit_cmp) e)))
      (Obj [(''id'', Str ''a''), (''type'', Str ''other'')]) \<lparr>hb_handlers = [(Str ''task.completed'', [Some ''h''])], hb_env = demo_events\<rparr>
    = Some (Inr (demo_event ''a'' ''2024-01-01''), w')"
proof -
  let ?w = "\<lparr>hb_handlers = [(Str ''task.completed'', [Some ''h''])], hb_env = demo_events\<rparr>"
  have q: "quiet (\<lambda>h v w. (Inr (), w)) t" for t by (simp add: quiet_def)
  have "publish (\<lambda>h v w. (Inr (), w)) (Some (\<lambda>e. on_hub (append_event (mem_events (\<lambda>_. 0) (\<lambda>_. ''u'') unit_cmp) e)))
      (Obj [(''id'', Str ''a''), (''type'', Str ''other'')]) ?w
    = Some (bnd (call_all (\<lambda>h v w. (Inr (), w)) (demo_event ''a'' ''2024-01-01'')
        (live (slots ?w (field (demo_event ''a'' ''2024-01-01'') ''type'')))) (\<lambda>_. ret (demo_event ''a'' ''2024-01-01'')) ?w)"
    by (rule republishing_delivers_the_stored_event [where i = "''a''", OF _ _ _ _ _ _ _ _ _ _ q])
      (simp_all add: demo_events_ok named_def demo_events_look, simp add: demo_event_def)
  then show ?thesis by (simp add: demo_event_def slots_def bnd_run' ret_def)
qed

end
