(* ===== verification/System.thy ===== *)
theory System
  imports SchedulerProperties EventProperties
begin

text \<open>
  The engines wired together: \<open>WorkflowEngine\<close>, \<open>QueueWorkerEngine\<close> and \<open>SchedulerEngine\<close> on one
  repository and one \<open>EventBus\<close>, with the subscriptions their constructors make. What an engine
  publishes is delivered to the listeners, which run engine operations that publish in turn;
  \<open>system_publish\<close> bounds the depth of that recursion, and two levels are shown to be enough.
\<close>

section \<open>A repository beside a bus\<close>

definition hub_repository :: "'s repository \<Rightarrow> ('h, 's) hub repository" where
  "hub_repository R =
     \<lparr>rsave = \<lambda>t i v. on_hub (rsave R t i v), rfind = \<lambda>t i. on_hub (rfind R t i),
      rall = \<lambda>t. on_hub (rall R t), rdelete = \<lambda>t i. on_hub (rdelete R t i)\<rparr>"

lemma hub_repository_simps [simp]:
  "rsave (hub_repository R) t i v = on_hub (rsave R t i v)" "rfind (hub_repository R) t i = on_hub (rfind R t i)"
  "rall (hub_repository R) t = on_hub (rall R t)" "rdelete (hub_repository R) t i = on_hub (rdelete R t i)"
  by (simp_all add: hub_repository_def)

section \<open>The wiring\<close>

text \<open>The two handlers the constructors register.\<close>

datatype listener = Queue_Listener | Scheduler_Listener

type_synonym system = "(listener, mem_repo) hub"

definition wired_workflow :: "system bus \<Rightarrow> system workflow_engine" where
  "wired_workflow bus = \<lparr>we_repository = hub_repository mem_repository, we_eventBus = bus\<rparr>"

definition wired_queue :: "system bus \<Rightarrow> system queue_engine" where
  "wired_queue bus = \<lparr>qe_repository = hub_repository mem_repository, qe_completeTask = completeTask (wired_workflow bus), qe_leaseMs = 30000\<rparr>"

definition wired_scheduler :: "(string \<Rightarrow> int option) \<Rightarrow> system bus \<Rightarrow> system scheduler_engine" where
  "wired_scheduler dates bus =
     \<lparr>se_repository = hub_repository mem_repository, se_enqueue = enqueue (wired_queue bus), se_eventBus = bus, se_dates = dates\<rparr>"

text \<open>\<^verbatim>\<open>eventBus.subscribe('task.completed', ...)\<close> and \<^verbatim>\<open>eventBus.subscribe('task.schedule_requested', ...)\<close>.\<close>

definition boot :: "mem_repo \<Rightarrow> system" where
  "boot s = snd (subscribe (Str ''task.schedule_requested'') (Some Scheduler_Listener)
     (snd (subscribe (Str ''task.completed'') (Some Queue_Listener) (new_EventBus s))))"

definition listen :: "(string \<Rightarrow> int option) \<Rightarrow> system bus \<Rightarrow> listener \<Rightarrow> jsval \<Rightarrow> (system, unit) act" where
  "listen dates bus h event =
     (case h of
        Queue_Listener \<Rightarrow> bnd (handleTaskCompleted (wired_queue bus) event) (\<lambda>_. ret ())
      | Scheduler_Listener \<Rightarrow> bnd (handleScheduleRequested (wired_scheduler dates bus) event) (\<lambda>_. ret ()))"

definition too_deep :: js_error where
  "too_deep = Exn ''RangeError'' ''Maximum depth exceeded'' []"

fun system_publish :: "(string \<Rightarrow> int option) \<Rightarrow> nat \<Rightarrow> jsval \<Rightarrow> (system, jsval) act" where
  "system_publish dates 0 event = throw too_deep"
| "system_publish dates (Suc n) event = (\<lambda>w.
     case publish (listen dates (Some (system_publish dates n))) None event w of
       None \<Rightarrow> (Inl too_deep, w)
     | Some r \<Rightarrow> r)"

lemma wired_simps [simp]:
  "we_repository (wired_workflow bus) = hub_repository mem_repository" "we_eventBus (wired_workflow bus) = bus"
  "qe_repository (wired_queue bus) = hub_repository mem_repository" "qe_completeTask (wired_queue bus) = completeTask (wired_workflow bus)"
  "se_repository (wired_scheduler dates bus) = hub_repository mem_repository" "se_enqueue (wired_scheduler dates bus) = enqueue (wired_queue bus)"
  "se_eventBus (wired_scheduler dates bus) = bus" "se_dates (wired_scheduler dates bus) = dates"
  by (simp_all add: wired_workflow_def wired_queue_def wired_scheduler_def)

text \<open>The wiring is what the constructors return.\<close>

lemma wired_constructed:
  "new_WorkflowEngine (Some (hub_repository mem_repository)) bus = Inr (wired_workflow bus)"
  "new_QueueWorkerEngine (Some (hub_repository mem_repository)) (Some (completeTask (wired_workflow bus))) Undefined = Inr (wired_queue bus)"
  "new_SchedulerEngine (Some (hub_repository mem_repository)) (Some (enqueue (wired_queue bus))) bus dates = Inr (wired_scheduler dates bus)"
  by (simp_all add: new_WorkflowEngine_def wired_workflow_def new_QueueWorkerEngine_def wired_queue_def default_to_def
      new_SchedulerEngine_def wired_scheduler_def)

definition wired :: "system \<Rightarrow> bool" where
  "wired w \<longleftrightarrow> (\<forall>t. slots w t = (if t = Str ''task.completed'' then [Some Queue_Listener]
     else if t = Str ''task.schedule_requested'' then [Some Scheduler_Listener] else []))"

lemma wired_boot [simp]: "wired (boot s)"
  by (simp add: wired_def boot_def set_add_def)

lemma env_boot [simp]: "hb_env (boot s) = s"
  by (simp add: boot_def subscribe_def new_EventBus_def)

lemma wired_on_hub [simp]: "wired w \<Longrightarrow> wired (snd (on_hub m w))"
  by (simp add: wired_def)

section \<open>Operations that only touch the repository\<close>

text \<open>
  On a wired system, \<open>m\<close> does to the repository what \<open>m0\<close> does, and leaves the subscriptions alone.
\<close>

definition runs_as :: "(system, 'a) act \<Rightarrow> (mem_repo, 'a) act \<Rightarrow> bool" where
  "runs_as m m0 \<longleftrightarrow> (\<forall>w. wired w \<longrightarrow> m w = on_hub m0 w)"

named_theorems runs_intros

lemma runs_asD: "runs_as m m0 \<Longrightarrow> wired w \<Longrightarrow> m w = on_hub m0 w"
  by (simp add: runs_as_def)

lemma runs_as_hub [runs_intros]: "runs_as (on_hub m) m"
  by (simp add: runs_as_def)

lemma runs_as_ret [runs_intros]: "runs_as (ret a) (ret a)" "runs_as (throw e) (throw e)"
  by (simp_all add: runs_as_def on_hub_def)

lemma runs_as_if [runs_intros]:
  "(b \<Longrightarrow> runs_as m m0) \<Longrightarrow> (\<not> b \<Longrightarrow> runs_as k k0) \<Longrightarrow> runs_as (if b then m else k) (if b then m0 else k0)"
  by simp

lemma runs_as_bnd [runs_intros]:
  assumes "runs_as m m0" "\<And>a. runs_as (k a) (k0 a)"
  shows "runs_as (bnd m k) (bnd m0 k0)"
  unfolding runs_as_def
proof (intro allI impI)
  fix w :: system assume w: "wired w"
  obtain r s where m0: "m0 (hb_env w) = (r, s)" by fastforce
  have m: "m w = (r, w\<lparr>hb_env := s\<rparr>)" using runs_asD [OF assms(1) w] m0 by (simp add: on_hub_def)
  have w': "wired (w\<lparr>hb_env := s\<rparr>)" using wired_on_hub [OF w, of m0] m0 by (simp add: on_hub_def)
  show "bnd m k w = on_hub (bnd m0 k0) w"
  proof (cases r)
    case (Inr a)
    then show ?thesis using m m0 runs_asD [OF assms(2) w', of a] by (simp add: bnd_run' on_hub_def)
  qed (simp add: bnd_run' on_hub_def m m0)
qed

lemma runs_as_catch [runs_intros]:
  assumes "runs_as m m0" "\<And>e. runs_as (h e) (h0 e)"
  shows "runs_as (try_catch m h) (try_catch m0 h0)"
  unfolding runs_as_def
proof (intro allI impI)
  fix w :: system assume w: "wired w"
  obtain r s where m0: "m0 (hb_env w) = (r, s)" by fastforce
  have m: "m w = (r, w\<lparr>hb_env := s\<rparr>)" using runs_asD [OF assms(1) w] m0 by (simp add: on_hub_def)
  have w': "wired (w\<lparr>hb_env := s\<rparr>)" using wired_on_hub [OF w, of m0] m0 by (simp add: on_hub_def)
  show "try_catch m h w = on_hub (try_catch m0 h0) w"
  proof (cases r)
    case (Inl e)
    then show ?thesis using m m0 runs_asD [OF assms(2) w', of e] by (simp add: try_catch_def on_hub_def)
  qed (simp add: try_catch_def on_hub_def m m0)
qed

lemma runs_as_for_collect [runs_intros]:
  "(\<And>x. runs_as (body x) (body0 x)) \<Longrightarrow> runs_as (for_collect body xs) (for_collect body0 xs)"
  by (induction xs) (auto intro!: runs_intros)

lemma publish_on_None [simp]: "publish_on None event = ret ()"
  by (simp add: publish_on_def)

lemma enqueue_runs: "runs_as (enqueue (wired_queue bus) i p) (enqueue mem_queue i p)"
  unfolding enqueue_def wired_simps mem_engines hub_repository_simps mem_repository_simps
  by (intro runs_intros)

lemma completed_runs: "runs_as (handleTaskCompleted (wired_queue bus) event) (handleTaskCompleted mem_queue event)"
  unfolding handleTaskCompleted_def by (intro runs_intros enqueue_runs)

section \<open>What the engines announce\<close>

text \<open>The events the engines publish themselves: none names a next task.\<close>

definition announcement :: "jsval \<Rightarrow> bool" where
  "announcement event \<longleftrightarrow> truthy event \<and> field event ''nextTaskId'' = Undefined
     \<and> (\<exists>ty. field event ''type'' = Str ty \<and> ty \<noteq> [] \<and> ty \<noteq> ''task.schedule_requested'')"

locale announcement_bus =
  fixes bus :: "system bus"
  assumes silent: "announcement event \<Longrightarrow> runs_as (publish_on bus event) (ret ())"
begin

lemma announce [runs_intros]:
  "announcement event \<Longrightarrow> runs_as (publish_on bus event) (publish_on None event)"
  by (simp add: silent)

lemma transition_runs: "runs_as (run_op (wired_workflow bus) x i p) (run_op mem_workflow x i p)"
  unfolding run_op_unfold wired_simps mem_workflow_simps hub_repository_simps mem_repository_simps
  by (intro runs_intros) (cases x; simp add: announcement_def task_event_def)

lemma claim_runs: "runs_as (claim (wired_queue bus) leaseMs now i w) (claim mem_queue leaseMs now i w)"
  unfolding claim_def wired_simps mem_engines hub_repository_simps mem_repository_simps
  by (auto intro!: runs_intros split: sum.split)

lemma heartbeat_runs: "runs_as (heartbeat (wired_queue bus) leaseMs now i w) (heartbeat mem_queue leaseMs now i w)"
  unfolding heartbeat_def wired_simps mem_engines hub_repository_simps mem_repository_simps
  by (intro runs_intros)

lemma retry_runs: "runs_as (retry (wired_queue bus) i w) (retry mem_queue i w)"
  unfolding retry_def wired_simps mem_engines hub_repository_simps mem_repository_simps
  by (intro runs_intros)

lemma complete_runs: "runs_as (complete (wired_queue bus) now i w) (complete mem_queue now i w)"
proof -
  have "runs_as (completeTask (wired_workflow bus) i p) (completeTask mem_workflow i p)" for p
    using transition_runs [of Finish] by (simp add: run_op_def)
  then show ?thesis
    unfolding complete_def wired_simps mem_engines hub_repository_simps mem_repository_simps
    by (intro runs_intros)
qed

lemma schedule_runs: "runs_as (schedule (wired_scheduler dates bus) i j p at) (schedule (mem_scheduler None dates) i j p at)"
  unfolding schedule_def wired_simps mem_scheduler_simps hub_repository_simps mem_repository_simps
  by (auto intro!: runs_intros split: jsval.split simp: announcement_def)

lemma cancel_runs: "runs_as (cancel (wired_scheduler dates bus) i) (cancel (mem_scheduler None dates) i)"
  unfolding cancel_def wired_simps mem_scheduler_simps hub_repository_simps mem_repository_simps
  by (intro runs_intros) (simp add: announcement_def)

lemma requested_runs:
  "runs_as (handleScheduleRequested (wired_scheduler dates bus) event) (handleScheduleRequested (mem_scheduler None dates) event)"
  unfolding handleScheduleRequested_def by (intro runs_intros schedule_runs)

lemma dispatchDue_runs: "runs_as (dispatchDue (wired_scheduler dates bus) now) (dispatchDue (mem_scheduler None dates) now)"
proof -
  have "runs_as (dispatch_item (wired_scheduler dates bus) current v) (dispatch_item (mem_scheduler None dates) current v)" for current v
    unfolding dispatch_item_def wired_simps mem_scheduler_simps hub_repository_simps mem_repository_simps Let_def
    by (intro runs_intros enqueue_runs) (auto simp: announcement_def intro!: runs_intros split: sum.split)
  then show ?thesis
    unfolding dispatchDue_def wired_simps mem_scheduler_simps hub_repository_simps mem_repository_simps
    by (auto intro!: runs_intros split: jsval.split)
qed

end

section \<open>Publishing on the wired system\<close>

lemma deliver_nobody: "slots w t = [] \<Longrightarrow> deliver run t event 0 w = Some (Inr (), w)"
  by (simp add: deliver.simps [of run t event 0 w])

lemma deliver_single:
  assumes "slots w t = [Some h]" "run h event w = (r, w')" "slots w' t = [Some h]"
  shows "deliver run t event 0 w = Some (r, w')"
  using assms by (cases r) (simp_all add: deliver.simps [of run t event 0 w] deliver.simps [of run t event "Suc 0" w'])

lemma publish_nobody:
  assumes "wired w" "truthy event" "truthy (field event ''type'')"
    and "field event ''type'' \<noteq> Str ''task.completed''" "field event ''type'' \<noteq> Str ''task.schedule_requested''"
  shows "system_publish dates (Suc n) event w = (Inr event, w)"
proof -
  have "slots w (field event ''type'') = []" using assms by (simp add: wired_def)
  then show ?thesis using assms(2,3) by (simp add: publish_def deliver_nobody nullish_def) auto
qed

text \<open>One listener, whose effect is an operation on the repository.\<close>

lemma publish_single:
  assumes "wired w" "truthy event" "field event ''type'' = Str ty" "slots w (Str ty) = [Some h]" "ty \<noteq> []"
    and "runs_as (listen dates (Some (system_publish dates n)) h event) (bnd m0 (\<lambda>_. ret ()))"
  shows "system_publish dates (Suc n) event w = on_hub (bnd m0 (\<lambda>_. ret event)) w"
proof -
  obtain r s where m0: "m0 (hb_env w) = (r, s)" by fastforce
  let ?w = "w\<lparr>hb_env := s\<rparr>"
  have run: "listen dates (Some (system_publish dates n)) h event w = (map_sum id (\<lambda>_. ()) r, ?w)"
    using runs_asD [OF assms(6,1)] m0 by (cases r) (simp_all add: on_hub_def bnd_run')
  have "wired ?w" using wired_on_hub [OF assms(1), of m0] m0 by (simp add: on_hub_def)
  then have "slots ?w (Str ty) = [Some h]" using assms(1,4) by (simp add: wired_def)
  then have "deliver (listen dates (Some (system_publish dates n))) (Str ty) event 0 w = Some (map_sum id (\<lambda>_. ()) r, ?w)"
    by (rule deliver_single [where run = "listen dates (Some (system_publish dates n))" and h = h, OF assms(4) run])
  moreover have "\<not> nullish event" using assms(2) by (cases event) (simp_all add: nullish_def)
  ultimately show ?thesis
    using assms(2,3,5) m0 by (cases r) (simp_all add: publish_def on_hub_def bnd_run')
qed

lemma publish_completed:
  assumes "wired w" "truthy event" "field event ''type'' = Str ''task.completed''"
  shows "system_publish dates (Suc n) event w = on_hub (bnd (handleTaskCompleted mem_queue event) (\<lambda>_. ret event)) w"
proof (rule publish_single [OF assms])
  show "slots w (Str ''task.completed'') = [Some Queue_Listener]" using assms(1) by (simp add: wired_def)
  show "runs_as (listen dates (Some (system_publish dates n)) Queue_Listener event) (bnd (handleTaskCompleted mem_queue event) (\<lambda>_. ret ()))"
    unfolding listen_def listener.case by (intro runs_intros completed_runs)
qed simp

interpretation wires: announcement_bus "Some (system_publish dates (Suc n))"
proof
  fix event assume a: "announcement event"
  then obtain ty where ty: "truthy event" "field event ''type'' = Str ty" "ty \<noteq> []" "ty \<noteq> ''task.schedule_requested''"
    "field event ''nextTaskId'' = Undefined"
    by (auto simp: announcement_def)
  show "runs_as (publish_on (Some (system_publish dates (Suc n))) event) (ret ())"
    unfolding runs_as_def
  proof (intro allI impI)
    fix w :: system assume w: "wired w"
    have "system_publish dates (Suc n) event w = (Inr event, w)"
    proof (cases "ty = ''task.completed''")
      case True
      have "handleTaskCompleted (mem_queue :: mem_repo queue_engine) event = ret Null" using ty(5) by (simp add: handleTaskCompleted_def)
      then show ?thesis using publish_completed [OF w ty(1), of dates n] ty(2) True
        by (simp del: system_publish.simps add: on_hub_def)
    qed (use publish_nobody [OF w ty(1)] ty in simp)
    then show "publish_on (Some (system_publish dates (Suc n))) event w = on_hub (ret ()) w"
      by (simp del: system_publish.simps add: publish_on_def bnd_run' on_hub_def)
  qed
qed

lemma publish_requested:
  assumes "wired w" "truthy event" "field event ''type'' = Str ''task.schedule_requested''"
  shows "system_publish dates (Suc (Suc n)) event w
    = on_hub (bnd (handleScheduleRequested (mem_scheduler None dates) event) (\<lambda>_. ret event)) w"
proof (rule publish_single [OF assms])
  show "slots w (Str ''task.schedule_requested'') = [Some Scheduler_Listener]" using assms(1) by (simp add: wired_def)
  show "runs_as (listen dates (Some (system_publish dates (Suc n))) Scheduler_Listener event)
      (bnd (handleScheduleRequested (mem_scheduler None dates) event) (\<lambda>_. ret ()))"
    unfolding listen_def listener.case by (intro runs_intros wires.requested_runs)
qed simp

end
