(* ===== verification/SystemProperties.thy ===== *)
theory SystemProperties
  imports System
begin

text \<open>
  What the wired engines do together: the subscriptions are neutral for the engines' own
  operations, and outside events drive them.
\<close>

section \<open>Properties\<close>

text \<open>The operations without announcements of their own.\<close>

lemma quiet_runs:
  "runs_as (getTask (wired_workflow bus) i) (getTask mem_workflow i)"
  "runs_as (reclaimExpired (wired_queue bus) now) (reclaimExpired mem_queue now)"
  unfolding getTask_def reclaimExpired_def reclaim_item_def wired_simps mem_workflow_simps mem_engines hub_repository_simps mem_repository_simps
  by (intro runs_intros)+

text \<open>C23: Equivalence. On the wired system each of the fourteen operations of the three engines (start,
  complete and get a task; enqueue, claim, heartbeat, complete, retry, reclaim expired leases, and the
  queue's handler of finished tasks; schedule, cancel, dispatch, and the scheduler's handler of
  requests), with its announcements published on the shared bus, returns what the same engine returns
  without any bus and changes the repository in exactly the same way: the announcements reach no
  listener but the queue's own \<^verbatim>\<open>task.completed\<close> handler, and for it the workflow engine's events
  name no next task, so finishing a task never enqueues another.\<close>

theorem announcements_are_neutral:
  assumes "wired w"
  shows "let bus = Some (system_publish dates (Suc n)) in
      startTask (wired_workflow bus) i p w = on_hub (startTask mem_workflow i p) w
    \<and> getTask (wired_workflow bus) i w = on_hub (getTask mem_workflow i) w
    \<and> completeTask (wired_workflow bus) i p w = on_hub (completeTask mem_workflow i p) w
    \<and> enqueue (wired_queue bus) i p w = on_hub (enqueue mem_queue i p) w
    \<and> claim (wired_queue bus) leaseMs now i worker w = on_hub (claim mem_queue leaseMs now i worker) w
    \<and> heartbeat (wired_queue bus) leaseMs now i worker w = on_hub (heartbeat mem_queue leaseMs now i worker) w
    \<and> complete (wired_queue bus) now i worker w = on_hub (complete mem_queue now i worker) w
    \<and> retry (wired_queue bus) i worker w = on_hub (retry mem_queue i worker) w
    \<and> reclaimExpired (wired_queue bus) now w = on_hub (reclaimExpired mem_queue now) w
    \<and> handleTaskCompleted (wired_queue bus) event w = on_hub (handleTaskCompleted mem_queue event) w
    \<and> schedule (wired_scheduler dates bus) i j p at w = on_hub (schedule (mem_scheduler None dates) i j p at) w
    \<and> cancel (wired_scheduler dates bus) i w = on_hub (cancel (mem_scheduler None dates) i) w
    \<and> dispatchDue (wired_scheduler dates bus) day w = on_hub (dispatchDue (mem_scheduler None dates) day) w
    \<and> handleScheduleRequested (wired_scheduler dates bus) event w = on_hub (handleScheduleRequested (mem_scheduler None dates) event) w"
  using wires.transition_runs [of dates n Start i p] wires.transition_runs [of dates n Finish i p]
    enqueue_runs wires.claim_runs wires.heartbeat_runs wires.complete_runs wires.retry_runs
    wires.schedule_runs wires.cancel_runs wires.dispatchDue_runs quiet_runs completed_runs wires.requested_runs
  by (simp only: Let_def run_op_def task_op.case runs_asD [OF _ assms] simp_thms)

theorem announcements_are_neutral_witness:
  "completeTask (wired_workflow (Some (system_publish (\<lambda>_. None) (Suc 0)))) (Str ''a'') (Str ''p1'') (boot demo_plan)
     = on_hub (completeTask mem_workflow (Str ''a'') (Str ''p1'')) (boot demo_plan)"
  by (rule announcements_are_neutral [OF wired_boot [of demo_plan], of "\<lambda>_. None" 0, unfolded Let_def, THEN conjunct2, THEN conjunct2, THEN conjunct1])

text \<open>C24: Functional. An outside event drives the engines by exactly one operation: \<^verbatim>\<open>task.completed\<close> with a
  next task enqueues that task and nothing else, \<^verbatim>\<open>task.schedule_requested\<close> with all its fields
  creates that schedule and nothing else, and any other event changes nothing. The publisher gets
  the event back, or the operation's rejection. Two levels of nested publishing are enough for
  every event: more never change the outcome.\<close>

theorem events_drive_one_operation:
  assumes "wired w" "truthy event" "field event ''type'' = Str ty" "ty \<noteq> []"
  shows "system_publish dates (Suc (Suc n)) event w = on_hub (bnd
     (if ty = ''task.completed''
      then if truthy (field event ''nextTaskId'')
           then if truthy (field event ''processId'') then enqueue mem_queue (field event ''nextTaskId'') (field event ''processId'')
                else throw (Error ''PROCESS_ID_REQUIRED'')
           else ret Null
      else if ty = ''task.schedule_requested'' \<and> truthy (field event ''scheduleId'') \<and> truthy (field event ''taskId'')
              \<and> truthy (field event ''processId'') \<and> truthy (field event ''runAt'')
      then schedule (mem_scheduler None dates) (field event ''scheduleId'') (field event ''taskId'') (field event ''processId'') (field event ''runAt'')
      else ret Null) (\<lambda>_. ret event)) w"
proof -
  consider "ty = ''task.completed''" | "ty = ''task.schedule_requested''" | "ty \<noteq> ''task.completed''" "ty \<noteq> ''task.schedule_requested''"
    by blast
  then show ?thesis
  proof cases
    case 1
    show ?thesis
      using publish_completed [OF assms(1,2), of dates "Suc n"] assms(2,3) 1
      by (simp del: system_publish.simps add: handleTaskCompleted_def)
  next
    case 2
    show ?thesis
      using publish_requested [OF assms(1,2), of dates n] assms(2,3) 2
      by (simp del: system_publish.simps add: handleScheduleRequested_def)
  next
    case 3
    show ?thesis
      using publish_nobody [OF assms(1,2), of dates "Suc n"] assms(3,4) 3
      by (simp del: system_publish.simps add: on_hub_def)
  qed
qed

theorem events_drive_one_operation_witness:
  "mem_view (hb_env (snd (system_publish (\<lambda>_. None) 2
      (Obj [(''type'', Str ''task.completed''), (''nextTaskId'', Str ''b''), (''processId'', Str ''p1'')]) (boot demo_plan)))) ''b''
    = Some \<lparr>q_process = Str ''p1'', q_attempts = 0, q_lease = Queued\<rparr>"
proof -
  let ?e = "Obj [(''type'', Str ''task.completed''), (''nextTaskId'', Str ''b''), (''processId'', Str ''p1'')]"
  obtain r s where s: "enqueue mem_queue (Str ''b'') (Str ''p1'') demo_plan = (Inr r, s)"
    "mem_view s = (mem_view demo_plan)(''b'' := Some (spec_enqueue (field (demo_task ''b'' Pending) ''processId'') (mem_view demo_plan ''b'')))"
    by (rule mem.enqueue_resolves [where qe = mem_queue and i = "''b''" and p = "Str ''p1''" and t = "demo_task ''b'' Pending", OF demo_plan_ok(1)])
      (simp_all add: demo_plan_look strict_eq_def demo_task_def)
  have "system_publish (\<lambda>_. None) (Suc (Suc 0)) ?e (boot demo_plan)
      = on_hub (bnd (enqueue mem_queue (Str ''b'') (Str ''p1'')) (\<lambda>_. ret ?e)) (boot demo_plan)"
    using events_drive_one_operation [OF wired_boot [of demo_plan], of ?e "''task.completed''" "\<lambda>_. None" 0] by simp
  then show ?thesis
    using s by (simp del: system_publish.simps add: on_hub_def bnd_run' numeral_2_eq_2 spec_enqueue_def demo_plan_look demo_task_def queue_view_def)
qed

end
