(* ===== verification/WorkflowDefinition.thy ===== *)
theory WorkflowDefinition
  imports JsObject
begin

text \<open>
  Workflow definitions: their validation (\<^verbatim>\<open>modules/workflow/definition.js\<close>) and the
  store of their numbered versions (\<^verbatim>\<open>modules/workflow/versioning.js\<close>). Node and workflow ids are
  primitive values, on which a \<^verbatim>\<open>Set\<close> and a \<^verbatim>\<open>Map\<close> compare by value; an id that is an object is equal to
  no other.
\<close>

section \<open>Validation\<close>

definition NODE_TYPES :: "jsval list" where
  "NODE_TYPES = [Str ''trigger'', Str ''condition'', Str ''action'', Str ''approval'']"

definition is_null :: "jsval \<Rightarrow> bool" where
  "is_null v \<longleftrightarrow> v = Null \<or> v = Undefined"

fun check_nodes :: "jsval list \<Rightarrow> jsval list \<Rightarrow> js_error + jsval list" where
  "check_nodes ids [] = Inr ids"
| "check_nodes ids (node # nodes) =
     (if is_null node then Inl null_read_error
      else if \<not> truthy (field node ''id'') \<or> has ids (field node ''id'') \<or> \<not> has NODE_TYPES (field node ''type'')
      then Inl (Error ''INVALID_WORKFLOW_NODE'')
      else check_nodes (ids @ [field node ''id'']) nodes)"

fun check_edges :: "jsval list \<Rightarrow> jsval list \<Rightarrow> js_error option" where
  "check_edges ids [] = None"
| "check_edges ids (edge # edges) =
     (if is_null edge then Some null_read_error
      else if \<not> truthy (field edge ''from'') \<or> \<not> truthy (field edge ''to'') \<or> \<not> has ids (field edge ''from'') \<or> \<not> has ids (field edge ''to'')
      then Some (Error ''INVALID_WORKFLOW_EDGE'')
      else if strict_eq (field edge ''from'') (field edge ''to'') then Some (Error ''WORKFLOW_SELF_LOOP'')
      else check_edges ids edges)"

definition validateWorkflow :: "jsval \<Rightarrow> js_error + jsval" where
  "validateWorkflow d =
     (if \<not> truthy d \<or> \<not> truthy (field d ''id'') then Inl (Error ''INVALID_WORKFLOW_DEFINITION'')
      else case (field d ''nodes'', field d ''edges'') of
        (Arr nodes, Arr edges) \<Rightarrow>
          (case check_nodes [] nodes of
             Inl e \<Rightarrow> Inl e
           | Inr ids \<Rightarrow> (case check_edges ids edges of
               Some e \<Rightarrow> Inl e
             | None \<Rightarrow>
                 let incoming = map (\<lambda>edge. field edge ''to'') edges in
                 if \<not> (\<exists>node \<in> set nodes. field node ''type'' = Str ''trigger'' \<and> \<not> has incoming (field node ''id''))
                 then Inl (Error ''WORKFLOW_TRIGGER_REQUIRED'') else Inr d))
      | _ \<Rightarrow> Inl (Error ''INVALID_WORKFLOW_DEFINITION''))"

text \<open>The graph a definition describes.\<close>

record graph =
  g_nodes :: "(jsval \<times> jsval) list" \<comment> \<open>id and type\<close>
  g_edges :: "(jsval \<times> jsval) list"

fun graph_of :: "jsval list \<Rightarrow> jsval list \<Rightarrow> graph" where
  "graph_of nodes edges =
     \<lparr>g_nodes = map (\<lambda>n. (field n ''id'', field n ''type'')) nodes, g_edges = map (\<lambda>e. (field e ''from'', field e ''to'')) edges\<rparr>"

definition graph_ok :: "graph \<Rightarrow> bool" where
  "graph_ok g \<longleftrightarrow>
     (\<forall>(i, t) \<in> set (g_nodes g). truthy i \<and> t \<in> set NODE_TYPES)
     \<and> distinct (map fst (g_nodes g))
     \<and> set (g_edges g) \<subseteq> (fst ` set (g_nodes g)) \<times> (fst ` set (g_nodes g)) - Id
     \<and> (\<exists>i. (i, Str ''trigger'') \<in> set (g_nodes g) \<and> i \<notin> snd ` set (g_edges g))"

lemma NODE_TYPES_prim: "has NODE_TYPES t \<longleftrightarrow> t \<in> set NODE_TYPES"
  by (auto simp: has_def NODE_TYPES_def)

definition prim_ids :: "jsval list \<Rightarrow> bool" where
  "prim_ids nodes \<longleftrightarrow> (\<forall>n \<in> set nodes. \<not> is_ref (field n ''id''))"

lemma is_null_field: "is_null v \<Longrightarrow> field v k = Undefined"
  by (auto simp: is_null_def)

lemma check_nodes_iff:
  assumes "\<forall>i \<in> set ids. \<not> is_ref i" "prim_ids nodes" "distinct ids"
  shows "check_nodes ids nodes = Inr ids' \<longleftrightarrow>
    (\<forall>n \<in> set nodes. truthy (field n ''id'') \<and> field n ''type'' \<in> set NODE_TYPES)
    \<and> distinct (ids @ map (\<lambda>n. field n ''id'') nodes) \<and> ids' = ids @ map (\<lambda>n. field n ''id'') nodes"
  using assms
proof (induction ids nodes rule: check_nodes.induct)
  case (2 ids node nodes)
  have prim: "\<not> is_ref (field node ''id'')" "prim_ids nodes" using "2.prems"(2) by (auto simp: prim_ids_def)
  show ?case
  proof (cases "is_null node \<or> \<not> truthy (field node ''id'') \<or> has ids (field node ''id'') \<or> \<not> has NODE_TYPES (field node ''type'')")
    case True
    then show ?thesis using prim(1) unfolding NODE_TYPES_prim by (auto simp: has_def NODE_TYPES_prim is_null_field)
  next
    case False
    then have "field node ''id'' \<notin> set ids" using prim(1) by (simp add: has_def)
    with "2.IH" False prim "2.prems" show ?thesis by (auto simp: NODE_TYPES_prim)
  qed
qed auto

lemma check_edges_iff:
  assumes "\<forall>i \<in> set ids. \<not> is_ref i \<and> truthy i"
  shows "check_edges ids edges = None \<longleftrightarrow>
    (\<forall>e \<in> set edges. field e ''from'' \<in> set ids \<and> field e ''to'' \<in> set ids \<and> field e ''from'' \<noteq> field e ''to'')"
  using assms
proof (induction ids edges rule: check_edges.induct)
  case (2 ids edge edges)
  have nan: "field edge ''from'' \<noteq> NaN" if "truthy (field edge ''from'')" using that by auto
  have undef: "Undefined \<notin> set ids" using "2.prems" by auto
  show ?case
    using 2 nan undef by (auto simp: has_def strict_eq_def is_null_field)
qed simp

lemma validateWorkflow_iff:
  assumes "truthy d" "truthy (field d ''id'')" "field d ''nodes'' = Arr nodes" "field d ''edges'' = Arr edges" "prim_ids nodes"
  shows "validateWorkflow d = Inr d \<longleftrightarrow> graph_ok (graph_of nodes edges)"
    and "validateWorkflow d = Inr d' \<Longrightarrow> d' = d"
proof -
  let ?ids = "map (\<lambda>n. field n ''id'') nodes"
  have nodes: "check_nodes [] nodes = Inr ids' \<longleftrightarrow>
      (\<forall>n \<in> set nodes. truthy (field n ''id'') \<and> field n ''type'' \<in> set NODE_TYPES) \<and> distinct ?ids \<and> ids' = ?ids" for ids'
    using check_nodes_iff [of "[]" nodes ids'] assms(5) by simp
  show "validateWorkflow d = Inr d' \<Longrightarrow> d' = d"
    using assms(1-4) by (auto simp: validateWorkflow_def Let_def split: sum.splits option.splits if_splits)
  show "validateWorkflow d = Inr d \<longleftrightarrow> graph_ok (graph_of nodes edges)"
  proof (cases "check_nodes [] nodes")
    case (Inl e)
    then have "\<not> ((\<forall>n \<in> set nodes. truthy (field n ''id'') \<and> field n ''type'' \<in> set NODE_TYPES) \<and> distinct ?ids)"
      using nodes by force
    with Inl assms(1-4) show ?thesis by (auto simp: validateWorkflow_def graph_ok_def comp_def)
  next
    case (Inr ids)
    then have n: "\<forall>n \<in> set nodes. truthy (field n ''id'') \<and> field n ''type'' \<in> set NODE_TYPES" "distinct ?ids" "ids = ?ids"
      using nodes [of ids] by auto
    have ids: "\<forall>i \<in> set ids. \<not> is_ref i \<and> truthy i" using n(1,3) assms(5) by (auto simp: prim_ids_def)
    have sub: "check_edges ids edges = None \<longleftrightarrow> set (g_edges (graph_of nodes edges))
        \<subseteq> (fst ` set (g_nodes (graph_of nodes edges))) \<times> (fst ` set (g_nodes (graph_of nodes edges))) - Id"
    proof -
      have "fst ` set (g_nodes (graph_of nodes edges)) = set ?ids" by (simp add: image_image)
      then show ?thesis unfolding n(3) check_edges_iff [OF ids [unfolded n(3)]] by auto
    qed
    have trig: "(\<exists>node \<in> set nodes. field node ''type'' = Str ''trigger'' \<and> \<not> has (map (\<lambda>edge. field edge ''to'') edges) (field node ''id''))
      \<longleftrightarrow> (\<exists>i. (i, Str ''trigger'') \<in> set (g_nodes (graph_of nodes edges)) \<and> i \<notin> snd ` set (g_edges (graph_of nodes edges)))"
      using assms(5) by (force simp: has_def prim_ids_def image_iff)
    have ok: "\<forall>(i, t) \<in> set (g_nodes (graph_of nodes edges)). truthy i \<and> t \<in> set NODE_TYPES"
      "distinct (map fst (g_nodes (graph_of nodes edges)))"
      using n(1,2) by (auto simp: comp_def)
    show ?thesis
      unfolding graph_ok_def trig [symmetric] sub [symmetric] validateWorkflow_def
      using assms(1-4) Inr ok by (simp add: Let_def split: option.split)
  qed
qed

section \<open>Versions\<close>

record version_store =
  vs_versions :: "(jsval \<times> jsval list) list"
  vs_published :: "(jsval \<times> jsval) list"

definition new_WorkflowVersionStore :: version_store where
  "new_WorkflowVersionStore = \<lparr>vs_versions = [], vs_published = []\<rparr>"

definition versions_of :: "version_store \<Rightarrow> jsval \<Rightarrow> jsval list" where
  "versions_of s workflowId = (case map_of (vs_versions s) workflowId of None \<Rightarrow> [] | Some vs \<Rightarrow> vs)"

definition save_version :: "jsval \<Rightarrow> (version_store, jsval) act" where
  "save_version d = (\<lambda>s.
     if \<not> truthy d \<or> \<not> truthy (field d ''id'') then (Inl (Error ''INVALID_WORKFLOW''), s)
     else
       let versions = versions_of s (field d ''id'');
           r = spread d [(''version'', Num (int (length versions) + 1)), (''status'', Str ''draft'')]
       in (Inr r, s\<lparr>vs_versions := AList.update (field d ''id'') (versions @ [r]) (vs_versions s)\<rparr>))"

definition get_version :: "version_store \<Rightarrow> jsval \<Rightarrow> jsval \<Rightarrow> jsval" where
  "get_version s workflowId version =
     (case find (\<lambda>item. strict_eq (field item ''version'') version) (versions_of s workflowId) of
        None \<Rightarrow> Null | Some r \<Rightarrow> r)"

definition publish_version :: "jsval \<Rightarrow> jsval \<Rightarrow> (version_store, jsval) act" where
  "publish_version workflowId version = (\<lambda>s.
     let r = get_version s workflowId version in
     if \<not> truthy r then (Inl (Error ''WORKFLOW_VERSION_NOT_FOUND''), s)
     else let published = spread r [(''status'', Str ''published'')] in
       (Inr published, s\<lparr>vs_published := AList.update workflowId published (vs_published s)\<rparr>))"

definition current_version :: "version_store \<Rightarrow> jsval \<Rightarrow> jsval" where
  "current_version s workflowId = (case map_of (vs_published s) workflowId of None \<Rightarrow> Null | Some r \<Rightarrow> r)"

datatype version_op = Save jsval | Publish jsval jsval

fun do_version :: "version_op \<Rightarrow> version_store \<Rightarrow> version_store" where
  "do_version (Save d) s = snd (save_version d s)"
| "do_version (Publish i v) s = snd (publish_version i v s)"

text \<open>The versions of every workflow are numbered from 1; what is published is one of them.\<close>

definition numbered :: "jsval list \<Rightarrow> bool" where
  "numbered vs \<longleftrightarrow> (\<forall>k < length vs. is_obj (vs ! k) \<and> field (vs ! k) ''version'' = Num (int k + 1) \<and> field (vs ! k) ''status'' = Str ''draft'')"

definition versions_wf :: "version_store \<Rightarrow> bool" where
  "versions_wf s \<longleftrightarrow> (\<forall>i. numbered (versions_of s i)) \<and>
     (\<forall>i p. map_of (vs_published s) i = Some p \<longrightarrow>
        (\<exists>r \<in> set (versions_of s i). p = spread r [(''status'', Str ''published'')]))"

lemma versions_of_save:
  "versions_of (snd (save_version d s)) i = (if truthy d \<and> truthy (field d ''id'') \<and> i = field d ''id''
     then versions_of s i @ [spread d [(''version'', Num (int (length (versions_of s i)) + 1)), (''status'', Str ''draft'')]]
     else versions_of s i)"
  by (simp add: save_version_def versions_of_def Let_def)

lemma versions_of_publish [simp]: "versions_of (snd (publish_version i v s)) j = versions_of s j"
  by (simp add: publish_version_def versions_of_def Let_def)

lemma numbered_append:
  "numbered vs \<Longrightarrow> is_obj r \<Longrightarrow> field r ''version'' = Num (int (length vs) + 1) \<Longrightarrow> field r ''status'' = Str ''draft''
    \<Longrightarrow> numbered (vs @ [r])"
  by (auto simp: numbered_def nth_append less_Suc_eq)

lemma field_spread_new:
  "field (spread d [(''version'', n), (''status'', st)]) ''version'' = n"
  "field (spread d [(''version'', n), (''status'', st)]) ''status'' = st"
  by (simp_all add: spread_def map_of_put_fields)

lemma versions_wf_step: "versions_wf s \<Longrightarrow> versions_wf (do_version x s)"
proof (cases x)
  case (Save d)
  assume wf: "versions_wf s"
  then have "numbered (versions_of (do_version x s) i)" for i
    using Save by (auto simp: versions_wf_def versions_of_save field_spread_new intro!: numbered_append)
  moreover have "vs_published (do_version x s) = vs_published s"
    using Save by (simp add: save_version_def Let_def)
  ultimately show ?thesis using wf Save by (fastforce simp: versions_wf_def versions_of_save)
next
  case (Publish i v)
  assume wf: "versions_wf s"
  show ?thesis
  proof (cases "truthy (get_version s i v)")
    case False
    with wf Publish show ?thesis by (simp add: publish_version_def Let_def)
  next
    case True
    obtain r where r: "find (\<lambda>item. strict_eq (field item ''version'') v) (versions_of s i) = Some r"
      using True by (auto simp: get_version_def split: option.splits)
    then have "r \<in> set (versions_of s i)" by (auto simp: find_Some_iff)
    with r have "get_version s i v \<in> set (versions_of s i)" by (simp add: get_version_def)
    with True wf Publish show ?thesis
      by (auto simp: versions_wf_def publish_version_def Let_def versions_of_def split: if_splits)
  qed
qed

lemma get_version_numbered:
  assumes "numbered (versions_of s i)"
  shows "get_version s i (Num n) = (if 1 \<le> n \<and> n \<le> int (length (versions_of s i)) then versions_of s i ! (nat (n - 1)) else Null)"
proof -
  let ?vs = "versions_of s i"
  have v: "field (?vs ! k) ''version'' = Num (int k + 1)" if "k < length ?vs" for k using assms that by (simp add: numbered_def)
  show ?thesis
  proof (cases "1 \<le> n \<and> n \<le> int (length ?vs)")
    case True
    have "find (\<lambda>item. strict_eq (field item ''version'') (Num n)) ?vs = Some (?vs ! nat (n - 1))"
      unfolding find_Some_iff using True v by (intro exI [of _ "nat (n - 1)"]) (auto simp: strict_eq_def)
    with True show ?thesis by (simp add: get_version_def)
  next
    case False
    have "find (\<lambda>item. strict_eq (field item ''version'') (Num n)) ?vs = None"
      unfolding find_None_iff using False v by (auto simp: strict_eq_def in_set_conv_nth)
    with False show ?thesis by (auto simp: get_version_def)
  qed
qed

lemma versions_of_step: "\<exists>new. versions_of (do_version x s) i = versions_of s i @ new"
  by (cases x) (auto simp: versions_of_save)

fun do_versions :: "version_op list \<Rightarrow> version_store \<Rightarrow> version_store" where
  "do_versions [] s = s"
| "do_versions (x # xs) s = do_versions xs (do_version x s)"

lemma do_versions_wf: "versions_wf s \<Longrightarrow> versions_wf (do_versions xs s)"
  by (induction xs arbitrary: s) (simp_all add: versions_wf_step)

lemma do_versions_grow: "\<exists>new. versions_of (do_versions xs s) i = versions_of s i @ new"
proof (induction xs arbitrary: s)
  case (Cons x xs)
  obtain a where "versions_of (do_version x s) i = versions_of s i @ a" using versions_of_step by blast
  moreover obtain b where "versions_of (do_versions xs (do_version x s)) i = versions_of (do_version x s) i @ b" using Cons by blast
  ultimately show ?case by simp
qed simp

lemma new_versions_wf: "versions_wf new_WorkflowVersionStore"
  by (simp add: versions_wf_def new_WorkflowVersionStore_def versions_of_def numbered_def)

lemma versions_stable:
  assumes wf: "versions_wf s"
  shows "(let n = int (length (versions_of s i)) in
      (\<forall>k. get_version s i (Num k) \<noteq> Null \<longleftrightarrow> 1 \<le> k \<and> k \<le> n) \<and>
      (\<forall>k ys. 1 \<le> k \<longrightarrow> k \<le> n \<longrightarrow> get_version (do_versions ys s) i (Num k) = get_version s i (Num k)
          \<and> field (get_version s i (Num k)) ''version'' = Num k) \<and>
      (current_version s i = Null \<or> (\<exists>k. 1 \<le> k \<and> k \<le> n
          \<and> current_version s i = spread (get_version s i (Num k)) [(''status'', Str ''published'')])))"
proof -
  have num: "numbered (versions_of s i)" "numbered (versions_of (do_versions ys s) i)" for ys
    using wf do_versions_wf [OF wf] by (simp_all add: versions_wf_def)
  have found: "is_obj (get_version s i (Num k)) \<and> field (get_version s i (Num k)) ''version'' = Num k"
    if "1 \<le> k" "k \<le> int (length (versions_of s i))" for k
    using num(1) that unfolding get_version_numbered [OF num(1)] by (auto simp: numbered_def)
  have stable: "get_version (do_versions ys s) i (Num k) = get_version s i (Num k)"
    if "1 \<le> k" "k \<le> int (length (versions_of s i))" for k ys
  proof -
    obtain new where "versions_of (do_versions ys s) i = versions_of s i @ new" using do_versions_grow by blast
    then show ?thesis
      unfolding get_version_numbered [OF num(1)] get_version_numbered [OF num(2)] using that by (auto simp: nth_append)
  qed
  have cur: "\<exists>k. 1 \<le> k \<and> k \<le> int (length (versions_of s i)) \<and> current_version s i = spread (get_version s i (Num k)) [(''status'', Str ''published'')]"
    if some: "current_version s i \<noteq> Null"
  proof -
    obtain p where p: "map_of (vs_published s) i = Some p" "current_version s i = p"
      using some by (cases "map_of (vs_published s) i") (auto simp: current_version_def)
    then obtain r where "r \<in> set (versions_of s i)" "current_version s i = spread r [(''status'', Str ''published'')]"
      using wf unfolding versions_wf_def by blast
    then obtain j where "j < length (versions_of s i)" "current_version s i = spread (versions_of s i ! j) [(''status'', Str ''published'')]"
      by (auto simp: in_set_conv_nth)
    then show ?thesis by (intro exI [of _ "int j + 1"]) (simp add: get_version_numbered [OF num(1)])
  qed
  have "get_version s i (Num k) = Null" if "\<not> (1 \<le> k \<and> k \<le> int (length (versions_of s i)))" for k
    using that by (auto simp: get_version_numbered [OF num(1)])
  with found stable cur show ?thesis
    unfolding Let_def by fastforce
qed

section \<open>Properties\<close>

text \<open>C34: Equivalence. A definition with an id and node and edge lists, whose node ids are not objects, is
  accepted, and returned as it is, exactly when it describes a graph with typed and uniquely
  named nodes, edges between different declared nodes, and a trigger no edge leads to; otherwise
  it is refused with an error.\<close>

theorem validation_accepts_exactly_graphs:
  assumes "truthy d" "truthy (field d ''id'')" "field d ''nodes'' = Arr nodes" "field d ''edges'' = Arr edges" "prim_ids nodes"
  shows "if graph_ok (graph_of nodes edges) then validateWorkflow d = Inr d else (\<exists>e. validateWorkflow d = Inl e)"
proof (cases "validateWorkflow d")
  case (Inl e)
  then show ?thesis using validateWorkflow_iff(1) [OF assms] by simp
next
  case (Inr d')
  then show ?thesis using validateWorkflow_iff [OF assms] by simp
qed

definition demo_cyclic :: jsval where
  "demo_cyclic = Obj [(''id'', Str ''w''),
     (''nodes'', Arr [Obj [(''id'', Str ''t''), (''type'', Str ''trigger'')], Obj [(''id'', Str ''a''), (''type'', Str ''action'')],
                      Obj [(''id'', Str ''b''), (''type'', Str ''action'')]]),
     (''edges'', Arr [Obj [(''from'', Str ''t''), (''to'', Str ''a'')], Obj [(''from'', Str ''a''), (''to'', Str ''b'')],
                      Obj [(''from'', Str ''b''), (''to'', Str ''a'')]])]"

theorem validation_accepts_exactly_graphs_witness: "validateWorkflow demo_cyclic = Inr demo_cyclic"
proof -
  let ?ns = "[Obj [(''id'', Str ''t''), (''type'', Str ''trigger'')], Obj [(''id'', Str ''a''), (''type'', Str ''action'')],
                      Obj [(''id'', Str ''b''), (''type'', Str ''action'')]]"
  let ?es = "[Obj [(''from'', Str ''t''), (''to'', Str ''a'')], Obj [(''from'', Str ''a''), (''to'', Str ''b'')],
                      Obj [(''from'', Str ''b''), (''to'', Str ''a'')]]"
  have "graph_ok (graph_of ?ns ?es)" by (auto simp: graph_ok_def NODE_TYPES_def)
  moreover have "truthy demo_cyclic" "truthy (field demo_cyclic ''id'')" "field demo_cyclic ''nodes'' = Arr ?ns"
    "field demo_cyclic ''edges'' = Arr ?es" "prim_ids ?ns"
    by (simp_all add: demo_cyclic_def prim_ids_def)
  ultimately show ?thesis using validation_accepts_exactly_graphs [of demo_cyclic ?ns ?es] by simp
qed

text \<open>C35: Invariant. In every history of saves and publications of a new store, a workflow's versions are numbered
  from 1 without gaps; a version once saved is found under its number unchanged for ever, and what is current is
  one of the saved versions, marked published.\<close>

theorem versions_are_immutable:
  "let s = do_versions xs new_WorkflowVersionStore; n = int (length (versions_of s i)) in
      (\<forall>k. get_version s i (Num k) \<noteq> Null \<longleftrightarrow> 1 \<le> k \<and> k \<le> n) \<and>
      (\<forall>k ys. 1 \<le> k \<longrightarrow> k \<le> n \<longrightarrow> get_version (do_versions ys s) i (Num k) = get_version s i (Num k)
          \<and> field (get_version s i (Num k)) ''version'' = Num k) \<and>
      (current_version s i = Null \<or> (\<exists>k. 1 \<le> k \<and> k \<le> n
          \<and> current_version s i = spread (get_version s i (Num k)) [(''status'', Str ''published'')]))"
  unfolding Let_def by (rule versions_stable [OF do_versions_wf [OF new_versions_wf], unfolded Let_def])

theorem versions_are_immutable_witness:
  "get_version (do_versions [Publish (Str ''w'') (Num 1), Save demo_cyclic] (do_versions [Save demo_cyclic] new_WorkflowVersionStore)) (Str ''w'') (Num 1)
    = get_version (do_versions [Save demo_cyclic] new_WorkflowVersionStore) (Str ''w'') (Num 1)"
proof -
  have "length (versions_of (do_versions [Save demo_cyclic] new_WorkflowVersionStore) (Str ''w'')) = 1"
    by (simp add: versions_of_save demo_cyclic_def) (simp add: versions_of_def new_WorkflowVersionStore_def)
  with versions_are_immutable [of "[Save demo_cyclic]" "Str ''w''"] show ?thesis
    unfolding Let_def by (simp del: do_versions.simps)
qed

end
