(* ===== verification/Access.thy ===== *)
theory Access
  imports JsObject
begin

text \<open>
  Access decisions: the role table and its two evaluators (\<^verbatim>\<open>packages/authz/authorization.js\<close>,
  \<^verbatim>\<open>packages/authz/policy.js\<close>), the tenant guard (\<^verbatim>\<open>modules/security/tenant_guard.js\<close>) and the tenant
  context (\<^verbatim>\<open>modules/identity/tenant_context.js\<close>).
\<close>

section \<open>Roles\<close>

definition ROLES :: "string list js_object" where
  "ROLES =
     [(''owner'', [''organization:read'', ''organization:write'', ''workspace:read'', ''workspace:write'', ''members:read'', ''members:write'']),
      (''admin'', [''organization:read'', ''organization:write'', ''workspace:read'', ''workspace:write'', ''members:read'', ''members:write'']),
      (''member'', [''organization:read'', ''workspace:read'', ''workspace:write''])]"

definition ROLE_PERMISSIONS :: "string list js_object" where
  "ROLE_PERMISSIONS =
     [(''owner'', [''organization:read'', ''organization:write'', ''workspace:read'', ''workspace:write'', ''members:read'', ''members:write'']),
      (''admin'', [''organization:read'', ''organization:write'', ''workspace:read'', ''workspace:write'', ''members:read'', ''members:write'']),
      (''member'', [''organization:read'', ''workspace:read'', ''workspace:write''])]"

definition permissionsFor :: "jsval \<Rightarrow> js_error + string list" where
  "permissionsFor role =
     (case map_of ROLES (to_str role) of
        Some ps \<Rightarrow> Inr ps
      | None \<Rightarrow> if to_str role \<in> set inherited then Inl (TypeError ''object is not iterable'')
               else Inl (Error (''Unknown role: '' @ to_str role)))"

definition contains :: "string list \<Rightarrow> jsval \<Rightarrow> bool" where
  "contains ps permission \<longleftrightarrow> (case permission of Str p \<Rightarrow> p \<in> set ps | _ \<Rightarrow> False)"

definition authorize :: "jsval \<Rightarrow> jsval \<Rightarrow> jsval \<Rightarrow> jsval \<Rightarrow> js_error + bool" where
  "authorize role permission organizationId resourceOrganizationId =
     (if \<not> truthy organizationId \<or> \<not> truthy resourceOrganizationId \<or> \<not> strict_eq organizationId resourceOrganizationId
      then Inr False
      else case permissionsFor role of Inl e \<Rightarrow> Inl e | Inr ps \<Rightarrow> Inr (contains ps permission))"

definition assertAuthorized :: "jsval \<Rightarrow> jsval \<Rightarrow> jsval \<Rightarrow> jsval \<Rightarrow> js_error + bool" where
  "assertAuthorized role permission organizationId resourceOrganizationId =
     (case authorize role permission organizationId resourceOrganizationId of
        Inl e \<Rightarrow> Inl e
      | Inr ok \<Rightarrow> if \<not> ok then Inl (Exn ''Error'' ''Forbidden'' [(''code'', Str ''FORBIDDEN'')]) else Inr True)"

record policy_decision =
  pd_allowed :: bool
  pd_reason :: string

definition evaluatePolicy :: "jsval \<Rightarrow> jsval \<Rightarrow> jsval \<Rightarrow> jsval \<Rightarrow> jsval \<Rightarrow> jsval \<Rightarrow> js_error + policy_decision" where
  "evaluatePolicy role permission organizationId resourceOrganizationId highRisk approval =
     (if \<not> truthy role \<or> \<not> truthy permission \<or> \<not> truthy organizationId \<or> \<not> truthy resourceOrganizationId
      then Inr \<lparr>pd_allowed = False, pd_reason = ''MISSING_AUTHORIZATION_CONTEXT''\<rparr>
      else if \<not> strict_eq organizationId resourceOrganizationId
      then Inr \<lparr>pd_allowed = False, pd_reason = ''TENANT_BOUNDARY_VIOLATION''\<rparr>
      else if truthy (default_to highRisk (Boolean False)) \<and> \<not> truthy (default_to approval (Boolean False))
      then Inr \<lparr>pd_allowed = False, pd_reason = ''APPROVAL_REQUIRED''\<rparr>
      else case map_of ROLE_PERMISSIONS (to_str role) of
        None \<Rightarrow>
          if to_str role \<in> set inherited then Inl (TypeError ''permissions.includes is not a function'')
          else Inr \<lparr>pd_allowed = False, pd_reason = ''FORBIDDEN''\<rparr>
      | Some permissions \<Rightarrow>
          if \<not> contains permissions permission then Inr \<lparr>pd_allowed = False, pd_reason = ''FORBIDDEN''\<rparr>
          else Inr \<lparr>pd_allowed = True, pd_reason = ''AUTHORIZED''\<rparr>)"

section \<open>Tenant boundaries\<close>

definition assertAccess :: "jsval \<Rightarrow> jsval \<Rightarrow> js_error + bool" where
  "assertAccess resourceTenantId actorTenantId =
     (if \<not> truthy actorTenantId \<or> \<not> truthy resourceTenantId \<or> \<not> strict_eq actorTenantId resourceTenantId
      then Inl (Exn ''Error'' ''Tenant access denied'' [(''code'', Str ''TENANT_ACCESS_DENIED'')])
      else Inr True)"

record tenant_context =
  tc_tenantId :: jsval
  tc_organizationId :: jsval
  tc_userId :: jsval

definition new_TenantContext :: "jsval \<Rightarrow> jsval \<Rightarrow> jsval \<Rightarrow> js_error + tenant_context" where
  "new_TenantContext tenantId organizationId userId =
     (if \<not> truthy tenantId \<or> \<not> truthy organizationId \<or> \<not> truthy userId then Inl (Error ''TENANT_CONTEXT_REQUIRED'')
      else Inr \<lparr>tc_tenantId = tenantId, tc_organizationId = organizationId, tc_userId = userId\<rparr>)"

definition assertTenant :: "tenant_context \<Rightarrow> jsval \<Rightarrow> js_error + bool" where
  "assertTenant ctx tenantId =
     (if \<not> strict_eq tenantId (tc_tenantId ctx) then Inl (Error ''TENANT_BOUNDARY_VIOLATION'') else Inr True)"

definition assertOrganization :: "tenant_context \<Rightarrow> jsval \<Rightarrow> js_error + bool" where
  "assertOrganization ctx organizationId =
     (if \<not> strict_eq organizationId (tc_organizationId ctx) then Inl (Error ''ORGANIZATION_BOUNDARY_VIOLATION'') else Inr True)"

section \<open>The access matrix\<close>

datatype role = Owner | Admin | Member

datatype permission = Organization_Read | Organization_Write | Workspace_Read | Workspace_Write | Members_Read | Members_Write

fun role_name :: "role \<Rightarrow> string" where
  "role_name Owner = ''owner''"
| "role_name Admin = ''admin''"
| "role_name Member = ''member''"

fun permission_name :: "permission \<Rightarrow> string" where
  "permission_name Organization_Read = ''organization:read''"
| "permission_name Organization_Write = ''organization:write''"
| "permission_name Workspace_Read = ''workspace:read''"
| "permission_name Workspace_Write = ''workspace:write''"
| "permission_name Members_Read = ''members:read''"
| "permission_name Members_Write = ''members:write''"

text \<open>Owners and admins may do everything; members everything but write the organization and touch its members.\<close>

fun grants :: "role \<Rightarrow> permission \<Rightarrow> bool" where
  "grants Member p = (p \<notin> {Organization_Write, Members_Read, Members_Write})"
| "grants _ _ = True"

definition all_permissions :: "permission list" where
  "all_permissions = [Organization_Read, Organization_Write, Workspace_Read, Workspace_Write, Members_Read, Members_Write]"

lemma set_all_permissions [simp]: "set all_permissions = UNIV"
proof -
  have "p \<in> set all_permissions" for p by (cases p) (simp_all add: all_permissions_def)
  then show ?thesis by blast
qed

definition granted_names :: "role \<Rightarrow> string list" where
  "granted_names r = map permission_name (filter (grants r) all_permissions)"

lemma ROLES_lookup: "map_of ROLES x = Some ps \<longleftrightarrow> (\<exists>r. x = role_name r \<and> ps = granted_names r)"
proof
  assume "map_of ROLES x = Some ps"
  then show "\<exists>r. x = role_name r \<and> ps = granted_names r"
    by (intro exI [of _ "if x = ''owner'' then Owner else if x = ''admin'' then Admin else Member"])
      (auto simp: ROLES_def granted_names_def all_permissions_def split: if_splits)
next
  assume "\<exists>r. x = role_name r \<and> ps = granted_names r"
  then obtain r where "x = role_name r" "ps = granted_names r" by blast
  then show "map_of ROLES x = Some ps"
    by (cases r) (simp_all add: ROLES_def granted_names_def all_permissions_def)
qed

lemma ROLE_PERMISSIONS_same: "ROLE_PERMISSIONS = ROLES"
  by (simp add: ROLE_PERMISSIONS_def ROLES_def)

lemma contains_granted: "contains (granted_names r) permission \<longleftrightarrow> (\<exists>p. permission = Str (permission_name p) \<and> grants r p)"
  by (cases permission) (auto simp: contains_def granted_names_def)

lemma role_name_inject [simp]: "role_name r = role_name r' \<longleftrightarrow> r = r'"
  by (cases r; cases r') simp_all

lemma permissionsFor_iff:
  "permissionsFor role = Inr ps \<longleftrightarrow> (\<exists>r. to_str role = role_name r \<and> ps = granted_names r)"
  unfolding ROLES_lookup [symmetric] by (auto simp: permissionsFor_def split: option.split)

text \<open>The access matrix, lifted to the values a caller passes.\<close>

definition may :: "jsval \<Rightarrow> jsval \<Rightarrow> bool" where
  "may role permission \<longleftrightarrow> (\<exists>r p. to_str role = role_name r \<and> permission = Str (permission_name p) \<and> grants r p)"

lemma may_iff: "map_of ROLES (to_str role) = Some ps \<Longrightarrow> may role permission \<longleftrightarrow> contains ps permission"
  unfolding ROLES_lookup may_def using contains_granted by fastforce

lemma may_unknown: "map_of ROLES (to_str role) = None \<Longrightarrow> \<not> may role permission"
  using ROLES_lookup [of "to_str role"] by (auto simp: may_def)

lemma inherited_unknown: "to_str role \<in> set inherited \<Longrightarrow> map_of ROLES (to_str role) = None"
  by (auto simp: inherited_def ROLES_def)

lemma may_truthy:
  assumes "may role permission"
  shows "truthy role \<and> truthy permission"
proof -
  obtain r p where rp: "to_str role = role_name r" "permission = Str (permission_name p)" using assms by (auto simp: may_def)
  have "int_str 0 = ''0''" by (simp add: int_str_def nat_str.simps)
  then have "truthy role" using rp(1) by (cases role; cases r) (auto split: if_splits)
  moreover have "truthy permission" unfolding rp(2) by (cases p) simp_all
  ultimately show ?thesis by simp
qed

definition same_organization :: "jsval \<Rightarrow> jsval \<Rightarrow> bool" where
  "same_organization a b \<longleftrightarrow> truthy a \<and> truthy b \<and> strict_eq a b"

section \<open>Properties\<close>

lemma authorize_matrix:
  "authorize role permission org res = Inr True \<longleftrightarrow> same_organization org res \<and> may role permission"
  by (cases "map_of ROLES (to_str role)")
    (auto simp: authorize_def same_organization_def permissionsFor_def may_iff may_unknown)

text \<open>Equivalence. \<open>authorize\<close> answers true exactly for a role and permission of the access matrix within one
  organization; it throws only within one organization and only for names that are no role;
  \<open>assertAuthorized\<close> passes in exactly the cases where \<open>authorize\<close> answers true.\<close>

theorem authorize_is_the_access_matrix:
  "(authorize role permission org res = Inr True \<longleftrightarrow> same_organization org res \<and> may role permission)
   \<and> ((\<exists>e. authorize role permission org res = Inl e) \<longleftrightarrow> same_organization org res \<and> (\<forall>r. to_str role \<noteq> role_name r))
   \<and> (assertAuthorized role permission org res = Inr b \<longleftrightarrow> b \<and> authorize role permission org res = Inr True)"
proof (intro conjI)
  show "authorize role permission org res = Inr True \<longleftrightarrow> same_organization org res \<and> may role permission"
    by (rule authorize_matrix)
  show "(\<exists>e. authorize role permission org res = Inl e) \<longleftrightarrow> same_organization org res \<and> (\<forall>r. to_str role \<noteq> role_name r)"
    using ROLES_lookup [of "to_str role"]
    by (cases "map_of ROLES (to_str role)") (auto simp: authorize_def same_organization_def permissionsFor_def)
  show "assertAuthorized role permission org res = Inr b \<longleftrightarrow> b \<and> authorize role permission org res = Inr True"
    by (auto simp: assertAuthorized_def split: sum.split)
qed

text \<open>Equivalence. The two evaluators agree: the policy allows a request exactly when \<open>authorize\<close> answers
  true for it and it is not a high-risk one without approval.\<close>

theorem evaluators_agree:
  "(\<exists>d. evaluatePolicy role permission org res highRisk approval = Inr d \<and> pd_allowed d) \<longleftrightarrow>
     authorize role permission org res = Inr True \<and> (truthy highRisk \<longrightarrow> truthy approval)"
proof -
  have default: "truthy (default_to v (Boolean False)) = truthy v" for v by (auto simp: default_to_def)
  show ?thesis
  proof (cases "same_organization org res \<and> truthy role \<and> truthy permission")
    case True
    then show ?thesis
      unfolding authorize_matrix
      by (cases "map_of ROLES (to_str role)")
        (auto simp: evaluatePolicy_def same_organization_def default ROLE_PERMISSIONS_same may_iff may_unknown)
  next
    case False
    then have "\<not> (same_organization org res \<and> may role permission)" using may_truthy by blast
    with False show ?thesis
      unfolding authorize_matrix
      by (auto simp: evaluatePolicy_def same_organization_def)
  qed
qed

text \<open>Safety. No check lets anything cross a boundary: across organizations or tenants neither evaluator
  allows a request, whatever the role, and the tenant guard and the tenant context throw; within
  them the guard and the context pass.\<close>

theorem boundaries_hold:
  "(\<not> same_organization org res \<longrightarrow> authorize role permission org res = Inr False
      \<and> (\<exists>d. evaluatePolicy role permission org res highRisk approval = Inr d \<and> \<not> pd_allowed d))
   \<and> (assertAccess res org = Inr True \<longleftrightarrow> same_organization org res)
   \<and> (\<forall>ctx. new_TenantContext t g u = Inr ctx \<longrightarrow>
        (assertTenant ctx t' = Inr True \<longleftrightarrow> strict_eq t' t) \<and> (assertOrganization ctx g' = Inr True \<longleftrightarrow> strict_eq g' g)
        \<and> truthy t \<and> truthy g \<and> truthy u)"
  by (auto simp: authorize_def evaluatePolicy_def same_organization_def assertAccess_def new_TenantContext_def
      assertTenant_def assertOrganization_def)

theorem evaluators_agree_witness:
  "\<exists>d. evaluatePolicy (Str ''admin'') (Str ''members:write'') (Str ''o'') (Str ''o'') Undefined Undefined = Inr d \<and> pd_allowed d"
proof -
  have "may (Str ''admin'') (Str ''members:write'')"
    unfolding may_def by (intro exI [of _ Admin] exI [of _ Members_Write]) simp
  then have "authorize (Str ''admin'') (Str ''members:write'') (Str ''o'') (Str ''o'') = Inr True"
    using authorize_matrix by (simp add: same_organization_def strict_eq_def)
  then show ?thesis by (simp add: evaluators_agree)
qed

theorem boundaries_hold_witness:
  "authorize (Str ''owner'') (Str ''members:write'') (Str ''o'') (Str ''p'') = Inr False"
proof -
  have "\<not> same_organization (Str ''o'') (Str ''p'')" by (simp add: same_organization_def strict_eq_def)
  with boundaries_hold [of "Str ''o''" "Str ''p''"] show ?thesis by blast
qed

end
