(* ===== verification/Approvals.thy ===== *)
theory Approvals
  imports Action
begin

text \<open>
  The two approval gates: \<^verbatim>\<open>modules/governance/approval.js\<close>, whose requests are decided once, and
  \<^verbatim>\<open>modules/ai/approval_gate.js\<close>, whose requests are not. Ids are primitive values. \<open>now\<close> is the
  text of \<^verbatim>\<open>new Date().toISOString()\<close>.
\<close>

section \<open>The governance gate\<close>

record approval_gate =
  ag_requests :: "(jsval \<times> jsval) list"

definition new_ApprovalGate :: approval_gate where
  "new_ApprovalGate = \<lparr>ag_requests = []\<rparr>"

definition TERMINAL :: "jsval list" where
  "TERMINAL = [Str ''approved'', Str ''rejected'', Str ''cancelled'']"

definition request_approval :: "string \<Rightarrow> jsval \<Rightarrow> jsval \<Rightarrow> jsval \<Rightarrow> jsval \<Rightarrow> (approval_gate, jsval) act" where
  "request_approval now i tenantId action requesterId = (\<lambda>s.
     if \<not> truthy i \<or> \<not> truthy tenantId \<or> \<not> truthy action \<or> \<not> truthy requesterId then (Inl (Error ''INVALID_APPROVAL_REQUEST''), s)
     else if map_of (ag_requests s) i \<noteq> None then (Inl (Error ''APPROVAL_EXISTS''), s)
     else let request = Obj [(''id'', i), (''tenantId'', tenantId), (''action'', action), (''requesterId'', requesterId),
              (''status'', Str ''pending''), (''createdAt'', Str now)]
       in (Inr request, s\<lparr>ag_requests := AList.update i request (ag_requests s)\<rparr>))"

definition decide_approval :: "string \<Rightarrow> jsval \<Rightarrow> jsval \<Rightarrow> jsval \<Rightarrow> jsval \<Rightarrow> (approval_gate, jsval) act" where
  "decide_approval now i tenantId approverId decision = (\<lambda>s.
     case map_of (ag_requests s) i of
       None \<Rightarrow> (Inl (Error ''APPROVAL_NOT_FOUND''), s)
     | Some request \<Rightarrow>
         if \<not> strict_eq (field request ''tenantId'') tenantId then (Inl (Error ''TENANT_BOUNDARY_VIOLATION''), s)
         else if strict_eq (field request ''requesterId'') approverId then (Inl (Error ''SELF_APPROVAL_FORBIDDEN''), s)
         else if decision \<notin> set [Str ''approved'', Str ''rejected''] then (Inl (Error ''INVALID_APPROVAL_DECISION''), s)
         else if field request ''status'' \<in> set TERMINAL then (Inl (Error ''APPROVAL_TERMINAL''), s)
         else let updated = spread request [(''status'', decision), (''approverId'', approverId), (''decidedAt'', Str now)]
           in (Inr updated, s\<lparr>ag_requests := AList.update i updated (ag_requests s)\<rparr>))"

definition get_approval :: "approval_gate \<Rightarrow> jsval \<Rightarrow> jsval" where
  "get_approval s i = (case map_of (ag_requests s) i of None \<Rightarrow> Null | Some r \<Rightarrow> r)"

datatype approval_op = Ask string jsval jsval jsval jsval | Decide string jsval jsval jsval jsval

fun do_approval :: "approval_op \<Rightarrow> approval_gate \<Rightarrow> approval_gate" where
  "do_approval (Ask now i t a r) s = snd (request_approval now i t a r s)"
| "do_approval (Decide now i t a d) s = snd (decide_approval now i t a d s)"

fun do_approvals :: "approval_op list \<Rightarrow> approval_gate \<Rightarrow> approval_gate" where
  "do_approvals [] s = s"
| "do_approvals (x # xs) s = do_approvals xs (do_approval x s)"

subsection \<open>The life of one request\<close>

datatype verdict = Open | Approved | Rejected

fun verdict_val :: "verdict \<Rightarrow> jsval" where
  "verdict_val Open = Str ''pending''"
| "verdict_val Approved = Str ''approved''"
| "verdict_val Rejected = Str ''rejected''"

text \<open>A well-formed request: its verdict, and someone else's approval once it has one.\<close>

definition request_ok :: "jsval \<Rightarrow> bool" where
  "request_ok v \<longleftrightarrow> is_obj v \<and> (\<exists>d. field v ''status'' = verdict_val d
     \<and> (d \<noteq> Open \<longrightarrow> \<not> strict_eq (field v ''requesterId'') (field v ''approverId'')))"

definition same_request :: "jsval \<Rightarrow> jsval \<Rightarrow> bool" where
  "same_request v w \<longleftrightarrow> (\<forall>k \<in> {''id'', ''tenantId'', ''action'', ''requesterId'', ''createdAt''}. field w k = field v k)"

text \<open>A request either stays as it is, or is decided while it is open.\<close>

inductive request_step :: "jsval option \<Rightarrow> jsval option \<Rightarrow> bool" where
  Stay: "request_step x x"
| Filed: "request_ok v \<Longrightarrow> field v ''status'' = Str ''pending'' \<Longrightarrow> request_step None (Some v)"
| Settled: "\<lbrakk>field v ''status'' = Str ''pending''; request_ok w; same_request v w\<rbrakk> \<Longrightarrow> request_step (Some v) (Some w)"

inductive_cases request_step_SomeE: "request_step (Some v) y"

lemma verdict_terminal: "verdict_val d \<in> set TERMINAL \<longleftrightarrow> d \<noteq> Open"
  by (cases d) (auto simp: TERMINAL_def)

lemma do_approval_steps:
  assumes "\<And>i v. map_of (ag_requests s) i = Some v \<Longrightarrow> request_ok v"
  shows "request_step (map_of (ag_requests s) j) (map_of (ag_requests (do_approval x s)) j)"
proof (cases x)
  case (Ask now i t a r)
  then show ?thesis
    by (auto simp: request_approval_def Let_def request_ok_def intro!: Stay Filed exI [of _ Open])
next
  case (Decide now i t a d)
  show ?thesis
  proof (cases "map_of (ag_requests s) i")
    case None
    with Decide show ?thesis by (simp add: decide_approval_def Stay)
  next
    case (Some v)
    have v: "request_ok v" by (rule assms [OF Some])
    let ?w = "spread v [(''status'', d), (''approverId'', a), (''decidedAt'', Str now)]"
    have pending: "field v ''status'' = Str ''pending''" if "field v ''status'' \<notin> set TERMINAL"
      using v that verdict_terminal verdict_val.simps(1) unfolding request_ok_def by metis
    have w: "request_ok ?w" "same_request v ?w" if "d \<in> set [Str ''approved'', Str ''rejected'']" "\<not> strict_eq (field v ''requesterId'') a"
    proof -
      have "is_obj v" using v by (simp add: request_ok_def)
      moreover have "\<exists>x. d = verdict_val x" using that(1) verdict_val.simps by (auto, metis+)
      ultimately show "request_ok ?w" "same_request v ?w"
        using that(2) by (auto simp: request_ok_def same_request_def js_simps)
    qed
    show ?thesis
      using Decide Some pending w by (auto simp: decide_approval_def Let_def intro!: Stay Settled)
  qed
qed

lemma request_step_ok: "request_step x y \<Longrightarrow> (\<And>v. x = Some v \<Longrightarrow> request_ok v) \<Longrightarrow> y = Some w \<Longrightarrow> request_ok w"
  by (cases rule: request_step.cases) auto

lemma do_approvals_ok:
  "(\<And>i v. map_of (ag_requests s) i = Some v \<Longrightarrow> request_ok v) \<Longrightarrow> map_of (ag_requests (do_approvals xs s)) i = Some v \<Longrightarrow> request_ok v"
proof (induction xs arbitrary: s)
  case (Cons x xs)
  have ok: "request_ok w" if "map_of (ag_requests (do_approval x s)) j = Some w" for j w
    by (rule request_step_ok [OF do_approval_steps _ that]) (use Cons.prems(1) in auto)
  show ?case
  proof (rule Cons.IH [where s = "do_approval x s"])
    show "map_of (ag_requests (do_approvals xs (do_approval x s))) i = Some v" using Cons.prems(2) by simp
  qed (rule ok)
qed simp

lemma do_approvals_steps:
  "(\<And>i v. map_of (ag_requests s) i = Some v \<Longrightarrow> request_ok v) \<Longrightarrow>
   request_step\<^sup>*\<^sup>* (map_of (ag_requests s) i) (map_of (ag_requests (do_approvals xs s)) i)"
proof (induction xs arbitrary: s)
  case (Cons x xs)
  have ok: "request_ok w" if "map_of (ag_requests (do_approval x s)) j = Some w" for j w
    by (rule request_step_ok [OF do_approval_steps _ that]) (use Cons.prems in auto)
  have "request_step (map_of (ag_requests s) i) (map_of (ag_requests (do_approval x s)) i)"
    by (rule do_approval_steps) (use Cons.prems in auto)
  also have "request_step\<^sup>*\<^sup>* \<dots> (map_of (ag_requests (do_approvals xs (do_approval x s))) i)"
    by (rule Cons.IH) (rule ok)
  finally show ?case by simp
qed simp

lemma settled_is_final:
  assumes "request_step\<^sup>*\<^sup>* x y" "x = Some v" "field v ''status'' \<noteq> Str ''pending''"
  shows "y = Some v"
  using assms by (induction rule: rtranclp_induct) (auto elim: request_step_SomeE)

lemma steps_same_request:
  assumes "request_step\<^sup>*\<^sup>* x y" "x = Some v"
  shows "\<exists>w. y = Some w \<and> same_request v w"
  using assms
proof (induction rule: rtranclp_induct)
  case base
  then show ?case by (simp add: same_request_def)
next
  case (step y z)
  then obtain w where "y = Some w" "same_request v w" by blast
  with step.hyps(2) show ?case by (auto elim!: request_step_SomeE simp: same_request_def)
qed

section \<open>The agents' gate\<close>

text \<open>Keyed by \<^verbatim>\<open>`${tenantId}:${id}`\<close>.\<close>

definition ai_key :: "jsval \<Rightarrow> jsval \<Rightarrow> string" where
  "ai_key tenantId i = to_str tenantId @ colon # to_str i"

record ai_approval_gate =
  aig_pending :: "jsval js_map"

definition ai_request :: "jsval \<Rightarrow> jsval \<Rightarrow> jsval \<Rightarrow> jsval \<Rightarrow> (ai_approval_gate, jsval) act" where
  "ai_request i tenantId action requestedBy = (\<lambda>s.
     if \<not> truthy i \<or> \<not> truthy tenantId \<or> \<not> truthy action \<or> \<not> truthy requestedBy then (Inl (TypeError ''approval fields are required''), s)
     else let r = Obj [(''id'', i), (''tenantId'', tenantId), (''action'', action), (''requestedBy'', requestedBy), (''status'', Str ''pending'')]
       in (Inr r, s\<lparr>aig_pending := AList.update (ai_key tenantId i) r (aig_pending s)\<rparr>))"

definition ai_decide :: "jsval \<Rightarrow> jsval \<Rightarrow> jsval \<Rightarrow> jsval \<Rightarrow> (ai_approval_gate, jsval) act" where
  "ai_decide tenantId i approver approved = (\<lambda>s.
     case map_of (aig_pending s) (ai_key tenantId i) of
       None \<Rightarrow> (Inl (Error ''approval not found''), s)
     | Some r \<Rightarrow>
         if strict_eq (field r ''requestedBy'') approver then (Inl (Error ''requester cannot approve own action''), s)
         else let next = spread r [(''status'', Str (if truthy approved then ''approved'' else ''rejected'')), (''approver'', approver)]
           in (Inr next, s\<lparr>aig_pending := AList.update (ai_key tenantId i) next (aig_pending s)\<rparr>))"

section \<open>Properties\<close>

text \<open>C36: Invariant. In every history of the governance gate, a request keeps what it asks for, for whom and by
  whom; once approved or rejected it stays exactly as it was decided, and the one who decided it
  is not the one who filed it.\<close>

theorem decisions_are_final:
  assumes "get_approval (do_approvals xs new_ApprovalGate) i = v" "v \<noteq> Null"
  shows "(\<exists>d. field v ''status'' = verdict_val d \<and> (d \<noteq> Open \<longrightarrow>
            \<not> strict_eq (field v ''requesterId'') (field v ''approverId'')
            \<and> get_approval (do_approvals ys (do_approvals xs new_ApprovalGate)) i = v))
    \<and> same_request v (get_approval (do_approvals ys (do_approvals xs new_ApprovalGate)) i)"
proof -
  let ?s = "do_approvals xs new_ApprovalGate"
  have none: "request_ok w" if "map_of (ag_requests new_ApprovalGate) j = Some w" for j w
    using that by (simp add: new_ApprovalGate_def)
  have ok: "request_ok w" if "map_of (ag_requests ?s) j = Some w" for j w
    by (rule do_approvals_ok [OF none that])
  have v: "map_of (ag_requests ?s) i = Some v" using assms by (auto simp: get_approval_def split: option.splits)
  have steps: "request_step\<^sup>*\<^sup>* (map_of (ag_requests ?s) i) (map_of (ag_requests (do_approvals ys ?s)) i)"
    by (rule do_approvals_steps) (rule ok)
  obtain d where d: "field v ''status'' = verdict_val d" "d \<noteq> Open \<longrightarrow> \<not> strict_eq (field v ''requesterId'') (field v ''approverId'')"
    using ok [OF v] by (auto simp: request_ok_def)
  have "get_approval (do_approvals ys ?s) i = v" if "d \<noteq> Open"
  proof -
    have "field v ''status'' \<noteq> Str ''pending''" using d(1) that by (cases d) auto
    from settled_is_final [OF steps v this] show ?thesis by (simp add: get_approval_def)
  qed
  moreover have "same_request v (get_approval (do_approvals ys ?s) i)"
    using steps_same_request [OF steps v] by (auto simp: get_approval_def)
  ultimately show ?thesis using d by blast
qed

definition demo_gate :: "approval_op list" where
  "demo_gate = [Ask ''t0'' (Str ''a'') (Str ''t'') (Str ''pay'') (Str ''ann''), Decide ''t1'' (Str ''a'') (Str ''t'') (Str ''bob'') (Str ''rejected'')]"

theorem decisions_are_final_witness:
  "field (get_approval (do_approvals [Decide ''t2'' (Str ''a'') (Str ''t'') (Str ''cy'') (Str ''approved'')]
     (do_approvals demo_gate new_ApprovalGate)) (Str ''a'')) ''status'' = Str ''rejected''"
proof -
  have "field (get_approval (do_approvals demo_gate new_ApprovalGate) (Str ''a'')) ''status'' = Str ''rejected''"
    "get_approval (do_approvals demo_gate new_ApprovalGate) (Str ''a'') \<noteq> Null"
    by (simp_all add: demo_gate_def new_ApprovalGate_def request_approval_def decide_approval_def get_approval_def Let_def
        strict_eq_def TERMINAL_def js_simps)
  moreover from this(1) have "field (get_approval (do_approvals demo_gate new_ApprovalGate) (Str ''a'')) ''status'' \<noteq> verdict_val Open" by simp
  ultimately show ?thesis
    using decisions_are_final [where i = "Str ''a''" and xs = demo_gate and ys = "[Decide ''t2'' (Str ''a'') (Str ''t'') (Str ''cy'') (Str ''approved'')]", OF refl]
    by metis
qed

text \<open>Error. The agents' gate has no such protection: after any decision on a request someone other than
  its requester can decide it the other way, and the gate records that.\<close>

theorem ai_decisions_can_be_reversed:
  assumes "map_of (aig_pending s) (ai_key t i) = Some r" "is_obj r" "\<not> strict_eq (field r ''requestedBy'') approver"
    and "\<not> strict_eq (field r ''requestedBy'') other"
  shows "\<exists>r1 s1 r2 s2. ai_decide t i approver (Boolean b) s = (Inr r1, s1) \<and> ai_decide t i other (Boolean (\<not> b)) s1 = (Inr r2, s2)
    \<and> map_of (aig_pending s2) (ai_key t i) = Some r2 \<and> field r2 ''status'' = Str (if b then ''rejected'' else ''approved'')"
  using assms by (simp add: ai_decide_def Let_def js_simps)

theorem ai_decisions_can_be_reversed_witness:
  "\<exists>s. map_of (aig_pending s) (ai_key (Str ''t'') (Str ''a'')) \<noteq> None
    \<and> (\<exists>r1 s1 r2 s2. ai_decide (Str ''t'') (Str ''a'') (Str ''bob'') (Boolean False) s = (Inr r1, s1)
        \<and> ai_decide (Str ''t'') (Str ''a'') (Str ''bob'') (Boolean True) s1 = (Inr r2, s2) \<and> field r2 ''status'' = Str ''approved'')"
proof -
  let ?r = "Obj [(''requestedBy'', Str ''ann''), (''status'', Str ''pending'')]"
  let ?s = "\<lparr>aig_pending = [(ai_key (Str ''t'') (Str ''a''), ?r)]\<rparr>"
  have "map_of (aig_pending ?s) (ai_key (Str ''t'') (Str ''a'')) = Some ?r" "is_obj ?r"
    "\<not> strict_eq (field ?r ''requestedBy'') (Str ''bob'')" by (simp_all add: strict_eq_def)
  from ai_decisions_can_be_reversed [OF this this(3), of False] show ?thesis
    by (intro exI [of _ ?s]) auto
qed

end
