(* ===== verification/Validation.thy ===== *)
theory Validation
  imports Domain
begin

text \<open>
  Request validation (\<^verbatim>\<open>packages/validation/schemas.js\<close>): each validator either throws a
  \<^verbatim>\<open>VALIDATION_FAILED\<close> error or returns the cleaned payload.
\<close>

section \<open>Helpers\<close>

definition failure :: "string \<Rightarrow> jsval \<Rightarrow> js_error" where
  "failure message f = Exn ''TypeError'' message
     [(''code'', Str ''VALIDATION_FAILED''), (''statusCode'', Num 400), (''field'', f)]"

definition as_object :: "jsval \<Rightarrow> string \<Rightarrow> js_error + jsval" where
  "as_object v name = (if is_obj v then Inr v else Inl (failure (name @ '' must be an object'') (Str name)))"

definition requiredString :: "jsval \<Rightarrow> string \<Rightarrow> nat \<Rightarrow> js_error + string" where
  "requiredString v f limit =
     (case v of
        Str s \<Rightarrow>
          if trim s = [] then Inl (failure (f @ '' is required'') (Str f))
          else if length (trim s) > limit then Inl (failure (f @ '' exceeds maximum length'') (Str f))
          else Inr (trim s)
      | _ \<Rightarrow> Inl (failure (f @ '' is required'') (Str f)))"

definition optionalObject :: "jsval \<Rightarrow> string \<Rightarrow> js_error + jsval" where
  "optionalObject v f =
     (if v = Undefined then Inr Undefined
      else if is_obj v then Inr v else Inl (failure (f @ '' must be an object'') (Str f)))"

text \<open>Sequencing of the validators' steps.\<close>

definition andThen :: "js_error + 'a \<Rightarrow> ('a \<Rightarrow> js_error + 'b) \<Rightarrow> js_error + 'b" where
  "andThen m k = (case m of Inl e \<Rightarrow> Inl e | Inr a \<Rightarrow> k a)"

text \<open>\<^verbatim>\<open>body.k\<close>: a plain \<^verbatim>\<open>TypeError\<close>, without a code, where the object is null or undefined.\<close>

definition read_field :: "jsval \<Rightarrow> string \<Rightarrow> js_error + jsval" where
  "read_field v k = (if v = Null \<or> v = Undefined then Inl null_read_error else Inr (field v k))"

definition requiredField :: "jsval \<Rightarrow> string \<Rightarrow> string \<Rightarrow> nat \<Rightarrow> js_error + string" where
  "requiredField v k f limit = andThen (read_field v k) (\<lambda>given. requiredString given f limit)"

text \<open>
  \<^verbatim>\<open>s.toLowerCase()\<close> on the characters of the model, U+0000 to U+00FF. There it is a map from
  character to character; characters beyond, some of which lower-case to two, are not in the model's strings.
\<close>

definition lower :: "char \<Rightarrow> char" where
  "lower c = (let n = (of_char c :: nat) in
     if (65 \<le> n \<and> n \<le> 90) \<or> (192 \<le> n \<and> n \<le> 222 \<and> n \<noteq> 215) then char_of (n + 32) else c)"

definition toLowerCase :: "string \<Rightarrow> string" where
  "toLowerCase s = map lower s"

text \<open>\<^verbatim>\<open>/^([^\s@]+)@([^\s@]+)\.([^\s@]+)$/.test(s)\<close>\<close>

definition email_pattern :: "string \<Rightarrow> bool" where
  "email_pattern s =
     (let local = takeWhile (\<lambda>c. c \<noteq> CHR ''@'') s; rest = drop (length local) s; domain = tl rest in
      local \<noteq> [] \<and> rest \<noteq> [] \<and> list_all (\<lambda>c. \<not> is_space c) local
      \<and> list_all (\<lambda>c. \<not> is_space c \<and> c \<noteq> CHR ''@'') domain
      \<and> list_ex (\<lambda>i. domain ! i = CHR ''.'') [1..<length domain - 1])"

section \<open>The validators\<close>

definition validate_register :: "jsval \<Rightarrow> js_error + jsval" where
  "validate_register payload =
     andThen (as_object payload ''body'') (\<lambda>body.
     andThen (requiredField body ''email'' ''email'' 320) (\<lambda>email0.
     let email = toLowerCase email0 in
     andThen (requiredField body ''password'' ''password'' 200) (\<lambda>password.
     andThen (requiredField body ''name'' ''name'' 120) (\<lambda>name.
     if \<not> email_pattern email then Inl (failure ''email must be valid'' (Str ''email''))
     else if length password < 8 then Inl (failure ''password must contain at least 8 characters'' (Str ''password''))
     else Inr (Obj [(''email'', Str email), (''password'', Str password), (''name'', Str name)])))))"

definition validate_login :: "jsval \<Rightarrow> js_error + jsval" where
  "validate_login payload =
     andThen (as_object payload ''body'') (\<lambda>body.
     andThen (requiredField body ''email'' ''email'' 320) (\<lambda>email.
     andThen (requiredField body ''password'' ''password'' 200) (\<lambda>password.
     Inr (Obj [(''email'', Str (toLowerCase email)), (''password'', Str password)]))))"

definition validate_onboarding :: "jsval \<Rightarrow> js_error + jsval" where
  "validate_onboarding payload =
     andThen (as_object payload ''body'') (\<lambda>body.
     andThen (read_field body ''businessName'') (\<lambda>first.
     andThen (if truthy first then Inr first else read_field body ''business_name'') (\<lambda>given.
     andThen (requiredString given ''businessName'' 160) (\<lambda>name.
     Inr (Obj [(''businessName'', Str name)])))))"

definition step_label :: "nat \<Rightarrow> string" where
  "step_label index = ''steps['' @ nat_str index @ '']''"

definition validate_step :: "nat \<Rightarrow> jsval \<Rightarrow> js_error + jsval" where
  "validate_step index step =
     andThen (as_object step (step_label index)) (\<lambda>item.
     andThen (requiredField item ''action'' (step_label index @ ''.action'') 120) (\<lambda>action.
     andThen (read_field item ''input'') (\<lambda>given.
     andThen (optionalObject given (step_label index @ ''.input'')) (\<lambda>input.
     Inr (Obj [(''action'', Str action), (''input'', js_or input (Obj []))])))))"

fun validate_steps :: "nat \<Rightarrow> jsval list \<Rightarrow> js_error + jsval list" where
  "validate_steps index [] = Inr []"
| "validate_steps index (step # steps) =
     andThen (validate_step index step) (\<lambda>x. andThen (validate_steps (Suc index) steps) (\<lambda>xs. Inr (x # xs)))"

definition validate_workflow :: "jsval \<Rightarrow> js_error + jsval" where
  "validate_workflow payload =
     andThen (as_object payload ''body'') (\<lambda>body.
     andThen (requiredField body ''name'' ''name'' 120) (\<lambda>name.
     andThen (read_field body ''trigger'') (\<lambda>given.
     andThen (as_object given ''trigger'') (\<lambda>trigger.
     andThen (requiredField trigger ''type'' ''trigger.type'' 80) (\<lambda>triggerType.
     andThen (read_field body ''steps'') (\<lambda>items.
     case items of
       Arr items \<Rightarrow>
         if length items < 1 \<or> length items > 20 then Inl (failure ''steps must contain 1 to 20 actions'' (Str ''steps''))
         else andThen (validate_steps 0 items) (\<lambda>steps.
           andThen (read_field body ''enabled'') (\<lambda>enabled.
           Inr (Obj [(''name'', Str name), (''trigger'', Obj [(''type'', Str triggerType)]), (''steps'', Arr steps),
                     (''enabled'', Boolean (enabled \<noteq> Boolean False))])))
     | _ \<Rightarrow> Inl (failure ''steps must contain 1 to 20 actions'' (Str ''steps''))))))))"

definition validate_automationRun :: "jsval \<Rightarrow> js_error + jsval" where
  "validate_automationRun payload =
     andThen (as_object payload ''body'') (\<lambda>body.
     andThen (read_field body ''workflowId'') (\<lambda>i.
     andThen (if i = Undefined then Inr Undefined
              else andThen (requiredString i ''workflowId'' 160) (\<lambda>s. Inr (Str s))) (\<lambda>workflowId.
     andThen (read_field body ''context'') (\<lambda>c.
     andThen (if c = Undefined then Inr (Obj []) else optionalObject c ''context'') (\<lambda>context.
     andThen (read_field body ''steps'') (\<lambda>items.
     andThen (if items = Undefined then Inr Undefined
              else andThen (validate_workflow (Obj [(''name'', Str ''runtime''), (''trigger'', Obj [(''type'', Str ''manual'')]),
                     (''steps'', items)])) (\<lambda>w. read_field w ''steps'')) (\<lambda>steps.
     if \<not> truthy workflowId \<and> \<not> truthy steps then Inl (failure ''workflowId or steps is required'' Null)
     else Inr (Obj [(''workflowId'', workflowId), (''steps'', steps), (''context'', js_or context (Obj []))]))))))))"

definition validate_whatsappConnect :: "jsval \<Rightarrow> js_error + jsval" where
  "validate_whatsappConnect payload =
     andThen (as_object payload ''body'') (\<lambda>body.
     andThen (requiredField body ''phoneNumberId'' ''phoneNumberId'' 160) (\<lambda>phoneNumberId.
     andThen (requiredField body ''accessToken'' ''accessToken'' 4096) (\<lambda>accessToken.
     Inr (Obj [(''phoneNumberId'', Str phoneNumberId), (''accessToken'', Str accessToken)]))))"

definition validate_webhook :: "jsval \<Rightarrow> js_error + jsval" where
  "validate_webhook payload =
     andThen (as_object payload ''body'') (\<lambda>body.
     andThen (read_field body ''object'') (\<lambda>topic.
     if \<not> truthy topic then Inl (failure ''object is required'' (Str ''object''))
     else andThen (read_field body ''entry'') (\<lambda>entry.
       case entry of
         Arr _ \<Rightarrow> Inr body
       | _ \<Rightarrow> Inl (failure ''entry must be an array'' (Str ''entry'')))))"

section \<open>Facts about the helpers\<close>

lemma andThen_simps [simp]: "andThen (Inl e) k = Inl e" "andThen (Inr a) k = k a"
  by (simp_all add: andThen_def)

lemma andThen_Inr: "andThen m k = Inr b \<longleftrightarrow> (\<exists>a. m = Inr a \<and> k a = Inr b)"
  by (cases m) simp_all

lemma as_object_simps [simp]: "as_object v name = Inr w \<longleftrightarrow> is_obj v \<and> w = v" "as_object (Obj fs) name = Inr (Obj fs)"
  by (auto simp: as_object_def)

lemma read_obj [simp]: "is_obj v \<Longrightarrow> read_field v k = Inr (field v k)" "is_obj v \<Longrightarrow> requiredField v k f limit = requiredString (field v k) f limit"
  by (cases v; simp add: read_field_def requiredField_def)+

text \<open>Behind the guard \<^verbatim>\<open>object(...)\<close> the fields can be read.\<close>

lemma as_object_then: "(\<And>b. is_obj b \<Longrightarrow> k b = k' b) \<Longrightarrow> andThen (as_object v n) k = andThen (as_object v n) k'"
  by (auto simp: as_object_def)

lemma validate_step_eq: "validate_step index step =
     andThen (as_object step (step_label index)) (\<lambda>item.
     andThen (requiredString (field item ''action'') (step_label index @ ''.action'') 120) (\<lambda>action.
     andThen (optionalObject (field item ''input'') (step_label index @ ''.input'')) (\<lambda>input.
     Inr (Obj [(''action'', Str action), (''input'', js_or input (Obj []))]))))"
  unfolding validate_step_def by (rule as_object_then) simp

lemma validate_workflow_eq: "validate_workflow payload =
     andThen (as_object payload ''body'') (\<lambda>body.
     andThen (requiredString (field body ''name'') ''name'' 120) (\<lambda>name.
     andThen (as_object (field body ''trigger'') ''trigger'') (\<lambda>trigger.
     andThen (requiredString (field trigger ''type'') ''trigger.type'' 80) (\<lambda>triggerType.
     case field body ''steps'' of
       Arr items \<Rightarrow>
         if length items < 1 \<or> length items > 20 then Inl (failure ''steps must contain 1 to 20 actions'' (Str ''steps''))
         else andThen (validate_steps 0 items) (\<lambda>steps.
           Inr (Obj [(''name'', Str name), (''trigger'', Obj [(''type'', Str triggerType)]), (''steps'', Arr steps),
                     (''enabled'', Boolean (field body ''enabled'' \<noteq> Boolean False))]))
     | _ \<Rightarrow> Inl (failure ''steps must contain 1 to 20 actions'' (Str ''steps''))))))"
proof -
  have type: "andThen (as_object v n) (\<lambda>trigger. andThen (requiredField trigger ''type'' ''trigger.type'' 80) f)
      = andThen (as_object v n) (\<lambda>trigger. andThen (requiredString (field trigger ''type'') ''trigger.type'' 80) f)" for v n and f :: "string \<Rightarrow> js_error + jsval"
    by (rule as_object_then) simp
  show ?thesis unfolding validate_workflow_def type by (rule as_object_then) (simp cong: jsval.case_cong if_cong)
qed

lemma workflow_obj: "validate_workflow p = Inr w \<Longrightarrow> is_obj w"
  by (cases "field p ''steps''") (auto simp: validate_workflow_eq andThen_Inr split: if_splits)

lemma validate_automationRun_eq: "validate_automationRun payload =
     andThen (as_object payload ''body'') (\<lambda>body.
     andThen (if field body ''workflowId'' = Undefined then Inr Undefined
              else andThen (requiredString (field body ''workflowId'') ''workflowId'' 160) (\<lambda>s. Inr (Str s))) (\<lambda>workflowId.
     andThen (if field body ''context'' = Undefined then Inr (Obj []) else optionalObject (field body ''context'') ''context'') (\<lambda>context.
     andThen (if field body ''steps'' = Undefined then Inr Undefined
              else andThen (validate_workflow (Obj [(''name'', Str ''runtime''), (''trigger'', Obj [(''type'', Str ''manual'')]),
                     (''steps'', field body ''steps'')])) (\<lambda>w. Inr (field w ''steps''))) (\<lambda>steps.
     if \<not> truthy workflowId \<and> \<not> truthy steps then Inl (failure ''workflowId or steps is required'' Null)
     else Inr (Obj [(''workflowId'', workflowId), (''steps'', steps), (''context'', js_or context (Obj []))])))))"
proof -
  have steps: "andThen (validate_workflow x) (\<lambda>w. read_field w ''steps'') = andThen (validate_workflow x) (\<lambda>w. Inr (field w ''steps''))" for x
    using workflow_obj [of x] by (cases "validate_workflow x") simp_all
  show ?thesis unfolding validate_automationRun_def steps by (rule as_object_then) (simp cong: if_cong)
qed

lemma last_dropWhile_all: "dropWhile p xs \<noteq> [] \<Longrightarrow> last (dropWhile p xs) = last xs"
  by (induction xs) auto

lemma trim_ends:
  assumes "trim s \<noteq> []"
  shows "\<not> is_space (hd (trim s))" "\<not> is_space (last (trim s))"
proof -
  let ?t = "dropWhile is_space s"
  have ne: "dropWhile is_space (rev ?t) \<noteq> []" using assms by (simp add: trim_def)
  have t: "?t \<noteq> []"
  proof
    assume "?t = []"
    then have "trim s = []" by (simp only: trim_def rev.simps dropWhile.simps)
    with assms show False ..
  qed
  have "hd (trim s) = last (dropWhile is_space (rev ?t))" using ne by (simp add: trim_def hd_rev)
  also have "\<dots> = hd ?t" using last_dropWhile_all [OF ne] t by (simp add: last_rev)
  finally show "\<not> is_space (hd (trim s))" using hd_dropWhile [OF t] by simp
  show "\<not> is_space (last (trim s))" using hd_dropWhile [OF ne] ne by (simp add: trim_def last_rev)
qed

lemma trim_fixed:
  assumes "s \<noteq> []" "\<not> is_space (hd s)" "\<not> is_space (last s)"
  shows "trim s = s"
proof -
  have front: "dropWhile is_space s = s" using assms(1,2) by (cases s) simp_all
  have "rev s \<noteq> []" "\<not> is_space (hd (rev s))" using assms(1,3) by (simp_all add: hd_rev)
  then have "dropWhile is_space (rev s) = rev s" by (cases "rev s") simp_all
  with front show ?thesis by (simp add: trim_def)
qed

lemma trim_Nil [simp]: "trim [] = []"
  by (simp add: trim_def)

lemma trim_idem [simp]: "trim (trim s) = trim s"
proof (cases "trim s = []")
  case True
  then show ?thesis unfolding True by simp
next
  case False
  then show ?thesis by (intro trim_fixed trim_ends)
qed

lemma length_trim: "length (trim s) \<le> length s"
  unfolding trim_def by (metis length_dropWhile_le length_rev le_trans)

lemma requiredString_Inr:
  "requiredString v f limit = Inr t \<longleftrightarrow> (\<exists>s. v = Str s \<and> t = trim s \<and> t \<noteq> [] \<and> length t \<le> limit)"
  by (cases v) (auto simp: requiredString_def)

lemma requiredString_again:
  "t \<noteq> [] \<Longrightarrow> length t \<le> limit \<Longrightarrow> trim t = t \<Longrightarrow> requiredString (Str t) f limit = Inr t"
  by (simp add: requiredString_def)

abbreviation code :: "char \<Rightarrow> nat" where
  "code c \<equiv> of_char c"

lemma code_lower: "code (lower c) = (if (65 \<le> code c \<and> code c \<le> 90) \<or> (192 \<le> code c \<and> code c \<le> 222 \<and> code c \<noteq> 215)
  then code c + 32 else code c)"
  by (simp add: lower_def Let_def)

lemma is_space_code: "is_space c \<longleftrightarrow> code c \<in> {32, 9, 10, 11, 12, 13, 160}"
proof -
  have eq: "c = d \<longleftrightarrow> code c = code d" for d by simp
  show ?thesis by (simp add: is_space_def eq [of "CHR '' ''"] eq [of "CHR 0x09"] eq [of "CHR 0x0A"] eq [of "CHR 0x0B"]
      eq [of "CHR 0x0C"] eq [of "CHR 0x0D"] eq [of "CHR 0xA0"] del: of_char_eq_iff)
qed

lemma lower_simps [simp]:
  "is_space (lower c) = is_space c" "lower (lower c) = lower c" "lower c = CHR ''@'' \<longleftrightarrow> c = CHR ''@''"
proof -
  show "is_space (lower c) = is_space c" unfolding is_space_code code_lower by auto
  have "code (lower (lower c)) = code (lower c)" unfolding code_lower by auto
  then show "lower (lower c) = lower c" by simp
  have "code (lower c) = 64 \<longleftrightarrow> code c = 64" unfolding code_lower by auto
  moreover have "d = CHR ''@'' \<longleftrightarrow> code d = 64" for d
    using of_char_eq_iff [of d "CHR ''@''", where 'a = nat] by (simp del: of_char_eq_iff)
  ultimately show "lower c = CHR ''@'' \<longleftrightarrow> c = CHR ''@''" by simp
qed

lemma toLowerCase_simps [simp]:
  "toLowerCase (toLowerCase s) = toLowerCase s" "length (toLowerCase s) = length s" "toLowerCase s = [] \<longleftrightarrow> s = []"
  by (simp_all add: toLowerCase_def)

lemma trim_toLowerCase: "trim s = s \<Longrightarrow> trim (toLowerCase s) = toLowerCase s"
proof (cases "s = []")
  case False
  assume t: "trim s = s"
  then have "\<not> is_space (hd s)" "\<not> is_space (last s)" using trim_ends [of s] False by auto
  then show ?thesis using False by (intro trim_fixed) (simp_all add: toLowerCase_def hd_map last_map)
qed (simp add: toLowerCase_def)

text \<open>The pattern, as the language it accepts.\<close>

lemma email_pattern_iff:
  "email_pattern s \<longleftrightarrow> (\<exists>a b c. s = a @ ''@'' @ b @ ''.'' @ c \<and> a \<noteq> [] \<and> b \<noteq> [] \<and> c \<noteq> []
     \<and> (\<forall>x \<in> set a \<union> set b \<union> set c. \<not> is_space x \<and> x \<noteq> CHR ''@''))"
proof
  define l where "l = takeWhile (\<lambda>c. c \<noteq> CHR ''@'') s"
  define r where "r = drop (length l) s"
  assume "email_pattern s"
  moreover have "email_pattern s \<longleftrightarrow> l \<noteq> [] \<and> r \<noteq> [] \<and> list_all (\<lambda>c. \<not> is_space c) l
      \<and> list_all (\<lambda>c. \<not> is_space c \<and> c \<noteq> CHR ''@'') (tl r) \<and> list_ex (\<lambda>i. tl r ! i = CHR ''.'') [1..<length (tl r) - 1]"
    unfolding email_pattern_def Let_def l_def r_def by (rule refl)
  ultimately have e: "l \<noteq> []" "r \<noteq> []" "\<forall>x \<in> set l. \<not> is_space x" "\<forall>x \<in> set (tl r). \<not> is_space x \<and> x \<noteq> CHR ''@''"
    "\<exists>i. 1 \<le> i \<and> i < length (tl r) - 1 \<and> tl r ! i = CHR ''.''"
    unfolding list_all_iff list_ex_iff by auto
  have r: "r = dropWhile (\<lambda>c. c \<noteq> CHR ''@'') s" unfolding r_def l_def by (rule dropWhile_eq_drop [symmetric])
  then have "hd r = CHR ''@''" using e(2) hd_dropWhile [of "\<lambda>c. c \<noteq> CHR ''@''" s] by simp
  then have at: "r = ''@'' @ tl r" using e(2) by (cases r) auto
  have split: "s = l @ r" unfolding r l_def by simp
  have l: "\<forall>x \<in> set l. x \<noteq> CHR ''@''" unfolding l_def by (auto dest: set_takeWhileD)
  obtain i where i: "1 \<le> i" "i < length (tl r) - 1" "tl r ! i = CHR ''.''" using e(5) by blast
  define b where "b = take i (tl r)"
  define c where "c = drop (Suc i) (tl r)"
  have t: "tl r = b @ ''.'' @ c" using i id_take_nth_drop [of i "tl r"] by (simp add: b_def c_def)
  have "tl r \<noteq> []" using i(2) by (cases "tl r") (simp_all del: length_tl)
  then have "b \<noteq> []" "c \<noteq> []" using i by (auto simp: b_def c_def)
  moreover have "s = l @ ''@'' @ b @ ''.'' @ c" using split at t by simp
  moreover have "\<forall>x \<in> set l \<union> set b \<union> set c. \<not> is_space x \<and> x \<noteq> CHR ''@''" using e(3,4) l unfolding t by auto
  ultimately show "\<exists>a b c. s = a @ ''@'' @ b @ ''.'' @ c \<and> a \<noteq> [] \<and> b \<noteq> [] \<and> c \<noteq> []
     \<and> (\<forall>x \<in> set a \<union> set b \<union> set c. \<not> is_space x \<and> x \<noteq> CHR ''@'')"
    using e(1) by (intro exI [of _ l] exI [of _ b] exI [of _ c] conjI)
next
  assume "\<exists>a b c. s = a @ ''@'' @ b @ ''.'' @ c \<and> a \<noteq> [] \<and> b \<noteq> [] \<and> c \<noteq> []
     \<and> (\<forall>x \<in> set a \<union> set b \<union> set c. \<not> is_space x \<and> x \<noteq> CHR ''@'')"
  then obtain a b c where s: "s = a @ ''@'' @ b @ ''.'' @ c" "a \<noteq> []" "b \<noteq> []" "c \<noteq> []"
    "\<forall>x \<in> set a \<union> set b \<union> set c. \<not> is_space x \<and> x \<noteq> CHR ''@''" by (elim exE conjE)
  have l: "takeWhile (\<lambda>c. c \<noteq> CHR ''@'') s = a" using s(5) by (simp add: s(1))
  have "list_ex (\<lambda>i. (b @ ''.'' @ c) ! i = CHR ''.'') [1..<length (b @ ''.'' @ c) - 1]"
    unfolding list_ex_iff using s(3,4) by (intro bexI [of _ "length b"]) (auto simp: Suc_le_eq)
  moreover have "\<not> is_space (CHR ''.'')" by (simp add: is_space_def)
  ultimately show "email_pattern s"
    unfolding email_pattern_def Let_def l using s(2,5) by (simp add: s(1) list_all_iff)
qed

lemma email_pattern_lower: "email_pattern (toLowerCase s) \<Longrightarrow> email_pattern (toLowerCase (toLowerCase s))"
  by simp

section \<open>Properties\<close>

definition refused :: "js_error \<Rightarrow> bool" where
  "refused e \<longleftrightarrow> exn_name e = ''TypeError'' \<and> error_field e ''code'' = Str ''VALIDATION_FAILED'' \<and> error_field e ''statusCode'' = Num 400
     \<and> (error_field e ''field'' = Null \<or> (\<exists>f. error_field e ''field'' = Str f))"

lemma failure_refused [simp]: "refused (failure m (Str f))" "refused (failure m Null)"
  by (simp_all add: refused_def failure_def)

lemma plain_error_not_refused [simp]: "\<not> refused null_read_error"
  by (simp add: refused_def null_read_error_def)

definition refuses :: "js_error + 'a \<Rightarrow> bool" where
  "refuses m \<longleftrightarrow> (\<forall>e. m = Inl e \<longrightarrow> refused e)"

lemma refuses_intros:
  "refuses (Inr a)" "refuses (Inl (failure msg (Str w)))" "refuses (Inl (failure msg Null))" "refuses (as_object v n)" "refuses (requiredString v f limit)" "refuses (optionalObject v f)"
  "(\<And>b. is_obj b \<Longrightarrow> refuses (body b)) \<Longrightarrow> refuses (andThen (as_object v n) body)" "is_obj v \<Longrightarrow> refuses (read_field v key)"
  "is_obj v \<Longrightarrow> refuses (requiredField v key f limit)"
  "refuses m \<Longrightarrow> (\<And>a. refuses (k a)) \<Longrightarrow> refuses (andThen m k)"
  "refuses m \<Longrightarrow> refuses m' \<Longrightarrow> refuses (if b then m else m')"
  "(\<And>xs. refuses (g xs)) \<Longrightarrow> refuses d \<Longrightarrow> refuses (case v of Arr xs \<Rightarrow> g xs | _ \<Rightarrow> d)"
  by (auto simp: refuses_def as_object_def requiredString_def optionalObject_def andThen_def split: if_splits jsval.splits sum.splits)

lemma steps_refuse: "refuses (validate_steps i vs)"
  by (induction i vs rule: validate_steps.induct) (auto simp: validate_step_def simp del: read_obj intro!: refuses_intros)

lemma workflow_refuses: "refuses (validate_workflow p)"
  unfolding validate_workflow_def by (intro refuses_intros steps_refuse)

text \<open>C37: Error. Whatever value is validated, null, undefined or of any other shape, by any of the seven validators:
  a rejection is a type error with code \<^verbatim>\<open>VALIDATION_FAILED\<close>, status 400 and the name of the offending field
  (or null), never the plain type error without a code that JavaScript throws where a property of null
  or undefined is read.\<close>

theorem rejections_are_validation_errors:
  assumes "validate \<in> {validate_register, validate_login, validate_onboarding, validate_workflow, validate_automationRun,
      validate_whatsappConnect, validate_webhook}" "validate p = Inl e"
  shows "exn_name e = ''TypeError'' \<and> error_field e ''code'' = Str ''VALIDATION_FAILED'' \<and> error_field e ''statusCode'' = Num 400
    \<and> (error_field e ''field'' = Null \<or> (\<exists>f. error_field e ''field'' = Str f)) \<and> e \<noteq> null_read_error"
proof -
  have "refuses (validate_register p) \<and> refuses (validate_login p) \<and> refuses (validate_onboarding p) \<and> refuses (validate_workflow p)
   \<and> refuses (validate_automationRun p) \<and> refuses (validate_whatsappConnect p) \<and> refuses (validate_webhook p)"
    unfolding validate_register_def validate_login_def validate_onboarding_def validate_automationRun_eq
      validate_whatsappConnect_def validate_webhook_def Let_def
    by (intro conjI refuses_intros steps_refuse workflow_refuses)
  then have "refused e" using assms by (auto simp: refuses_def)
  then show ?thesis using plain_error_not_refused unfolding refused_def by metis
qed

theorem rejections_are_validation_errors_witness:
  "\<exists>e. validate_workflow (Obj [(''name'', Str ''n''), (''trigger'', Null)]) = Inl e \<and> error_field e ''code'' = Str ''VALIDATION_FAILED''"
proof -
  have "validate_workflow (Obj [(''name'', Str ''n''), (''trigger'', Null)]) = Inl (failure ''trigger must be an object'' (Str ''trigger''))"
    by code_simp
  with rejections_are_validation_errors [where validate = validate_workflow, OF _ this] show ?thesis by simp
qed

lemma step_again: "validate_step i v = Inr w \<Longrightarrow> validate_step j w = Inr w \<and> is_obj w
    \<and> (\<exists>a. field w ''action'' = Str a \<and> a \<noteq> [] \<and> length a \<le> 120) \<and> is_obj (field w ''input'')"
  by (auto simp: validate_step_eq andThen_Inr requiredString_Inr requiredString_again optionalObject_def js_or_def split: if_splits)

lemma steps_again: "validate_steps i vs = Inr ws \<Longrightarrow> validate_steps j ws = Inr ws \<and> length ws = length vs
    \<and> (\<forall>w \<in> set ws. is_obj w \<and> (\<exists>a. field w ''action'' = Str a \<and> a \<noteq> [] \<and> length a \<le> 120) \<and> is_obj (field w ''input''))"
proof (induction i vs arbitrary: ws j rule: validate_steps.induct)
  case (2 i v vs)
  then obtain x xs where "validate_step i v = Inr x" "validate_steps (Suc i) vs = Inr xs" "ws = x # xs"
    by (auto simp: andThen_Inr)
  with "2.IH" step_again show ?case by auto
qed simp

lemma trimmed:
  "requiredString v f limit = Inr t \<Longrightarrow> trim t = t \<and> t \<noteq> [] \<and> length t \<le> limit"
  by (auto simp: requiredString_Inr)

lemma register_Inr:
  assumes "validate_register p = Inr v"
  obtains e pw n where "v = Obj [(''email'', Str e), (''password'', Str pw), (''name'', Str n)]"
    "email_pattern e" "toLowerCase e = e" "trim e = e" "e \<noteq> []" "length e \<le> 320"
    "trim pw = pw" "pw \<noteq> []" "8 \<le> length pw" "length pw \<le> 200" "trim n = n" "n \<noteq> []" "length n \<le> 120"
proof -
  obtain e0 pw n where f: "requiredString (field p ''email'') ''email'' 320 = Inr e0" "requiredString (field p ''password'') ''password'' 200 = Inr pw"
    "requiredString (field p ''name'') ''name'' 120 = Inr n" "email_pattern (toLowerCase e0)" "\<not> length pw < 8"
    "v = Obj [(''email'', Str (toLowerCase e0)), (''password'', Str pw), (''name'', Str n)]"
    using assms by (auto simp: validate_register_def andThen_Inr Let_def split: if_splits)
  note t = f(1-3) [THEN trimmed]
  show thesis
    by (rule that [of "toLowerCase e0" pw n]) (use f(4-6) t trim_toLowerCase in simp_all)
qed

lemma workflow_Inr:
  assumes "validate_workflow p = Inr v"
  obtains n t ws b where "v = Obj [(''name'', Str n), (''trigger'', Obj [(''type'', Str t)]), (''steps'', Arr ws), (''enabled'', Boolean b)]"
    "trim n = n" "n \<noteq> []" "length n \<le> 120" "trim t = t" "t \<noteq> []" "length t \<le> 80" "1 \<le> length ws" "length ws \<le> 20"
    "validate_steps 0 ws = Inr ws"
    "\<forall>w \<in> set ws. is_obj w \<and> (\<exists>a. field w ''action'' = Str a \<and> a \<noteq> [] \<and> length a \<le> 120) \<and> is_obj (field w ''input'')"
proof -
  obtain items where items: "field p ''steps'' = Arr items"
    using assms by (cases "field p ''steps''") (auto simp: validate_workflow_eq andThen_Inr)
  then obtain n t where f: "requiredString (field p ''name'') ''name'' 120 = Inr n"
    "requiredString (field (field p ''trigger'') ''type'') ''trigger.type'' 80 = Inr t"
    using assms by (auto simp: validate_workflow_eq andThen_Inr)
  then obtain ws where ws: "\<not> length items < 1" "\<not> length items > 20" "validate_steps 0 items = Inr ws"
    "v = Obj [(''name'', Str n), (''trigger'', Obj [(''type'', Str t)]), (''steps'', Arr ws), (''enabled'', Boolean (field p ''enabled'' \<noteq> Boolean False))]"
    using assms items by (auto simp: validate_workflow_eq andThen_Inr split: if_splits)
  note again = steps_again [OF ws(3), of 0]
  show thesis
    by (rule that [of n t ws "field p ''enabled'' \<noteq> Boolean False"]) (use f(1,2) [THEN trimmed] ws again in \<open>auto simp: Suc_le_eq\<close>)
qed

text \<open>Bounds. What a validator lets through is within its bounds: a registration has a lower-case address
  of the form a@b.c without blanks of at most 320 characters (lower-casing keeps the length on the characters of the model), a password of 8 to 200 and a name of 1
  to 120 characters; a workflow has a name and a trigger type within bounds and 1 to 20 steps, each an object with an
  action of 1 to 120 characters and an input object.\<close>

theorem accepted_payloads_are_bounded:
  "(validate_register p = Inr v \<longrightarrow> (\<exists>a b c pw n. v = Obj [(''email'', Str (a @ ''@'' @ b @ ''.'' @ c)), (''password'', Str pw), (''name'', Str n)]
       \<and> a \<noteq> [] \<and> b \<noteq> [] \<and> c \<noteq> [] \<and> (\<forall>x \<in> set a \<union> set b \<union> set c. \<not> is_space x \<and> x \<noteq> CHR ''@'')
       \<and> toLowerCase (a @ ''@'' @ b @ ''.'' @ c) = a @ ''@'' @ b @ ''.'' @ c \<and> length (a @ ''@'' @ b @ ''.'' @ c) \<le> 320
       \<and> 8 \<le> length pw \<and> length pw \<le> 200 \<and> n \<noteq> [] \<and> length n \<le> 120))
   \<and> (validate_workflow p = Inr v \<longrightarrow> (\<exists>n t ws b. v = Obj [(''name'', Str n), (''trigger'', Obj [(''type'', Str t)]), (''steps'', Arr ws), (''enabled'', Boolean b)]
       \<and> n \<noteq> [] \<and> length n \<le> 120 \<and> t \<noteq> [] \<and> length t \<le> 80 \<and> 1 \<le> length ws \<and> length ws \<le> 20
       \<and> (\<forall>w \<in> set ws. is_obj w \<and> (\<exists>a. field w ''action'' = Str a \<and> a \<noteq> [] \<and> length a \<le> 120) \<and> is_obj (field w ''input''))))"
proof (intro conjI impI)
  assume "validate_register p = Inr v"
  then show "\<exists>a b c pw n. v = Obj [(''email'', Str (a @ ''@'' @ b @ ''.'' @ c)), (''password'', Str pw), (''name'', Str n)]
       \<and> a \<noteq> [] \<and> b \<noteq> [] \<and> c \<noteq> [] \<and> (\<forall>x \<in> set a \<union> set b \<union> set c. \<not> is_space x \<and> x \<noteq> CHR ''@'')
       \<and> toLowerCase (a @ ''@'' @ b @ ''.'' @ c) = a @ ''@'' @ b @ ''.'' @ c \<and> length (a @ ''@'' @ b @ ''.'' @ c) \<le> 320
       \<and> 8 \<le> length pw \<and> length pw \<le> 200 \<and> n \<noteq> [] \<and> length n \<le> 120"
  proof (rule register_Inr)
    fix e pw n
    assume f: "v = Obj [(''email'', Str e), (''password'', Str pw), (''name'', Str n)]" "email_pattern e" "toLowerCase e = e" "length e \<le> 320"
      "8 \<le> length pw" "length pw \<le> 200" "n \<noteq> []" "length n \<le> 120"
    from f(2) obtain a b c where "e = a @ ''@'' @ b @ ''.'' @ c" "a \<noteq> []" "b \<noteq> []" "c \<noteq> []"
      "\<forall>x \<in> set a \<union> set b \<union> set c. \<not> is_space x \<and> x \<noteq> CHR ''@''" unfolding email_pattern_iff by (elim exE conjE)
    with f show ?thesis by (intro exI [of _ a] exI [of _ b] exI [of _ c] exI [of _ pw] exI [of _ n]) simp
  qed
next
  assume "validate_workflow p = Inr v"
  then show "\<exists>n t ws b. v = Obj [(''name'', Str n), (''trigger'', Obj [(''type'', Str t)]), (''steps'', Arr ws), (''enabled'', Boolean b)]
       \<and> n \<noteq> [] \<and> length n \<le> 120 \<and> t \<noteq> [] \<and> length t \<le> 80 \<and> 1 \<le> length ws \<and> length ws \<le> 20
       \<and> (\<forall>w \<in> set ws. is_obj w \<and> (\<exists>a. field w ''action'' = Str a \<and> a \<noteq> [] \<and> length a \<le> 120) \<and> is_obj (field w ''input''))"
  proof (rule workflow_Inr)
    fix n t ws b
    assume "v = Obj [(''name'', Str n), (''trigger'', Obj [(''type'', Str t)]), (''steps'', Arr ws), (''enabled'', Boolean b)]"
      "n \<noteq> []" "length n \<le> 120" "t \<noteq> []" "length t \<le> 80" "1 \<le> length ws" "length ws \<le> 20"
      "\<forall>w \<in> set ws. is_obj w \<and> (\<exists>a. field w ''action'' = Str a \<and> a \<noteq> [] \<and> length a \<le> 120) \<and> is_obj (field w ''input'')"
    then show ?thesis by (intro exI [of _ n] exI [of _ t] exI [of _ ws] exI [of _ b]) simp
  qed
qed

definition demo_registration :: jsval where
  "demo_registration = Obj [(''email'', Str '' Ann@Example.com ''), (''password'', Str ''longenough''), (''name'', Str ''Ann'')]"

definition demo_registered :: jsval where
  "demo_registered = Obj [(''email'', Str ''ann@example.com''), (''password'', Str ''longenough''), (''name'', Str ''Ann'')]"

lemma demo_registration: "validate_register demo_registration = Inr demo_registered"
  by code_simp

theorem accepted_payloads_are_bounded_witness:
  "\<exists>a b c pw n. demo_registered = Obj [(''email'', Str (a @ ''@'' @ b @ ''.'' @ c)), (''password'', Str pw), (''name'', Str n)] \<and> 8 \<le> length pw"
  using accepted_payloads_are_bounded [of demo_registration demo_registered, THEN conjunct1, THEN mp, OF demo_registration]
  by (elim exE conjE) (intro exI conjI)

lemma automationRun_Inr:
  assumes "validate_automationRun p = Inr v"
  shows "validate_automationRun v = Inr v"
proof -
  let ?w = "\<lambda>x. validate_workflow (Obj [(''name'', Str ''runtime''), (''trigger'', Obj [(''type'', Str ''manual'')]), (''steps'', x)])"
  obtain i where i: "(if field p ''workflowId'' = Undefined then Inr Undefined
      else andThen (requiredString (field p ''workflowId'') ''workflowId'' 160) (\<lambda>s. Inr (Str s))) = Inr i"
    using assms by (auto simp: validate_automationRun_eq andThen_Inr simp del: if_image_distrib split: if_splits)
  obtain c where c: "(if field p ''context'' = Undefined then Inr (Obj []) else optionalObject (field p ''context'') ''context'') = Inr c"
    using assms i by (auto simp: validate_automationRun_eq andThen_Inr split: if_splits)
  obtain st where st: "(if field p ''steps'' = Undefined then Inr Undefined else andThen (?w (field p ''steps'')) (\<lambda>w. Inr (field w ''steps''))) = Inr st"
    using assms i c by (auto simp: validate_automationRun_eq andThen_Inr split: if_splits)
  have v: "truthy i \<or> truthy st" "v = Obj [(''workflowId'', i), (''steps'', st), (''context'', js_or c (Obj []))]"
    using assms i c st by (auto simp: validate_automationRun_eq andThen_Inr split: if_splits)
  have i': "i = Undefined \<or> (\<exists>t. i = Str t \<and> trim t = t \<and> t \<noteq> [] \<and> length t \<le> 160)"
    using i by (auto simp: andThen_Inr requiredString_Inr split: if_splits)
  have c': "is_obj c" using c by (auto simp: optionalObject_def split: if_splits)
  have st': "st = Undefined \<or> (\<exists>x w. ?w x = Inr w \<and> st = field w ''steps'')" using st by (auto simp: andThen_Inr split: if_splits)
  have "andThen (?w st) (\<lambda>w. Inr (field w ''steps'')) = Inr st \<and> st \<noteq> Undefined" if "st \<noteq> Undefined"
  proof -
    obtain x w where w: "?w x = Inr w" "st = field w ''steps''" using st' \<open>st \<noteq> Undefined\<close> by blast
    show ?thesis
      by (rule workflow_Inr [OF w(1)]) (simp add: w(2) validate_workflow_eq requiredString_def trim_def is_space_def Suc_le_eq)
  qed
  then show ?thesis
    using v i' c' by (auto simp: validate_automationRun_eq requiredString_again js_or_def optionalObject_def)
qed

text \<open>Round trip. The five validators that only trim (onboarding, workflow, automation run, WhatsApp
  connection, webhook) compute normal forms: what one returns it accepts again and returns
  unchanged; a webhook's body is returned as it is. (Registration and login are not among them: they bound the length of the address
  before lower-casing it, which can lengthen it.)\<close>

theorem validators_are_idempotent:
  "(validate_onboarding p = Inr v \<longrightarrow> validate_onboarding v = Inr v)
   \<and> (validate_workflow p = Inr v \<longrightarrow> validate_workflow v = Inr v)
   \<and> (validate_automationRun p = Inr v \<longrightarrow> validate_automationRun v = Inr v)
   \<and> (validate_whatsappConnect p = Inr v \<longrightarrow> validate_whatsappConnect v = Inr v)
   \<and> (validate_webhook p = Inr v \<longrightarrow> v = p)"
proof (intro conjI impI)
  note again = requiredString_again andThen_Inr requiredString_Inr
  show "validate_onboarding v = Inr v" if "validate_onboarding p = Inr v"
    using that by (auto simp: validate_onboarding_def again js_or_def split: if_splits)
  show "validate_whatsappConnect v = Inr v" if "validate_whatsappConnect p = Inr v"
    using that by (auto simp: validate_whatsappConnect_def again)
  show "v = p" if "validate_webhook p = Inr v"
    using that by (auto simp: validate_webhook_def andThen_Inr split: if_splits jsval.splits)
  show "validate_workflow v = Inr v" if "validate_workflow p = Inr v"
    by (rule workflow_Inr [OF that]) (auto simp: validate_workflow_eq requiredString_again)
  show "validate_automationRun v = Inr v" if "validate_automationRun p = Inr v"
    by (rule automationRun_Inr [OF that])
qed

definition demo_steps :: jsval where
  "demo_steps = Obj [(''name'', Str '' greet ''), (''trigger'', Obj [(''type'', Str ''manual'')]), (''steps'', Arr [Obj [(''action'', Str ''send'')]])]"

definition demo_stepped :: jsval where
  "demo_stepped = Obj [(''name'', Str ''greet''), (''trigger'', Obj [(''type'', Str ''manual'')]),
     (''steps'', Arr [Obj [(''action'', Str ''send''), (''input'', Obj [])]]), (''enabled'', Boolean True)]"

theorem validators_are_idempotent_witness: "validate_workflow demo_stepped = Inr demo_stepped"
proof -
  have "validate_workflow demo_steps = Inr demo_stepped" by code_simp
  with validators_are_idempotent [of demo_steps demo_stepped, THEN conjunct2, THEN conjunct1] show ?thesis by (rule mp)
qed

end
