(* ===== verification/Billing.thy ===== *)
theory Billing
  imports JsObject Action
begin

text \<open>
  Billing: subscriptions (\<^verbatim>\<open>modules/billing/subscription.js\<close>), usage counters
  (\<^verbatim>\<open>modules/billing/usage_meter.js\<close>), entitlements (\<^verbatim>\<open>modules/billing/entitlements.js\<close>) and the plan table
  (\<^verbatim>\<open>modules/billing/plans.js\<close>). The current time, as \<^verbatim>\<open>toISOString\<close> gives it, is an argument.
\<close>

section \<open>SubscriptionManager\<close>

record subscription_manager =
  sm_subscriptions :: "jsval js_map"

definition new_SubscriptionManager :: subscription_manager where
  "new_SubscriptionManager = \<lparr>sm_subscriptions = []\<rparr>"

definition ACTIVE_STATUSES :: "jsval list" where
  "ACTIVE_STATUSES = [Str ''trialing'', Str ''active'', Str ''past_due'']"

definition subscription_key :: "jsval \<Rightarrow> jsval \<Rightarrow> string" where
  "subscription_key tenantId idempotencyKey =
     (if truthy idempotencyKey then pair_key tenantId idempotencyKey else pair_key tenantId (Str ''subscription''))"

definition start_subscription :: "string \<Rightarrow> jsval \<Rightarrow> jsval \<Rightarrow> jsval \<Rightarrow> jsval \<Rightarrow> (subscription_manager, jsval) act" where
  "start_subscription now tenantId planId status idempotencyKey = (\<lambda>s.
     if \<not> truthy tenantId \<or> \<not> truthy planId then (Inl (Error ''tenantId and planId are required''), s)
     else if \<not> has ACTIVE_STATUSES (default_to status (Str ''trialing'')) then (Inl (Error ''invalid subscription status''), s)
     else let key = subscription_key tenantId idempotencyKey in
       case map_of (sm_subscriptions s) key of
         Some subscription \<Rightarrow> (Inr subscription, s)
       | None \<Rightarrow>
           (let subscription = Obj [(''tenantId'', tenantId), (''planId'', planId),
                 (''status'', default_to status (Str ''trialing'')), (''createdAt'', Str now)]
            in (Inr subscription, s\<lparr>sm_subscriptions := AList.update key subscription (sm_subscriptions s)\<rparr>)))"

definition changePlan :: "string \<Rightarrow> jsval \<Rightarrow> jsval \<Rightarrow> js_error + jsval" where
  "changePlan now subscription planId =
     (if \<not> truthy subscription \<or> \<not> truthy (field subscription ''tenantId'') then Inl (Error ''subscription is required'')
      else if \<not> truthy planId then Inl (Error ''planId is required'')
      else Inr (spread subscription [(''planId'', planId), (''changedAt'', Str now)]))"

definition cancel_subscription :: "string \<Rightarrow> jsval \<Rightarrow> js_error + jsval" where
  "cancel_subscription now subscription =
     (if \<not> truthy subscription \<or> \<not> truthy (field subscription ''tenantId'') then Inl (Error ''subscription is required'')
      else if field subscription ''status'' = Str ''canceled'' then Inr subscription
      else Inr (spread subscription [(''status'', Str ''canceled''), (''canceledAt'', Str now)]))"

subsection \<open>Starting is idempotent per key\<close>

text \<open>Histories of start requests: the time, tenant, plan, status and idempotency key of each.\<close>

fun start_all :: "(string \<times> jsval \<times> jsval \<times> jsval \<times> jsval) list \<Rightarrow> subscription_manager \<Rightarrow> subscription_manager" where
  "start_all [] s = s"
| "start_all ((now, t, p, st, k) # h) s = start_all h (snd (start_subscription now t p st k s))"

lemma start_keeps: "map_of (sm_subscriptions s) key = Some v \<Longrightarrow> map_of (sm_subscriptions (snd (start_subscription now t p st k s))) key = Some v"
  by (auto simp: start_subscription_def Let_def split: option.split)

lemma start_all_keeps: "map_of (sm_subscriptions s) key = Some v \<Longrightarrow> map_of (sm_subscriptions (start_all h s)) key = Some v"
  by (induction h s rule: start_all.induct) (simp_all add: start_keeps)

lemma start_stores:
  "start_subscription now t p st k s = (Inr v, s') \<Longrightarrow> map_of (sm_subscriptions s') (subscription_key t k) = Some v"
  by (auto simp: start_subscription_def Let_def split: if_splits option.splits)

text \<open>Invariant. Starting a subscription is idempotent: once a tenant's start under an idempotency key
  has returned a subscription, every later start of that tenant under that key that is valid returns
  this same subscription, whatever plan, status or time it asks with and whatever else was started
  meanwhile, and changes nothing.\<close>

theorem start_is_idempotent:
  assumes "start_subscription now t p st k s = (Inr v, s1)"
    and "truthy t" "truthy p'" "has ACTIVE_STATUSES (default_to st' (Str ''trialing''))"
  shows "start_subscription now' t p' st' k (start_all h s1) = (Inr v, start_all h s1)"
proof -
  have "map_of (sm_subscriptions (start_all h s1)) (subscription_key t k) = Some v"
    by (rule start_all_keeps [OF start_stores [OF assms(1)]])
  with assms(2-4) show ?thesis by (simp add: start_subscription_def Let_def)
qed

theorem start_is_idempotent_witness:
  "\<exists>v s1. start_subscription ''now'' (Str ''t1'') (Str ''starter'') Undefined Null new_SubscriptionManager = (Inr v, s1)
     \<and> start_subscription ''later'' (Str ''t1'') (Str ''growth'') (Str ''active'') Null (start_all [] s1) = (Inr v, s1)"
proof -
  obtain v s1 where s1: "start_subscription ''now'' (Str ''t1'') (Str ''starter'') Undefined Null new_SubscriptionManager = (Inr v, s1)"
    by (simp add: start_subscription_def Let_def new_SubscriptionManager_def has_def ACTIVE_STATUSES_def default_to_def)
  have "start_subscription ''later'' (Str ''t1'') (Str ''growth'') (Str ''active'') Null (start_all [] s1) = (Inr v, start_all [] s1)"
    by (rule start_is_idempotent [OF s1]) (simp_all add: has_def ACTIVE_STATUSES_def default_to_def)
  with s1 show ?thesis by auto
qed

text \<open>
  Cancellation and plan changes return a new record and are not written back: a start under the
  same key still answers with the subscription as it was started.
\<close>

theorem cancellation_is_not_stored:
  assumes "start_subscription now t p st k s = (Inr v, s1)" "cancel_subscription later v = Inr v'" "truthy t" "truthy p"
    and "has ACTIVE_STATUSES (default_to st (Str ''trialing''))"
  shows "start_subscription now' t p st k s1 = (Inr v, s1) \<and> field v' ''status'' = Str ''canceled''"
  using start_stores [OF assms(1)] assms(2-5)
  by (cases v) (auto simp: start_subscription_def cancel_subscription_def Let_def js_simps split: if_splits)

section \<open>UsageMeter\<close>

record usage_meter =
  um_usage :: "int js_map"

definition new_UsageMeter :: usage_meter where
  "new_UsageMeter = \<lparr>um_usage = []\<rparr>"

definition get_usage :: "usage_meter \<Rightarrow> jsval \<Rightarrow> jsval \<Rightarrow> int" where
  "get_usage s tenantId metric = (case map_of (um_usage s) (pair_key tenantId metric) of Some n \<Rightarrow> n | None \<Rightarrow> 0)"

definition record_usage :: "jsval \<Rightarrow> jsval \<Rightarrow> jsval \<Rightarrow> (usage_meter, jsval) act" where
  "record_usage tenantId metric quantity = (\<lambda>s.
     if \<not> truthy tenantId \<or> \<not> truthy metric then (Inl (Error ''tenantId and metric are required''), s)
     else case default_to quantity (Num 1) of
       Num q \<Rightarrow>
         if q < 0 then (Inl (Error ''quantity must be a non-negative number''), s)
         else let total = get_usage s tenantId metric + q in
           (Inr (Obj [(''tenantId'', tenantId), (''metric'', metric), (''quantity'', Num total)]),
            s\<lparr>um_usage := AList.update (pair_key tenantId metric) total (um_usage s)\<rparr>)
     | _ \<Rightarrow> (Inl (Error ''quantity must be a non-negative number''), s))"

text \<open>
  The loop of \<^verbatim>\<open>snapshot\<close>: assigning a number to the property \<^verbatim>\<open>__proto__\<close> of an object has no effect.
\<close>

fun snapshot_entries :: "string \<Rightarrow> int js_map \<Rightarrow> jsval js_map \<Rightarrow> jsval js_map" where
  "snapshot_entries pre [] result = result"
| "snapshot_entries pre ((key, n) # rest) result =
     snapshot_entries pre rest
       (if prefix pre key \<and> drop (length pre) key \<noteq> ''__proto__''
        then AList.update (drop (length pre) key) (Num n) result else result)"

definition usage_snapshot :: "usage_meter \<Rightarrow> jsval \<Rightarrow> jsval" where
  "usage_snapshot s tenantId = Obj (snapshot_entries (to_str tenantId @ [colon]) (um_usage s) [])"

subsection \<open>Totals\<close>

text \<open>The quantity a request adds, or nothing when it is refused.\<close>

definition accepted_quantity :: "string \<Rightarrow> string \<Rightarrow> jsval \<Rightarrow> int option" where
  "accepted_quantity t m q =
     (case default_to q (Num 1) of Num n \<Rightarrow> if t = [] \<or> m = [] \<or> n < 0 then None else Some n | _ \<Rightarrow> None)"

fun record_all :: "(string \<times> string \<times> jsval) list \<Rightarrow> usage_meter \<Rightarrow> usage_meter" where
  "record_all [] s = s"
| "record_all ((t, m, q) # h) s = record_all h (snd (record_usage (Str t) (Str m) q s))"

text \<open>The reference: what the accepted requests for one counter add up to.\<close>

fun total_of :: "string \<Rightarrow> string \<Rightarrow> (string \<times> string \<times> jsval) list \<Rightarrow> int" where
  "total_of t m [] = 0"
| "total_of t m ((t', m', q) # h) =
     (case accepted_quantity t' m' q of Some n \<Rightarrow> if t' = t \<and> m' = m then n else 0 | None \<Rightarrow> 0) + total_of t m h"

lemma record_usage_run:
  "snd (record_usage (Str t) (Str m) q s) =
     (case accepted_quantity t m q of None \<Rightarrow> s
      | Some n \<Rightarrow> s\<lparr>um_usage := AList.update (pair_key (Str t) (Str m)) (get_usage s (Str t) (Str m) + n) (um_usage s)\<rparr>)"
  by (simp add: record_usage_def accepted_quantity_def Let_def split: jsval.split)

lemma get_usage_record:
  assumes "segment t" "segment t'"
  shows "get_usage (snd (record_usage (Str t') (Str m') q s)) (Str t) (Str m)
    = get_usage s (Str t) (Str m) + (case accepted_quantity t' m' q of Some n \<Rightarrow> if t' = t \<and> m' = m then n else 0 | None \<Rightarrow> 0)"
  using pair_key_inject [OF assms(1,2), of "Str m" "Str m'"]
  by (auto simp: record_usage_run get_usage_def split: option.split)

lemma get_usage_record_all:
  "segment t \<Longrightarrow> \<forall>(t', _) \<in> set h. segment t' \<Longrightarrow>
     get_usage (record_all h s) (Str t) (Str m) = get_usage s (Str t) (Str m) + total_of t m h"
  by (induction h s rule: record_all.induct) (auto simp: get_usage_record)

lemma distinct_record_all:
  "distinct (map fst (um_usage s)) \<Longrightarrow> distinct (map fst (um_usage (record_all h s)))"
  by (induction h s rule: record_all.induct) (simp_all add: record_usage_run distinct_alist_update split: option.split)

lemma map_of_snapshot_entries:
  assumes "distinct (map fst m)" "k \<noteq> ''__proto__''"
  shows "map_of (snapshot_entries pre m result) k
    = (case map_of m (pre @ k) of Some n \<Rightarrow> Some (Num n) | None \<Rightarrow> map_of result k)"
  using assms(1)
proof (induction pre m result rule: snapshot_entries.induct)
  case (2 pre key n rest result)
  have "map_of rest key = None" using "2.prems" by (simp add: map_of_eq_None_iff)
  moreover have "prefix pre key \<and> drop (length pre) key = k \<longleftrightarrow> key = pre @ k" by (auto simp: prefix_def)
  ultimately show ?case using 2 assms(2) by (auto split: option.split)
qed simp

lemma recorded_iff:
  assumes "segment t"
  shows "\<forall>(t', _) \<in> set h. segment t' \<Longrightarrow>
    map_of (um_usage (record_all h s)) (pair_key (Str t) (Str m)) \<noteq> None \<longleftrightarrow>
      map_of (um_usage s) (pair_key (Str t) (Str m)) \<noteq> None \<or> (\<exists>q. (t, m, q) \<in> set h \<and> accepted_quantity t m q \<noteq> None)"
proof (induction h s rule: record_all.induct)
  case (2 t' m' q h s)
  have "segment t'" using "2.prems" by simp
  then have "pair_key (Str t) (Str m) = pair_key (Str t') (Str m') \<longleftrightarrow> t = t' \<and> m = m'"
    using pair_key_inject [OF assms] by simp
  with 2 show ?case by (auto simp: record_usage_run split: option.split_asm)
qed simp

text \<open>Functional. For tenants whose ids contain no colon, a counter always shows the sum of the
  quantities of the requests accepted for that tenant and metric since the start, a missing quantity
  counting one and refused requests nothing; the tenant's snapshot lists exactly the metrics recorded
  for it, each with that sum.\<close>

theorem usage_is_the_sum_of_records:
  assumes "segment t" "\<forall>(t', _) \<in> set h. segment t'" "m \<noteq> ''__proto__''"
  shows "get_usage (record_all h new_UsageMeter) (Str t) (Str m) = total_of t m h
    \<and> field (usage_snapshot (record_all h new_UsageMeter) (Str t)) m =
        (if \<exists>q. (t, m, q) \<in> set h \<and> accepted_quantity t m q \<noteq> None then Num (total_of t m h) else Undefined)"
proof -
  let ?s = "record_all h new_UsageMeter"
  have get: "get_usage ?s (Str t) (Str m) = total_of t m h"
    using get_usage_record_all [OF assms(1,2)] by (simp add: get_usage_def new_UsageMeter_def)
  have "distinct (map fst (um_usage ?s))" by (rule distinct_record_all) (simp add: new_UsageMeter_def)
  note entries = map_of_snapshot_entries [OF this assms(3), of "t @ [colon]" "[]"]
  have "map_of (um_usage ?s) (pair_key (Str t) (Str m)) \<noteq> None \<longleftrightarrow> (\<exists>q. (t, m, q) \<in> set h \<and> accepted_quantity t m q \<noteq> None)"
    using recorded_iff [OF assms(1,2)] by (simp add: new_UsageMeter_def)
  then show ?thesis
    using entries get by (cases "map_of (um_usage ?s) (pair_key (Str t) (Str m))") (auto simp: usage_snapshot_def get_usage_def pair_key_def)
qed

theorem usage_is_the_sum_of_records_witness:
  "get_usage (record_all [(''t1'', ''runs'', Num 3), (''t2'', ''runs'', Num 5), (''t1'', ''runs'', Num (-1)), (''t1'', ''runs'', Undefined)] new_UsageMeter)
     (Str ''t1'') (Str ''runs'') = 4"
  using usage_is_the_sum_of_records [of "''t1''" "[(''t1'', ''runs'', Num 3), (''t2'', ''runs'', Num 5), (''t1'', ''runs'', Num (-1)), (''t1'', ''runs'', Undefined)]" "''runs''"]
  by (simp add: segment_def colon_def accepted_quantity_def default_to_def)

section \<open>EntitlementService\<close>

text \<open>
  \<open>plans\<close> is the plan table the service was constructed with, an object of plan objects; \<open>usage\<close> is a
  number. A name every object inherits denotes a function: it has no limits and no capabilities, and
  no number is less than it.
\<close>

definition allows :: "jsval \<Rightarrow> jsval \<Rightarrow> jsval \<Rightarrow> jsval \<Rightarrow> js_error + bool" where
  "allows plans planId capability usage =
     (case index plans planId of
        Builtin \<Rightarrow> Inr False
      | Value plan \<Rightarrow>
          if \<not> truthy plan then Inl (Error ''unknown plan'')
          else (case if field plan ''limits'' = Undefined \<or> field plan ''limits'' = Null then Value Undefined
                      else index (field plan ''limits'') capability of
            Builtin \<Rightarrow> Inr False
          | Value limit \<Rightarrow>
              if limit = Undefined
              then (case field plan ''capabilities'' of
                      Undefined \<Rightarrow> Inr False | Null \<Rightarrow> Inr False
                    | Arr capabilities \<Rightarrow> Inr (has capabilities capability)
                    | Str s \<Rightarrow> Inr (sublist (to_str capability) s)
                    | _ \<Rightarrow> Inl (TypeError ''plan.capabilities?.includes is not a function''))
              else Inr (js_gt limit (default_to usage (Num 0)))))"

definition assertAllowed :: "jsval \<Rightarrow> jsval \<Rightarrow> jsval \<Rightarrow> jsval \<Rightarrow> js_error + bool" where
  "assertAllowed plans planId capability usage =
     (case allows plans planId capability usage of
        Inl e \<Rightarrow> Inl e
      | Inr ok \<Rightarrow> if \<not> ok then Inl (Error (''capability '' @ to_str capability @ '' is not available'')) else Inr True)"

text \<open>A use of a capability that asks the service with the meter's own count and records one use if allowed.\<close>

definition gated_use :: "jsval \<Rightarrow> (string \<Rightarrow> string) \<Rightarrow> string \<Rightarrow> string \<Rightarrow> usage_meter \<Rightarrow> usage_meter" where
  "gated_use plans plan_of t c s =
     (case assertAllowed plans (Str (plan_of t)) (Str c) (Num (get_usage s (Str t) (Str c))) of
        Inl _ \<Rightarrow> s
      | Inr _ \<Rightarrow> snd (record_usage (Str t) (Str c) Undefined s))"

fun gated_uses :: "jsval \<Rightarrow> (string \<Rightarrow> string) \<Rightarrow> (string \<times> string) list \<Rightarrow> usage_meter \<Rightarrow> usage_meter" where
  "gated_uses plans plan_of [] s = s"
| "gated_uses plans plan_of ((t, c) # h) s = gated_uses plans plan_of h (gated_use plans plan_of t c s)"

text \<open>Plan \<open>p\<close> limits \<open>c\<close> to \<open>n\<close> uses.\<close>

definition limited :: "jsval \<Rightarrow> string \<Rightarrow> string \<Rightarrow> int \<Rightarrow> bool" where
  "limited plans p c n \<longleftrightarrow> (\<exists>plan. index plans (Str p) = Value plan \<and> is_obj plan \<and> is_obj (field plan ''limits'')
     \<and> index (field plan ''limits'') (Str c) = Value (Num n))"

lemma limited_allows: "limited plans p c n \<Longrightarrow> allows plans (Str p) (Str c) (Num u) = Inr (u < n)"
  by (auto simp: limited_def allows_def default_to_def js_gt_def)

lemma gated_use_other:
  assumes "segment t" "segment t'" "(t', c') \<noteq> (t, c)"
  shows "get_usage (gated_use plans plan_of t' c' s) (Str t) (Str c) = get_usage s (Str t) (Str c)"
  using assms by (auto simp: gated_use_def get_usage_record split: sum.split option.split)

lemma gated_use_same:
  assumes "segment t" "c \<noteq> []" "limited plans (plan_of t) c n"
  shows "get_usage (gated_use plans plan_of t c s) (Str t) (Str c)
    = (let u = get_usage s (Str t) (Str c) in if u < n then u + 1 else u)"
  using assms by (auto simp: gated_use_def assertAllowed_def limited_allows get_usage_record accepted_quantity_def default_to_def Let_def)

lemma gated_uses_meet:
  assumes "segment t" "c \<noteq> []" "limited plans (plan_of t) c n"
  shows "\<forall>(t', _) \<in> set h. segment t' \<Longrightarrow> get_usage s (Str t) (Str c) \<le> n \<Longrightarrow>
    get_usage (gated_uses plans plan_of h s) (Str t) (Str c) = min n (get_usage s (Str t) (Str c) + int (count_list h (t, c)))"
proof (induction h arbitrary: s)
  case (Cons x h)
  obtain t' c' where x: "x = (t', c')" by fastforce
  let ?s = "gated_use plans plan_of t' c' s"
  have step: "get_usage ?s (Str t) (Str c) = min n (get_usage s (Str t) (Str c) + (if (t', c') = (t, c) then 1 else 0))"
    using gated_use_same [where plan_of = plan_of, OF assms, of s] gated_use_other [OF assms(1), of t' c'] Cons.prems x by (auto simp: Let_def)
  then have "get_usage ?s (Str t) (Str c) \<le> n" by simp
  from Cons.IH [OF _ this] show ?case using step Cons.prems x by auto
qed simp

text \<open>Safety. When every use of a capability is checked against the meter's own count and then recorded,
  a tenant's count never exceeds its plan's limit and never stops short of it: after any sequence of
  attempts, by any tenants, it is the smaller of the limit and the number of the tenant's attempts.\<close>

theorem gated_usage_meets_limit:
  assumes "segment t" "c \<noteq> []" "limited plans (plan_of t) c n" "0 \<le> n" "\<forall>(t', _) \<in> set h. segment t'"
  shows "get_usage (gated_uses plans plan_of h new_UsageMeter) (Str t) (Str c) = min n (int (count_list h (t, c)))"
proof -
  have "get_usage new_UsageMeter (Str t) (Str c) = 0" by (simp add: get_usage_def new_UsageMeter_def)
  with gated_uses_meet [where plan_of = plan_of, OF assms(1-3,5), of new_UsageMeter] assms(4) show ?thesis by simp
qed

theorem gated_usage_meets_limit_witness:
  "get_usage (gated_uses (Obj [(''free'', Obj [(''limits'', Obj [(''run'', Num 2)])])]) (\<lambda>_. ''free'')
     [(''t1'', ''run''), (''t2'', ''run''), (''t1'', ''run''), (''t1'', ''run'')] new_UsageMeter) (Str ''t1'') (Str ''run'') = 2"
  using gated_usage_meets_limit [of "''t1''" "''run''" "Obj [(''free'', Obj [(''limits'', Obj [(''run'', Num 2)])])]" "\<lambda>_. ''free''" 2
      "[(''t1'', ''run''), (''t2'', ''run''), (''t1'', ''run''), (''t1'', ''run'')]"]
  by (simp add: segment_def colon_def limited_def index_def)

section \<open>Plans\<close>

definition PLANS :: jsval where
  "PLANS = Obj
     [(''starter'', Obj [(''name'', Str ''Starter''), (''monthlyCents'', Num 2900), (''limits'', Obj [(''executions'', Num 10000), (''members'', Num 5)])]),
      (''growth'', Obj [(''name'', Str ''Growth''), (''monthlyCents'', Num 9900), (''limits'', Obj [(''executions'', Num 100000), (''members'', Num 25)])]),
      (''enterprise'', Obj [(''name'', Str ''Enterprise''), (''monthlyCents'', Null), (''limits'', Obj [(''executions'', Inf True), (''members'', Inf True)])])]"

definition plan :: "jsval \<Rightarrow> js_error + member" where
  "plan name = (case index PLANS name of
       Value v \<Rightarrow> if truthy v then Inr (Value v) else Inl (Error ''Unknown plan'')
     | Builtin \<Rightarrow> Inr Builtin)"

definition withinLimit :: "jsval \<Rightarrow> jsval \<Rightarrow> jsval \<Rightarrow> js_error + bool" where
  "withinLimit name resource usage =
     (case plan name of
        Inl e \<Rightarrow> Inl e
      | Inr Builtin \<Rightarrow> Inl null_read_error
      | Inr (Value v) \<Rightarrow> (case index (field v ''limits'') resource of
            Builtin \<Rightarrow> Inr False
          | Value limit \<Rightarrow> Inr (js_le usage limit)))"

text \<open>The commercial table, as numbers; \<open>None\<close> is unlimited.\<close>

datatype tier = Starter | Growth | Enterprise
datatype resource = Executions | Members

fun tier_name :: "tier \<Rightarrow> string" where
  "tier_name Starter = ''starter''" | "tier_name Growth = ''growth''" | "tier_name Enterprise = ''enterprise''"

fun resource_name :: "resource \<Rightarrow> string" where
  "resource_name Executions = ''executions''" | "resource_name Members = ''members''"

fun cap :: "tier \<Rightarrow> resource \<Rightarrow> int option" where
  "cap Starter Executions = Some 10000" | "cap Starter Members = Some 5"
| "cap Growth Executions = Some 100000" | "cap Growth Members = Some 25"
| "cap Enterprise _ = None"

text \<open>The plan check follows the table, and a higher tier allows whatever a lower one does.\<close>

lemma plan_limits:
  "withinLimit (Str (tier_name p)) (Str (resource_name r)) (Num u) = Inr (case cap p r of Some n \<Rightarrow> u \<le> n | None \<Rightarrow> True)"
  by (cases p; cases r) (simp_all add: withinLimit_def plan_def index_def PLANS_def js_le_def)

end
