(* ===== verification/Agents.thy ===== *)
theory Agents
  imports JsObject Action
begin

text \<open>
  The AI employees' building blocks: \<^verbatim>\<open>modules/ai/agent_registry.js\<close>, \<^verbatim>\<open>modules/ai/memory_store.js\<close>,
  \<^verbatim>\<open>modules/ai/usage_meter.js\<close>, \<^verbatim>\<open>modules/ai/policy_engine.js\<close>, \<^verbatim>\<open>modules/ai/execution_pipeline.js\<close> and
  \<^verbatim>\<open>packages/ai/employee_runtime.js\<close>.
\<close>

section \<open>AgentRegistry\<close>

record agent_registry =
  ar_agents :: "jsval js_map"

definition register_agent :: "jsval \<Rightarrow> jsval \<Rightarrow> jsval \<Rightarrow> jsval list \<Rightarrow> jsval list \<Rightarrow> (agent_registry, jsval) act" where
  "register_agent i tenantId name tools permissions = (\<lambda>s.
     if \<not> truthy i \<or> \<not> truthy tenantId \<or> \<not> truthy name then (Inl (TypeError ''id, tenantId and name are required''), s)
     else if map_of (ar_agents s) (pair_key tenantId i) \<noteq> None then (Inl (Error ''agent already registered''), s)
     else let agent = Obj [(''id'', i), (''tenantId'', tenantId), (''name'', name), (''tools'', Arr tools), (''permissions'', Arr permissions)]
       in (Inr agent, s\<lparr>ar_agents := AList.update (pair_key tenantId i) agent (ar_agents s)\<rparr>))"

definition get_agent :: "agent_registry \<Rightarrow> jsval \<Rightarrow> jsval \<Rightarrow> jsval" where
  "get_agent s tenantId i = (case map_of (ar_agents s) (pair_key tenantId i) of Some a \<Rightarrow> a | None \<Rightarrow> Null)"

definition agent_tools :: "jsval \<Rightarrow> jsval list" where
  "agent_tools agent = (case field agent ''tools'' of Arr tools \<Rightarrow> tools | _ \<Rightarrow> [])"

definition canUseTool :: "agent_registry \<Rightarrow> jsval \<Rightarrow> jsval \<Rightarrow> jsval \<Rightarrow> bool" where
  "canUseTool s tenantId i tool = (let agent = get_agent s tenantId i in truthy agent \<and> has (agent_tools agent) tool)"

lemma register_agent_stores:
  "register_agent i t n tools ps s = (Inr a, s') \<Longrightarrow> get_agent s' t i = a \<and> agent_tools a = tools \<and> truthy a"
  by (auto simp: register_agent_def get_agent_def agent_tools_def Let_def split: if_splits)

fun register_all :: "(jsval \<times> jsval \<times> jsval \<times> jsval list \<times> jsval list) list \<Rightarrow> agent_registry \<Rightarrow> agent_registry" where
  "register_all [] s = s"
| "register_all ((i, t, n, tools, ps) # h) s = register_all h (snd (register_agent i t n tools ps s))"

lemma register_agent_keeps:
  "map_of (ar_agents s) key = Some a \<Longrightarrow> map_of (ar_agents (snd (register_agent i t n tools ps s))) key = Some a"
  by (auto simp: register_agent_def Let_def)

lemma register_all_keeps:
  "map_of (ar_agents s) key = Some a \<Longrightarrow> map_of (ar_agents (register_all h s)) key = Some a"
  by (induction h s rule: register_all.induct) (simp_all add: register_agent_keeps)

text \<open>An agent may use exactly the tools it was registered with, whatever is registered afterwards.\<close>

lemma tools_are_fixed:
  assumes "register_agent i t n tools ps s = (Inr a, s')"
  shows "canUseTool (register_all h s') t i tool \<longleftrightarrow> has tools tool"
proof -
  have "map_of (ar_agents s') (pair_key t i) = Some a"
    using assms by (auto simp: register_agent_def Let_def split: if_splits)
  from register_all_keeps [OF this] show ?thesis
    using register_agent_stores [OF assms] by (simp add: canUseTool_def get_agent_def)
qed

section \<open>AgentMemoryStore\<close>

text \<open>A bucket is a \<^verbatim>\<open>Map\<close>: overwriting a key keeps its place, eviction takes the oldest first.\<close>

type_synonym bucket = "jsval js_map"

record memory_store =
  ms_maxEntries :: int
  ms_data :: "bucket js_map"

text \<open>
  \<^verbatim>\<open>while (bucket.size > this.maxEntries) bucket.delete(bucket.keys().next().value)\<close>: deleting from an
  empty map changes nothing, so for a negative bound the loop does not end, which is \<open>None\<close>.
\<close>

partial_function (option) evict :: "int \<Rightarrow> bucket \<Rightarrow> bucket option" where
  "evict maxEntries b = (if int (length b) > maxEntries then evict maxEntries (tl b) else Some b)"

definition memory_put :: "jsval \<Rightarrow> jsval \<Rightarrow> string \<Rightarrow> jsval \<Rightarrow> memory_store \<Rightarrow> ((js_error + unit) \<times> memory_store) option" where
  "memory_put tenantId agentId key v s =
     (if \<not> truthy tenantId \<or> \<not> truthy agentId \<or> key = [] then Some (Inl (TypeError ''tenantId, agentId and key are required''), s)
      else let bucket = (case map_of (ms_data s) (pair_key tenantId agentId) of Some b \<Rightarrow> b | None \<Rightarrow> []) in
        map_option (\<lambda>b. (Inr (), s\<lparr>ms_data := AList.update (pair_key tenantId agentId) b (ms_data s)\<rparr>))
          (evict (ms_maxEntries s) (AList.update key v bucket)))"

definition memory_get :: "memory_store \<Rightarrow> jsval \<Rightarrow> jsval \<Rightarrow> string \<Rightarrow> jsval" where
  "memory_get s tenantId agentId key =
     (case map_of (ms_data s) (pair_key tenantId agentId) of
        None \<Rightarrow> Null
      | Some b \<Rightarrow> (case map_of b key of Some v \<Rightarrow> js_coalesce v Null | None \<Rightarrow> Null))"

definition memory_clear :: "jsval \<Rightarrow> jsval \<Rightarrow> memory_store \<Rightarrow> memory_store" where
  "memory_clear tenantId agentId s = s\<lparr>ms_data := AList.delete (pair_key tenantId agentId) (ms_data s)\<rparr>"

definition last_entries :: "nat \<Rightarrow> 'a list \<Rightarrow> 'a list" where
  "last_entries n xs = drop (length xs - n) xs"

lemma evict_returns: "0 \<le> maxEntries \<Longrightarrow> evict maxEntries b = Some (last_entries (nat maxEntries) b)"
proof (induction b)
  case Nil
  then show ?case by (simp add: evict.simps [of maxEntries "[]"] last_entries_def)
next
  case (Cons x b)
  then show ?case
    by (cases "int (length (x # b)) > maxEntries")
      (auto simp: evict.simps [of maxEntries "x # b"] last_entries_def Suc_diff_le nat_le_iff)
qed

lemma evict_bound:
  assumes "evict maxEntries b = Some r"
  shows "int (length r) \<le> maxEntries"
  using assms
proof (rule evict.raw_induct [rotated, where P = "\<lambda>m b r. int (length r) \<le> m"])
  fix again m b r
  assume IH: "\<And>m b r. again m b = Some r \<Longrightarrow> int (length r) \<le> m"
    and "(if int (length b) > m then again m (tl b) else Some b) = Some r"
  then show "int (length r) \<le> m" by (auto split: if_splits dest: IH)
qed

lemma negative_bound_never_returns:
  "maxEntries < 0 \<Longrightarrow> evict maxEntries b = None"
  using evict_bound [of maxEntries b] by (cases "evict maxEntries b") auto

definition bucket_of :: "memory_store \<Rightarrow> jsval \<Rightarrow> jsval \<Rightarrow> bucket" where
  "bucket_of s t a = (case map_of (ms_data s) (pair_key t a) of Some b \<Rightarrow> b | None \<Rightarrow> [])"

definition memory_ok :: "memory_store \<Rightarrow> bool" where
  "memory_ok s \<longleftrightarrow> 1 \<le> ms_maxEntries s
     \<and> (\<forall>key b. map_of (ms_data s) key = Some b \<longrightarrow> distinct (map fst b) \<and> int (length b) \<le> ms_maxEntries s)"

lemma bucket_ok: "memory_ok s \<Longrightarrow> distinct (map fst (bucket_of s t a)) \<and> int (length (bucket_of s t a)) \<le> ms_maxEntries s"
  by (auto simp: memory_ok_def bucket_of_def split: option.split)

text \<open>Which key a write pushes out: the oldest, when a new key meets a full bucket.\<close>

definition evicted :: "memory_store \<Rightarrow> jsval \<Rightarrow> jsval \<Rightarrow> string \<Rightarrow> string \<Rightarrow> bool" where
  "evicted s t a key k \<longleftrightarrow> map_of (bucket_of s t a) key = None \<and> int (length (bucket_of s t a)) = ms_maxEntries s
     \<and> k = fst (hd (bucket_of s t a))"

text \<open>One write on a bucket, every case.\<close>

lemma bucket_put:
  assumes "distinct (map fst b)" "length b \<le> n" "1 \<le> n" and b': "b' = last_entries n (AList.update key v b)"
  shows "distinct (map fst b') \<and> length b' \<le> n \<and> map_of b' key = Some v
    \<and> (\<forall>k. k \<noteq> key \<longrightarrow> map_of b' k = (if map_of b key = None \<and> length b = n \<and> k = fst (hd b) then None else map_of b k))"
proof -
  have "distinct (map fst (AList.update key v b))" using assms(1) by (rule distinct_alist_update)
  then have "distinct (map fst b')" unfolding b' last_entries_def drop_map [symmetric] by (rule distinct_drop)
  moreover have "length b' \<le> n" by (simp add: b' last_entries_def)
  moreover have "map_of b' key = Some v
    \<and> (\<forall>k. k \<noteq> key \<longrightarrow> map_of b' k = (if map_of b key = None \<and> length b = n \<and> k = fst (hd b) then None else map_of b k))"
  proof (cases "map_of b key = None \<and> length b = n")
    case True
    obtain e bs where b: "b = e # bs" using True assms(3) by (cases b) auto
    have "AList.update key v b = b @ [(key, v)]" using True by (simp add: alist_update_new)
    then have "b' = bs @ [(key, v)]" using True b by (simp add: b' last_entries_def)
    moreover have "map_of bs (fst e) = None" using assms(1) b by (simp add: map_of_eq_None_iff)
    moreover have "map_of bs key = None" "key \<noteq> fst e" using True b by (simp_all split: if_splits)
    moreover have "map_of b k = (if k = fst e then Some (snd e) else map_of bs k)" for k by (cases e) (simp add: b)
    ultimately show ?thesis
      using True b by (auto simp: map_add_def split: option.split)
  next
    case False
    then have "length (AList.update key v b) \<le> n"
      using assms(2) alist_update_old [of b key v] alist_update_new [of b key v] by (cases "map_of b key = None") auto
    then have "b' = AList.update key v b" by (simp add: b' last_entries_def)
    with False show ?thesis by auto
  qed
  ultimately show ?thesis by blast
qed

text \<open>Bounds. A memory with room for at least one entry per agent never grows past its bound and forgets
  only what it must: every write returns, the value written is read back at once, another key of the
  agent changes only if it is the oldest and a new key met a full bucket, in which case it is gone,
  and no other agent's memory is touched.\<close>

theorem memory_is_bounded_and_forgets_the_oldest:
  assumes "memory_ok s" "truthy t" "truthy a" "key \<noteq> []"
  shows "\<exists>s'. memory_put t a key v s = Some (Inr (), s') \<and> memory_ok s'
    \<and> memory_get s' t a key = js_coalesce v Null
    \<and> (\<forall>k. k \<noteq> key \<longrightarrow> memory_get s' t a k = (if evicted s t a key k then Null else memory_get s t a k))
    \<and> (\<forall>t' a' k. pair_key t' a' \<noteq> pair_key t a \<longrightarrow> memory_get s' t' a' k = memory_get s t' a' k)"
proof -
  let ?b = "bucket_of s t a" and ?n = "nat (ms_maxEntries s)"
  let ?b' = "last_entries ?n (AList.update key v ?b)"
  let ?s = "s\<lparr>ms_data := AList.update (pair_key t a) ?b' (ms_data s)\<rparr>"
  have n: "1 \<le> ms_maxEntries s" using assms(1) by (simp add: memory_ok_def)
  note ok = bucket_ok [OF assms(1), of t a]
  have put: "distinct (map fst ?b') \<and> length ?b' \<le> ?n \<and> map_of ?b' key = Some v
    \<and> (\<forall>k. k \<noteq> key \<longrightarrow> map_of ?b' k = (if map_of ?b key = None \<and> length ?b = ?n \<and> k = fst (hd ?b) then None else map_of ?b k))"
    by (rule bucket_put [OF _ _ _ refl]) (use ok n in linarith)+
  have "memory_put t a key v s = Some (Inr (), ?s)"
    using assms(2-4) n evict_returns [of "ms_maxEntries s"] by (simp add: memory_put_def bucket_of_def Let_def)
  moreover have "memory_ok ?s" using assms(1) put n by (auto simp: memory_ok_def)
  moreover have get: "memory_get s t a k = (case map_of ?b k of Some v \<Rightarrow> js_coalesce v Null | None \<Rightarrow> Null)"
    "memory_get ?s t a k = (case map_of ?b' k of Some v \<Rightarrow> js_coalesce v Null | None \<Rightarrow> Null)" for k
    by (simp_all add: memory_get_def bucket_of_def split: option.split)
  moreover have "evicted s t a key k \<longleftrightarrow> map_of ?b key = None \<and> length ?b = ?n \<and> k = fst (hd ?b)" for k
    using n by (auto simp: evicted_def)
  moreover have "memory_get ?s t' a' k = memory_get s t' a' k" if "pair_key t' a' \<noteq> pair_key t a" for t' a' k
    using that by (simp add: memory_get_def)
  ultimately show ?thesis
    using put by (intro exI [of _ ?s]) auto
qed

theorem memory_is_bounded_and_forgets_the_oldest_witness:
  "\<exists>s'. memory_put (Str ''t'') (Str ''a'') ''k2'' (Num 2) \<lparr>ms_maxEntries = 1, ms_data = [(''t:a'', [(''k1'', Num 1)])]\<rparr> = Some (Inr (), s')
     \<and> memory_get s' (Str ''t'') (Str ''a'') ''k2'' = Num 2 \<and> memory_get s' (Str ''t'') (Str ''a'') ''k1'' = Null"
proof -
  let ?s = "\<lparr>ms_maxEntries = 1, ms_data = [(''t:a'', [(''k1'', Num 1)])]\<rparr>"
  have key: "pair_key (Str ''t'') (Str ''a'') = ''t:a''" by (simp add: pair_key_def colon_def)
  have "memory_ok ?s" by (simp add: memory_ok_def)
  from memory_is_bounded_and_forgets_the_oldest [OF this, of "Str ''t''" "Str ''a''" "''k2''" "Num 2"]
  show ?thesis by (auto simp: evicted_def bucket_of_def key js_coalesce_def)
qed

section \<open>AIUsageMeter\<close>

record ai_usage =
  au_tokens :: jsval
  au_durationMs :: jsval
  au_calls :: int

record ai_usage_meter =
  am_budgets :: "jsval js_map"
  am_usage :: "ai_usage js_map"

definition no_usage :: ai_usage where
  "no_usage = \<lparr>au_tokens = Num 0, au_durationMs = Num 0, au_calls = 0\<rparr>"

definition get_ai_usage :: "ai_usage_meter \<Rightarrow> jsval \<Rightarrow> jsval \<Rightarrow> ai_usage" where
  "get_ai_usage s tenantId agentId = (case map_of (am_usage s) (pair_key tenantId agentId) of Some u \<Rightarrow> u | None \<Rightarrow> no_usage)"

text \<open>A composite key contains a colon, so the lookup in \<^verbatim>\<open>budgets\<close> finds own properties only.\<close>

definition record_ai_usage :: "jsval \<Rightarrow> jsval \<Rightarrow> jsval \<Rightarrow> jsval \<Rightarrow> (ai_usage_meter, ai_usage) act" where
  "record_ai_usage tenantId agentId tokens durationMs = (\<lambda>s.
     let key = pair_key tenantId agentId;
         current = get_ai_usage s tenantId agentId;
         new = \<lparr>au_tokens = js_add (au_tokens current) (default_to tokens (Num 0)),
                au_durationMs = js_add (au_durationMs current) (default_to durationMs (Num 0)), au_calls = au_calls current + 1\<rparr>;
         budget = field (field (Obj (am_budgets s)) key) ''tokens''
     in if budget \<noteq> Undefined \<and> budget \<noteq> Null \<and> js_gt (au_tokens new) budget then (Inl (Error ''AI usage budget exceeded''), s)
        else (Inr new, s\<lparr>am_usage := AList.update key new (am_usage s)\<rparr>))"

fun record_ai_all :: "(jsval \<times> jsval \<times> jsval \<times> jsval) list \<Rightarrow> ai_usage_meter \<Rightarrow> ai_usage_meter" where
  "record_ai_all [] s = s"
| "record_ai_all ((t, a, n, d) # h) s = record_ai_all h (snd (record_ai_usage t a n d s))"

definition within_budgets :: "ai_usage_meter \<Rightarrow> bool" where
  "within_budgets s \<longleftrightarrow> (\<forall>key u. map_of (am_usage s) key = Some u \<longrightarrow>
     (\<exists>n. au_tokens u = Num n \<and> (\<forall>b. field (field (Obj (am_budgets s)) key) ''tokens'' = Num b \<longrightarrow> n \<le> b)))"

lemma within_tokens: "within_budgets s \<Longrightarrow> \<exists>n. au_tokens (get_ai_usage s t a) = Num n"
  unfolding within_budgets_def get_ai_usage_def no_usage_def
  by (cases "map_of (am_usage s) (pair_key t a)") (simp, metis option.simps(5))

lemma within_record:
  assumes "within_budgets s" "default_to tokens (Num 0) = Num k"
  shows "within_budgets (snd (record_ai_usage t a tokens d s))"
proof -
  obtain n where n: "au_tokens (get_ai_usage s t a) = Num n" using within_tokens [OF assms(1)] by blast
  show ?thesis
    using assms n by (auto simp: record_ai_usage_def Let_def within_budgets_def js_add_def js_gt_def)
qed

lemma record_ai_budgets: "am_budgets (snd (record_ai_usage t a n d s)) = am_budgets s"
  by (simp add: record_ai_usage_def Let_def)

lemma within_record_all:
  "within_budgets s \<Longrightarrow> \<forall>(t, a, n, d) \<in> set h. is_integer (default_to n (Num 0)) \<Longrightarrow>
    within_budgets (record_ai_all h s) \<and> am_budgets (record_ai_all h s) = am_budgets s"
proof (induction h s rule: record_ai_all.induct)
  case (2 t a n d h s)
  obtain k where "default_to n (Num 0) = Num k" using "2.prems"(2) by (cases "default_to n (Num 0)") auto
  with 2 within_record [of s n k t a d] show ?case by (simp add: record_ai_budgets)
qed simp

text \<open>Safety. An agent's recorded tokens never exceed its budget: after any sequence of recordings
  with whole token counts, by any agents, an agent with a token budget \<^verbatim>\<open>b\<close> that has any recorded use
  has used at most \<^verbatim>\<open>b\<close> tokens. A recording that would exceed the budget is refused and changes nothing.\<close>

theorem ai_budget_is_never_exceeded:
  assumes "\<forall>(t, a, n, d) \<in> set h. is_integer (default_to n (Num 0))"
    and "field (field (Obj budgets) (pair_key t a)) ''tokens'' = Num b" "0 \<le> b"
  shows "let s = record_ai_all h \<lparr>am_budgets = budgets, am_usage = []\<rparr> in
    (\<exists>n. au_tokens (get_ai_usage s t a) = Num n \<and> n \<le> b
      \<and> (\<forall>k d. n + k > b \<longrightarrow> record_ai_usage t a (Num k) d s = (Inl (Error ''AI usage budget exceeded''), s)))"
proof -
  let ?s = "record_ai_all h \<lparr>am_budgets = budgets, am_usage = []\<rparr>"
  have "within_budgets \<lparr>am_budgets = budgets, am_usage = []\<rparr>" by (simp add: within_budgets_def)
  from within_record_all [OF this assms(1)] have s: "within_budgets ?s" "am_budgets ?s = budgets" by simp_all
  obtain n where n: "au_tokens (get_ai_usage ?s t a) = Num n" "n \<le> b"
    using s assms(2,3)
    by (cases "map_of (am_usage ?s) (pair_key t a)") (force simp: get_ai_usage_def no_usage_def within_budgets_def)+
  moreover have "record_ai_usage t a (Num k) d ?s = (Inl (Error ''AI usage budget exceeded''), ?s)" if "n + k > b" for k d
    using that n(1) s(2) assms(2) by (simp add: record_ai_usage_def Let_def js_add_def js_gt_def default_to_def)
  ultimately show ?thesis by (auto simp: Let_def)
qed

theorem ai_budget_is_never_exceeded_witness:
  "\<exists>n. au_tokens (get_ai_usage (record_ai_all [(Str ''t'', Str ''a'', Num 7, Undefined), (Str ''t'', Str ''a'', Num 7, Undefined)]
      \<lparr>am_budgets = [(''t:a'', Obj [(''tokens'', Num 10)])], am_usage = []\<rparr>) (Str ''t'') (Str ''a'')) = Num n \<and> n \<le> 10"
  using ai_budget_is_never_exceeded [of "[(Str ''t'', Str ''a'', Num 7, Undefined), (Str ''t'', Str ''a'', Num 7, Undefined)]"
      "[(''t:a'', Obj [(''tokens'', Num 10)])]" "Str ''t''" "Str ''a''" 10]
  by (auto simp: Let_def default_to_def pair_key_def colon_def simp del: record_ai_all.simps)

text \<open>One recording of NaN tokens switches the budget off: the total stays NaN, which exceeds nothing.\<close>

lemma nan_disables_budget:
  assumes "within_budgets s" "record_ai_usage t a NaN d s = (Inr u, s1)"
  shows "\<exists>u' s2. record_ai_usage t a (Num k) d' s1 = (Inr u', s2) \<and> au_tokens u' = NaN"
proof -
  obtain n where "au_tokens (get_ai_usage s t a) = Num n" using within_tokens [OF assms(1)] by blast
  then have "au_tokens (get_ai_usage s1 t a) = NaN"
    using assms(2) by (auto simp: record_ai_usage_def Let_def get_ai_usage_def default_to_def js_add_def split: if_splits)
  then show ?thesis by (cases "field (field (Obj (am_budgets s1)) (pair_key t a)) ''tokens''")
    (auto simp: record_ai_usage_def Let_def default_to_def js_add_def js_gt_def)
qed

section \<open>AgentPolicyEngine\<close>

text \<open>A rule's \<^verbatim>\<open>when\<close> is an arbitrary function, which may throw.\<close>

record policy_rule =
  pr_when :: "jsval \<Rightarrow> js_error + jsval"
  pr_allow :: jsval
  pr_reason :: jsval

fun evaluate :: "policy_rule list \<Rightarrow> jsval \<Rightarrow> js_error + bool \<times> jsval" where
  "evaluate [] request = Inr (False, Str ''no matching policy rule'')"
| "evaluate (rule # rules) request =
     (case pr_when rule request of
        Inl e \<Rightarrow> Inl e
      | Inr v \<Rightarrow> if truthy v then Inr (truthy (pr_allow rule), js_coalesce (pr_reason rule) (Str ''policy rule''))
                 else evaluate rules request)"

definition policy_authorize :: "policy_rule list \<Rightarrow> jsval \<Rightarrow> js_error + bool" where
  "policy_authorize rules request = map_sum id fst (evaluate rules request)"

text \<open>The first rule that matches decides, and without one the request is denied.\<close>

lemma evaluate_first_match:
  assumes "\<forall>r \<in> set rules. \<exists>v. pr_when r request = Inr v"
  shows "policy_authorize rules request =
    Inr (case find (\<lambda>r. \<exists>v. pr_when r request = Inr v \<and> truthy v) rules of Some r \<Rightarrow> truthy (pr_allow r) | None \<Rightarrow> False)"
  using assms by (induction rules) (auto simp: policy_authorize_def)

section \<open>AgentExecutionPipeline\<close>

record 's pipeline =
  pl_planner :: "jsval \<Rightarrow> ('s, jsval) act"
  pl_executor :: "jsval \<Rightarrow> jsval \<Rightarrow> ('s, jsval) act"
  pl_verifier :: "jsval \<Rightarrow> jsval \<Rightarrow> jsval \<Rightarrow> ('s, jsval) act"

definition run_pipeline :: "'s pipeline \<Rightarrow> jsval \<Rightarrow> ('s, jsval) act" where
  "run_pipeline pl input =
     bnd (pl_planner pl input) (\<lambda>plan.
       case plan of
         Arr (step # steps) \<Rightarrow>
           bnd (for_each (\<lambda>step. pl_executor pl step input) (step # steps)) (\<lambda>results.
           bnd (pl_verifier pl input plan (Arr results)) (\<lambda>verification.
             if \<not> truthy (field verification ''ok'')
             then throw (Error (to_str (js_or (field verification ''reason'') (Str ''execution verification failed''))))
             else ret (Obj [(''plan'', plan), (''results'', Arr results), (''verification'', verification)])))
       | _ \<Rightarrow> throw (Error ''planner returned no executable steps''))"

section \<open>EmployeeRuntime\<close>

text \<open>\<open>er_policy\<close> is the \<^verbatim>\<open>authorize\<close> method of the policy, when there is one; both it and \<open>er_audit\<close> are optional.\<close>

record 's employee_runtime =
  er_executor :: "jsval \<Rightarrow> ('s, jsval) act"
  er_policy :: "(jsval \<Rightarrow> ('s, jsval) act) option"
  er_audit :: "(jsval \<Rightarrow> ('s, unit) act) option"

definition new_EmployeeRuntime ::
  "(jsval \<Rightarrow> ('s, jsval) act) option \<Rightarrow> (jsval \<Rightarrow> ('s, jsval) act) option \<Rightarrow> (jsval \<Rightarrow> ('s, unit) act) option \<Rightarrow> js_error + 's employee_runtime" where
  "new_EmployeeRuntime executor policy audit =
     (case executor of
        None \<Rightarrow> Inl (TypeError ''executor is required'')
      | Some x \<Rightarrow> Inr \<lparr>er_executor = x, er_policy = policy, er_audit = audit\<rparr>)"

definition audit_on :: "'s employee_runtime \<Rightarrow> jsval \<Rightarrow> ('s, unit) act" where
  "audit_on rt event = (case er_audit rt of None \<Rightarrow> ret () | Some a \<Rightarrow> a event)"

definition employee_request :: "jsval \<Rightarrow> jsval \<Rightarrow> jsval \<Rightarrow> jsval \<Rightarrow> jsval \<Rightarrow> jsval js_map" where
  "employee_request employeeId tenantId objective context metadata =
     [(''employeeId'', employeeId), (''tenantId'', tenantId), (''objective'', objective),
      (''context'', default_to context (Obj [])), (''metadata'', default_to metadata (Obj []))]"

definition employee_event :: "string \<Rightarrow> jsval \<Rightarrow> jsval \<Rightarrow> jsval js_map \<Rightarrow> jsval" where
  "employee_event ty employeeId tenantId extra = Obj ([(''type'', Str ty), (''employeeId'', employeeId), (''tenantId'', tenantId)] @ extra)"

definition run_employee :: "'s employee_runtime \<Rightarrow> jsval \<Rightarrow> jsval \<Rightarrow> jsval \<Rightarrow> jsval \<Rightarrow> jsval \<Rightarrow> ('s, jsval) act" where
  "run_employee rt employeeId tenantId objective context metadata =
     (if \<not> truthy employeeId \<or> \<not> truthy tenantId \<or> \<not> truthy objective
      then throw (TypeError ''employeeId, tenantId and objective are required'')
      else let request = employee_request employeeId tenantId objective context metadata in
        bnd (case er_policy rt of None \<Rightarrow> ret True | Some authorize \<Rightarrow> bnd (authorize (Obj request)) (\<lambda>v. ret (truthy v))) (\<lambda>ok.
          if \<not> ok then throw (Error ''employee execution denied by policy'')
          else bnd (audit_on rt (Obj ((''type'', Str ''employee.execution.started'') # request))) (\<lambda>_.
            try_catch
              (bnd (er_executor rt (Obj request)) (\<lambda>result.
               bnd (audit_on rt (employee_event ''employee.execution.completed'' employeeId tenantId [])) (\<lambda>_. ret result)))
              (\<lambda>error. case message_of error of
                 Inl e \<Rightarrow> throw e
               | Inr m \<Rightarrow> bnd (audit_on rt (employee_event ''employee.execution.failed'' employeeId tenantId [(''error'', m)])) (\<lambda>_. throw error)))))"

subsection \<open>Runs with an audit log\<close>

text \<open>The executor works on its own state beside the log, which only \<^verbatim>\<open>audit\<close> appends to.\<close>

definition on_env :: "('e, 'a) act \<Rightarrow> (jsval list \<times> 'e, 'a) act" where
  "on_env m = (\<lambda>(log, e). case m e of (r, e') \<Rightarrow> (r, (log, e')))"

definition append_log :: "jsval \<Rightarrow> (jsval list \<times> 'e, unit) act" where
  "append_log event = (\<lambda>(log, e). (Inr (), (log @ [event], e)))"

definition logged_runtime :: "(jsval \<Rightarrow> ('e, jsval) act) \<Rightarrow> (jsval \<Rightarrow> js_error + bool) \<Rightarrow> (jsval list \<times> 'e) employee_runtime" where
  "logged_runtime executor policy =
     \<lparr>er_executor = \<lambda>request. on_env (executor request),
      er_policy = Some (\<lambda>request s. (map_sum id Boolean (policy request), s)), er_audit = Some append_log\<rparr>"

text \<open>Safety. An AI employee's work is authorized first and leaves a complete trail: when the policy
  denies the request or fails, the executor does not run and nothing is logged; when it authorizes,
  the executor runs once, on exactly the request the policy saw, and the log gains the start of the
  run with the whole request, followed by its completion when the executor resolves, with the
  executor's result returned, or by its failure with the error's message when it rejects, with the
  error passed on.\<close>

theorem employee_runs_are_authorized_and_audited:
  assumes "truthy employeeId" "truthy tenantId" "truthy objective"
  shows "let request = employee_request employeeId tenantId objective context metadata;
        started = Obj ((''type'', Str ''employee.execution.started'') # request);
        run = run_employee (logged_runtime executor policy) employeeId tenantId objective context metadata (log, s)
    in case policy (Obj request) of
         Inl err \<Rightarrow> run = (Inl err, (log, s))
       | Inr ok \<Rightarrow>
           if \<not> ok then run = (Inl (Error ''employee execution denied by policy''), (log, s))
           else (case executor (Obj request) s of
               (Inr v, s') \<Rightarrow> run = (Inr v, (log @ [started, employee_event ''employee.execution.completed'' employeeId tenantId []], s'))
             | (Inl err, s') \<Rightarrow> (case message_of err of
                   Inr m \<Rightarrow> run = (Inl err, (log @ [started, employee_event ''employee.execution.failed'' employeeId tenantId [(''error'', m)]], s'))
                 | Inl err' \<Rightarrow> run = (Inl err', (log @ [started], s'))))"
  using assms
  by (auto simp: Let_def run_employee_def logged_runtime_def audit_on_def append_log_def on_env_def bnd_run' try_catch_def
      split: sum.split prod.split)

theorem employee_runs_are_authorized_and_audited_witness:
  "fst (run_employee (logged_runtime (\<lambda>_. throw (Error ''boom'')) (\<lambda>_. Inr True)) (Str ''e1'') (Str ''t1'') (Str ''goal'') Undefined Undefined ([], ()))
     = Inl (Error ''boom'')"
  using employee_runs_are_authorized_and_audited [of "Str ''e1''" "Str ''t1''" "Str ''goal''" Undefined Undefined "\<lambda>_. throw (Error ''boom'')" "\<lambda>_. Inr True" "[]" "()"]
  by (simp add: Let_def)

end
