(* ===== verification/Credentials.thy ===== *)
theory Credentials
  imports JsObject Repository
begin

text \<open>
  API keys (\<^verbatim>\<open>packages/auth/api_keys.js\<close>), sessions (\<^verbatim>\<open>packages/auth/auth.js\<close>) and signed webhook
  deliveries (\<^verbatim>\<open>modules/integrations/webhook_delivery.js\<close>). The hash functions, in hexadecimal, are
  parameters; random ids and secrets and the current time are arguments.
\<close>

section \<open>Comparing digests\<close>

text \<open>
  \<^verbatim>\<open>crypto.timingSafeEqual(Buffer.from(a), Buffer.from(b))\<close>: it throws unless the UTF-8 encodings have
  the same length, and the encoding is injective.
\<close>

definition utf8_length :: "string \<Rightarrow> nat" where
  "utf8_length s = sum_list (map (\<lambda>c. if (of_char c :: nat) < 128 then 1 else 2) s)"

definition timingSafeEqual :: "string \<Rightarrow> string \<Rightarrow> js_error + bool" where
  "timingSafeEqual a b =
     (if utf8_length a \<noteq> utf8_length b
      then Inl (Exn ''RangeError'' ''Input buffers must have the same byte length'' [(''code'', Str ''ERR_CRYPTO_TIMING_SAFE_EQUAL_LENGTH'')])
      else Inr (a = b))"

definition ascii :: "string \<Rightarrow> bool" where
  "ascii s \<longleftrightarrow> (\<forall>c \<in> set s. (of_char c :: nat) < 128)"

lemma utf8_length_ascii: "ascii s \<Longrightarrow> utf8_length s = length s"
  by (induction s) (simp_all add: utf8_length_def ascii_def)

text \<open>What the code relies on: a digest is an ASCII text of a fixed length.\<close>

definition digest :: "nat \<Rightarrow> (string \<Rightarrow> string) \<Rightarrow> bool" where
  "digest n h \<longleftrightarrow> (\<forall>x. ascii (h x) \<and> length (h x) = n)"

lemma timingSafeEqual_digest: "digest n h \<Longrightarrow> timingSafeEqual (h x) (h y) = Inr (h x = h y)"
  by (simp add: digest_def timingSafeEqual_def utf8_length_ascii)

section \<open>ApiKeyStore\<close>

record api_key_store =
  ak_keys :: "jsval js_map"

definition new_ApiKeyStore :: api_key_store where
  "new_ApiKeyStore = \<lparr>ak_keys = []\<rparr>"

definition api_key_record :: "string \<Rightarrow> jsval \<Rightarrow> jsval \<Rightarrow> jsval list \<Rightarrow> string \<Rightarrow> bool \<Rightarrow> string \<Rightarrow> jsval" where
  "api_key_record i tenantId name scopes hash revoked now =
     Obj [(''id'', Str i), (''tenantId'', tenantId), (''name'', name), (''scopes'', Arr scopes), (''hash'', Str hash),
          (''revoked'', Boolean revoked), (''createdAt'', Str now)]"

definition issue_key ::
  "(string \<Rightarrow> string) \<Rightarrow> string \<Rightarrow> string \<Rightarrow> string \<Rightarrow> jsval \<Rightarrow> jsval \<Rightarrow> jsval list \<Rightarrow> (api_key_store, jsval) act" where
  "issue_key sha256 now i secret tenantId name scopes = (\<lambda>s.
     if \<not> truthy tenantId \<or> \<not> truthy name then (Inl (Error ''tenantId and name are required''), s)
     else (Inr (Obj [(''id'', Str i), (''tenantId'', tenantId), (''name'', name), (''scopes'', Arr scopes), (''secret'', Str secret)]),
           s\<lparr>ak_keys := AList.update i (api_key_record i tenantId name scopes (sha256 secret) False now) (ak_keys s)\<rparr>))"

text \<open>\<^verbatim>\<open>for (const record of this.keys.values()) if (!record.revoked && timingSafeEqual(...)) return ...\<close>\<close>

fun find_key :: "string \<Rightarrow> jsval list \<Rightarrow> js_error + jsval" where
  "find_key hash [] = Inr Null"
| "find_key hash (r # rs) =
     (if truthy (field r ''revoked'') then find_key hash rs
      else case timingSafeEqual (to_str (field r ''hash'')) hash of
        Inl e \<Rightarrow> Inl e
      | Inr eq \<Rightarrow> if eq then Inr (spread r [(''hash'', Undefined)]) else find_key hash rs)"

definition authenticate_key :: "(string \<Rightarrow> string) \<Rightarrow> api_key_store \<Rightarrow> jsval \<Rightarrow> js_error + jsval" where
  "authenticate_key sha256 s secret =
     (case js_or secret (Str []) of
        Str x \<Rightarrow> find_key (sha256 x) (map snd (ak_keys s))
      | _ \<Rightarrow> Inl (TypeError ''The \"data\" argument must be of type string''))"

definition revoke_key :: "string \<Rightarrow> api_key_store \<Rightarrow> bool \<times> api_key_store" where
  "revoke_key i s =
     (case map_of (ak_keys s) i of
        None \<Rightarrow> (False, s)
      | Some r \<Rightarrow> (True, s\<lparr>ak_keys := AList.update i (spread r [(''revoked'', Boolean True)]) (ak_keys s)\<rparr>))"

subsection \<open>The issued keys, abstractly\<close>

record issued =
  is_id :: string
  is_secret :: string
  is_tenant :: jsval
  is_name :: jsval
  is_scopes :: "jsval list"
  is_at :: string
  is_revoked :: bool

datatype key_op = Issue issued | Revoke string

fun do_key :: "(string \<Rightarrow> string) \<Rightarrow> key_op \<Rightarrow> api_key_store \<Rightarrow> api_key_store" where
  "do_key sha256 (Issue k) s = snd (issue_key sha256 (is_at k) (is_id k) (is_secret k) (is_tenant k) (is_name k) (is_scopes k) s)"
| "do_key sha256 (Revoke i) s = snd (revoke_key i s)"

fun do_keys :: "(string \<Rightarrow> string) \<Rightarrow> key_op list \<Rightarrow> api_key_store \<Rightarrow> api_key_store" where
  "do_keys sha256 [] s = s"
| "do_keys sha256 (x # xs) s = do_keys sha256 xs (do_key sha256 x s)"

text \<open>The reference: the list of keys that were issued, each live until its id is revoked.\<close>

fun spec_key :: "key_op \<Rightarrow> issued list \<Rightarrow> issued list" where
  "spec_key (Issue k) ks = (if truthy (is_tenant k) \<and> truthy (is_name k) then ks @ [k\<lparr>is_revoked := False\<rparr>] else ks)"
| "spec_key (Revoke i) ks = map (\<lambda>k. if is_id k = i then k\<lparr>is_revoked := True\<rparr> else k) ks"

definition stored_key :: "(string \<Rightarrow> string) \<Rightarrow> issued \<Rightarrow> string \<times> jsval" where
  "stored_key sha256 k =
     (is_id k, api_key_record (is_id k) (is_tenant k) (is_name k) (is_scopes k) (sha256 (is_secret k)) (is_revoked k) (is_at k))"

definition public_key :: "issued \<Rightarrow> jsval" where
  "public_key k = Obj [(''id'', Str (is_id k)), (''tenantId'', is_tenant k), (''name'', is_name k), (''scopes'', Arr (is_scopes k)),
     (''hash'', Undefined), (''revoked'', Boolean False), (''createdAt'', Str (is_at k))]"

lemma map_of_stored_keys:
  "map_of (map (stored_key sha256) ks) i = map_option (snd \<circ> stored_key sha256) (find (\<lambda>k. is_id k = i) ks)"
  by (induction ks) (auto simp: stored_key_def)

lemma find_None_ids: "find (\<lambda>k. is_id k = i) ks = None \<longleftrightarrow> i \<notin> is_id ` set ks"
  by (auto simp: find_None_iff)

lemma update_stored_key:
  assumes "distinct (map is_id ks)" "find (\<lambda>k. is_id k = i) ks = Some k"
  shows "AList.update i (spread (snd (stored_key sha256 k)) [(''revoked'', Boolean True)]) (map (stored_key sha256) ks)
    = map (stored_key sha256) (map (\<lambda>k. if is_id k = i then k\<lparr>is_revoked := True\<rparr> else k) ks)"
  using assms
proof (induction ks)
  case (Cons a ks)
  have rest: "map (\<lambda>k. if is_id k = i then k\<lparr>is_revoked := True\<rparr> else k) ks = ks" if "is_id a = i"
    using Cons.prems(1) that by (intro map_idI) (auto, metis imageI)
  show ?case
  proof (cases "is_id a = i")
    case True
    then show ?thesis using Cons.prems(2) rest
      by (simp add: stored_key_def api_key_record_def spread_def)
  next
    case False
    then show ?thesis using Cons by (simp add: stored_key_def)
  qed
qed simp

text \<open>Issued ids are fresh, as random UUIDs are; hashing keeps the secrets in play apart.\<close>

fun fresh_ids :: "key_op list \<Rightarrow> string set \<Rightarrow> bool" where
  "fresh_ids [] used = True"
| "fresh_ids (Issue k # xs) used = (is_id k \<notin> used \<and> fresh_ids xs (insert (is_id k) used))"
| "fresh_ids (Revoke i # xs) used = fresh_ids xs used"

fun secrets :: "key_op list \<Rightarrow> string set" where
  "secrets [] = {}"
| "secrets (Issue k # xs) = insert (is_secret k) (secrets xs)"
| "secrets (Revoke i # xs) = secrets xs"

lemma spec_key_ids: "is_id ` set (spec_key x ks) \<subseteq> is_id ` set ks \<union> (case x of Issue k \<Rightarrow> {is_id k} | Revoke _ \<Rightarrow> {})"
  by (cases x) auto

lemma do_key_refines:
  assumes "ak_keys s = map (stored_key sha256) ks" "distinct (map is_id ks)" "\<forall>k. x = Issue k \<longrightarrow> is_id k \<notin> is_id ` set ks"
  shows "ak_keys (do_key sha256 x s) = map (stored_key sha256) (spec_key x ks) \<and> distinct (map is_id (spec_key x ks))"
proof (cases x)
  case (Issue k)
  then have "map_of (ak_keys s) (is_id k) = None" using assms(1,3) find_None_ids [of "is_id k" ks] by (simp add: map_of_stored_keys)
  then show ?thesis
    using Issue assms by (auto simp: issue_key_def alist_update_new stored_key_def)
next
  case (Revoke i)
  have ids: "map is_id (spec_key x ks) = map is_id ks" unfolding Revoke by simp
  show ?thesis
  proof (cases "find (\<lambda>k. is_id k = i) ks")
    case None
    then have "spec_key x ks = ks" unfolding Revoke by (auto simp: find_None_iff intro!: map_idI)
    then show ?thesis using None assms Revoke by (simp add: revoke_key_def map_of_stored_keys)
  next
    case (Some k)
    then have "ak_keys (do_key sha256 x s) = map (stored_key sha256) (spec_key x ks)"
      using update_stored_key [OF assms(2) Some, of sha256] assms(1) Revoke
      by (simp add: revoke_key_def map_of_stored_keys)
    moreover have "distinct (map is_id (spec_key x ks))" unfolding ids by (rule assms(2))
    ultimately show ?thesis by blast
  qed
qed

lemma do_keys_refine:
  "ak_keys s = map (stored_key sha256) ks \<Longrightarrow> distinct (map is_id ks) \<Longrightarrow> fresh_ids xs used \<Longrightarrow> is_id ` set ks \<subseteq> used
    \<Longrightarrow> ak_keys (do_keys sha256 xs s) = map (stored_key sha256) (fold spec_key xs ks)"
proof (induction xs arbitrary: s ks used)
  case (Cons x xs)
  have "ak_keys (do_key sha256 x s) = map (stored_key sha256) (spec_key x ks) \<and> distinct (map is_id (spec_key x ks))"
    by (rule do_key_refines [OF Cons.prems(1,2)]) (use Cons.prems(3,4) in auto)
  moreover have "fresh_ids xs (used \<union> (case x of Issue k \<Rightarrow> {is_id k} | Revoke _ \<Rightarrow> {}))"
    using Cons.prems(3) by (cases x) auto
  moreover have "is_id ` set (spec_key x ks) \<subseteq> used \<union> (case x of Issue k \<Rightarrow> {is_id k} | Revoke _ \<Rightarrow> {})"
    using spec_key_ids [of x ks] Cons.prems(4) by blast
  ultimately show ?case using Cons.IH by simp
qed simp

lemma secrets_of_spec: "is_secret ` set (fold spec_key xs ks) \<subseteq> is_secret ` set ks \<union> secrets xs"
proof (induction xs arbitrary: ks)
  case (Cons x xs)
  have "is_secret ` set (spec_key x ks) \<subseteq> is_secret ` set ks \<union> secrets [x]" by (cases x) auto
  moreover have "secrets (x # xs) = secrets [x] \<union> secrets xs" by (cases x) auto
  moreover have "fold spec_key (x # xs) ks = fold spec_key xs (spec_key x ks)" by simp
  ultimately show ?case using Cons.IH [of "spec_key x ks"] by (simp only:) blast
qed simp

lemma find_key_stored:
  assumes "digest n sha256" "inj_on sha256 (insert x (is_secret ` set ks))"
  shows "find_key (sha256 x) (map (snd \<circ> stored_key sha256) ks)
    = Inr (case find (\<lambda>k. is_secret k = x \<and> \<not> is_revoked k) ks of Some k \<Rightarrow> public_key k | None \<Rightarrow> Null)"
  using assms(2)
proof (induction ks)
  case (Cons k ks)
  have "inj_on sha256 (insert x (is_secret ` set ks))" using Cons.prems by (rule inj_on_subset) auto
  moreover have "sha256 (is_secret k) = sha256 x \<longleftrightarrow> is_secret k = x" using inj_on_eq_iff [OF Cons.prems, of "is_secret k" x] by simp
  ultimately show ?case
    using Cons.IH timingSafeEqual_digest [OF assms(1)] by (simp add: stored_key_def api_key_record_def public_key_def spread_def)
qed simp

text \<open>C33: Refinement. After any sequence of issues and revocations, a secret authenticates exactly when it is
  the secret of an issued key that has not been revoked since, and then as that key, with the hash
  left out of the answer; otherwise the answer is null. This holds for a digest of fixed length that
  keeps the secrets involved apart, with fresh key ids.\<close>

theorem keys_authenticate_until_revoked:
  assumes "digest n sha256" "fresh_ids xs {}" "inj_on sha256 (insert x (secrets xs))" "x \<noteq> []"
  shows "authenticate_key sha256 (do_keys sha256 xs new_ApiKeyStore) (Str x)
    = Inr (case find (\<lambda>k. is_secret k = x \<and> \<not> is_revoked k) (fold spec_key xs []) of Some k \<Rightarrow> public_key k | None \<Rightarrow> Null)"
proof -
  have "ak_keys (do_keys sha256 xs new_ApiKeyStore) = map (stored_key sha256) (fold spec_key xs [])"
    by (rule do_keys_refine [OF _ _ assms(2)]) (simp_all add: new_ApiKeyStore_def)
  moreover have "inj_on sha256 (insert x (is_secret ` set (fold spec_key xs [])))"
    by (rule inj_on_subset [OF assms(3)]) (use secrets_of_spec [of xs "[]"] in auto)
  ultimately show ?thesis
    using find_key_stored [OF assms(1)] assms(4) by (simp add: authenticate_key_def js_or_def comp_def)
qed

definition demo_digest :: "string \<Rightarrow> string" where
  "demo_digest x = (if x = ''s1'' then ''aa'' else if x = ''s2'' then ''bb'' else ''cc'')"

definition demo_key :: "string \<Rightarrow> string \<Rightarrow> issued" where
  "demo_key i secret = \<lparr>is_id = i, is_secret = secret, is_tenant = Str ''t1'', is_name = Str ''ci'', is_scopes = [], is_at = ''now'', is_revoked = False\<rparr>"

theorem keys_authenticate_until_revoked_witness:
  "authenticate_key demo_digest (do_keys demo_digest [Issue (demo_key ''k1'' ''s1''), Issue (demo_key ''k2'' ''s2''), Revoke ''k1''] new_ApiKeyStore) (Str ''s1'')
     = Inr Null"
proof -
  have "digest 2 demo_digest" by (auto simp: digest_def demo_digest_def ascii_def)
  from keys_authenticate_until_revoked [OF this, of "[Issue (demo_key ''k1'' ''s1''), Issue (demo_key ''k2'' ''s2''), Revoke ''k1'']" "''s1''"]
  show ?thesis by (simp add: demo_key_def demo_digest_def inj_on_def)
qed

section \<open>AuthService\<close>

text \<open>\<open>as_findByToken\<close> is the session repository's method of that name, when it has one.\<close>

record 's auth_service =
  as_users :: "'s repository"
  as_sessions :: "'s repository"
  as_generate :: "('s, jsval) act"
  as_findByToken :: "(jsval \<Rightarrow> ('s, jsval) act) option"

definition createSession :: "'s auth_service \<Rightarrow> string \<Rightarrow> jsval \<Rightarrow> jsval \<Rightarrow> ('s, jsval) act" where
  "createSession au now userId organizationId =
     bnd (rfind (as_users au) ''user'' userId) (\<lambda>user.
       if \<not> truthy user \<or> field user ''status'' \<noteq> Str ''active'' then ret Null
       else bnd (as_generate au) (\<lambda>token.
         if token = Null \<or> token = Undefined then throw null_read_error
         else let session = Obj [(''id'', field token ''id''), (''token'', field token ''value''), (''userId'', userId),
                (''organizationId'', organizationId), (''createdAt'', Str now)]
           in bnd (rsave (as_sessions au) ''session'' (field session ''id'') session) (\<lambda>_. ret session)))"

definition authenticate_session :: "'s auth_service \<Rightarrow> jsval \<Rightarrow> ('s, jsval) act" where
  "authenticate_session au token =
     (case as_findByToken au of
        Some lookup \<Rightarrow> if truthy token then lookup token else ret Null
      | None \<Rightarrow> ret Null)"

text \<open>Only active users get a session: for any other user nothing is generated or saved.\<close>

lemma inactive_users_get_no_session:
  assumes "rfind (as_users au) ''user'' userId s = (Inr user, s)" "field user ''status'' \<noteq> Str ''active''"
  shows "createSession au now userId organizationId s = (Inr Null, s)"
  using assms by (simp add: createSession_def bnd_run')

section \<open>WebhookDelivery\<close>

subsection \<open>Signing and verifying\<close>

text \<open>\<open>hmac\<close> is the hexadecimal HMAC-SHA256, by secret and text.\<close>

definition build_delivery :: "(string \<Rightarrow> string \<Rightarrow> string) \<Rightarrow> jsval \<Rightarrow> jsval \<Rightarrow> jsval \<Rightarrow> string \<Rightarrow> js_error + jsval" where
  "build_delivery hmac eventId eventType payload secret =
     (if \<not> truthy eventId \<or> \<not> truthy eventType \<or> payload = Undefined \<or> secret = []
      then Inl (Error ''eventId, eventType, payload and secret are required'')
      else let body = (case payload of Str s \<Rightarrow> s | _ \<Rightarrow> the (stringify payload)) in
        Inr (Obj [(''eventId'', eventId), (''eventType'', eventType), (''body'', Str body), (''signature'', Str (hmac secret body))]))"

text \<open>A signature that is not a string has no matching length, arrays apart.\<close>

definition verify_delivery :: "(string \<Rightarrow> string \<Rightarrow> string) \<Rightarrow> string \<Rightarrow> jsval \<Rightarrow> string \<Rightarrow> js_error + bool" where
  "verify_delivery hmac body signature secret =
     (let expected = hmac secret body in
      case signature of
        Str sig \<Rightarrow> if sig = [] \<or> length sig \<noteq> length expected then Inr False else timingSafeEqual sig expected
      | _ \<Rightarrow> Inr False)"

text \<open>Round trip. A built delivery carries the payload's text and verifies under the same secret; no other
  signature of that body does. A forged signature is refused, with an exception instead of false
  only when it has the right number of characters but not all of them are ASCII.\<close>

theorem deliveries_verify:
  assumes "digest n (hmac secret)" "0 < n" "build_delivery hmac eventId eventType payload secret = Inr d"
  shows "\<exists>body. field d ''body'' = Str body \<and> (case payload of Str s \<Rightarrow> body = s | _ \<Rightarrow> stringify payload = Some body)
    \<and> verify_delivery hmac body (field d ''signature'') secret = Inr True
    \<and> (\<forall>sig. verify_delivery hmac body (Str sig) secret = Inr True \<longleftrightarrow> Str sig = field d ''signature'')
    \<and> (\<forall>sig. ascii sig \<or> length sig \<noteq> n \<longrightarrow> Str sig \<noteq> field d ''signature'' \<longrightarrow> verify_delivery hmac body (Str sig) secret = Inr False)"
proof -
  obtain body where body: "field d ''body'' = Str body" "field d ''signature'' = Str (hmac secret body)"
    "body = (case payload of Str s \<Rightarrow> s | _ \<Rightarrow> the (stringify payload))" "payload \<noteq> Undefined"
    using assms(3) by (auto simp: build_delivery_def Let_def split: if_splits)
  have payload: "case payload of Str s \<Rightarrow> body = s | _ \<Rightarrow> stringify payload = Some body"
    using body(3,4) by (cases payload) simp_all
  obtain sg where sg: "hmac secret body = sg" "ascii sg" "length sg = n" "utf8_length sg = n" "sg \<noteq> []"
    using assms(1,2) by (force simp: digest_def utf8_length_ascii)
  have verify: "verify_delivery hmac body (Str x) secret =
      (if length x \<noteq> n then Inr False else timingSafeEqual x sg)" for x
    using sg assms(2) by (auto simp: verify_delivery_def Let_def)
  show ?thesis
    using body(1,2) payload sg by (intro exI [of _ body]) (auto simp: verify timingSafeEqual_def utf8_length_ascii)
qed

theorem deliveries_verify_witness:
  "verify_delivery (\<lambda>secret body. ''ab'') ''ping'' (Str ''ab'') ''key'' = Inr True"
proof -
  have "digest 2 (\<lambda>body. ''ab'')" by (simp add: digest_def ascii_def)
  from deliveries_verify [of 2 "\<lambda>secret body. ''ab''" "''key''" "Str ''e''" "Str ''t''" "Str ''ping''", OF this]
  show ?thesis by (auto simp: build_delivery_def Let_def)
qed

end
