(* ===== verification/Automation.thy ===== *)
theory Automation
  imports JsObject PostgresRepository
begin

text \<open>
  \<open>AutomationEngine\<close> (\<^verbatim>\<open>modules/automation/engine.js\<close>), \<open>AutomationRuleEngine\<close>
  (\<^verbatim>\<open>modules/automation/rules.js\<close>), the integration registry (\<^verbatim>\<open>modules/integrations/registry.js\<close>) and
  the inbound webhook handler built on the engine (\<^verbatim>\<open>api/v1/webhooks.js\<close>).
\<close>

section \<open>AutomationEngine\<close>

type_synonym 's actions = "(string \<times> (jsval \<Rightarrow> ('s, jsval) act)) list"

text \<open>
  \<^verbatim>\<open>typeof this.actions[name] === 'function'\<close> also holds for the methods an object inherits; called as
  \<^verbatim>\<open>actions.name(argument)\<close> with an object argument they return the following. (\<^verbatim>\<open>valueOf\<close> returns the
  table of functions itself, which carries no data.)
\<close>

definition inherited_call :: "string \<Rightarrow> jsval \<Rightarrow> (js_error + jsval) option" where
  "inherited_call name arg =
     (if name = ''constructor'' then Some (Inr arg)
      else if name \<in> {''toString'', ''toLocaleString''} then Some (Inr (Str ''[object Object]''))
      else if name = ''valueOf'' then Some (Inr (Obj []))
      else if name \<in> {''hasOwnProperty'', ''isPrototypeOf'', ''propertyIsEnumerable''} then Some (Inr (Boolean False))
      else if name \<in> {''__lookupGetter__'', ''__lookupSetter__''} then Some (Inr Undefined)
      else if name \<in> {''__defineGetter__'', ''__defineSetter__''} then Some (Inl (TypeError ''Expecting function''))
      else None)"

definition call_action :: "'s actions \<Rightarrow> jsval \<Rightarrow> jsval \<Rightarrow> ('s, jsval) act" where
  "call_action actions action arg =
     (case map_of actions (to_str action) of
        Some f \<Rightarrow> f arg
      | None \<Rightarrow> (case inherited_call (to_str action) arg of
            Some (Inr v) \<Rightarrow> ret v
          | Some (Inl e) \<Rightarrow> throw e
          | None \<Rightarrow> throw (Error (''unknown automation action: '' @ to_str action))))"

definition run_step :: "'s actions \<Rightarrow> jsval \<Rightarrow> jsval \<Rightarrow> jsval \<Rightarrow> ('s, jsval) act" where
  "run_step actions tenantId context step =
     (let action = field step ''action'' in
      if \<not> truthy action then throw (Error (''unknown automation action: '' @ to_str action))
      else call_action actions action
        (Obj [(''tenantId'', tenantId), (''context'', context), (''input'', js_coalesce (field step ''input'') (Obj []))]))"

text \<open>\<^verbatim>\<open>for (const step of steps)\<close>: arrays and strings are iterable, undefined is replaced by its default.\<close>

definition iterate :: "jsval \<Rightarrow> js_error + jsval list" where
  "iterate v = (case v of
       Arr xs \<Rightarrow> Inr xs
     | Str s \<Rightarrow> Inr (map (\<lambda>c. Str [c]) s)
     | _ \<Rightarrow> Inl (TypeError ''steps is not iterable''))"

definition run_automation :: "'s actions \<Rightarrow> jsval \<Rightarrow> jsval \<Rightarrow> jsval \<Rightarrow> ('s, jsval) act" where
  "run_automation actions tenantId steps context =
     (if \<not> truthy tenantId then throw (TypeError ''tenantId is required'')
      else case iterate (default_to steps (Arr [])) of
        Inl e \<Rightarrow> throw e
      | Inr xs \<Rightarrow>
          bnd (for_each (run_step actions tenantId (default_to context (Obj []))) xs) (\<lambda>results.
          ret (Obj [(''tenantId'', tenantId), (''results'', Arr results)])))"

text \<open>An invariant all actions keep is kept by every run.\<close>

lemma keeps_run_automation:
  assumes "\<And>name f arg. (name, f) \<in> set actions \<Longrightarrow> keeps P (f arg)"
  shows "keeps P (run_automation actions tenantId steps context)"
proof -
  have "keeps P (call_action actions action arg)" for action arg
    unfolding call_action_def using assms by (auto intro!: valid_intros dest: map_of_SomeD split: option.split sum.split)
  then show ?thesis
    unfolding run_automation_def run_step_def Let_def by (auto intro!: valid_intros split: sum.split)
qed

section \<open>AutomationRuleEngine\<close>

record automation_rule =
  rl_record :: jsval \<comment> \<open>the data fields: id, tenantId, enabled, actions\<close>
  rl_when :: "jsval \<Rightarrow> js_error + jsval"

definition applies :: "jsval \<Rightarrow> automation_rule \<Rightarrow> bool" where
  "applies tenantId r \<longleftrightarrow> strict_eq (field (rl_record r) ''tenantId'') tenantId \<and> field (rl_record r) ''enabled'' \<noteq> Boolean False"

fun evaluate_rules :: "automation_rule list \<Rightarrow> jsval \<Rightarrow> jsval \<Rightarrow> js_error + automation_rule list" where
  "evaluate_rules [] tenantId event = Inr []"
| "evaluate_rules (r # rs) tenantId event =
     (if \<not> applies tenantId r then evaluate_rules rs tenantId event
      else case rl_when r event of
        Inl e \<Rightarrow> Inl e
      | Inr v \<Rightarrow> (case evaluate_rules rs tenantId event of
            Inl e \<Rightarrow> Inl e
          | Inr xs \<Rightarrow> Inr (if truthy v then r # xs else xs)))"

definition evaluate_event :: "automation_rule list \<Rightarrow> jsval \<Rightarrow> jsval \<Rightarrow> js_error + jsval list" where
  "evaluate_event rules tenantId event =
     map_sum id (map (\<lambda>r. Obj [(''id'', field (rl_record r) ''id''), (''actions'', field (rl_record r) ''actions'')]))
       (evaluate_rules rules tenantId event)"

text \<open>A rule of another tenant, or a disabled one, is never selected and its condition never evaluated.\<close>

lemma rules_of_the_tenant:
  "evaluate_rules rules tenantId event = Inr xs \<Longrightarrow>
    set xs = {r \<in> set rules. applies tenantId r \<and> (\<exists>v. rl_when r event = Inr v \<and> truthy v)}"
  by (induction rules arbitrary: xs) (auto split: if_splits sum.splits)

section \<open>IntegrationRegistry\<close>

record 's adapter =
  ad_name :: jsval
  ad_version :: jsval
  ad_execute :: "jsval \<Rightarrow> ('s, jsval) act"
  ad_health :: "('s, jsval) act option"
  ad_actions :: "jsval list"
  ad_triggers :: "jsval list"

type_synonym 's registry = "(jsval \<times> 's adapter) list"

text \<open>\<^verbatim>\<open>/^\d+\.\d+\.\d+$/\<close>\<close>

definition is_digit :: "char \<Rightarrow> bool" where
  "is_digit c \<longleftrightarrow> 48 \<le> (of_char c :: nat) \<and> (of_char c :: nat) \<le> 57"

definition dotted_rest :: "string \<Rightarrow> string option" where
  "dotted_rest s = (case dropWhile is_digit s of
       c # cs \<Rightarrow> if c = CHR ''.'' \<and> takeWhile is_digit s \<noteq> [] then Some cs else None
     | [] \<Rightarrow> None)"

definition version_ok :: "string \<Rightarrow> bool" where
  "version_ok s = (case dotted_rest s of
       None \<Rightarrow> False
     | Some s' \<Rightarrow> (case dotted_rest s' of None \<Rightarrow> False | Some s'' \<Rightarrow> s'' \<noteq> [] \<and> list_all is_digit s''))"

definition register_adapter ::
  "jsval \<Rightarrow> jsval \<Rightarrow> (jsval \<Rightarrow> ('s, jsval) act) option \<Rightarrow> ('s, jsval) act option \<Rightarrow> bool \<Rightarrow> jsval list \<Rightarrow> jsval list
    \<Rightarrow> 's registry \<Rightarrow> (js_error + unit) \<times> 's registry" where
  "register_adapter name version executor health valid_authenticate actions triggers reg =
     (case executor of
        None \<Rightarrow> (Inl (Error ''name and execute are required''), reg)
      | Some x \<Rightarrow>
          if \<not> truthy name then (Inl (Error ''name and execute are required''), reg)
          else if \<not> valid_authenticate then (Inl (Error ''INVALID_AUTHENTICATE''), reg)
          else if \<not> version_ok (to_str (default_to version (Str ''1.0.0''))) then (Inl (Error ''INVALID_VERSION''), reg)
          else if map_of reg name \<noteq> None then (Inl (Error ''INTEGRATION_ALREADY_REGISTERED''), reg)
          else (Inr (), reg @ [(name, \<lparr>ad_name = name, ad_version = default_to version (Str ''1.0.0''), ad_execute = x,
                 ad_health = health, ad_actions = actions, ad_triggers = triggers\<rparr>)]))"

definition list_adapters :: "'s registry \<Rightarrow> (jsval \<times> jsval) list" where
  "list_adapters reg = map (\<lambda>(_, a). (ad_name a, ad_version a)) reg"

definition invoke_adapter :: "'s registry \<Rightarrow> jsval \<Rightarrow> jsval \<Rightarrow> jsval \<Rightarrow> jsval \<Rightarrow> ('s, jsval) act" where
  "invoke_adapter reg name action payload context =
     (if context = Null then throw null_read_error
      else if \<not> truthy (field context ''tenantId'') then throw (Error ''TENANT_CONTEXT_REQUIRED'')
      else case map_of reg name of
        None \<Rightarrow> throw (Error ''INTEGRATION_NOT_FOUND'')
      | Some adapter \<Rightarrow>
          if ad_actions adapter \<noteq> [] \<and> \<not> has (ad_actions adapter) action then throw (Error ''ACTION_NOT_SUPPORTED'')
          else ad_execute adapter (Obj [(''action'', action), (''payload'', payload),
                 (''context'', spread context [(''tenantId'', field context ''tenantId'')])]))"

definition adapter_health :: "'s registry \<Rightarrow> jsval \<Rightarrow> ('s, jsval) act" where
  "adapter_health reg name =
     (case map_of reg name of
        None \<Rightarrow> throw (Error ''INTEGRATION_NOT_FOUND'')
      | Some adapter \<Rightarrow> (case ad_health adapter of Some h \<Rightarrow> h | None \<Rightarrow> ret (Obj [(''status'', Str ''unknown'')])))"

text \<open>An adapter stays registered as it is: later registrations never replace it.\<close>

lemma registrations_are_permanent:
  "map_of reg name = Some a \<Longrightarrow>
    map_of (snd (register_adapter name' version executor health valid_authenticate actions triggers reg)) name = Some a"
  by (auto simp: register_adapter_def map_add_def split: option.split)

end
