(* ===== verification/Webhooks.thy ===== *)
theory Webhooks
  imports Automation
begin

text \<open>
  The inbound webhook handler (\<^verbatim>\<open>api/v1/webhooks.js\<close>): a delivery names its tenant, is recognized by
  its event id, runs the tenant's matching workflows through the automation engine and is recorded, so
  that a repeated delivery is answered from the record. The repository is Postgres's; SHA-256 in
  hexadecimal, \<^verbatim>\<open>JSON.parse\<close> and random UUIDs are parameters. Answers are a status and a body.
\<close>

section \<open>The handler\<close>

type_synonym response = "int \<times> jsval"

definition error_body :: "string \<Rightarrow> jsval \<Rightarrow> jsval" where
  "error_body code message = Obj [(''error'', Obj [(''code'', Str code), (''message'', message)])]"

text \<open>\<^verbatim>\<open>readBody\<close>: a parsed body, or the chunks of the stream, at most 200000 characters.\<close>

fun read_chunks :: "string \<Rightarrow> string list \<Rightarrow> string option" where
  "read_chunks raw [] = Some raw"
| "read_chunks raw (chunk # chunks) =
     (if 200000 < length (raw @ chunk) then None else read_chunks (raw @ chunk) chunks)"

definition readBody :: "(string \<Rightarrow> jsval option) \<Rightarrow> jsval \<Rightarrow> string list \<Rightarrow> js_error + jsval" where
  "readBody json_parse body chunks =
     (if is_ref body then Inr body
      else case read_chunks [] chunks of
        None \<Rightarrow> Inl (Error ''PAYLOAD_TOO_LARGE'')
      | Some raw \<Rightarrow>
          if raw = [] then Inr (Obj [])
          else (case json_parse raw of Some v \<Rightarrow> Inr v | None \<Rightarrow> Inl (Error ''INVALID_JSON'')))"

record webhook_env =
  wh_sha256 :: "string \<Rightarrow> string"
  wh_parse :: "string \<Rightarrow> jsval option"
  wh_uuid :: "pg_db \<Rightarrow> string"
  wh_now :: "pg_db \<Rightarrow> string"

record webhook_request =
  rq_method :: string
  rq_headers :: jsval
  rq_body :: jsval
  rq_chunks :: "string list"

text \<open>\<^verbatim>\<open>store.repository.save(id, type, crypto.randomUUID(), { ... })\<close>\<close>

definition saving_action :: "webhook_env \<Rightarrow> string \<Rightarrow> jsval js_map \<Rightarrow> jsval \<Rightarrow> (pg_db, jsval) act" where
  "saving_action env type extra arg = (\<lambda>s.
     pg_save (field arg ''tenantId'') type (Str (wh_uuid env s))
       (Obj ([(''tenantId'', field arg ''tenantId'')] @ extra @ [(''input'', field arg ''input''), (''createdAt'', Str (wh_now env s))])) s)"

definition webhook_actions :: "webhook_env \<Rightarrow> pg_db actions" where
  "webhook_actions env =
     [(''create_task'', saving_action env ''task'' [(''type'', Str ''task''), (''status'', Str ''open'')]),
      (''notify_sales'', saving_action env ''sales_notification'' [(''status'', Str ''queued'')]),
      (''ai_followup'', saving_action env ''ai_followup'' [(''status'', Str ''queued'')])]"

definition matches_event :: "jsval \<Rightarrow> jsval \<Rightarrow> js_error + bool" where
  "matches_event eventType workflow =
     (if nullish workflow then Inl null_read_error
      else let trigger = field workflow ''trigger'' in
        Inr (field workflow ''enabled'' \<noteq> Boolean False
          \<and> (strict_eq (field trigger ''type'') eventType \<or> strict_eq (field trigger ''event'') eventType
             \<or> field trigger ''type'' = Str ''webhook'')))"

definition event_type :: "jsval \<Rightarrow> jsval \<Rightarrow> js_error + jsval" where
  "event_type header payload =
     (if truthy header then Inr header
      else if nullish payload then Inl null_read_error
      else Inr (js_or (field payload ''event'') (Str ''webhook.received'')))"

definition event_id :: "webhook_env \<Rightarrow> jsval \<Rightarrow> jsval \<Rightarrow> jsval" where
  "event_id env header payload =
     (if truthy header then header
      else Str (take 40 (wh_sha256 env (case stringify payload of Some text \<Rightarrow> text | None \<Rightarrow> []))))"

definition execution_id :: "webhook_env \<Rightarrow> jsval \<Rightarrow> jsval \<Rightarrow> string" where
  "execution_id env tenantId eventId = take 40 (wh_sha256 env (to_str tenantId @ '':webhook:'' @ to_str eventId))"

definition run_matched :: "webhook_env \<Rightarrow> jsval \<Rightarrow> jsval \<Rightarrow> jsval \<Rightarrow> jsval \<Rightarrow> jsval \<Rightarrow> (pg_db, jsval) act" where
  "run_matched env tenantId eventType eventId payload workflow =
     bnd (run_automation (webhook_actions env) tenantId (field workflow ''steps'')
       (Obj [(''eventType'', eventType), (''eventId'', eventId), (''payload'', payload), (''workflowId'', field workflow ''id'')])) (\<lambda>result.
     ret (Obj [(''workflowId'', field workflow ''id''), (''result'', result)]))"

text \<open>The part of the handler inside its try block, once the payload is read.\<close>

definition process_delivery :: "webhook_env \<Rightarrow> jsval \<Rightarrow> jsval \<Rightarrow> jsval \<Rightarrow> jsval \<Rightarrow> (pg_db, response) act" where
  "process_delivery env tenantId eventType eventId payload =
     bnd (pg_find tenantId ''webhook_execution'' (Str (execution_id env tenantId eventId))) (\<lambda>existing.
       if truthy existing
       then ret (200, Obj [(''status'', Str ''accepted''), (''replayed'', Boolean True), (''execution'', existing)])
       else bnd (pg_all tenantId ''workflow'') (\<lambda>workflows.
         case filter_or_throw (matches_event eventType) workflows of
           Inl e \<Rightarrow> throw e
         | Inr matched \<Rightarrow>
             bnd (for_each (run_matched env tenantId eventType eventId payload) matched) (\<lambda>results s.
               let execution = Obj [(''id'', Str (execution_id env tenantId eventId)), (''tenantId'', tenantId), (''eventType'', eventType),
                     (''eventId'', eventId), (''matchedWorkflows'', Arr (map (\<lambda>w. field w ''id'') matched)), (''results'', Arr results),
                     (''createdAt'', Str (wh_now env s))]
               in bnd (pg_save tenantId ''webhook_execution'' (Str (execution_id env tenantId eventId)) execution) (\<lambda>_.
                  ret (202, Obj [(''status'', Str ''accepted''), (''execution'', execution)])) s)))"

definition failure_response :: "js_error \<Rightarrow> (pg_db, response) act" where
  "failure_response error =
     (case message_of error of
        Inl e \<Rightarrow> throw e
      | Inr m \<Rightarrow>
          if m = Str ''INVALID_JSON'' then ret (400, error_body ''INVALID_JSON'' m)
          else if m = Str ''PAYLOAD_TOO_LARGE'' then ret (413, error_body ''PAYLOAD_TOO_LARGE'' m)
          else ret (422, error_body ''WEBHOOK_FAILED'' (js_or m (Str ''Webhook execution failed''))))"

definition handle_webhook :: "webhook_env \<Rightarrow> bool \<Rightarrow> webhook_request \<Rightarrow> (pg_db, response) act" where
  "handle_webhook env configured rq =
     (let tenantId = field (rq_headers rq) ''x-tenant-id'' in
      if rq_method rq \<noteq> ''POST'' then ret (405, error_body ''METHOD_NOT_ALLOWED'' (Str ''Use POST for webhook events''))
      else if \<not> truthy tenantId \<or> \<not> is_str tenantId \<or> 128 < length (to_str tenantId)
      then ret (401, error_body ''TENANT_REQUIRED'' (Str ''x-tenant-id is required''))
      else try_catch
        (if \<not> configured then ret (503, error_body ''DATABASE_NOT_READY'' (Str ''Production database is required''))
         else case readBody (wh_parse env) (rq_body rq) (rq_chunks rq) of
           Inl e \<Rightarrow> throw e
         | Inr payload \<Rightarrow>
             (case event_type (field (rq_headers rq) ''x-bos-event'') payload of
                Inl e \<Rightarrow> throw e
              | Inr eventType \<Rightarrow>
                  process_delivery env tenantId eventType (event_id env (field (rq_headers rq) ''x-event-id'') payload) payload))
        failure_response)"

section \<open>Every answer keeps the database well formed\<close>

lemma keeps_reads [valid_intros]: "keeps pg_inv (pg_find n t i)" "keeps pg_inv (pg_all n t)"
  by (simp_all add: keeps_def pg_find_def pg_all_def split: option.split)

lemma keeps_run_matched [valid_intros]: "keeps pg_inv (run_matched env tenantId eventType eventId payload workflow)"
proof -
  have "keeps pg_inv (saving_action env type extra arg)" for type extra arg
    unfolding saving_action_def keeps_def using keeps_pg_save by (simp add: keeps_def)
  then show ?thesis
    unfolding run_matched_def webhook_actions_def by (auto intro!: keeps_bnd keeps_ret keeps_run_automation)
qed

lemma keeps_process_delivery: "keeps pg_inv (process_delivery env tenantId eventType eventId payload)"
proof -
  have "keeps pg_inv (\<lambda>s. bnd (pg_save n t i (v s)) (\<lambda>_. ret (w s)) s)" for n t i v w
    by (rule keepsI) (rule keepsD [OF keeps_bnd [OF keeps_pg_save keeps_ret]])
  then show ?thesis
    unfolding process_delivery_def Let_def by (auto intro!: valid_intros split: sum.split)
qed

lemma keeps_failure_response: "keeps pg_inv (failure_response error)"
  unfolding failure_response_def by (auto intro!: valid_intros split: sum.split)

lemma keeps_handle_webhook: "keeps pg_inv (handle_webhook env configured rq)"
  unfolding handle_webhook_def Let_def
  by (intro valid_intros keeps_failure_response) (auto intro!: valid_intros keeps_process_delivery split: sum.split)

section \<open>Repeated deliveries\<close>

definition replayed_body :: "jsval \<Rightarrow> jsval" where
  "replayed_body execution = Obj [(''status'', Str ''accepted''), (''replayed'', Boolean True), (''execution'', execution)]"

lemma process_delivery_stores:
  assumes "pg_inv s" "process_delivery env (Str n) eventType eventId payload s = (Inr (202, body), s1)"
  obtains s' where "pg_inv s'" "n \<noteq> []" "is_obj (to_json (field body ''execution''))" "execution_id env (Str n) eventId \<noteq> []"
    "s1 = pg_put n ''webhook_execution'' (execution_id env (Str n) eventId) (to_json (field body ''execution'')) s'"
    "is_json (to_json (field body ''execution''))"
proof -
  let ?id = "execution_id env (Str n) eventId"
  obtain matched results s' execution r where
    run: "for_each (run_matched env (Str n) eventType eventId payload) matched s = (Inr results, s')"
    and save: "pg_save (Str n) ''webhook_execution'' (Str ?id) execution s' = (Inr r, s1)"
    and body: "body = Obj [(''status'', Str ''accepted''), (''execution'', execution)]" "is_obj (to_json execution)"
    using assms(2) unfolding process_delivery_def
    by (auto simp: Let_def bnd_run' pg_find_def pg_all_def split: if_splits option.splits sum.splits prod.splits)
  have "keeps pg_inv (for_each (run_matched env (Str n) eventType eventId payload) matched)" by (intro valid_intros)
  from keepsD [OF this assms(1)] have s': "pg_inv s'" by (simp add: run)
  show thesis using that [OF s'] pg_save_Inr [OF s' save] body by auto
qed

text \<open>A record that no save overwrites: the execution recorded for an event.\<close>

definition recorded :: "string \<Rightarrow> string \<Rightarrow> jsval \<Rightarrow> pg_db \<Rightarrow> bool" where
  "recorded n i x s \<longleftrightarrow> pg_inv s \<and> n \<noteq> [] \<and> i \<noteq> [] \<and> is_obj x \<and> pg_look s n ''webhook_execution'' i = Some x"

lemma recorded_find: "recorded n i x s \<Longrightarrow> pg_find (Str n) ''webhook_execution'' (Str i) s = (Inr x, s)"
  using pg.tfind_law [of s n "''webhook_execution''" i] by (auto simp: recorded_def pg_repository_def)

lemma keeps_recorded_save:
  assumes "t \<noteq> ''webhook_execution'' \<or> to_str n' \<noteq> n \<or> to_str i' \<noteq> i"
  shows "keeps (recorded n i x) (pg_save n' t i' v)"
proof (rule keepsI)
  fix s assume s: "recorded n i x s"
  obtain r s' where save: "pg_save n' t i' v s = (r, s')" by fastforce
  have "recorded n i x s'"
  proof (cases r)
    case (Inl e)
    then show ?thesis using s save by (auto simp: pg_save_def Let_def split: option.splits if_splits)
  next
    case (Inr u)
    have inv: "pg_inv s" using s by (simp add: recorded_def)
    note saved = pg_save_Inr [OF inv save [unfolded Inr]]
    show ?thesis using s assms saved(4) unfolding recorded_def saved(3) by (auto simp: pg_look_def pg_put_def content_upsert row_key_def)
  qed
  then show "recorded n i x (snd (pg_save n' t i' v s))" by (simp add: save)
qed

lemma keeps_recorded_delete:
  assumes "t \<noteq> ''webhook_execution''"
  shows "keeps (recorded n i x) (pg_delete n' t i')"
proof (rule keepsI)
  fix s assume s: "recorded n i x s"
  have "pg_content (filter (\<lambda>r. row_key r \<noteq> k) rs) k' = pg_content rs k'" if "k' \<noteq> k" for rs k k'
    using that by (induction rs) (auto simp: pg_content_def)
  then show "recorded n i x (snd (pg_delete n' t i' s))" using s assms
    by (auto simp: recorded_def pg_delete_def pg_look_def pg_inv_def sql_delete_def Let_def distinct_map_filter split: option.split)
qed

lemma keeps_recorded_delivery: "keeps (recorded n i x) (process_delivery env (Str m) eventType eventId payload)"
proof (cases "m = n \<and> execution_id env (Str m) eventId = i")
  case True
  then show ?thesis using recorded_find [of n i x] recorded_def by (intro keepsI) (auto simp: process_delivery_def bnd_run')
next
  case False
  have "keeps (recorded n i x) (saving_action env type extra arg)" if "type \<noteq> ''webhook_execution''" for type extra arg
    unfolding saving_action_def by (rule keepsI) (rule keepsD [OF keeps_recorded_save], use that in simp_all)
  then have run: "keeps (recorded n i x) (run_matched env (Str m) eventType eventId payload w)" for w
    unfolding run_matched_def webhook_actions_def by (auto intro!: keeps_bnd keeps_ret keeps_run_automation)
  have save: "keeps (recorded n i x) (\<lambda>s. bnd (pg_save (Str m) ''webhook_execution'' (Str (execution_id env (Str m) eventId)) (v s)) (\<lambda>_. ret (w s)) s)" for v w
    by (rule keepsI) (rule keepsD [OF keeps_bnd [OF keeps_recorded_save keeps_ret]], use False in auto)
  have reads: "keeps (recorded n i x) (pg_find a b c)" "keeps (recorded n i x) (pg_all a b)" for a b c
    by (simp_all add: keeps_def pg_find_def pg_all_def split: option.split)
  show ?thesis unfolding process_delivery_def Let_def by (auto intro!: valid_intros run save reads split: sum.split)
qed

lemma keeps_recorded_webhook: "keeps (recorded n i x) (handle_webhook env configured rq)"
proof -
  have fail: "keeps (recorded n i x) (failure_response e)" for e
    unfolding failure_response_def by (auto intro!: valid_intros split: sum.split)
  show ?thesis
  proof (cases "field (rq_headers rq) ''x-tenant-id''")
    case (Str m)
    show ?thesis unfolding handle_webhook_def Let_def Str by (intro valid_intros fail) (auto intro!: valid_intros keeps_recorded_delivery split: sum.split)
  qed (simp_all add: handle_webhook_def Let_def keeps_ret)
qed

text \<open>What may happen between two deliveries: deliveries of any tenant, and records of other types saved and deleted.\<close>

datatype hook_op =
    Deliver bool webhook_request
  | Save_record jsval string jsval jsval
  | Delete_record jsval string jsval

fun do_hook :: "webhook_env \<Rightarrow> hook_op \<Rightarrow> pg_db \<Rightarrow> pg_db" where
  "do_hook env (Deliver configured rq) s = snd (handle_webhook env configured rq s)"
| "do_hook env (Save_record n t i v) s = snd (pg_save n t i v s)"
| "do_hook env (Delete_record n t i) s = snd (pg_delete n t i s)"

fun leaves_executions :: "hook_op \<Rightarrow> bool" where
  "leaves_executions (Deliver configured rq) \<longleftrightarrow> True"
| "leaves_executions (Save_record n t i v) \<longleftrightarrow> t \<noteq> ''webhook_execution''"
| "leaves_executions (Delete_record n t i) \<longleftrightarrow> t \<noteq> ''webhook_execution''"

definition hook_history :: "webhook_env \<Rightarrow> hook_op list \<Rightarrow> pg_db \<Rightarrow> pg_db" where
  "hook_history env ops = fold (do_hook env) ops"

lemma recorded_history:
  assumes "recorded n i x s" "\<forall>op \<in> set ops. leaves_executions op"
  shows "recorded n i x (hook_history env ops s)"
proof -
  have "recorded n i x (do_hook env op t)" if "recorded n i x t" "leaves_executions op" for op t
    using that keepsD [OF keeps_recorded_webhook that(1)] keepsD [OF keeps_recorded_save that(1)] keepsD [OF keeps_recorded_delete that(1)] by (cases op) auto
  then show ?thesis using assms unfolding hook_history_def by (induction ops arbitrary: s) auto
qed

text \<open>C26: Safety. An event is processed at most once. When a delivery has been accepted and processed (answered
  202), then after any history of deliveries of any tenants and events, processed, replayed or
  failed, and of saved and deleted records of other types, a further delivery of that tenant with the
  same event id, if its body can be read and is not null, is answered with the execution recorded
  then, whatever its event type and the rest of its payload, and changes nothing, so no workflow
  step runs again for it. (Nothing in the program deletes the record of a webhook execution.)\<close>

theorem redelivered_event_is_not_processed_again:
  assumes "pg_inv s" "handle_webhook env True rq s = (Inr (202, body), s1)"
    and "\<forall>op \<in> set ops. leaves_executions op" "s2 = hook_history env ops s1"
    and "rq_method rq' = ''POST''" "field (rq_headers rq') ''x-tenant-id'' = field (rq_headers rq) ''x-tenant-id''"
    and "readBody (wh_parse env) (rq_body rq) (rq_chunks rq) = Inr payload" "readBody (wh_parse env) (rq_body rq') (rq_chunks rq') = Inr payload'"
    and "\<not> nullish payload'"
    and "event_id env (field (rq_headers rq') ''x-event-id'') payload' = event_id env (field (rq_headers rq) ''x-event-id'') payload"
  shows "handle_webhook env True rq' s2 = (Inr (200, replayed_body (to_json (field body ''execution''))), s2)"
proof -
  let ?id = "event_id env (field (rq_headers rq) ''x-event-id'') payload" and ?x = "to_json (field body ''execution'')"
  obtain n where n: "field (rq_headers rq) ''x-tenant-id'' = Str n" "n \<noteq> []" "length n \<le> 128" "rq_method rq = ''POST''"
    using assms(2) by (cases "field (rq_headers rq) ''x-tenant-id''") (auto simp: handle_webhook_def Let_def split: if_splits)
  have fail: "failure_response e t \<noteq> (Inr (202, b), t')" for e t b t'
    by (auto simp: failure_response_def split: sum.splits if_splits)
  obtain eventType where "process_delivery env (Str n) eventType ?id payload s = (Inr (202, body), s1)"
    using assms(2,7) n fail
    by (auto simp: handle_webhook_def Let_def try_catch_def split: sum.splits prod.splits if_splits)
  then obtain s' where s': "pg_inv s'" "is_obj ?x" "execution_id env (Str n) ?id \<noteq> []"
    "s1 = pg_put n ''webhook_execution'' (execution_id env (Str n) ?id) ?x s'" "is_json ?x"
    by (rule process_delivery_stores [OF assms(1)])
  have ty: "n \<noteq> [] \<and> ''webhook_execution'' \<noteq> ([] :: string)" using n(2) by simp
  have "recorded n (execution_id env (Str n) ?id) ?x s1"
    unfolding recorded_def s'(4) using pg.inv_tput [OF s'(1) ty s'(3,5)] pg.look_tput [OF s'(1) ty ty s'(3)] s'(2,3) n(2) by simp
  then have "recorded n (execution_id env (Str n) ?id) ?x s2" unfolding assms(4) using assms(3) by (rule recorded_history)
  then have "process_delivery env (Str n) t ?id p s2 = (Inr (200, replayed_body ?x), s2)" for t p
    using recorded_find s'(2) by (simp add: process_delivery_def bnd_run' replayed_body_def)
  moreover obtain t where "event_type (field (rq_headers rq') ''x-bos-event'') payload' = Inr t"
    using assms(9) by (cases "event_type (field (rq_headers rq') ''x-bos-event'') payload'") (auto simp: event_type_def split: if_splits)
  ultimately show ?thesis
    using assms(5,6,8,10) n by (simp add: handle_webhook_def Let_def try_catch_def)
qed

text \<open>A tenant with one workflow of one step, and a delivery that triggers it.\<close>

definition demo_env :: webhook_env where
  "demo_env = \<lparr>wh_sha256 = (\<lambda>x. ''0a''), wh_parse = (\<lambda>_. None), wh_uuid = (\<lambda>_. ''u1''), wh_now = (\<lambda>_. ''2024-01-01'')\<rparr>"

definition demo_hooks :: pg_db where
  "demo_hooks = \<lparr>bos_records = [\<lparr>row_tenant = ''t1'', row_type = ''workflow'', row_id = ''w1'',
     row_value = Obj [(''id'', Str ''w1''), (''trigger'', Obj [(''type'', Str ''webhook'')]), (''steps'', Arr [Obj [(''action'', Str ''create_task'')]])],
     row_created = 0, row_updated = 0\<rparr>], pg_now = 1\<rparr>"

definition demo_delivery :: webhook_request where
  "demo_delivery = \<lparr>rq_method = ''POST'', rq_headers = Obj [(''x-tenant-id'', Str ''t1''), (''x-event-id'', Str ''e1'')],
     rq_body = Obj [(''event'', Str ''order.paid'')], rq_chunks = []\<rparr>"

definition demo_between :: "hook_op list" where
  "demo_between = [Deliver True (demo_delivery\<lparr>rq_headers := Obj [(''x-tenant-id'', Str ''t2''), (''x-event-id'', Str ''e1'')]\<rparr>),
     Save_record (Str ''t1'') ''workflow'' (Str ''w1'') (Obj [(''trigger'', Null)]), Deliver False demo_delivery]"

theorem redelivered_event_is_not_processed_again_witness:
  "\<exists>body s1. handle_webhook demo_env True demo_delivery demo_hooks = (Inr (202, body), s1)
     \<and> handle_webhook demo_env True demo_delivery (hook_history demo_env demo_between s1)
       = (Inr (200, replayed_body (to_json (field body ''execution''))), hook_history demo_env demo_between s1)"
proof -
  have "case handle_webhook demo_env True demo_delivery demo_hooks of (Inr (status, body), s1) \<Rightarrow> status = 202 | (Inl e, s1) \<Rightarrow> False"
    by code_simp
  then obtain body s1 where first: "handle_webhook demo_env True demo_delivery demo_hooks = (Inr (202, body), s1)"
    by (auto split: prod.splits sum.splits)
  have inv: "pg_inv demo_hooks" by (simp add: pg_inv_def demo_hooks_def)
  have "\<forall>op \<in> set demo_between. leaves_executions op" by (simp add: demo_between_def)
  from redelivered_event_is_not_processed_again [OF inv first this refl, of demo_delivery] first show ?thesis
    by (auto simp: demo_delivery_def readBody_def nullish_def)
qed

text \<open>
  The limit of this: an event is recorded only once all its workflows have run. When a step fails the
  delivery is answered with 422, what the steps before it stored remains, and the sender's next
  attempt runs them again.
\<close>

definition failing_hooks :: pg_db where
  "failing_hooks = \<lparr>bos_records = [\<lparr>row_tenant = ''t1'', row_type = ''workflow'', row_id = ''w1'',
     row_value = Obj [(''id'', Str ''w1''), (''trigger'', Obj [(''type'', Str ''webhook'')]),
       (''steps'', Arr [Obj [(''action'', Str ''create_task'')], Obj [(''action'', Str ''nope'')]])],
     row_created = 0, row_updated = 0\<rparr>], pg_now = 1\<rparr>"

lemma failed_delivery_runs_again:
  "let env = demo_env\<lparr>wh_uuid := \<lambda>s. nat_str (length (bos_records s))\<rparr>;
       s1 = snd (handle_webhook env True demo_delivery failing_hooks);
       (r, s2) = handle_webhook env True demo_delivery s1
   in r = Inr (422, error_body ''WEBHOOK_FAILED'' (Str ''unknown automation action: nope''))
     \<and> map row_type (bos_records s2) = [''workflow'', ''task'', ''task'']"
  by code_simp

end
