(* ===== verification/Encoding.thy ===== *)
theory Encoding
  imports Credentials
begin

text \<open>
  Texts for bytes: hexadecimal and base64url, as \<^verbatim>\<open>Buffer\<close> writes and reads them, the UTF-8 bytes of
  a text, and \<^verbatim>\<open>String.prototype.split\<close>. A byte string is a string of 8-bit characters.
\<close>

section \<open>Hexadecimal\<close>

definition byte :: "char \<Rightarrow> nat" where
  "byte c = of_char c"

definition of_byte :: "nat \<Rightarrow> char" where
  "of_byte n = char_of n"

lemma byte_less [simp]: "byte c < 256"
  unfolding byte_def by (metis of_char_mod_256 mod_less_divisor zero_less_numeral)

lemma of_byte_byte [simp]: "of_byte (byte c) = c"
  by (simp add: of_byte_def byte_def)

lemma byte_of_byte [simp]: "n < 256 \<Longrightarrow> byte (of_byte n) = n"
  by (simp add: of_byte_def byte_def)

definition to_hex :: "string \<Rightarrow> string" where
  "to_hex s = concat (map (\<lambda>c. [hex_digit (byte c div 16), hex_digit (byte c mod 16)]) s)"

definition hex_value :: "char \<Rightarrow> nat option" where
  "hex_value c =
     (let n = byte c in
      if 48 \<le> n \<and> n \<le> 57 then Some (n - 48)
      else if 97 \<le> n \<and> n \<le> 102 then Some (n - 87)
      else if 65 \<le> n \<and> n \<le> 70 then Some (n - 55) else None)"

text \<open>\<^verbatim>\<open>Buffer.from(s, 'hex')\<close> stops at the first pair that is not hexadecimal.\<close>

fun of_hex :: "string \<Rightarrow> string" where
  "of_hex (a # b # s) =
     (case (hex_value a, hex_value b) of (Some x, Some y) \<Rightarrow> of_byte (16 * x + y) # of_hex s | _ \<Rightarrow> [])"
| "of_hex _ = []"

lemma hex_value_digit: "n < 16 \<Longrightarrow> hex_value (hex_digit n) = Some n"
proof -
  have "\<forall>n \<in> set [0..<16]. hex_value (hex_digit n) = Some n" by code_simp
  then show "n < 16 \<Longrightarrow> hex_value (hex_digit n) = Some n" by simp
qed

lemma of_hex_to_hex [simp]: "of_hex (to_hex s) = s"
proof (induction s)
  case (Cons c s)
  have "byte c div 16 < 16" using byte_less [of c] by (simp add: less_mult_imp_div_less)
  then show ?case using Cons by (simp add: to_hex_def hex_value_digit)
qed (simp add: to_hex_def)

lemma to_hex_eq_Nil [simp]: "to_hex s = [] \<longleftrightarrow> s = []"
  by (cases s) (simp_all add: to_hex_def)

lemma length_to_hex [simp]: "length (to_hex s) = 2 * length s"
  by (induction s) (simp_all add: to_hex_def)

definition hex_digits :: string where
  "hex_digits = ''0123456789abcdef''"

lemma hex_digit_in: "n < 16 \<Longrightarrow> hex_digit n \<in> set hex_digits"
  unfolding hex_digit_def hex_digits_def by (rule nth_mem) simp

lemma set_to_hex: "set (to_hex s) \<subseteq> set hex_digits"
proof (induction s)
  case (Cons c s)
  have "byte c div 16 < 16" using byte_less [of c] by (simp add: less_mult_imp_div_less)
  then show ?case using Cons hex_digit_in by (simp add: to_hex_def)
qed (simp add: to_hex_def)

section \<open>Base64url\<close>

definition b64_digit :: "nat \<Rightarrow> char" where
  "b64_digit n = of_byte (if n < 26 then n + 65 else if n < 52 then n + 71 else if n < 62 then n - 4 else if n = 62 then 45 else 95)"

text \<open>\<^verbatim>\<open>Buffer.from(bytes).toString('base64url')\<close>, without padding.\<close>

fun base64url :: "string \<Rightarrow> string" where
  "base64url [] = []"
| "base64url [a] = map b64_digit [byte a div 4, byte a mod 4 * 16]"
| "base64url [a, b] = map b64_digit [byte a div 4, byte a mod 4 * 16 + byte b div 16, byte b mod 16 * 4]"
| "base64url (a # b # c # s) =
     map b64_digit [byte a div 4, byte a mod 4 * 16 + byte b div 16, byte b mod 16 * 4 + byte c div 64, byte c mod 64] @ base64url s"

text \<open>
  \<^verbatim>\<open>Buffer.from(text, 'base64url')\<close> reads both base64 alphabets, ignores other characters and stops
  at the padding.
\<close>

definition b64_value :: "char \<Rightarrow> nat option" where
  "b64_value c =
     (let n = byte c in
      if 65 \<le> n \<and> n \<le> 90 then Some (n - 65)
      else if 97 \<le> n \<and> n \<le> 122 then Some (n - 71)
      else if 48 \<le> n \<and> n \<le> 57 then Some (n + 4)
      else if n = 45 \<or> n = 43 then Some 62
      else if n = 95 \<or> n = 47 then Some 63 else None)"

fun b64_bytes :: "nat list \<Rightarrow> string" where
  "b64_bytes (w # x # y # z # ns) =
     of_byte (w * 4 + x div 16) # of_byte (x mod 16 * 16 + y div 4) # of_byte (y mod 4 * 64 + z) # b64_bytes ns"
| "b64_bytes [w, x, y] = [of_byte (w * 4 + x div 16), of_byte (x mod 16 * 16 + y div 4)]"
| "b64_bytes [w, x] = [of_byte (w * 4 + x div 16)]"
| "b64_bytes _ = []"

definition of_base64url :: "string \<Rightarrow> string" where
  "of_base64url t = b64_bytes (List.map_filter b64_value (takeWhile (\<lambda>c. c \<noteq> CHR ''='') t))"

lemma b64_value_digit [simp]: "n < 64 \<Longrightarrow> b64_value (b64_digit n) = Some n"
  by (simp add: b64_value_def b64_digit_def Let_def) linarith

lemma byte_b64_digit: "n < 64 \<Longrightarrow> byte (b64_digit n) < 128 \<and> byte (b64_digit n) \<noteq> 46 \<and> byte (b64_digit n) \<noteq> 61"
  by (auto simp: b64_digit_def)

text \<open>Cutting a byte into digits and joining it again.\<close>

lemma cut_bounds:
  "byte a div 4 < 64" "byte a mod 4 * 16 < 64" "byte a mod 16 * 4 < 64" "byte a mod 64 < 64"
  "byte a mod 4 * 16 + byte b div 16 < 64" "byte a mod 16 * 4 + byte b div 64 < 64"
proof -
  have "byte a div 4 < 64" "byte b div 16 < 16" "byte b div 64 < 4" using byte_less by (simp_all add: less_mult_imp_div_less)
  moreover have "byte a mod 4 < 4" "byte a mod 16 < 16" "byte a mod 64 < 64" by simp_all
  ultimately show "byte a div 4 < 64" "byte a mod 4 * 16 < 64" "byte a mod 16 * 4 < 64" "byte a mod 64 < 64"
    "byte a mod 4 * 16 + byte b div 16 < 64" "byte a mod 16 * 4 + byte b div 64 < 64" by linarith+
qed

lemma join_first:
  "of_byte (byte a div 4 * 4 + byte a mod 4 * 16 div 16) = a"
  "of_byte (byte a div 4 * 4 + (byte a mod 4 * 16 + byte b div 16) div 16) = a"
proof -
  have "byte b div 16 < 16" using byte_less by (simp add: less_mult_imp_div_less)
  then have "(byte a mod 4 * 16 + byte b div 16) div 16 = byte a mod 4" by simp
  then show "of_byte (byte a div 4 * 4 + byte a mod 4 * 16 div 16) = a"
    "of_byte (byte a div 4 * 4 + (byte a mod 4 * 16 + byte b div 16) div 16) = a" by simp_all
qed

lemma join_second:
  "of_byte ((byte a mod 4 * 16 + byte b div 16) mod 16 * 16 + byte b mod 16 * 4 div 4) = b"
  "of_byte ((byte a mod 4 * 16 + byte b div 16) mod 16 * 16 + (byte b mod 16 * 4 + byte c div 64) div 4) = b"
proof -
  have "byte b div 16 < 16" "byte c div 64 < 4" using byte_less by (simp_all add: less_mult_imp_div_less)
  then have "(byte a mod 4 * 16 + byte b div 16) mod 16 = byte b div 16" "(byte b mod 16 * 4 + byte c div 64) div 4 = byte b mod 16" by simp_all
  then show "of_byte ((byte a mod 4 * 16 + byte b div 16) mod 16 * 16 + byte b mod 16 * 4 div 4) = b"
    "of_byte ((byte a mod 4 * 16 + byte b div 16) mod 16 * 16 + (byte b mod 16 * 4 + byte c div 64) div 4) = b" by simp_all
qed

lemma join_third: "of_byte ((byte b mod 16 * 4 + byte c div 64) mod 4 * 64 + byte c mod 64) = c"
proof -
  have "byte c div 64 < 4" using byte_less by (simp add: less_mult_imp_div_less)
  then have "(byte b mod 16 * 4 + byte c div 64) mod 4 = byte c div 64" by simp
  then show ?thesis by simp
qed

text \<open>The digits of a byte string, as numbers.\<close>

fun b64_numbers :: "string \<Rightarrow> nat list" where
  "b64_numbers [] = []"
| "b64_numbers [a] = [byte a div 4, byte a mod 4 * 16]"
| "b64_numbers [a, b] = [byte a div 4, byte a mod 4 * 16 + byte b div 16, byte b mod 16 * 4]"
| "b64_numbers (a # b # c # s) =
     [byte a div 4, byte a mod 4 * 16 + byte b div 16, byte b mod 16 * 4 + byte c div 64, byte c mod 64] @ b64_numbers s"

lemma base64url_numbers: "base64url s = map b64_digit (b64_numbers s)"
  by (induction s rule: base64url.induct) simp_all

lemma b64_numbers_less: "n \<in> set (b64_numbers s) \<Longrightarrow> n < 64"
  by (induction s rule: b64_numbers.induct) (auto simp: cut_bounds)

lemma b64_bytes_numbers: "b64_bytes (b64_numbers s) = s"
  by (induction s rule: b64_numbers.induct) (simp_all only: b64_numbers.simps b64_bytes.simps append.simps join_first join_second join_third)

lemma of_base64url_base64url [simp]: "of_base64url (base64url s) = s"
proof -
  have less: "\<forall>n \<in> set (b64_numbers s). n < 64" using b64_numbers_less by blast
  then have "\<forall>n \<in> set (b64_numbers s). b64_digit n \<noteq> CHR ''=''" using byte_b64_digit by (force simp: byte_def)
  then have all: "takeWhile (\<lambda>c. c \<noteq> CHR ''='') (map b64_digit (b64_numbers s)) = map b64_digit (b64_numbers s)"
    by (simp add: takeWhile_eq_all_conv)
  from less have "List.map_filter b64_value (map b64_digit ns) = ns" if "set ns \<subseteq> set (b64_numbers s)" for ns
    using that by (induction ns) (simp_all add: List.map_filter_simps)
  then have "List.map_filter b64_value (map b64_digit (b64_numbers s)) = b64_numbers s" by blast
  then show ?thesis unfolding of_base64url_def base64url_numbers all by (simp add: b64_bytes_numbers)
qed

lemma base64url_eq_Nil [simp]: "base64url s = [] \<longleftrightarrow> s = []"
  by (cases s rule: base64url.cases) simp_all

lemma dot_not_in_base64url [simp]: "CHR ''.'' \<notin> set (base64url s)"
proof
  assume "CHR ''.'' \<in> set (base64url s)"
  then obtain n where "n \<in> set (b64_numbers s)" "b64_digit n = CHR ''.''" by (auto simp: base64url_numbers)
  moreover from this(1) have "n < 64" by (rule b64_numbers_less)
  moreover have "byte CHR ''.'' = 46" by (simp add: byte_def)
  ultimately show False using byte_b64_digit [of n] by simp
qed

lemma ascii_base64url [simp]: "ascii (base64url s)"
  using b64_numbers_less [of _ s] byte_b64_digit by (auto simp: base64url_numbers byte_def ascii_def)

section \<open>UTF-8 bytes\<close>

definition utf8 :: "string \<Rightarrow> string" where
  "utf8 s = concat (map (\<lambda>c. if byte c < 128 then [c] else [of_byte (192 + byte c div 64), of_byte (128 + byte c mod 64)]) s)"

lemma utf8_ascii: "ascii s \<Longrightarrow> utf8 s = s"
  by (induction s) (simp_all add: utf8_def ascii_def byte_def)

lemma utf8_Nil [simp]: "utf8 s = [] \<longleftrightarrow> s = []"
  by (cases s) (simp_all add: utf8_def)

text \<open>
  \<^verbatim>\<open>buffer.toString('utf8')\<close> on encodings of 8-bit texts. (A malformed sequence becomes U+FFFD, which is
  outside the character range of the model: its bytes are kept here.)
\<close>

fun utf8_text :: "string \<Rightarrow> string" where
  "utf8_text (a # b # s) =
     (if byte a \<in> {194, 195} \<and> 128 \<le> byte b \<and> byte b < 192 then of_byte ((byte a - 192) * 64 + (byte b - 128)) # utf8_text s
      else a # utf8_text (b # s))"
| "utf8_text s = s"

lemma utf8_Cons: "utf8 (c # s) = (if byte c < 128 then [c] else [of_byte (192 + byte c div 64), of_byte (128 + byte c mod 64)]) @ utf8 s"
  by (simp add: utf8_def)

lemma utf8_text_small: "byte c < 128 \<Longrightarrow> utf8_text (c # s) = c # utf8_text s"
  by (cases s) simp_all

lemma utf8_text_utf8 [simp]: "utf8_text (utf8 s) = s"
proof (induction s)
  case (Cons c s)
  show ?case
  proof (cases "byte c < 128")
    case True
    then show ?thesis using Cons by (simp add: utf8_Cons utf8_text_small)
  next
    case False
    define q r where "q = byte c div 64" and "r = byte c mod 64"
    from False have "128 div 64 \<le> q" unfolding q_def by (intro div_le_mono) simp
    moreover have "q < 4" unfolding q_def using byte_less [of c] by (simp add: less_mult_imp_div_less)
    ultimately have q: "192 + q = 194 \<or> 192 + q = 195" by linarith
    have r: "r < 64" by (simp add: r_def)
    have c: "q * 64 + r = byte c" by (simp add: q_def r_def)
    have "utf8 (c # s) = of_byte (192 + q) # of_byte (128 + r) # utf8 s"
      using False by (simp add: utf8_Cons q_def r_def)
    moreover have "byte (of_byte (192 + q)) = 192 + q" "byte (of_byte (128 + r)) = 128 + r" using q r by auto
    ultimately have "utf8_text (utf8 (c # s)) = of_byte (q * 64 + r) # utf8_text (utf8 s)" using q r by (simp only: utf8_text.simps) simp
    then show ?thesis using Cons c by simp
  qed
qed (simp add: utf8_def)

lemma utf8_inject [simp]: "utf8 a = utf8 b \<longleftrightarrow> a = b"
  by (metis utf8_text_utf8)

section \<open>URI components\<close>

definition uri_error :: js_error where
  "uri_error = Exn ''URIError'' ''URI malformed'' []"

text \<open>
  \<^verbatim>\<open>decodeURIComponent\<close>; an escaped character above U+00FF is outside the character range of the model
  and counts as malformed.
\<close>

definition escaped :: "string \<Rightarrow> nat option" where
  "escaped s =
     (if length s < 3 \<or> hd s \<noteq> CHR ''%'' then None
      else case (hex_value (s ! 1), hex_value (s ! 2)) of (Some h, Some l) \<Rightarrow> Some (16 * h + l) | _ \<Rightarrow> None)"

fun decodeURIComponent :: "string \<Rightarrow> js_error + string" where
  "decodeURIComponent [] = Inr []"
| "decodeURIComponent (c # s) =
     (if c \<noteq> CHR ''%'' then map_sum id ((#) c) (decodeURIComponent s)
      else case escaped (c # s) of
        None \<Rightarrow> Inl uri_error
      | Some b \<Rightarrow>
          if b < 128 then map_sum id ((#) (of_byte b)) (decodeURIComponent (drop 2 s))
          else if b = 194 \<or> b = 195 then
            (case escaped (drop 2 s) of
               None \<Rightarrow> Inl uri_error
             | Some b' \<Rightarrow>
                 if b' < 128 \<or> 192 \<le> b' then Inl uri_error
                 else map_sum id ((#) (of_byte ((b - 192) * 64 + (b' - 128)))) (decodeURIComponent (drop 5 s)))
          else Inl uri_error)"

lemma decode_plain: "CHR ''%'' \<notin> set s \<Longrightarrow> decodeURIComponent s = Inr s"
  by (induction s) auto

text \<open>\<^verbatim>\<open>encodeURIComponent\<close>\<close>

definition uri_unreserved :: "char \<Rightarrow> bool" where
  "uri_unreserved c \<longleftrightarrow> (let n = byte c in (65 \<le> n \<and> n \<le> 90) \<or> (97 \<le> n \<and> n \<le> 122) \<or> (48 \<le> n \<and> n \<le> 57)
     \<or> n \<in> {45, 95, 46, 33, 126, 42, 39, 40, 41})"

definition upper_hex :: "nat \<Rightarrow> char" where
  "upper_hex n = ''0123456789ABCDEF'' ! n"

definition encodeURIComponent :: "string \<Rightarrow> string" where
  "encodeURIComponent s =
     concat (map (\<lambda>c. if uri_unreserved c then [c]
       else concat (map (\<lambda>b. [CHR ''%'', upper_hex (byte b div 16), upper_hex (byte b mod 16)]) (utf8 [c]))) s)"

lemma encode_plain: "\<forall>c \<in> set s. uri_unreserved c \<Longrightarrow> encodeURIComponent s = s"
  by (induction s) (simp_all add: encodeURIComponent_def)

lemma unreserved_byte:
  "65 \<le> n \<Longrightarrow> n \<le> 90 \<Longrightarrow> uri_unreserved (of_byte n)" "97 \<le> n \<Longrightarrow> n \<le> 122 \<Longrightarrow> uri_unreserved (of_byte n)"
  "48 \<le> n \<Longrightarrow> n \<le> 57 \<Longrightarrow> uri_unreserved (of_byte n)" "uri_unreserved (of_byte 45)" "uri_unreserved (of_byte 95)"
  by (simp_all add: uri_unreserved_def)

lemma unreserved_digit: "n < 64 \<Longrightarrow> uri_unreserved (b64_digit n)"
  unfolding b64_digit_def by (auto intro: unreserved_byte)

lemma base64url_unreserved: "\<forall>c \<in> set (base64url s). uri_unreserved c"
  using b64_numbers_less [of _ s] unreserved_digit by (simp add: base64url_numbers)

lemma unreserved_plain: "uri_unreserved c \<Longrightarrow> c \<noteq> CHR ''%'' \<and> c \<noteq> CHR '';'' \<and> c \<noteq> CHR ''='' \<and> \<not> is_space c"
  by (auto simp: uri_unreserved_def Let_def byte_def is_space_def)

section \<open>Splitting\<close>

text \<open>\<^verbatim>\<open>s.split(c)\<close> for one separator character.\<close>

fun split_on :: "char \<Rightarrow> string \<Rightarrow> string list" where
  "split_on c [] = [[]]"
| "split_on c (x # s) =
     (if x = c then [] # split_on c s else case split_on c s of [] \<Rightarrow> [[x]] | p # ps \<Rightarrow> (x # p) # ps)"

lemma split_on_segment: "c \<notin> set s \<Longrightarrow> split_on c s = [s]"
  by (induction s) auto

lemma split_on_append: "c \<notin> set s \<Longrightarrow> split_on c (s @ c # t) = s # split_on c t"
  by (induction s) auto

text \<open>Destructuring \<^verbatim>\<open>const [a, b, ...] = parts\<close>: an absent part is undefined, which no use tells from empty.\<close>

definition part :: "nat \<Rightarrow> string list \<Rightarrow> string" where
  "part i ps = (if i < length ps then ps ! i else [])"

lemma part_simps [simp]: "part 0 (p # ps) = p" "part (Suc i) (p # ps) = part i ps" "part i [] = []"
  by (simp_all add: part_def)

end
