(* ===== verification/Secrets.thy ===== *)
theory Secrets
  imports Encoding
begin

text \<open>
  Signed browser sessions (\<^verbatim>\<open>modules/auth/google.js\<close>) and encrypted credentials
  (\<^verbatim>\<open>modules/integrations/secret_store.js\<close>). HMAC-SHA-256, AES-256-GCM and \<^verbatim>\<open>JSON.parse\<close> on UTF-8
  bytes are parameters; random initialization vectors and the time are arguments.
\<close>

section \<open>Signed sessions\<close>

type_synonym hmac = "string \<Rightarrow> string \<Rightarrow> string" \<comment> \<open>secret and text to the bytes of the code\<close>

definition signSession :: "hmac \<Rightarrow> jsval \<Rightarrow> string \<Rightarrow> js_error + string" where
  "signSession hmac payload secret =
     (case stringify payload of
        None \<Rightarrow> Inl (TypeError ''The first argument must be of type string'')
      | Some text \<Rightarrow>
          let encoded = base64url (utf8 text) in Inr (encoded @ ''.'' @ base64url (hmac secret encoded)))"

definition verifySession :: "hmac \<Rightarrow> (string \<Rightarrow> jsval option) \<Rightarrow> int \<Rightarrow> jsval \<Rightarrow> jsval \<Rightarrow> jsval" where
  "verifySession hmac parse now token secret =
     (if \<not> truthy token \<or> \<not> truthy secret then Null
      else
        let parts = split_on (CHR ''.'') (to_str token); encoded = part 0 parts; signature = part 1 parts;
            expected = base64url (hmac (to_str secret) encoded)
        in if encoded = [] \<or> signature = [] then Null
           else if length (utf8 signature) \<noteq> length (utf8 expected) \<or> utf8 signature \<noteq> utf8 expected then Null
           else case parse (of_base64url encoded) of
               None \<Rightarrow> Null
             | Some payload \<Rightarrow>
                 if nullish payload \<or> \<not> truthy (field payload ''exp'') \<or> js_gt (Num (now div 1000)) (field payload ''exp'') then Null
                 else payload)"

definition sessionCookie :: "hmac \<Rightarrow> jsval \<Rightarrow> string \<Rightarrow> js_error + string" where
  "sessionCookie hmac session secret =
     map_sum id (\<lambda>token. ''bos_session='' @ token @ ''; Path=/; HttpOnly; Secure; SameSite=Lax; Max-Age=604800'')
       (signSession hmac session secret)"

text \<open>\<^verbatim>\<open>parseCookie(req, name)\<close> on the text of the Cookie header.\<close>

definition parseCookie :: "string \<Rightarrow> string \<Rightarrow> js_error + jsval" where
  "parseCookie raw name =
     (case find (\<lambda>v. prefix (name @ ''='') v) (map trim (split_on (CHR '';'') raw)) of
        None \<Rightarrow> Inr Null
      | Some found \<Rightarrow> map_sum id Str (decodeURIComponent (drop (length name + 1) found)))"

definition authenticatedSession :: "hmac \<Rightarrow> (string \<Rightarrow> jsval option) \<Rightarrow> int \<Rightarrow> jsval \<Rightarrow> string \<Rightarrow> js_error + jsval" where
  "authenticatedSession hmac parse now secret cookies =
     map_sum id (\<lambda>token. verifySession hmac parse now token secret) (parseCookie cookies ''bos_session'')"

lemma split_signed: "split_on (CHR ''.'') (base64url a @ CHR ''.'' # base64url b) = [base64url a, base64url b]"
  by (simp add: split_on_append split_on_segment)

lemma verify_signed:
  assumes "secret \<noteq> []" "text \<noteq> []" "hmac secret (base64url (utf8 text)) \<noteq> []" "parse (utf8 text) = Some payload" "is_obj payload"
    "field payload ''exp'' = Num e"
  shows "verifySession hmac parse now (Str (base64url (utf8 text) @ CHR ''.'' # base64url (hmac secret (base64url (utf8 text))))) (Str secret)
    = (if e \<noteq> 0 \<and> now div 1000 \<le> e then payload else Null)"
  using assms by (cases payload) (auto simp: verifySession_def split_signed Let_def nullish_def js_gt_def)

lemma nat_str_not_Nil [simp]: "nat_str n \<noteq> []"
  by (subst nat_str.simps) simp

lemma stringify_not_Nil: "stringify v = Some t \<Longrightarrow> t \<noteq> []"
  by (cases v) (auto simp: json_string_def int_str_def split: if_splits)

lemma plain_cookie_token:
  assumes "c \<in> set (base64url a @ ''.'' @ base64url b)"
  shows "c \<noteq> CHR ''%'' \<and> c \<noteq> CHR '';'' \<and> c \<noteq> CHR ''='' \<and> \<not> is_space c"
proof -
  have "uri_unreserved c" using assms base64url_unreserved [of a] base64url_unreserved [of b] by (auto simp: uri_unreserved_def byte_def)
  then show ?thesis by (rule unreserved_plain)
qed

text \<open>The Cookie header a browser sends back: the session's pair among others, separated by \<^verbatim>\<open>'; '\<close>.\<close>

definition cookie_header :: "string list \<Rightarrow> string \<Rightarrow> string list \<Rightarrow> string" where
  "cookie_header before token after = join ''; '' (before @ [''bos_session='' @ token] @ after)"

definition other_cookie :: "string \<Rightarrow> bool" where
  "other_cookie p \<longleftrightarrow> CHR '';'' \<notin> set p \<and> \<not> prefix ''bos_session='' (trim p)"

lemma trim_space [simp]: "trim (CHR '' '' # s) = trim s"
  by (simp add: trim_def is_space_def)

lemma trim_no_space:
  assumes "\<forall>c \<in> set s. \<not> is_space c"
  shows "trim s = s"
proof -
  have "dropWhile is_space t = t" if "set t \<subseteq> set s" for t using that assms by (cases t) auto
  then show ?thesis by (simp add: trim_def)
qed

lemma join_space: "join ''; '' (p # ps) = join '';'' (p # map ((#) CHR '' '') ps)"
proof (induction ps arbitrary: p)
  case (Cons q ps)
  from Cons [of q] show ?case by (cases ps) simp_all
qed simp

lemma split_on_join: "\<forall>p \<in> set ps. c \<notin> set p \<Longrightarrow> ps \<noteq> [] \<Longrightarrow> split_on c (join [c] ps) = ps"
proof (induction ps rule: induct_list012)
  case (3 x y zs)
  then show ?case by (simp add: split_on_append)
qed (simp_all add: split_on_segment)

lemma cookies_of_header:
  assumes "\<forall>p \<in> set ps. CHR '';'' \<notin> set p" "ps \<noteq> []"
  shows "map trim (split_on (CHR '';'') (join ''; '' ps)) = map trim ps"
proof -
  obtain p qs where ps: "ps = p # qs" using assms(2) by (cases ps) auto
  have "split_on (CHR '';'') (join ''; '' ps) = p # map ((#) CHR '' '') qs"
    unfolding ps join_space by (rule split_on_join) (use assms(1) ps in auto)
  then show ?thesis by (simp add: ps)
qed

lemma parseCookie_found:
  assumes "\<forall>p \<in> set before. other_cookie p" "\<forall>p \<in> set after. CHR '';'' \<notin> set p"
    and "\<forall>c \<in> set token. c \<noteq> CHR ''%'' \<and> c \<noteq> CHR '';'' \<and> \<not> is_space c"
  shows "parseCookie (cookie_header before token after) ''bos_session'' = Inr (Str token)"
proof -
  let ?pair = "''bos_session='' @ token"
  have "\<forall>c \<in> set ''bos_session=''. c \<noteq> CHR '';'' \<and> \<not> is_space c" by code_simp
  then have all: "\<forall>c \<in> set ?pair. c \<noteq> CHR '';'' \<and> \<not> is_space c" using assms(3) unfolding set_append by blast
  then have pair: "CHR '';'' \<notin> set ?pair" "trim ?pair = ?pair" by (blast, intro trim_no_space) blast
  have cut: "map trim (split_on (CHR '';'') (cookie_header before token after)) = map trim (before @ [?pair] @ after)"
    unfolding cookie_header_def by (rule cookies_of_header) (use assms(1,2) pair(1) in \<open>auto simp: other_cookie_def\<close>)
  have found: "find (\<lambda>v. prefix ''bos_session='' v) (map trim (before @ [?pair] @ after)) = Some ?pair"
    using assms(1) pair(2) by (induction before) (auto simp: other_cookie_def)
  have "decodeURIComponent token = Inr token" using assms(3) by (intro decode_plain) blast
  moreover have "''bos_session'' @ ''='' = ''bos_session=''" by simp
  ultimately show ?thesis unfolding parseCookie_def cut by (simp only: found option.case) simp
qed

lemma signSession_Inr: "signSession hmac payload secret = Inr token \<longleftrightarrow>
    (\<exists>text. stringify payload = Some text \<and> token = base64url (utf8 text) @ ''.'' @ base64url (hmac secret (base64url (utf8 text))))"
  by (auto simp: signSession_def Let_def split: option.split)

lemma accepted_is_signed:
  assumes "verifySession hmac parse now (Str token) (Str secret) \<noteq> Null"
  shows "\<exists>encoded rest. split_on (CHR ''.'') token = encoded # base64url (hmac secret encoded) # rest"
proof -
  let ?ps = "split_on (CHR ''.'') token"
  have two: "part 0 ?ps \<noteq> []" "part 1 ?ps \<noteq> []" "utf8 (part 1 ?ps) = utf8 (base64url (hmac secret (part 0 ?ps)))"
    using assms by (auto simp: verifySession_def Let_def split: if_splits)
  have "part 1 ?ps = base64url (hmac secret (part 0 ?ps))"
    using two(3) by simp
  moreover obtain x y rest where "?ps = x # y # rest"
    using two by (cases ?ps; cases "tl ?ps") (auto simp: part_def split: if_splits)
  ultimately show ?thesis by simp
qed

text \<open>C31: Round trip. A signed session placed in the cookie is read back from the browser's next request as the
  payload that was signed as long as it has not expired, and as null from then on, whatever other
  cookies come with it. Conversely a token is accepted only if its second part is the code of its
  first part under the secret.\<close>

theorem sessions_round_trip:
  assumes "sessionCookie hmac payload secret = Inr cookie" "secret \<noteq> []" "\<forall>k x. hmac k x \<noteq> []"
    and "\<forall>text. stringify payload = Some text \<longrightarrow> parse (utf8 text) = Some payload" "is_obj payload" "field payload ''exp'' = Num e"
    and "\<forall>p \<in> set before. other_cookie p" "\<forall>p \<in> set after. CHR '';'' \<notin> set p"
  shows "\<exists>token. cookie = ''bos_session='' @ token @ ''; Path=/; HttpOnly; Secure; SameSite=Lax; Max-Age=604800''
      \<and> authenticatedSession hmac parse now (Str secret) (cookie_header before token after)
          = Inr (if e \<noteq> 0 \<and> now div 1000 \<le> e then payload else Null)
      \<and> (verifySession hmac parse now (Str other) (Str secret) \<noteq> Null \<longrightarrow>
          (\<exists>encoded rest. split_on (CHR ''.'') other = encoded # base64url (hmac secret encoded) # rest))"
proof -
  obtain json where json: "stringify payload = Some json"
    and cookie: "cookie = ''bos_session='' @ (base64url (utf8 json) @ ''.'' @ base64url (hmac secret (base64url (utf8 json))))
      @ ''; Path=/; HttpOnly; Secure; SameSite=Lax; Max-Age=604800''"
    using assms(1) by (auto simp: sessionCookie_def signSession_def Let_def split: option.splits)
  let ?token = "base64url (utf8 json) @ ''.'' @ base64url (hmac secret (base64url (utf8 json)))"
  have parse: "parseCookie (cookie_header before ?token after) ''bos_session'' = Inr (Str ?token)"
    by (rule parseCookie_found [OF assms(7,8)]) (use plain_cookie_token in blast)
  have "verifySession hmac parse now (Str ?token) (Str secret) = (if e \<noteq> 0 \<and> now div 1000 \<le> e then payload else Null)"
    using verify_signed [OF assms(2) stringify_not_Nil [OF json], of hmac parse payload e] assms(3-6) json by simp
  then show ?thesis
    using parse cookie accepted_is_signed by (intro exI [of _ ?token]) (auto simp: authenticatedSession_def)
qed

definition demo_session :: jsval where
  "demo_session = Obj [(''sub'', Str ''u1''), (''exp'', Num 5000)]"

definition demo_parse :: "string \<Rightarrow> jsval option" where
  "demo_parse b = (if stringify demo_session = Some (utf8_text b) then Some demo_session else None)"

lemma demo_session_facts: "is_obj demo_session" "field demo_session ''exp'' = Num 5000" "stringify demo_session \<noteq> None"
  by (simp_all add: demo_session_def)

theorem sessions_round_trip_witness:
  "\<exists>token. sessionCookie (\<lambda>k x. ''mac'') demo_session ''key''
        = Inr (''bos_session='' @ token @ ''; Path=/; HttpOnly; Secure; SameSite=Lax; Max-Age=604800'')
      \<and> authenticatedSession (\<lambda>k x. ''mac'') demo_parse 4000000 (Str ''key'') (cookie_header [''lang=en''] token []) = Inr demo_session"
proof -
  obtain cookie where cookie: "sessionCookie (\<lambda>k x. ''mac'') demo_session ''key'' = Inr cookie"
    using demo_session_facts(3) by (auto simp: sessionCookie_def signSession_def Let_def split: option.split)
  have parse: "\<forall>json. stringify demo_session = Some json \<longrightarrow> demo_parse (utf8 json) = Some demo_session"
    by (simp add: demo_parse_def)
  have other: "\<forall>p \<in> set [''lang=en'']. other_cookie p" by code_simp
  have "\<exists>token. cookie = ''bos_session='' @ token @ ''; Path=/; HttpOnly; Secure; SameSite=Lax; Max-Age=604800''
      \<and> authenticatedSession (\<lambda>k x. ''mac'') demo_parse 4000000 (Str ''key'') (cookie_header [''lang=en''] token [])
          = Inr (if (5000 :: int) \<noteq> 0 \<and> (4000000 :: int) div 1000 \<le> 5000 then demo_session else Null)
      \<and> (verifySession (\<lambda>k x. ''mac'') demo_parse 4000000 (Str []) (Str ''key'') \<noteq> Null \<longrightarrow>
          (\<exists>encoded rest. split_on (CHR ''.'') [] = encoded # base64url ''mac'' # rest))"
    by (rule sessions_round_trip [where e = 5000, OF cookie _ _ parse demo_session_facts(1,2) other]) simp_all
  then show ?thesis using cookie by auto
qed

section \<open>Encrypted credentials\<close>

text \<open>
  AES-256-GCM: encryption of a key, an initialization vector and a text to the cipher text and its
  tag; decryption, which throws unless the tag authenticates the cipher text.
\<close>

record cipher =
  gcm_encrypt :: "string \<Rightarrow> string \<Rightarrow> string \<Rightarrow> string \<times> string"
  gcm_decrypt :: "string \<Rightarrow> string \<Rightarrow> string \<Rightarrow> string \<Rightarrow> js_error + string"

definition keyFromEnv :: "jsval \<Rightarrow> js_error + string" where
  "keyFromEnv raw =
     (if \<not> truthy raw then Inl (Error ''BOS_ENCRYPTION_KEY_NOT_CONFIGURED'')
      else let text = to_str raw;
               key = (if length text = 64 \<and> list_all (\<lambda>c. hex_value c \<noteq> None) text then of_hex text else of_base64url text)
           in if length key \<noteq> 32 then Inl (Error ''BOS_ENCRYPTION_KEY_INVALID'') else Inr key)"

definition encryptSecret :: "cipher \<Rightarrow> jsval \<Rightarrow> string \<Rightarrow> jsval \<Rightarrow> js_error + string" where
  "encryptSecret C raw iv v =
     (case keyFromEnv raw of
        Inl e \<Rightarrow> Inl e
      | Inr key \<Rightarrow>
          let (ciphertext, tag) = gcm_encrypt C key iv (utf8 (to_str v))
          in Inr (base64url iv @ ''.'' @ base64url tag @ ''.'' @ base64url ciphertext))"

definition decryptSecret :: "cipher \<Rightarrow> jsval \<Rightarrow> jsval \<Rightarrow> js_error + string" where
  "decryptSecret C raw v =
     (let parts = split_on (CHR ''.'') (to_str (js_or v (Str []))); ivPart = part 0 parts; tagPart = part 1 parts; dataPart = part 2 parts
      in if ivPart = [] \<or> tagPart = [] \<or> dataPart = [] then Inl (Error ''INVALID_ENCRYPTED_SECRET'')
         else case keyFromEnv raw of
             Inl e \<Rightarrow> Inl e
           | Inr key \<Rightarrow> map_sum id utf8_text (gcm_decrypt C key (of_base64url ivPart) (of_base64url tagPart) (of_base64url dataPart)))"

lemma keyFromEnv_hex:
  assumes "length key = 32"
  shows "keyFromEnv (Str (to_hex key)) = Inr key"
proof -
  have "\<forall>c \<in> set hex_digits. hex_value c \<noteq> None" by code_simp
  then have "list_all (\<lambda>c. hex_value c \<noteq> None) (to_hex key)" using set_to_hex [of key] by (auto simp: list_all_iff)
  moreover have "key \<noteq> []" using assms by auto
  ultimately show ?thesis using assms by (simp add: keyFromEnv_def)
qed

text \<open>What the code relies on: what was encrypted is authenticated and decrypted under the same key and
  vector; a cipher text is as long as its text, and a tag has 16 bytes.\<close>

definition gcm_laws :: "cipher \<Rightarrow> bool" where
  "gcm_laws C \<longleftrightarrow> (\<forall>key iv p. case gcm_encrypt C key iv p of (c, tag) \<Rightarrow>
     gcm_decrypt C key iv tag c = Inr p \<and> length c = length p \<and> length tag = 16)"

text \<open>C32: Round trip. A credential that was encrypted is decrypted to its text under the same key, whichever of the
  two notations the key is configured in; only the empty text does not come back: its sealed form is
  refused as invalid.\<close>

theorem encrypted_secrets_are_recovered:
  assumes "gcm_laws C" "encryptSecret C raw iv v = Inr sealed" "iv \<noteq> []"
  shows "decryptSecret C raw (Str sealed) =
    (if to_str v = [] then Inl (Error ''INVALID_ENCRYPTED_SECRET'') else Inr (to_str v))"
proof -
  obtain key where key: "keyFromEnv raw = Inr key" using assms(2) by (auto simp: encryptSecret_def split: sum.splits)
  obtain c tag where enc: "gcm_encrypt C key iv (utf8 (to_str v)) = (c, tag)" by fastforce
  then have law: "gcm_decrypt C key iv tag c = Inr (utf8 (to_str v))" "length c = length (utf8 (to_str v))" "length tag = 16"
    using assms(1) by (auto simp: gcm_laws_def split: prod.splits)
  have sealed: "sealed = base64url iv @ ''.'' @ base64url tag @ ''.'' @ base64url c" using assms(2) key enc by (simp add: encryptSecret_def)
  have "js_or (Str sealed) (Str []) = Str sealed" by (simp add: js_or_def)
  moreover have "part 2 [x, y, z] = z" for x y z by (simp add: part_def)
  moreover have "c = [] \<longleftrightarrow> to_str v = []" using law(2) by (metis length_0_conv utf8_Nil)
  moreover have "tag \<noteq> []" using law(3) by auto
  ultimately show ?thesis
    using law(1) key assms(3) unfolding decryptSecret_def by (simp add: sealed split_on_append split_on_segment Let_def)
qed

definition demo_cipher :: cipher where
  "demo_cipher = \<lparr>gcm_encrypt = (\<lambda>key iv p. (rev p, replicate 16 (CHR ''t''))), gcm_decrypt = (\<lambda>key iv tag c. Inr (rev c))\<rparr>"

definition demo_master :: jsval where
  "demo_master = Str (to_hex (replicate 32 (CHR ''k'')))"

lemma demo_master: "keyFromEnv demo_master = Inr (replicate 32 (CHR ''k''))"
  unfolding demo_master_def by (rule keyFromEnv_hex) simp

theorem encrypted_secrets_are_recovered_witness:
  "\<exists>sealed. encryptSecret demo_cipher demo_master ''iv'' (Str ''token'') = Inr sealed
     \<and> decryptSecret demo_cipher demo_master (Str sealed) = Inr ''token''"
proof -
  obtain sealed where sealed: "encryptSecret demo_cipher demo_master ''iv'' (Str ''token'') = Inr sealed"
    by (cases "gcm_encrypt demo_cipher (replicate 32 (CHR ''k'')) ''iv'' (utf8 ''token'')") (simp add: encryptSecret_def demo_master)
  have "gcm_laws demo_cipher" by (simp add: gcm_laws_def demo_cipher_def)
  from encrypted_secrets_are_recovered [OF this sealed] sealed show ?thesis by simp
qed

end
