(* ===== verification/Database.thy ===== *)
theory Database
  imports Encoding Validation PostgresRepository
begin

text \<open>
  The production database: the tables of \<^verbatim>\<open>packages/persistence/saas_schema.sql\<close> and of
  \<^verbatim>\<open>packages/auth/email_auth.js\<close> as lists of rows, with the statements' documented effect. An insert
  that breaks a primary key, a unique, a foreign key or a check constraint is rejected and changes
  nothing. The state also holds what else an operation of the server can reach: the records of
  \<^verbatim>\<open>bos_records\<close> with the database's clock, the calls made to other hosts, the application's clock, and
  the number of random values drawn so far. Columns that no code reads are left out.
\<close>

section \<open>Tables\<close>

record user_row =
  usr_id :: string
  usr_email :: string
  usr_password_hash :: string
  usr_name :: string
  usr_status :: string
  usr_verified :: "int option"

record session_row =
  ses_id :: string
  ses_user :: string
  ses_hash :: string
  ses_expires :: int
  ses_workspace :: "string option"

record workspace_row =
  wsp_tenant :: string
  wsp_owner :: string
  wsp_business :: string
  wsp_plan :: string
  wsp_created :: int
  wsp_updated :: int

record member_row =
  mem_workspace :: string
  mem_user :: string
  mem_role :: string
  mem_status :: string
  mem_joined :: int

record invitation_row =
  ivt_id :: string
  ivt_workspace :: string
  ivt_email :: string
  ivt_role :: string
  ivt_hash :: string
  ivt_status :: string
  ivt_expires :: int
  ivt_by :: string

record token_row =
  tok_id :: string
  tok_user :: string
  tok_type :: string
  tok_hash :: string
  tok_expires :: int
  tok_used :: "int option"

record workflow_row =
  wfl_id :: string
  wfl_workspace :: string
  wfl_name :: string
  wfl_description :: string
  wfl_status :: string
  wfl_version :: int
  wfl_by :: string
  wfl_created :: int
  wfl_updated :: int

record version_row =
  ver_id :: string
  ver_workflow :: string
  ver_number :: int
  ver_definition :: jsval
  ver_by :: string

record execution_row =
  exe_id :: string
  exe_workspace :: string
  exe_workflow :: string
  exe_version :: int
  exe_status :: string
  exe_trigger :: string
  exe_key :: "string option"
  exe_input :: jsval
  exe_output :: jsval
  exe_error :: jsval
  exe_attempts :: int
  exe_started :: "int option"
  exe_completed :: "int option"
  exe_created :: int

record step_row =
  stp_id :: string
  stp_execution :: string
  stp_key :: string
  stp_index :: int
  stp_type :: string
  stp_status :: string
  stp_input :: jsval
  stp_output :: jsval
  stp_error :: jsval
  stp_attempts :: int
  stp_started :: "int option"
  stp_completed :: "int option"

record event_row =
  evt_id :: string
  evt_workspace :: string
  evt_provider :: string
  evt_type :: string
  evt_external :: string
  evt_payload :: jsval
  evt_status :: string

record notification_row =
  ntf_id :: string
  ntf_workspace :: string
  ntf_user :: "string option"
  ntf_type :: string
  ntf_title :: string
  ntf_body :: string
  ntf_data :: jsval
  ntf_read :: "int option"
  ntf_created :: int

record audit_row =
  aud_id :: string
  aud_workspace :: string
  aud_actor :: string
  aud_action :: string
  aud_resource_type :: string
  aud_resource :: string
  aud_metadata :: jsval
  aud_created :: int

record integration_row =
  itg_id :: string
  itg_workspace :: string
  itg_provider :: string
  itg_status :: string
  itg_credentials :: jsval
  itg_config :: jsval
  itg_by :: string
  itg_error :: "string option"
  itg_connected :: int
  itg_updated :: int

record job_row =
  job_id :: string
  job_workspace :: string
  job_type :: string
  job_payload :: jsval
  job_status :: string
  job_attempts :: int
  job_max :: int
  job_run_at :: int
  job_error :: "string option"

text \<open>\<^verbatim>\<open>fetch(url, options)\<close>; what the caller awaits of its response is the status and the text of the body.\<close>

record net_call =
  nc_url :: string
  nc_method :: string
  nc_headers :: "jsval js_map"
  nc_body :: string
  nc_timeout :: jsval \<comment> \<open>the milliseconds after which the caller aborts, or undefined\<close>

record net_reply =
  nr_ok :: bool
  nr_status :: int
  nr_text :: string

record saas_db =
  records :: pg_db
  users :: "user_row list"
  sessions :: "session_row list"
  workspaces :: "workspace_row list"
  members :: "member_row list"
  invitations :: "invitation_row list"
  tokens :: "token_row list"
  workflows :: "workflow_row list"
  versions :: "version_row list"
  executions :: "execution_row list"
  steps :: "step_row list"
  events :: "event_row list"
  notifications :: "notification_row list"
  audits :: "audit_row list"
  integrations :: "integration_row list"
  jobs :: "job_row list"
  billing :: "(string \<times> jsval) list" \<comment> \<open>workspace and its account\<close>
  net_calls :: "net_call list" \<comment> \<open>the calls made to other hosts, which are no table\<close>
  app_now :: int
  draws :: nat

text \<open>\<^verbatim>\<open>NOW()\<close>\<close>

definition now :: "saas_db \<Rightarrow> int" where
  "now s = pg_now (records s)"

section \<open>Statements\<close>

text \<open>A query reads the tables; a statement without constraints to break changes them.\<close>

definition query :: "(saas_db \<Rightarrow> 'a) \<Rightarrow> (saas_db, 'a) act" where
  "query f = (\<lambda>s. (Inr (f s), s))"

definition exec :: "(saas_db \<Rightarrow> saas_db) \<Rightarrow> (saas_db, unit) act" where
  "exec f = (\<lambda>s. (Inr (), f s))"

text \<open>A statement with constraints: the first broken one is the error.\<close>

definition guarded :: "(saas_db \<Rightarrow> js_error option) \<Rightarrow> (saas_db \<Rightarrow> saas_db) \<Rightarrow> (saas_db, unit) act" where
  "guarded bad f = (\<lambda>s. case bad s of Some e \<Rightarrow> (Inl e, s) | None \<Rightarrow> (Inr (), f s))"

fun first_error :: "(bool \<times> js_error) list \<Rightarrow> js_error option" where
  "first_error [] = None"
| "first_error ((broken, e) # cs) = (if broken then Some e else first_error cs)"

definition pg_error :: "string \<Rightarrow> string \<Rightarrow> js_error" where
  "pg_error sqlstate message = Exn ''error'' message [(''code'', Str sqlstate)]"

definition unique_violation :: "string \<Rightarrow> js_error" where
  "unique_violation c = pg_error ''23505'' (''duplicate key value violates unique constraint '' @ c)"

definition foreign_key_violation :: "string \<Rightarrow> js_error" where
  "foreign_key_violation c = pg_error ''23503'' (''insert or update violates foreign key constraint '' @ c)"

definition check_violation :: "string \<Rightarrow> js_error" where
  "check_violation c = pg_error ''23514'' (''new row violates check constraint '' @ c)"

definition update_where :: "('r \<Rightarrow> bool) \<Rightarrow> ('r \<Rightarrow> 'r) \<Rightarrow> 'r list \<Rightarrow> 'r list" where
  "update_where P f rs = map (\<lambda>r. if P r then f r else r) rs"

lemma set_update_where: "set (update_where P f rs) = (\<lambda>r. if P r then f r else r) ` set rs"
  by (simp add: update_where_def)

lemma update_where_other [simp]: "(\<And>r. r \<in> set rs \<Longrightarrow> \<not> P r) \<Longrightarrow> update_where P f rs = rs"
  by (auto simp: update_where_def intro: map_idI)

lemma update_whereI: "r \<in> set rs \<Longrightarrow> (if P r then f r else r) \<in> set (update_where P f rs)"
  by (auto simp: set_update_where)

lemma map_update_where: "(\<And>r. g (f r) = g r) \<Longrightarrow> map g (update_where P f rs) = map g rs"
  by (simp add: update_where_def)

text \<open>Calls of the record repository of the same database.\<close>

definition in_records :: "(pg_db, 'a) act \<Rightarrow> (saas_db, 'a) act" where
  "in_records m = (\<lambda>s. case m (records s) of (r, d) \<Rightarrow> (r, s\<lparr>records := d\<rparr>))"

lemmas [act_simps] = query_def exec_def guarded_def in_records_def

lemma guarded_Inr: "guarded bad f s = (Inr u, t) \<longleftrightarrow> bad s = None \<and> t = f s"
  by (auto simp: guarded_def split: option.split)

lemma query_run [simp]: "query f s = (Inr (f s), s)"
  by (simp add: query_def)

lemma exec_run [simp]: "exec f s = (Inr (), f s)"
  by (simp add: exec_def)

lemma keeps_query [valid_intros]: "keeps P (query f)"
  by (simp add: keeps_def)

lemma keeps_exec: "(\<And>s. P s \<Longrightarrow> P (f s)) \<Longrightarrow> keeps P (exec f)"
  by (simp add: keeps_def)

lemma keeps_guarded: "(\<And>s. P s \<Longrightarrow> bad s = None \<Longrightarrow> P (f s)) \<Longrightarrow> keeps P (guarded bad f)"
  by (auto simp: keeps_def guarded_def split: option.split)

text \<open>An operation whose text depends on the state it starts in.\<close>

lemma keeps_at: "(\<And>t. keeps P (m t)) \<Longrightarrow> keeps P (\<lambda>s. m s s)"
  by (simp add: keeps_def)

section \<open>Random values\<close>

record app_env =
  sha256 :: "string \<Rightarrow> string" \<comment> \<open>in hexadecimal\<close>
  scrypt :: "string \<Rightarrow> string \<Rightarrow> string" \<comment> \<open>password and salt to 64 bytes\<close>
  random_bytes :: "nat \<Rightarrow> nat \<Rightarrow> string" \<comment> \<open>number of the draw and size\<close>
  random_uuid :: "nat \<Rightarrow> string"
  configured :: bool \<comment> \<open>whether \<^verbatim>\<open>DATABASE_URL\<close> is set\<close>
  parse_json :: "string \<Rightarrow> jsval option"
  pg_json :: "jsval \<Rightarrow> js_error + jsval" \<comment> \<open>what the driver makes of a JSON parameter that is no object\<close>
  url_of :: "string \<Rightarrow> (string \<times> string) option" \<comment> \<open>\<^verbatim>\<open>new URL\<close>: protocol and text, or none for an invalid one\<close>
  net_answer :: "nat \<Rightarrow> net_call \<Rightarrow> js_error + net_reply" \<comment> \<open>the network's answer to the call of a number\<close>
  text_le :: "string \<Rightarrow> string \<Rightarrow> bool" \<comment> \<open>the database's order of texts\<close>
  config :: "string \<Rightarrow> string" \<comment> \<open>\<^verbatim>\<open>process.env\<close>, the empty text where a name is not set\<close>

definition draw :: "(nat \<Rightarrow> 'a) \<Rightarrow> (saas_db, 'a) act" where
  "draw f = (\<lambda>s. (Inr (f (draws s)), s\<lparr>draws := Suc (draws s)\<rparr>))"

definition randomUUID :: "app_env \<Rightarrow> string \<Rightarrow> (saas_db, string) act" where
  "randomUUID env pre = draw (\<lambda>n. pre @ random_uuid env n)"

definition randomBytes :: "app_env \<Rightarrow> nat \<Rightarrow> (saas_db, string) act" where
  "randomBytes env k = draw (\<lambda>n. random_bytes env n k)"

lemmas [act_simps] = draw_def randomUUID_def randomBytes_def

lemma draw_run [simp]: "draw f s = (Inr (f (draws s)), s\<lparr>draws := Suc (draws s)\<rparr>)"
  by (simp add: draw_def)

lemma random_run [simp]:
  "randomUUID env pre s = (Inr (pre @ random_uuid env (draws s)), s\<lparr>draws := Suc (draws s)\<rparr>)"
  "randomBytes env k s = (Inr (random_bytes env (draws s) k), s\<lparr>draws := Suc (draws s)\<rparr>)"
  by (simp_all add: randomUUID_def randomBytes_def)

definition json_text :: "jsval \<Rightarrow> string" where
  "json_text v = (case stringify v of Some t \<Rightarrow> t | None \<Rightarrow> [])"

definition fetch :: "app_env \<Rightarrow> net_call \<Rightarrow> (saas_db, net_reply) act" where
  "fetch env c = (\<lambda>s. (net_answer env (length (net_calls s)) c, s\<lparr>net_calls := net_calls s @ [c]\<rparr>))"

text \<open>\<^verbatim>\<open>getProductionStore\<close>, where the caller needs a store.\<close>

definition storeOr :: "app_env \<Rightarrow> js_error \<Rightarrow> (saas_db, unit) act" where
  "storeOr env e = (if configured env then ret () else throw e)"

text \<open>
  A value passed for a JSON column: the driver sends an object as its JSON text; what it sends for
  other values, and whether the database then accepts it, is the driver's business.
\<close>

definition json_param :: "app_env \<Rightarrow> jsval \<Rightarrow> js_error + jsval" where
  "json_param env v = (if is_obj v then Inr (to_json v) else pg_json env v)"

definition lift :: "js_error + 'a \<Rightarrow> ('s, 'a) act" where
  "lift r = (case r of Inl e \<Rightarrow> throw e | Inr a \<Rightarrow> ret a)"

lemma lift_simps [simp]: "lift (Inl e) = throw e" "lift (Inr a) = ret a"
  by (simp_all add: lift_def)

lemma keeps_lift [valid_intros]: "keeps P (lift r)"
  by (cases r) (simp_all add: keeps_ret keeps_throw)

text \<open>BEGIN, the statements, COMMIT, or ROLLBACK and the error; random values stay drawn.\<close>

definition in_transaction :: "(saas_db, 'a) act \<Rightarrow> (saas_db, 'a) act" where
  "in_transaction m = (\<lambda>s. case m s of (Inr a, t) \<Rightarrow> (Inr a, t) | (Inl e, t) \<Rightarrow> (Inl e, s\<lparr>draws := draws t\<rparr>))"

definition time_json :: "int \<Rightarrow> jsval" where
  "time_json t = Str (iso_of_ms t)"

text \<open>A nullable column in a row the driver returns.\<close>

definition or_null_col :: "('a \<Rightarrow> jsval) \<Rightarrow> 'a option \<Rightarrow> jsval" where
  "or_null_col f x = (case x of None \<Rightarrow> Null | Some a \<Rightarrow> f a)"

text \<open>\<^verbatim>\<open>ORDER BY\<close> a text column\<close>

fun insert_by :: "('r \<Rightarrow> 'r \<Rightarrow> bool) \<Rightarrow> 'r \<Rightarrow> 'r list \<Rightarrow> 'r list" where
  "insert_by le x [] = [x]"
| "insert_by le x (y # ys) = (if le x y then x # y # ys else y # insert_by le x ys)"

definition sort_by :: "('r \<Rightarrow> 'r \<Rightarrow> bool) \<Rightarrow> 'r list \<Rightarrow> 'r list" where
  "sort_by le rs = foldr (insert_by le) rs []"

lemma set_insert_by [simp]: "set (insert_by le x ys) = insert x (set ys)"
  by (induction ys) auto

lemma set_sort_by [simp]: "set (sort_by le rs) = set rs"
  unfolding sort_by_def by (induction rs) auto

lemma length_insert_by [simp]: "length (insert_by le x ys) = Suc (length ys)"
  by (induction ys) auto

lemma length_sort_by [simp]: "length (sort_by le rs) = length rs"
  unfolding sort_by_def by (induction rs) auto

text \<open>\<^verbatim>\<open>ORDER BY k DESC LIMIT n\<close>; rows with equal keys keep the table's order, which Postgres leaves open.\<close>

definition newest :: "('r \<Rightarrow> int) \<Rightarrow> nat \<Rightarrow> 'r list \<Rightarrow> 'r list" where
  "newest k n rs = take n (sort_key (\<lambda>r. - k r) rs)"

end
