(* ===== verification/Accounts.thy ===== *)
theory Accounts
  imports Database
begin

text \<open>
  Accounts, sessions and workspaces (\<^verbatim>\<open>packages/auth/email_auth.js\<close>), verification and password reset
  (\<^verbatim>\<open>packages/auth/email_lifecycle.js\<close>) and invitations (\<^verbatim>\<open>packages/auth/workspace_membership.js\<close>),
  on the database. The transactions of the last two hold statements that break no constraint once
  their first one has succeeded, so they are sequences here.
\<close>

section \<open>Helpers\<close>

definition normalizeEmail :: "jsval \<Rightarrow> string" where
  "normalizeEmail e = toLowerCase (trim (to_str (js_or e (Str []))))"

text \<open>\<^verbatim>\<open>/^\S+@\S+\.\S+$/\<close>\<close>

definition email_shape :: "string \<Rightarrow> bool" where
  "email_shape s \<longleftrightarrow> list_all (\<lambda>c. \<not> is_space c) s
     \<and> list_ex (\<lambda>i. s ! i = CHR ''@'' \<and> list_ex (\<lambda>j. s ! j = CHR ''.'') [i + 2..<length s - 1]) [1..<length s]"

definition session_days :: int where
  "session_days = 30"

definition hashPassword :: "app_env \<Rightarrow> jsval \<Rightarrow> (saas_db, string) act" where
  "hashPassword env password =
     bnd (randomBytes env 16) (\<lambda>bytes. let salt = to_hex bytes in
     ret (''scrypt$'' @ salt @ ''$'' @ to_hex (scrypt env (to_str password) salt)))"

definition verifyPassword :: "app_env \<Rightarrow> jsval \<Rightarrow> string \<Rightarrow> bool" where
  "verifyPassword env password encoded =
     (let parts = split_on (CHR ''$'') encoded; salt = part 1 parts; hex = part 2 parts in
      if salt = [] \<or> hex = [] then False else of_hex hex = scrypt env (to_str password) salt)"

text \<open>\<^verbatim>\<open>ensureAuthSchema\<close> creates the tables and enters every workspace's owner who is not a member yet.\<close>

definition is_member :: "saas_db \<Rightarrow> string \<Rightarrow> string \<Rightarrow> bool" where
  "is_member s w u \<longleftrightarrow> (\<exists>m \<in> set (members s). mem_workspace m = w \<and> mem_user m = u)"

definition backfill_owner :: "workspace_row \<Rightarrow> saas_db \<Rightarrow> saas_db" where
  "backfill_owner w s =
     (if is_member s (wsp_tenant w) (wsp_owner w) then s
      else s\<lparr>members := members s @ [\<lparr>mem_workspace = wsp_tenant w, mem_user = wsp_owner w, mem_role = ''owner'',
             mem_status = ''active'', mem_joined = now s\<rparr>]\<rparr>)"

definition ensureAuthSchema :: "app_env \<Rightarrow> (saas_db, unit) act" where
  "ensureAuthSchema env =
     bnd (storeOr env (Error ''DATABASE_NOT_CONFIGURED'')) (\<lambda>_. exec (\<lambda>s. fold backfill_owner (workspaces s) s))"

section \<open>Sessions\<close>

definition insert_session :: "session_row \<Rightarrow> (saas_db, unit) act" where
  "insert_session r = guarded
     (\<lambda>s. first_error
       [(\<exists>x \<in> set (sessions s). ses_id x = ses_id r, unique_violation ''bos_sessions_pkey''),
        (\<exists>x \<in> set (sessions s). ses_hash x = ses_hash r, unique_violation ''bos_sessions_token_hash_key''),
        (\<forall>u \<in> set (users s). usr_id u \<noteq> ses_user r, foreign_key_violation ''bos_sessions_user_id_fkey'')])
     (\<lambda>s. s\<lparr>sessions := sessions s @ [r]\<rparr>)"

definition create_session :: "app_env \<Rightarrow> string \<Rightarrow> string option \<Rightarrow> (saas_db, string \<times> int) act" where
  "create_session env userId workspaceId =
     bnd (ensureAuthSchema env) (\<lambda>_.
     bnd (randomBytes env 32) (\<lambda>bytes. let token = base64url bytes in
     bnd (randomUUID env ''session_'') (\<lambda>i.
     bnd (query (\<lambda>s. app_now s + session_days * 86400000)) (\<lambda>expires.
     bnd (insert_session \<lparr>ses_id = i, ses_user = userId, ses_hash = sha256 env token, ses_expires = expires, ses_workspace = workspaceId\<rparr>) (\<lambda>_.
     ret (token, expires))))))"

record session_info =
  si_id :: string
  si_user :: string
  si_expires :: int
  si_workspace :: "string option"
  si_email :: string
  si_name :: string
  si_status :: string

text \<open>\<^verbatim>\<open>SELECT ... FROM bos_sessions s JOIN bos_users u ... WHERE s.token_hash=$1 AND s.expires_at>NOW() AND u.status='active'\<close>\<close>

definition select_session :: "string \<Rightarrow> saas_db \<Rightarrow> session_info list" where
  "select_session h s =
     [\<lparr>si_id = ses_id x, si_user = ses_user x, si_expires = ses_expires x, si_workspace = ses_workspace x,
       si_email = usr_email u, si_name = usr_name u, si_status = usr_status u\<rparr>.
       x \<leftarrow> sessions s, u \<leftarrow> users s, usr_id u = ses_user x \<and> ses_hash x = h \<and> ses_expires x > now s \<and> usr_status u = ''active'']"

definition row0 :: "'r list \<Rightarrow> 'r option" where
  "row0 rs = (case rs of [] \<Rightarrow> None | r # _ \<Rightarrow> Some r)"

text \<open>Tokens come from cookies: a text, or nothing.\<close>

definition getSession :: "app_env \<Rightarrow> string \<Rightarrow> (saas_db, session_info option) act" where
  "getSession env token =
     (if token = [] then ret None
      else bnd (ensureAuthSchema env) (\<lambda>_. query (\<lambda>s. row0 (select_session (sha256 env token) s))))"

definition revokeSession :: "app_env \<Rightarrow> string \<Rightarrow> (saas_db, unit) act" where
  "revokeSession env token =
     (if token = [] then ret ()
      else bnd (ensureAuthSchema env) (\<lambda>_. exec (\<lambda>s. s\<lparr>sessions := filter (\<lambda>x. ses_hash x \<noteq> sha256 env token) (sessions s)\<rparr>)))"

section \<open>Registration and login\<close>

record account =
  acc_id :: string
  acc_email :: string
  acc_name :: string

definition insert_user :: "user_row \<Rightarrow> (saas_db, unit) act" where
  "insert_user r = guarded
     (\<lambda>s. first_error
       [(\<exists>x \<in> set (users s). usr_id x = usr_id r, unique_violation ''bos_users_pkey''),
        (\<exists>x \<in> set (users s). usr_email x = usr_email r, unique_violation ''bos_users_email_key'')])
     (\<lambda>s. s\<lparr>users := users s @ [r]\<rparr>)"

definition users_with_email :: "string \<Rightarrow> saas_db \<Rightarrow> user_row list" where
  "users_with_email e s = filter (\<lambda>u. usr_email u = e) (users s)"

definition register :: "app_env \<Rightarrow> jsval \<Rightarrow> jsval \<Rightarrow> jsval \<Rightarrow> (saas_db, account) act" where
  "register env email password name =
     (let normalized = normalizeEmail email in
      if \<not> email_shape normalized then throw (Error ''VALID_EMAIL_REQUIRED'')
      else if length (to_str (js_or password (Str []))) < 8 then throw (Error ''PASSWORD_MIN_8'')
      else if trim (to_str (js_or name (Str []))) = [] then throw (Error ''NAME_REQUIRED'')
      else
        bnd (ensureAuthSchema env) (\<lambda>_.
        bnd (query (users_with_email normalized)) (\<lambda>found.
        if found \<noteq> [] then throw (Error ''EMAIL_ALREADY_REGISTERED'')
        else
          bnd (randomUUID env ''user_'') (\<lambda>i.
          bnd (hashPassword env password) (\<lambda>hash.
          bnd (insert_user \<lparr>usr_id = i, usr_email = normalized, usr_password_hash = hash, usr_name = trim (to_str name),
                 usr_status = ''active'', usr_verified = None\<rparr>) (\<lambda>_.
          ret \<lparr>acc_id = i, acc_email = normalized, acc_name = trim (to_str name)\<rparr>))))))"

definition login :: "app_env \<Rightarrow> jsval \<Rightarrow> jsval \<Rightarrow> (saas_db, account) act" where
  "login env email password =
     bnd (ensureAuthSchema env) (\<lambda>_.
     bnd (query (users_with_email (normalizeEmail email))) (\<lambda>found.
     case found of
       [] \<Rightarrow> throw (Error ''INVALID_CREDENTIALS'')
     | u # _ \<Rightarrow>
         if usr_status u \<noteq> ''active'' \<or> \<not> verifyPassword env password (usr_password_hash u) then throw (Error ''INVALID_CREDENTIALS'')
         else ret \<lparr>acc_id = usr_id u, acc_email = usr_email u, acc_name = usr_name u\<rparr>))"

section \<open>Workspaces\<close>

record workspace_info =
  wi_tenant :: string
  wi_business :: string
  wi_plan :: string
  wi_role :: string
  wi_created :: int
  wi_updated :: int

text \<open>
  \<^verbatim>\<open>SELECT ... FROM bos_workspaces w JOIN bos_workspace_members m ... ORDER BY CASE ..., w.created_at LIMIT 1\<close>:
  a preferred workspace is also a condition, so the first key never decides; equal times keep the
  table's order, which Postgres leaves open.
\<close>

definition select_workspaces :: "string \<Rightarrow> string option \<Rightarrow> saas_db \<Rightarrow> workspace_info list" where
  "select_workspaces userId preferred s = sort_key wi_created
     [\<lparr>wi_tenant = wsp_tenant w, wi_business = wsp_business w, wi_plan = wsp_plan w, wi_role = mem_role m,
       wi_created = wsp_created w, wi_updated = wsp_updated w\<rparr>.
       w \<leftarrow> workspaces s, m \<leftarrow> members s, mem_workspace m = wsp_tenant w \<and> mem_user m = userId \<and> mem_status m = ''active''
         \<and> (preferred = None \<or> preferred = Some (wsp_tenant w))]"

definition getWorkspaceForUser :: "app_env \<Rightarrow> string \<Rightarrow> string option \<Rightarrow> (saas_db, workspace_info option) act" where
  "getWorkspaceForUser env userId preferred =
     bnd (ensureAuthSchema env) (\<lambda>_. query (\<lambda>s. row0 (select_workspaces userId preferred s)))"

definition setActiveWorkspace :: "app_env \<Rightarrow> string \<Rightarrow> string \<Rightarrow> (saas_db, workspace_info option) act" where
  "setActiveWorkspace env token workspaceId =
     bnd (ensureAuthSchema env) (\<lambda>_.
     bnd (getSession env token) (\<lambda>session. case session of
       None \<Rightarrow> throw (Error ''UNAUTHENTICATED'')
     | Some info \<Rightarrow>
         bnd (query (\<lambda>s. \<exists>m \<in> set (members s). mem_workspace m = workspaceId \<and> mem_user m = si_user info \<and> mem_status m = ''active'')) (\<lambda>ok.
         if \<not> ok then throw (Error ''WORKSPACE_ACCESS_DENIED'')
         else
           bnd (exec (\<lambda>s. s\<lparr>sessions := update_where (\<lambda>x. ses_id x = si_id info) (\<lambda>x. x\<lparr>ses_workspace := Some workspaceId\<rparr>) (sessions s)\<rparr>)) (\<lambda>_.
           getWorkspaceForUser env (si_user info) (Some workspaceId)))))"

text \<open>\<^verbatim>\<open>INSERT INTO bos_workspaces ... ON CONFLICT(owner_user_id) DO UPDATE SET business_name, updated_at\<close>\<close>

definition upsert_workspace :: "string \<Rightarrow> string \<Rightarrow> string \<Rightarrow> (saas_db, unit) act" where
  "upsert_workspace tenantId userId business = guarded
     (\<lambda>s. if \<exists>w \<in> set (workspaces s). wsp_owner w = userId then None else first_error
       [(\<exists>w \<in> set (workspaces s). wsp_tenant w = tenantId, unique_violation ''bos_workspaces_pkey''),
        (\<forall>u \<in> set (users s). usr_id u \<noteq> userId, foreign_key_violation ''bos_workspaces_owner_user_id_fkey'')])
     (\<lambda>s. if \<exists>w \<in> set (workspaces s). wsp_owner w = userId
       then s\<lparr>workspaces := update_where (\<lambda>w. wsp_owner w = userId) (\<lambda>w. w\<lparr>wsp_business := business, wsp_updated := now s\<rparr>) (workspaces s)\<rparr>
       else s\<lparr>workspaces := workspaces s @ [\<lparr>wsp_tenant = tenantId, wsp_owner = userId, wsp_business = business,
              wsp_plan = ''early_access_free'', wsp_created = now s, wsp_updated = now s\<rparr>]\<rparr>)"

definition roles :: "string list" where
  "roles = [''owner'', ''admin'', ''member'', ''viewer'']"

text \<open>\<^verbatim>\<open>INSERT INTO bos_workspace_members ... ON CONFLICT(workspace_id,user_id) DO UPDATE SET role, status='active'\<close>\<close>

definition upsert_member :: "string \<Rightarrow> string \<Rightarrow> string \<Rightarrow> (saas_db, unit) act" where
  "upsert_member workspaceId userId role = guarded
     (\<lambda>s. first_error
       [(role \<notin> set roles, check_violation ''bos_workspace_members_role_check''),
        (\<forall>w \<in> set (workspaces s). wsp_tenant w \<noteq> workspaceId, foreign_key_violation ''bos_workspace_members_workspace_id_fkey''),
        (\<forall>u \<in> set (users s). usr_id u \<noteq> userId, foreign_key_violation ''bos_workspace_members_user_id_fkey'')])
     (\<lambda>s. if is_member s workspaceId userId
       then s\<lparr>members := update_where (\<lambda>m. mem_workspace m = workspaceId \<and> mem_user m = userId)
                (\<lambda>m. m\<lparr>mem_role := role, mem_status := ''active''\<rparr>) (members s)\<rparr>
       else s\<lparr>members := members s @ [\<lparr>mem_workspace = workspaceId, mem_user = userId, mem_role = role, mem_status = ''active'', mem_joined = now s\<rparr>]\<rparr>)"

definition createOrUpdateWorkspace ::
  "app_env \<Rightarrow> string \<Rightarrow> jsval \<Rightarrow> jsval \<Rightarrow> jsval \<Rightarrow> jsval \<Rightarrow> jsval \<Rightarrow> (saas_db, workspace_info option) act" where
  "createOrUpdateWorkspace env userId businessName email ownerName authProvider googleSubject =
     (let cleanName = trim (to_str (js_or businessName (Str []))) in
      if cleanName = [] then throw (Error ''BUSINESS_NAME_REQUIRED'')
      else
        bnd (ensureAuthSchema env) (\<lambda>_.
        bnd (query (\<lambda>s. row0 (filter (\<lambda>w. wsp_owner w = userId) (workspaces s)))) (\<lambda>existing.
        bnd (case existing of Some w \<Rightarrow> ret (wsp_tenant w) | None \<Rightarrow> randomUUID env ''tenant_'') (\<lambda>tenantId.
        bnd (upsert_workspace tenantId userId cleanName) (\<lambda>_.
        bnd (upsert_member tenantId userId ''owner'') (\<lambda>_.
        bnd (query (\<lambda>s. iso_of_ms (app_now s))) (\<lambda>time.
        bnd (in_records (pg_save (Str tenantId) ''workspace'' (Str ''profile'')
          (Obj ([(''tenantId'', Str tenantId), (''userId'', Str userId), (''businessName'', Str cleanName),
                 (''ownerName'', Str (trim (to_str (js_or ownerName (Str []))))), (''email'', Str (normalizeEmail email)), (''authProvider'', authProvider)]
                @ (if truthy googleSubject then [(''googleSubject'', googleSubject)] else [])
                @ [(''plan'', Str ''early_access_free''), (''createdAt'', Str time), (''updatedAt'', Str time)])))) (\<lambda>_.
        getWorkspaceForUser env userId (Some tenantId)))))))))"

section \<open>Cookies\<close>

definition parse_pair :: "string \<Rightarrow> js_error + (string \<times> jsval)" where
  "parse_pair p =
     (let i = length (takeWhile (\<lambda>c. c \<noteq> CHR ''='') p);
          key = (if i < length p then take i p else butlast p); v = (if i < length p then drop (i + 1) p else p)
      in map_sum id (\<lambda>x. (trim key, Str x)) (decodeURIComponent (trim v)))"

fun parse_pairs :: "string list \<Rightarrow> js_error + jsval js_map" where
  "parse_pairs [] = Inr []"
| "parse_pairs (p # ps) =
     (case parse_pair p of Inl e \<Rightarrow> Inl e | Inr kv \<Rightarrow> map_sum id ((#) kv) (parse_pairs ps))"

definition parseCookies :: "string \<Rightarrow> js_error + jsval" where
  "parseCookies h = map_sum id (\<lambda>kvs. Obj (put_fields [] kvs)) (parse_pairs (filter (\<lambda>p. p \<noteq> []) (split_on (CHR '';'') h)))"

definition session_cookie :: "string \<Rightarrow> string" where
  "session_cookie token = ''bos_session='' @ encodeURIComponent token @ ''; Path=/; HttpOnly; Secure; SameSite=Lax; Max-Age='' @ int_str (session_days * 86400)"

definition cleared_cookie :: string where
  "cleared_cookie = ''bos_session=; Path=/; HttpOnly; Secure; SameSite=Lax; Max-Age=0''"

end
