(* ===== verification/Lifecycle.thy ===== *)
theory Lifecycle
  imports Accounts
begin

text \<open>
  Email verification and password reset (\<^verbatim>\<open>packages/auth/email_lifecycle.js\<close>) and invitations
  (\<^verbatim>\<open>packages/auth/workspace_membership.js\<close>), and the histories of all account operations.
\<close>

section \<open>Verification and password reset\<close>

text \<open>\<^verbatim>\<open>schema()\<close> only creates tables and columns.\<close>

definition auth_schema :: "app_env \<Rightarrow> (saas_db, unit) act" where
  "auth_schema env = storeOr env (Error ''DATABASE_NOT_CONFIGURED'')"

definition insert_token :: "token_row \<Rightarrow> (saas_db, unit) act" where
  "insert_token r = guarded
     (\<lambda>s. first_error
       [(\<exists>x \<in> set (tokens s). tok_id x = tok_id r, unique_violation ''bos_auth_tokens_pkey''),
        (\<exists>x \<in> set (tokens s). tok_hash x = tok_hash r, unique_violation ''bos_auth_tokens_token_hash_key''),
        (\<forall>u \<in> set (users s). usr_id u \<noteq> tok_user r, foreign_key_violation ''bos_auth_tokens_user_id_fkey'')])
     (\<lambda>s. s\<lparr>tokens := tokens s @ [r]\<rparr>)"

definition hour :: int where
  "hour = 3600000"

definition issue_token :: "app_env \<Rightarrow> string \<Rightarrow> string \<Rightarrow> (saas_db, string) act" where
  "issue_token env userId type =
     bnd (auth_schema env) (\<lambda>_.
     bnd (randomBytes env 32) (\<lambda>bytes. let token = base64url bytes in
     bnd (exec (\<lambda>s. s\<lparr>tokens := update_where (\<lambda>t. tok_user t = userId \<and> tok_type t = type \<and> tok_used t = None)
            (\<lambda>t. t\<lparr>tok_used := Some (now s)\<rparr>) (tokens s)\<rparr>)) (\<lambda>_.
     bnd (randomUUID env ''auth_'') (\<lambda>i.
     bnd (query now) (\<lambda>time.
     bnd (insert_token \<lparr>tok_id = i, tok_user = userId, tok_type = type, tok_hash = sha256 env token,
            tok_expires = time + (if type = ''verification'' then 24 else 1) * hour, tok_used = None\<rparr>) (\<lambda>_.
     ret token))))))"

record sent =
  sent_ok :: bool
  sent_reason :: string
  sent_status :: "int option"

definition resend_url :: string where
  "resend_url = ''https://api.resend.com/emails''"

definition sendEmail :: "app_env \<Rightarrow> string \<Rightarrow> string \<Rightarrow> string \<Rightarrow> (saas_db, sent) act" where
  "sendEmail env recipient subject html =
     (let key = trim (config env ''RESEND_API_KEY''); sender = trim (config env ''BOS_EMAIL_FROM'') in
      if key = [] \<or> sender = [] then ret \<lparr>sent_ok = False, sent_reason = ''EMAIL_PROVIDER_NOT_CONFIGURED'', sent_status = None\<rparr>
      else
        bnd (fetch env \<lparr>nc_url = resend_url, nc_method = ''POST'',
               nc_headers = [(''authorization'', Str (''Bearer '' @ key)), (''content-type'', Str ''application/json'')],
               nc_body = json_text (Obj [(''from'', Str sender), (''to'', Str recipient), (''subject'', Str subject), (''html'', Str html)]),
               nc_timeout = Undefined\<rparr>) (\<lambda>r.
        if \<not> nr_ok r then ret \<lparr>sent_ok = False, sent_reason = ''EMAIL_PROVIDER_FAILED'', sent_status = Some (nr_status r)\<rparr>
        else ret \<lparr>sent_ok = True, sent_reason = [], sent_status = None\<rparr>))"

text \<open>\<^verbatim>\<open>String(process.env.BOS_APP_URL||'').replace(/\/$/,'')\<close>\<close>

definition app_url :: "app_env \<Rightarrow> string" where
  "app_url env = (let u = config env ''BOS_APP_URL'' in if u \<noteq> [] \<and> last u = CHR ''/'' then butlast u else u)"

definition link_html :: "string \<Rightarrow> string \<Rightarrow> string \<Rightarrow> string" where
  "link_html greeting link label = ''<p>'' @ greeting @ ''</p><p><a href=\"'' @ link @ ''\">'' @ label @ ''</a></p>''"

definition requestVerification :: "app_env \<Rightarrow> account \<Rightarrow> (saas_db, sent) act" where
  "requestVerification env user =
     bnd (issue_token env (acc_id user) ''verification'') (\<lambda>token.
     sendEmail env (acc_email user) ''Verify your BOS email''
       (link_html ''Welcome to BOS.'' (app_url env @ ''/verify-email?token='' @ encodeURIComponent token) ''Verify your email''))"

definition live_tokens :: "string \<Rightarrow> string \<Rightarrow> saas_db \<Rightarrow> token_row list" where
  "live_tokens type h s = filter (\<lambda>t. tok_hash t = h \<and> tok_type t = type \<and> tok_used t = None \<and> tok_expires t > now s) (tokens s)"

definition use_token :: "token_row \<Rightarrow> (saas_db, unit) act" where
  "use_token t = exec (\<lambda>s. s\<lparr>tokens := update_where (\<lambda>x. tok_id x = tok_id t) (\<lambda>x. x\<lparr>tok_used := Some (now s)\<rparr>) (tokens s)\<rparr>)"

definition verifyEmail :: "app_env \<Rightarrow> string \<Rightarrow> (saas_db, unit) act" where
  "verifyEmail env token =
     bnd (auth_schema env) (\<lambda>_.
     bnd (query (live_tokens ''verification'' (sha256 env token))) (\<lambda>found. case found of
       [] \<Rightarrow> throw (Error ''VERIFICATION_TOKEN_INVALID'')
     | t # _ \<Rightarrow>
         bnd (exec (\<lambda>s. s\<lparr>users := update_where (\<lambda>u. usr_id u = tok_user t) (\<lambda>u. u\<lparr>usr_verified := Some (now s)\<rparr>) (users s)\<rparr>)) (\<lambda>_.
         use_token t)))"

text \<open>\<^verbatim>\<open>{accepted:true}\<close> for an unknown address is the answer without a send result.\<close>

definition requestPasswordReset :: "app_env \<Rightarrow> jsval \<Rightarrow> (saas_db, sent option) act" where
  "requestPasswordReset env email =
     bnd (auth_schema env) (\<lambda>_.
     bnd (query (users_with_email (normalizeEmail email))) (\<lambda>found. case found of
       [] \<Rightarrow> ret None
     | u # _ \<Rightarrow>
         bnd (issue_token env (usr_id u) ''password_reset'') (\<lambda>token.
         bnd (sendEmail env (usr_email u) ''Reset your BOS password''
           (link_html ''Reset your BOS password.'' (app_url env @ ''/reset-password?token='' @ encodeURIComponent token) ''Reset password''
             @ ''<p>This link expires in 1 hour.</p>'')) (\<lambda>r. ret (Some r)))))"

definition resetPassword :: "app_env \<Rightarrow> string \<Rightarrow> jsval \<Rightarrow> (saas_db, unit) act" where
  "resetPassword env token newPassword =
     (if length (to_str (js_or newPassword (Str []))) < 8 then throw (Error ''PASSWORD_MIN_8'')
      else
        bnd (auth_schema env) (\<lambda>_.
        bnd (query (live_tokens ''password_reset'' (sha256 env token))) (\<lambda>found. case found of
          [] \<Rightarrow> throw (Error ''RESET_TOKEN_INVALID'')
        | t # _ \<Rightarrow>
            bnd (hashPassword env newPassword) (\<lambda>encoded.
            bnd (exec (\<lambda>s. s\<lparr>users := update_where (\<lambda>u. usr_id u = tok_user t) (\<lambda>u. u\<lparr>usr_password_hash := encoded\<rparr>) (users s)\<rparr>)) (\<lambda>_.
            bnd (use_token t) (\<lambda>_.
            exec (\<lambda>s. s\<lparr>sessions := filter (\<lambda>x. ses_user x \<noteq> tok_user t) (sessions s)\<rparr>)))))))"

section \<open>Invitations\<close>

definition status_error :: "string \<Rightarrow> int \<Rightarrow> js_error" where
  "status_error message status = Exn ''Error'' message [(''statusCode'', Num status)]"

definition pending_invitations :: "string \<Rightarrow> saas_db \<Rightarrow> invitation_row list" where
  "pending_invitations h s = filter (\<lambda>i. ivt_hash i = h \<and> ivt_status i = ''pending'' \<and> ivt_expires i > now s) (invitations s)"

definition acceptInvitation :: "app_env \<Rightarrow> string \<Rightarrow> jsval \<Rightarrow> (saas_db, string \<times> string) act" where
  "acceptInvitation env sessionToken token =
     bnd (getSession env sessionToken) (\<lambda>session. case session of
       None \<Rightarrow> throw (status_error ''UNAUTHENTICATED'' 401)
     | Some info \<Rightarrow>
         bnd (query (pending_invitations (sha256 env (to_str (js_or token (Str [])))))) (\<lambda>found. case found of
           [] \<Rightarrow> throw (status_error ''INVITATION_INVALID'' 400)
         | i # _ \<Rightarrow>
             if ivt_email i \<noteq> si_email info then throw (status_error ''INVITATION_EMAIL_MISMATCH'' 403)
             else
               bnd (upsert_member (ivt_workspace i) (si_user info) (ivt_role i)) (\<lambda>_.
               bnd (exec (\<lambda>s. s\<lparr>invitations := update_where (\<lambda>x. ivt_id x = ivt_id i) (\<lambda>x. x\<lparr>ivt_status := ''accepted''\<rparr>) (invitations s)\<rparr>)) (\<lambda>_.
               ret (ivt_workspace i, ivt_role i)))))"

definition listWorkspaces :: "string \<Rightarrow> (saas_db, workspace_info list) act" where
  "listWorkspaces userId = query (select_workspaces userId None)"

section \<open>Histories\<close>

datatype account_op =
    Register jsval jsval jsval
  | Login jsval jsval
  | OpenSession string "string option"
  | CloseSession string
  | SwitchWorkspace string string
  | SaveWorkspace string jsval jsval jsval jsval jsval
  | AskVerification account
  | VerifyEmail string
  | AskReset jsval
  | ResetPassword string jsval
  | AcceptInvitation string jsval
  | TimePasses nat nat

fun do_account :: "app_env \<Rightarrow> account_op \<Rightarrow> saas_db \<Rightarrow> saas_db" where
  "do_account env (Register email password name) s = snd (register env email password name s)"
| "do_account env (Login email password) s = snd (login env email password s)"
| "do_account env (OpenSession userId w) s = snd (create_session env userId w s)"
| "do_account env (CloseSession token) s = snd (revokeSession env token s)"
| "do_account env (SwitchWorkspace token w) s = snd (setActiveWorkspace env token w s)"
| "do_account env (SaveWorkspace u b e ow a g) s = snd (createOrUpdateWorkspace env u b e ow a g s)"
| "do_account env (AskVerification user) s = snd (requestVerification env user s)"
| "do_account env (VerifyEmail token) s = snd (verifyEmail env token s)"
| "do_account env (AskReset email) s = snd (requestPasswordReset env email s)"
| "do_account env (ResetPassword token password) s = snd (resetPassword env token password s)"
| "do_account env (AcceptInvitation sessionToken token) s = snd (acceptInvitation env sessionToken token s)"
| "do_account env (TimePasses d d') s = s\<lparr>records := (records s)\<lparr>pg_now := pg_now (records s) + int d\<rparr>, app_now := app_now s + int d'\<rparr>"

definition account_history :: "app_env \<Rightarrow> account_op list \<Rightarrow> saas_db \<Rightarrow> saas_db" where
  "account_history env ops = fold (do_account env) ops"

section \<open>What the operations leave alone\<close>

text \<open>
  A predicate that only looks at some tables is kept by every operation on the others. Each table
  has the operations that change it.
\<close>

lemma backfill_tables [simp]:
  "records (backfill_owner w s) = records s" "users (backfill_owner w s) = users s" "sessions (backfill_owner w s) = sessions s"
  "tokens (backfill_owner w s) = tokens s" "invitations (backfill_owner w s) = invitations s" "workspaces (backfill_owner w s) = workspaces s"
  "now (backfill_owner w s) = now s"
  by (simp_all add: backfill_owner_def now_def)

lemma backfill_all_tables [simp]:
  "records (fold backfill_owner ws s) = records s" "users (fold backfill_owner ws s) = users s" "sessions (fold backfill_owner ws s) = sessions s"
  "tokens (fold backfill_owner ws s) = tokens s" "invitations (fold backfill_owner ws s) = invitations s"
  "workspaces (fold backfill_owner ws s) = workspaces s" "now (fold backfill_owner ws s) = now s"
  by (induction ws arbitrary: s) simp_all

lemma keeps_storeOr [valid_intros]: "keeps P (storeOr env e)"
  by (simp add: storeOr_def keeps_ret keeps_throw)

lemma keeps_in_records: "keeps (\<lambda>s. Q (users s) (sessions s) (tokens s) (invitations s) (members s) (workspaces s)) (in_records m)"
  by (auto simp: keeps_def in_records_def split: prod.split)

lemma keeps_draw: "(\<And>s n. P (s\<lparr>draws := n\<rparr>) = P s) \<Longrightarrow> keeps P (draw f)"
  by (simp add: keeps_def draw_def)

lemma keeps_case_list [valid_intros]:
  "keeps P a \<Longrightarrow> (\<And>x xs. keeps P (f x xs)) \<Longrightarrow> keeps P (case l of [] \<Rightarrow> a | x # xs \<Rightarrow> f x xs)"
  by (cases l) simp_all

lemma keeps_case_option [valid_intros]:
  "keeps P a \<Longrightarrow> (\<And>x. keeps P (f x)) \<Longrightarrow> keeps P (case l of None \<Rightarrow> a | Some x \<Rightarrow> f x)"
  by (cases l) simp_all

lemma keeps_Let [valid_intros]: "keeps P (f a) \<Longrightarrow> keeps P (let x = a in f x)"
  by simp

end
