(* ===== verification/AccountProperties.thy ===== *)
theory AccountProperties
  imports Lifecycle
begin

text \<open>
  What the account operations guarantee along every history: \<open>account_invariant\<close> reduces an invariant
  of histories to the changes of single rows the operations are made of, and is interpreted for each
  invariant the properties need.
\<close>

section \<open>Invariants of histories\<close>

text \<open>
  \<open>opens\<close>, \<open>closes\<close> and \<open>resets\<close> say which sessions may be opened, which token digests closed and
  whether passwords may be reset in the histories considered.
\<close>

fun allowed :: "app_env \<Rightarrow> (string \<Rightarrow> bool) \<Rightarrow> (string \<Rightarrow> bool) \<Rightarrow> bool \<Rightarrow> account_op \<Rightarrow> bool" where
  "allowed env opens closes resets (OpenSession u w) = opens u"
| "allowed env opens closes resets (CloseSession token) = closes (sha256 env token)"
| "allowed env opens closes resets (ResetPassword token password) = resets"
| "allowed env opens closes resets _ = True"

locale account_invariant =
  fixes env :: app_env
    and P :: "saas_db \<Rightarrow> bool"
    and opens :: "string \<Rightarrow> bool"
    and closes :: "string \<Rightarrow> bool"
    and resets :: bool
  assumes other: "\<lbrakk>P s; users t = users s; sessions t = sessions s; tokens t = tokens s; invitations t = invitations s; now s \<le> now t\<rbrakk> \<Longrightarrow> P t"
    and add_user: "\<lbrakk>P s; usr_id u \<notin> usr_id ` set (users s); usr_email u \<notin> usr_email ` set (users s)\<rbrakk> \<Longrightarrow> P (s\<lparr>users := users s @ [u]\<rparr>)"
    and verify_user: "P s \<Longrightarrow> P (s\<lparr>users := update_where U (\<lambda>u. u\<lparr>usr_verified := v\<rparr>) (users s)\<rparr>)"
    and set_password: "\<lbrakk>P s; resets\<rbrakk> \<Longrightarrow> P (s\<lparr>users := update_where U (\<lambda>u. u\<lparr>usr_password_hash := h\<rparr>) (users s)\<rparr>)"
    and add_session: "\<lbrakk>P s; opens (ses_user x); ses_id x \<notin> ses_id ` set (sessions s); ses_hash x \<notin> ses_hash ` set (sessions s)\<rbrakk>
      \<Longrightarrow> P (s\<lparr>sessions := sessions s @ [x]\<rparr>)"
    and switch_session: "P s \<Longrightarrow> P (s\<lparr>sessions := update_where X (\<lambda>x. x\<lparr>ses_workspace := w\<rparr>) (sessions s)\<rparr>)"
    and close_session: "\<lbrakk>P s; closes h\<rbrakk> \<Longrightarrow> P (s\<lparr>sessions := filter (\<lambda>x. ses_hash x \<noteq> h) (sessions s)\<rparr>)"
    and end_sessions: "\<lbrakk>P s; resets\<rbrakk> \<Longrightarrow> P (s\<lparr>sessions := filter (\<lambda>x. ses_user x \<noteq> i) (sessions s)\<rparr>)"
    and add_token: "\<lbrakk>P s; tok_id k \<notin> tok_id ` set (tokens s); tok_hash k \<notin> tok_hash ` set (tokens s)\<rbrakk> \<Longrightarrow> P (s\<lparr>tokens := tokens s @ [k]\<rparr>)"
    and use_tokens: "P s \<Longrightarrow> P (s\<lparr>tokens := update_where K (\<lambda>k. k\<lparr>tok_used := Some n\<rparr>) (tokens s)\<rparr>)"
    and accept_invitations: "P s \<Longrightarrow> P (s\<lparr>invitations := update_where I (\<lambda>j. j\<lparr>ivt_status := ''accepted''\<rparr>) (invitations s)\<rparr>)"
begin

lemma keeps_unseen:
  assumes "\<And>s. users (f s) = users s \<and> sessions (f s) = sessions s \<and> tokens (f s) = tokens s \<and> invitations (f s) = invitations s \<and> now (f s) = now s"
  shows "keeps P (exec f)" "keeps P (guarded bad f)"
  using assms by (auto intro!: keeps_exec keeps_guarded intro: other)

lemma keeps_drawing [valid_intros]: "keeps P (randomUUID env pre)" "keeps P (randomBytes env k)" "keeps P (hashPassword env pw)"
proof -
  have draw: "keeps P (draw f)" for f :: "nat \<Rightarrow> 'x" by (auto simp: keeps_def draw_def now_def intro: other)
  then show "keeps P (randomUUID env pre)" "keeps P (randomBytes env k)" by (simp_all add: randomUUID_def randomBytes_def)
  then show "keeps P (hashPassword env pw)" unfolding hashPassword_def Let_def randomBytes_def by (intro valid_intros draw)
qed

lemma keeps_sending [valid_intros]: "keeps P (fetch env c)" "keeps P (sendEmail env r sub html)"
proof -
  show f: "keeps P (fetch env c)" for c by (auto simp: keeps_def fetch_def now_def intro: other)
  show "keeps P (sendEmail env r sub html)" unfolding sendEmail_def Let_def by (intro valid_intros f)
qed

lemma keeps_schemas [valid_intros]: "keeps P (ensureAuthSchema env)" "keeps P (auth_schema env)"
  unfolding ensureAuthSchema_def auth_schema_def by (auto intro!: valid_intros keeps_unseen)

lemma keeps_members [valid_intros]: "keeps P (upsert_member w u role)" "keeps P (upsert_workspace tenant u business)"
  unfolding upsert_member_def upsert_workspace_def by (intro keeps_unseen, simp add: now_def)+

lemma keeps_saved [valid_intros]: "keeps P (in_records (pg_save n t i v))"
proof (rule keepsI)
  fix s assume P: "P s"
  obtain r d where run: "pg_save n t i v (records s) = (r, d)" by fastforce
  then have "pg_now d = pg_now (records s)" by (auto simp: pg_save_def Let_def split: option.splits if_splits)
  then have "P (s\<lparr>records := d\<rparr>)" using other [OF P, of "s\<lparr>records := d\<rparr>"] by (simp add: now_def)
  then show "P (snd (in_records (pg_save n t i v) s))" by (simp add: in_records_def run)
qed

lemma keeps_inserts [valid_intros]:
  "keeps P (insert_user r)" "keeps P (insert_token t)" "opens (ses_user x) \<Longrightarrow> keeps P (insert_session x)"
  unfolding insert_user_def insert_token_def insert_session_def
  by (rule keeps_guarded, auto split: if_splits intro!: add_user add_token add_session)+

lemma keeps_updates [valid_intros]:
  "keeps P (exec (\<lambda>s. s\<lparr>users := update_where Q (\<lambda>u. u\<lparr>usr_verified := Some (now s)\<rparr>) (users s)\<rparr>))"
  "keeps P (exec (\<lambda>s. s\<lparr>sessions := update_where Q' (\<lambda>x. x\<lparr>ses_workspace := Some w\<rparr>) (sessions s)\<rparr>))"
  "keeps P (exec (\<lambda>s. s\<lparr>tokens := update_where R (\<lambda>t. t\<lparr>tok_used := Some (now s)\<rparr>) (tokens s)\<rparr>))"
  "keeps P (use_token t)"
  "keeps P (exec (\<lambda>s. s\<lparr>invitations := update_where I (\<lambda>i. i\<lparr>ivt_status := ''accepted''\<rparr>) (invitations s)\<rparr>))"
  by (simp_all add: keeps_def use_token_def verify_user switch_session use_tokens accept_invitations)

lemma keeps_sessions [valid_intros]:
  "keeps P (getSession env token)" "opens u \<Longrightarrow> keeps P (create_session env u w)" "closes (sha256 env token) \<Longrightarrow> keeps P (revokeSession env token)"
proof -
  show "keeps P (getSession env token)" unfolding getSession_def by (intro valid_intros)
  show "keeps P (create_session env u w)" if "opens u" unfolding create_session_def Let_def by (intro valid_intros) (simp add: that)
  show "keeps P (revokeSession env token)" if "closes (sha256 env token)"
    unfolding revokeSession_def by (intro valid_intros) (simp add: keeps_def close_session that)
qed

lemma keeps_accounts [valid_intros]: "keeps P (register env e p n)" "keeps P (login env e p)"
  unfolding register_def login_def Let_def by (intro valid_intros)+

lemma keeps_workspaces [valid_intros]:
  "keeps P (getWorkspaceForUser env u w)" "keeps P (setActiveWorkspace env token v)" "keeps P (createOrUpdateWorkspace env u b e ow a g)"
proof -
  show g: "keeps P (getWorkspaceForUser env u w)" for u w unfolding getWorkspaceForUser_def by (intro valid_intros)
  show "keeps P (setActiveWorkspace env token v)" unfolding setActiveWorkspace_def by (intro valid_intros g)
  show "keeps P (createOrUpdateWorkspace env u b e ow a g)" unfolding createOrUpdateWorkspace_def Let_def by (intro valid_intros g)
qed

lemma keeps_lifecycle [valid_intros]:
  "keeps P (issue_token env u type)" "keeps P (requestVerification env user)" "keeps P (verifyEmail env token)"
  "keeps P (requestPasswordReset env email)" "keeps P (acceptInvitation env st it)" "resets \<Longrightarrow> keeps P (resetPassword env token pw)"
proof -
  show i: "keeps P (issue_token env u type)" for u type unfolding issue_token_def Let_def by (intro valid_intros)
  show "keeps P (requestVerification env user)" unfolding requestVerification_def by (intro valid_intros i)
  show "keeps P (requestPasswordReset env email)" unfolding requestPasswordReset_def by (intro valid_intros i)
  show "keeps P (verifyEmail env token)" unfolding verifyEmail_def by (intro valid_intros)
  show "keeps P (acceptInvitation env st it)" unfolding acceptInvitation_def by (intro valid_intros)
  show "keeps P (resetPassword env token pw)" if resets
    unfolding resetPassword_def by (intro valid_intros) (simp_all add: keeps_def set_password end_sessions that)
qed

lemma do_account_keeps: "\<lbrakk>P s; allowed env opens closes resets op\<rbrakk> \<Longrightarrow> P (do_account env op s)"
proof (cases op)
  case (TimePasses d d')
  assume "P s" then show ?thesis unfolding TimePasses do_account.simps by (rule other) (simp_all add: now_def)
qed (auto intro: keepsD valid_intros)

lemma history_keeps: "\<lbrakk>P s; \<forall>op \<in> set ops. allowed env opens closes resets op\<rbrakk> \<Longrightarrow> P (account_history env ops s)"
  unfolding account_history_def by (induction ops arbitrary: s) (simp_all add: do_account_keeps)

end

section \<open>Consistent tables\<close>

definition accounts_ok :: "saas_db \<Rightarrow> bool" where
  "accounts_ok s \<longleftrightarrow> distinct (map usr_id (users s)) \<and> distinct (map usr_email (users s))
     \<and> distinct (map ses_id (sessions s)) \<and> distinct (map ses_hash (sessions s))
     \<and> distinct (map tok_id (tokens s)) \<and> distinct (map tok_hash (tokens s))"

lemma map_updates [simp]:
  "map usr_id (update_where U (\<lambda>u. u\<lparr>usr_verified := v\<rparr>) us) = map usr_id us" "map usr_email (update_where U (\<lambda>u. u\<lparr>usr_verified := v\<rparr>) us) = map usr_email us"
  "map usr_id (update_where U (\<lambda>u. u\<lparr>usr_password_hash := h\<rparr>) us) = map usr_id us" "map usr_email (update_where U (\<lambda>u. u\<lparr>usr_password_hash := h\<rparr>) us) = map usr_email us"
  "map ses_id (update_where X (\<lambda>x. x\<lparr>ses_workspace := w\<rparr>) xs) = map ses_id xs" "map ses_hash (update_where X (\<lambda>x. x\<lparr>ses_workspace := w\<rparr>) xs) = map ses_hash xs"
  "map tok_id (update_where K (\<lambda>k. k\<lparr>tok_used := n\<rparr>) ks) = map tok_id ks" "map tok_hash (update_where K (\<lambda>k. k\<lparr>tok_used := n\<rparr>) ks) = map tok_hash ks"
  by (simp_all add: map_update_where)

lemma distinct_map_filterI: "distinct (map f xs) \<Longrightarrow> distinct (map f (filter Q xs))"
  by (induction xs) auto

interpretation accounts: account_invariant env accounts_ok "\<lambda>_. True" "\<lambda>_. True" True for env
  by unfold_locales (auto simp: accounts_ok_def distinct_map_filterI)

section \<open>Credentials\<close>

text \<open>An active account with a password hash.\<close>

definition has_credential :: "account \<Rightarrow> string \<Rightarrow> saas_db \<Rightarrow> bool" where
  "has_credential acc h s \<longleftrightarrow> accounts_ok s
     \<and> (\<exists>u \<in> set (users s). usr_id u = acc_id acc \<and> usr_email u = acc_email acc \<and> usr_name u = acc_name acc \<and> usr_password_hash u = h \<and> usr_status u = ''active'')"

interpretation credential: account_invariant env "has_credential acc h" "\<lambda>_. True" "\<lambda>_. True" False for env acc h
proof unfold_locales
  fix s U v
  assume P: "has_credential acc h s"
  have "accounts_ok (s\<lparr>users := update_where U (\<lambda>u. u\<lparr>usr_verified := v\<rparr>) (users s)\<rparr>)" using P accounts.verify_user by (auto simp: has_credential_def)
  moreover obtain u where u: "u \<in> set (users s)" "usr_id u = acc_id acc" "usr_email u = acc_email acc" "usr_name u = acc_name acc"
      "usr_password_hash u = h" "usr_status u = ''active''" using P by (auto simp: has_credential_def)
  ultimately show "has_credential acc h (s\<lparr>users := update_where U (\<lambda>u. u\<lparr>usr_verified := v\<rparr>) (users s)\<rparr>)"
    unfolding has_credential_def by (auto intro!: bexI [OF _ update_whereI [OF u(1)]])
qed (auto simp: has_credential_def accounts_ok_def distinct_map_filterI)

lemma row_of_email: "accounts_ok s \<Longrightarrow> u \<in> set (users s) \<Longrightarrow> users_with_email (usr_email u) s = [u]"
proof -
  have "distinct (map usr_email us) \<Longrightarrow> u \<in> set us \<Longrightarrow> filter (\<lambda>x. usr_email x = usr_email u) us = [u]" for us
    by (induction us) (auto simp: filter_empty_conv image_iff)
  then show "accounts_ok s \<Longrightarrow> u \<in> set (users s) \<Longrightarrow> users_with_email (usr_email u) s = [u]" by (simp add: accounts_ok_def users_with_email_def)
qed

lemma ensure_run: "configured env \<Longrightarrow> ensureAuthSchema env s = (Inr (), fold backfill_owner (workspaces s) s)"
  by (simp add: ensureAuthSchema_def storeOr_def)

text \<open>What hashing a password stores is recognized again, by exactly the passwords with the same derived bytes.\<close>

definition well_sized :: "app_env \<Rightarrow> bool" where
  "well_sized env \<longleftrightarrow> (\<forall>n k. length (random_bytes env n k) = k) \<and> (\<forall>p x. length (scrypt env p x) = 64)"

definition stored_hash :: "app_env \<Rightarrow> jsval \<Rightarrow> string \<Rightarrow> string" where
  "stored_hash env password salt = ''scrypt$'' @ salt @ ''$'' @ to_hex (scrypt env (to_str password) salt)"

lemma hashPassword_run: "hashPassword env p s = (Inr (stored_hash env p (to_hex (random_bytes env (draws s) 16))), s\<lparr>draws := Suc (draws s)\<rparr>)"
  by (simp add: hashPassword_def stored_hash_def Let_def bnd_run')

lemma verify_stored:
  assumes "well_sized env" "salt = to_hex b" "b \<noteq> []"
  shows "verifyPassword env p' (stored_hash env p salt) \<longleftrightarrow> scrypt env (to_str p') salt = scrypt env (to_str p) salt"
proof -
  have "CHR ''$'' \<notin> set hex_digits" by code_simp
  then have hex: "CHR ''$'' \<notin> set (to_hex x)" for x using set_to_hex [of x] by blast
  have "split_on (CHR ''$'') (''scrypt'' @ CHR ''$'' # salt @ CHR ''$'' # to_hex (scrypt env (to_str p) salt)) = [''scrypt'', salt, to_hex (scrypt env (to_str p) salt)]"
    using hex assms(2) by (simp only: split_on_append split_on_segment) (simp add: split_on_append split_on_segment)
  moreover have "scrypt env (to_str p) salt \<noteq> []" using assms(1) by (metis well_sized_def length_0_conv zero_neq_numeral)
  ultimately show ?thesis using assms(2,3)
    by (auto simp: verifyPassword_def stored_hash_def part_def Let_def)
qed

lemma credential_logs_in:
  assumes "has_credential acc (stored_hash env p salt) s" "configured env" "well_sized env" "salt = to_hex b" "b \<noteq> []" "normalizeEmail e = acc_email acc"
  shows "fst (login env e p' s) = (if scrypt env (to_str p') salt = scrypt env (to_str p) salt then Inr acc else Inl (Error ''INVALID_CREDENTIALS''))"
proof -
  obtain u where u: "u \<in> set (users s)" "usr_id u = acc_id acc" "usr_email u = acc_email acc" "usr_name u = acc_name acc"
    "usr_password_hash u = stored_hash env p salt" "usr_status u = ''active''" and ok: "accounts_ok s"
    using assms(1) by (auto simp: has_credential_def)
  have "users_with_email (acc_email acc) (fold backfill_owner (workspaces s) s) = [u]"
    using row_of_email [OF ok u(1)] u(3) by (simp add: users_with_email_def)
  then show ?thesis
    using u assms verify_stored [OF assms(3-5)] by (simp add: login_def ensure_run bnd_run' query_def)
qed

lemma register_account_Inr:
  assumes "register env e p n s = (Inr acc, s1)" "accounts_ok s"
  shows "configured env" "acc_email acc = normalizeEmail e" "acc_name acc = trim (to_str n)"
    "\<exists>k. has_credential acc (stored_hash env p (to_hex (random_bytes env k 16))) s1"
proof -
  have conf: "configured env" using assms(1) by (auto simp: register_def Let_def ensureAuthSchema_def storeOr_def bnd_run' split: if_splits)
  let ?t = "fold backfill_owner (workspaces s) s"
  obtain k d where run: "insert_user \<lparr>usr_id = acc_id acc, usr_email = normalizeEmail e, usr_password_hash = stored_hash env p (to_hex (random_bytes env k 16)),
      usr_name = trim (to_str n), usr_status = ''active'', usr_verified = None\<rparr> (?t\<lparr>draws := d\<rparr>) = (Inr (), s1)"
    and acc: "acc_email acc = normalizeEmail e" "acc_name acc = trim (to_str n)"
    using assms(1) conf by (auto simp: register_def Let_def ensure_run bnd_run' hashPassword_run split: if_splits prod.splits sum.splits)
  have "accounts_ok (?t\<lparr>draws := d\<rparr>)" using assms(2) by (simp add: accounts_ok_def)
  then have "accounts_ok s1" using keepsD [OF accounts.keeps_inserts(1), of "?t\<lparr>draws := d\<rparr>"] run by (metis snd_conv)
  then show "\<exists>k. has_credential acc (stored_hash env p (to_hex (random_bytes env k 16))) s1"
    using run acc by (auto simp: insert_user_def guarded_Inr has_credential_def)
  show "configured env" "acc_email acc = normalizeEmail e" "acc_name acc = trim (to_str n)" by fact+
qed

text \<open>C27: Functional. Once registered, an account logs in for good: along every history of account operations
  without a password reset, its address in any spelling that normalizes to the registered one, with
  a password, answers with the account exactly when the password derives the same bytes as the
  registered one, and is refused as invalid credentials otherwise.\<close>

theorem registered_account_logs_in:
  assumes "register env email password name s = (Inr acc, s1)" "accounts_ok s" "well_sized env"
  shows "\<exists>salt. length salt = 32 \<and> (\<forall>ops email' password'.
    (\<forall>op \<in> set ops. allowed env (\<lambda>_. True) (\<lambda>_. True) False op) \<longrightarrow> normalizeEmail email' = normalizeEmail email \<longrightarrow>
    fst (login env email' password' (account_history env ops s1))
    = (if scrypt env (to_str password') salt = scrypt env (to_str password) salt then Inr acc else Inl (Error ''INVALID_CREDENTIALS'')))"
proof -
  obtain k where k: "has_credential acc (stored_hash env password (to_hex (random_bytes env k 16))) s1"
    using register_account_Inr(4) [OF assms(1,2)] by blast
  have len: "length (random_bytes env k 16) = 16" using assms(3) by (simp add: well_sized_def)
  then have "random_bytes env k 16 \<noteq> []" by auto
  from credential_logs_in [OF credential.history_keeps [OF k] register_account_Inr(1) [OF assms(1,2)] assms(3) refl this]
  show ?thesis using register_account_Inr(2) [OF assms(1,2)] len
    by (intro exI [of _ "to_hex (random_bytes env k 16)"]) simp
qed

definition demo_app :: app_env where
  "demo_app = \<lparr>sha256 = (\<lambda>x. x), scrypt = (\<lambda>p x. take 64 (p @ replicate 64 (CHR ''0''))), random_bytes = (\<lambda>n k. replicate k (of_byte n)),
     random_uuid = nat_str, configured = True, parse_json = (\<lambda>_. None), pg_json = Inr, url_of = (\<lambda>u. Some (''https:'', u)), net_answer = (\<lambda>n c. Inr \<lparr>nr_ok = True, nr_status = 200, nr_text = ''{}''\<rparr>), text_le = (\<lambda>x y. length x \<le> length y), config = (\<lambda>_. [])\<rparr>"

definition empty_db :: saas_db where
  "empty_db = \<lparr>records = \<lparr>bos_records = [], pg_now = 1000\<rparr>, users = [], sessions = [], workspaces = [], members = [], invitations = [], tokens = [],
     workflows = [], versions = [], executions = [], steps = [], events = [], notifications = [], audits = [], integrations = [], jobs = [], billing = [], net_calls = [],
     app_now = 1000, draws = 0\<rparr>"

lemma demo_app_sized: "well_sized demo_app" "configured demo_app"
  by (simp_all add: well_sized_def demo_app_def min_def)

lemma empty_db_ok: "accounts_ok empty_db"
  by (simp add: accounts_ok_def empty_db_def)

lemma register_first:
  assumes "configured env" "users s = []" "email_shape (normalizeEmail e)" "8 \<le> length (to_str (js_or p (Str [])))" "trim (to_str (js_or n (Str []))) \<noteq> []"
  shows "\<exists>s1. register env e p n s = (Inr \<lparr>acc_id = ''user_'' @ random_uuid env (draws (fold backfill_owner (workspaces s) s)),
    acc_email = normalizeEmail e, acc_name = trim (to_str n)\<rparr>, s1)"
  using assms by (simp add: register_def Let_def ensure_run bnd_run' hashPassword_run users_with_email_def insert_user_def guarded_def)

lemma ann: "normalizeEmail (Str '' Ann@BOS.io'') = ''ann@bos.io''" "normalizeEmail (Str ''ann@bos.io '') = ''ann@bos.io''" "email_shape ''ann@bos.io''"
  by code_simp+

lemma demo_account_registered: "\<exists>acc s1. register demo_app (Str '' Ann@BOS.io'') (Str ''longenough'') (Str ''Ann'') empty_db = (Inr acc, s1) \<and> acc_name acc = ''Ann''"
proof -
  have "trim ''Ann'' = ''Ann''" by code_simp
  then show ?thesis
    using register_first [OF demo_app_sized(2), of empty_db "Str '' Ann@BOS.io''" "Str ''longenough''" "Str ''Ann''"]
    by (auto simp: ann js_or_def empty_db_def)
qed

theorem registered_account_logs_in_witness:
  "\<exists>acc s1. register demo_app (Str '' Ann@BOS.io'') (Str ''longenough'') (Str ''Ann'') empty_db = (Inr acc, s1) \<and> acc_name acc = ''Ann''
     \<and> fst (login demo_app (Str ''ann@bos.io '') (Str ''longenough'') (account_history demo_app [CloseSession ''x'', TimePasses 5 5] s1)) = Inr acc"
proof -
  obtain acc s1 where run: "register demo_app (Str '' Ann@BOS.io'') (Str ''longenough'') (Str ''Ann'') empty_db = (Inr acc, s1)" "acc_name acc = ''Ann''"
    using demo_account_registered by blast
  obtain salt where "\<forall>ops email' password'.
    (\<forall>op \<in> set ops. allowed demo_app (\<lambda>_. True) (\<lambda>_. True) False op) \<longrightarrow> normalizeEmail email' = normalizeEmail (Str '' Ann@BOS.io'') \<longrightarrow>
    fst (login demo_app email' password' (account_history demo_app ops s1))
    = (if scrypt demo_app (to_str password') salt = scrypt demo_app (to_str (Str ''longenough'')) salt then Inr acc else Inl (Error ''INVALID_CREDENTIALS''))"
    using registered_account_logs_in [OF run(1) empty_db_ok demo_app_sized(1)] by (elim exE conjE)
  from spec [OF spec [OF spec [OF this, of "[CloseSession ''x'', TimePasses 5 5]"], of "Str ''ann@bos.io ''"], of "Str ''longenough''"] run show ?thesis
    by (simp add: ann)
qed

end
