(* ===== verification/AccountSafety.thy ===== *)
theory AccountSafety
  imports AccountProperties
begin

text \<open>
  Sessions, reset tokens and invitations along the histories of the account operations.
\<close>

section \<open>Single rows\<close>

lemma unique_row: "distinct (map f rs) \<Longrightarrow> r \<in> set rs \<Longrightarrow> r' \<in> set rs \<Longrightarrow> f r = f r' \<Longrightarrow> r = r'"
  by (metis distinct_map inj_onD)

lemma row0_eq_None [simp]: "row0 xs = None \<longleftrightarrow> xs = []"
  by (cases xs) (simp_all add: row0_def)

lemma row0_simps [simp]: "row0 [] = None" "row0 (x # xs) = Some x"
  by (simp_all add: row0_def)

lemma row0_in: "row0 xs = Some x \<Longrightarrow> x \<in> set xs"
  by (cases xs) (simp_all add: row0_def)

lemma select_session_in: "i \<in> set (select_session h s) \<longleftrightarrow>
    (\<exists>x \<in> set (sessions s). \<exists>u \<in> set (users s). usr_id u = ses_user x \<and> ses_hash x = h \<and> ses_expires x > now s \<and> usr_status u = ''active''
      \<and> i = \<lparr>si_id = ses_id x, si_user = ses_user x, si_expires = ses_expires x, si_workspace = ses_workspace x,
             si_email = usr_email u, si_name = usr_name u, si_status = usr_status u\<rparr>)"
  by (force simp: select_session_def)

lemma select_session_backfill [simp]: "select_session h (fold backfill_owner ws s) = select_session h s"
  by (simp add: select_session_def)

lemma getSession_run: "configured env \<Longrightarrow> token \<noteq> [] \<Longrightarrow>
    getSession env token s = (Inr (row0 (select_session (sha256 env token) s)), fold backfill_owner (workspaces s) s)"
  by (simp add: getSession_def ensure_run bnd_run')

lemma getSession_found: "fst (getSession env token s) = Inr (Some info) \<Longrightarrow> token \<noteq> [] \<and> configured env \<and> info \<in> set (select_session (sha256 env token) s)"
  by (auto simp: getSession_def ensureAuthSchema_def storeOr_def bnd_run' split: if_splits dest: row0_in)

section \<open>Password reset\<close>

definition spent :: "string \<Rightarrow> saas_db \<Rightarrow> bool" where
  "spent h s \<longleftrightarrow> accounts_ok s \<and> (\<exists>t \<in> set (tokens s). tok_hash t = h \<and> tok_used t \<noteq> None)"

definition signed_out :: "string \<Rightarrow> saas_db \<Rightarrow> bool" where
  "signed_out u s \<longleftrightarrow> (\<forall>x \<in> set (sessions s). ses_user x \<noteq> u)"

interpretation spent: account_invariant env "spent h" "\<lambda>_. True" "\<lambda>_. True" True for env h
proof unfold_locales
  fix s K n
  assume P: "spent h s"
  then obtain t where t: "t \<in> set (tokens s)" "tok_hash t = h" "tok_used t \<noteq> None" by (auto simp: spent_def)
  show "spent h (s\<lparr>tokens := update_where K (\<lambda>k. k\<lparr>tok_used := Some n\<rparr>) (tokens s)\<rparr>)"
    using P t update_whereI [OF t(1), of K "\<lambda>k. k\<lparr>tok_used := Some n\<rparr>"] accounts.use_tokens [of s K n]
    by (auto simp: spent_def intro!: bexI [of _ "if K t then t\<lparr>tok_used := Some n\<rparr> else t"])
qed (auto simp: spent_def accounts_ok_def distinct_map_filterI)

interpretation signed_out: account_invariant env "signed_out u" "\<lambda>v. v \<noteq> u" "\<lambda>_. True" True for env u
  by unfold_locales (auto simp: signed_out_def set_update_where)

lemma spent_not_live: "spent h s \<Longrightarrow> live_tokens type h s = []"
  unfolding spent_def live_tokens_def accounts_ok_def by (auto simp: filter_empty_conv dest: unique_row)

lemma resetPassword_Inr:
  assumes "resetPassword env token pw s = (Inr (), s1)" "accounts_ok s"
  obtains t where "t \<in> set (tokens s)" "tok_hash t = sha256 env token" "tok_type t = ''password_reset''" "tok_used t = None" "now s < tok_expires t"
    "spent (sha256 env token) s1" "signed_out (tok_user t) s1" "configured env"
proof -
  have conf: "configured env" using assms(1) by (auto simp: resetPassword_def auth_schema_def storeOr_def split: if_splits)
  then obtain t ts where t: "live_tokens ''password_reset'' (sha256 env token) s = t # ts"
    using assms(1) by (auto simp: resetPassword_def auth_schema_def storeOr_def bnd_run' split: if_splits list.splits)
  then have live: "t \<in> set (tokens s)" "tok_hash t = sha256 env token" "tok_type t = ''password_reset''" "tok_used t = None" "now s < tok_expires t"
  proof -
    have "t \<in> set (live_tokens ''password_reset'' (sha256 env token) s)" using t by simp
    then show "t \<in> set (tokens s)" "tok_hash t = sha256 env token" "tok_type t = ''password_reset''" "tok_used t = None" "now s < tok_expires t"
      by (simp_all add: live_tokens_def)
  qed
  let ?s = "s\<lparr>draws := Suc (draws s)\<rparr>"
  let ?a = "?s\<lparr>users := update_where (\<lambda>u. usr_id u = tok_user t) (\<lambda>u. u\<lparr>usr_password_hash := stored_hash env pw (to_hex (random_bytes env (draws s) 16))\<rparr>) (users ?s)\<rparr>"
  let ?b = "?a\<lparr>tokens := update_where (\<lambda>x. tok_id x = tok_id t) (\<lambda>x. x\<lparr>tok_used := Some (now ?a)\<rparr>) (tokens ?a)\<rparr>"
  have s1: "s1 = ?b\<lparr>sessions := filter (\<lambda>x. ses_user x \<noteq> tok_user t) (sessions ?b)\<rparr>"
    using assms(1) conf t by (simp add: resetPassword_def auth_schema_def storeOr_def bnd_run' hashPassword_run use_token_def split: if_splits)
  have "accounts_ok ?b" using assms(2) by (simp add: accounts_ok_def)
  then have "accounts_ok s1" unfolding s1 by (intro accounts.end_sessions) simp_all
  moreover have "t\<lparr>tok_used := Some (now ?a)\<rparr> \<in> set (tokens s1)" using live(1) unfolding s1 by (auto simp: set_update_where)
  ultimately have "spent (sha256 env token) s1"
    unfolding spent_def using live(2) by (intro conjI bexI [of _ "t\<lparr>tok_used := Some (now ?a)\<rparr>"]) simp_all
  moreover have "signed_out (tok_user t) s1" unfolding s1 by (simp add: signed_out_def)
  ultimately show thesis using live conf that by blast
qed

text \<open>C28: Safety. A password reset needs an unused, unexpired reset token; it spends the token for good and signs
  its user out everywhere: along every history afterwards the token is refused, and until a new session
  is opened for the user no session token authenticates as the user, whichever was issued before.\<close>

theorem reset_spends_token_and_ends_sessions:
  assumes "resetPassword env token pw s = (Inr (), s1)" "accounts_ok s"
  shows "\<exists>t \<in> set (tokens s). tok_hash t = sha256 env token \<and> tok_type t = ''password_reset'' \<and> tok_used t = None \<and> now s < tok_expires t
    \<and> (\<forall>ops pw'. \<exists>e. fst (resetPassword env token pw' (account_history env ops s1)) = Inl e)
    \<and> (\<forall>ops tk info. (\<forall>op \<in> set ops. allowed env (\<lambda>u. u \<noteq> tok_user t) (\<lambda>_. True) True op) \<longrightarrow>
        fst (getSession env tk (account_history env ops s1)) = Inr (Some info) \<longrightarrow> si_user info \<noteq> tok_user t)"
proof -
  obtain t where t: "t \<in> set (tokens s)" "tok_hash t = sha256 env token" "tok_type t = ''password_reset''" "tok_used t = None" "now s < tok_expires t"
    and after: "spent (sha256 env token) s1" "signed_out (tok_user t) s1" "configured env"
    using resetPassword_Inr [OF assms] by metis
  have "\<exists>e. fst (resetPassword env token pw' (account_history env ops s1)) = Inl e" for ops pw'
  proof -
    have "\<forall>op \<in> set ops. allowed env (\<lambda>_. True) (\<lambda>_. True) True op" by (metis allowed.elims(3))
    then have "live_tokens ''password_reset'' (sha256 env token) (account_history env ops s1) = []"
      by (intro spent_not_live spent.history_keeps [OF after(1)])
    then show ?thesis by (simp add: resetPassword_def auth_schema_def storeOr_def bnd_run')
  qed
  moreover have "si_user info \<noteq> tok_user t" if "\<forall>op \<in> set ops. allowed env (\<lambda>u. u \<noteq> tok_user t) (\<lambda>_. True) True op"
    "fst (getSession env tk (account_history env ops s1)) = Inr (Some info)" for ops tk info
    using signed_out.history_keeps [OF after(2) that(1)] getSession_found [OF that(2)] by (auto simp: signed_out_def select_session_in)
  ultimately show ?thesis using t by blast
qed

definition demo_user :: user_row where
  "demo_user = \<lparr>usr_id = ''u1'', usr_email = ''ann@bos.io'', usr_password_hash = ''scrypt$00$00'', usr_name = ''Ann'', usr_status = ''active'', usr_verified = None\<rparr>"

definition demo_accounts :: saas_db where
  "demo_accounts = empty_db\<lparr>users := [demo_user],
     tokens := [\<lparr>tok_id = ''a1'', tok_user = ''u1'', tok_type = ''password_reset'', tok_hash = ''k1'', tok_expires = 5000, tok_used = None\<rparr>],
     sessions := [\<lparr>ses_id = ''s1'', ses_user = ''u1'', ses_hash = ''t.1'', ses_expires = 9000, ses_workspace = None\<rparr>],
     workspaces := [\<lparr>wsp_tenant = ''w1'', wsp_owner = ''u0'', wsp_business = ''Shop'', wsp_plan = ''free'', wsp_created = 0, wsp_updated = 0\<rparr>],
     members := [\<lparr>mem_workspace = ''w1'', mem_user = ''u0'', mem_role = ''owner'', mem_status = ''active'', mem_joined = 0\<rparr>],
     invitations := [\<lparr>ivt_id = ''i1'', ivt_workspace = ''w1'', ivt_email = ''ann@bos.io'', ivt_role = ''admin'', ivt_hash = ''h1'', ivt_status = ''pending'',
       ivt_expires = 8000, ivt_by = ''u0''\<rparr>]\<rparr>"

lemma demo_accounts_ok: "accounts_ok demo_accounts"
  by (simp add: accounts_ok_def demo_accounts_def empty_db_def)

lemma dotted_token [simp]: "''t.1'' \<noteq> base64url x"
proof
  assume "''t.1'' = base64url x"
  moreover have "CHR ''.'' \<in> set ''t.1''" by simp
  ultimately show False by (metis dot_not_in_base64url)
qed

lemma sha256_demo [simp]: "sha256 demo_app x = x"
  by (simp add: demo_app_def)

theorem reset_spends_token_and_ends_sessions_witness:
  "\<exists>s1. resetPassword demo_app ''k1'' (Str ''newpassword'') demo_accounts = (Inr (), s1)
     \<and> (\<exists>e. fst (resetPassword demo_app ''k1'' (Str ''another1'') (account_history demo_app [AskReset (Str ''ann@bos.io'')] s1)) = Inl e)"
proof -
  obtain s1 where run: "resetPassword demo_app ''k1'' (Str ''newpassword'') demo_accounts = (Inr (), s1)"
    by (simp add: resetPassword_def auth_schema_def storeOr_def demo_app_sized bnd_run' hashPassword_run use_token_def js_or_def live_tokens_def
        demo_accounts_def empty_db_def now_def)
  from reset_spends_token_and_ends_sessions [OF this demo_accounts_ok] this show ?thesis by blast
qed

section \<open>Sessions\<close>

definition live_session :: "string \<Rightarrow> string \<Rightarrow> int \<Rightarrow> saas_db \<Rightarrow> bool" where
  "live_session h u e s \<longleftrightarrow> accounts_ok s \<and> (\<exists>x \<in> set (sessions s). ses_hash x = h \<and> ses_user x = u \<and> ses_expires x = e)
     \<and> (\<exists>v \<in> set (users s). usr_id v = u \<and> usr_status v = ''active'')"

interpretation live_session: account_invariant env "live_session h u e" "\<lambda>_. True" "\<lambda>h'. h' \<noteq> h" False for env h u e
proof unfold_locales
  fix s U v
  assume P: "live_session h u e s"
  then obtain r where r: "r \<in> set (users s)" "usr_id r = u" "usr_status r = ''active''" by (auto simp: live_session_def)
  then show "live_session h u e (s\<lparr>users := update_where U (\<lambda>u. u\<lparr>usr_verified := v\<rparr>) (users s)\<rparr>)"
    using P accounts.verify_user [of s U v] by (auto simp: live_session_def intro!: bexI [OF _ update_whereI [OF r(1)]])
next
  fix s X w
  assume P: "live_session h u e s"
  then obtain x where x: "x \<in> set (sessions s)" "ses_hash x = h" "ses_user x = u" "ses_expires x = e" by (auto simp: live_session_def)
  then show "live_session h u e (s\<lparr>sessions := update_where X (\<lambda>x. x\<lparr>ses_workspace := w\<rparr>) (sessions s)\<rparr>)"
    using P accounts.switch_session [of s X w] by (auto simp: live_session_def intro!: bexI [OF _ update_whereI [OF x(1)]])
qed (auto simp: live_session_def accounts_ok_def distinct_map_filterI)

lemma live_session_found:
  assumes "live_session (sha256 env token) u e s" "configured env" "token \<noteq> []"
  shows "\<exists>r. fst (getSession env token s) = Inr r \<and> (case r of Some info \<Rightarrow> now s < e \<and> si_user info = u | None \<Rightarrow> e \<le> now s)"
proof -
  let ?h = "sha256 env token"
  obtain x v where x: "x \<in> set (sessions s)" "ses_hash x = ?h" "ses_user x = u" "ses_expires x = e"
    and v: "v \<in> set (users s)" "usr_id v = u" "usr_status v = ''active''" and ok: "accounts_ok s"
    using assms(1) by (auto simp: live_session_def)
  have only: "y = x" if "y \<in> set (sessions s)" "ses_hash y = ?h" for y
    using unique_row [of ses_hash "sessions s" y x] ok that x by (simp add: accounts_ok_def)
  have "now s < e \<and> si_user i = u" if "i \<in> set (select_session ?h s)" for i
  proof -
    obtain y where "y \<in> set (sessions s)" "ses_hash y = ?h" "now s < ses_expires y" "si_user i = ses_user y"
      using \<open>i \<in> set (select_session ?h s)\<close> unfolding select_session_in by auto
    moreover from this(1,2) have "y = x" by (rule only)
    ultimately show ?thesis using x by simp
  qed
  moreover have some: "select_session ?h s \<noteq> []" if "now s < e"
  proof -
    have "\<lparr>si_id = ses_id x, si_user = ses_user x, si_expires = ses_expires x, si_workspace = ses_workspace x,
        si_email = usr_email v, si_name = usr_name v, si_status = usr_status v\<rparr> \<in> set (select_session ?h s)"
      unfolding select_session_in using x v that by (intro bexI [of _ x] bexI [of _ v]) simp_all
    then show ?thesis by auto
  qed
  ultimately have "case row0 (select_session ?h s) of Some info \<Rightarrow> now s < e \<and> si_user info = u | None \<Rightarrow> e \<le> now s"
  proof (cases "row0 (select_session ?h s)")
    case None
    then have "\<not> now s < e" using some by auto
    then show ?thesis using None by simp
  qed (auto dest: row0_in)
  then show ?thesis using assms(2,3) by (simp add: getSession_run)
qed

definition new_session :: "app_env \<Rightarrow> string \<Rightarrow> string option \<Rightarrow> saas_db \<Rightarrow> session_row" where
  "new_session env u w t = \<lparr>ses_id = ''session_'' @ random_uuid env (Suc (draws t)), ses_user = u,
     ses_hash = sha256 env (base64url (random_bytes env (draws t) 32)), ses_expires = app_now t + 30 * 86400000, ses_workspace = w\<rparr>"

lemma app_now_backfill [simp]: "app_now (fold backfill_owner ws s) = app_now s"
  by (induction ws arbitrary: s) (simp_all add: backfill_owner_def)

lemma create_session_run:
  assumes "configured env"
  shows "create_session env u w s =
    (let t = fold backfill_owner (workspaces s) s; x = new_session env u w t in
     case insert_session x (t\<lparr>draws := Suc (Suc (draws t))\<rparr>) of
       (Inl e, s1) \<Rightarrow> (Inl e, s1) | (Inr _, s1) \<Rightarrow> (Inr (base64url (random_bytes env (draws t) 32), ses_expires x), s1))"
  using assms by (simp add: create_session_def Let_def ensure_run bnd_run' new_session_def session_days_def ret_def split: prod.split sum.split)

lemma create_session_Inr:
  assumes "create_session env u w s = (Inr (token, e), s1)" "accounts_ok s"
  shows "configured env" "e = app_now s + 30 * 86400000" "\<exists>k. token = base64url (random_bytes env k 32)"
    "v \<in> set (users s) \<Longrightarrow> usr_id v = u \<Longrightarrow> usr_status v = ''active'' \<Longrightarrow> live_session (sha256 env token) u e s1"
proof -
  let ?t = "fold backfill_owner (workspaces s) s"
  let ?d = "?t\<lparr>draws := Suc (Suc (draws ?t))\<rparr>" and ?x = "new_session env u w ?t"
  show conf: "configured env" using assms(1) by (auto simp: create_session_def ensureAuthSchema_def storeOr_def split: if_splits)
  have run: "insert_session ?x ?d = (Inr (), s1)" and e: "e = ses_expires ?x" and token: "token = base64url (random_bytes env (draws ?t) 32)"
    using assms(1) unfolding create_session_run [OF conf] Let_def by (auto split: prod.splits sum.splits)
  show "e = app_now s + 30 * 86400000" "\<exists>k. token = base64url (random_bytes env k 32)" using e token by (auto simp: new_session_def)
  assume v: "v \<in> set (users s)" "usr_id v = u" "usr_status v = ''active''"
  have "accounts_ok ?d" using assms(2) by (simp add: accounts_ok_def)
  then have ok: "accounts_ok s1" using keepsD [OF accounts.keeps_inserts(3) [OF TrueI], of ?d ?x] run by simp
  have s1: "s1 = ?d\<lparr>sessions := sessions ?d @ [?x]\<rparr>" using run by (simp add: insert_session_def guarded_Inr)
  have "?x \<in> set (sessions s1)" "v \<in> set (users s1)" using v s1 by simp_all
  moreover have "ses_hash ?x = sha256 env token" "ses_user ?x = u" by (simp_all add: new_session_def token)
  ultimately show "live_session (sha256 env token) u e s1" using ok v e by (auto simp: live_session_def)
qed

text \<open>C29: Functional. A session lasts 30 days: opened for an active user, its token answers with that user along
  every history without a password reset and without closing it, as long as the database's clock is
  below the expiry, and with nothing from then on; closing it ends it at once.\<close>

theorem sessions_last_until_closed_or_expired:
  assumes "create_session env u w s = (Inr (token, e), s1)" "accounts_ok s" "well_sized env"
    and "v \<in> set (users s)" "usr_id v = u" "usr_status v = ''active''"
    and "\<forall>op \<in> set ops. allowed env (\<lambda>_. True) (\<lambda>h. h \<noteq> sha256 env token) False op"
  shows "e = app_now s + 30 * 86400000 \<and>
    (\<exists>r. fst (getSession env token (account_history env ops s1)) = Inr r \<and>
      (case r of Some info \<Rightarrow> now (account_history env ops s1) < e \<and> si_user info = u | None \<Rightarrow> e \<le> now (account_history env ops s1))) \<and>
    fst (getSession env token (snd (revokeSession env token (account_history env ops s1)))) = Inr None"
proof -
  note facts = create_session_Inr [OF assms(1,2)]
  obtain k where "token = base64url (random_bytes env k 32)" using facts(3) by blast
  moreover have "random_bytes env k 32 \<noteq> []" using assms(3) by (metis well_sized_def length_0_conv zero_neq_numeral)
  ultimately have token: "token \<noteq> []" by simp
  have live: "live_session (sha256 env token) u e (account_history env ops s1)"
    by (rule live_session.history_keeps [OF facts(4) [OF assms(4-6)] assms(7)])
  have "select_session (sha256 env token) (snd (revokeSession env token t)) = []" for t
    using token facts(1) by (auto simp: revokeSession_def ensure_run bnd_run' select_session_def)
  then show ?thesis
    using facts(2) live_session_found [OF live facts(1) token] token facts(1) by (simp add: getSession_run)
qed

theorem sessions_last_until_closed_or_expired_witness:
  "\<exists>token s1. create_session demo_app ''u1'' None demo_accounts = (Inr (token, 2592001000), s1)
     \<and> fst (getSession demo_app token (snd (revokeSession demo_app token (account_history demo_app [TimePasses 7 7] s1)))) = Inr None"
proof -
  have "demo_user \<in> set (users demo_accounts)" "usr_id demo_user = ''u1''" "usr_status demo_user = ''active''"
    by (simp_all add: demo_accounts_def demo_user_def)
  moreover obtain token s1 where run: "create_session demo_app ''u1'' None demo_accounts = (Inr (token, 2592001000), s1)"
    by (simp add: create_session_run [OF demo_app_sized(2)] Let_def insert_session_def guarded_def new_session_def demo_accounts_def empty_db_def
        backfill_owner_def is_member_def demo_user_def)
  ultimately show ?thesis
    using sessions_last_until_closed_or_expired [OF run demo_accounts_ok demo_app_sized(1), of demo_user "[TimePasses 7 7]"] by auto
qed

section \<open>Invitations\<close>

definition taken :: "string \<Rightarrow> saas_db \<Rightarrow> bool" where
  "taken h s \<longleftrightarrow> (\<forall>i \<in> set (invitations s). ivt_hash i = h \<longrightarrow> ivt_status i \<noteq> ''pending'')"

interpretation taken: account_invariant env "taken h" "\<lambda>_. True" "\<lambda>_. True" True for env h
  by unfold_locales (auto simp: taken_def set_update_where)

lemma every_op_allowed: "\<forall>op \<in> set ops. allowed env (\<lambda>_. True) (\<lambda>_. True) True op"
  by (metis allowed.elims(3))

definition membership :: "string \<Rightarrow> string \<Rightarrow> string \<Rightarrow> member_row \<Rightarrow> bool" where
  "membership w u role m \<longleftrightarrow> mem_workspace m = w \<and> mem_user m = u \<and> mem_role m = role \<and> mem_status m = ''active''"

lemma upsert_member_Inr:
  assumes "upsert_member w u role s = (Inr (), t)"
  shows "\<exists>m \<in> set (members t). membership w u role m" "\<forall>m \<in> set (members t). m \<in> set (members s) \<or> membership w u role m"
    "role \<in> set roles" "invitations t = invitations s"
    "filter (\<lambda>m. \<not> (mem_workspace m = w \<and> mem_user m = u)) (members t) = filter (\<lambda>m. \<not> (mem_workspace m = w \<and> mem_user m = u)) (members s)"
proof -
  let ?f = "\<lambda>m. m\<lparr>mem_role := role, mem_status := ''active''\<rparr>" and ?U = "\<lambda>m. mem_workspace m = w \<and> mem_user m = u"
  show "role \<in> set roles" "invitations t = invitations s"
    using assms by (auto simp: upsert_member_def guarded_Inr split: if_splits)
  have t: "members t = (if is_member s w u then update_where ?U ?f (members s)
      else members s @ [\<lparr>mem_workspace = w, mem_user = u, mem_role = role, mem_status = ''active'', mem_joined = now s\<rparr>])"
    using assms by (auto simp: upsert_member_def guarded_Inr split: if_splits)
  show "\<exists>m \<in> set (members t). membership w u role m"
  proof (cases "is_member s w u")
    case True
    then obtain m where m: "m \<in> set (members s)" "?U m" by (auto simp: is_member_def)
    show ?thesis using True t m by (intro bexI [of _ "?f m"]) (auto simp: membership_def set_update_where)
  qed (use t in \<open>simp add: membership_def\<close>)
  show "\<forall>m \<in> set (members t). m \<in> set (members s) \<or> membership w u role m"
    using t by (auto simp: membership_def set_update_where split: if_splits)
  have "filter (\<lambda>m. \<not> ?U m) (update_where ?U ?f ms) = filter (\<lambda>m. \<not> ?U m) ms" for ms
    by (induction ms) (auto simp: update_where_def)
  then show "filter (\<lambda>m. \<not> ?U m) (members t) = filter (\<lambda>m. \<not> ?U m) (members s)" using t by (auto split: if_splits)
qed

text \<open>What completing the member table adds are memberships of the workspaces' owners.\<close>

definition owner_row :: "saas_db \<Rightarrow> member_row \<Rightarrow> bool" where
  "owner_row s m \<longleftrightarrow> mem_role m = ''owner'' \<and> (\<exists>w \<in> set (workspaces s). wsp_tenant w = mem_workspace m \<and> wsp_owner w = mem_user m)"

lemma backfill_members:
  "set ws \<subseteq> set (workspaces s) \<Longrightarrow> \<exists>xs. members (fold backfill_owner ws s) = members s @ xs \<and> (\<forall>m \<in> set xs. owner_row s m)"
proof (induction ws arbitrary: s)
  case (Cons w ws)
  obtain xs where xs: "members (fold backfill_owner ws (backfill_owner w s)) = members (backfill_owner w s) @ xs" "\<forall>m \<in> set xs. owner_row (backfill_owner w s) m"
    using Cons.IH [of "backfill_owner w s"] Cons.prems by auto
  have "\<exists>ys. members (backfill_owner w s) = members s @ ys \<and> (\<forall>m \<in> set ys. owner_row s m)"
    using Cons.prems by (auto simp: backfill_owner_def owner_row_def)
  then show ?case using xs by (auto simp: owner_row_def)
qed simp

text \<open>C30: Safety. An invitation admits its addressee once: it is accepted only while pending and unexpired, by a
  signed-in user whose address it names, who becomes an active member of its workspace in its role;
  every other membership there was remains, in order and as it was, and the only others added are those
  of workspaces' owners that looking up the session completes the table with; and no one can accept
  the invitation again along any history.\<close>

theorem invitation_admits_addressee_once:
  assumes "acceptInvitation env st token s = (Inr (w, role), s1)" "distinct (map ivt_hash (invitations s))"
  shows "\<exists>i \<in> set (invitations s). \<exists>info t. getSession env st s = (Inr (Some info), t)
      \<and> ivt_hash i = sha256 env (to_str (js_or token (Str []))) \<and> ivt_status i = ''pending'' \<and> now s < ivt_expires i
      \<and> ivt_email i = si_email info \<and> w = ivt_workspace i \<and> role = ivt_role i
      \<and> (\<exists>m \<in> set (members s1). membership w (si_user info) role m)
      \<and> (\<forall>m \<in> set (members s1). m \<in> set (members t) \<or> membership w (si_user info) role m)
      \<and> filter (\<lambda>m. \<not> (mem_workspace m = w \<and> mem_user m = si_user info)) (members s1)
          = filter (\<lambda>m. \<not> (mem_workspace m = w \<and> mem_user m = si_user info)) (members t)
      \<and> (\<exists>owners. members t = members s @ owners \<and> (\<forall>m \<in> set owners. owner_row s m))
      \<and> (\<forall>ops st'. \<exists>e. fst (acceptInvitation env st' token (account_history env ops s1)) = Inl e)"
proof -
  let ?h = "sha256 env (to_str (js_or token (Str [])))"
  obtain info where found: "fst (getSession env st s) = Inr (Some info)"
    using assms(1) by (auto simp: acceptInvitation_def bnd_run' split: prod.splits sum.splits option.splits)
  let ?t = "fold backfill_owner (workspaces s) s"
  have session: "getSession env st s = (Inr (Some info), ?t)"
    using found getSession_found [OF found] by (auto simp: getSession_run)
  obtain i more where inv: "pending_invitations ?h ?t = i # more" and email: "ivt_email i = si_email info"
    using assms(1) by (auto simp: acceptInvitation_def bnd_run' session split: list.splits if_splits)
  obtain t where up: "upsert_member (ivt_workspace i) (si_user info) (ivt_role i) ?t = (Inr (), t)"
    and s1: "s1 = t\<lparr>invitations := update_where (\<lambda>x. ivt_id x = ivt_id i) (\<lambda>x. x\<lparr>ivt_status := ''accepted''\<rparr>) (invitations t)\<rparr>"
    and w: "w = ivt_workspace i" "role = ivt_role i"
    using assms(1) by (auto simp: acceptInvitation_def bnd_run' session inv email split: prod.splits sum.splits)
  note up = upsert_member_Inr [OF up]
  have "i \<in> set (pending_invitations ?h ?t)" using inv by simp
  then have i: "i \<in> set (invitations s)" "ivt_hash i = ?h" "ivt_status i = ''pending''" "now s < ivt_expires i"
    by (simp_all add: pending_invitations_def)
  have "x = i" if "x \<in> set (invitations s)" "ivt_hash x = ?h" for x using unique_row [OF assms(2) that(1) i(1)] that(2) i(2) by simp
  then have "taken ?h s1" unfolding taken_def s1 using up(4) by (auto simp: set_update_where)
  then have "taken ?h (account_history env ops s1)" for ops by (rule taken.history_keeps) (rule every_op_allowed)
  then have none: "pending_invitations ?h (fold backfill_owner ws (account_history env ops s1)) = []" for ops ws
    by (auto simp: taken_def pending_invitations_def filter_empty_conv)
  have "\<exists>e. fst (acceptInvitation env st' token (account_history env ops s1)) = Inl e" for ops st'
  proof (cases "getSession env st' (account_history env ops s1)")
    case (Pair r t')
    have "t' = account_history env ops s1 \<or> t' = fold backfill_owner (workspaces (account_history env ops s1)) (account_history env ops s1)" if "r = Inr x" for x
      using Pair that by (auto simp: getSession_def ensureAuthSchema_def storeOr_def bnd_run' split: if_splits)
    then have "pending_invitations ?h t' = []" if "r = Inr x" for x using none [of "[]"] none that by auto
    then show ?thesis by (cases r) (auto simp: acceptInvitation_def bnd_run' Pair split: option.split)
  qed
  then show ?thesis using i email w up(1,2,5) session s1 backfill_members [OF order_refl, of s] by (intro bexI [OF _ i(1)] exI [of _ info] exI [of _ ?t]) simp
qed

theorem invitation_admits_addressee_once_witness:
  "\<exists>s1. acceptInvitation demo_app ''t.1'' (Str ''h1'') demo_accounts = (Inr (''w1'', ''admin''), s1)
     \<and> (\<exists>e. fst (acceptInvitation demo_app ''t.1'' (Str ''h1'') (account_history demo_app [] s1)) = Inl e)"
proof -
  obtain s1 where run: "acceptInvitation demo_app ''t.1'' (Str ''h1'') demo_accounts = (Inr (''w1'', ''admin''), s1)"
    by (simp add: acceptInvitation_def getSession_run [OF demo_app_sized(2)] bnd_run' select_session_def demo_accounts_def empty_db_def demo_user_def
        backfill_owner_def is_member_def now_def pending_invitations_def js_or_def upsert_member_def guarded_def roles_def)
  have "distinct (map ivt_hash (invitations demo_accounts))" by (simp add: demo_accounts_def)
  from invitation_admits_addressee_once [OF run this] run show ?thesis by blast
qed

end
