(* ===== verification/SaasRoutes.thy ===== *)
theory SaasRoutes
  imports AccountSafety
begin

text \<open>
  The workspace API (\<^verbatim>\<open>apps/api/saas_routes.js\<close>): members, invitations, workflows and their versions,
  executions, notifications, integrations, audit logs and the inbound webhook. A route's answer is its
  status and body. \<open>handleSaaSRoute\<close> answers \<open>None\<close> where the source returns false without a response.
  Encryption of credentials is a parameter.
\<close>

section \<open>Requests\<close>

record http_request =
  hr_method :: string
  hr_path :: string \<comment> \<open>the url without its query\<close>
  hr_limit :: jsval \<comment> \<open>the query parameter \<^verbatim>\<open>limit\<close>, or null\<close>
  hr_headers :: jsval
  hr_chunks :: "string list"

record auth =
  au_user :: string
  au_email :: string
  au_name :: string
  au_tenant :: "string option"

type_synonym reply = "int \<times> jsval"

definition read_body :: "app_env \<Rightarrow> http_request \<Rightarrow> js_error + jsval" where
  "read_body env rq =
     (let raw = concat (hr_chunks rq) in
      if length raw > 1000000 then Inl (status_error ''PAYLOAD_TOO_LARGE'' 413)
      else if raw = [] then Inr (Obj [])
      else case parse_json env raw of None \<Rightarrow> Inl (status_error ''INVALID_JSON'' 400) | Some v \<Rightarrow> Inr v)"

definition clean :: "jsval \<Rightarrow> nat \<Rightarrow> string" where
  "clean v limit = take limit (trim (to_str (js_coalesce v (Str []))))"

text \<open>The last segment of a path below a prefix: \<^verbatim>\<open>/^prefix([^/]+)$/\<close>.\<close>

definition path_under :: "string \<Rightarrow> string \<Rightarrow> string option" where
  "path_under pre url =
     (let rest = drop (length pre) url in
      if prefix pre url \<and> rest \<noteq> [] \<and> CHR ''/'' \<notin> set rest then Some rest else None)"

section \<open>Membership and audit\<close>

definition write_roles :: "string list" where
  "write_roles = [''owner'', ''admin'']"

definition find_member :: "string \<Rightarrow> string \<Rightarrow> saas_db \<Rightarrow> member_row option" where
  "find_member w u s = row0 (filter (\<lambda>m. mem_workspace m = w \<and> mem_user m = u) (members s))"

definition requireWorkspace :: "auth \<Rightarrow> string list option \<Rightarrow> (saas_db, member_row) act" where
  "requireWorkspace a role = (case au_tenant a of
       None \<Rightarrow> throw (status_error ''WORKSPACE_REQUIRED'' 422)
     | Some w \<Rightarrow>
         if w = [] then throw (status_error ''WORKSPACE_REQUIRED'' 422)
         else bnd (query (find_member w (au_user a))) (\<lambda>r. case r of
             None \<Rightarrow> throw (status_error ''WORKSPACE_ACCESS_DENIED'' 403)
           | Some m \<Rightarrow>
               if mem_status m \<noteq> ''active'' then throw (status_error ''WORKSPACE_ACCESS_DENIED'' 403)
               else if (case role of None \<Rightarrow> False | Some rs \<Rightarrow> mem_role m \<notin> set rs) then throw (status_error ''INSUFFICIENT_PERMISSIONS'' 403)
               else ret m))"

definition tenant :: "auth \<Rightarrow> string" where
  "tenant a = (case au_tenant a of None \<Rightarrow> [] | Some w \<Rightarrow> w)"

definition no_workspace :: "string \<Rightarrow> saas_db \<Rightarrow> bool" where
  "no_workspace w s \<longleftrightarrow> (\<forall>x \<in> set (workspaces s). wsp_tenant x \<noteq> w)"

definition no_user :: "string \<Rightarrow> saas_db \<Rightarrow> bool" where
  "no_user u s \<longleftrightarrow> (\<forall>x \<in> set (users s). usr_id x \<noteq> u)"

definition audit :: "app_env \<Rightarrow> string \<Rightarrow> string \<Rightarrow> string \<Rightarrow> string \<Rightarrow> string \<Rightarrow> jsval \<Rightarrow> (saas_db, unit) act" where
  "audit env workspaceId actor action resourceType resourceId metadata =
     bnd (randomUUID env ''audit_'') (\<lambda>i.
     bnd (lift (json_param env metadata)) (\<lambda>meta.
     guarded
       (\<lambda>s. first_error
         [(\<exists>x \<in> set (audits s). aud_id x = i, unique_violation ''bos_audit_logs_pkey''),
          (no_workspace workspaceId s, foreign_key_violation ''bos_audit_logs_workspace_id_fkey''),
          (no_user actor s, foreign_key_violation ''bos_audit_logs_actor_user_id_fkey'')])
       (\<lambda>s. s\<lparr>audits := audits s @ [\<lparr>aud_id = i, aud_workspace = workspaceId, aud_actor = actor, aud_action = action,
              aud_resource_type = resourceType, aud_resource = resourceId, aud_metadata = meta, aud_created = now s\<rparr>]\<rparr>)))"

section \<open>Jobs and the inbound webhook\<close>

definition insert_job :: "app_env \<Rightarrow> string \<Rightarrow> string \<Rightarrow> jsval \<Rightarrow> (saas_db, unit) act" where
  "insert_job env workspaceId type payload =
     bnd (randomUUID env ''job_'') (\<lambda>i.
     guarded
       (\<lambda>s. first_error
         [(\<exists>x \<in> set (jobs s). job_id x = i, unique_violation ''bos_jobs_pkey''),
          (no_workspace workspaceId s, foreign_key_violation ''bos_jobs_workspace_id_fkey'')])
       (\<lambda>s. s\<lparr>jobs := jobs s @ [\<lparr>job_id = i, job_workspace = workspaceId, job_type = type, job_payload = to_json payload, job_status = ''queued'',
              job_attempts = 0, job_max = 3, job_run_at = now s, job_error = None\<rparr>]\<rparr>))"

text \<open>\<^verbatim>\<open>INSERT INTO bos_events ... ON CONFLICT(provider,external_id) DO NOTHING RETURNING id\<close>: whether a row was inserted.\<close>

definition insert_event :: "event_row \<Rightarrow> (saas_db, bool) act" where
  "insert_event r =
     bnd (query (\<lambda>s. \<exists>x \<in> set (events s). evt_provider x = evt_provider r \<and> evt_external x = evt_external r)) (\<lambda>conflict.
     if conflict then ret False
     else bnd (guarded
         (\<lambda>s. first_error
           [(\<exists>x \<in> set (events s). evt_id x = evt_id r, unique_violation ''bos_events_pkey''),
            (no_workspace (evt_workspace r) s, foreign_key_violation ''bos_events_workspace_id_fkey'')])
         (\<lambda>s. s\<lparr>events := events s @ [r]\<rparr>)) (\<lambda>_. ret True))"

definition header :: "http_request \<Rightarrow> string \<Rightarrow> jsval" where
  "header rq name = field (hr_headers rq) name"

definition webhook_authorized :: "app_env \<Rightarrow> http_request \<Rightarrow> js_error + bool" where
  "webhook_authorized env rq =
     (let secret = config env ''BOS_WEBHOOK_SECRET''; supplied = header rq ''x-bos-webhook-secret'' in
      if secret = [] \<or> \<not> truthy supplied then Inr False else timingSafeEqual (to_str supplied) secret)"

definition external_id :: "app_env \<Rightarrow> http_request \<Rightarrow> jsval \<Rightarrow> string" where
  "external_id env rq payload =
     (let given = clean (js_or (header rq ''x-event-id'') (header rq ''idempotency-key'')) 300 in
      if given \<noteq> [] then given else sha256 env (json_text payload))"

definition inbound_webhook :: "app_env \<Rightarrow> http_request \<Rightarrow> string \<Rightarrow> (saas_db, reply) act" where
  "inbound_webhook env rq endpoint =
     bnd (lift (webhook_authorized env rq)) (\<lambda>ok.
     if \<not> ok then throw (status_error ''WEBHOOK_UNAUTHORIZED'' 401)
     else
       bnd (lift (read_body env rq)) (\<lambda>payload.
       let workspaceId = clean (header rq ''x-bos-workspace-id'') 200 in
       if workspaceId = [] \<or> endpoint \<noteq> clean (header rq ''x-bos-webhook-endpoint'') 200 then throw (status_error ''WEBHOOK_ENDPOINT_INVALID'' 400)
       else
         bnd (randomUUID env ''event_'') (\<lambda>eventId.
         bnd (lift (json_param env payload)) (\<lambda>stored.
         bnd (insert_event \<lparr>evt_id = eventId, evt_workspace = workspaceId, evt_provider = ''webhook'',
                evt_type = clean (js_or (header rq ''x-event-type'') (Str ''webhook'')) 100,
                evt_external = external_id env rq payload, evt_payload = stored, evt_status = ''received''\<rparr>) (\<lambda>inserted.
         if \<not> inserted then ret (200, Obj [(''status'', Str ''duplicate''), (''idempotent'', Boolean True)])
         else
           bnd (insert_job env workspaceId ''event.process'' (Obj [(''eventId'', Str eventId)])) (\<lambda>_.
           ret (202, Obj [(''status'', Str ''accepted''), (''eventId'', Str eventId)])))))))"

section \<open>Workspace, members and invitations\<close>

definition ok_body :: "(string \<times> jsval) list \<Rightarrow> reply" where
  "ok_body fs = (200, Obj ((''status'', Str ''ok'') # fs))"

definition get_workspace :: "auth \<Rightarrow> member_row \<Rightarrow> (saas_db, reply) act" where
  "get_workspace a m = query (\<lambda>s.
     let r = row0 (filter (\<lambda>w. wsp_tenant w = tenant a) (workspaces s)) in
     ok_body [(''workspace'', or_null_col (\<lambda>w. Obj [(''tenant_id'', Str (wsp_tenant w)), (''business_name'', Str (wsp_business w)),
                (''plan'', Str (wsp_plan w)), (''created_at'', time_json (wsp_created w)), (''updated_at'', time_json (wsp_updated w))]) r),
              (''role'', Str (mem_role m))])"

definition get_members :: "auth \<Rightarrow> (saas_db, reply) act" where
  "get_members a = query (\<lambda>s. ok_body [(''members'', Arr (map snd (sort_key fst
     [(mem_joined m, Obj [(''user_id'', Str (mem_user m)), (''role'', Str (mem_role m)), (''status'', Str (mem_status m)),
         (''joined_at'', time_json (mem_joined m)), (''email'', Str (usr_email u)), (''name'', Str (usr_name u))]).
      m \<leftarrow> members s, u \<leftarrow> users s, usr_id u = mem_user m \<and> mem_workspace m = tenant a])))])"

definition insert_invitation :: "invitation_row \<Rightarrow> (saas_db, unit) act" where
  "insert_invitation r = guarded
     (\<lambda>s. first_error
       [(\<exists>x \<in> set (invitations s). ivt_id x = ivt_id r, unique_violation ''bos_workspace_invitations_pkey''),
        (\<exists>x \<in> set (invitations s). ivt_hash x = ivt_hash r, unique_violation ''bos_workspace_invitations_token_hash_key''),
        (no_workspace (ivt_workspace r) s, foreign_key_violation ''bos_workspace_invitations_workspace_id_fkey''),
        (no_user (ivt_by r) s, foreign_key_violation ''bos_workspace_invitations_invited_by_fkey'')])
     (\<lambda>s. s\<lparr>invitations := invitations s @ [r]\<rparr>)"

definition invite :: "app_env \<Rightarrow> http_request \<Rightarrow> auth \<Rightarrow> (saas_db, reply) act" where
  "invite env rq a =
     bnd (requireWorkspace a (Some write_roles)) (\<lambda>_.
     bnd (lift (read_body env rq)) (\<lambda>p.
     if nullish p then throw null_read_error
     else
       let email = toLowerCase (clean (field p ''email'') 320); role = clean (js_or (field p ''role'') (Str ''member'')) 20 in
       if \<not> email_shape email then throw (status_error ''VALID_EMAIL_REQUIRED'' 400)
       else if role \<notin> {''admin'', ''member'', ''viewer''} then throw (status_error ''INVALID_ROLE'' 400)
       else
         bnd (randomBytes env 32) (\<lambda>bytes. let token = base64url bytes in
         bnd (randomUUID env ''invite_'') (\<lambda>i.
         bnd (query now) (\<lambda>time.
         bnd (insert_invitation \<lparr>ivt_id = i, ivt_workspace = tenant a, ivt_email = email, ivt_role = role, ivt_hash = sha256 env token,
                ivt_status = ''pending'', ivt_expires = time + 7 * 86400000, ivt_by = au_user a\<rparr>) (\<lambda>_.
         bnd (audit env (tenant a) (au_user a) ''workspace.invitation.created'' ''invitation'' i
                (Obj [(''email'', Str email), (''role'', Str role)])) (\<lambda>_.
         ret (201, Obj [(''status'', Str ''created''),
           (''invitation'', Obj [(''id'', Str i), (''email'', Str email), (''role'', Str role), (''expiresInDays'', Num 7)]),
           (''delivery'', Str ''pending_email_provider'')]))))))))"

section \<open>Dashboard\<close>

definition count_json :: "'r list \<Rightarrow> jsval" where
  "count_json rs = Num (int (length rs))"

text \<open>\<^verbatim>\<open>executions.completed||0\<close> of the counts by status: a status that does not occur has none.\<close>

definition status_count :: "string \<Rightarrow> saas_db \<Rightarrow> string \<Rightarrow> jsval" where
  "status_count w s st = count_json (filter (\<lambda>x. exe_workspace x = w \<and> exe_status x = st) (executions s))"

definition visible :: "auth \<Rightarrow> notification_row \<Rightarrow> bool" where
  "visible a n \<longleftrightarrow> ntf_workspace n = tenant a \<and> (ntf_user n = Some (au_user a) \<or> ntf_user n = None)"

definition notification_json :: "notification_row \<Rightarrow> jsval" where
  "notification_json n = Obj [(''id'', Str (ntf_id n)), (''type'', Str (ntf_type n)), (''title'', Str (ntf_title n)), (''body'', Str (ntf_body n)),
     (''read_at'', or_null_col time_json (ntf_read n)), (''created_at'', time_json (ntf_created n))]"

definition dashboard_summary :: "auth \<Rightarrow> (saas_db, reply) act" where
  "dashboard_summary a = query (\<lambda>s. ok_body
     [(''metrics'', Obj [(''activeWorkflows'', count_json (filter (\<lambda>f. wfl_workspace f = tenant a \<and> wfl_status f = ''published'') (workflows s))),
        (''successfulExecutions'', status_count (tenant a) s ''completed''), (''failedExecutions'', status_count (tenant a) s ''failed''),
        (''queuedExecutions'', status_count (tenant a) s ''queued''),
        (''connectedIntegrations'', count_json (filter (\<lambda>i. itg_workspace i = tenant a \<and> itg_status i = ''connected'') (integrations s)))]),
      (''recentActivity'', Arr (map (\<lambda>x. Obj [(''id'', Str (aud_id x)), (''action'', Str (aud_action x)), (''resource_type'', Str (aud_resource_type x)),
         (''resource_id'', Str (aud_resource x)), (''created_at'', time_json (aud_created x))])
         (newest aud_created 10 (filter (\<lambda>x. aud_workspace x = tenant a) (audits s))))),
      (''notifications'', Arr (map notification_json (newest ntf_created 10 (filter (visible a) (notifications s)))))])"

section \<open>Workflows\<close>

definition workflow_fields :: "workflow_row \<Rightarrow> jsval js_map" where
  "workflow_fields f = [(''id'', Str (wfl_id f)), (''workspace_id'', Str (wfl_workspace f)), (''name'', Str (wfl_name f)),
     (''description'', Str (wfl_description f)), (''status'', Str (wfl_status f)), (''current_version'', Num (wfl_version f)),
     (''created_by'', Str (wfl_by f)), (''created_at'', time_json (wfl_created f)), (''updated_at'', time_json (wfl_updated f))]"

definition current_definition :: "saas_db \<Rightarrow> string \<Rightarrow> int \<Rightarrow> jsval option" where
  "current_definition s workflowId n = row0 (map ver_definition (filter (\<lambda>v. ver_workflow v = workflowId \<and> ver_number v = n) (versions s)))"

text \<open>A workflow \<^verbatim>\<open>LEFT JOIN\<close>ed with its current version.\<close>

definition workflow_json :: "saas_db \<Rightarrow> workflow_row \<Rightarrow> jsval" where
  "workflow_json s f = Obj (workflow_fields f @ [(''definition'', or_null_col (\<lambda>d. d) (current_definition s (wfl_id f) (wfl_version f)))])"

definition list_workflows :: "auth \<Rightarrow> (saas_db, reply) act" where
  "list_workflows a = query (\<lambda>s. ok_body [(''workflows'', Arr (map (workflow_json s)
     (sort_key (\<lambda>f. - wfl_updated f) (filter (\<lambda>f. wfl_workspace f = tenant a \<and> wfl_status f \<noteq> ''archived'') (workflows s)))))])"

definition find_workflow :: "string \<Rightarrow> string \<Rightarrow> saas_db \<Rightarrow> workflow_row option" where
  "find_workflow w i s = row0 (filter (\<lambda>f. wfl_id f = i \<and> wfl_workspace f = w) (workflows s))"

definition get_workflow :: "auth \<Rightarrow> string \<Rightarrow> (saas_db, reply) act" where
  "get_workflow a i =
     bnd (query (\<lambda>s. map_option (workflow_json s) (find_workflow (tenant a) i s))) (\<lambda>r. case r of
       None \<Rightarrow> throw (status_error ''WORKFLOW_NOT_FOUND'' 404)
     | Some v \<Rightarrow> ret (ok_body [(''workflow'', v)]))"

definition array_or_empty :: "jsval \<Rightarrow> jsval" where
  "array_or_empty v = (case v of Arr xs \<Rightarrow> Arr xs | _ \<Rightarrow> Arr [])"

definition definition_of :: "jsval \<Rightarrow> jsval" where
  "definition_of p = Obj [(''trigger'', js_or (field p ''trigger'') (Obj [(''type'', Str ''manual'')])), (''steps'', array_or_empty (field p ''steps'')),
     (''conditions'', array_or_empty (field p ''conditions'')), (''branches'', array_or_empty (field p ''branches''))]"

definition insert_workflow :: "workflow_row \<Rightarrow> (saas_db, unit) act" where
  "insert_workflow r = guarded
     (\<lambda>s. first_error
       [(\<exists>x \<in> set (workflows s). wfl_id x = wfl_id r, unique_violation ''bos_workflows_pkey''),
        (no_workspace (wfl_workspace r) s, foreign_key_violation ''bos_workflows_workspace_id_fkey''),
        (no_user (wfl_by r) s, foreign_key_violation ''bos_workflows_created_by_fkey'')])
     (\<lambda>s. s\<lparr>workflows := workflows s @ [r]\<rparr>)"

definition insert_version :: "version_row \<Rightarrow> (saas_db, unit) act" where
  "insert_version r = guarded
     (\<lambda>s. first_error
       [(\<exists>x \<in> set (versions s). ver_id x = ver_id r, unique_violation ''bos_workflow_versions_pkey''),
        (\<exists>x \<in> set (versions s). ver_workflow x = ver_workflow r \<and> ver_number x = ver_number r,
           unique_violation ''bos_workflow_versions_workflow_id_version_key''),
        (\<forall>x \<in> set (workflows s). wfl_id x \<noteq> ver_workflow r, foreign_key_violation ''bos_workflow_versions_workflow_id_fkey''),
        (no_user (ver_by r) s, foreign_key_violation ''bos_workflow_versions_created_by_fkey'')])
     (\<lambda>s. s\<lparr>versions := versions s @ [r]\<rparr>)"

definition create_workflow :: "app_env \<Rightarrow> http_request \<Rightarrow> auth \<Rightarrow> (saas_db, reply) act" where
  "create_workflow env rq a =
     bnd (requireWorkspace a (Some write_roles)) (\<lambda>_.
     bnd (lift (read_body env rq)) (\<lambda>p.
     if nullish p then throw null_read_error
     else
       let name = clean (field p ''name'') 160; description = clean (js_or (field p ''description'') (Str [])) 1000; d = definition_of p in
       if name = [] then throw (status_error ''WORKFLOW_NAME_REQUIRED'' 400)
       else
         bnd (randomUUID env ''workflow_'') (\<lambda>i.
         bnd (randomUUID env ''wversion_'') (\<lambda>vi.
         bnd (query now) (\<lambda>time.
         bnd (in_transaction
           (bnd (insert_workflow \<lparr>wfl_id = i, wfl_workspace = tenant a, wfl_name = name, wfl_description = description, wfl_status = ''draft'',
                   wfl_version = 1, wfl_by = au_user a, wfl_created = time, wfl_updated = time\<rparr>) (\<lambda>_.
            insert_version \<lparr>ver_id = vi, ver_workflow = i, ver_number = 1, ver_definition = to_json d, ver_by = au_user a\<rparr>))) (\<lambda>_.
         bnd (audit env (tenant a) (au_user a) ''workflow.created'' ''workflow'' i (Obj [(''name'', Str name)])) (\<lambda>_.
         ret (201, Obj [(''status'', Str ''created''), (''workflow'', Obj [(''id'', Str i), (''name'', Str name), (''description'', Str description),
           (''status'', Str ''draft''), (''current_version'', Num 1), (''definition'', d)])]))))))))"

text \<open>\<^verbatim>\<open>UPDATE bos_workflows SET ... WHERE id=$1 AND workspace_id=$2\<close>\<close>

definition update_workflow :: "string \<Rightarrow> string \<Rightarrow> (workflow_row \<Rightarrow> workflow_row) \<Rightarrow> (saas_db, unit) act" where
  "update_workflow w i f = exec (\<lambda>s. s\<lparr>workflows := update_where (\<lambda>r. wfl_id r = i \<and> wfl_workspace r = w) (\<lambda>r. (f r)\<lparr>wfl_updated := now s\<rparr>) (workflows s)\<rparr>)"

definition save_workflow :: "app_env \<Rightarrow> http_request \<Rightarrow> auth \<Rightarrow> string \<Rightarrow> (saas_db, reply) act" where
  "save_workflow env rq a i =
     bnd (requireWorkspace a (Some write_roles)) (\<lambda>_.
     bnd (lift (read_body env rq)) (\<lambda>p.
     bnd (query (find_workflow (tenant a) i)) (\<lambda>existing. case existing of
       None \<Rightarrow> throw (status_error ''WORKFLOW_NOT_FOUND'' 404)
     | Some f \<Rightarrow>
         if nullish p then throw null_read_error
         else
           let n = wfl_version f + 1; d = definition_of p in
           bnd (randomUUID env ''wversion_'') (\<lambda>vi.
           bnd (insert_version \<lparr>ver_id = vi, ver_workflow = i, ver_number = n, ver_definition = to_json d, ver_by = au_user a\<rparr>) (\<lambda>_.
           bnd (update_workflow (tenant a) i (\<lambda>r. r\<lparr>
             wfl_name := (if truthy (field p ''name'') then clean (field p ''name'') 160 else wfl_name r),
             wfl_description := (if field p ''description'' \<noteq> Undefined then clean (field p ''description'') 1000 else wfl_description r),
             wfl_version := n\<rparr>)) (\<lambda>_.
           bnd (audit env (tenant a) (au_user a) ''workflow.version.created'' ''workflow'' i (Obj [(''version'', Num n)])) (\<lambda>_.
           ret (200, Obj [(''status'', Str ''saved''), (''version'', Num n), (''definition'', d)]))))))))"

definition publish_workflow :: "app_env \<Rightarrow> auth \<Rightarrow> string \<Rightarrow> (saas_db, reply) act" where
  "publish_workflow env a i =
     bnd (requireWorkspace a (Some write_roles)) (\<lambda>_.
     bnd (query (find_workflow (tenant a) i)) (\<lambda>check. case check of
       None \<Rightarrow> throw (status_error ''WORKFLOW_NOT_FOUND'' 404)
     | Some f \<Rightarrow>
         bnd (query (\<lambda>s. current_definition s i (wfl_version f))) (\<lambda>def. case def of
           None \<Rightarrow> throw (status_error ''INVALID_WORKFLOW'' 400)
         | Some d \<Rightarrow>
             if nullish d then throw null_read_error
             else if array_or_empty (field d ''steps'') \<noteq> field d ''steps'' then throw (status_error ''INVALID_WORKFLOW'' 400)
             else
               bnd (update_workflow (tenant a) i (\<lambda>r. r\<lparr>wfl_status := ''published''\<rparr>)) (\<lambda>_.
               bnd (audit env (tenant a) (au_user a) ''workflow.published'' ''workflow'' i (Obj [(''version'', Num (wfl_version f))])) (\<lambda>_.
               ret (200, Obj [(''status'', Str ''published'')]))))))"

definition disable_workflow :: "app_env \<Rightarrow> auth \<Rightarrow> string \<Rightarrow> (saas_db, reply) act" where
  "disable_workflow env a i =
     bnd (requireWorkspace a (Some write_roles)) (\<lambda>_.
     bnd (update_workflow (tenant a) i (\<lambda>r. r\<lparr>wfl_status := ''disabled''\<rparr>)) (\<lambda>_.
     bnd (audit env (tenant a) (au_user a) ''workflow.disabled'' ''workflow'' i (Obj [])) (\<lambda>_.
     ret (200, Obj [(''status'', Str ''disabled'')]))))"

section \<open>Executions\<close>

definition execution_fields :: "execution_row \<Rightarrow> jsval js_map" where
  "execution_fields x = [(''id'', Str (exe_id x)), (''workspace_id'', Str (exe_workspace x)), (''workflow_id'', Str (exe_workflow x)),
     (''workflow_version'', Num (exe_version x)), (''status'', Str (exe_status x)), (''trigger_type'', Str (exe_trigger x)),
     (''idempotency_key'', or_null_col Str (exe_key x)), (''input'', exe_input x), (''output'', exe_output x), (''error'', exe_error x),
     (''attempts'', Num (exe_attempts x)), (''started_at'', or_null_col time_json (exe_started x)),
     (''completed_at'', or_null_col time_json (exe_completed x)), (''created_at'', time_json (exe_created x))]"

text \<open>\<^verbatim>\<open>Math.min(Math.max(Number(limit||50),1),100)\<close>; NaN is no row count for the database.\<close>

definition page_limit :: "jsval \<Rightarrow> js_error + nat" where
  "page_limit limit = (case to_num (js_or limit (Num 50)) of
       Num n \<Rightarrow> Inr (nat (min (max n 1) 100))
     | Inf b \<Rightarrow> Inr (if b then 100 else 1)
     | _ \<Rightarrow> Inl (pg_error ''22P02'' ''invalid input syntax for type bigint''))"

definition list_executions :: "http_request \<Rightarrow> auth \<Rightarrow> (saas_db, reply) act" where
  "list_executions rq a =
     bnd (lift (page_limit (hr_limit rq))) (\<lambda>n.
     query (\<lambda>s. ok_body [(''executions'', Arr (map (\<lambda>x. Obj (execution_fields x @
         [(''workflow_name'', or_null_col Str (row0 (map wfl_name (filter (\<lambda>f. wfl_id f = exe_workflow x) (workflows s)))))]))
       (newest exe_created n (filter (\<lambda>x. exe_workspace x = tenant a) (executions s)))))]))"

definition step_json :: "step_row \<Rightarrow> jsval" where
  "step_json p = Obj [(''id'', Str (stp_id p)), (''execution_id'', Str (stp_execution p)), (''step_key'', Str (stp_key p)), (''step_index'', Num (stp_index p)),
     (''type'', Str (stp_type p)), (''status'', Str (stp_status p)), (''input'', stp_input p), (''output'', stp_output p), (''error'', stp_error p),
     (''attempts'', Num (stp_attempts p)), (''started_at'', or_null_col time_json (stp_started p)), (''completed_at'', or_null_col time_json (stp_completed p))]"

definition get_execution_route :: "auth \<Rightarrow> string \<Rightarrow> (saas_db, reply) act" where
  "get_execution_route a i =
     bnd (query (\<lambda>s. row0 (filter (\<lambda>x. exe_id x = i \<and> exe_workspace x = tenant a) (executions s)))) (\<lambda>r. case r of
       None \<Rightarrow> throw (status_error ''EXECUTION_NOT_FOUND'' 404)
     | Some x \<Rightarrow> query (\<lambda>s. ok_body [(''execution'', Obj (execution_fields x)),
         (''steps'', Arr (map step_json (sort_key stp_index (filter (\<lambda>p. stp_execution p = i) (steps s)))))]))"

text \<open>\<^verbatim>\<open>INSERT INTO bos_workflow_executions ... ON CONFLICT(workspace_id,idempotency_key) DO NOTHING RETURNING id\<close>\<close>

definition insert_execution :: "execution_row \<Rightarrow> (saas_db, bool) act" where
  "insert_execution r =
     bnd (query (\<lambda>s. \<exists>x \<in> set (executions s). exe_workspace x = exe_workspace r \<and> exe_key x = exe_key r \<and> exe_key r \<noteq> None)) (\<lambda>conflict.
     if conflict then ret False
     else bnd (guarded
         (\<lambda>s. first_error
           [(\<exists>x \<in> set (executions s). exe_id x = exe_id r, unique_violation ''bos_workflow_executions_pkey''),
            (no_workspace (exe_workspace r) s, foreign_key_violation ''bos_workflow_executions_workspace_id_fkey''),
            (\<forall>f \<in> set (workflows s). wfl_id f \<noteq> exe_workflow r, foreign_key_violation ''bos_workflow_executions_workflow_id_fkey'')])
         (\<lambda>s. s\<lparr>executions := executions s @ [r]\<rparr>)) (\<lambda>_. ret True))"

definition new_execution :: "string \<Rightarrow> string \<Rightarrow> string \<Rightarrow> int \<Rightarrow> string \<Rightarrow> string option \<Rightarrow> jsval \<Rightarrow> int \<Rightarrow> execution_row" where
  "new_execution i w f n trigger key input time = \<lparr>exe_id = i, exe_workspace = w, exe_workflow = f, exe_version = n, exe_status = ''queued'',
     exe_trigger = trigger, exe_key = key, exe_input = input, exe_output = Obj [], exe_error = Null, exe_attempts = 0, exe_started = None,
     exe_completed = None, exe_created = time\<rparr>"

definition enqueue_execution :: "app_env \<Rightarrow> http_request \<Rightarrow> auth \<Rightarrow> jsval \<Rightarrow> string \<Rightarrow> workflow_row \<times> jsval \<Rightarrow> (saas_db, reply) act" where
  "enqueue_execution env rq a p workflowId found = (case found of (f, d) \<Rightarrow>
     if wfl_status f \<noteq> ''published'' then throw (status_error ''WORKFLOW_NOT_PUBLISHED'' 409)
     else
       let idem = clean (js_or (header rq ''idempotency-key'') (field p ''idempotencyKey'')) 300 in
       if idem = [] then throw (status_error ''IDEMPOTENCY_KEY_REQUIRED'' 400)
       else
         bnd (randomUUID env ''execution_'') (\<lambda>i.
         bnd (lift (json_param env (js_or (field p ''context'') (Obj [])))) (\<lambda>input.
         bnd (query now) (\<lambda>time.
         bnd (insert_execution (new_execution i (tenant a) workflowId (wfl_version f) ''manual'' (Some idem) input time)) (\<lambda>inserted.
         if \<not> inserted then
           query (\<lambda>s. (200, Obj [(''status'', Str ''duplicate''), (''execution'', case row0 (filter (\<lambda>x. exe_workspace x = tenant a \<and> exe_key x = Some idem) (executions s)) of
             None \<Rightarrow> Undefined | Some x \<Rightarrow> Obj (execution_fields x))]))
         else
           bnd (insert_job env (tenant a) ''workflow.execute'' (Obj [(''executionId'', Str i), (''definition'', d)])) (\<lambda>_.
           ret (202, Obj [(''status'', Str ''queued''), (''executionId'', Str i)])))))))"

definition start_execution :: "app_env \<Rightarrow> http_request \<Rightarrow> auth \<Rightarrow> (saas_db, reply) act" where
  "start_execution env rq a =
     bnd (lift (read_body env rq)) (\<lambda>p.
     if nullish p then throw null_read_error
     else
       let workflowId = clean (field p ''workflowId'') 100 in
       if workflowId = [] then throw (status_error ''WORKFLOW_ID_REQUIRED'' 400)
       else
         bnd (query (\<lambda>s. case find_workflow (tenant a) workflowId s of None \<Rightarrow> None
                | Some f \<Rightarrow> map_option (\<lambda>d. (f, d)) (current_definition s workflowId (wfl_version f)))) (\<lambda>r. case r of
           None \<Rightarrow> throw (status_error ''WORKFLOW_NOT_FOUND'' 404)
         | Some found \<Rightarrow> enqueue_execution env rq a p workflowId found))"

section \<open>Notifications, integrations, audit logs and billing\<close>

definition list_notifications :: "auth \<Rightarrow> (saas_db, reply) act" where
  "list_notifications a = query (\<lambda>s. ok_body [(''notifications'', Arr (map (\<lambda>n. spread (notification_json n)
       [(''workspace_id'', Str (ntf_workspace n)), (''user_id'', or_null_col Str (ntf_user n)), (''data'', ntf_data n)])
     (newest ntf_created 100 (filter (visible a) (notifications s)))))])"

definition read_notification :: "auth \<Rightarrow> string \<Rightarrow> (saas_db, reply) act" where
  "read_notification a i =
     bnd (exec (\<lambda>s. s\<lparr>notifications := update_where (\<lambda>n. ntf_id n = i \<and> visible a n) (\<lambda>n. n\<lparr>ntf_read := Some (now s)\<rparr>) (notifications s)\<rparr>)) (\<lambda>_.
     ret (200, Obj [(''status'', Str ''read'')]))"

definition list_integrations :: "app_env \<Rightarrow> auth \<Rightarrow> (saas_db, reply) act" where
  "list_integrations env a = query (\<lambda>s. ok_body [(''integrations'', Arr (map (\<lambda>i. Obj [(''id'', Str (itg_id i)), (''provider'', Str (itg_provider i)),
       (''status'', Str (itg_status i)), (''config'', itg_config i), (''connected_at'', time_json (itg_connected i)),
       (''updated_at'', time_json (itg_updated i)), (''last_error'', or_null_col Str (itg_error i))])
     (sort_by (\<lambda>i j. text_le env (itg_provider i) (itg_provider j)) (filter (\<lambda>i. itg_workspace i = tenant a) (integrations s)))))])"

fun encrypt_fields :: "(jsval \<Rightarrow> js_error + string) \<Rightarrow> jsval js_map \<Rightarrow> js_error + jsval js_map" where
  "encrypt_fields enc [] = Inr []"
| "encrypt_fields enc ((k, v) # kvs) =
     (case enc v of Inl e \<Rightarrow> Inl e | Inr t \<Rightarrow> map_sum id ((#) (k, Str t)) (encrypt_fields enc kvs))"

text \<open>\<^verbatim>\<open>INSERT INTO bos_integrations ... ON CONFLICT(workspace_id,provider) DO UPDATE SET credentials, config, status='connected', last_error=NULL, updated_at=NOW()\<close>\<close>

definition upsert_integration :: "integration_row \<Rightarrow> (saas_db, unit) act" where
  "upsert_integration r = guarded
     (\<lambda>s. if \<exists>x \<in> set (integrations s). itg_workspace x = itg_workspace r \<and> itg_provider x = itg_provider r then None else first_error
       [(\<exists>x \<in> set (integrations s). itg_id x = itg_id r, unique_violation ''bos_integrations_pkey''),
        (no_workspace (itg_workspace r) s, foreign_key_violation ''bos_integrations_workspace_id_fkey''),
        (no_user (itg_by r) s, foreign_key_violation ''bos_integrations_connected_by_fkey'')])
     (\<lambda>s. if \<exists>x \<in> set (integrations s). itg_workspace x = itg_workspace r \<and> itg_provider x = itg_provider r
       then s\<lparr>integrations := update_where (\<lambda>x. itg_workspace x = itg_workspace r \<and> itg_provider x = itg_provider r)
              (\<lambda>x. x\<lparr>itg_credentials := itg_credentials r, itg_config := itg_config r, itg_status := ''connected'', itg_error := None, itg_updated := now s\<rparr>) (integrations s)\<rparr>
       else s\<lparr>integrations := integrations s @ [r]\<rparr>)"

definition connect_integration :: "app_env \<Rightarrow> (jsval \<Rightarrow> js_error + string) \<Rightarrow> http_request \<Rightarrow> auth \<Rightarrow> (saas_db, reply) act" where
  "connect_integration env enc rq a =
     bnd (requireWorkspace a (Some write_roles)) (\<lambda>_.
     bnd (lift (read_body env rq)) (\<lambda>p.
     if nullish p then throw null_read_error
     else
       let provider = clean (field p ''provider'') 80; credentials = field p ''credentials'' in
       if provider = [] then throw (status_error ''PROVIDER_REQUIRED'' 400)
       else
         bnd (lift (encrypt_fields enc (if is_ref credentials then own_fields credentials else []))) (\<lambda>encrypted.
         bnd (randomUUID env ''integration_'') (\<lambda>i.
         bnd (lift (json_param env (js_or (field p ''config'') (Obj [])))) (\<lambda>conf.
         bnd (query now) (\<lambda>time.
         bnd (upsert_integration \<lparr>itg_id = i, itg_workspace = tenant a, itg_provider = provider, itg_status = ''connected'',
                itg_credentials = Obj encrypted, itg_config = conf, itg_by = au_user a, itg_error = None, itg_connected = time, itg_updated = time\<rparr>) (\<lambda>_.
         bnd (audit env (tenant a) (au_user a) ''integration.connected'' ''integration'' provider (Obj [])) (\<lambda>_.
         ret (201, Obj [(''status'', Str ''connected''), (''provider'', Str provider)])))))))))"

definition list_audit_logs :: "auth \<Rightarrow> (saas_db, reply) act" where
  "list_audit_logs a = query (\<lambda>s. ok_body [(''logs'', Arr (map (\<lambda>x. Obj [(''id'', Str (aud_id x)), (''workspace_id'', Str (aud_workspace x)),
       (''actor_user_id'', Str (aud_actor x)), (''action'', Str (aud_action x)), (''resource_type'', Str (aud_resource_type x)),
       (''resource_id'', Str (aud_resource x)), (''metadata'', aud_metadata x), (''created_at'', time_json (aud_created x))])
     (newest aud_created 200 (filter (\<lambda>x. aud_workspace x = tenant a) (audits s)))))])"

definition get_billing :: "auth \<Rightarrow> (saas_db, reply) act" where
  "get_billing a = query (\<lambda>s. ok_body [(''billing'', case map_of (billing s) (tenant a) of
     Some b \<Rightarrow> b | None \<Rightarrow> Obj [(''plan'', Str ''free''), (''status'', Str ''trialing'')])])"

section \<open>The handler\<close>

definition ends_with :: "string \<Rightarrow> string \<Rightarrow> bool" where
  "ends_with url suf \<longleftrightarrow> length suf \<le> length url \<and> drop (length url - length suf) url = suf"

definition notification_read_path :: "string \<Rightarrow> string option" where
  "notification_read_path url =
     (if ends_with url ''/read'' then path_under ''/api/v1/notifications/'' (take (length url - 5) url) else None)"

text \<open>The routes of a member, in the order the source tries them.\<close>

definition member_route :: "app_env \<Rightarrow> (jsval \<Rightarrow> js_error + string) \<Rightarrow> http_request \<Rightarrow> auth \<Rightarrow> member_row \<Rightarrow> (saas_db, reply) act option" where
  "member_route env enc rq a m =
     (let url = hr_path rq; is_get = hr_method rq = ''GET''; is_post = hr_method rq = ''POST'';
          wid = path_under ''/api/v1/workflows/'' url; xid = path_under ''/api/v1/executions/'' url in
      if is_get \<and> url = ''/api/v1/workspace'' then Some (get_workspace a m)
      else if is_get \<and> url = ''/api/v1/workspace/members'' then Some (get_members a)
      else if is_post \<and> url = ''/api/v1/workspace/invitations'' then Some (invite env rq a)
      else if is_get \<and> url = ''/api/v1/dashboard/summary'' then Some (dashboard_summary a)
      else if is_get \<and> url = ''/api/v1/workflows'' then Some (list_workflows a)
      else if is_get \<and> wid \<noteq> None then Some (get_workflow a (the wid))
      else if is_post \<and> url = ''/api/v1/workflows'' then Some (create_workflow env rq a)
      else if hr_method rq = ''PUT'' \<and> wid \<noteq> None then Some (save_workflow env rq a (the wid))
      else if is_post \<and> wid \<noteq> None \<and> ends_with url ''/publish'' then Some (publish_workflow env a (the wid))
      else if is_post \<and> wid \<noteq> None \<and> ends_with url ''/disable'' then Some (disable_workflow env a (the wid))
      else if is_get \<and> url = ''/api/v1/executions'' then Some (list_executions rq a)
      else if is_get \<and> xid \<noteq> None then Some (get_execution_route a (the xid))
      else if is_post \<and> url = ''/api/v1/executions'' then Some (start_execution env rq a)
      else if is_get \<and> url = ''/api/v1/notifications'' then Some (list_notifications a)
      else if is_post \<and> notification_read_path url \<noteq> None then Some (read_notification a (the (notification_read_path url)))
      else if is_get \<and> url = ''/api/v1/integrations'' then Some (list_integrations env a)
      else if is_post \<and> url = ''/api/v1/integrations'' then Some (connect_integration env enc rq a)
      else if is_get \<and> url = ''/api/v1/audit-logs'' then Some (list_audit_logs a)
      else if is_get \<and> url = ''/api/v1/billing'' then Some (get_billing a)
      else None)"

definition handleSaaSRoute :: "app_env \<Rightarrow> (jsval \<Rightarrow> js_error + string) \<Rightarrow> http_request \<Rightarrow> auth option \<Rightarrow> (saas_db, reply option) act" where
  "handleSaaSRoute env enc rq who =
     bnd (storeOr env (status_error ''DATABASE_NOT_CONFIGURED'' 503)) (\<lambda>_.
     case (if hr_method rq = ''POST'' then path_under ''/api/v1/webhooks/'' (hr_path rq) else None) of
       Some endpoint \<Rightarrow> bnd (inbound_webhook env rq endpoint) (\<lambda>r. ret (Some r))
     | None \<Rightarrow>
         (case who of
            None \<Rightarrow> ret None
          | Some a \<Rightarrow>
              bnd (requireWorkspace a None) (\<lambda>m.
              case member_route env enc rq a m of
                None \<Rightarrow> ret None
              | Some route \<Rightarrow> bnd route (\<lambda>r. ret (Some r)))))"

end
