(* ===== verification/SaasChanges.thy ===== *)
theory SaasChanges
  imports SaasRoutes
begin

text \<open>
  What a request can do to the tables. \<open>change\<close> is a relation between the database before and after
  that holds of doing nothing and composes; \<open>member_change\<close> adds the changes of rows a request makes
  for the workspace \<open>w\<close> and the user \<open>u\<close>, those that need a writing role under the hypothesis
  \<open>writes\<close>. Every request is then an instance of the relation.
\<close>

definition moves :: "('s \<Rightarrow> 's \<Rightarrow> bool) \<Rightarrow> ('s, 'a) act \<Rightarrow> bool" where
  "moves R m \<longleftrightarrow> (\<forall>s. R s (snd (m s)))"

lemma movesD: "moves R m \<Longrightarrow> R s (snd (m s))"
  by (simp add: moves_def)

lemma moves_exec: "(\<And>s. R s (f s)) \<Longrightarrow> moves R (exec f)"
  by (simp add: moves_def)

locale change =
  fixes R :: "'s \<Rightarrow> 's \<Rightarrow> bool"
  assumes same: "R s s"
    and compose: "R s t \<Longrightarrow> R t v \<Longrightarrow> R s v"
begin

lemma moves_ret [valid_intros]: "moves R (ret a)"
  by (simp add: moves_def same)

lemma moves_throw [valid_intros]: "moves R (throw e)"
  by (simp add: moves_def same)

lemma moves_lift [valid_intros]: "moves R (lift r)"
  by (cases r) (simp_all add: moves_ret moves_throw)

lemma moves_at_bnd: "R s (snd (m s)) \<Longrightarrow> (\<And>a t. m s = (Inr a, t) \<Longrightarrow> R t (snd (k a t))) \<Longrightarrow> R s (snd (bnd m k s))"
  unfolding bnd_run' by (auto split: prod.splits sum.splits intro: compose)

lemma moves_bnd [valid_intros]: "moves R m \<Longrightarrow> (\<And>a. moves R (k a)) \<Longrightarrow> moves R (bnd m k)"
  by (simp add: moves_def moves_at_bnd)

lemma moves_try_catch [valid_intros]: "moves R m \<Longrightarrow> (\<And>e. moves R (h e)) \<Longrightarrow> moves R (try_catch m h)"
  unfolding moves_def try_catch_def by (auto split: prod.split sum.split intro: compose) (metis compose snd_conv)+

lemma moves_if [valid_intros]: "(b \<Longrightarrow> moves R m) \<Longrightarrow> (\<not> b \<Longrightarrow> moves R m') \<Longrightarrow> moves R (if b then m else m')"
  by simp

lemma moves_Let [valid_intros]: "moves R (f a) \<Longrightarrow> moves R (let x = a in f x)"
  by simp

lemma moves_case_option [valid_intros]: "moves R n \<Longrightarrow> (\<And>x. moves R (f x)) \<Longrightarrow> moves R (case l of None \<Rightarrow> n | Some x \<Rightarrow> f x)"
  by (cases l) simp_all

lemma moves_case_list [valid_intros]: "moves R n \<Longrightarrow> (\<And>x xs. moves R (f x xs)) \<Longrightarrow> moves R (case l of [] \<Rightarrow> n | x # xs \<Rightarrow> f x xs)"
  by (cases l) simp_all

lemma moves_case_prod [valid_intros]: "(\<And>x y. moves R (f x y)) \<Longrightarrow> moves R (case l of (x, y) \<Rightarrow> f x y)"
  by (cases l) simp

lemma moves_case_sum [valid_intros]: "(\<And>x. moves R (f x)) \<Longrightarrow> (\<And>y. moves R (g y)) \<Longrightarrow> moves R (case l of Inl x \<Rightarrow> f x | Inr y \<Rightarrow> g y)"
  by (cases l) simp_all

lemma moves_for_each [valid_intros]: "(\<And>x. x \<in> set xs \<Longrightarrow> moves R (body x)) \<Longrightarrow> moves R (for_each body xs)"
  by (induction xs) (auto intro!: moves_ret moves_bnd)

end

locale db_change = change R for R :: "saas_db \<Rightarrow> saas_db \<Rightarrow> bool" +
  assumes drawn: "R s (s\<lparr>draws := n\<rparr>)"
begin

lemma moves_query [valid_intros]: "moves R (query f)"
  by (simp add: moves_def same)

lemma moves_random [valid_intros]: "moves R (draw f)" "moves R (randomUUID env pre)" "moves R (randomBytes env n)"
  by (simp_all add: moves_def drawn)

lemma moves_guarded: "(\<And>s. bad s = None \<Longrightarrow> R s (f s)) \<Longrightarrow> moves R (guarded bad f)"
  by (simp add: moves_def guarded_def same split: option.split)

lemma moves_storeOr [valid_intros]: "moves R (storeOr env e)"
  by (simp add: storeOr_def moves_ret moves_throw)

lemma moves_requireWorkspace [valid_intros]: "moves R (requireWorkspace a r)"
  unfolding requireWorkspace_def by (intro valid_intros)

end

lemma first_error_None: "first_error cs = None \<longleftrightarrow> (\<forall>c \<in> set cs. \<not> fst c)"
  by (induction cs rule: first_error.induct) auto

lemma guarded_Inl: "guarded bad f s = (Inl e, t) \<longleftrightarrow> bad s = Some e \<and> t = s"
  by (auto simp: guarded_def split: option.split)

section \<open>Changes of a request\<close>

definition unchanged_key :: "(workflow_row \<Rightarrow> workflow_row) \<Rightarrow> bool" where
  "unchanged_key g \<longleftrightarrow> (\<forall>r. wfl_id (g r) = wfl_id r \<and> wfl_workspace (g r) = wfl_workspace r)"

definition workflow_at :: "string \<Rightarrow> string \<Rightarrow> workflow_row \<Rightarrow> bool" where
  "workflow_at w i r \<longleftrightarrow> wfl_id r = i \<and> wfl_workspace r = w"

definition integration_at :: "string \<Rightarrow> string \<Rightarrow> integration_row \<Rightarrow> bool" where
  "integration_at w p r \<longleftrightarrow> itg_workspace r = w \<and> itg_provider r = p"

definition notification_for :: "string \<Rightarrow> string \<Rightarrow> string \<Rightarrow> notification_row \<Rightarrow> bool" where
  "notification_for w u i n \<longleftrightarrow> ntf_id n = i \<and> ntf_workspace n = w \<and> (ntf_user n = Some u \<or> ntf_user n = None)"

definition can_write :: "string \<Rightarrow> string \<Rightarrow> saas_db \<Rightarrow> bool" where
  "can_write w u s \<longleftrightarrow> (\<exists>m. find_member w u s = Some m \<and> mem_status m = ''active'' \<and> mem_role m \<in> set write_roles)"

locale member_change = db_change R for R :: "saas_db \<Rightarrow> saas_db \<Rightarrow> bool" +
  fixes w u :: string and writes inbound :: bool
  assumes add_event: "\<lbrakk>inbound; evt_workspace e = w; evt_id e \<notin> evt_id ` set (events s); \<forall>y \<in> set (events s). \<not> (evt_provider y = evt_provider e \<and> evt_external y = evt_external e)\<rbrakk> \<Longrightarrow> R s (s\<lparr>events := events s @ [e]\<rparr>)"
    and add_job: "\<lbrakk>job_workspace j = w; job_id j \<notin> job_id ` set (jobs s); job_status j = ''queued''; job_attempts j = 0; job_max j = 3; job_run_at j = now s\<rbrakk> \<Longrightarrow> R s (s\<lparr>jobs := jobs s @ [j]\<rparr>)"
    and add_execution: "\<lbrakk>exe_workspace x = w; exe_status x = ''queued''; find_workflow w (exe_workflow x) s = Some ef; exe_id x \<notin> exe_id ` set (executions s);
        \<forall>y \<in> set (executions s). exe_workspace y = w \<longrightarrow> exe_key y = exe_key x \<longrightarrow> exe_key x = None\<rbrakk>
      \<Longrightarrow> R s (s\<lparr>executions := executions s @ [x]\<rparr>)"
    and read_notifications: "R s (s\<lparr>notifications := update_where (notification_for w u ni) (\<lambda>n. n\<lparr>ntf_read := Some (now s)\<rparr>) (notifications s)\<rparr>)"
    and add_audit: "\<lbrakk>writes; aud_workspace d = w; aud_actor d = u\<rbrakk> \<Longrightarrow> R s (s\<lparr>audits := audits s @ [d]\<rparr>)"
    and add_invitation: "\<lbrakk>writes; ivt_workspace v = w; ivt_by v = u\<rbrakk> \<Longrightarrow> R s (s\<lparr>invitations := invitations s @ [v]\<rparr>)"
    and add_workflow: "\<lbrakk>writes; wfl_workspace f = w; wfl_version f = 1; wfl_id f \<notin> wfl_id ` set (workflows s); ver_workflow vr = wfl_id f; ver_number vr = 1;
        ver_id vr \<notin> ver_id ` set (versions s); \<forall>y \<in> set (versions s). \<not> (ver_workflow y = wfl_id f \<and> ver_number y = 1)\<rbrakk>
      \<Longrightarrow> R s (s\<lparr>workflows := workflows s @ [f], versions := versions s @ [vr]\<rparr>)"
    and update_workflows: "\<lbrakk>writes; unchanged_key g; \<forall>r. wfl_version (g r) = wfl_version r\<rbrakk>
      \<Longrightarrow> R s (s\<lparr>workflows := update_where (workflow_at w i) g (workflows s)\<rparr>)"
    and save_version: "\<lbrakk>writes; find_workflow w i s = Some f; unchanged_key g; \<forall>r. wfl_version (g r) = wfl_version f + 1; ver_workflow vr = i;
        ver_number vr = wfl_version f + 1; ver_id vr \<notin> ver_id ` set (versions s); \<forall>y \<in> set (versions s). \<not> (ver_workflow y = i \<and> ver_number y = ver_number vr)\<rbrakk>
      \<Longrightarrow> R s (s\<lparr>versions := versions s @ [vr], workflows := update_where (workflow_at w i) g (workflows s)\<rparr>)"
    and add_integration: "\<lbrakk>writes; itg_workspace it = w\<rbrakk> \<Longrightarrow> R s (s\<lparr>integrations := integrations s @ [it]\<rparr>)"
    and update_integrations: "\<lbrakk>writes; \<forall>r. itg_workspace (h r) = itg_workspace r\<rbrakk>
      \<Longrightarrow> R s (s\<lparr>integrations := update_where (integration_at w p) h (integrations s)\<rparr>)"
begin

lemma moves_insert_job [valid_intros]: "moves R (insert_job env w type payload)"
  unfolding insert_job_def by (intro valid_intros moves_guarded add_job) (auto simp: first_error_None simp del: first_error.simps)

lemma moves_insert_event: 
  assumes inbound "evt_workspace e = w"
  shows "moves R (insert_event e)"
  unfolding moves_def insert_event_def
  using assms by (auto simp: bnd_run' guarded_def same split: option.split if_splits intro!: add_event)

lemma moves_insert_execution: 
  assumes "exe_workspace x = w" "exe_status x = ''queued''" "find_workflow w (exe_workflow x) s = Some f"
  shows "R s (snd (insert_execution x s))"
  using assms by (auto simp: insert_execution_def bnd_run' guarded_def same split: option.split intro!: add_execution)

lemma moves_webhook: "inbound \<Longrightarrow> clean (header rq ''x-bos-workspace-id'') 200 = w \<Longrightarrow> moves R (inbound_webhook env rq endpoint)"
  unfolding inbound_webhook_def Let_def by (intro valid_intros) (simp_all add: moves_insert_event moves_insert_job moves_bnd moves_ret)

lemma moves_audit: "writes \<Longrightarrow> moves R (audit env w u action type i meta)"
  unfolding audit_def by (intro valid_intros moves_guarded add_audit) simp_all

lemma moves_insert_invitation: "writes \<Longrightarrow> ivt_workspace v = w \<Longrightarrow> ivt_by v = u \<Longrightarrow> moves R (insert_invitation v)"
  unfolding insert_invitation_def by (intro moves_guarded add_invitation)

lemma moves_update_workflow: 
  assumes "writes" "\<And>r. wfl_id (g r) = wfl_id r \<and> wfl_workspace (g r) = wfl_workspace r \<and> wfl_version (g r) = wfl_version r"
  shows "moves R (update_workflow w i g)"
  unfolding update_workflow_def
proof (rule moves_exec)
  fix s
  have "unchanged_key (\<lambda>r. (g r)\<lparr>wfl_updated := now s\<rparr>)" using assms(2) by (simp add: unchanged_key_def)
  from update_workflows [OF assms(1) this, of s i] show "R s (s\<lparr>workflows := update_where (\<lambda>r. wfl_id r = i \<and> wfl_workspace r = w) (\<lambda>r. (g r)\<lparr>wfl_updated := now s\<rparr>) (workflows s)\<rparr>)"
    using assms(2) by (simp add: workflow_at_def [abs_def])
qed

lemma moves_upsert_integration:
  assumes "writes" "itg_workspace it = w"
  shows "moves R (upsert_integration it)"
  unfolding upsert_integration_def
  using update_integrations [OF assms(1), of "\<lambda>x. x\<lparr>itg_credentials := itg_credentials it, itg_config := itg_config it, itg_status := ''connected'', itg_error := None, itg_updated := now s\<rparr>" s "itg_provider it" for s]
  by (intro moves_guarded) (simp add: assms add_integration integration_at_def [abs_def])

end

section \<open>Routes\<close>

lemma requireWorkspace_state [simp]: "snd (requireWorkspace a r s) = s"
  by (auto simp: requireWorkspace_def bnd_run' split: option.splits)

lemma requireWorkspace_Inr:
  assumes "requireWorkspace a r s = (Inr m, t)"
  shows "t = s" "find_member (tenant a) (au_user a) s = Some m" "mem_status m = ''active''" "\<And>rs. r = Some rs \<Longrightarrow> mem_role m \<in> set rs"
    "au_tenant a = Some (tenant a)"
  using assms by (auto simp: requireWorkspace_def bnd_run' tenant_def split: option.splits if_splits)

lemma insert_version_cases:
  obtains (ok) "insert_version r s = (Inr (), s\<lparr>versions := versions s @ [r]\<rparr>)" "ver_id r \<notin> ver_id ` set (versions s)"
      "\<forall>y \<in> set (versions s). \<not> (ver_workflow y = ver_workflow r \<and> ver_number y = ver_number r)"
    | (failed) e where "insert_version r s = (Inl e, s)"
proof (cases "fst (insert_version r s)")
  case (Inl e)
  then obtain t where "insert_version r s = (Inl e, t)" by (cases "insert_version r s") simp
  then show thesis by (intro failed [of e]) (simp add: insert_version_def guarded_Inl del: first_error.simps)
next
  case (Inr x)
  then obtain t where "insert_version r s = (Inr (), t)" by (cases "insert_version r s") simp
  then show thesis by (intro ok) (auto simp: insert_version_def guarded_Inr first_error_None simp del: first_error.simps)
qed

lemma insert_workflow_cases:
  obtains (ok) "insert_workflow r s = (Inr (), s\<lparr>workflows := workflows s @ [r]\<rparr>)" "wfl_id r \<notin> wfl_id ` set (workflows s)"
    | (failed) e where "insert_workflow r s = (Inl e, s)"
proof (cases "fst (insert_workflow r s)")
  case (Inl e)
  then obtain t where "insert_workflow r s = (Inl e, t)" by (cases "insert_workflow r s") simp
  then show thesis by (intro failed [of e]) (simp add: insert_workflow_def guarded_Inl del: first_error.simps)
next
  case (Inr x)
  then obtain t where "insert_workflow r s = (Inr (), t)" by (cases "insert_workflow r s") simp
  then show thesis by (intro ok) (auto simp: insert_workflow_def guarded_Inr first_error_None simp del: first_error.simps)
qed

text \<open>The workspace and the user a request acts for: a webhook call names its workspace.\<close>

definition webhook_path :: "http_request \<Rightarrow> string option" where
  "webhook_path rq = (if hr_method rq = ''POST'' then path_under ''/api/v1/webhooks/'' (hr_path rq) else None)"

definition acts_for :: "http_request \<Rightarrow> auth option \<Rightarrow> string \<Rightarrow> string \<Rightarrow> bool" where
  "acts_for rq who w u \<longleftrightarrow> (case webhook_path rq of
       Some e \<Rightarrow> w = clean (header rq ''x-bos-workspace-id'') 200
     | None \<Rightarrow> (case who of None \<Rightarrow> True | Some a \<Rightarrow> w = tenant a \<and> u = au_user a))"

context member_change
begin

lemma writer:
  assumes "tenant a = w" "au_user a = u" "can_write w u s \<Longrightarrow> writes" "\<And>m. writes \<Longrightarrow> moves R (k m)"
  shows "R s (snd (bnd (requireWorkspace a (Some write_roles)) k s))"
proof (rule moves_at_bnd)
  show "R t (snd (k m t))" if "requireWorkspace a (Some write_roles) s = (Inr m, t)" for m t
    using requireWorkspace_Inr [OF that] assms by (auto simp: can_write_def intro: movesD)
qed (simp add: same)

lemma moves_create_workflow:
  assumes "writes"
  shows "moves R (in_transaction (bnd (insert_workflow \<lparr>wfl_id = i, wfl_workspace = w, wfl_name = name, wfl_description = description, wfl_status = ''draft'',
           wfl_version = 1, wfl_by = by_user, wfl_created = time, wfl_updated = time\<rparr>)
         (\<lambda>_. insert_version \<lparr>ver_id = vi, ver_workflow = i, ver_number = 1, ver_definition = d, ver_by = by_user\<rparr>)))"
  unfolding moves_def
proof
  let ?f = "\<lparr>wfl_id = i, wfl_workspace = w, wfl_name = name, wfl_description = description, wfl_status = ''draft'',
     wfl_version = 1, wfl_by = by_user, wfl_created = time, wfl_updated = time\<rparr>"
  let ?v = "\<lparr>ver_id = vi, ver_workflow = i, ver_number = 1, ver_definition = d, ver_by = by_user\<rparr>"
  fix s
  show "R s (snd (in_transaction (bnd (insert_workflow ?f) (\<lambda>_. insert_version ?v)) s))"
  proof (cases s rule: insert_workflow_cases [of ?f])
    case ok
    let ?t = "s\<lparr>workflows := workflows s @ [?f]\<rparr>"
    show ?thesis
      using ok add_workflow [OF assms, of ?f s ?v]
      by (cases ?t rule: insert_version_cases [of ?v]) (auto simp: in_transaction_def bnd_run' same)
  qed (simp add: in_transaction_def bnd_run' same)
qed

lemma moves_save_workflow:
  assumes "tenant a = w" "au_user a = u" "can_write w u s \<Longrightarrow> writes"
  shows "R s (snd (save_workflow env rq a i s))"
  unfolding save_workflow_def
proof (intro writer [OF assms(1,2)] assms(3) moves_bnd [OF moves_lift])
  fix p
  assume w: writes
  let ?save = "\<lambda>existing. case existing of None \<Rightarrow> throw (status_error ''WORKFLOW_NOT_FOUND'' 404)
     | Some f \<Rightarrow> if nullish p then throw null_read_error
         else
           let n = wfl_version f + 1; d = definition_of p in
           bnd (randomUUID env ''wversion_'') (\<lambda>vi.
           bnd (insert_version \<lparr>ver_id = vi, ver_workflow = i, ver_number = n, ver_definition = to_json d, ver_by = au_user a\<rparr>) (\<lambda>_.
           bnd (update_workflow (tenant a) i (\<lambda>r. r\<lparr>
             wfl_name := (if truthy (field p ''name'') then clean (field p ''name'') 160 else wfl_name r),
             wfl_description := (if field p ''description'' \<noteq> Undefined then clean (field p ''description'') 1000 else wfl_description r),
             wfl_version := n\<rparr>)) (\<lambda>_.
           bnd (audit env (tenant a) (au_user a) ''workflow.version.created'' ''workflow'' i (Obj [(''version'', Num n)])) (\<lambda>_.
           ret (200::int, Obj [(''status'', Str ''saved''), (''version'', Num n), (''definition'', d)])))))"
  show "moves R (bnd (query (find_workflow (tenant a) i)) ?save)"
    unfolding moves_def
  proof
    fix s
    show "R s (snd (bnd (query (find_workflow (tenant a) i)) ?save s))"
    proof (cases "find_workflow w i s")
      case (Some f)
      let ?n = "wfl_version f + 1" and ?t = "s\<lparr>draws := Suc (draws s)\<rparr>"
      let ?v = "\<lparr>ver_id = ''wversion_'' @ random_uuid env (draws s), ver_workflow = i, ver_number = ?n, ver_definition = to_json (definition_of p), ver_by = u\<rparr>"
      let ?g = "\<lambda>r. r\<lparr>wfl_name := (if truthy (field p ''name'') then clean (field p ''name'') 160 else wfl_name r),
             wfl_description := (if field p ''description'' \<noteq> Undefined then clean (field p ''description'') 1000 else wfl_description r),
             wfl_version := ?n, wfl_updated := now s\<rparr>"
      let ?s1 = "?t\<lparr>versions := versions ?t @ [?v], workflows := update_where (workflow_at w i) ?g (workflows ?t)\<rparr>"
      have a: "moves R (audit env w u ''workflow.version.created'' ''workflow'' i (Obj [(''version'', Num ?n)]))" by (rule moves_audit [OF w])
      have found: "find_workflow w i ?t = Some f" using Some by (simp add: find_workflow_def)
      show ?thesis
      proof (cases ?t rule: insert_version_cases [of ?v])
        case (failed e)
        then show ?thesis using Some by (simp add: bnd_run' assms(1,2) Let_def same drawn)
      next
        case ok
        have "R ?t ?s1" by (rule save_version [OF w found]) (use ok in \<open>simp_all add: unchanged_key_def\<close>)
        then have "R s ?s1" using drawn compose by blast
        moreover have "R ?s1 (snd (audit env w u ''workflow.version.created'' ''workflow'' i (Obj [(''version'', Num ?n)]) ?s1))" by (rule movesD [OF a])
        ultimately have "R s (snd (audit env w u ''workflow.version.created'' ''workflow'' i (Obj [(''version'', Num ?n)]) ?s1))" by (rule compose)
        then show ?thesis using Some ok(1)
          by (auto simp: same bnd_run' assms(1,2) Let_def update_workflow_def workflow_at_def [abs_def] now_def split: prod.splits sum.splits)
      qed
    qed (simp add: bnd_run' assms same)
  qed
qed

lemma moves_upsert [valid_intros]: "writes \<Longrightarrow> itg_workspace it = w \<Longrightarrow> moves R (upsert_integration it)"
  by (rule moves_upsert_integration)

lemma moves_query_option:
  "(\<And>s x. f s = Some x \<Longrightarrow> R s (snd (k x s))) \<Longrightarrow> moves R n \<Longrightarrow> moves R (bnd (query f) (\<lambda>r. case r of None \<Rightarrow> n | Some x \<Rightarrow> k x))"
  by (simp add: moves_def bnd_run' split: option.split)

lemma moves_if_at: "(b \<Longrightarrow> R s (snd (m s))) \<Longrightarrow> (\<not> b \<Longrightarrow> R s (snd (m' s))) \<Longrightarrow> R s (snd ((if b then m else m') s))"
  by simp

lemma moves_random_at: "(\<And>n. R (s\<lparr>draws := n\<rparr>) (snd (k (pre @ random_uuid env (draws s)) (s\<lparr>draws := n\<rparr>)))) \<Longrightarrow> R s (snd (bnd (randomUUID env pre) k s))"
  by (rule moves_at_bnd) (auto simp: drawn)

lemma moves_query_at: "R s (snd (k (f s) s)) \<Longrightarrow> R s (snd (bnd (query f) k s))"
  by (simp add: bnd_run')

lemma moves_lift_at: "(\<And>a. r = Inr a \<Longrightarrow> R s (snd (k a s))) \<Longrightarrow> R s (snd (bnd (lift r) k s))"
  by (cases r) (simp_all add: same)

lemma moves_throw_at: "R s (snd (throw e s))"
  by (simp add: same)

lemma moves_enqueue:
  assumes "find_workflow w i s = Some f" "tenant a = w"
  shows "R s (snd (enqueue_execution env rq a p i (f, d) s))"
proof -
  have job: "moves R (insert_job env (tenant a) type payload)" for type payload unfolding assms(2) by (rule moves_insert_job)
  have insert: "R t (snd (insert_execution (new_execution x (tenant a) i n ''manual'' key input time) t))" if "find_workflow w i t = Some f" for t x n key input time
    by (rule moves_insert_execution) (use that assms(2) in \<open>simp_all add: new_execution_def\<close>)
  have found: "find_workflow w i (s\<lparr>draws := m\<rparr>) = Some f" for m using assms(1) by (simp add: find_workflow_def)
  have answer: "moves R (if \<not> b then query g else bnd (insert_job env (tenant a) type payload) (\<lambda>_. ret v))" for b type payload v and g :: "saas_db \<Rightarrow> reply"
    by (intro valid_intros job)
  show ?thesis
    unfolding enqueue_execution_def Let_def prod.case
    by (intro moves_if_at moves_random_at moves_query_at moves_lift_at moves_throw_at moves_at_bnd insert found movesD [OF answer])
qed

lemma moves_start: "tenant a = w \<Longrightarrow> moves R (start_execution env rq a)"
  unfolding start_execution_def Let_def
  by (intro valid_intros moves_query_option) (auto intro: moves_enqueue split: option.splits)

lemma moves_route:
  assumes a: "tenant a = w" "au_user a = u" and c: "can_write w u s \<Longrightarrow> writes" and route: "member_route env enc rq a m = Some route"
  shows "R s (snd (route s))"
proof -
  have read: "moves R (get_workspace a m)" "moves R (get_members a)" "moves R (dashboard_summary a)" "moves R (list_workflows a)" "moves R (get_workflow a i)"
    "moves R (list_executions rq a)" "moves R (get_execution_route a i)" "moves R (list_notifications a)" "moves R (list_integrations env a)"
    "moves R (list_audit_logs a)" "moves R (get_billing a)" for i
    unfolding get_workspace_def get_members_def dashboard_summary_def list_workflows_def get_workflow_def list_executions_def get_execution_route_def
      list_notifications_def list_integrations_def list_audit_logs_def get_billing_def by (intro valid_intros)+
  have start: "moves R (start_execution env rq a)" by (rule moves_start [OF a(1)])
  have seen: "moves R (read_notification a i)" for i
    unfolding read_notification_def using a read_notifications [of _ i]
    by (intro valid_intros moves_exec) (simp add: notification_for_def [abs_def] visible_def)
  have invite: "R s (snd (invite env rq a s))"
    unfolding invite_def Let_def by (intro writer [OF a c] valid_intros moves_insert_invitation moves_audit) (simp_all add: a moves_audit)
  have create: "R s (snd (create_workflow env rq a s))"
    unfolding create_workflow_def Let_def by (intro writer [OF a c] valid_intros) (simp_all add: a moves_audit moves_create_workflow)
  have publish: "R s (snd (publish_workflow env a i s))" for i
    unfolding publish_workflow_def by (intro writer [OF a c] valid_intros) (simp_all add: a moves_audit moves_update_workflow)
  have disable: "R s (snd (disable_workflow env a i s))" for i
    unfolding disable_workflow_def by (intro writer [OF a c] valid_intros) (simp_all add: a moves_audit moves_update_workflow)
  have connect: "R s (snd (connect_integration env enc rq a s))"
    unfolding connect_integration_def Let_def by (intro writer [OF a c] valid_intros) (simp_all add: a moves_audit)
  note route = route [symmetric, unfolded member_route_def Let_def]
  show ?thesis
    using route movesD [OF read(1)] movesD [OF read(2)] movesD [OF read(3)] movesD [OF read(4)] movesD [OF read(5)] movesD [OF read(6)] movesD [OF read(7)]
      movesD [OF read(8)] movesD [OF read(9)] movesD [OF read(10)] movesD [OF read(11)] movesD [OF start] movesD [OF seen]
      invite create moves_save_workflow [OF a c] publish disable connect
    by (simp split: if_split_asm)
qed

lemma moves_handle:
  assumes "acts_for rq who w u" "webhook_path rq = None \<Longrightarrow> can_write w u s \<Longrightarrow> writes" "webhook_path rq \<noteq> None \<Longrightarrow> inbound"
  shows "R s (snd (handleSaaSRoute env enc rq who s))"
proof (cases "webhook_path rq")
  case (Some e)
  then have "moves R (handleSaaSRoute env enc rq who)"
    using moves_webhook [of rq] assms(1,3) unfolding handleSaaSRoute_def webhook_path_def [symmetric]
    by (auto simp: acts_for_def intro!: valid_intros)
  then show ?thesis by (rule movesD)
next
  case None
  show ?thesis
  proof (cases who)
    case (Some a)
    have c: "can_write w u s \<Longrightarrow> writes" using assms(2) None by simp
    have a: "tenant a = w" "au_user a = u" using assms(1) None Some by (simp_all add: acts_for_def)
    have "R s (snd ((case member_route env enc rq a m of None \<Rightarrow> ret None | Some route \<Rightarrow> bnd route (\<lambda>r. ret (Some r))) s))" for m
    proof (cases "member_route env enc rq a m")
      case (Some route)
      from moves_route [OF a c this] show ?thesis unfolding Some by (auto simp: moves_def same intro!: moves_at_bnd)
    qed (simp add: same)
    then have "R s (snd (bnd (requireWorkspace a None) (\<lambda>m. case member_route env enc rq a m of None \<Rightarrow> ret None | Some route \<Rightarrow> bnd route (\<lambda>r. ret (Some r))) s))"
      using requireWorkspace_Inr(1) [of a None s] by (intro moves_at_bnd) (auto simp: same)
    then show ?thesis using None Some
      by (simp add: handleSaaSRoute_def webhook_path_def [symmetric] storeOr_def same)
  qed (use None in \<open>simp add: handleSaaSRoute_def webhook_path_def [symmetric] storeOr_def same\<close>)
qed

end

end
