(* ===== verification/SaasAccess.thy ===== *)
theory SaasAccess
  imports SaasChanges
begin

text \<open>
  Who can change and who can see what through the workspace API: requests stay within the workspace
  they act for, roles bound what they change, and answers are computed from the workspace's own rows.
\<close>

definition request_workspace :: "http_request \<Rightarrow> auth option \<Rightarrow> string" where
  "request_workspace rq who = (case webhook_path rq of
       Some e \<Rightarrow> clean (header rq ''x-bos-workspace-id'') 200
     | None \<Rightarrow> (case who of None \<Rightarrow> [] | Some a \<Rightarrow> tenant a))"

definition request_user :: "auth option \<Rightarrow> string" where
  "request_user who = (case who of None \<Rightarrow> [] | Some a \<Rightarrow> au_user a)"

lemma acts_for_request: "acts_for rq who (request_workspace rq who) (request_user who)"
  by (simp add: acts_for_def request_workspace_def request_user_def split: option.split)

section \<open>The rows of other workspaces\<close>

definition others :: "('r \<Rightarrow> string) \<Rightarrow> string \<Rightarrow> 'r list \<Rightarrow> 'r list" where
  "others k w rs = filter (\<lambda>r. k r \<noteq> w) rs"

text \<open>Everything but the rows of \<open>w\<close>; versions carry no workspace and are dealt with by \<open>within\<close>.\<close>

definition elsewhere :: "string \<Rightarrow> saas_db \<Rightarrow> saas_db" where
  "elsewhere w s = s\<lparr>invitations := others ivt_workspace w (invitations s), workflows := others wfl_workspace w (workflows s),
     executions := others exe_workspace w (executions s), events := others evt_workspace w (events s),
     notifications := others ntf_workspace w (notifications s), audits := others aud_workspace w (audits s),
     integrations := others itg_workspace w (integrations s), jobs := others job_workspace w (jobs s), versions := [], draws := 0\<rparr>"

definition own_workflows :: "string \<Rightarrow> saas_db \<Rightarrow> string set" where
  "own_workflows w s = set (map wfl_id (filter (\<lambda>f. wfl_workspace f = w) (workflows s)))"

definition within :: "string \<Rightarrow> saas_db \<Rightarrow> saas_db \<Rightarrow> bool" where
  "within w s t \<longleftrightarrow> elsewhere w t = elsewhere w s \<and> own_workflows w s \<subseteq> own_workflows w t
     \<and> (\<exists>vs. versions t = versions s @ vs \<and> ver_workflow ` set vs \<subseteq> own_workflows w t)"

lemma others_simps [simp]: "others k w (rs @ rs') = others k w rs @ others k w rs'" "others k w [r] = (if k r = w then [] else [r])"
  by (simp_all add: others_def)

lemma others_update: "(\<And>r. k (f r) = k r) \<Longrightarrow> (\<And>r. P r \<Longrightarrow> k r = w) \<Longrightarrow> others k w (update_where P f rs) = others k w rs"
  unfolding others_def update_where_def by (induction rs) auto

lemma own_update:
  assumes "unchanged_key g"
  shows "own_workflows w (s\<lparr>workflows := update_where P g (workflows s)\<rparr>) = own_workflows w s"
proof -
  have "map wfl_id (filter (\<lambda>f. wfl_workspace f = w) (update_where P g fs)) = map wfl_id (filter (\<lambda>f. wfl_workspace f = w) fs)" for fs
    using assms unfolding update_where_def by (induction fs) (auto simp: unchanged_key_def)
  then show ?thesis by (simp add: own_workflows_def)
qed

lemma own_add [simp]: "own_workflows w (s\<lparr>versions := vs\<rparr>) = own_workflows w s" "own_workflows w (s\<lparr>workflows := fs, versions := vs\<rparr>) = own_workflows w (s\<lparr>workflows := fs\<rparr>)"
  "own_workflows w (s\<lparr>versions := vs, workflows := fs\<rparr>) = own_workflows w (s\<lparr>workflows := fs\<rparr>)"
  by (simp_all add: own_workflows_def)

lemma find_workflow_in: "find_workflow w i s = Some f \<Longrightarrow> f \<in> set (workflows s) \<and> wfl_id f = i \<and> wfl_workspace f = w"
  unfolding find_workflow_def by (auto dest: row0_in)

lemma within_same_versions: "elsewhere w t = elsewhere w s \<Longrightarrow> workflows t = workflows s \<Longrightarrow> versions t = versions s \<Longrightarrow> within w s t"
  by (simp add: within_def own_workflows_def)

lemma within_compose:
  assumes "within w s t" "within w t v"
  shows "within w s v"
proof -
  obtain vs vs' where "versions t = versions s @ vs" "ver_workflow ` set vs \<subseteq> own_workflows w t"
    "versions v = versions t @ vs'" "ver_workflow ` set vs' \<subseteq> own_workflows w v" using assms unfolding within_def by metis
  moreover have "own_workflows w s \<subseteq> own_workflows w t" "own_workflows w t \<subseteq> own_workflows w v" "elsewhere w v = elsewhere w s"
    using assms by (simp_all add: within_def)
  ultimately show ?thesis unfolding within_def by (intro conjI exI [of _ "vs @ vs'"]) auto
qed

lemma others_marks [simp]:
  "others ntf_workspace w (update_where (notification_for w u i) (\<lambda>n. n\<lparr>ntf_read := x\<rparr>) ns) = others ntf_workspace w ns"
  by (intro others_update) (simp_all add: notification_for_def)

lemma others_integration: "\<forall>r. itg_workspace (h r) = itg_workspace r \<Longrightarrow> others itg_workspace w (update_where (integration_at w p) h ns) = others itg_workspace w ns"
  by (intro others_update) (simp_all add: integration_at_def)

interpretation within: member_change "within w" w u True True for w u
proof unfold_locales
  show "within w s s" for s by (simp add: within_def)
  show "within w s v" if "within w s t" "within w t v" for s t v by (rule within_compose [OF that])
  show "within w s (s\<lparr>draws := n\<rparr>)" for s n by (rule within_same_versions) (simp_all add: elsewhere_def)
  show "within w s (s\<lparr>workflows := update_where (workflow_at w i) g (workflows s)\<rparr>)"
    if "True" "unchanged_key g" "\<forall>r. wfl_version (g r) = wfl_version r" for g s i
  proof -
    have "others wfl_workspace w (update_where (workflow_at w i) g (workflows s)) = others wfl_workspace w (workflows s)"
      using that(2) by (intro others_update) (auto simp: unchanged_key_def workflow_at_def)
    then show ?thesis using own_update [OF that(2)] by (simp add: within_def elsewhere_def)
  qed
  show "within w s (s\<lparr>workflows := workflows s @ [f], versions := versions s @ [vr]\<rparr>)"
    if "True" "wfl_workspace f = w" "wfl_version f = 1" "wfl_id f \<notin> wfl_id ` set (workflows s)" "ver_workflow vr = wfl_id f" for f s vr
    using that by (auto simp: within_def elsewhere_def own_workflows_def)
  show "within w s (s\<lparr>versions := versions s @ [vr], workflows := update_where (workflow_at w i) g (workflows s)\<rparr>)"
    if "True" "find_workflow w i s = Some f" "unchanged_key g" "\<forall>r. wfl_version (g r) = wfl_version f + 1" "ver_workflow vr = i" for i s f g vr
  proof -
    have "others wfl_workspace w (update_where (workflow_at w i) g (workflows s)) = others wfl_workspace w (workflows s)"
      using that(3) by (intro others_update) (auto simp: unchanged_key_def workflow_at_def)
    moreover have "i \<in> own_workflows w s" using find_workflow_in [OF that(2)] by (auto simp: own_workflows_def)
    ultimately show ?thesis using own_update [OF that(3)] that(5) by (auto simp: within_def elsewhere_def)
  qed
qed (auto intro!: within_same_versions simp: elsewhere_def others_integration)

text \<open>C5: Safety. A request changes only rows of the workspace it acts for: the rows of every other workspace, its
  workflows' versions included, and the accounts, sessions and memberships are afterwards as they
  were, whatever the request, its sender and its outcome.\<close>

theorem requests_stay_in_their_workspace:
  "within (request_workspace rq who) s (snd (handleSaaSRoute env enc rq who s))"
  by (rule within.moves_handle [OF acts_for_request]) simp_all

section \<open>Roles\<close>

text \<open>What a member without a writing role may do: start executions and read notifications.\<close>

definition spectator_view :: "saas_db \<Rightarrow> saas_db" where
  "spectator_view s = s\<lparr>executions := [], jobs := [], notifications := map (\<lambda>n. n\<lparr>ntf_read := None\<rparr>) (notifications s), draws := 0\<rparr>"

definition spectates :: "string \<Rightarrow> string \<Rightarrow> saas_db \<Rightarrow> saas_db \<Rightarrow> bool" where
  "spectates w u s t \<longleftrightarrow> spectator_view t = spectator_view s
     \<and> (\<exists>xs. executions t = executions s @ xs \<and> (\<forall>x \<in> set xs. exe_workspace x = w \<and> exe_status x = ''queued''))
     \<and> (\<exists>js. jobs t = jobs s @ js \<and> (\<forall>j \<in> set js. job_workspace j = w))
     \<and> filter (\<lambda>n. \<not> (ntf_workspace n = w \<and> (ntf_user n = Some u \<or> ntf_user n = None))) (notifications t)
       = filter (\<lambda>n. \<not> (ntf_workspace n = w \<and> (ntf_user n = Some u \<or> ntf_user n = None))) (notifications s)"

lemma filter_update_where: "(\<And>r. Q (f r) = Q r) \<Longrightarrow> (\<And>r. P r \<Longrightarrow> \<not> Q r) \<Longrightarrow> filter Q (update_where P f rs) = filter Q rs"
  unfolding update_where_def by (induction rs) auto

interpretation spectates: member_change "spectates w u" w u False False for w u
proof unfold_locales
  show "spectates w u s v" if "spectates w u s t" "spectates w u t v" for s t v
    using that unfolding spectates_def by (auto simp: ball_Un)
  show "spectates w u s (s\<lparr>notifications := update_where (notification_for w u ni) (\<lambda>n. n\<lparr>ntf_read := Some (now s)\<rparr>) (notifications s)\<rparr>)" for s ni
    by (auto simp: spectates_def spectator_view_def map_update_where notification_for_def intro!: filter_update_where)
qed (auto simp: spectates_def spectator_view_def)

definition refusals :: "js_error set" where
  "refusals = {status_error ''DATABASE_NOT_CONFIGURED'' 503, status_error ''WORKSPACE_REQUIRED'' 422, status_error ''WORKSPACE_ACCESS_DENIED'' 403}"

text \<open>What such a member's request adds: nothing, or one execution, and then its job unless that insert failed.\<close>

definition one_start :: "string \<Rightarrow> saas_db \<Rightarrow> saas_db \<Rightarrow> bool" where
  "one_start w s t \<longleftrightarrow> (executions t = executions s \<and> jobs t = jobs s)
     \<or> (\<exists>x. executions t = executions s @ [x] \<and> exe_workspace x = w \<and> exe_status x = ''queued''
        \<and> (jobs t = jobs s \<or> (\<exists>j. jobs t = jobs s @ [j] \<and> job_workspace j = w \<and> job_type j = ''workflow.execute'' \<and> job_status j = ''queued''
             \<and> field (job_payload j) ''executionId'' = Str (exe_id x))))"

definition no_start :: "saas_db \<Rightarrow> saas_db \<Rightarrow> bool" where
  "no_start s t \<longleftrightarrow> executions t = executions s \<and> jobs t = jobs s"

interpretation no_start: db_change no_start
  by unfold_locales (simp_all add: no_start_def)

lemma unauthorized_stops:
  assumes "\<not> can_write (tenant a) (au_user a) s"
  shows "\<exists>e. bnd (requireWorkspace a (Some write_roles)) k s = (Inl e, s)"
proof (cases "requireWorkspace a (Some write_roles) s")
  case (Pair r t)
  then show ?thesis using requireWorkspace_Inr [of a "Some write_roles" s] requireWorkspace_state [of a "Some write_roles" s] assms
    by (cases r) (auto simp: bnd_run' can_write_def)
qed

lemma insert_job_adds:
  assumes "insert_job env w ty p s = (r, t)"
  shows "executions t = executions s \<and> (jobs t = jobs s \<or> (\<exists>j. jobs t = jobs s @ [j] \<and> job_workspace j = w \<and> job_type j = ty \<and> job_status j = ''queued'' \<and> job_payload j = to_json p))"
  using assms by (auto simp: insert_job_def bnd_run' guarded_def split: option.splits)

lemma insert_execution_adds:
  "insert_execution x s = (r, t) \<Longrightarrow> if r = Inr True then executions t = executions s @ [x] \<and> jobs t = jobs s else no_start s t"
  by (auto simp: insert_execution_def bnd_run' guarded_def no_start_def split: if_splits option.splits)

lemma insert_then_job:
  assumes "no_start s u" "exe_workspace x = w" "exe_status x = ''queued''"
    and "\<And>v. snd (k False v) = v" "\<And>v. snd (k True v) = snd (insert_job env w ''workflow.execute'' (Obj [(''executionId'', Str (exe_id x)), (''definition'', d)]) v)"
  shows "one_start w s (snd (bnd (insert_execution x) k u))"
proof -
  obtain r t where ins: "insert_execution x u = (r, t)" by fastforce
  note added = insert_execution_adds [OF ins]
  show ?thesis
  proof (cases "r = Inr True")
    case True
    let ?job = "insert_job env w ''workflow.execute'' (Obj [(''executionId'', Str (exe_id x)), (''definition'', d)])"
    have job: "executions (snd (?job t)) = executions t" "jobs (snd (?job t)) = jobs t \<or> (\<exists>j. jobs (snd (?job t)) = jobs t @ [j] \<and> job_workspace j = w
        \<and> job_type j = ''workflow.execute'' \<and> job_status j = ''queued'' \<and> field (job_payload j) ''executionId'' = Str (exe_id x))"
      using insert_job_adds [of env w "''workflow.execute''" "Obj [(''executionId'', Str (exe_id x)), (''definition'', d)]" t]
      by (cases "?job t", force)+
    then show ?thesis using added True assms(1-3,5) ins by (simp add: bnd_run' one_start_def no_start_def)
  next
    case False
    have "no_start s t" using added False assms(1) by (simp add: no_start_def)
    moreover have "snd (bnd (insert_execution x) k u) = t" using ins False assms(4) by (cases r) (auto simp: bnd_run')
    ultimately show ?thesis by (simp add: one_start_def no_start_def)
  qed
qed

lemma start_execution_adds: "one_start (tenant a) s (snd (start_execution env rq a s))"
proof -
  have same: "one_start w s s" "no_start s (s\<lparr>draws := n\<rparr>)" "one_start w s (s\<lparr>draws := n\<rparr>)" for w n by (simp_all add: one_start_def no_start_def)
  have "one_start (tenant a) s (snd (enqueue_execution env rq a p i (f, d) s))" for p i f d
    unfolding enqueue_execution_def
    by (cases "json_param env (js_or (field p ''context'') (Obj []))")
      (auto simp: Let_def bnd_run' [of "lift _"] bnd_run' [of "query _"] bnd_run' [of "randomUUID _ _"] same new_execution_def bnd_run' [of "insert_job _ _ _ _"]
        intro!: insert_then_job [where env = env and d = d] split: prod.split sum.split)
  then show ?thesis
    by (cases "read_body env rq") (auto simp: start_execution_def Let_def bnd_run' same split: option.split)
qed

lemma member_starts:
  assumes "webhook_path rq = None" "\<not> can_write (tenant a) (au_user a) s"
  shows "one_start (tenant a) s (snd (handleSaaSRoute env enc rq (Some a) s))"
proof -
  have quiet: "one_start w s (snd (m s))" if "moves no_start m" for w and m :: "(saas_db, reply) act" using movesD [OF that, of s] by (simp add: one_start_def no_start_def)
  have read: "moves no_start (get_workspace a m)" "moves no_start (get_members a)" "moves no_start (dashboard_summary a)" "moves no_start (list_workflows a)" "moves no_start (get_workflow a i)"
    "moves no_start (list_executions rq a)" "moves no_start (get_execution_route a i)" "moves no_start (list_notifications a)" "moves no_start (list_integrations env a)"
    "moves no_start (list_audit_logs a)" "moves no_start (get_billing a)" for i m
    unfolding get_workspace_def get_members_def dashboard_summary_def list_workflows_def get_workflow_def list_executions_def get_execution_route_def
      list_notifications_def list_integrations_def list_audit_logs_def get_billing_def by (intro valid_intros)+
  have seen: "moves no_start (read_notification a i)" for i
    unfolding read_notification_def by (intro valid_intros moves_exec) (simp add: no_start_def)
  have stopped: "one_start w s (snd (bnd (requireWorkspace a (Some write_roles)) k s))" for w and k :: "member_row \<Rightarrow> (saas_db, reply) act"
    using unauthorized_stops [OF assms(2), of k] by (auto simp: one_start_def)
  have "one_start (tenant a) s (snd (route s))" if "member_route env enc rq a m = Some route" for m route
    using that [symmetric, unfolded member_route_def Let_def] read [THEN quiet] seen [THEN quiet] start_execution_adds [of a s env rq]
    by (simp add: invite_def create_workflow_def save_workflow_def publish_workflow_def disable_workflow_def connect_integration_def Let_def stopped split: if_split_asm)
  then have "one_start (tenant a) s (snd ((case member_route env enc rq a m of None \<Rightarrow> ret None | Some route \<Rightarrow> bnd route (\<lambda>r. ret (Some r))) s))" for m
    by (fastforce simp: one_start_def [of _ s s] bnd_run' split: option.split prod.split sum.split)
  moreover have "requireWorkspace a None s = (r, t) \<Longrightarrow> t = s" for r t using requireWorkspace_state [of a None s] by simp
  ultimately show ?thesis
    using assms(1) by (auto simp: handleSaaSRoute_def webhook_path_def [symmetric] storeOr_def bnd_run' [of "requireWorkspace _ _"] one_start_def [of _ s s] split: prod.split sum.split)
qed

text \<open>C12: Safety. Roles bound what a signed-in user's request changes. An inbound webhook call, which needs no session
  and proves itself by its secret, is the one exception. Every other request without an active
  membership of the session's workspace is refused and changes nothing at all; without the role of an
  owner or admin it changes at most this: one new queued execution of the workspace, with at most one
  job, which is the one to execute it, and read marks of notifications the user sees.\<close>

theorem roles_bound_requests:
  assumes "webhook_path rq = None"
  shows "case find_member (tenant a) (au_user a) s of
      Some m \<Rightarrow> if mem_status m \<noteq> ''active'' then (\<exists>e \<in> refusals. handleSaaSRoute env enc rq (Some a) s = (Inl e, s))
               else mem_role m \<notin> {''owner'', ''admin''} \<longrightarrow> spectates (tenant a) (au_user a) s (snd (handleSaaSRoute env enc rq (Some a) s))
                 \<and> one_start (tenant a) s (snd (handleSaaSRoute env enc rq (Some a) s))
    | None \<Rightarrow> \<exists>e \<in> refusals. handleSaaSRoute env enc rq (Some a) s = (Inl e, s)"
proof -
  have stranger: "\<exists>e \<in> refusals. handleSaaSRoute env enc rq (Some a) s = (Inl e, s)"
    if "\<And>m. find_member (tenant a) (au_user a) s = Some m \<Longrightarrow> mem_status m \<noteq> ''active''"
  proof -
    have "\<exists>e \<in> refusals. requireWorkspace a None s = (Inl e, s)"
      using that by (auto simp: requireWorkspace_def bnd_run' refusals_def tenant_def split: option.splits)
    then show ?thesis
      using assms by (auto simp: handleSaaSRoute_def webhook_path_def [symmetric] storeOr_def bnd_run' refusals_def)
  qed
  have member: "spectates (tenant a) (au_user a) s (snd (handleSaaSRoute env enc rq (Some a) s))" if "\<not> can_write (tenant a) (au_user a) s"
    using that assms by (intro spectates.moves_handle) (simp_all add: acts_for_def)
  show ?thesis using stranger member member_starts [OF assms] by (auto simp: can_write_def write_roles_def split: option.split)
qed

text \<open>A published workflow with one execution in \<open>w1\<close>, whose owner is \<open>u0\<close>, and another workspace.\<close>

definition demo_workflow :: workflow_row where
  "demo_workflow = \<lparr>wfl_id = ''f1'', wfl_workspace = ''w1'', wfl_name = ''Flow'', wfl_description = [], wfl_status = ''published'', wfl_version = 1,
     wfl_by = ''u0'', wfl_created = 0, wfl_updated = 0\<rparr>"

definition demo_execution :: execution_row where
  "demo_execution = new_execution ''x1'' ''w1'' ''f1'' 1 ''manual'' (Some ''k1'') (Obj []) 0"

definition demo_viewer :: member_row where
  "demo_viewer = \<lparr>mem_workspace = ''w1'', mem_user = ''u1'', mem_role = ''viewer'', mem_status = ''active'', mem_joined = 0\<rparr>"

definition demo_saas :: saas_db where
  "demo_saas = demo_accounts\<lparr>users := [demo_user, demo_user\<lparr>usr_id := ''u0'', usr_email := ''bo@bos.io''\<rparr>],
     workflows := [demo_workflow, demo_workflow\<lparr>wfl_id := ''f2'', wfl_workspace := ''w2''\<rparr>],
     versions := [\<lparr>ver_id = ''v1'', ver_workflow = ''f1'', ver_number = 1, ver_definition = Obj [], ver_by = ''u0''\<rparr>], executions := [demo_execution],
     members := [demo_viewer\<lparr>mem_user := ''u0'', mem_role := ''owner''\<rparr>, demo_viewer]\<rparr>"

definition demo_auth :: auth where
  "demo_auth = \<lparr>au_user = ''u0'', au_email = ''bo@bos.io'', au_name = ''Bo'', au_tenant = Some ''w1''\<rparr>"

definition demo_get :: http_request where
  "demo_get = \<lparr>hr_method = ''GET'', hr_path = ''/api/v1/workflows'', hr_limit = Null, hr_headers = Obj [], hr_chunks = []\<rparr>"

theorem roles_bound_requests_witness:
  "find_member ''w1'' ''u1'' demo_saas = Some demo_viewer
   \<and> spectates ''w1'' ''u1'' demo_saas (snd (handleSaaSRoute demo_app (\<lambda>v. Inr []) (demo_get\<lparr>hr_method := ''POST''\<rparr>) (Some (demo_auth\<lparr>au_user := ''u1''\<rparr>)) demo_saas))"
proof -
  have "find_member ''w1'' ''u1'' demo_saas = Some demo_viewer" by (simp add: find_member_def demo_saas_def demo_viewer_def row0_def)
  moreover have "webhook_path (demo_get\<lparr>hr_method := ''POST''\<rparr>) = None" by code_simp
  ultimately show ?thesis
    using roles_bound_requests [where rq = "demo_get\<lparr>hr_method := ''POST''\<rparr>" and a = "demo_auth\<lparr>au_user := ''u1''\<rparr>" and s = demo_saas]
    by (simp add: demo_auth_def tenant_def demo_viewer_def)
qed

end
