(* ===== verification/SaasReads.thy ===== *)
theory SaasReads
  imports SaasAccess
begin

text \<open>
  What a member can see: every answer to a GET request is computed from the member's view, the rows of
  the workspace without password hashes and credentials.
\<close>

definition own_execution :: "string \<Rightarrow> saas_db \<Rightarrow> string \<Rightarrow> bool" where
  "own_execution w s i \<longleftrightarrow> (\<exists>x \<in> set (executions s). exe_workspace x = w \<and> exe_id x = i)"

definition view :: "string \<Rightarrow> string \<Rightarrow> saas_db \<Rightarrow> saas_db" where
  "view w u s = \<lparr>records = \<lparr>bos_records = [], pg_now = 0\<rparr>,
     users = map (\<lambda>x. x\<lparr>usr_password_hash := [], usr_verified := None\<rparr>) (filter (\<lambda>x. is_member s w (usr_id x)) (users s)),
     sessions = [], workspaces = filter (\<lambda>x. wsp_tenant x = w) (workspaces s),
     members = filter (\<lambda>m. mem_workspace m = w) (members s), invitations = [], tokens = [],
     workflows = filter (\<lambda>f. wfl_workspace f = w) (workflows s),
     versions = filter (\<lambda>v. ver_workflow v \<in> own_workflows w s) (versions s),
     executions = filter (\<lambda>x. exe_workspace x = w) (executions s),
     steps = filter (\<lambda>p. own_execution w s (stp_execution p)) (steps s), events = [],
     notifications = filter (\<lambda>n. ntf_workspace n = w \<and> (ntf_user n = Some u \<or> ntf_user n = None)) (notifications s),
     audits = filter (\<lambda>x. aud_workspace x = w) (audits s),
     integrations = map (\<lambda>i. i\<lparr>itg_credentials := Null\<rparr>) (filter (\<lambda>i. itg_workspace i = w) (integrations s)), jobs = [],
     billing = filter (\<lambda>b. fst b = w) (billing s), net_calls = [], app_now = 0, draws = 0\<rparr>"

text \<open>Workflow identifiers are unique, and executions belong to the workspace of their workflow.\<close>

definition refs_ok :: "saas_db \<Rightarrow> bool" where
  "refs_ok s \<longleftrightarrow> distinct (map wfl_id (workflows s))
     \<and> (\<forall>x \<in> set (executions s). \<exists>f \<in> set (workflows s). wfl_id f = exe_workflow x \<and> wfl_workspace f = exe_workspace x)"

section \<open>Tables of a view\<close>

lemma filter_within: "\<forall>x. P x \<longrightarrow> Q x \<Longrightarrow> filter P (filter Q xs) = filter P xs"
  by (induction xs) auto

lemma filter_map_same: "(\<And>x. P (f x) = P x) \<Longrightarrow> filter P (map f xs) = map f (filter P xs)"
  by (induction xs) auto

lemma concat_map_filter: "(\<And>x. x \<in> set xs \<Longrightarrow> \<not> P x \<Longrightarrow> g x = []) \<Longrightarrow> concat (map g (filter P xs)) = concat (map g xs)"
  by (induction xs) auto

lemma insert_by_map: "insert_by le (f x) (map f ys) = map f (insert_by (\<lambda>x y. le (f x) (f y)) x ys)"
  by (induction ys) auto

lemma sort_by_map: "sort_by le (map f xs) = map f (sort_by (\<lambda>x y. le (f x) (f y)) xs)"
  unfolding sort_by_def by (induction xs) (simp_all add: insert_by_map)

lemma map_of_own: "map_of (filter (\<lambda>b. fst b = w) bs) w = map_of bs w"
  by (induction bs) auto

lemma view_simps [simp]:
  "filter (\<lambda>m. mem_workspace m = w) (members (view w u s)) = filter (\<lambda>m. mem_workspace m = w) (members s)"
  "filter (\<lambda>x. wsp_tenant x = w) (workspaces (view w u s)) = filter (\<lambda>x. wsp_tenant x = w) (workspaces s)"
  "filter (\<lambda>x. exe_workspace x = w) (executions (view w u s)) = filter (\<lambda>x. exe_workspace x = w) (executions s)"
  "filter (\<lambda>x. aud_workspace x = w) (audits (view w u s)) = filter (\<lambda>x. aud_workspace x = w) (audits s)"
  "find_workflow w i (view w u s) = find_workflow w i s"
  "find_member w v (view w u s) = find_member w v s"
  "status_count w (view w u s) st = status_count w s st"
  "map_of (billing (view w u s)) w = map_of (billing s) w"
  by (simp_all add: view_def find_workflow_def find_member_def status_count_def filter_within map_of_own del: filter_filter)

lemma view_definition: "f \<in> set (workflows s) \<Longrightarrow> wfl_workspace f = w \<Longrightarrow> current_definition (view w u s) (wfl_id f) n = current_definition s (wfl_id f) n"
  by (auto simp: current_definition_def view_def own_workflows_def filter_within simp del: filter_filter)

lemma view_workflow_json: "f \<in> set (workflows s) \<Longrightarrow> wfl_workspace f = w \<Longrightarrow> workflow_json (view w u s) f = workflow_json s f"
  by (simp add: workflow_json_def view_definition)


lemma view_names:
  assumes "refs_ok s" "x \<in> set (executions s)"
  shows "filter (\<lambda>f. wfl_id f = exe_workflow x) (workflows (view (exe_workspace x) u s)) = filter (\<lambda>f. wfl_id f = exe_workflow x) (workflows s)"
proof -
  obtain f where f: "f \<in> set (workflows s)" "wfl_id f = exe_workflow x" "wfl_workspace f = exe_workspace x" and d: "distinct (map wfl_id (workflows s))"
    using assms by (auto simp: refs_ok_def)
  have "wfl_workspace g = exe_workspace x" if "g \<in> set (workflows s)" "wfl_id g = exe_workflow x" for g
    using unique_row [OF d that(1) f(1)] that f by simp
  then show ?thesis by (auto simp: view_def intro!: filter_cong)
qed

lemma view_members:
  assumes g: "\<And>m u h n. g m (u\<lparr>usr_password_hash := h, usr_verified := n\<rparr>) = g m u"
  shows "[(k m, g m u). m \<leftarrow> members (view w v s), u \<leftarrow> users (view w v s), usr_id u = mem_user m \<and> mem_workspace m = w]
   = [(k m, g m u). m \<leftarrow> members s, u \<leftarrow> users s, usr_id u = mem_user m \<and> mem_workspace m = w]"
proof -
  let ?h = "\<lambda>m u. if usr_id u = mem_user m \<and> mem_workspace m = w then [(k m, g m u)] else []"
  have users: "concat (map (?h m) (users (view w v s))) = concat (map (?h m) (users s))" if m: "m \<in> set (members s)" for m
  proof -
    have "?h m \<circ> (\<lambda>x. x\<lparr>usr_password_hash := [], usr_verified := None\<rparr>) = ?h m" by (rule ext) (simp add: g)
    moreover have "concat (map (?h m) (filter (\<lambda>x. is_member s w (usr_id x)) (users s))) = concat (map (?h m) (users s))"
      using m by (intro concat_map_filter) (auto simp: is_member_def)
    ultimately show ?thesis by (simp add: view_def)
  qed
  have "concat (map (\<lambda>m. concat (map (\<lambda>u. if usr_id u = mem_user m \<and> mem_workspace m = w then [(k m, g m u)] else []) us)) (members (view w v s)))
      = concat (map (\<lambda>m. concat (map (\<lambda>u. if usr_id u = mem_user m \<and> mem_workspace m = w then [(k m, g m u)] else []) us)) (members s))" for us
    unfolding view_def by (simp del: filter_filter) (rule concat_map_filter, auto)
  moreover have "concat (map (\<lambda>m. concat (map (\<lambda>u. if usr_id u = mem_user m \<and> mem_workspace m = w then [(k m, g m u)] else []) (users (view w v s)))) (members s))
      = concat (map (\<lambda>m. concat (map (\<lambda>u. if usr_id u = mem_user m \<and> mem_workspace m = w then [(k m, g m u)] else []) (users s))) (members s))"
    by (rule arg_cong [of _ _ concat], rule map_cong [OF refl], rule users)
  ultimately show ?thesis by simp
qed


section \<open>Answers\<close>

lemma view_state [simp]: "workflows (view w u s) = filter (\<lambda>f. wfl_workspace f = w) (workflows s)" "steps (view w u s) = filter (\<lambda>p. own_execution w s (stp_execution p)) (steps s)"
  "executions (view w u s) = filter (\<lambda>x. exe_workspace x = w) (executions s)" "audits (view w u s) = filter (\<lambda>x. aud_workspace x = w) (audits s)"
  "notifications (view w u s) = filter (\<lambda>n. ntf_workspace n = w \<and> (ntf_user n = Some u \<or> ntf_user n = None)) (notifications s)"
  "integrations (view w u s) = map (\<lambda>i. i\<lparr>itg_credentials := Null\<rparr>) (filter (\<lambda>i. itg_workspace i = w) (integrations s))"
  "workspaces (view w u s) = filter (\<lambda>x. wsp_tenant x = w) (workspaces s)"
  by (simp_all add: view_def)

lemma view_visible: "filter (visible a) (notifications (view (tenant a) (au_user a) s)) = filter (visible a) (notifications s)"
  by (auto simp: visible_def [abs_def] intro!: filter_cong)

lemma reads_workspace: "get_workspace a m (view (tenant a) u s) = (fst (get_workspace a m s), view (tenant a) u s)"
  by (simp add: get_workspace_def)

lemma reads_members: "get_members a (view (tenant a) u s) = (fst (get_members a s), view (tenant a) u s)"
  using view_members [where k = mem_joined and w = "tenant a" and s = s and v = u and g = "\<lambda>m u. Obj [(''user_id'', Str (mem_user m)), (''role'', Str (mem_role m)),
         (''status'', Str (mem_status m)), (''joined_at'', time_json (mem_joined m)), (''email'', Str (usr_email u)), (''name'', Str (usr_name u))]"]
  by (simp add: get_members_def)

lemma reads_dashboard: "dashboard_summary a (view (tenant a) (au_user a) s) = (fst (dashboard_summary a s), view (tenant a) (au_user a) s)"
  using view_visible [of a s] by (simp add: dashboard_summary_def filter_map_same comp_def conj_commute count_json_def)

lemma reads_workflows: "list_workflows a (view (tenant a) u s) = (fst (list_workflows a s), view (tenant a) u s)"
proof -
  have "filter (\<lambda>f. wfl_workspace f = tenant a \<and> wfl_status f \<noteq> ''archived'') (filter (\<lambda>f. wfl_workspace f = tenant a) (workflows s))
      = filter (\<lambda>f. wfl_workspace f = tenant a \<and> wfl_status f \<noteq> ''archived'') (workflows s)" by (simp add: filter_within del: filter_filter)
  then show ?thesis by (auto simp: list_workflows_def ok_body_def view_workflow_json simp del: filter_filter)
qed

lemma reads_workflow: "get_workflow a i (view (tenant a) u s) = (fst (get_workflow a i s), view (tenant a) u s)"
  using view_workflow_json find_workflow_in [of "tenant a" i s]
  by (cases "find_workflow (tenant a) i s") (auto simp: get_workflow_def bnd_run')

lemma reads_executions:
  assumes "refs_ok s"
  shows "list_executions rq a (view (tenant a) u s) = (fst (list_executions rq a s), view (tenant a) u s)"
proof -
  have names: "filter (\<lambda>f. wfl_id f = exe_workflow x) (filter (\<lambda>f. wfl_workspace f = tenant a) (workflows s)) = filter (\<lambda>f. wfl_id f = exe_workflow x) (workflows s)"
    if "x \<in> set (executions s)" "exe_workspace x = tenant a" for x
    using view_names [OF assms that(1), of u] that(2) by simp
  have "map (\<lambda>x. Obj (execution_fields x @ [(''workflow_name'', or_null_col Str (row0 (map wfl_name (filter (\<lambda>f. wfl_id f = exe_workflow x) (filter (\<lambda>f. wfl_workspace f = tenant a) (workflows s))))))]))
      (newest exe_created n (filter (\<lambda>x. exe_workspace x = tenant a) (executions s)))
    = map (\<lambda>x. Obj (execution_fields x @ [(''workflow_name'', or_null_col Str (row0 (map wfl_name (filter (\<lambda>f. wfl_id f = exe_workflow x) (workflows s)))))]))
      (newest exe_created n (filter (\<lambda>x. exe_workspace x = tenant a) (executions s)))" for n
    by (rule map_cong [OF refl]) (auto simp: newest_def names simp del: filter_filter dest!: in_set_takeD)
  then show ?thesis by (cases "page_limit (hr_limit rq)") (simp_all add: list_executions_def bnd_run' ok_body_def del: filter_filter)
qed

lemma reads_execution: "get_execution_route a i (view (tenant a) u s) = (fst (get_execution_route a i s), view (tenant a) u s)"
proof (cases "row0 (filter (\<lambda>x. exe_id x = i \<and> exe_workspace x = tenant a) (executions s))")
  case None
  then show ?thesis by (simp add: get_execution_route_def bnd_run' filter_within del: filter_filter)
next
  case (Some x)
  from row0_in [OF this] have own: "own_execution (tenant a) s i" by (auto simp: own_execution_def)
  have "filter (\<lambda>p. stp_execution p = i) (filter (\<lambda>p. own_execution (tenant a) s (stp_execution p)) (steps s)) = filter (\<lambda>p. stp_execution p = i) (steps s)"
    using own by (simp add: filter_within del: filter_filter)
  then show ?thesis using Some by (simp add: get_execution_route_def bnd_run' filter_within del: filter_filter)
qed

lemma reads_lists:
  "list_notifications a (view (tenant a) (au_user a) s) = (fst (list_notifications a s), view (tenant a) (au_user a) s)"
  "list_integrations env a (view (tenant a) u s) = (fst (list_integrations env a s), view (tenant a) u s)"
  "list_audit_logs a (view (tenant a) u s) = (fst (list_audit_logs a s), view (tenant a) u s)"
  "get_billing a (view (tenant a) u s) = (fst (get_billing a s), view (tenant a) u s)"
  by (simp_all only: list_notifications_def view_visible query_run) (simp_all add: list_integrations_def list_audit_logs_def get_billing_def filter_map_same sort_by_map comp_def)

lemma requireWorkspace_view: "requireWorkspace a None (view (tenant a) u s) = (fst (requireWorkspace a None s), view (tenant a) u s)"
  by (cases "au_tenant a") (auto simp: requireWorkspace_def bnd_run' tenant_def split: option.split)

text \<open>C6: Safety. Answers disclose nothing beyond the member's view: what a signed-in user gets from any GET request is
  computed from the rows of the session's workspace, members' accounts without password hashes,
  integrations without credentials and the notifications addressed to the user or to everybody; and
  the request changes nothing.\<close>

theorem answers_come_from_the_view:
  assumes "hr_method rq = ''GET''" "refs_ok s"
  shows "fst (handleSaaSRoute env enc rq (Some a) s) = fst (handleSaaSRoute env enc rq (Some a) (view (tenant a) (au_user a) s))
    \<and> snd (handleSaaSRoute env enc rq (Some a) s) = s"
proof -
  let ?v = "view (tenant a) (au_user a) s"
  have path: "webhook_path rq = None" using assms(1) by (simp add: webhook_path_def)
  note reads = reads_workspace reads_members reads_dashboard reads_workflows reads_workflow reads_executions [OF assms(2)] reads_execution reads_lists
  have pure: "snd (get_workspace a m s) = s" "snd (get_members a s) = s" "snd (dashboard_summary a s) = s" "snd (list_workflows a s) = s" "snd (get_workflow a i s) = s"
    "snd (list_executions rq a s) = s" "snd (get_execution_route a i s) = s" "snd (list_notifications a s) = s" "snd (list_integrations env a s) = s"
    "snd (list_audit_logs a s) = s" "snd (get_billing a s) = s" for m i
    unfolding get_workspace_def get_members_def dashboard_summary_def list_workflows_def get_workflow_def list_executions_def get_execution_route_def
      list_notifications_def list_integrations_def list_audit_logs_def get_billing_def lift_def by (simp_all add: bnd_run' split: option.split sum.split)
  have route: "route ?v = (fst (route s), ?v) \<and> snd (route s) = s" if "member_route env enc rq a m = Some route" for m route
    using that [symmetric, unfolded member_route_def Let_def] assms(1) reads pure
    by (simp split: if_split_asm)
  have rest: "fst ((case member_route env enc rq a m of None \<Rightarrow> ret None | Some route \<Rightarrow> bnd route (\<lambda>r. ret (Some r))) s)
      = fst ((case member_route env enc rq a m of None \<Rightarrow> ret None | Some route \<Rightarrow> bnd route (\<lambda>r. ret (Some r))) ?v)
    \<and> snd ((case member_route env enc rq a m of None \<Rightarrow> ret None | Some route \<Rightarrow> bnd route (\<lambda>r. ret (Some r))) s) = s" for m
    using route [of m] by (cases "member_route env enc rq a m") (auto simp: bnd_run' split: prod.split sum.split)
  obtain r where r: "requireWorkspace a None s = (r, s)" using requireWorkspace_state [of a None s] by (metis prod.collapse)
  then have v: "requireWorkspace a None ?v = (r, ?v)" using requireWorkspace_view [of a "au_user a" s] by simp
  show ?thesis
    using rest path by (cases r) (simp_all add: handleSaaSRoute_def webhook_path_def [symmetric] storeOr_def bnd_run' r v)
qed

theorem answers_come_from_the_view_witness:
  "fst (handleSaaSRoute demo_app (\<lambda>v. Inr []) demo_get (Some demo_auth) demo_saas)
     = fst (handleSaaSRoute demo_app (\<lambda>v. Inr []) demo_get (Some demo_auth) (view ''w1'' ''u0'' demo_saas))
   \<and> workflows (view ''w1'' ''u0'' demo_saas) = [demo_workflow] \<and> snd (handleSaaSRoute demo_app (\<lambda>v. Inr []) demo_get (Some demo_auth) demo_saas) = demo_saas"
proof -
  have "refs_ok demo_saas" by (simp add: refs_ok_def demo_saas_def demo_workflow_def demo_execution_def new_execution_def)
  moreover have "hr_method demo_get = ''GET''" by (simp add: demo_get_def)
  moreover have "tenant demo_auth = ''w1''" "au_user demo_auth = ''u0''" by (simp_all add: demo_auth_def tenant_def)
  moreover have "workflows (view ''w1'' ''u0'' demo_saas) = [demo_workflow]" by (simp add: demo_saas_def demo_workflow_def)
  ultimately show ?thesis using answers_come_from_the_view [of demo_get demo_saas demo_app "\<lambda>v. Inr []" demo_auth] by simp
qed

end
