(* ===== verification/Connectors.thy ===== *)
theory Connectors
  imports SaasRoutes
begin

text \<open>
  The connectors of \<^verbatim>\<open>modules/integrations\<close>: the catalogue and its connection tests
  (\<^verbatim>\<open>connector_registry.js\<close>), the actions on connected accounts (\<^verbatim>\<open>connector_actions.js\<close>), WhatsApp
  messages (\<^verbatim>\<open>whatsapp_cloud.js\<close>) and outbound webhooks (\<^verbatim>\<open>outbound_webhook.js\<close>). Calls to other hosts
  are recorded in the state, their answers are parameters; \<open>dec\<close> decrypts stored credentials.
\<close>

section \<open>Encodings of requests\<close>

text \<open>\<^verbatim>\<open>Buffer.from(text).toString('base64')\<close>\<close>

definition base64 :: "string \<Rightarrow> string" where
  "base64 text =
     (let digits = map (\<lambda>c. if c = CHR ''-'' then CHR ''+'' else if c = CHR ''_'' then CHR ''/'' else c) (base64url (utf8 text)) in
      digits @ replicate ((4 - length digits mod 4) mod 4) (CHR ''=''))"

text \<open>\<^verbatim>\<open>URLSearchParams\<close> as a form body\<close>

definition form_unreserved :: "char \<Rightarrow> bool" where
  "form_unreserved c \<longleftrightarrow> (let n = byte c in 48 \<le> n \<and> n \<le> 57 \<or> 65 \<le> n \<and> n \<le> 90 \<or> 97 \<le> n \<and> n \<le> 122) \<or> c \<in> {CHR ''*'', CHR ''-'', CHR ''.'', CHR ''_''}"

definition form_text :: "string \<Rightarrow> string" where
  "form_text s = concat (map (\<lambda>c. if form_unreserved c then [c] else if c = CHR '' '' then ''+''
     else [CHR ''%'', upper_hex (byte c div 16), upper_hex (byte c mod 16)]) (utf8 s))"

definition form_body :: "(string \<times> string) list \<Rightarrow> string" where
  "form_body ps = join ''&'' (map (\<lambda>(k, v). form_text k @ ''='' @ form_text v) ps)"

definition upper :: "char \<Rightarrow> char" where
  "upper c = (if 97 \<le> byte c \<and> byte c \<le> 122 then of_byte (byte c - 32) else c)"

definition toUpperCase :: "string \<Rightarrow> string" where
  "toUpperCase s = map upper s"

section \<open>Calls\<close>

text \<open>\<^verbatim>\<open>await r.json().catch(()=>({}))\<close>\<close>

definition json_of :: "app_env \<Rightarrow> net_reply \<Rightarrow> jsval" where
  "json_of env r = (case parse_json env (nr_text r) of Some v \<Rightarrow> v | None \<Rightarrow> Obj [])"

text \<open>\<^verbatim>\<open>throw new Error(v||dflt)\<close>\<close>

definition provider_failure :: "jsval \<Rightarrow> string \<Rightarrow> js_error" where
  "provider_failure v dflt = Error (to_str (js_or v (Str dflt)))"

definition bearer :: "jsval \<Rightarrow> string \<times> jsval" where
  "bearer token = (''authorization'', Str (''Bearer '' @ to_str token))"

definition json_content :: "string \<times> jsval" where
  "json_content = (''content-type'', Str ''application/json'')"

definition post_json :: "string \<Rightarrow> (string \<times> jsval) list \<Rightarrow> jsval \<Rightarrow> net_call" where
  "post_json url hs v = \<lparr>nc_url = url, nc_method = ''POST'', nc_headers = hs @ [json_content], nc_body = json_text v, nc_timeout = Undefined\<rparr>"

definition get_call :: "string \<Rightarrow> (string \<times> jsval) list \<Rightarrow> net_call" where
  "get_call url hs = \<lparr>nc_url = url, nc_method = ''GET'', nc_headers = hs, nc_body = [], nc_timeout = Undefined\<rparr>"

section \<open>Credentials\<close>

fun decrypt_fields :: "(jsval \<Rightarrow> js_error + string) \<Rightarrow> jsval js_map \<Rightarrow> js_error + jsval js_map" where
  "decrypt_fields dec [] = Inr []"
| "decrypt_fields dec ((k, v) # kvs) =
     (case dec v of Inl e \<Rightarrow> Inl e | Inr t \<Rightarrow> map_sum id ((#) (k, Str t)) (decrypt_fields dec kvs))"

definition find_integration :: "string \<Rightarrow> string \<Rightarrow> saas_db \<Rightarrow> integration_row option" where
  "find_integration w p s = row0 (filter (\<lambda>i. itg_workspace i = w \<and> itg_provider i = p) (integrations s))"

definition connected_integration :: "string \<Rightarrow> string \<Rightarrow> saas_db \<Rightarrow> integration_row option" where
  "connected_integration w p s = row0 (filter (\<lambda>i. itg_workspace i = w \<and> itg_provider i = p \<and> itg_status i = ''connected'') (integrations s))"

definition stored_credentials :: "(jsval \<Rightarrow> js_error + string) \<Rightarrow> integration_row \<Rightarrow> js_error + jsval" where
  "stored_credentials dec i = map_sum id Obj (decrypt_fields dec (own_fields (js_or (itg_credentials i) (Obj []))))"

definition credentials :: "(jsval \<Rightarrow> js_error + string) \<Rightarrow> string \<Rightarrow> string \<Rightarrow> (saas_db, jsval) act" where
  "credentials dec w p =
     bnd (query (connected_integration w p)) (\<lambda>r. case r of
       None \<Rightarrow> throw (Error (toUpperCase p @ ''_NOT_CONNECTED''))
     | Some i \<Rightarrow> lift (stored_credentials dec i))"

section \<open>Actions on connected accounts\<close>

definition sendResendEmail :: "app_env \<Rightarrow> (jsval \<Rightarrow> js_error + string) \<Rightarrow> string \<Rightarrow> jsval \<Rightarrow> jsval \<Rightarrow> jsval \<Rightarrow> jsval \<Rightarrow> (saas_db, jsval) act" where
  "sendResendEmail env dec w recipient subject body html =
     bnd (credentials dec w ''resend'') (\<lambda>c.
     bnd (fetch env (post_json ''https://api.resend.com/emails'' [bearer (field c ''apiKey'')]
       (Obj [(''from'', field c ''fromEmail''), (''to'', Arr [recipient]), (''subject'', subject), (''text'', body), (''html'', html)]))) (\<lambda>r.
     let data = json_of env r in
     if \<not> nr_ok r then throw (provider_failure (field data ''message'') ''RESEND_SEND_FAILED'')
     else if nullish data then throw null_read_error
     else ret (Obj [(''status'', Str ''sent''), (''emailId'', js_or (field data ''id'') Null)])))"

definition verifyPaystack :: "app_env \<Rightarrow> (jsval \<Rightarrow> js_error + string) \<Rightarrow> string \<Rightarrow> jsval \<Rightarrow> (saas_db, jsval) act" where
  "verifyPaystack env dec w reference =
     (if \<not> truthy reference then throw (Error ''PAYSTACK_REFERENCE_REQUIRED'')
      else
        bnd (credentials dec w ''paystack'') (\<lambda>c.
        bnd (fetch env (get_call (''https://api.paystack.co/transaction/verify/'' @ encodeURIComponent (to_str reference)) [bearer (field c ''secretKey'')])) (\<lambda>r.
        let data = json_of env r in
        if nr_ok r \<and> nullish data then throw null_read_error
        else if \<not> nr_ok r \<or> field data ''status'' = Boolean False then throw (provider_failure (field data ''message'') ''PAYSTACK_VERIFY_FAILED'')
        else ret (Obj [(''status'', Str ''verified''), (''transaction'', js_or (field data ''data'') Null)]))))"

definition createStripeCustomer :: "app_env \<Rightarrow> (jsval \<Rightarrow> js_error + string) \<Rightarrow> string \<Rightarrow> jsval \<Rightarrow> jsval \<Rightarrow> jsval \<Rightarrow> (saas_db, jsval) act" where
  "createStripeCustomer env dec w email name phone =
     (if \<not> truthy email then throw (Error ''STRIPE_EMAIL_REQUIRED'')
      else
        bnd (credentials dec w ''stripe'') (\<lambda>c.
        let params = [(''email'', to_str email)] @ (if truthy name then [(''name'', to_str name)] else [])
               @ (if truthy phone then [(''phone'', to_str phone)] else []) in
        bnd (fetch env \<lparr>nc_url = ''https://api.stripe.com/v1/customers'', nc_method = ''POST'',
            nc_headers = [(''authorization'', Str (''Basic '' @ base64 (to_str (field c ''secretKey'') @ '':''))),
              (''content-type'', Str ''application/x-www-form-urlencoded'')],
            nc_body = form_body params, nc_timeout = Undefined\<rparr>) (\<lambda>r.
        let data = json_of env r in
        if \<not> nr_ok r then throw (provider_failure (field (field data ''error'') ''message'') ''STRIPE_CUSTOMER_CREATE_FAILED'')
        else if nullish data then throw null_read_error
        else ret (Obj [(''status'', Str ''created''), (''customerId'', field data ''id'')]))))"

definition createGoogleCalendarEvent ::
  "app_env \<Rightarrow> (jsval \<Rightarrow> js_error + string) \<Rightarrow> string \<Rightarrow> jsval \<Rightarrow> jsval \<Rightarrow> jsval \<Rightarrow> jsval \<Rightarrow> jsval \<Rightarrow> jsval \<Rightarrow> (saas_db, jsval) act" where
  "createGoogleCalendarEvent env dec w summary description begins ends timeZone calendarId =
     bnd (credentials dec w ''google_workspace'') (\<lambda>c.
     if \<not> truthy summary \<or> \<not> truthy begins \<or> \<not> truthy ends then throw (Error ''GOOGLE_CALENDAR_EVENT_FIELDS_REQUIRED'')
     else
       bnd (fetch env (post_json (''https://www.googleapis.com/calendar/v3/calendars/'' @ encodeURIComponent (to_str calendarId) @ ''/events'')
         [bearer (field c ''accessToken'')]
         (Obj [(''summary'', summary), (''description'', description), (''start'', Obj [(''dateTime'', begins), (''timeZone'', timeZone)]),
               (''end'', Obj [(''dateTime'', ends), (''timeZone'', timeZone)])]))) (\<lambda>r.
       let data = json_of env r in
       if \<not> nr_ok r then throw (provider_failure (field (field data ''error'') ''message'') ''GOOGLE_CALENDAR_EVENT_FAILED'')
       else if nullish data then throw null_read_error
       else ret (Obj [(''status'', Str ''created''), (''eventId'', js_or (field data ''id'') Null), (''htmlLink'', js_or (field data ''htmlLink'') Null)])))"

section \<open>WhatsApp\<close>

definition graphVersion :: "app_env \<Rightarrow> jsval \<Rightarrow> jsval" where
  "graphVersion env conf = js_or (field conf ''graphVersion'') (js_or (Str (config env ''WHATSAPP_GRAPH_VERSION'')) (Str ''v23.0''))"

definition sendWhatsAppMessage :: "app_env \<Rightarrow> jsval \<Rightarrow> jsval \<Rightarrow> jsval \<Rightarrow> (saas_db, jsval) act" where
  "sendWhatsAppMessage env conf recipient body =
     (if \<not> truthy (field conf ''accessToken'') \<or> \<not> truthy (field conf ''phoneNumberId'') then throw (Error ''WHATSAPP_NOT_CONNECTED'')
      else if \<not> truthy recipient \<or> \<not> truthy body then throw (TypeError ''WHATSAPP_RECIPIENT_AND_TEXT_REQUIRED'')
      else
        bnd (fetch env (post_json (''https://graph.facebook.com/'' @ to_str (graphVersion env conf) @ ''/'' @ encodeURIComponent (to_str (field conf ''phoneNumberId''))
            @ ''/messages'') [bearer (field conf ''accessToken'')]
          (Obj [(''messaging_product'', Str ''whatsapp''), (''recipient_type'', Str ''individual''), (''to'', Str (to_str recipient)), (''type'', Str ''text''),
                (''text'', Obj [(''preview_url'', Boolean False), (''body'', Str (to_str body))])]))) (\<lambda>r.
        if \<not> nr_ok r then throw (Error (''WHATSAPP_API_'' @ int_str (nr_status r) @ '':'' @ take 1000 (nr_text r)))
        else case parse_json env (nr_text r) of
          Some v \<Rightarrow> ret v
        | None \<Rightarrow> throw (Exn ''SyntaxError'' ''Unexpected token in JSON'' [])))"

section \<open>Outbound webhooks\<close>

definition validateUrl :: "app_env \<Rightarrow> jsval \<Rightarrow> js_error + string" where
  "validateUrl env rawUrl =
     (case url_of env (to_str (js_or rawUrl (Str []))) of
        None \<Rightarrow> Inl (TypeError ''Invalid URL'')
      | Some (protocol, href) \<Rightarrow> if protocol \<noteq> ''https:'' then Inl (Error ''OUTBOUND_WEBHOOK_REQUIRES_HTTPS'') else Inr href)"

text \<open>\<^verbatim>\<open>Math.min(Math.max(Number(timeoutMs) || 10000, 1000), 30000)\<close>\<close>

definition webhook_timeout :: "jsval \<Rightarrow> int" where
  "webhook_timeout timeoutMs = (case to_num timeoutMs of
       Num n \<Rightarrow> min (max (if n = 0 then 10000 else n) 1000) 30000
     | Inf b \<Rightarrow> if b then 30000 else 1000
     | _ \<Rightarrow> 10000)"

definition sendOutboundWebhook :: "app_env \<Rightarrow> jsval \<Rightarrow> jsval \<Rightarrow> jsval \<Rightarrow> jsval \<Rightarrow> (saas_db, jsval) act" where
  "sendOutboundWebhook env rawUrl payload headers timeoutMs =
     bnd (lift (validateUrl env rawUrl)) (\<lambda>url.
     bnd (randomUUID env []) (\<lambda>requestId.
     try_catch
       (bnd (fetch env \<lparr>nc_url = url, nc_method = ''POST'',
              nc_headers = put_fields [(''content-type'', Str ''application/json''), (''x-bos-request-id'', Str requestId)] (own_fields headers),
              nc_body = json_text payload, nc_timeout = Num (webhook_timeout timeoutMs)\<rparr>) (\<lambda>r.
        ret (Obj [(''requestId'', Str requestId), (''url'', Str url), (''status'', Num (nr_status r)), (''ok'', Boolean (nr_ok r)),
          (''response'', Str (take 4000 (nr_text r)))])))
       (\<lambda>error. if error_field error ''name'' = Str ''AbortError'' then throw (Error ''OUTBOUND_WEBHOOK_TIMEOUT'')
          else throw (Error (''OUTBOUND_WEBHOOK_FAILED:'' @ to_str (error_field error ''message''))))))"

end
