(* ===== verification/JobWorker.thy ===== *)
theory JobWorker
  imports Connectors
begin

text \<open>
  The background worker (\<^verbatim>\<open>modules/automation/production_worker.js\<close>): it claims queued jobs, executes the
  steps of workflows and turns webhook events into executions. Template paths and lookups find own
  members; members that JavaScript objects inherit count as undefined.
\<close>

section \<open>Templates and lookups\<close>

text \<open>\<^verbatim>\<open>v[k]\<close> for an own member of \<open>v\<close>\<close>

definition own_member :: "jsval \<Rightarrow> string \<Rightarrow> jsval option" where
  "own_member v k = (case map_of (own_fields v) k of
       Some x \<Rightarrow> Some x
     | None \<Rightarrow> if k = ''length'' \<and> field v k \<noteq> Undefined then Some (field v k) else None)"

definition member_or_undefined :: "jsval \<Rightarrow> string \<Rightarrow> jsval" where
  "member_or_undefined v k = (if nullish v then Undefined else case own_member v k of Some x \<Rightarrow> x | None \<Rightarrow> Undefined)"

definition read_path :: "jsval \<Rightarrow> string \<Rightarrow> jsval" where
  "read_path context p = fold (\<lambda>k v. member_or_undefined v k) (split_on (CHR ''.'') (trim p)) context"

text \<open>A match of \<^verbatim>\<open>{{([^}]+)}}\<close> at the start of a text: the group and what follows.\<close>

definition template_at :: "string \<Rightarrow> (string \<times> string) option" where
  "template_at s =
     (if prefix ''{{'' s then
        let p = takeWhile (\<lambda>c. c \<noteq> CHR ''}'') (drop 2 s); rest = dropWhile (\<lambda>c. c \<noteq> CHR ''}'') (drop 2 s) in
        if p \<noteq> [] \<and> prefix ''}}'' rest then Some (p, drop 2 rest) else None
      else None)"

lemma template_at_shorter: "template_at (c # cs) = Some (p, rest) \<Longrightarrow> length rest < Suc (length cs)"
proof -
  assume "template_at (c # cs) = Some (p, rest)"
  then have "rest = drop 2 (dropWhile (\<lambda>c. c \<noteq> CHR ''}'') (drop 2 (c # cs)))"
    by (auto simp: template_at_def Let_def split: if_splits)
  moreover have "length (dropWhile P xs) \<le> length xs" for P and xs :: string by (rule length_dropWhile_le)
  moreover have "length (drop 2 (c # cs)) \<le> length cs" by simp
  ultimately show ?thesis by (metis diff_le_self dual_order.trans length_drop less_Suc_eq_le)
qed

function replace_templates :: "(string \<Rightarrow> string) \<Rightarrow> string \<Rightarrow> string" where
  "replace_templates f [] = []"
| "replace_templates f (c # cs) = (case template_at (c # cs) of
       Some (p, rest) \<Rightarrow> f p @ replace_templates f rest
     | None \<Rightarrow> c # replace_templates f cs)"
  by pat_completeness auto
termination
  by (relation "measure (\<lambda>(f, s). length s)") (auto dest: template_at_shorter)

definition resolve_value :: "jsval \<Rightarrow> jsval \<Rightarrow> jsval" where
  "resolve_value v context = (case v of
       Str t \<Rightarrow> Str (replace_templates (\<lambda>p. to_str (js_coalesce (read_path context p) (Str []))) t)
     | _ \<Rightarrow> v)"

fun lookup_path :: "jsval \<Rightarrow> string list \<Rightarrow> jsval" where
  "lookup_path v [] = v"
| "lookup_path v (k # ks) =
     (if nullish v then Undefined else case own_member v k of None \<Rightarrow> Undefined | Some x \<Rightarrow> lookup_path x ks)"

definition lookup_value :: "jsval \<Rightarrow> jsval \<Rightarrow> jsval" where
  "lookup_value v context = (case v of
       Str t \<Rightarrow> (case own_member context t of Some x \<Rightarrow> x | None \<Rightarrow> lookup_path context (split_on (CHR ''.'') t))
     | _ \<Rightarrow> v)"

section \<open>Conditions\<close>

definition conditionValue :: "jsval \<Rightarrow> jsval \<Rightarrow> bool \<Rightarrow> jsval" where
  "conditionValue v context reference = (case v of
       Str t \<Rightarrow>
         if sublist ''{{'' t then resolve_value v context
         else if reference then (let found = lookup_value v context in if found = Undefined then v else found)
         else v
     | _ \<Rightarrow> v)"

definition conditionPass :: "jsval \<Rightarrow> jsval \<Rightarrow> js_error + bool" where
  "conditionPass c context =
     (let operator = js_or (field c ''operator'') (Str ''equals'');
          given = field c ''left'';
          left = (if operator = Str ''exists'' \<and> given = Undefined then lookup_value (field c ''field'') context
                  else conditionValue (if given \<noteq> Undefined then given else field c ''field'') context (given = Undefined));
          right = conditionValue (if field c ''right'' \<noteq> Undefined then field c ''right'' else field c ''value'') context False
      in if operator \<in> {Str ''equals'', Str ''==''} then Inr (to_str left = to_str right)
         else if operator \<in> {Str ''not_equals'', Str ''!=''} then Inr (to_str left \<noteq> to_str right)
         else if operator = Str ''contains'' then Inr (sublist (to_str right) (to_str left))
         else if operator = Str ''gt'' then Inr (num_gt (to_num left) (to_num right))
         else if operator = Str ''gte'' then Inr (num_le (to_num right) (to_num left))
         else if operator = Str ''lt'' then Inr (num_gt (to_num right) (to_num left))
         else if operator = Str ''lte'' then Inr (num_le (to_num left) (to_num right))
         else if operator = Str ''exists'' then Inr (left \<noteq> Undefined \<and> left \<noteq> Null \<and> left \<noteq> Str [])
         else Inl (Error (''UNSUPPORTED_OPERATOR:'' @ to_str (field c ''operator''))))"

section \<open>Statements\<close>

text \<open>A value passed for a text column: none for null and undefined, else the driver's text.\<close>

definition text_param :: "jsval \<Rightarrow> string option" where
  "text_param v = (if nullish v then None else if is_ref v then stringify v else Some (to_str v))"

definition insert_notification :: "notification_row \<Rightarrow> (saas_db, unit) act" where
  "insert_notification r = guarded
     (\<lambda>s. first_error
       [(\<exists>x \<in> set (notifications s). ntf_id x = ntf_id r, unique_violation ''bos_notifications_pkey''),
        (no_workspace (ntf_workspace r) s, foreign_key_violation ''bos_notifications_workspace_id_fkey'')])
     (\<lambda>s. s\<lparr>notifications := notifications s @ [r]\<rparr>)"

definition notify :: "app_env \<Rightarrow> string \<Rightarrow> string \<Rightarrow> string \<Rightarrow> string \<Rightarrow> jsval \<Rightarrow> (saas_db, string) act" where
  "notify env w type title body data =
     bnd (randomUUID env ''notification_'') (\<lambda>i.
     bnd (query now) (\<lambda>time.
     bnd (insert_notification \<lparr>ntf_id = i, ntf_workspace = w, ntf_user = None, ntf_type = type, ntf_title = title, ntf_body = body,
            ntf_data = to_json data, ntf_read = None, ntf_created = time\<rparr>) (\<lambda>_. ret i)))"

definition set_execution :: "string \<Rightarrow> (saas_db \<Rightarrow> execution_row \<Rightarrow> execution_row) \<Rightarrow> (saas_db, unit) act" where
  "set_execution i f = exec (\<lambda>s. s\<lparr>executions := update_where (\<lambda>x. exe_id x = i) (f s) (executions s)\<rparr>)"

definition update_job :: "string \<Rightarrow> (saas_db \<Rightarrow> job_row \<Rightarrow> job_row) \<Rightarrow> (saas_db, unit) act" where
  "update_job i f = exec (\<lambda>s. s\<lparr>jobs := update_where (\<lambda>j. job_id j = i) (f s) (jobs s)\<rparr>)"

definition step_at :: "string \<Rightarrow> string \<Rightarrow> step_row \<Rightarrow> bool" where
  "step_at i key p \<longleftrightarrow> stp_execution p = i \<and> stp_key p = key"

definition update_step :: "string \<Rightarrow> string \<Rightarrow> (saas_db \<Rightarrow> step_row \<Rightarrow> step_row) \<Rightarrow> (saas_db, unit) act" where
  "update_step i key f = exec (\<lambda>s. s\<lparr>steps := update_where (step_at i key) (f s) (steps s)\<rparr>)"

text \<open>\<^verbatim>\<open>INSERT INTO bos_execution_steps ... ON CONFLICT(execution_id,step_key) DO UPDATE SET status='running', started_at=NOW(), attempts+1\<close>\<close>

definition upsert_step :: "step_row \<Rightarrow> (saas_db, unit) act" where
  "upsert_step r = guarded
     (\<lambda>s. if \<exists>p \<in> set (steps s). step_at (stp_execution r) (stp_key r) p then None else first_error
       [(\<exists>p \<in> set (steps s). stp_id p = stp_id r, unique_violation ''bos_execution_steps_pkey''),
        (\<forall>x \<in> set (executions s). exe_id x \<noteq> stp_execution r, foreign_key_violation ''bos_execution_steps_execution_id_fkey'')])
     (\<lambda>s. if \<exists>p \<in> set (steps s). step_at (stp_execution r) (stp_key r) p
       then s\<lparr>steps := update_where (step_at (stp_execution r) (stp_key r))
              (\<lambda>p. p\<lparr>stp_status := ''running'', stp_started := Some (now s), stp_attempts := stp_attempts p + 1\<rparr>) (steps s)\<rparr>
       else s\<lparr>steps := steps s @ [r]\<rparr>)"

text \<open>\<^verbatim>\<open>INSERT INTO bos_records ... ON CONFLICT DO NOTHING\<close>\<close>

definition insert_record :: "string \<Rightarrow> string \<Rightarrow> string \<Rightarrow> jsval \<Rightarrow> (saas_db, unit) act" where
  "insert_record w type i v = exec (\<lambda>s.
     if \<exists>r \<in> set (bos_records (records s)). row_key r = (w, type, i) then s
     else s\<lparr>records := (records s)\<lparr>bos_records := bos_records (records s) @
       [\<lparr>row_tenant = w, row_type = type, row_id = i, row_value = to_json v, row_created = now s, row_updated = now s\<rparr>]\<rparr>\<rparr>)"

section \<open>Actions\<close>

definition whatsapp_action :: "app_env \<Rightarrow> (jsval \<Rightarrow> js_error + string) \<Rightarrow> string \<Rightarrow> jsval \<Rightarrow> (saas_db, jsval) act" where
  "whatsapp_action env dec w input =
     bnd (query (connected_integration w ''whatsapp_cloud'')) (\<lambda>r. case r of
       None \<Rightarrow> throw (Error ''WHATSAPP_NOT_CONNECTED'')
     | Some i \<Rightarrow>
         bnd (lift (stored_credentials dec i)) (\<lambda>c.
         bnd (sendWhatsAppMessage env (spread c (own_fields (js_or (itg_config i) (Obj [])))) (field input ''to'') (field input ''text'')) (\<lambda>v.
         if nullish v then throw null_read_error
         else ret (Obj [(''messageId'', js_or (field (member_or_undefined (field v ''messages'') ''0'') ''id'') Null), (''status'', Str ''sent'')]))))"

definition action_name :: "jsval \<Rightarrow> jsval" where
  "action_name step = js_or (field step ''action'') (field step ''type'')"

definition executeAction :: "app_env \<Rightarrow> (jsval \<Rightarrow> js_error + string) \<Rightarrow> string \<Rightarrow> jsval \<Rightarrow> jsval \<Rightarrow> jsval \<Rightarrow> (saas_db, jsval) act" where
  "executeAction env dec w executionId step context =
     (let input = Obj (map (\<lambda>(k, v). (k, resolve_value v context)) (own_fields (js_or (field step ''input'') (Obj []))));
          name = action_name step; arg = field input
      in if name = Str ''create_task'' then
           bnd (randomUUID env ''task_'') (\<lambda>taskId.
           bnd (insert_record w ''task'' taskId (Obj [(''id'', Str taskId), (''status'', Str ''pending''), (''source'', Str ''workflow''),
                  (''executionId'', executionId), (''input'', input)])) (\<lambda>_.
           ret (Obj [(''taskId'', Str taskId), (''status'', Str ''created'')])))
         else if name \<in> {Str ''notify_sales'', Str ''notification''} then
           bnd (notify env w ''workflow'' ''Workflow notification'' (to_str (js_or (arg ''message'') (Str ''Workflow action completed'')))
                  (Obj [(''executionId'', executionId), (''input'', input)])) (\<lambda>n.
           ret (Obj [(''notificationId'', Str n), (''status'', Str ''created'')]))
         else if name = Str ''outbound_webhook'' then
           if \<not> truthy (arg ''url'') then throw (Error ''WEBHOOK_URL_REQUIRED'')
           else
             bnd (sendOutboundWebhook env (arg ''url'')
                 (Obj [(''workspaceId'', Str w), (''executionId'', executionId), (''context'', context), (''input'', js_or (arg ''payload'') (Obj []))])
                 (js_or (arg ''headers'') (Obj [])) (arg ''timeoutMs'')) (\<lambda>r.
             if \<not> truthy (field r ''ok'') then throw (Error (''OUTBOUND_WEBHOOK_FAILED:'' @ to_str (js_or (field r ''status'') (Num 0))))
             else ret r)
         else if name = Str ''whatsapp_send'' then whatsapp_action env dec w input
         else if name = Str ''send_email'' then
           sendResendEmail env dec w (arg ''to'') (js_or (arg ''subject'') (Str ''Message from your business'')) (js_or (arg ''text'') (Str [])) (arg ''html'')
         else if name = Str ''paystack_verify_transaction'' then verifyPaystack env dec w (arg ''reference'')
         else if name = Str ''stripe_create_customer'' then createStripeCustomer env dec w (arg ''email'') (arg ''name'') (arg ''phone'')
         else if name = Str ''google_calendar_create_event'' then
           createGoogleCalendarEvent env dec w (arg ''summary'') (arg ''description'') (arg ''start'') (arg ''end'')
             (js_or (arg ''timeZone'') (Str ''Africa/Lagos'')) (js_or (arg ''calendarId'') (Str ''primary''))
         else throw (Error (''UNSUPPORTED_ACTION:'' @ to_str (js_or name (Str ''unknown'')))))"

section \<open>Steps\<close>

definition step_key :: "nat \<Rightarrow> jsval \<Rightarrow> string" where
  "step_key i step = to_str (js_or (field step ''id'') (js_or (field step ''key'') (Str (''step_'' @ nat_str (i + 1)))))"

definition is_condition :: "jsval \<Rightarrow> bool" where
  "is_condition step \<longleftrightarrow> field step ''type'' = Str ''condition'' \<or> field step ''action'' = Str ''condition''"

text \<open>The body of the inner try: the new context, and whether to break.\<close>

definition perform_step :: "app_env \<Rightarrow> (jsval \<Rightarrow> js_error + string) \<Rightarrow> string \<Rightarrow> string \<Rightarrow> string \<Rightarrow> jsval \<Rightarrow> jsval \<Rightarrow> (saas_db, jsval \<times> bool) act" where
  "perform_step env dec w i key step context =
     (if is_condition step then
        bnd (lift (conditionPass (js_or (field step ''condition'') (js_or (field step ''input'') (Obj []))) context)) (\<lambda>passed.
        let output = Obj [(''passed'', Boolean passed)] in
        bnd (update_step i key (\<lambda>s p. p\<lparr>stp_status := (if passed then ''completed'' else ''skipped''), stp_output := output, stp_completed := Some (now s)\<rparr>)) (\<lambda>_.
        ret (spread context [(key, output)], \<not> passed \<and> field step ''onFalse'' = Str ''stop'')))
      else
        bnd (executeAction env dec w (Str i) step context) (\<lambda>output.
        bnd (lift (json_param env output)) (\<lambda>stored.
        bnd (update_step i key (\<lambda>s p. p\<lparr>stp_status := ''completed'', stp_output := stored, stp_completed := Some (now s)\<rparr>)) (\<lambda>_.
        ret (spread context [(key, output)], False)))))"

definition fail_step :: "string \<Rightarrow> string \<Rightarrow> js_error \<Rightarrow> (saas_db, 'a) act" where
  "fail_step i key error =
     bnd (lift (message_of error)) (\<lambda>m.
     bnd (update_step i key (\<lambda>s p. p\<lparr>stp_status := ''failed'', stp_error := to_json (Obj [(''message'', m)]), stp_completed := Some (now s)\<rparr>)) (\<lambda>_.
     throw error))"

definition run_workflow_step :: "app_env \<Rightarrow> (jsval \<Rightarrow> js_error + string) \<Rightarrow> string \<Rightarrow> string \<Rightarrow> nat \<Rightarrow> jsval \<Rightarrow> jsval \<Rightarrow> (saas_db, jsval \<times> bool) act" where
  "run_workflow_step env dec w i n step context =
     (if nullish step then throw null_read_error
      else
        let key = step_key n step in
        bnd (randomUUID env ''execution_step_'') (\<lambda>sid.
        bnd (lift (json_param env (js_or (field step ''input'') (Obj [])))) (\<lambda>input.
        bnd (query now) (\<lambda>time.
        bnd (upsert_step \<lparr>stp_id = sid, stp_execution = i, stp_key = key, stp_index = int n,
               stp_type = to_str (js_or (action_name step) (Str ''action'')), stp_status = ''running'', stp_input = input, stp_output = Obj [],
               stp_error = Null, stp_attempts = 0, stp_started = Some time, stp_completed = None\<rparr>) (\<lambda>_.
        try_catch (perform_step env dec w i key step context) (fail_step i key))))))"

fun run_steps :: "app_env \<Rightarrow> (jsval \<Rightarrow> js_error + string) \<Rightarrow> string \<Rightarrow> string \<Rightarrow> nat \<Rightarrow> jsval list \<Rightarrow> jsval \<Rightarrow> (saas_db, jsval) act" where
  "run_steps env dec w i n [] context = ret context"
| "run_steps env dec w i n (step # later) context =
     bnd (run_workflow_step env dec w i n step context) (\<lambda>(context', stop).
     if stop then ret context' else run_steps env dec w i (n + 1) later context')"

section \<open>Jobs\<close>

definition steps_of :: "jsval \<Rightarrow> jsval list" where
  "steps_of p = (case field (field p ''definition'') ''steps'' of Arr xs \<Rightarrow> xs | _ \<Rightarrow> [])"

definition finished :: "execution_row \<Rightarrow> bool" where
  "finished x \<longleftrightarrow> exe_status x \<in> {''completed'', ''cancelled''}"

definition complete_job :: "string \<Rightarrow> (saas_db, unit) act" where
  "complete_job i = update_job i (\<lambda>s j. j\<lparr>job_status := ''completed''\<rparr>)"

text \<open>\<^verbatim>\<open>if(job.type==='workflow.execute'){...}\<close>\<close>

definition execute_workflow :: "app_env \<Rightarrow> (jsval \<Rightarrow> js_error + string) \<Rightarrow> string \<Rightarrow> jsval \<Rightarrow> (saas_db, unit) act" where
  "execute_workflow env dec w p =
     bnd (query (\<lambda>s. row0 (filter (\<lambda>x. Some (exe_id x) = text_param (field p ''executionId'') \<and> exe_workspace x = w) (executions s)))) (\<lambda>ex. case ex of
       None \<Rightarrow> ret ()
     | Some x \<Rightarrow>
         if finished x then ret ()
         else
           bnd (set_execution (exe_id x) (\<lambda>s y. y\<lparr>exe_status := ''running'', exe_started := (case exe_started y of None \<Rightarrow> Some (now s) | t \<Rightarrow> t),
                  exe_attempts := exe_attempts y + 1\<rparr>)) (\<lambda>_.
           bnd (run_steps env dec w (exe_id x) 0 (steps_of p) (js_or (exe_input x) (Obj []))) (\<lambda>context.
           bnd (lift (json_param env context)) (\<lambda>output.
           bnd (set_execution (exe_id x) (\<lambda>s y. y\<lparr>exe_status := ''completed'', exe_output := output, exe_completed := Some (now s)\<rparr>)) (\<lambda>_.
           bnd (notify env w ''workflow.success'' ''Workflow completed'' ''A workflow execution completed successfully''
                  (Obj [(''executionId'', Str (exe_id x))])) (\<lambda>_. ret ()))))))"

definition triggered :: "jsval \<Rightarrow> bool" where
  "triggered definition' =
     (let type = field (js_or (field definition' ''trigger'') (Obj [])) ''type'' in
      type \<in> {Str ''webhook'', Str ''Webhook received''} \<or> \<not> truthy type)"

definition start_triggered :: "app_env \<Rightarrow> string \<Rightarrow> event_row \<Rightarrow> workflow_row \<times> jsval \<Rightarrow> (saas_db, unit) act" where
  "start_triggered env w e fd = (case fd of (f, d) \<Rightarrow>
     if \<not> triggered d then ret ()
     else
       bnd (randomUUID env ''execution_'') (\<lambda>i.
       bnd (lift (json_param env (evt_payload e))) (\<lambda>input.
       bnd (query now) (\<lambda>time.
       bnd (insert_execution (new_execution i w (wfl_id f) (wfl_version f) ''webhook'' None input time)) (\<lambda>_.
       insert_job env w ''workflow.execute'' (Obj [(''executionId'', Str i), (''definition'', d)]))))))"

definition published_workflows :: "string \<Rightarrow> saas_db \<Rightarrow> (workflow_row \<times> jsval) list" where
  "published_workflows w s = [(f, ver_definition v). f \<leftarrow> workflows s, v \<leftarrow> versions s,
     ver_workflow v = wfl_id f \<and> ver_number v = wfl_version f \<and> wfl_workspace f = w \<and> wfl_status f = ''published'']"

text \<open>\<^verbatim>\<open>else if(job.type==='event.process'){...}\<close>\<close>

definition process_event :: "app_env \<Rightarrow> string \<Rightarrow> jsval \<Rightarrow> (saas_db, unit) act" where
  "process_event env w p =
     bnd (query (\<lambda>s. row0 (filter (\<lambda>e. Some (evt_id e) = text_param (field p ''eventId'') \<and> evt_workspace e = w) (events s)))) (\<lambda>found. case found of
       None \<Rightarrow> ret ()
     | Some e \<Rightarrow>
         bnd (query (published_workflows w)) (\<lambda>fs.
         bnd (for_each (start_triggered env w e) fs) (\<lambda>_.
         exec (\<lambda>s. s\<lparr>events := update_where (\<lambda>x. evt_id x = evt_id e) (\<lambda>x. x\<lparr>evt_status := ''processed''\<rparr>) (events s)\<rparr>))))"

definition max_delay :: int where
  "max_delay = 300"

text \<open>\<^verbatim>\<open>String(error.message||error)\<close>\<close>

definition error_or_message :: "js_error \<Rightarrow> js_error + string" where
  "error_or_message error = map_sum id (\<lambda>m. if truthy m then to_str m
     else case error of Exn n m' ps \<Rightarrow> n | Thrown v \<Rightarrow> to_str v) (message_of error)"

definition tries_made :: "job_row option \<Rightarrow> int" where
  "tries_made c = (case c of Some j \<Rightarrow> if job_attempts j = 0 then 1 else job_attempts j | None \<Rightarrow> 1)"

definition attempts_allowed :: "job_row option \<Rightarrow> int" where
  "attempts_allowed c = (case c of Some j \<Rightarrow> if job_max j = 0 then 3 else job_max j | None \<Rightarrow> 3)"

definition gives_up :: "job_row option \<Rightarrow> bool" where
  "gives_up c \<longleftrightarrow> attempts_allowed c \<le> tries_made c"

text \<open>\<^verbatim>\<open>Math.min(300,2**attempts)\<close> seconds, in milliseconds\<close>

definition retry_delay :: "job_row option \<Rightarrow> int" where
  "retry_delay c = min max_delay (2 ^ nat (tries_made c)) * 1000"

definition give_back :: "job_row option \<Rightarrow> string \<Rightarrow> saas_db \<Rightarrow> job_row \<Rightarrow> job_row" where
  "give_back c m s j = j\<lparr>job_status := (if gives_up c then ''failed'' else ''queued''), job_error := Some m, job_run_at := now s + retry_delay c\<rparr>"

definition find_job :: "string \<Rightarrow> saas_db \<Rightarrow> job_row option" where
  "find_job i s = row0 (filter (\<lambda>j. job_id j = i) (jobs s))"

definition fail_execution :: "jsval \<Rightarrow> jsval \<Rightarrow> (saas_db, unit) act" where
  "fail_execution executionId m = exec (\<lambda>s. s\<lparr>executions := update_where (\<lambda>x. Some (exe_id x) = text_param executionId)
     (\<lambda>x. x\<lparr>exe_status := ''failed'', exe_error := to_json (Obj [(''message'', m)]), exe_completed := Some (now s)\<rparr>) (executions s)\<rparr>)"

text \<open>The catch block: the job is retried later, or given up and its execution failed.\<close>

definition job_failed :: "app_env \<Rightarrow> job_row \<Rightarrow> js_error \<Rightarrow> (saas_db, unit) act" where
  "job_failed env job error =
     bnd (query (find_job (job_id job))) (\<lambda>current.
     bnd (lift (error_or_message error)) (\<lambda>m.
     bnd (update_job (job_id job) (give_back current m)) (\<lambda>_.
     if gives_up current \<and> job_type job = ''workflow.execute'' \<and> truthy (field (job_payload job) ''executionId'') then
       bnd (lift (message_of error)) (\<lambda>v.
       bnd (fail_execution (field (job_payload job) ''executionId'') v) (\<lambda>_.
       bnd (notify env (job_workspace job) ''workflow.failure'' ''Workflow failed'' ''A workflow execution failed after retries''
              (Obj [(''executionId'', field (job_payload job) ''executionId''), (''error'', v)])) (\<lambda>_. ret ())))
     else ret ())))"

definition run_job :: "app_env \<Rightarrow> (jsval \<Rightarrow> js_error + string) \<Rightarrow> job_row \<Rightarrow> (saas_db, unit) act" where
  "run_job env dec job =
     (let p = js_or (job_payload job) (Obj []) in
      if job_type job = ''workflow.execute'' then execute_workflow env dec (job_workspace job) p
      else if job_type job = ''event.process'' then process_event env (job_workspace job) p
      else ret ())"

definition processJob :: "app_env \<Rightarrow> (jsval \<Rightarrow> js_error + string) \<Rightarrow> job_row \<Rightarrow> (saas_db, unit) act" where
  "processJob env dec job = try_catch (bnd (run_job env dec job) (\<lambda>_. complete_job (job_id job))) (job_failed env job)"

section \<open>The loop\<close>

definition due :: "saas_db \<Rightarrow> job_row \<Rightarrow> bool" where
  "due s j \<longleftrightarrow> job_status j = ''queued'' \<and> job_run_at j \<le> now s"

text \<open>\<^verbatim>\<open>ORDER BY run_at,id ... LIMIT 1\<close>\<close>

definition earlier :: "app_env \<Rightarrow> job_row \<Rightarrow> job_row \<Rightarrow> bool" where
  "earlier env i j \<longleftrightarrow> job_run_at i < job_run_at j \<or> job_run_at i = job_run_at j \<and> text_le env (job_id i) (job_id j)"

definition next_job :: "app_env \<Rightarrow> saas_db \<Rightarrow> job_row option" where
  "next_job env s = row0 (sort_by (earlier env) (filter (due s) (jobs s)))"

text \<open>One turn of the loop: a job is claimed in a transaction of its own, then processed; an error is logged.\<close>

definition worker_turn :: "app_env \<Rightarrow> (jsval \<Rightarrow> js_error + string) \<Rightarrow> (saas_db, unit) act" where
  "worker_turn env dec =
     try_catch
       (bnd (query (next_job env)) (\<lambda>r. case r of
          None \<Rightarrow> ret ()
        | Some j \<Rightarrow>
            bnd (update_job (job_id j) (\<lambda>s x. x\<lparr>job_status := ''running'', job_attempts := job_attempts x + 1\<rparr>)) (\<lambda>_.
            processJob env dec (j\<lparr>job_status := ''running'', job_attempts := job_attempts j + 1\<rparr>))))
       (\<lambda>e. ret ())"

end
