(* ===== verification/SaasMachine.thy ===== *)
theory SaasMachine
  imports JobWorker SaasReads
begin

text \<open>
  The workspace API and the worker as a state machine. \<open>db_step req w ji xi\<close> are the elementary changes of
  the database that requests for the workspace \<open>w\<close> and a turn of the worker on its job \<open>ji\<close> are made of;
  \<open>xi\<close> is the execution the turn runs, if any, and \<open>req\<close> allows what only requests do. Every request and every turn is a sequence of such steps,
  so that invariants of histories are proved by induction over the steps.
\<close>

section \<open>Steps\<close>

definition same_run :: "(execution_row \<Rightarrow> execution_row) \<Rightarrow> bool" where
  "same_run g \<longleftrightarrow> (\<forall>x. exe_id (g x) = exe_id x \<and> exe_workspace (g x) = exe_workspace x \<and> exe_workflow (g x) = exe_workflow x
     \<and> exe_version (g x) = exe_version x \<and> exe_key (g x) = exe_key x \<and> exe_trigger (g x) = exe_trigger x
     \<and> exe_input (g x) = exe_input x \<and> exe_created (g x) = exe_created x)"

definition same_place :: "(step_row \<Rightarrow> step_row) \<Rightarrow> bool" where
  "same_place g \<longleftrightarrow> (\<forall>p. stp_id (g p) = stp_id p \<and> stp_execution (g p) = stp_execution p \<and> stp_key (g p) = stp_key p)"

inductive db_step :: "bool \<Rightarrow> string \<Rightarrow> string option \<Rightarrow> string option \<Rightarrow> saas_db \<Rightarrow> saas_db \<Rightarrow> bool"
  for req :: bool and w :: string and ji xi :: "string option" where
  drawn: "db_step req w ji xi s (s\<lparr>draws := n\<rparr>)"
| add_event: "\<lbrakk>req; evt_workspace e = w; evt_id e \<notin> evt_id ` set (events s); \<forall>y \<in> set (events s). \<not> (evt_provider y = evt_provider e \<and> evt_external y = evt_external e)\<rbrakk>
    \<Longrightarrow> db_step req w ji xi s (s\<lparr>events := events s @ [e]\<rparr>)"
| add_job: "\<lbrakk>job_workspace j = w; job_id j \<notin> job_id ` set (jobs s); job_status j = ''queued''; job_attempts j = 0; job_max j = 3; job_run_at j = now s\<rbrakk>
    \<Longrightarrow> db_step req w ji xi s (s\<lparr>jobs := jobs s @ [j]\<rparr>)"
| add_execution: "\<lbrakk>exe_workspace x = w; exe_status x = ''queued''; find_workflow w (exe_workflow x) s = Some f; exe_id x \<notin> exe_id ` set (executions s);
      \<forall>y \<in> set (executions s). exe_workspace y = w \<longrightarrow> exe_key y = exe_key x \<longrightarrow> exe_key x = None\<rbrakk>
    \<Longrightarrow> db_step req w ji xi s (s\<lparr>executions := executions s @ [x]\<rparr>)"
| read_notifications: "db_step req w ji xi s (s\<lparr>notifications := update_where (notification_for w u i) (\<lambda>n. n\<lparr>ntf_read := Some (now s)\<rparr>) (notifications s)\<rparr>)"
| add_audit: "req \<Longrightarrow> aud_workspace d = w \<Longrightarrow> db_step req w ji xi s (s\<lparr>audits := audits s @ [d]\<rparr>)"
| add_invitation: "req \<Longrightarrow> ivt_workspace v = w \<Longrightarrow> db_step req w ji xi s (s\<lparr>invitations := invitations s @ [v]\<rparr>)"
| add_workflow: "\<lbrakk>req; wfl_workspace f = w; wfl_version f = 1; wfl_id f \<notin> wfl_id ` set (workflows s); ver_workflow vr = wfl_id f; ver_number vr = 1;
      ver_id vr \<notin> ver_id ` set (versions s); \<forall>y \<in> set (versions s). \<not> (ver_workflow y = wfl_id f \<and> ver_number y = 1)\<rbrakk>
    \<Longrightarrow> db_step req w ji xi s (s\<lparr>workflows := workflows s @ [f], versions := versions s @ [vr]\<rparr>)"
| update_workflows: "\<lbrakk>req; unchanged_key g; \<forall>r. wfl_version (g r) = wfl_version r\<rbrakk>
    \<Longrightarrow> db_step req w ji xi s (s\<lparr>workflows := update_where (workflow_at w i) g (workflows s)\<rparr>)"
| save_version: "\<lbrakk>req; find_workflow w i s = Some f; unchanged_key g; \<forall>r. wfl_version (g r) = wfl_version f + 1; ver_workflow vr = i;
      ver_number vr = wfl_version f + 1; ver_id vr \<notin> ver_id ` set (versions s); \<forall>y \<in> set (versions s). \<not> (ver_workflow y = i \<and> ver_number y = ver_number vr)\<rbrakk>
    \<Longrightarrow> db_step req w ji xi s (s\<lparr>versions := versions s @ [vr], workflows := update_where (workflow_at w i) g (workflows s)\<rparr>)"
| add_integration: "req \<Longrightarrow> itg_workspace it = w \<Longrightarrow> db_step req w ji xi s (s\<lparr>integrations := integrations s @ [it]\<rparr>)"
| update_integrations: "req \<Longrightarrow> \<forall>r. itg_workspace (h r) = itg_workspace r \<Longrightarrow> db_step req w ji xi s (s\<lparr>integrations := update_where (integration_at w p) h (integrations s)\<rparr>)"
| call: "db_step req w ji xi s (s\<lparr>net_calls := net_calls s @ [c]\<rparr>)"
| add_record: "row_tenant r = w \<Longrightarrow> row_key r \<notin> row_key ` set (bos_records (records s))
    \<Longrightarrow> db_step req w ji xi s (s\<lparr>records := (records s)\<lparr>bos_records := bos_records (records s) @ [r]\<rparr>\<rparr>)"
| add_notification: "ntf_workspace n = w \<Longrightarrow> db_step req w ji xi s (s\<lparr>notifications := notifications s @ [n]\<rparr>)"
| claim: "\<lbrakk>ji = Some i; j \<in> set (jobs s); job_id j = i; job_workspace j = w; due s j\<rbrakk>
    \<Longrightarrow> db_step req w ji xi s (s\<lparr>jobs := update_where (\<lambda>x. job_id x = i) (\<lambda>x. x\<lparr>job_status := ''running'', job_attempts := job_attempts x + 1\<rparr>) (jobs s)\<rparr>)"
| complete_job: "ji = Some i \<Longrightarrow> db_step req w ji xi s (s\<lparr>jobs := update_where (\<lambda>x. job_id x = i) (\<lambda>x. x\<lparr>job_status := ''completed''\<rparr>) (jobs s)\<rparr>)"
| give_back: "ji = Some i \<Longrightarrow> db_step req w ji xi s (s\<lparr>jobs := update_where (\<lambda>x. job_id x = i) (give_back (find_job i s) m s) (jobs s)\<rparr>)"
| add_step: "\<lbrakk>xi = Some i; stp_execution p = i; \<forall>q \<in> set (steps s). \<not> step_at i (stp_key p) q\<rbrakk> \<Longrightarrow> db_step req w ji xi s (s\<lparr>steps := steps s @ [p]\<rparr>)"
| update_step: "\<lbrakk>xi = Some i; same_place q\<rbrakk> \<Longrightarrow> db_step req w ji xi s (s\<lparr>steps := update_where (step_at i k) q (steps s)\<rparr>)"
| set_execution: "\<lbrakk>xi = Some i; same_run e\<rbrakk> \<Longrightarrow> db_step req w ji xi s (s\<lparr>executions := update_where (\<lambda>x. exe_id x = i) e (executions s)\<rparr>)"
| event_processed: "e \<in> set (events s) \<Longrightarrow> evt_workspace e = w
    \<Longrightarrow> db_step req w ji xi s (s\<lparr>events := update_where (\<lambda>x. evt_id x = evt_id e) (\<lambda>x. x\<lparr>evt_status := ''processed''\<rparr>) (events s)\<rparr>)"

abbreviation db_steps :: "bool \<Rightarrow> string \<Rightarrow> string option \<Rightarrow> string option \<Rightarrow> saas_db \<Rightarrow> saas_db \<Rightarrow> bool" where
  "db_steps req w ji xi \<equiv> (db_step req w ji xi)\<^sup>*\<^sup>*"

text \<open>Every request is a sequence of steps.\<close>

interpretation machine: member_change "db_steps req w ji xi" w u req req for req w u ji xi
  by unfold_locales (blast intro: db_step.intros rtranclp_trans)+

lemma step: "db_step req w ji xi s t \<Longrightarrow> db_steps req w ji xi s t"
  by (rule r_into_rtranclp)

section \<open>Running an execution\<close>

text \<open>The changes an execution \<open>i\<close> of the workspace \<open>w\<close> makes while its steps are performed.\<close>

locale run_change = db_change R for R :: "saas_db \<Rightarrow> saas_db \<Rightarrow> bool" +
  fixes w i :: string
  assumes calling: "R s (s\<lparr>net_calls := net_calls s @ [c]\<rparr>)"
    and recording: "\<lbrakk>row_tenant r = w; row_key r \<notin> row_key ` set (bos_records (records s))\<rbrakk>
      \<Longrightarrow> R s (s\<lparr>records := (records s)\<lparr>bos_records := bos_records (records s) @ [r]\<rparr>\<rparr>)"
    and notifying: "ntf_workspace n = w \<Longrightarrow> R s (s\<lparr>notifications := notifications s @ [n]\<rparr>)"
    and adding_step: "\<lbrakk>stp_execution p = i; \<forall>q \<in> set (steps s). \<not> step_at i (stp_key p) q\<rbrakk> \<Longrightarrow> R s (s\<lparr>steps := steps s @ [p]\<rparr>)"
    and updating_step: "same_place q \<Longrightarrow> R s (s\<lparr>steps := update_where (step_at i k) q (steps s)\<rparr>)"
    and updating_execution: "same_run e \<Longrightarrow> R s (s\<lparr>executions := update_where (\<lambda>x. exe_id x = i) e (executions s)\<rparr>)"
begin

lemma moves_fetch [valid_intros]: "moves R (fetch env c)"
  by (simp add: moves_def fetch_def calling)

lemma moves_notify [valid_intros]: "moves R (notify env w type title body data)"
  unfolding notify_def insert_notification_def by (intro valid_intros moves_guarded notifying) simp

lemma moves_record [valid_intros]: "moves R (insert_record w type k v)"
  unfolding insert_record_def by (rule moves_exec) (auto simp: row_key_def same intro!: recording)

lemma moves_upsert_step [valid_intros]: "stp_execution p = i \<Longrightarrow> moves R (upsert_step p)"
proof -
  have g: "same_place (\<lambda>p. p\<lparr>stp_status := ''running'', stp_started := Some (now s), stp_attempts := stp_attempts p + 1\<rparr>)" for s by (simp add: same_place_def)
  show "moves R (upsert_step p)" if "stp_execution p = i"
    unfolding upsert_step_def that by (rule moves_guarded) (auto simp: g that intro!: adding_step updating_step)
qed

lemma moves_update_step [valid_intros]: "(\<And>s. same_place (q s)) \<Longrightarrow> moves R (update_step i key q)"
  unfolding update_step_def by (rule moves_exec) (simp add: updating_step)

lemma moves_update_execution [valid_intros]: "(\<And>s. same_run (e s)) \<Longrightarrow> moves R (set_execution i e)"
  unfolding set_execution_def by (rule moves_exec) (simp add: updating_execution)

lemma moves_action [valid_intros]: "moves R (executeAction env dec w executionId st context)"
proof -
  have c: "moves R (credentials dec w p)" for p unfolding credentials_def by (intro valid_intros)
  have 1: "moves R (sendResendEmail env dec w a b d e)" for a b d e unfolding sendResendEmail_def Let_def by (intro valid_intros c)
  have 2: "moves R (verifyPaystack env dec w a)" for a unfolding verifyPaystack_def Let_def by (intro valid_intros c)
  have 3: "moves R (createStripeCustomer env dec w a b d)" for a b d unfolding createStripeCustomer_def Let_def by (intro valid_intros c)
  have 4: "moves R (createGoogleCalendarEvent env dec w a b d e f g)" for a b d e f g unfolding createGoogleCalendarEvent_def Let_def by (intro valid_intros c)
  have 5: "moves R (sendWhatsAppMessage env a b d)" for a b d unfolding sendWhatsAppMessage_def Let_def by (intro valid_intros)
  have 6: "moves R (whatsapp_action env dec w a)" for a unfolding whatsapp_action_def by (intro valid_intros 5)
  have 7: "moves R (sendOutboundWebhook env a b d e)" for a b d e unfolding sendOutboundWebhook_def by (intro valid_intros)
  show ?thesis unfolding executeAction_def Let_def by (intro valid_intros 1 2 3 4 6 7)
qed

lemma moves_run_steps [valid_intros]: "moves R (run_steps env dec w i n xs c)"
proof (induction xs arbitrary: n c)
  case (Cons x xs)
  have p: "moves R (perform_step env dec w i k x d)" for k d
    unfolding perform_step_def Let_def by (intro valid_intros) (simp_all add: same_place_def)
  have f: "moves R (fail_step i k e :: (saas_db, jsval \<times> bool) act)" for k e
    unfolding fail_step_def by (intro valid_intros) (simp add: same_place_def)
  show ?case unfolding run_steps.simps run_workflow_step_def Let_def by (intro valid_intros p f Cons.IH) simp
qed (simp add: moves_ret)

lemma moves_found_execution:
  "moves R
    (bnd (set_execution i (\<lambda>s y. y\<lparr>exe_status := ''running'', exe_started := (case exe_started y of None \<Rightarrow> Some (now s) | t \<Rightarrow> t),
                  exe_attempts := exe_attempts y + 1\<rparr>)) (\<lambda>_.
           bnd (run_steps env dec w i 0 xs c) (\<lambda>context.
           bnd (lift (json_param env context)) (\<lambda>output.
           bnd (set_execution i (\<lambda>s y. y\<lparr>exe_status := ''completed'', exe_output := output, exe_completed := Some (now s)\<rparr>)) (\<lambda>_.
           bnd (notify env w ''workflow.success'' ''Workflow completed'' ''A workflow execution completed successfully''
                  (Obj [(''executionId'', Str i)])) (\<lambda>_. ret ()))))))"
  by (intro valid_intros) (simp_all add: same_run_def)

end

interpretation running: run_change "db_steps req w ji (Some i)" w i for req w ji i
  by unfold_locales (simp_all add: step db_step.intros)

section \<open>Turns of the worker\<close>

lemma machine_jobs [valid_intros]:
  "moves (db_steps req w (Some i) xi) (complete_job i)"
  by (simp add: complete_job_def update_job_def moves_def step db_step.complete_job)

lemma machine_give_back: "db_steps req w (Some i) xi s (snd (update_job i (give_back (find_job i s) m) s))"
  by (simp add: update_job_def step db_step.give_back)

text \<open>The execution a job is about, if it is there and has not ended.\<close>

definition target :: "saas_db \<Rightarrow> job_row \<Rightarrow> string option" where
  "target s j =
     (if job_type j \<noteq> ''workflow.execute'' then None
      else case row0 (filter (\<lambda>x. Some (exe_id x) = text_param (field (job_payload j) ''executionId'') \<and> exe_workspace x = job_workspace j) (executions s)) of
        None \<Rightarrow> None | Some x \<Rightarrow> if finished x then None else Some (exe_id x))"

lemma payload_field: "k \<noteq> ''length'' \<Longrightarrow> field (js_or p (Obj [])) k = field p k"
  by (cases p) (auto simp: js_or_def)

lemma machine_execute:
  assumes "job_type j = ''workflow.execute''"
  shows "db_steps req (job_workspace j) ji (target s j) s (snd (execute_workflow env dec (job_workspace j) (js_or (job_payload j) (Obj [])) s))"
proof (cases "target s j")
  case None
  then show ?thesis using assms
    by (auto simp: target_def execute_workflow_def payload_field bnd_run' split: option.splits if_splits)
next
  case (Some i)
  then obtain x where x: "row0 (filter (\<lambda>x. Some (exe_id x) = text_param (field (job_payload j) ''executionId'') \<and> exe_workspace x = job_workspace j) (executions s)) = Some x"
    "\<not> finished x" "exe_id x = i" using assms by (auto simp: target_def split: option.splits if_splits)
  then show ?thesis using movesD [OF running.moves_found_execution] unfolding Some by (simp add: execute_workflow_def payload_field bnd_run' [of "query _"])
qed

text \<open>Starting the workflows an event triggers needs them to be there, which they stay.\<close>

definition with_workflows :: "string \<Rightarrow> (workflow_row \<times> jsval) list \<Rightarrow> (saas_db \<Rightarrow> saas_db \<Rightarrow> bool) \<Rightarrow> saas_db \<Rightarrow> saas_db \<Rightarrow> bool" where
  "with_workflows w fs R s t \<longleftrightarrow> (fst ` set fs \<subseteq> {f \<in> set (workflows s). wfl_workspace f = w} \<longrightarrow> R s t \<and> workflows t = workflows s \<and> events t = events s)"

lemma published_in: "fst ` set (published_workflows w s) \<subseteq> {f \<in> set (workflows s). wfl_workspace f = w}"
  by (auto simp: published_workflows_def)

interpretation triggers: db_change "with_workflows w fs (db_steps req w ji xi)" for w fs req ji xi
  by unfold_locales (auto simp: with_workflows_def intro: rtranclp_trans step db_step.drawn)

lemma find_workflow_ex: "f \<in> set (workflows s) \<Longrightarrow> wfl_workspace f = w \<Longrightarrow> \<exists>g. find_workflow w (wfl_id f) s = Some g"
  unfolding find_workflow_def by (cases "filter (\<lambda>g. wfl_id g = wfl_id f \<and> wfl_workspace g = w) (workflows s)") (auto simp: filter_empty_conv)

lemma machine_start_triggered:
  assumes "fd \<in> set fs"
  shows "moves (with_workflows w fs (db_steps req w ji xi)) (start_triggered env w e fd)"
proof -
  obtain f d where fd: "fd = (f, d)" by fastforce
  have job: "moves (with_workflows w fs (db_steps req w ji xi)) (insert_job env w type payload)" for type payload
    using movesD [OF machine.moves_insert_job]
    by (auto simp: moves_def with_workflows_def insert_job_def bnd_run' guarded_def split: option.split)
  have "with_workflows w fs (db_steps req w ji xi) s (snd (insert_execution (new_execution i w (wfl_id f) n trigger None input time) s))" for s i n trigger input time
  proof -
    have "db_steps req w ji xi s (snd (insert_execution (new_execution i w (wfl_id f) n trigger None input time) s))"
      if "fst ` set fs \<subseteq> {f \<in> set (workflows s). wfl_workspace f = w}"
    proof -
      from that have "f \<in> set (workflows s)" "wfl_workspace f = w" using assms fd by auto
      then obtain g where "find_workflow w (wfl_id f) s = Some g" using find_workflow_ex by blast
      then show ?thesis by (intro machine.moves_insert_execution) (simp_all add: new_execution_def)
    qed
    then show ?thesis by (auto simp: with_workflows_def insert_execution_def bnd_run' guarded_def split: option.split)
  qed
  then have "moves (with_workflows w fs (db_steps req w ji xi)) (insert_execution (new_execution i w (wfl_id f) n trigger None input time))" for i n trigger input time
    by (simp add: moves_def)
  then show ?thesis unfolding fd start_triggered_def prod.case by (intro valid_intros job)
qed

lemma row0_filter: "row0 (filter P xs) = Some x \<Longrightarrow> x \<in> set xs \<and> P x"
  by (auto dest: row0_in)

lemma machine_event: "moves (db_steps req w ji xi) (process_event env w p)"
proof -
  have "db_steps req w ji xi s (snd (bnd (query (published_workflows w)) (\<lambda>fs. bnd (for_each (start_triggered env w e) fs) (\<lambda>_.
         exec (\<lambda>s. s\<lparr>events := update_where (\<lambda>x. evt_id x = evt_id e) (\<lambda>x. x\<lparr>evt_status := ''processed''\<rparr>) (events s)\<rparr>))) s))"
    if e: "e \<in> set (events s)" "evt_workspace e = w" for s e
  proof -
    let ?fs = "published_workflows w s"
    have "moves (with_workflows w ?fs (db_steps req w ji xi)) (for_each (start_triggered env w e) ?fs)"
      by (rule triggers.moves_for_each) (rule machine_start_triggered)
    then have started: "db_steps req w ji xi s (snd (for_each (start_triggered env w e) ?fs s)) \<and> events (snd (for_each (start_triggered env w e) ?fs s)) = events s"
      using published_in [of w s] by (simp add: moves_def with_workflows_def)
    then have "db_steps req w ji xi t (t\<lparr>events := update_where (\<lambda>x. evt_id x = evt_id e) (\<lambda>x. x\<lparr>evt_status := ''processed''\<rparr>) (events t)\<rparr>)"
      if "t = snd (for_each (start_triggered env w e) ?fs s)" for t
      using that e by (intro step db_step.event_processed) simp_all
    from rtranclp_trans [OF conjunct1 [OF started] this [OF refl]] show ?thesis
      using started by (cases "for_each (start_triggered env w e) ?fs s"; cases "fst (for_each (start_triggered env w e) ?fs s)") (simp_all add: bnd_run')
  qed
  then show ?thesis
    unfolding process_event_def by (intro machine.moves_query_option machine.moves_ret) (auto dest!: row0_filter)
qed


lemma machine_run_job: "db_steps req (job_workspace j) ji (target s j) s (snd (run_job env dec j s))"
  using machine_execute [of j] movesD [OF machine_event] by (simp add: run_job_def Let_def)

lemma text_param_target: "target s j = Some i \<Longrightarrow> text_param (field (job_payload j) ''executionId'') = Some i"
  by (auto simp: target_def split: if_splits option.splits dest: row0_filter)

text \<open>A job only fails after its execution was found.\<close>

lemma run_job_fails: "fst (run_job env dec j s) = Inl e \<Longrightarrow> job_type j = ''workflow.execute'' \<Longrightarrow> target s j \<noteq> None"
  by (auto simp: run_job_def target_def execute_workflow_def payload_field bnd_run' Let_def split: option.splits if_splits)

lemma machine_job_failed:
  assumes "job_type j = ''workflow.execute'' \<Longrightarrow> text_param (field (job_payload j) ''executionId'') = xi \<and> xi \<noteq> None"
  shows "moves (db_steps req (job_workspace j) (Some (job_id j)) xi) (job_failed env j error)"
proof -
  have told: "moves (db_steps req (job_workspace j) (Some (job_id j)) xi) (notify env (job_workspace j) type title body data)" for type title body data
    unfolding notify_def insert_notification_def by (intro valid_intros machine.moves_guarded step db_step.add_notification) simp
  have fail: "moves (db_steps req (job_workspace j) (Some (job_id j)) xi) (fail_execution (field (job_payload j) ''executionId'') m)"
    if type: "job_type j = ''workflow.execute''" for m
  proof -
    obtain i where i: "text_param (field (job_payload j) ''executionId'') = Some i" "xi = Some i" using assms [OF type] by auto
    have "same_run (\<lambda>x. x\<lparr>exe_status := ''failed'', exe_error := to_json (Obj [(''message'', m)]), exe_completed := Some (now s)\<rparr>)" for s
      by (simp add: same_run_def)
    from db_step.set_execution [OF i(2) this] show ?thesis unfolding fail_execution_def i(1) option.inject by (intro moves_exec step)
  qed
  have rest: "moves (db_steps req (job_workspace j) (Some (job_id j)) xi)
     (if gives_up current \<and> job_type j = ''workflow.execute'' \<and> truthy (field (job_payload j) ''executionId'') then
       bnd (lift (message_of error)) (\<lambda>v.
       bnd (fail_execution (field (job_payload j) ''executionId'') v) (\<lambda>_.
       bnd (notify env (job_workspace j) ''workflow.failure'' ''Workflow failed'' ''A workflow execution failed after retries''
              (Obj [(''executionId'', field (job_payload j) ''executionId''), (''error'', v)])) (\<lambda>_. ret ())))
     else ret ())" for current
    by (intro valid_intros fail told) simp
  have "db_steps req (job_workspace j) (Some (job_id j)) xi s (snd (job_failed env j error s))" for s
    unfolding job_failed_def
    by (rule machine.moves_query_at, rule machine.moves_lift_at, rule machine.moves_at_bnd, rule machine_give_back, rule movesD, rule rest)
  then show ?thesis by (simp add: moves_def)
qed

theorem machine_turn:
  assumes "next_job env s = Some j"
  shows "db_steps req (job_workspace j) (Some (job_id j)) (target s j) s (snd (worker_turn env dec s))"
proof -
  let ?R = "db_steps req (job_workspace j) (Some (job_id j)) (target s j)"
  let ?j = "j\<lparr>job_status := ''running'', job_attempts := job_attempts j + 1\<rparr>"
  let ?s = "s\<lparr>jobs := update_where (\<lambda>x. job_id x = job_id j) (\<lambda>x. x\<lparr>job_status := ''running'', job_attempts := job_attempts x + 1\<rparr>) (jobs s)\<rparr>"
  have j: "j \<in> set (jobs s)" "due s j" using assms by (auto simp: next_job_def dest: row0_in)
  have "?R s ?s" using db_step.claim [OF refl j(1) refl refl j(2)] by (rule step)
  have target: "target ?s ?j = target s j" by (simp add: target_def)
  have run: "?R ?s (snd (run_job env dec ?j ?s))" using machine_run_job [where j = ?j and s = ?s and req = req] unfolding target by simp
  have done': "moves ?R (complete_job (job_id ?j))" using machine_jobs by simp
  have fails: "?R t (snd (job_failed env ?j e t))" if "fst (run_job env dec ?j ?s) = Inl e'" for e e' t
  proof -
    have "text_param (field (job_payload j) ''executionId'') = target s j \<and> target s j \<noteq> None" if "job_type j = ''workflow.execute''"
      using run_job_fails [OF \<open>fst (run_job env dec ?j ?s) = Inl e'\<close>] text_param_target [of s j] that unfolding target by auto
    then show ?thesis using machine_job_failed [where j = ?j and xi = "target s j" and env = env and error = e and req = req] by (simp add: movesD)
  qed
  obtain r t where rt: "run_job env dec ?j ?s = (r, t)" by fastforce
  have "?R ?s (snd (processJob env dec ?j ?s))"
  proof (cases r)
    case (Inl e)
    then show ?thesis using run fails [where e = e and e' = e and t = t] rt rtranclp_trans [of "db_step req (job_workspace j) (Some (job_id j)) (target s j)" ?s t]
      by (simp add: processJob_def try_catch_def bnd_run')
  next
    case (Inr u)
    then have "processJob env dec ?j ?s = complete_job (job_id j) t"
      using rt by (simp add: processJob_def try_catch_def bnd_run' complete_job_def update_job_def)
    then show ?thesis using run movesD [OF done', of t] rt rtranclp_trans [of "db_step req (job_workspace j) (Some (job_id j)) (target s j)" ?s t] by simp
  qed
  with \<open>?R s ?s\<close> have "?R s (snd (processJob env dec ?j ?s))" by (rule rtranclp_trans)
  then show ?thesis using assms
    by (auto simp: worker_turn_def try_catch_def bnd_run' update_job_def split: prod.split sum.split)
qed

end
