(* ===== verification/SaasHistories.thy ===== *)
theory SaasHistories
  imports SaasMachine
begin

text \<open>
  Histories of requests, turns of the worker and passing time, and the invariants of the tables along
  them, each proved by induction over the elementary steps.
\<close>

datatype saas_op =
    Request http_request "auth option"
  | Turn
  | Wait nat

fun do_saas :: "app_env \<Rightarrow> (jsval \<Rightarrow> js_error + string) \<Rightarrow> (jsval \<Rightarrow> js_error + string) \<Rightarrow> saas_op \<Rightarrow> saas_db \<Rightarrow> saas_db" where
  "do_saas env enc dec (Request rq who) s = snd (handleSaaSRoute env enc rq who s)"
| "do_saas env enc dec Turn s = snd (worker_turn env dec s)"
| "do_saas env enc dec (Wait d) s = s\<lparr>records := (records s)\<lparr>pg_now := pg_now (records s) + int d\<rparr>, app_now := app_now s + int d\<rparr>"

definition saas_history :: "app_env \<Rightarrow> (jsval \<Rightarrow> js_error + string) \<Rightarrow> (jsval \<Rightarrow> js_error + string) \<Rightarrow> saas_op list \<Rightarrow> saas_db \<Rightarrow> saas_db" where
  "saas_history env enc dec ops = fold (do_saas env enc dec) ops"

lemma request_steps: "\<exists>w. db_steps True w None None s (snd (handleSaaSRoute env enc rq who s))"
  using machine.moves_handle [OF acts_for_request [of rq who], where s = s and ji = None and xi = None and req = True] by auto

lemma idle_turn: "next_job env s = None \<Longrightarrow> worker_turn env dec s = (Inr (), s)"
  by (simp add: worker_turn_def try_catch_def bnd_run')

text \<open>A relation that holds of doing nothing, of every step and of passing time, and composes, holds along every history.\<close>

locale history_relation = change R for R :: "saas_db \<Rightarrow> saas_db \<Rightarrow> bool" +
  assumes each_step: "db_step req w ji xi s t \<Longrightarrow> R s t"
    and waiting: "R s (s\<lparr>records := (records s)\<lparr>pg_now := pg_now (records s) + int d\<rparr>, app_now := app_now s + int d\<rparr>)"
begin

lemma each_steps: "db_steps req w ji xi s t \<Longrightarrow> R s t"
  by (induction rule: rtranclp_induct) (auto intro: same compose each_step)

lemma each_op: "R s (do_saas env enc dec op s)"
proof (cases op)
  case (Request rq who)
  then show ?thesis using request_steps [of s env enc rq who] each_steps by auto
next
  case Turn
  then show ?thesis using machine_turn [THEN each_steps] idle_turn [of env s dec] same by (cases "next_job env s") simp_all
qed (simp add: waiting)

lemma along_history: "R s (saas_history env enc dec ops s)"
  unfolding saas_history_def by (induction ops arbitrary: s) (auto intro: same compose each_op)

end

section \<open>Workflow versions\<close>

definition version_numbers :: "string \<Rightarrow> saas_db \<Rightarrow> int list" where
  "version_numbers i s = map ver_number (filter (\<lambda>v. ver_workflow v = i) (versions s))"

text \<open>Each workflow has the versions 1 to its current one, once each and in this order.\<close>

definition versions_ok :: "saas_db \<Rightarrow> bool" where
  "versions_ok s \<longleftrightarrow> distinct (map wfl_id (workflows s)) \<and> (\<forall>f \<in> set (workflows s). 1 \<le> wfl_version f \<and> version_numbers (wfl_id f) s = [1..wfl_version f])
     \<and> ver_workflow ` set (versions s) \<subseteq> wfl_id ` set (workflows s)"

definition versions_grow :: "saas_db \<Rightarrow> saas_db \<Rightarrow> bool" where
  "versions_grow s t \<longleftrightarrow> prefix (versions s) (versions t) \<and> (versions_ok s \<longrightarrow> versions_ok t
     \<and> (\<forall>f \<in> set (workflows s). \<exists>g \<in> set (workflows t). wfl_id g = wfl_id f \<and> wfl_workspace g = wfl_workspace f \<and> wfl_version f \<le> wfl_version g))"

lemma versions_grow_same: "workflows t = workflows s \<Longrightarrow> versions t = versions s \<Longrightarrow> versions_grow s t"
  by (auto simp: versions_grow_def versions_ok_def version_numbers_def)

lemma map_update_id: "unchanged_key g \<Longrightarrow> map wfl_id (update_where P g fs) = map wfl_id fs" "unchanged_key g \<Longrightarrow> wfl_id ` set (update_where P g fs) = wfl_id ` set fs"
proof -
  show *: "map wfl_id (update_where P g fs) = map wfl_id fs" if "unchanged_key g" for fs
    using that by (simp add: map_update_where unchanged_key_def)
  show "wfl_id ` set (update_where P g fs) = wfl_id ` set fs" if "unchanged_key g"
    using arg_cong [OF * [OF that], of set fs] by simp
qed

lemma versions_grow_add:
  assumes "wfl_version f = 1" "wfl_id f \<notin> wfl_id ` set (workflows s)" "ver_workflow vr = wfl_id f" "ver_number vr = 1"
  shows "versions_grow s (s\<lparr>workflows := workflows s @ [f], versions := versions s @ [vr]\<rparr>)"
proof -
  let ?t = "s\<lparr>workflows := workflows s @ [f], versions := versions s @ [vr]\<rparr>"
  have "versions_ok ?t" if ok: "versions_ok s"
  proof -
    have "wfl_id f \<notin> ver_workflow ` set (versions s)" using ok assms(2) by (auto simp: versions_ok_def)
    then have "filter (\<lambda>v. ver_workflow v = wfl_id f) (versions s) = []" by (force simp: filter_empty_conv)
    then have new: "version_numbers (wfl_id f) ?t = [1..wfl_version f]" using assms(1,3,4) by (simp add: version_numbers_def)
    have old: "version_numbers (wfl_id h) ?t = version_numbers (wfl_id h) s" if "h \<in> set (workflows s)" for h
      using that assms(2,3) by (auto simp: version_numbers_def)
    show ?thesis unfolding versions_ok_def
    proof (intro conjI ballI)
      show "1 \<le> wfl_version h" "version_numbers (wfl_id h) ?t = [1..wfl_version h]" if "h \<in> set (workflows ?t)" for h
        using that new old ok assms(1) by (auto simp: versions_ok_def)
      show "distinct (map wfl_id (workflows ?t))" using ok assms(2) by (auto simp: versions_ok_def)
      show "ver_workflow ` set (versions ?t) \<subseteq> wfl_id ` set (workflows ?t)" using ok assms(3) by (auto simp: versions_ok_def)
    qed
  qed
  then show ?thesis by (auto simp: versions_grow_def)
qed

lemma versions_grow_save:
  assumes "find_workflow w i s = Some f" "unchanged_key g" "\<forall>r. wfl_version (g r) = wfl_version f + 1" "ver_workflow vr = i" "ver_number vr = wfl_version f + 1"
  shows "versions_grow s (s\<lparr>versions := versions s @ [vr], workflows := update_where (workflow_at w i) g (workflows s)\<rparr>)"
proof -
  let ?t = "s\<lparr>versions := versions s @ [vr], workflows := update_where (workflow_at w i) g (workflows s)\<rparr>"
  let ?u = "\<lambda>h. if workflow_at w i h then g h else h"
  have f: "f \<in> set (workflows s)" "wfl_id f = i" "wfl_workspace f = w" using find_workflow_in [OF assms(1)] by simp_all
  have keys: "wfl_id (?u h) = wfl_id h" "wfl_workspace (?u h) = wfl_workspace h" for h using assms(2) by (simp_all add: unchanged_key_def)
  have ids: "map wfl_id (workflows ?t) = map wfl_id (workflows s)" using map_update_id [OF assms(2)] by simp
  have rows: "set (workflows ?t) = ?u ` set (workflows s)" by (simp add: set_update_where)
  have "versions_ok ?t \<and> (\<forall>h \<in> set (workflows s). \<exists>h' \<in> set (workflows ?t). wfl_id h' = wfl_id h \<and> wfl_workspace h' = wfl_workspace h \<and> wfl_version h \<le> wfl_version h')"
    if ok: "versions_ok s"
  proof -
    have only: "h = f" if "h \<in> set (workflows s)" "wfl_id h = i" for h
      using unique_row [of wfl_id "workflows s" h f] ok that f by (simp add: versions_ok_def)
    have v: "1 \<le> wfl_version f" "version_numbers i s = [1..wfl_version f]" using ok f by (auto simp: versions_ok_def)
    have row: "1 \<le> wfl_version (?u h) \<and> version_numbers (wfl_id h) ?t = [1..wfl_version (?u h)] \<and> wfl_version h \<le> wfl_version (?u h)"
      if h: "h \<in> set (workflows s)" for h
    proof (cases "wfl_id h = i")
      case True
      then have "h = f" by (rule only [OF h])
      then show ?thesis using v f assms(3-5) upto_rec2 [of 1 "wfl_version f + 1"] by (simp add: version_numbers_def workflow_at_def)
    next
      case False
      then show ?thesis using ok h assms(4) by (auto simp: version_numbers_def workflow_at_def versions_ok_def)
    qed
    have "versions_ok ?t" unfolding versions_ok_def
    proof (intro conjI ballI)
      fix h
      assume "h \<in> set (workflows ?t)"
      then obtain h0 where h: "h = ?u h0" "h0 \<in> set (workflows s)" unfolding rows by blast
      then have "wfl_id h = wfl_id h0" using keys by (simp only:)
      then show "1 \<le> wfl_version h" "version_numbers (wfl_id h) ?t = [1..wfl_version h]" using row [OF h(2)] h(1) by (simp_all only:)
    next
      show "distinct (map wfl_id (workflows ?t))" using ok unfolding ids by (simp add: versions_ok_def)
      have "wfl_id ` set (workflows ?t) = wfl_id ` set (workflows s)" using arg_cong [OF ids, of set] by simp
      moreover have "i \<in> wfl_id ` set (workflows s)" using f by force
      ultimately show "ver_workflow ` set (versions ?t) \<subseteq> wfl_id ` set (workflows ?t)" using ok assms(4) f by (auto simp: versions_ok_def)
    qed
    moreover have "\<exists>h' \<in> set (workflows ?t). wfl_id h' = wfl_id h \<and> wfl_workspace h' = wfl_workspace h \<and> wfl_version h \<le> wfl_version h'"
      if "h \<in> set (workflows s)" for h
      using row [OF that] keys [of h] that unfolding rows by (intro bexI [of _ "?u h"]) auto
    ultimately show ?thesis by blast
  qed
  then show ?thesis by (simp add: versions_grow_def)
qed

lemma versions_grow_update:
  assumes "unchanged_key g" "\<forall>r. wfl_version (g r) = wfl_version r"
  shows "versions_grow s (s\<lparr>workflows := update_where P g (workflows s)\<rparr>)"
proof -
  have rows: "set (update_where P g (workflows s)) = (\<lambda>h. if P h then g h else h) ` set (workflows s)" by (simp add: set_update_where)
  have "\<exists>h \<in> set (update_where P g (workflows s)). wfl_id h = wfl_id f \<and> wfl_workspace h = wfl_workspace f \<and> wfl_version f \<le> wfl_version h"
    if "f \<in> set (workflows s)" for f
    using that assms unfolding rows by (intro bexI [of _ "if P f then g f else f"]) (auto simp: unchanged_key_def)
  then show ?thesis using assms map_update_id [OF assms(1), of P "workflows s"]
    unfolding versions_grow_def versions_ok_def version_numbers_def by (auto simp: unchanged_key_def rows)
qed

interpretation versions_grow: history_relation versions_grow
proof unfold_locales
  show "versions_grow s v" if "versions_grow s t" "versions_grow t v" for s t v
    using that unfolding versions_grow_def by (fastforce intro: prefix_order.trans)
  show "versions_grow s t" if "db_step req w ji xi s t" for req w ji xi s t
    using that
    by cases (simp_all add: versions_grow_same versions_grow_add versions_grow_save versions_grow_update)
qed (auto intro: versions_grow_same)


text \<open>C10: Invariant. Versions of workflows: along every history of requests, turns of the worker and passing time each
  workflow has exactly the versions 1 to its current one; no version is ever rewritten or removed,
  no workflow disappears, changes its workspace or goes back to an earlier version.\<close>

theorem workflow_versions_are_permanent:
  assumes "versions_ok s"
  shows "versions_ok (saas_history env enc dec ops s) \<and> prefix (versions s) (versions (saas_history env enc dec ops s))
    \<and> (\<forall>f \<in> set (workflows s). \<exists>g \<in> set (workflows (saas_history env enc dec ops s)).
        wfl_id g = wfl_id f \<and> wfl_workspace g = wfl_workspace f \<and> wfl_version f \<le> wfl_version g)"
  using versions_grow.along_history [of s env enc dec ops] assms by (simp add: versions_grow_def)

section \<open>Executions\<close>

text \<open>Executions have unique identifiers and, within a workspace, unique idempotency keys.\<close>

definition executions_ok :: "saas_db \<Rightarrow> bool" where
  "executions_ok s \<longleftrightarrow> distinct (map exe_id (executions s)) \<and> refs_ok s
     \<and> distinct (map (\<lambda>x. (exe_workspace x, exe_key x)) (filter (\<lambda>x. exe_key x \<noteq> None) (executions s)))"

definition run_identity :: "execution_row \<Rightarrow> string \<times> string \<times> string \<times> int \<times> string option" where
  "run_identity x = (exe_id x, exe_workspace x, exe_workflow x, exe_version x, exe_key x)"

definition executions_grow :: "saas_db \<Rightarrow> saas_db \<Rightarrow> bool" where
  "executions_grow s t \<longleftrightarrow> prefix (map run_identity (executions s)) (map run_identity (executions t)) \<and> (executions_ok s \<longrightarrow> executions_ok t)"

lemma executions_ok_identity:
  assumes "map run_identity (executions t) = map run_identity (executions s)" "workflows t = workflows s"
  shows "executions_ok t = executions_ok s"
proof -
  have ids: "map exe_id xs = map fst (map run_identity xs)" for xs by (simp add: run_identity_def)
  have keys: "map (\<lambda>x. (exe_workspace x, exe_key x)) (filter (\<lambda>x. exe_key x \<noteq> None) xs)
      = map (\<lambda>(i, w, f, n, k). (w, k)) (filter (\<lambda>(i, w, f, n, k). k \<noteq> None) (map run_identity xs))" for xs
    by (induction xs) (simp_all add: run_identity_def)
  have refs: "(\<forall>x \<in> set xs. \<exists>f \<in> F. wfl_id f = exe_workflow x \<and> wfl_workspace f = exe_workspace x)
      \<longleftrightarrow> (\<forall>(i, w, g, n, k) \<in> set (map run_identity xs). \<exists>f \<in> F. wfl_id f = g \<and> wfl_workspace f = w)" for xs F
    by (induction xs) (simp_all add: run_identity_def)
  show ?thesis unfolding executions_ok_def refs_ok_def ids keys refs assms ..
qed

lemma executions_grow_same: "executions t = executions s \<Longrightarrow> workflows t = workflows s \<Longrightarrow> executions_grow s t"
  using executions_ok_identity [of t s] by (simp add: executions_grow_def)

lemma refs_ok_workflows:
  assumes "refs_ok s" "executions t = executions s" "distinct (map wfl_id (workflows t))"
    "\<And>f. f \<in> set (workflows s) \<Longrightarrow> \<exists>g \<in> set (workflows t). wfl_id g = wfl_id f \<and> wfl_workspace g = wfl_workspace f"
  shows "refs_ok t"
  using assms unfolding refs_ok_def by metis

lemma executions_grow_workflows:
  assumes "executions t = executions s" "distinct (map wfl_id (workflows s)) \<Longrightarrow> distinct (map wfl_id (workflows t))"
    "\<And>f. f \<in> set (workflows s) \<Longrightarrow> \<exists>g \<in> set (workflows t). wfl_id g = wfl_id f \<and> wfl_workspace g = wfl_workspace f"
  shows "executions_grow s t"
  using assms refs_ok_workflows [of s t] by (auto simp: executions_grow_def executions_ok_def refs_ok_def)

lemma updated_workflow:
  assumes "unchanged_key g" "f \<in> set fs"
  shows "\<exists>h \<in> set (update_where P g fs). wfl_id h = wfl_id f \<and> wfl_workspace h = wfl_workspace f"
  using assms by (intro bexI [OF _ update_whereI [OF assms(2)]]) (auto simp: unchanged_key_def)

lemma executions_grow_add:
  assumes "exe_workspace x = w" "find_workflow w (exe_workflow x) s = Some f" "exe_id x \<notin> exe_id ` set (executions s)"
    "\<forall>y \<in> set (executions s). exe_workspace y = w \<longrightarrow> exe_key y = exe_key x \<longrightarrow> exe_key x = None"
  shows "executions_grow s (s\<lparr>executions := executions s @ [x]\<rparr>)"
proof -
  have "f \<in> set (workflows s)" "wfl_id f = exe_workflow x" "wfl_workspace f = exe_workspace x" using find_workflow_in [OF assms(2)] assms(1) by simp_all
  then show ?thesis using assms by (auto simp: executions_grow_def executions_ok_def refs_ok_def)
qed

interpretation executions_grow: history_relation executions_grow
proof unfold_locales
  show "executions_grow s v" if "executions_grow s t" "executions_grow t v" for s t v
    using that unfolding executions_grow_def by (blast intro: prefix_order.trans)
  show "executions_grow s t" if "db_step req w ji xi s t" for req w ji xi s t
    using that
  proof cases
    case (set_execution i e)
    have "run_identity (e x) = run_identity x" for x using set_execution(3) by (simp add: same_run_def run_identity_def)
    then have "map run_identity (executions t) = map run_identity (executions s)" unfolding set_execution by (simp add: map_update_where)
    then show ?thesis using executions_ok_identity [of t s] by (simp add: executions_grow_def set_execution)
  next
    case (update_workflows g i)
    then show ?thesis by (auto intro!: executions_grow_workflows updated_workflow simp: map_update_id)
  next
    case (save_version i f g vr)
    then show ?thesis by (auto intro!: executions_grow_workflows updated_workflow simp: map_update_id)
  next
    case (add_workflow f vr)
    then show ?thesis by (auto intro!: executions_grow_workflows)
  qed (simp_all add: executions_grow_same executions_grow_add)
qed (auto intro: executions_grow_same)

text \<open>The idempotency key a request to start an execution carries.\<close>

definition start_key :: "app_env \<Rightarrow> http_request \<Rightarrow> string" where
  "start_key env rq = (case read_body env rq of Inl e \<Rightarrow> [] | Inr p \<Rightarrow> clean (js_or (header rq ''idempotency-key'') (field p ''idempotencyKey'')) 300)"

definition started_as :: "string \<Rightarrow> string \<Rightarrow> string \<Rightarrow> saas_db \<Rightarrow> bool" where
  "started_as w k i s \<longleftrightarrow> executions_ok s \<and> (\<exists>x \<in> set (executions s). exe_workspace x = w \<and> exe_key x = Some k \<and> exe_id x = i)"

lemma started_grows:
  assumes "started_as w k i s" "executions_grow s t"
  shows "started_as w k i t"
proof -
  obtain x where x: "x \<in> set (executions s)" "exe_workspace x = w" "exe_key x = Some k" "exe_id x = i" using assms(1) by (auto simp: started_as_def)
  then have "run_identity x \<in> set (map run_identity (executions t))" using assms(2) set_mono_prefix by (fastforce simp: executions_grow_def)
  then obtain y where "y \<in> set (executions t)" "run_identity y = run_identity x" by auto
  then show ?thesis using x assms by (auto simp: started_as_def executions_grow_def run_identity_def)
qed

lemma started_found:
  assumes "started_as w k i s"
  shows "\<exists>x. row0 (filter (\<lambda>x. exe_workspace x = w \<and> exe_key x = Some k) (executions s)) = Some x \<and> exe_id x = i"
proof -
  obtain x where x: "x \<in> set (executions s)" "exe_workspace x = w" "exe_key x = Some k" "exe_id x = i" and ok: "executions_ok s"
    using assms by (auto simp: started_as_def)
  have "y = x" if "y \<in> set (executions s)" "exe_workspace y = w" "exe_key y = Some k" for y
    using unique_row [of "\<lambda>x. (exe_workspace x, exe_key x)" "filter (\<lambda>x. exe_key x \<noteq> None) (executions s)" y x] that x ok
    by (simp add: executions_ok_def)
  note only = this
  have "filter (\<lambda>x. exe_workspace x = w \<and> exe_key x = Some k) (executions s) \<noteq> []" using x by (auto simp: filter_empty_conv)
  then obtain z where z: "row0 (filter (\<lambda>x. exe_workspace x = w \<and> exe_key x = Some k) (executions s)) = Some z"
    by (cases "filter (\<lambda>x. exe_workspace x = w \<and> exe_key x = Some k) (executions s)") auto
  then have "z = x" using only [of z] row0_filter [OF z] by simp
  then show ?thesis using z x by simp
qed

lemma insert_conflict: "\<lbrakk>x \<in> set (executions s); exe_workspace x = exe_workspace r; exe_key x = exe_key r; exe_key r \<noteq> None\<rbrakk> \<Longrightarrow> insert_execution r s = (Inr False, s)"
  by (auto simp: insert_execution_def bnd_run')

lemma start_again:
  assumes "started_as (tenant a) (start_key env rq) i s"
  shows "(case fst (start_execution env rq a s) of
      Inl e \<Rightarrow> True
    | Inr (status, body) \<Rightarrow> status = 200 \<and> field body ''status'' = Str ''duplicate'' \<and> field (field body ''execution'') ''id'' = Str i)
    \<and> executions (snd (start_execution env rq a s)) = executions s \<and> jobs (snd (start_execution env rq a s)) = jobs s"
proof (cases "read_body env rq")
  case (Inr p)
  let ?f = "clean (field p ''workflowId'') 100"
  have key: "start_key env rq = clean (js_or (header rq ''idempotency-key'') (field p ''idempotencyKey'')) 300" by (simp add: start_key_def Inr)
  have conflict: "insert_execution (new_execution n (tenant a) g m trigger (Some (start_key env rq)) input time) t = (Inr False, t)"
    if "executions t = executions s" for n g m trigger input time t
    using assms that by (auto simp: started_as_def new_execution_def intro: insert_conflict)
  obtain x where x: "row0 (filter (\<lambda>x. exe_workspace x = tenant a \<and> exe_key x = Some (start_key env rq)) (executions s)) = Some x" "exe_id x = i"
    using started_found [OF assms] by blast
  then show ?thesis using Inr
    by (auto simp: start_execution_def enqueue_execution_def bnd_run' Let_def key [symmetric] conflict lift_def execution_fields_def split: option.split sum.split)
qed (simp add: start_execution_def)

lemma insert_execution_Inr: "insert_execution x s = (Inr inserted, t) \<Longrightarrow> if inserted then t = s\<lparr>executions := executions s @ [x]\<rparr> else t = s"
  by (auto simp: insert_execution_def bnd_run' guarded_def split: if_splits option.splits)

lemma start_accepted:
  assumes "start_execution env rq a s = (Inr (202, body), t)"
  shows "\<exists>x \<in> set (executions t). exe_workspace x = tenant a \<and> exe_key x = Some (start_key env rq) \<and> field body ''executionId'' = Str (exe_id x)"
proof -
  obtain p where p: "read_body env rq = Inr p" using assms by (cases "read_body env rq") (auto simp: start_execution_def)
  let ?i = "clean (field p ''workflowId'') 100" and ?e = "''execution_'' @ random_uuid env (draws s)"
  have key: "start_key env rq = clean (js_or (header rq ''idempotency-key'') (field p ''idempotencyKey'')) 300" by (simp add: start_key_def p)
  obtain f d where run: "enqueue_execution env rq a p ?i (f, d) s = (Inr (202, body), t)"
    using assms p by (auto simp: start_execution_def bnd_run' Let_def split: if_splits option.splits)
  obtain input where input: "json_param env (js_or (field p ''context'') (Obj [])) = Inr input"
    using run by (cases "json_param env (js_or (field p ''context'') (Obj []))") (auto simp: enqueue_execution_def bnd_run' Let_def split: if_splits)
  let ?x = "new_execution ?e (tenant a) ?i (wfl_version f) ''manual'' (Some (start_key env rq)) input (now s)"
  obtain s' where ins: "insert_execution ?x (s\<lparr>draws := Suc (draws s)\<rparr>) = (Inr True, s')"
    and job: "insert_job env (tenant a) ''workflow.execute'' (Obj [(''executionId'', Str ?e), (''definition'', d)]) s' = (Inr (), t)"
    and body: "body = Obj [(''status'', Str ''queued''), (''executionId'', Str ?e)]"
    using run input by (auto simp: enqueue_execution_def bnd_run' Let_def key [symmetric] now_def split: if_splits prod.splits sum.splits)
  have "executions s' = executions s @ [?x]" using insert_execution_Inr [OF ins] by simp
  then have row: "?x \<in> set (executions t)" using job by (auto simp: insert_job_def bnd_run' guarded_Inr)
  show ?thesis by (rule bexI [OF _ row]) (simp add: new_execution_def body)
qed

text \<open>C8: Safety. An idempotency key starts one execution: once a request started an execution under a key, along every
  history afterwards each further request of the same workspace with that key is answered as a
  duplicate of that execution, or refused, and adds neither an execution nor a job.\<close>

theorem executions_start_once:
  assumes "start_execution env rq a s = (Inr (202, body), s1)" "executions_ok s" "tenant a' = tenant a" "start_key env rq' = start_key env rq"
  shows "let t = saas_history env enc dec ops s1; (r, t') = start_execution env rq' a' t in
    (case r of
      Inl e \<Rightarrow> True
    | Inr (status, body') \<Rightarrow> status = 200 \<and> field body' ''status'' = Str ''duplicate'' \<and> field (field body' ''execution'') ''id'' = field body ''executionId'')
    \<and> executions t' = executions t \<and> jobs t' = jobs t"
proof -
  obtain x where x: "x \<in> set (executions s1)" "exe_workspace x = tenant a" "exe_key x = Some (start_key env rq)" "field body ''executionId'' = Str (exe_id x)"
    using start_accepted [OF assms(1)] by blast
  have "moves executions_grow (start_execution env rq a)"
    using machine.moves_start [OF refl] executions_grow.each_steps by (fastforce simp: moves_def)
  then have "executions_ok s1" using assms(1,2) by (metis executions_grow_def movesD snd_conv)
  then have "started_as (tenant a) (start_key env rq) (exe_id x) s1" using x by (auto simp: started_as_def)
  from started_grows [OF this executions_grow.along_history]
  have "started_as (tenant a') (start_key env rq') (exe_id x) (saas_history env enc dec ops s1)" using assms(3,4) by simp
  from start_again [OF this] x(4) show ?thesis by (auto simp: Let_def split: prod.split sum.split)
qed

section \<open>Examples\<close>

definition demo_start :: http_request where
  "demo_start = demo_get\<lparr>hr_method := ''POST'', hr_chunks := [''{}'']\<rparr>"

definition demo_starter :: app_env where
  "demo_starter = demo_app\<lparr>parse_json := (\<lambda>_. Some (Obj [(''workflowId'', Str ''f1''), (''idempotencyKey'', Str ''k9'')]))\<rparr>"

lemma demo_body: "read_body demo_starter demo_start = Inr (Obj [(''workflowId'', Str ''f1''), (''idempotencyKey'', Str ''k9'')])"
  by (simp add: read_body_def demo_start_def demo_starter_def)

lemma demo_cleaned: "clean (Str ''f1'') 100 = ''f1''" "clean (Str ''k9'') 300 = ''k9''" "header demo_start ''idempotency-key'' = Undefined"
  by (simp add: clean_def, code_simp) (simp add: clean_def, code_simp, code_simp) 

lemma demo_tables: "executions demo_saas = [demo_execution]" "workflows demo_saas = [demo_workflow, demo_workflow\<lparr>wfl_id := ''f2'', wfl_workspace := ''w2''\<rparr>]"
  "jobs demo_saas = []" "map wsp_tenant (workspaces demo_saas) = [''w1'']"
  "versions demo_saas = [\<lparr>ver_id = ''v1'', ver_workflow = ''f1'', ver_number = 1, ver_definition = Obj [], ver_by = ''u0''\<rparr>]"
  by (simp_all add: demo_saas_def demo_accounts_def empty_db_def)

lemma demo_found: "find_workflow ''w1'' ''f1'' demo_saas = Some demo_workflow" "current_definition demo_saas ''f1'' 1 = Some (Obj [])"
  by (simp_all add: find_workflow_def current_definition_def demo_tables row0_def demo_workflow_def)

lemma demo_not_lost: "no_workspace ''w1'' demo_saas = False" "(\<forall>f \<in> set (workflows demo_saas). wfl_id f \<noteq> ''f1'') = False"
  using demo_tables(2,4) by (auto simp: no_workspace_def demo_workflow_def)

lemma demo_started: "\<exists>x t. start_execution demo_starter demo_start demo_auth demo_saas = (Inr (202, Obj [(''status'', Str ''queued''), (''executionId'', Str x)]), t)"
proof -
  have start: "start_execution demo_starter demo_start demo_auth demo_saas =
    enqueue_execution demo_starter demo_start demo_auth (Obj [(''workflowId'', Str ''f1''), (''idempotencyKey'', Str ''k9'')]) ''f1'' (demo_workflow, Obj []) demo_saas"
    using demo_found by (simp add: start_execution_def demo_body demo_cleaned Let_def bnd_run' demo_auth_def tenant_def nullish_def demo_workflow_def)
  have "(\<forall>f \<in> set (workflows demo_saas). wfl_id f \<noteq> ''f1'') = False" "no_workspace ''w1'' demo_saas = False" by (rule demo_not_lost)+
  then show ?thesis unfolding start
    by (simp add: enqueue_execution_def demo_workflow_def demo_cleaned bnd_run' Let_def insert_execution_def insert_job_def guarded_def new_execution_def
      demo_execution_def json_param_def demo_tables no_workspace_def demo_auth_def tenant_def js_or_def)
qed
lemma demo_saas_ok: "executions_ok demo_saas" "versions_ok (demo_saas\<lparr>workflows := [demo_workflow]\<rparr>)"
  by (simp_all add: executions_ok_def refs_ok_def versions_ok_def version_numbers_def demo_tables demo_workflow_def demo_execution_def new_execution_def)

theorem workflow_versions_are_permanent_witness:
  "versions_ok (saas_history demo_app (\<lambda>v. Inr []) (\<lambda>v. Inr []) [Request demo_start (Some demo_auth), Wait 1000, Turn] (demo_saas\<lparr>workflows := [demo_workflow]\<rparr>))"
  using workflow_versions_are_permanent [OF demo_saas_ok(2)] by blast

theorem executions_start_once_witness:
  "\<exists>body s1. start_execution demo_starter demo_start demo_auth demo_saas = (Inr (202, body), s1)
     \<and> jobs (snd (start_execution demo_starter demo_start demo_auth (saas_history demo_starter (\<lambda>v. Inr []) (\<lambda>v. Inr []) [Wait 1000, Turn] s1)))
       = jobs (saas_history demo_starter (\<lambda>v. Inr []) (\<lambda>v. Inr []) [Wait 1000, Turn] s1)"
proof -
  obtain x s1 where run: "start_execution demo_starter demo_start demo_auth demo_saas = (Inr (202, Obj [(''status'', Str ''queued''), (''executionId'', Str x)]), s1)"
    using demo_started by blast
  show ?thesis using executions_start_once [OF run demo_saas_ok(1) refl refl, where enc = "\<lambda>v. Inr []" and dec = "\<lambda>v. Inr []" and ops = "[Wait 1000, Turn]"] run
    by (auto simp: Let_def split: prod.splits)
qed

end
