(* ===== verification/WorkerProperties.thy ===== *)
theory WorkerProperties
  imports SaasHistories
begin

text \<open>
  What the worker guarantees: executions that have ended stay as they are, jobs are attempted a bounded
  number of times, and the queue drains.
\<close>

section \<open>Ended executions\<close>

text \<open>The rows of an execution and of its steps.\<close>

definition run_rows :: "string \<Rightarrow> saas_db \<Rightarrow> execution_row list \<times> step_row list" where
  "run_rows i s = (filter (\<lambda>x. exe_id x = i) (executions s), filter (\<lambda>p. stp_execution p = i) (steps s))"

lemma filter_update_other: "(\<And>x. P x \<Longrightarrow> \<not> Q x \<and> \<not> Q (f x)) \<Longrightarrow> filter Q (update_where P f xs) = filter Q xs"
  unfolding update_where_def by (induction xs) auto

lemma run_rows_step:
  assumes "db_step req w ji xi s t" "xi \<noteq> Some i" "i \<in> exe_id ` set (executions s)"
  shows "run_rows i t = run_rows i s"
  using assms
proof cases
  case (update_step k q l)
  then have "filter (\<lambda>p. stp_execution p = i) (update_where (step_at k l) q (steps s)) = filter (\<lambda>p. stp_execution p = i) (steps s)"
    using assms(2) by (intro filter_update_other) (auto simp: step_at_def same_place_def)
  then show ?thesis by (simp add: run_rows_def update_step)
next
  case (set_execution k e)
  then have "filter (\<lambda>x. exe_id x = i) (update_where (\<lambda>x. exe_id x = k) e (executions s)) = filter (\<lambda>x. exe_id x = i) (executions s)"
    using assms(2) by (intro filter_update_other) (auto simp: same_run_def)
  then show ?thesis by (simp add: run_rows_def set_execution)
qed (use assms(2,3) in \<open>auto simp: run_rows_def\<close>)

lemma run_ids_step:
  assumes "db_step req w ji xi s t" "i \<in> exe_id ` set (executions s)"
  shows "i \<in> exe_id ` set (executions t)"
  using assms
proof cases
  case (set_execution k e)
  then have "map exe_id (executions t) = map exe_id (executions s)" by (simp add: map_update_where same_run_def)
  from arg_cong [OF this, of set] show ?thesis using assms(2) by simp
qed (use assms(2) in auto)

lemma run_rows_steps:
  assumes "db_steps req w ji xi s t" "xi \<noteq> Some i" "i \<in> exe_id ` set (executions s)"
  shows "run_rows i t = run_rows i s \<and> i \<in> exe_id ` set (executions t)"
  using assms(1)
  by (induction rule: rtranclp_induct) (use assms(2,3) run_rows_step run_ids_step in auto)

lemma target_unfinished:
  assumes "target s j = Some i"
  shows "\<exists>y \<in> set (executions s). exe_id y = i \<and> \<not> finished y"
  using assms by (auto simp: target_def split: if_splits option.splits dest!: row0_filter)

lemma run_rows_op:
  assumes "executions_ok s" "x \<in> set (executions s)" "finished x"
  shows "run_rows (exe_id x) (do_saas env enc dec op s) = run_rows (exe_id x) s"
proof -
  have i: "exe_id x \<in> exe_id ` set (executions s)" using assms(2) by simp
  show ?thesis
  proof (cases op)
    case (Request rq who)
    then show ?thesis using request_steps [of s env enc rq who] run_rows_steps i by fastforce
  next
    case Turn
    show ?thesis
    proof (cases "next_job env s")
      case None
      then show ?thesis using Turn idle_turn by simp
    next
      case (Some j)
      have "target s j \<noteq> Some (exe_id x)"
      proof
        assume "target s j = Some (exe_id x)"
        then obtain y where y: "y \<in> set (executions s)" "exe_id y = exe_id x" "\<not> finished y" using target_unfinished by blast
        then have "y = x" using unique_row [of exe_id "executions s" y x] assms(1,2) by (simp add: executions_ok_def)
        then show False using y assms(3) by simp
      qed
      then show ?thesis using Turn run_rows_steps [OF machine_turn [OF Some]] i by simp
    qed
  qed (simp add: run_rows_def)
qed

text \<open>C9: Safety. Executions that completed or were cancelled are settled: along every history of requests, turns of the
  worker and passing time the execution and its steps stay as they are; no job runs it again.\<close>

theorem ended_executions_are_settled:
  assumes "executions_ok s" "x \<in> set (executions s)" "finished x"
  shows "run_rows (exe_id x) (saas_history env enc dec ops s) = run_rows (exe_id x) s"
proof -
  have "executions_ok t \<and> x \<in> set (executions t) \<and> run_rows (exe_id x) t = run_rows (exe_id x) s" if "t = saas_history env enc dec ops s" for t
    using that
  proof (induction ops arbitrary: t rule: rev_induct)
    case (snoc op ops)
    let ?s = "saas_history env enc dec ops s"
    have t: "t = do_saas env enc dec op ?s" using snoc.prems by (simp add: saas_history_def)
    have IH: "executions_ok ?s" "x \<in> set (executions ?s)" "run_rows (exe_id x) ?s = run_rows (exe_id x) s" using snoc.IH [OF refl] by simp_all
    have rows: "run_rows (exe_id x) t = run_rows (exe_id x) ?s" unfolding t by (rule run_rows_op [OF IH(1,2) assms(3)])
    have "filter (\<lambda>y. exe_id y = exe_id x) (executions t) = filter (\<lambda>y. exe_id y = exe_id x) (executions ?s)" using rows by (simp add: run_rows_def)
    from arg_cong [OF this, of set] have "x \<in> set (executions t)" using IH(2) by auto
    moreover have "executions_ok t" using executions_grow.each_op [of ?s] IH(1) unfolding t by (simp add: executions_grow_def)
    ultimately show ?case using rows IH(3) by simp
  qed (use assms in \<open>simp add: saas_history_def\<close>)
  then show ?thesis by blast
qed

section \<open>Errors\<close>

text \<open>Operations reject with exceptions only, when the world they call does.\<close>

definition is_exn :: "js_error \<Rightarrow> bool" where
  "is_exn e = (case e of Exn _ _ _ \<Rightarrow> True | Thrown _ \<Rightarrow> False)"

definition raises :: "('s, 'a) act \<Rightarrow> bool" where
  "raises m \<longleftrightarrow> (\<forall>s e t. m s = (Inl e, t) \<longrightarrow> is_exn e)"

definition exceptions_only :: "app_env \<Rightarrow> (jsval \<Rightarrow> js_error + string) \<Rightarrow> bool" where
  "exceptions_only env dec \<longleftrightarrow> (\<forall>n c e. net_answer env n c = Inl e \<longrightarrow> is_exn e) \<and> (\<forall>v e. pg_json env v = Inl e \<longrightarrow> is_exn e)
     \<and> (\<forall>v e. dec v = Inl e \<longrightarrow> is_exn e)"

lemma is_exn_simps [simp]: "is_exn (Exn n m ps)" "is_exn null_read_error" "is_exn (unique_violation c)" "is_exn (foreign_key_violation c)" "is_exn (provider_failure v d)"
  by (simp_all add: is_exn_def null_read_error_def unique_violation_def foreign_key_violation_def pg_error_def provider_failure_def)

lemma raises_basic [valid_intros]:
  "raises (ret a)" "is_exn e \<Longrightarrow> raises (throw e)" "raises (query f)" "raises (exec g)" "raises (draw h)" "raises (randomUUID env pre)"
  by (auto simp: raises_def randomUUID_def draw_def ret_def throw_def)

lemma raises_lift [valid_intros]: "(\<And>e. r = Inl e \<Longrightarrow> is_exn e) \<Longrightarrow> raises (lift r)"
  by (cases r) (simp_all add: raises_basic)

lemma raises_bnd [valid_intros]: "raises m \<Longrightarrow> (\<And>a. raises (k a)) \<Longrightarrow> raises (bnd m k)"
  unfolding raises_def bnd_def by (fastforce split: prod.splits sum.splits)

lemma raises_try [valid_intros]: "(\<And>e. raises (h e)) \<Longrightarrow> raises (try_catch m h)"
  unfolding raises_def try_catch_def by (fastforce split: prod.splits sum.splits)

lemma raises_try_exn: "raises m \<Longrightarrow> (\<And>e. is_exn e \<Longrightarrow> raises (h e)) \<Longrightarrow> raises (try_catch m h)"
  unfolding raises_def try_catch_def by (fastforce split: prod.splits sum.splits)

lemma raises_if [valid_intros]: "(b \<Longrightarrow> raises m) \<Longrightarrow> (\<not> b \<Longrightarrow> raises m') \<Longrightarrow> raises (if b then m else m')"
  by simp

lemma raises_Let [valid_intros]: "raises (f a) \<Longrightarrow> raises (let x = a in f x)"
  by simp

lemma raises_cases [valid_intros]:
  "raises n \<Longrightarrow> (\<And>x. raises (f x)) \<Longrightarrow> raises (case l of None \<Rightarrow> n | Some x \<Rightarrow> f x)"
  "(\<And>x y. raises (g x y)) \<Longrightarrow> raises (case p of (x, y) \<Rightarrow> g x y)"
  by (cases l, simp_all) (cases p, simp)

lemma raises_for_each [valid_intros]: "(\<And>x. raises (body x)) \<Longrightarrow> raises (for_each body xs)"
  by (induction xs) (auto intro!: raises_basic raises_bnd)

lemma first_error_exn: "\<lbrakk>first_error cs = Some e; \<forall>c \<in> set cs. is_exn (snd c)\<rbrakk> \<Longrightarrow> is_exn e"
  by (induction cs rule: first_error.induct) (auto split: if_splits)

lemma raises_guarded: "(\<And>s e. bad s = Some e \<Longrightarrow> is_exn e) \<Longrightarrow> raises (guarded bad f)"
  by (auto simp: raises_def guarded_def split: option.splits)

lemma raises_statements [valid_intros]:
  "raises (insert_notification n)" "raises (upsert_step p)" "raises (insert_record w type i v)" "raises (update_step i k q)" "raises (set_execution i e)"
  "raises (insert_execution x)" "raises (insert_job env w type v)" "raises (notify env w type title body data)"
proof -
  show n: "raises (insert_notification n)" for n unfolding insert_notification_def by (rule raises_guarded) (erule first_error_exn, simp)
  show "raises (upsert_step p)" unfolding upsert_step_def by (rule raises_guarded) (auto split: if_splits dest!: first_error_exn simp del: first_error.simps)
  show "raises (insert_record w type i v)" "raises (update_step i k q)" "raises (set_execution i e)"
    unfolding insert_record_def update_step_def set_execution_def by (rule raises_basic)+
  show "raises (insert_execution x)" unfolding insert_execution_def by (intro valid_intros raises_guarded) (erule first_error_exn, simp)
  show "raises (insert_job env w type v)" unfolding insert_job_def by (intro valid_intros raises_guarded) (erule first_error_exn, simp)
  show "raises (notify env w type title body data)" unfolding notify_def by (intro valid_intros n)
qed

lemma condition_exn: "conditionPass c x = Inl e \<Longrightarrow> is_exn e"
  by (auto simp: conditionPass_def Let_def split: if_splits)

lemma decrypt_exn: "\<forall>v e. dec v = Inl e \<longrightarrow> is_exn e \<Longrightarrow> decrypt_fields dec fs = Inl e \<Longrightarrow> is_exn e"
  by (induction fs) (auto split: sum.splits simp: map_sum_def)

lemma raises_run_job:
  assumes "exceptions_only env dec"
  shows "raises (run_job env dec j)"
proof -
  have f: "raises (fetch env c)" for c using assms by (auto simp: raises_def fetch_def exceptions_only_def)
  have j: "json_param env v = Inl e \<Longrightarrow> is_exn e" for v e using assms by (auto simp: json_param_def exceptions_only_def split: if_splits)
  have s: "stored_credentials dec i = Inl e \<Longrightarrow> is_exn e" for i e
    using assms decrypt_exn [of dec] by (auto simp: stored_credentials_def exceptions_only_def map_sum_def split: sum.splits)
  have u: "validateUrl env v = Inl e \<Longrightarrow> is_exn e" for v e by (auto simp: validateUrl_def split: option.splits prod.splits if_splits)
  have c: "raises (credentials dec w p)" for w p unfolding credentials_def by (intro valid_intros) (auto dest: s)
  have 1: "raises (sendResendEmail env dec w a b d e)" for w a b d e unfolding sendResendEmail_def Let_def by (intro valid_intros c f) simp_all
  have 2: "raises (verifyPaystack env dec w a)" for w a unfolding verifyPaystack_def Let_def by (intro valid_intros c f) simp_all
  have 3: "raises (createStripeCustomer env dec w a b d)" for w a b d unfolding createStripeCustomer_def Let_def by (intro valid_intros c f) simp_all
  have 4: "raises (createGoogleCalendarEvent env dec w a b d e f g)" for w a b d e f g unfolding createGoogleCalendarEvent_def Let_def by (intro valid_intros c \<open>\<And>c. raises (fetch env c)\<close>) simp_all
  have 5: "raises (sendWhatsAppMessage env a b d)" for a b d unfolding sendWhatsAppMessage_def Let_def by (intro valid_intros f) simp_all
  have 6: "raises (whatsapp_action env dec w a)" for w a unfolding whatsapp_action_def by (intro valid_intros 5) (auto dest: s)
  have 7: "raises (sendOutboundWebhook env a b d e)" for a b d e unfolding sendOutboundWebhook_def by (intro valid_intros f) (auto dest: u)
  have act: "raises (executeAction env dec w i st x)" for w i st x unfolding executeAction_def Let_def by (intro valid_intros 1 2 3 4 6 7) simp_all
  have perf: "raises (perform_step env dec w i k st x)" for w i k st x unfolding perform_step_def Let_def by (intro valid_intros act) (auto dest: condition_exn j)
  have fail: "raises (fail_step i k e :: (saas_db, jsval \<times> bool) act)" if "is_exn e" for i k e
    using that unfolding fail_step_def by (intro valid_intros) (auto simp: is_exn_def split: js_error.splits)
  have steps: "raises (run_steps env dec w i n xs x)" for w i n xs x
  proof (induction xs arbitrary: n x)
    case (Cons y ys)
    have "raises (try_catch (perform_step env dec w i k y x) (fail_step i k))" for k by (intro raises_try_exn perf fail)
    then have "raises (run_workflow_step env dec w i n y x)" for n unfolding run_workflow_step_def Let_def
      by (intro raises_if raises_bnd raises_statements raises_basic raises_lift) (auto dest: j)
    then show ?case unfolding run_steps.simps by (intro valid_intros Cons.IH)
  qed (simp add: raises_basic)
  have "raises (execute_workflow env dec w p)" for w p unfolding execute_workflow_def by (intro valid_intros steps) (auto dest: j)
  moreover have "raises (start_triggered env w e fd)" for w e fd unfolding start_triggered_def by (intro valid_intros) (auto dest: j)
  then have "raises (process_event env w p)" for w p unfolding process_event_def by (intro valid_intros)
  ultimately show ?thesis unfolding run_job_def Let_def by (intro valid_intros)
qed

section \<open>The outcome of a turn\<close>

text \<open>Running an execution leaves jobs, workflows and events alone; an event adds at most a job for each published workflow.\<close>

definition unqueued :: "saas_db \<Rightarrow> saas_db \<Rightarrow> bool" where
  "unqueued s t \<longleftrightarrow> jobs t = jobs s \<and> workflows t = workflows s \<and> versions t = versions s \<and> now t = now s"

interpretation unqueued: run_change unqueued w i for w i
  by unfold_locales (simp_all add: unqueued_def now_def)

definition fresh_job :: "saas_db \<Rightarrow> job_row \<Rightarrow> bool" where
  "fresh_job s j \<longleftrightarrow> job_type j = ''workflow.execute'' \<and> job_status j = ''queued'' \<and> job_attempts j = 0 \<and> job_max j = 3 \<and> job_run_at j = now s"

definition spawned :: "nat \<Rightarrow> saas_db \<Rightarrow> saas_db \<Rightarrow> bool" where
  "spawned n s t \<longleftrightarrow> (\<exists>js. jobs t = jobs s @ js \<and> length js \<le> n \<and> (\<forall>j \<in> set js. fresh_job s j)
     \<and> (distinct (map job_id (jobs s)) \<longrightarrow> distinct (map job_id (jobs t)))) \<and> workflows t = workflows s \<and> versions t = versions s \<and> now t = now s"

lemma spawned_quiet: "unqueued s t \<Longrightarrow> spawned n s t"
  by (simp add: unqueued_def spawned_def)

lemma spawned_compose:
  assumes "spawned n s t" "spawned m t v" shows "spawned (n + m) s v"
proof -
  obtain js js' where "jobs t = jobs s @ js" "length js \<le> n" "\<forall>j \<in> set js. fresh_job s j" "distinct (map job_id (jobs s)) \<longrightarrow> distinct (map job_id (jobs t))"
    "jobs v = jobs t @ js'" "length js' \<le> m" "\<forall>j \<in> set js'. fresh_job t j" "distinct (map job_id (jobs t)) \<longrightarrow> distinct (map job_id (jobs v))"
    using assms unfolding spawned_def by metis
  moreover have "now t = now s" using assms by (simp add: spawned_def)
  ultimately show ?thesis using assms unfolding spawned_def
    by (intro conjI exI [of _ "js @ js'"]) (auto simp: fresh_job_def)
qed

lemma spawned_start: "spawned 1 s (snd (start_triggered env w e fd s))"
proof -
  obtain f d where fd: "fd = (f, d)" by fastforce
  have exe: "unqueued s (snd (insert_execution x s))" for s x by (simp add: unqueued_def insert_execution_def bnd_run' guarded_def now_def split: option.split)
  have job: "spawned 1 s (snd (insert_job env w ''workflow.execute'' v s))" for s v
  proof (cases "insert_job env w ''workflow.execute'' v s")
    case (Pair r t)
    let ?j = "\<lparr>job_id = ''job_'' @ random_uuid env (draws s), job_workspace = w, job_type = ''workflow.execute'', job_payload = to_json v, job_status = ''queued'',
              job_attempts = 0, job_max = 3, job_run_at = now s, job_error = None\<rparr>"
    from Pair have "t = s\<lparr>draws := Suc (draws s)\<rparr> \<or> job_id ?j \<notin> job_id ` set (jobs s) \<and> t = s\<lparr>draws := Suc (draws s), jobs := jobs s @ [?j]\<rparr>"
      by (cases r) (auto simp: insert_job_def bnd_run' guarded_Inr guarded_Inl first_error_None now_def simp del: first_error.simps)
    then show ?thesis using Pair by (auto simp: spawned_def fresh_job_def now_def)
  qed
  show ?thesis
  proof (cases "json_param env (evt_payload e)")
    case (Inr input)
    let ?x = "new_execution (''execution_'' @ random_uuid env (draws s)) w (wfl_id f) (wfl_version f) ''webhook'' None input (now s)"
    obtain r t where ins: "insert_execution ?x (s\<lparr>draws := Suc (draws s)\<rparr>) = (r, t)" by fastforce
    have q: "unqueued s t" using exe [of "s\<lparr>draws := Suc (draws s)\<rparr>" ?x] ins by (simp add: unqueued_def now_def)
    show ?thesis
    proof (cases "triggered d")
      case True
      show ?thesis
      proof (cases r)
        case (Inl er)
        then show ?thesis using True Inr ins spawned_quiet [OF q] by (simp add: fd start_triggered_def bnd_run' now_def)
      next
        case (Inr b)
        have "spawned (0 + 1) s (snd (insert_job env w ''workflow.execute'' (Obj [(''executionId'', Str (exe_id ?x)), (''definition'', d)]) t))"
          by (rule spawned_compose [OF spawned_quiet [OF q] job])
        then show ?thesis using True Inr \<open>json_param env (evt_payload e) = Inr input\<close> ins by (simp add: fd start_triggered_def bnd_run' now_def new_execution_def)
      qed
    qed (simp add: fd start_triggered_def spawned_def)
  qed (simp add: fd start_triggered_def bnd_run' spawned_def now_def)
qed

lemma spawned_start_all: "spawned (length fs) s (snd (for_each (start_triggered env w e) fs s))"
proof (induction fs arbitrary: s)
  case (Cons fd fs)
  obtain r t where r: "start_triggered env w e fd s = (r, t)" by fastforce
  have 1: "spawned 1 s t" using spawned_start [of s env w e fd] r by simp
  show ?case
  proof (cases r)
    case (Inl er)
    have "spawned (1 + length fs) s t" by (rule spawned_compose [OF 1 spawned_quiet]) (simp add: unqueued_def)
    then show ?thesis using Inl r by (simp add: bnd_run')
  next
    case (Inr u)
    have "spawned (1 + length fs) s (snd (for_each (start_triggered env w e) fs t))" by (rule spawned_compose [OF 1 Cons.IH])
    then show ?thesis using Inr r by (cases "for_each (start_triggered env w e) fs t"; cases "fst (for_each (start_triggered env w e) fs t)") (simp_all add: bnd_run')
  qed
qed (simp add: spawned_def)

definition spawns :: "job_row \<Rightarrow> saas_db \<Rightarrow> nat" where
  "spawns j s = (if job_type j = ''event.process'' then length (published_workflows (job_workspace j) s) else 0)"

lemma at_query_option:
  "P (snd (n s)) \<Longrightarrow> (\<And>x. P (snd (k x s))) \<Longrightarrow> P (snd (bnd (query f) (\<lambda>r. case r of None \<Rightarrow> n | Some x \<Rightarrow> k x) s))"
  by (cases "f s") (simp_all add: bnd_run')

lemma spawned_run: "spawned (spawns j s) s (snd (run_job env dec j s))"
proof -
  have "moves unqueued (execute_workflow env dec w p)" for w p
    unfolding execute_workflow_def by (intro valid_intros unqueued.moves_found_execution)
  then have exe: "spawned n s (snd (execute_workflow env dec w p s))" for n w p by (simp add: moves_def spawned_quiet)
  have event: "spawned (length (published_workflows w s)) s (snd (process_event env w p s))" for w p
  proof -
    have each: "spawned (length (published_workflows w s)) s (snd (bnd (query (published_workflows w)) (\<lambda>fs. bnd (for_each (start_triggered env w e) fs) (\<lambda>_.
         exec (\<lambda>s. s\<lparr>events := update_where (\<lambda>x. evt_id x = evt_id e) (\<lambda>x. x\<lparr>evt_status := ''processed''\<rparr>) (events s)\<rparr>))) s))" for e
    proof -
      obtain r t where r: "for_each (start_triggered env w e) (published_workflows w s) s = (r, t)" by fastforce
      have st: "spawned (length (published_workflows w s)) s t" using spawned_start_all [of "published_workflows w s" s env w e] r by simp
      have "spawned (length (published_workflows w s) + 0) s (t\<lparr>events := x\<rparr>)" for x
        by (rule spawned_compose [OF st spawned_quiet]) (simp add: unqueued_def now_def)
      then show ?thesis using st by (cases r) (simp_all add: bnd_run' r)
    qed
    show ?thesis unfolding process_event_def
      by (rule at_query_option [where P = "spawned (length (published_workflows w s)) s"]) (simp add: spawned_def, rule each)
  qed
  have idle: "spawned n s s" for n by (simp add: spawned_def)
  show ?thesis using exe event idle by (simp add: run_job_def Let_def spawns_def)
qed

definition claimed :: "job_row \<Rightarrow> job_row" where
  "claimed j = j\<lparr>job_status := ''running'', job_attempts := job_attempts j + 1\<rparr>"

text \<open>What becomes of a job in its turn: it completes, or it is given back for another attempt or for good.\<close>

definition turned :: "saas_db \<Rightarrow> job_row \<Rightarrow> job_row \<Rightarrow> bool" where
  "turned s j k \<longleftrightarrow> k = (claimed j)\<lparr>job_status := ''completed''\<rparr> \<or> (\<exists>m. k = give_back (Some (claimed j)) m s (claimed j))"

definition replace_job :: "job_row \<Rightarrow> job_row \<Rightarrow> job_row list \<Rightarrow> job_row list" where
  "replace_job j k js = map (\<lambda>x. if job_id x = job_id j then k else x) js"

lemma job_failed_jobs:
  assumes "is_exn e"
  shows "\<exists>m. jobs (snd (job_failed env j e s)) = update_where (\<lambda>x. job_id x = job_id j) (give_back (find_job (job_id j) s) m s) (jobs s)
    \<and> workflows (snd (job_failed env j e s)) = workflows s \<and> versions (snd (job_failed env j e s)) = versions s \<and> now (snd (job_failed env j e s)) = now s"
proof -
  obtain m v where m: "error_or_message e = Inr m" "message_of e = Inr v" using assms by (cases e) (auto simp: error_or_message_def is_exn_def)
  have told: "moves unqueued (notify env w type title body data)" for w type title body data by (rule unqueued.moves_notify)
  have fail: "moves unqueued (fail_execution i v)" for i v unfolding fail_execution_def by (rule moves_exec) (simp add: unqueued_def now_def)
  let ?s = "snd (update_job (job_id j) (give_back (find_job (job_id j) s) m) s)"
  have quiet_rest: "moves unqueued (if gives_up c \<and> b then bnd (lift (message_of e)) (\<lambda>v. bnd (fail_execution i v) (\<lambda>_. bnd (notify env w type title body (d v)) (\<lambda>_. ret ()))) else ret ())"
    for c b i w type title body and d :: "jsval \<Rightarrow> jsval"
    by (intro unqueued.moves_if unqueued.moves_bnd unqueued.moves_lift unqueued.moves_ret told fail)
  have "job_failed env j e s = (if gives_up (find_job (job_id j) s) \<and> job_type j = ''workflow.execute'' \<and> truthy (field (job_payload j) ''executionId'') then
       bnd (lift (message_of e)) (\<lambda>v. bnd (fail_execution (field (job_payload j) ''executionId'') v) (\<lambda>_.
       bnd (notify env (job_workspace j) ''workflow.failure'' ''Workflow failed'' ''A workflow execution failed after retries''
              (Obj [(''executionId'', field (job_payload j) ''executionId''), (''error'', v)])) (\<lambda>_. ret ()))) else ret ()) ?s"
    by (simp only: job_failed_def bnd_run' [of "query _"] query_run prod.case sum.case m(1) lift_simps bnd_ret_left update_job_def bnd_run' [of "exec _"] exec_run snd_conv)
  then have "unqueued ?s (snd (job_failed env j e s))" by (simp only: movesD [OF quiet_rest])
  then show ?thesis by (intro exI [of _ m]) (simp add: unqueued_def update_job_def now_def)
qed

lemma update_replaced:
  assumes "distinct (map job_id js)" "j \<in> set js" "\<And>x. job_id (g x) = job_id x" "\<And>x. job_id (h x) = job_id x"
  shows "update_where (\<lambda>x. job_id x = job_id j) h (update_where (\<lambda>x. job_id x = job_id j) g js) = replace_job j (h (g j)) js"
proof -
  have "x = j" if "x \<in> set js" "job_id x = job_id j" for x using unique_row [OF assms(1) that(1) assms(2) that(2)] .
  then show ?thesis using assms(3,4) by (auto simp: update_where_def replace_job_def)
qed

lemma turn_outcome:
  assumes "next_job env s = Some j" "exceptions_only env dec" "distinct (map job_id (jobs s))" "t = snd (worker_turn env dec s)"
  shows "\<exists>k js. jobs t = replace_job j k (jobs s) @ js \<and> turned s j k \<and> length js \<le> spawns j s \<and> (\<forall>x \<in> set js. fresh_job s x)
    \<and> distinct (map job_id (jobs t)) \<and> workflows t = workflows s \<and> versions t = versions s \<and> now t = now s"
proof -
  have j: "j \<in> set (jobs s)" using assms(1) by (auto simp: next_job_def dest: row0_in)
  let ?P = "\<lambda>x. job_id x = job_id j"
  let ?s = "s\<lparr>jobs := update_where ?P claimed (jobs s)\<rparr>"
  obtain r t1 where run: "run_job env dec (claimed j) ?s = (r, t1)" by fastforce
  have spawns: "spawns (claimed j) ?s = spawns j s" by (simp add: spawns_def published_workflows_def claimed_def)
  have "spawned (spawns j s) ?s t1" using spawned_run [of "claimed j" ?s env dec] run spawns by simp
  then obtain js where js: "jobs t1 = jobs ?s @ js" "length js \<le> spawns j s" "\<forall>x \<in> set js. fresh_job ?s x"
    and d: "distinct (map job_id (jobs ?s)) \<longrightarrow> distinct (map job_id (jobs t1))"
    and frame: "workflows t1 = workflows s" "versions t1 = versions s" "now t1 = now s" by (auto simp: spawned_def now_def)
  have ids: "map job_id (update_where ?P claimed (jobs s)) = map job_id (jobs s)" by (rule map_update_where) (simp add: claimed_def)
  have d1: "distinct (map job_id (jobs t1))" using d ids assms(3) by simp
  have "claimed j \<in> set (jobs ?s)" using j update_whereI [OF j, of ?P claimed] by simp
  then have cj: "claimed j \<in> set (jobs t1)" using js(1) by simp
  have "job_id j \<in> job_id ` set (jobs ?s)" using imageI [OF \<open>claimed j \<in> set (jobs ?s)\<close>, of job_id] by (simp add: claimed_def)
  moreover have "job_id ` set (jobs ?s) \<inter> job_id ` set js = {}" using d1 js(1) by simp
  ultimately have fresh: "\<not> ?P x" if "x \<in> set js" for x using imageI [OF that, of job_id] by auto
  have found: "find_job (job_id j) t1 = Some (claimed j)"
  proof -
    have "x = claimed j" if "x \<in> set (jobs t1)" "?P x" for x
      using unique_row [OF d1 that(1) cj] that(2) by (simp add: claimed_def)
    moreover have "claimed j \<in> set (filter ?P (jobs t1))" using cj by (simp add: claimed_def)
    then have "filter ?P (jobs t1) \<noteq> []" by (metis empty_iff list.set(1))
    ultimately show ?thesis unfolding find_job_def by (cases "filter ?P (jobs t1)") (auto dest!: filter_eq_ConsD)
  qed
  have final: "jobs v = replace_job j (h (claimed j)) (jobs s) @ js \<and> distinct (map job_id (jobs v))"
    if "jobs v = update_where ?P h (jobs t1)" "\<And>x. job_id (h x) = job_id x" for v h
  proof -
    have "update_where ?P h js = js" using fresh by simp
    then have "jobs v = replace_job j (h (claimed j)) (jobs s) @ js"
      using that js(1) update_replaced [OF assms(3) j, of claimed h] by (simp add: update_where_def claimed_def)
    moreover have "map job_id (jobs v) = map job_id (jobs t1)" unfolding that(1) by (rule map_update_where) (rule that(2))
    ultimately show ?thesis using d1 by simp
  qed
  have turn: "t = snd (processJob env dec (claimed j) ?s)"
    using assms(1,4) by (auto simp: worker_turn_def try_catch_def bnd_run' update_job_def claimed_def [abs_def] split: prod.split sum.split)
  have fresh': "\<forall>x \<in> set js. fresh_job s x" using js(3) by (simp add: fresh_job_def now_def)
  show ?thesis
  proof (cases r)
    case (Inr u)
    then have "t = t1\<lparr>jobs := update_where ?P (\<lambda>x. x\<lparr>job_status := ''completed''\<rparr>) (jobs t1)\<rparr>"
      using run turn by (simp add: processJob_def try_catch_def bnd_run' complete_job_def update_job_def claimed_def)
    then have "jobs t = update_where ?P (\<lambda>x. x\<lparr>job_status := ''completed''\<rparr>) (jobs t1)"
      and rest: "workflows t = workflows s \<and> versions t = versions s \<and> now t = now s" using frame by (simp_all add: now_def)
    have "jobs t = replace_job j ((claimed j)\<lparr>job_status := ''completed''\<rparr>) (jobs s) @ js \<and> distinct (map job_id (jobs t))"
      by (rule final [OF \<open>jobs t = _\<close>]) simp
    then show ?thesis using js(2) fresh' rest unfolding turned_def by blast
  next
    case (Inl e)
    have "is_exn e" using raises_run_job [OF assms(2), of "claimed j"] run Inl by (auto simp: raises_def)
    have t: "t = snd (job_failed env (claimed j) e t1)" using run turn Inl by (simp add: processJob_def try_catch_def bnd_run')
    from job_failed_jobs [OF \<open>is_exn e\<close>, of env "claimed j" t1] obtain m where
      m: "jobs t = update_where ?P (give_back (Some (claimed j)) m t1) (jobs t1)" and "workflows t = workflows s" "versions t = versions s" "now t = now s"
      using found frame unfolding t by (auto simp: claimed_def)
    have rows: "jobs t = replace_job j (give_back (Some (claimed j)) m t1 (claimed j)) (jobs s) @ js \<and> distinct (map job_id (jobs t))"
      by (rule final [OF m]) (simp add: give_back_def)
    have same: "give_back (Some (claimed j)) m t1 (claimed j) = give_back (Some (claimed j)) m s (claimed j)" using frame by (simp add: give_back_def)
    have "jobs t = replace_job j (give_back (Some (claimed j)) m s (claimed j)) (jobs s) @ js \<and> distinct (map job_id (jobs t))"
      using rows unfolding same .
    then show ?thesis using js(2) fresh' \<open>workflows t = workflows s\<close> \<open>versions t = versions s\<close> \<open>now t = now s\<close> unfolding turned_def by blast
  qed
qed

theorem ended_executions_are_settled_witness:
  "let s = demo_saas\<lparr>executions := [demo_execution\<lparr>exe_status := ''completed''\<rparr>]\<rparr> in
     run_rows ''x1'' (saas_history demo_app (\<lambda>v. Inr []) (\<lambda>v. Inr []) [Request demo_get (Some demo_auth), Wait 1000, Turn] s) = run_rows ''x1'' s"
proof -
  let ?x = "demo_execution\<lparr>exe_status := ''completed''\<rparr>"
  have "executions_ok (demo_saas\<lparr>executions := [?x]\<rparr>)" using demo_saas_ok(1) by (simp add: executions_ok_def refs_ok_def demo_tables)
  from ended_executions_are_settled [OF this, of ?x] show ?thesis
    by (simp add: finished_def Let_def demo_execution_def new_execution_def)
qed

end
