(* ===== verification/WorkerQueue.thy ===== *)
theory WorkerQueue
  imports WorkerProperties
begin

text \<open>
  The queue of jobs: no job is attempted more often than it may be, ended jobs stay as they are, and
  the worker empties the queue.
\<close>

section \<open>Bounded attempts\<close>

definition attempts_ok :: "job_row \<Rightarrow> bool" where
  "attempts_ok j \<longleftrightarrow> 0 \<le> job_attempts j \<and> 1 \<le> job_max j \<and> job_attempts j \<le> job_max j \<and> (job_status j = ''queued'' \<longrightarrow> job_attempts j < job_max j)"

definition jobs_ok :: "saas_db \<Rightarrow> bool" where
  "jobs_ok s \<longleftrightarrow> distinct (map job_id (jobs s)) \<and> (\<forall>j \<in> set (jobs s). attempts_ok j \<and> job_run_at j \<le> now s + max_delay * 1000)"

lemma attempts_ok_claim: "attempts_ok j \<Longrightarrow> job_status j = ''queued'' \<Longrightarrow> attempts_ok (j\<lparr>job_status := ''running'', job_attempts := job_attempts j + 1\<rparr>)"
  by (simp add: attempts_ok_def)

lemma attempts_ok_give_back: "attempts_ok j \<Longrightarrow> attempts_ok (give_back (Some j) m s j)"
  by (auto simp: attempts_ok_def give_back_def gives_up_def attempts_allowed_def tries_made_def split: if_splits)

lemma retry_delay_bounds: "0 \<le> retry_delay c" "retry_delay c \<le> max_delay * 1000"
  by (simp_all add: retry_delay_def max_delay_def)

lemma find_job_in:
  assumes "distinct (map job_id (jobs s))" "j \<in> set (jobs s)"
  shows "find_job (job_id j) s = Some j"
proof -
  have "x = j" if "x \<in> set (jobs s)" "job_id x = job_id j" for x using unique_row [OF assms(1) that(1) assms(2) that(2)] .
  moreover have "j \<in> set (filter (\<lambda>x. job_id x = job_id j) (jobs s))" using assms(2) by simp
  then have "filter (\<lambda>x. job_id x = job_id j) (jobs s) \<noteq> []" by (metis empty_iff list.set(1))
  ultimately show ?thesis unfolding find_job_def by (cases "filter (\<lambda>x. job_id x = job_id j) (jobs s)") (auto dest!: filter_eq_ConsD)
qed

lemma jobs_ok_update:
  assumes "jobs_ok s" "\<And>j. job_id (g j) = job_id j" "\<And>j. j \<in> set (jobs s) \<Longrightarrow> job_id j = i \<Longrightarrow> attempts_ok (g j) \<and> job_run_at (g j) \<le> now s + max_delay * 1000"
  shows "jobs_ok (s\<lparr>jobs := update_where (\<lambda>x. job_id x = i) g (jobs s)\<rparr>)"
proof -
  have ids: "map job_id (update_where (\<lambda>x. job_id x = i) g (jobs s)) = map job_id (jobs s)" by (rule map_update_where) (rule assms(2))
  have "attempts_ok j \<and> job_run_at j \<le> now s + max_delay * 1000" if "j \<in> set (update_where (\<lambda>x. job_id x = i) g (jobs s))" for j
    using that assms(1,3) by (auto simp: set_update_where jobs_ok_def split: if_splits)
  then show ?thesis using assms(1) unfolding jobs_ok_def by (simp add: ids now_def del: set_map)
qed

definition jobs_bounded :: "saas_db \<Rightarrow> saas_db \<Rightarrow> bool" where
  "jobs_bounded s t \<longleftrightarrow> (jobs_ok s \<longrightarrow> jobs_ok t)"

lemma jobs_bounded_same: "jobs t = jobs s \<Longrightarrow> now t = now s \<Longrightarrow> jobs_bounded s t"
  by (simp add: jobs_bounded_def jobs_ok_def)

interpretation jobs_bounded: history_relation jobs_bounded
proof unfold_locales
  show "jobs_bounded s t" if "db_step req w ji xi s t" for req w ji xi s t
    using that
  proof cases
    case (add_job j)
    then show ?thesis using retry_delay_bounds by (auto simp: jobs_bounded_def jobs_ok_def attempts_ok_def now_def max_delay_def)
  next
    case (claim i j)
    have "jobs_ok t" if "jobs_ok s" unfolding claim(1)
    proof (rule jobs_ok_update [OF that])
      fix x
      assume x: "x \<in> set (jobs s)" "job_id x = i"
      then have "x = j" using unique_row [of job_id "jobs s" x j] that claim by (simp add: jobs_ok_def)
      then show "attempts_ok (x\<lparr>job_status := ''running'', job_attempts := job_attempts x + 1\<rparr>)
        \<and> job_run_at (x\<lparr>job_status := ''running'', job_attempts := job_attempts x + 1\<rparr>) \<le> now s + max_delay * 1000"
        using that claim x attempts_ok_claim by (auto simp: jobs_ok_def due_def)
    qed simp
    then show ?thesis by (simp add: jobs_bounded_def)
  next
    case (complete_job i)
    have "jobs_ok t" if "jobs_ok s" unfolding complete_job(1)
      by (rule jobs_ok_update [OF that]) (use that in \<open>auto simp: jobs_ok_def attempts_ok_def\<close>)
    then show ?thesis by (simp add: jobs_bounded_def)
  next
    case (give_back i m)
    have "jobs_ok t" if "jobs_ok s" unfolding give_back(1)
    proof (rule jobs_ok_update [OF that])
      fix x
      assume x: "x \<in> set (jobs s)" "job_id x = i"
      then have "find_job i s = Some x" using find_job_in [of s x] that by (simp add: jobs_ok_def)
      then show "attempts_ok (JobWorker.give_back (find_job i s) m s x) \<and> job_run_at (JobWorker.give_back (find_job i s) m s x) \<le> now s + max_delay * 1000"
        using attempts_ok_give_back that x retry_delay_bounds(2) by (auto simp: jobs_ok_def give_back_def)
    qed (simp add: give_back_def)
    then show ?thesis by (simp add: jobs_bounded_def)
  qed (simp_all add: jobs_bounded_same now_def)
next
  show "jobs_bounded s (s\<lparr>records := (records s)\<lparr>pg_now := pg_now (records s) + int d\<rparr>, app_now := app_now s + int d\<rparr>)" for s d
    unfolding jobs_bounded_def jobs_ok_def now_def by (auto intro: order_trans)
qed (simp_all add: jobs_bounded_def)

section \<open>Ended jobs\<close>

lemma job_row_step:
  assumes "db_step req w ji xi s t" "ji \<noteq> Some (job_id j)" "j \<in> set (jobs s)"
  shows "j \<in> set (jobs t)"
  using assms by cases (auto simp: set_update_where image_iff now_def)

lemma job_row_steps:
  assumes "db_steps req w ji xi s t" "ji \<noteq> Some (job_id j)" "j \<in> set (jobs s)"
  shows "j \<in> set (jobs t)"
  using assms(1) by (induction rule: rtranclp_induct) (use assms(2,3) job_row_step in auto)

lemma job_row_op:
  assumes "jobs_ok s" "j \<in> set (jobs s)" "job_status j \<noteq> ''queued''"
  shows "j \<in> set (jobs (do_saas env enc dec op s))"
proof (cases op)
  case (Request rq who)
  then show ?thesis using request_steps [of s env enc rq who] job_row_steps assms(2) by fastforce
next
  case Turn
  show ?thesis
  proof (cases "next_job env s")
    case (Some k)
    then have k: "k \<in> set (jobs s)" "job_status k = ''queued''" by (auto simp: next_job_def due_def dest!: row0_in)
    then have "job_id k \<noteq> job_id j" using unique_row [of job_id "jobs s" k j] assms by (auto simp: jobs_ok_def)
    then show ?thesis using Turn job_row_steps [OF machine_turn [OF Some]] assms(2) by simp
  qed (use Turn idle_turn assms(2) in simp)
qed (use assms(2) in simp)

text \<open>C11: Bounds. The worker's queue: along every history of requests, turns of the worker and passing time no job is
  attempted more often than its maximum or scheduled more than five minutes ahead, and the row of a job that is not queued stays as it
  is: a job that completed or failed is never taken again.\<close>

theorem jobs_are_attempted_boundedly:
  assumes "jobs_ok s"
  shows "jobs_ok (saas_history env enc dec ops s)
    \<and> (\<forall>j \<in> set (jobs s). job_status j \<noteq> ''queued'' \<longrightarrow> j \<in> set (jobs (saas_history env enc dec ops s)))"
proof -
  have "jobs_ok (saas_history env enc dec ops s) \<and> j \<in> set (jobs (saas_history env enc dec ops s))" if "j \<in> set (jobs s)" "job_status j \<noteq> ''queued''" for j
    using assms that(1)
  proof (induction ops arbitrary: s)
    case (Cons op ops)
    have "jobs_ok (do_saas env enc dec op s)" using jobs_bounded.each_op [of s] Cons.prems(1) by (simp add: jobs_bounded_def)
    then show ?case using Cons.IH job_row_op [OF Cons.prems that(2)] by (simp add: saas_history_def)
  qed (simp add: saas_history_def)
  then show ?thesis using jobs_bounded.along_history [of s] assms by (auto simp: jobs_bounded_def)
qed

section \<open>The queue drains\<close>

text \<open>What an event can still cause: an execution for every published version, each attempted three times at most.\<close>

definition fan_out :: "saas_db \<Rightarrow> nat" where
  "fan_out s = length (workflows s) * length (versions s)"

definition job_cost :: "nat \<Rightarrow> job_row \<Rightarrow> nat" where
  "job_cost n j = (if job_status j = ''queued'' then nat (job_max j - job_attempts j) * (if job_type j = ''event.process'' then 3 * n + 1 else 1) else 0)"

definition queue_cost :: "saas_db \<Rightarrow> nat" where
  "queue_cost s = sum_list (map (job_cost (fan_out s)) (jobs s))"

definition drained :: "saas_db \<Rightarrow> bool" where
  "drained s \<longleftrightarrow> (\<forall>j \<in> set (jobs s). job_status j \<noteq> ''queued'')"

lemma length_concat_le: "(\<And>x. length (f x) \<le> n) \<Longrightarrow> length (concat (map f xs)) \<le> length xs * n"
  by (induction xs) (auto intro: add_mono)

lemma published_le: "length (published_workflows w s) \<le> fan_out s"
proof -
  have "length (concat (map (\<lambda>v. if P v then [h v] else []) vs)) \<le> length vs" for P and h :: "version_row \<Rightarrow> workflow_row \<times> jsval" and vs
    by (induction vs) auto
  then show ?thesis unfolding published_workflows_def fan_out_def by (intro length_concat_le)
qed

lemma sum_replace_job:
  fixes f :: "job_row \<Rightarrow> nat"
  assumes "distinct (map job_id js)" "j \<in> set js"
  shows "sum_list (map f (replace_job j k js)) + f j = sum_list (map f js) + f k"
  using assms
proof (induction js)
  case (Cons x xs)
  show ?case
  proof (cases "x = j")
    case True
    then have "job_id y \<noteq> job_id j" if "y \<in> set xs" for y using Cons.prems(1) True imageI [OF that, of job_id] by (metis distinct.simps(2) list.simps(9) set_map)
    then have "map (\<lambda>y. if job_id y = job_id j then k else y) xs = xs" by (intro map_idI) simp
    then show ?thesis using True by (simp add: replace_job_def)
  next
    case False
    then have "j \<in> set xs" using Cons.prems by simp
    then have "job_id x \<noteq> job_id j" using Cons.prems(1) imageI [of j "set xs" job_id] by auto
    then show ?thesis using Cons False by (simp add: replace_job_def)
  qed
qed simp

lemma fresh_costs: "\<forall>x \<in> set js. fresh_job s x \<Longrightarrow> sum_list (map (job_cost n) js) = 3 * length js"
  by (induction js) (simp_all add: job_cost_def fresh_job_def)

lemma turned_cost:
  assumes "turned s j k" "attempts_ok j" "job_status j = ''queued''"
  shows "job_cost n k + (if job_type j = ''event.process'' then 3 * n + 1 else 1) \<le> job_cost n j"
proof -
  have a: "nat (job_max j - job_attempts j) = Suc (nat (job_max j - (job_attempts j + 1)))" using assms(2,3) by (auto simp: attempts_ok_def)
  from assms(1) consider "job_status k \<noteq> ''queued''" | "job_type k = job_type j" "job_max k = job_max j" "job_attempts k = job_attempts j + 1"
    by (auto simp: turned_def claimed_def give_back_def)
  then show ?thesis using assms(3) a by cases (simp_all add: job_cost_def)
qed

lemma turn_cheaper:
  assumes "next_job env s = Some j" "exceptions_only env dec" "jobs_ok s"
  shows "queue_cost (snd (worker_turn env dec s)) < queue_cost s"
proof -
  let ?t = "snd (worker_turn env dec s)"
  obtain k js where o: "jobs ?t = replace_job j k (jobs s) @ js" "turned s j k" "length js \<le> spawns j s" "\<forall>x \<in> set js. fresh_job s x"
    "workflows ?t = workflows s" "versions ?t = versions s"
    using turn_outcome [OF assms(1,2) _ refl] assms(3) unfolding jobs_ok_def by metis
  have fan: "fan_out ?t = fan_out s" using o by (simp add: fan_out_def)
  have j: "j \<in> set (jobs s)" "job_status j = ''queued''" using assms(1) by (auto simp: next_job_def due_def dest!: row0_in)
  have new: "length js \<le> (if job_type j = ''event.process'' then fan_out s else 0)"
    using o(3) published_le [of "job_workspace j" s] by (simp add: spawns_def split: if_splits)
  have "sum_list (map (job_cost (fan_out s)) (replace_job j k (jobs s))) + job_cost (fan_out s) j = queue_cost s + job_cost (fan_out s) k"
    using sum_replace_job [OF _ j(1)] assms(3) unfolding queue_cost_def jobs_ok_def by blast
  moreover have "queue_cost ?t = sum_list (map (job_cost (fan_out s)) (replace_job j k (jobs s))) + 3 * length js"
    using o(1) fan fresh_costs [OF o(4)] by (simp add: queue_cost_def)
  moreover have "job_cost (fan_out s) k + (if job_type j = ''event.process'' then 3 * fan_out s + 1 else 1) \<le> job_cost (fan_out s) j"
    using turned_cost [OF o(2)] assms(3) j by (simp add: jobs_ok_def)
  ultimately show ?thesis using new by (simp split: if_splits)
qed

text \<open>After five minutes every queued job is due.\<close>

lemma waited_due:
  assumes "jobs_ok s" "j \<in> set (jobs s)" "job_status j = ''queued''"
  shows "\<exists>i. next_job env (do_saas env enc dec (Wait 300000) s) = Some i"
proof -
  let ?s = "do_saas env enc dec (Wait 300000) s"
  have "j \<in> set (filter (due ?s) (jobs ?s))" using assms by (simp add: due_def now_def jobs_ok_def max_delay_def)
  then have "sort_by (earlier env) (filter (due ?s) (jobs ?s)) \<noteq> []" by (metis empty_iff list.set(1) set_sort_by)
  then show ?thesis by (cases "sort_by (earlier env) (filter (due ?s) (jobs ?s))") (simp_all add: next_job_def row0_def)
qed

lemma queue_cost_wait [simp]: "queue_cost (do_saas env enc dec (Wait d) s) = queue_cost s"
  by (simp add: queue_cost_def fan_out_def)

text \<open>C7: Liveness. The worker empties its queue: when the services it calls fail with exceptions only, then after enough rounds of
  waiting five minutes and taking a turn, without requests in between, no job is queued; the number of
  rounds is bounded by the attempts the queued jobs have left and the executions their events can start.\<close>

theorem worker_empties_the_queue:
  assumes "jobs_ok s" "exceptions_only env dec" "queue_cost s \<le> n"
  shows "drained (saas_history env enc dec (concat (replicate n [Wait 300000, Turn])) s)"
  using assms(1,3)
proof (induction n arbitrary: s)
  case 0
  then have free: "job_cost (fan_out s) j = 0" if "j \<in> set (jobs s)" for j using that by (simp add: queue_cost_def)
  have "job_status j \<noteq> ''queued''" if "j \<in> set (jobs s)" for j
  proof
    assume q: "job_status j = ''queued''"
    then have "job_attempts j < job_max j" using 0(1) that by (simp add: jobs_ok_def attempts_ok_def)
    then have "job_cost (fan_out s) j \<noteq> 0" using q by (simp add: job_cost_def)
    then show False using free [OF that] by simp
  qed
  then show ?case by (simp add: drained_def saas_history_def)
next
  case (Suc n)
  let ?w = "do_saas env enc dec (Wait 300000) s"
  let ?t = "do_saas env enc dec Turn ?w"
  have ok: "jobs_ok ?w" "jobs_ok ?t"
    using jobs_bounded.each_op [of s env enc dec "Wait 300000"] jobs_bounded.each_op [of ?w env enc dec Turn] Suc.prems(1)
    unfolding jobs_bounded_def by blast+
  have "queue_cost ?t \<le> n"
  proof (cases "next_job env ?w")
    case None
    then have "drained s" using waited_due [OF Suc.prems(1), where env = env and enc = enc and dec = dec] unfolding drained_def by (metis option.distinct(1))
    then have "queue_cost s = 0" by (simp add: drained_def queue_cost_def job_cost_def)
    moreover have "?t = ?w" using idle_turn [OF None] by simp
    ultimately show ?thesis by (metis le0 queue_cost_wait)
  next
    case (Some j)
    have "queue_cost (snd (worker_turn env dec ?w)) < queue_cost ?w" by (rule turn_cheaper [OF Some assms(2) ok(1)])
    then show ?thesis using Suc.prems(2) unfolding do_saas.simps(2) queue_cost_wait by simp
  qed
  then show ?case using Suc.IH [OF ok(2)] by (simp add: saas_history_def)
qed

section \<open>Examples\<close>

definition demo_job :: job_row where
  "demo_job = \<lparr>job_id = ''j1'', job_workspace = ''w1'', job_type = ''event.process'', job_payload = Obj [(''eventId'', Str ''e1'')], job_status = ''queued'',
     job_attempts = 1, job_max = 3, job_run_at = 200000, job_error = None\<rparr>"

definition demo_queue :: saas_db where
  "demo_queue = demo_saas\<lparr>jobs := [demo_job, demo_job\<lparr>job_id := ''j2'', job_status := ''failed'', job_attempts := 3\<rparr>],
     events := [\<lparr>evt_id = ''e1'', evt_workspace = ''w1'', evt_provider = ''whatsapp'', evt_type = ''message'', evt_external = ''m1'',
       evt_payload = Obj [], evt_status = ''received''\<rparr>]\<rparr>"

lemma demo_queue_ok: "jobs_ok demo_queue"
  by (simp add: jobs_ok_def attempts_ok_def demo_queue_def demo_job_def max_delay_def now_def demo_saas_def demo_accounts_def empty_db_def)

lemma demo_exceptions: "exceptions_only demo_app (\<lambda>v. Inr [])"
  by (simp add: exceptions_only_def demo_app_def)

theorem jobs_are_attempted_boundedly_witness:
  "demo_job\<lparr>job_id := ''j2'', job_status := ''failed'', job_attempts := 3\<rparr>
     \<in> set (jobs (saas_history demo_app (\<lambda>v. Inr []) (\<lambda>v. Inr []) [Wait 300000, Turn] demo_queue))"
  using jobs_are_attempted_boundedly [OF demo_queue_ok] by (simp add: demo_queue_def)

theorem worker_empties_the_queue_witness:
  "job_status demo_job = ''queued'' \<and> demo_job \<in> set (jobs demo_queue)
   \<and> drained (saas_history demo_app (\<lambda>v. Inr []) (\<lambda>v. Inr []) (concat (replicate (queue_cost demo_queue) [Wait 300000, Turn])) demo_queue)"
  using worker_empties_the_queue [OF demo_queue_ok demo_exceptions] by (simp add: demo_queue_def demo_job_def)

end
