(* ===== verification/SignIn.thy ===== *)
theory SignIn
  imports Connectors AccountSafety
begin

text \<open>
  The serverless handlers of accounts: registration, sign-in and sign-out with a password
  (\<^verbatim>\<open>api/v1/auth/register.js\<close>, \<^verbatim>\<open>login.js\<close>, \<^verbatim>\<open>logout.js\<close>), sign-in with Google (\<^verbatim>\<open>api/v1/auth/google.js\<close> and
  \<^verbatim>\<open>modules/auth/google.js\<close>) and onboarding (\<^verbatim>\<open>api/v1/onboarding.js\<close>). A response is its status, its body
  and the cookie it sets. Google's answers come from the network, a parameter; the message of a
  \<^verbatim>\<open>SyntaxError\<close> is one, too.
\<close>

section \<open>Requests and answers\<close>

record http_call =
  hc_method :: string
  hc_path :: string
  hc_body :: jsval \<comment> \<open>\<^verbatim>\<open>req.body\<close>, where the platform has parsed it\<close>
  hc_raw :: string \<comment> \<open>what the request streams\<close>
  hc_cookies :: string
  hc_authorization :: jsval

record http_answer =
  an_status :: int
  an_body :: jsval
  an_cookie :: "string option"

definition answer :: "int \<Rightarrow> (string \<times> jsval) list \<Rightarrow> http_answer" where
  "answer status fs = \<lparr>an_status = status, an_body = Obj fs, an_cookie = None\<rparr>"

definition refusal :: "int \<Rightarrow> string \<Rightarrow> string \<Rightarrow> http_answer" where
  "refusal status c m = answer status [(''error'', Obj [(''code'', Str c), (''message'', Str m)])]"

definition method_not_allowed :: http_answer where
  "method_not_allowed = answer 405 [(''error'', Obj [(''code'', Str ''METHOD_NOT_ALLOWED'')])]"

text \<open>\<^verbatim>\<open>JSON.parse(text)\<close>\<close>

definition parse_text :: "app_env \<Rightarrow> (string \<Rightarrow> string) \<Rightarrow> string \<Rightarrow> js_error + jsval" where
  "parse_text env syntax t = (case parse_json env t of Some v \<Rightarrow> Inr v | None \<Rightarrow> Inl (Exn ''SyntaxError'' (syntax t) []))"

text \<open>\<^verbatim>\<open>typeof req.body === 'string' ? JSON.parse(req.body || '{}') : (req.body || {})\<close>, read for its fields\<close>

definition body_fields :: "app_env \<Rightarrow> (string \<Rightarrow> string) \<Rightarrow> http_call \<Rightarrow> js_error + jsval" where
  "body_fields env syntax rq =
     (case (case hc_body rq of Str t \<Rightarrow> parse_text env syntax (if t = [] then ''{}'' else t) | v \<Rightarrow> Inr (js_or v (Obj []))) of
       Inl e \<Rightarrow> Inl e
     | Inr v \<Rightarrow> if nullish v then Inl null_read_error else Inr v)"

definition trimmed :: "jsval \<Rightarrow> string" where
  "trimmed v = trim (to_str (js_or v (Str [])))"

text \<open>\<^verbatim>\<open>parseCookies(req).bos_session\<close>; an absent token and an empty one are treated alike by its uses.\<close>

definition session_token :: "http_call \<Rightarrow> js_error + string" where
  "session_token rq = map_sum id (\<lambda>c. case field c ''bos_session'' of Str t \<Rightarrow> t | _ \<Rightarrow> []) (parseCookies (hc_cookies rq))"

definition user_json :: "account \<Rightarrow> jsval" where
  "user_json u = Obj [(''id'', Str (acc_id u)), (''email'', Str (acc_email u)), (''name'', Str (acc_name u))]"

definition workspace_json :: "workspace_info option \<Rightarrow> jsval" where
  "workspace_json = or_null_col (\<lambda>w. Obj [(''tenantId'', Str (wi_tenant w)), (''businessName'', Str (wi_business w)), (''plan'', Str (wi_plan w)),
     (''role'', Str (wi_role w)), (''createdAt'', time_json (wi_created w)), (''updatedAt'', time_json (wi_updated w))])"

section \<open>Passwords\<close>

text \<open>\<^verbatim>\<open>map[e.message] || [500, ...]\<close>, for messages that name no member every object inherits\<close>

definition mapped_error :: "(string \<times> int \<times> string) list \<Rightarrow> string \<Rightarrow> string \<Rightarrow> js_error \<Rightarrow> (saas_db, http_answer) act" where
  "mapped_error known dflt text e =
     bnd (lift (message_of e)) (\<lambda>v. ret (case v of
       Str m \<Rightarrow> (case map_of known m of Some (status, t) \<Rightarrow> refusal status m t | None \<Rightarrow> refusal 500 dflt text)
     | _ \<Rightarrow> refusal 500 dflt text))"

definition signup_errors :: "(string \<times> int \<times> string) list" where
  "signup_errors =
     [(''EMAIL_ALREADY_REGISTERED'', 409, ''An account with this email already exists''),
      (''PASSWORD_MIN_8'', 400, ''Password must be at least 8 characters''),
      (''VALID_EMAIL_REQUIRED'', 400, ''Enter a valid email address''),
      (''NAME_REQUIRED'', 400, ''Name is required''),
      (''DATABASE_NOT_CONFIGURED'', 503, ''Production database is not configured'')]"

definition login_errors :: "(string \<times> int \<times> string) list" where
  "login_errors =
     [(''INVALID_CREDENTIALS'', 401, ''Email or password is incorrect''),
      (''DATABASE_NOT_CONFIGURED'', 503, ''Production database is not configured'')]"

definition signed_in :: "app_env \<Rightarrow> int \<Rightarrow> string \<Rightarrow> account \<Rightarrow> (saas_db, http_answer) act" where
  "signed_in env status word user =
     bnd (create_session env (acc_id user) None) (\<lambda>(token, expires).
     ret ((answer status [(''status'', Str word), (''user'', user_json user)])\<lparr>an_cookie := Some (session_cookie token)\<rparr>))"

definition handle_register :: "app_env \<Rightarrow> http_call \<Rightarrow> (saas_db, http_answer) act" where
  "handle_register env rq =
     (if hc_method rq \<noteq> ''POST'' then ret method_not_allowed
      else try_catch
        (let p = js_or (hc_body rq) (Obj []) in
         bnd (register env (field p ''email'') (field p ''password'') (field p ''name'')) (signed_in env 201 ''created''))
        (mapped_error signup_errors ''SIGNUP_FAILED'' ''Unable to create your account''))"

definition handle_login :: "app_env \<Rightarrow> http_call \<Rightarrow> (saas_db, http_answer) act" where
  "handle_login env rq =
     (if hc_method rq \<noteq> ''POST'' then ret method_not_allowed
      else try_catch
        (bnd (login env (field (hc_body rq) ''email'') (field (hc_body rq) ''password'')) (signed_in env 200 ''authenticated''))
        (mapped_error login_errors ''LOGIN_FAILED'' ''Unable to sign in''))"

definition handle_logout :: "app_env \<Rightarrow> http_call \<Rightarrow> (saas_db, http_answer) act" where
  "handle_logout env rq =
     (if hc_method rq \<noteq> ''POST'' then ret method_not_allowed
      else try_catch
        (bnd (lift (session_token rq)) (\<lambda>token.
         bnd (revokeSession env token) (\<lambda>_.
         ret ((answer 200 [(''status'', Str ''signed_out'')])\<lparr>an_cookie := Some cleared_cookie\<rparr>))))
        (\<lambda>e. bnd (lift (message_of e)) (\<lambda>v.
         ret (answer 500 [(''error'', Obj [(''code'', Str ''LOGOUT_FAILED''), (''message'', v)])]))))"

section \<open>Google\<close>

definition google_client :: "app_env \<Rightarrow> string" where
  "google_client env = trim (config env ''GOOGLE_CLIENT_ID'')"

definition google_issuers :: "string list" where
  "google_issuers = [''accounts.google.com'', ''https://accounts.google.com'']"

text \<open>The profile Google's token service gives for a credential: none when it is refused.\<close>

definition google_profile :: "app_env \<Rightarrow> (string \<Rightarrow> string) \<Rightarrow> string \<Rightarrow> (saas_db, jsval option) act" where
  "google_profile env syntax credential =
     bnd (fetch env (get_call (''https://oauth2.googleapis.com/tokeninfo?id_token='' @ encodeURIComponent credential) [])) (\<lambda>r.
     bnd (lift (parse_text env syntax (nr_text r))) (\<lambda>google.
     if \<not> nr_ok r then ret None
     else if nullish google then throw null_read_error
     else if field google ''aud'' \<noteq> Str (google_client env) \<or> field google ''iss'' \<notin> Str ` set google_issuers
       \<or> field google ''email_verified'' \<noteq> Str ''true'' then ret None
     else ret (Some google)))"

definition google_email :: "jsval \<Rightarrow> string" where
  "google_email google = toLowerCase (trimmed (field google ''email''))"

definition google_name :: "jsval \<Rightarrow> string" where
  "google_name google = trim (to_str (js_or (field google ''name'') (js_or (Str (part 0 (split_on (CHR ''@'') (google_email google)))) (Str ''BOS user''))))"

text \<open>The account with the address, registered with a random password when there is none; its status is not looked at.\<close>

definition google_account :: "app_env \<Rightarrow> jsval \<Rightarrow> (saas_db, account) act" where
  "google_account env google =
     bnd (query (users_with_email (google_email google))) (\<lambda>found. case found of
       u # _ \<Rightarrow> ret \<lparr>acc_id = usr_id u, acc_email = usr_email u, acc_name = usr_name u\<rparr>
     | [] \<Rightarrow> bnd (randomBytes env 32) (\<lambda>bytes. register env (Str (google_email google)) (Str (to_hex bytes)) (Str (google_name google))))"

definition google_workspace :: "app_env \<Rightarrow> account \<Rightarrow> string \<Rightarrow> jsval \<Rightarrow> (saas_db, workspace_info option) act" where
  "google_workspace env user businessName google =
     bnd (getWorkspaceForUser env (acc_id user) None) (\<lambda>w. case w of
       Some x \<Rightarrow> ret w
     | None \<Rightarrow> if businessName = [] then ret None
         else createOrUpdateWorkspace env (acc_id user) (Str businessName) (Str (google_email google)) (Str (google_name google)) (Str ''google'')
           (Str (trimmed (field google ''sub''))))"

definition google_answer :: "account \<Rightarrow> workspace_info option \<Rightarrow> string \<Rightarrow> http_answer" where
  "google_answer user w token =
     (answer 200 [(''status'', Str ''authenticated''), (''needsWorkspace'', Boolean (w = None)), (''workspace'', workspace_json w), (''user'', user_json user)])
       \<lparr>an_cookie := Some (session_cookie token)\<rparr>"

text \<open>From the credential to the answer; \<open>active\<close> picks the workspace the session starts in, \<open>incomplete\<close> is the message for a profile without address or subject.\<close>

definition google_sign_in :: "app_env \<Rightarrow> (string \<Rightarrow> string) \<Rightarrow> (workspace_info option \<Rightarrow> string option) \<Rightarrow> string \<Rightarrow> string \<Rightarrow> string \<Rightarrow> (saas_db, http_answer) act" where
  "google_sign_in env syntax active incomplete credential businessName =
     bnd (google_profile env syntax credential) (\<lambda>p. case p of
       None \<Rightarrow> ret (refusal 401 ''GOOGLE_AUTH_INVALID'' ''Google authentication could not be verified'')
     | Some google \<Rightarrow>
         if google_email google = [] \<or> trimmed (field google ''sub'') = [] then
           ret (refusal 401 ''GOOGLE_PROFILE_INVALID'' incomplete)
         else if \<not> configured env then ret (refusal 503 ''DATABASE_NOT_CONFIGURED'' ''Production database is not configured'')
         else
           bnd (google_account env google) (\<lambda>user.
           bnd (google_workspace env user businessName google) (\<lambda>w.
           bnd (create_session env (acc_id user) (active w)) (\<lambda>(token, expires).
           ret (google_answer user w token)))))"

definition google_handler :: "app_env \<Rightarrow> (string \<Rightarrow> string) \<Rightarrow> (workspace_info option \<Rightarrow> string option) \<Rightarrow> string \<Rightarrow> js_error + jsval \<Rightarrow> (saas_db, http_answer) act" where
  "google_handler env syntax active incomplete form =
     (if google_client env = [] then ret (refusal 503 ''GOOGLE_AUTH_NOT_CONFIGURED'' ''Google sign-in is not configured for this deployment'')
      else
        bnd (lift form) (\<lambda>p.
        let credential = trimmed (field p ''credential''); businessName = trimmed (field p ''businessName'') in
        if credential = [] then ret (refusal 400 ''INVALID_INPUT'' ''Google credential is required'')
        else google_sign_in env syntax active incomplete credential businessName))"

definition handle_google :: "app_env \<Rightarrow> (string \<Rightarrow> string) \<Rightarrow> http_call \<Rightarrow> (saas_db, http_answer) act" where
  "handle_google env syntax rq =
     (if hc_method rq \<noteq> ''POST'' then ret method_not_allowed
      else try_catch (google_handler env syntax (\<lambda>w. None) ''Google account profile is incomplete'' (body_fields env syntax rq))
        (\<lambda>e. ret (refusal 500 ''GOOGLE_AUTH_FAILED'' ''Google authentication could not be completed'')))"

text \<open>\<^verbatim>\<open>verifyGoogleCredential\<close> of \<^verbatim>\<open>modules/auth/google.js\<close>\<close>

definition verifyGoogleCredential :: "app_env \<Rightarrow> (string \<Rightarrow> string) \<Rightarrow> jsval \<Rightarrow> (saas_db, jsval) act" where
  "verifyGoogleCredential env syntax credential =
     (if \<not> truthy credential then throw (Error ''GOOGLE_CREDENTIAL_REQUIRED'')
      else if google_client env = [] then throw (Error ''GOOGLE_CLIENT_ID_NOT_CONFIGURED'')
      else
        bnd (fetch env (get_call (''https://oauth2.googleapis.com/tokeninfo?id_token='' @ encodeURIComponent (to_str credential)) [])) (\<lambda>r.
        if \<not> nr_ok r then throw (Error ''INVALID_GOOGLE_CREDENTIAL'')
        else
          bnd (lift (parse_text env syntax (nr_text r))) (\<lambda>profile.
          if nullish profile then throw null_read_error
          else if field profile ''aud'' \<noteq> Str (google_client env) then throw (Error ''GOOGLE_AUDIENCE_MISMATCH'')
          else if field profile ''email_verified'' \<noteq> Str ''true'' then throw (Error ''GOOGLE_EMAIL_NOT_VERIFIED'')
          else if \<not> truthy (field profile ''sub'') \<or> \<not> truthy (field profile ''email'') then throw (Error ''GOOGLE_PROFILE_INCOMPLETE'')
          else if \<not> truthy (field profile ''name'') \<and> \<not> is_str (field profile ''email'') then throw (TypeError ''profile.email.split is not a function'')
          else ret (Obj [(''provider'', Str ''google''), (''providerId'', field profile ''sub''),
            (''email'', Str (toLowerCase (to_str (field profile ''email'')))),
            (''name'', js_or (field profile ''name'') (Str (part 0 (split_on (CHR ''@'') (to_str (field profile ''email'')))))),
            (''picture'', js_or (field profile ''picture'') Null)]))))"

section \<open>Onboarding\<close>

text \<open>\<^verbatim>\<open>value->>'k'\<close>: a member of a JSON column as text, none for null and for an absent one\<close>

definition json_member_text :: "jsval \<Rightarrow> string \<Rightarrow> string option" where
  "json_member_text v k = (if is_obj v \<and> \<not> nullish (field v k) then (if is_ref (field v k) then stringify (field v k) else Some (to_str (field v k))) else None)"

text \<open>\<^verbatim>\<open>SELECT value FROM bos_records WHERE record_type='workspace' AND value->>'userId'=$1 LIMIT 1\<close>\<close>

definition legacy_workspace :: "string \<Rightarrow> saas_db \<Rightarrow> jsval option" where
  "legacy_workspace userId s = map_option row_value
     (row0 (filter (\<lambda>r. row_type r = ''workspace'' \<and> json_member_text (row_value r) ''userId'' = Some userId) (bos_records (records s))))"

definition onboard :: "app_env \<Rightarrow> session_info \<Rightarrow> string \<Rightarrow> (saas_db, http_answer) act" where
  "onboard env session businessName =
     bnd (getWorkspaceForUser env (si_user session) None) (\<lambda>existing. case existing of
       Some w \<Rightarrow> ret (answer 200 [(''status'', Str ''exists''), (''tenantId'', Str (wi_tenant w)), (''workspace'', workspace_json existing)])
     | None \<Rightarrow>
         bnd (query (legacy_workspace (si_user session))) (\<lambda>found.
         let legacy = (case found of None \<Rightarrow> Null | Some v \<Rightarrow> js_or v Null) in
         bnd (createOrUpdateWorkspace env (si_user session) (Str businessName) (Str (si_email session)) (Str (si_name session))
                (js_or (field legacy ''authProvider'') (Str ''google'')) (js_or (field legacy ''googleSubject'') Null)) (\<lambda>w. case w of
           None \<Rightarrow> throw null_read_error
         | Some x \<Rightarrow> ret (answer 201 [(''tenantId'', Str (wi_tenant x)), (''workspace'', workspace_json w)]))))"

definition onboarding_handler :: "app_env \<Rightarrow> (string \<Rightarrow> string) \<Rightarrow> http_call \<Rightarrow> (saas_db, http_answer) act" where
  "onboarding_handler env syntax rq =
     bnd (lift (session_token rq)) (\<lambda>token.
     bnd (getSession env token) (\<lambda>session. case session of
       None \<Rightarrow> ret (refusal 401 ''AUTH_REQUIRED'' ''Please sign up or sign in first'')
     | Some info \<Rightarrow>
         bnd (lift (body_fields env syntax rq)) (\<lambda>p.
         let businessName = trimmed (field p ''businessName'') in
         if businessName = [] then ret (refusal 400 ''INVALID_INPUT'' ''businessName is required'')
         else if \<not> configured env then ret (refusal 503 ''DATABASE_NOT_CONFIGURED'' ''Production database is not configured'')
         else onboard env info businessName)))"

definition handle_onboarding :: "app_env \<Rightarrow> (string \<Rightarrow> string) \<Rightarrow> http_call \<Rightarrow> (saas_db, http_answer) act" where
  "handle_onboarding env syntax rq =
     (if hc_method rq \<noteq> ''POST'' then ret method_not_allowed
      else try_catch (onboarding_handler env syntax rq)
        (\<lambda>e. bnd (lift (message_of e)) (\<lambda>v. ret (answer 500 [(''error'', Obj [(''code'', Str ''ONBOARDING_FAILED''), (''message'', v)])]))))"

section \<open>Whom Google signs in\<close>

definition tokeninfo :: "string \<Rightarrow> net_call" where
  "tokeninfo credential = get_call (''https://oauth2.googleapis.com/tokeninfo?id_token='' @ encodeURIComponent credential) []"

text \<open>
  From \<open>s\<close> to \<open>t\<close> one network call was made, the one that asks about the credential, and its answer is the
  profile, for this client, of an accepted issuer and with a verified address.
\<close>

definition vouched :: "app_env \<Rightarrow> saas_db \<Rightarrow> saas_db \<Rightarrow> string \<Rightarrow> jsval \<Rightarrow> bool" where
  "vouched env s t credential google \<longleftrightarrow> net_calls t = net_calls s @ [tokeninfo credential]
     \<and> (\<exists>r. net_answer env (length (net_calls s)) (last (net_calls t)) = Inr r \<and> nr_ok r \<and> parse_json env (nr_text r) = Some google)
     \<and> field google ''aud'' = Str (google_client env) \<and> field google ''iss'' \<in> Str ` set google_issuers \<and> field google ''email_verified'' = Str ''true''"

lemma lift_run: "lift r s = (r, s)"
  by (cases r) simp_all

lemma google_profile_outcome:
  assumes "google_profile env syntax credential s = (r, t)"
  shows "t = s\<lparr>net_calls := net_calls s @ [tokeninfo credential]\<rparr> \<and> (\<forall>g. r = Inr (Some g) \<longrightarrow> vouched env s t credential g)"
  using assms
  by (auto simp: google_profile_def bnd_run' fetch_def tokeninfo_def vouched_def parse_text_def split: sum.splits if_splits option.splits)

text \<open>What follows the answer makes no further call.\<close>

lemma keeps_calls [valid_intros]:
  "keeps (\<lambda>s. net_calls s = cs) (ensureAuthSchema env)" "keeps (\<lambda>s. net_calls s = cs) (randomUUID env pre)" "keeps (\<lambda>s. net_calls s = cs) (randomBytes env k)"
  "keeps (\<lambda>s. net_calls s = cs) (hashPassword env pw)" "keeps (\<lambda>s. net_calls s = cs) (insert_user r)" "keeps (\<lambda>s. net_calls s = cs) (insert_session x)"
  "keeps (\<lambda>s. net_calls s = cs) (upsert_member w u role)" "keeps (\<lambda>s. net_calls s = cs) (upsert_workspace w u b)" "keeps (\<lambda>s. net_calls s = cs) (in_records m)"
proof -
  have draw: "keeps (\<lambda>s. net_calls s = cs) (draw f)" for f :: "nat \<Rightarrow> 'x" by (auto simp: keeps_def draw_def)
  then show "keeps (\<lambda>s. net_calls s = cs) (randomUUID env pre)" "keeps (\<lambda>s. net_calls s = cs) (randomBytes env k)" by (simp_all add: randomUUID_def randomBytes_def)
  then show "keeps (\<lambda>s. net_calls s = cs) (hashPassword env pw)" unfolding hashPassword_def Let_def randomBytes_def by (intro valid_intros draw)
  have "net_calls (fold backfill_owner ws s) = net_calls s" for ws s by (induction ws arbitrary: s) (simp_all add: backfill_owner_def)
  then have "keeps (\<lambda>s. net_calls s = cs) (exec (\<lambda>s. fold backfill_owner (workspaces s) s))" by (intro keeps_exec) simp
  then show "keeps (\<lambda>s. net_calls s = cs) (ensureAuthSchema env)" unfolding ensureAuthSchema_def by (intro valid_intros)
  show "keeps (\<lambda>s. net_calls s = cs) (insert_user r)" "keeps (\<lambda>s. net_calls s = cs) (insert_session x)"
      "keeps (\<lambda>s. net_calls s = cs) (upsert_member w u role)" "keeps (\<lambda>s. net_calls s = cs) (upsert_workspace w u b)"
    unfolding insert_user_def insert_session_def upsert_member_def upsert_workspace_def by (rule keeps_guarded, simp)+
  show "keeps (\<lambda>s. net_calls s = cs) (in_records m)" by (auto simp: keeps_def in_records_def split: prod.split)
qed

lemma keeps_calls_accounts [valid_intros]:
  "keeps (\<lambda>s. net_calls s = cs) (register env e p n)" "keeps (\<lambda>s. net_calls s = cs) (getWorkspaceForUser env u w)"
  "keeps (\<lambda>s. net_calls s = cs) (create_session env u w)" "keeps (\<lambda>s. net_calls s = cs) (createOrUpdateWorkspace env u b e ow a g)"
proof -
  show "keeps (\<lambda>s. net_calls s = cs) (register env e p n)" unfolding register_def Let_def by (intro valid_intros)
  show g: "keeps (\<lambda>s. net_calls s = cs) (getWorkspaceForUser env u w)" for u w unfolding getWorkspaceForUser_def by (intro valid_intros)
  show "keeps (\<lambda>s. net_calls s = cs) (create_session env u w)" unfolding create_session_def Let_def by (intro valid_intros)
  show "keeps (\<lambda>s. net_calls s = cs) (createOrUpdateWorkspace env u b e ow a g)" unfolding createOrUpdateWorkspace_def Let_def by (intro valid_intros g)
qed

lemma keeps_calls_google: "keeps (\<lambda>s. net_calls s = cs) (google_account env g)" "keeps (\<lambda>s. net_calls s = cs) (google_workspace env user b g)"
  unfolding google_account_def google_workspace_def by (intro valid_intros)+

lemma email_normal: "normalizeEmail (Str (google_email g)) = google_email g"
proof -
  have "trim (google_email g) = google_email g" unfolding google_email_def trimmed_def by (rule trim_toLowerCase) simp
  moreover have "toLowerCase (google_email g) = google_email g" by (simp add: google_email_def)
  ultimately show ?thesis by (cases "google_email g = []") (simp_all add: normalizeEmail_def js_or_def)
qed

lemma google_account_outcome:
  assumes "google_account env g s = (Inr user, t)" "accounts_ok s"
  shows "accounts_ok t \<and> (\<exists>u \<in> set (users t). usr_id u = acc_id user \<and> usr_email u = google_email g)"
proof (cases "users_with_email (google_email g) s")
  case (Cons u us)
  have "u \<in> set (users_with_email (google_email g) s)" using Cons by simp
  then show ?thesis using assms Cons by (auto simp: google_account_def bnd_run' users_with_email_def)
next
  case Nil
  obtain bytes where run: "register env (Str (google_email g)) (Str (to_hex bytes)) (Str (google_name g)) (s\<lparr>draws := Suc (draws s)\<rparr>) = (Inr user, t)"
    using assms(1) Nil by (auto simp: google_account_def bnd_run')
  have ok: "accounts_ok (s\<lparr>draws := Suc (draws s)\<rparr>)" using assms(2) by (simp add: accounts_ok_def)
  show ?thesis using register_account_Inr(2,4) [OF run ok] email_normal [of g] by (auto simp: has_credential_def)
qed

interpretation accounts_here: account_invariant env "\<lambda>s. accounts_ok s \<and> (\<exists>u \<in> set (users s). usr_id u = i \<and> usr_email u = e)" "\<lambda>_. True" "\<lambda>_. True" False for env i e
proof unfold_locales
  fix s U v
  assume P: "accounts_ok s \<and> (\<exists>u \<in> set (users s). usr_id u = i \<and> usr_email u = e)"
  then obtain u where u: "u \<in> set (users s)" "usr_id u = i" "usr_email u = e" by blast
  show "accounts_ok (s\<lparr>users := update_where U (\<lambda>u. u\<lparr>usr_verified := v\<rparr>) (users s)\<rparr>)
      \<and> (\<exists>u \<in> set (users (s\<lparr>users := update_where U (\<lambda>u. u\<lparr>usr_verified := v\<rparr>) (users s)\<rparr>)). usr_id u = i \<and> usr_email u = e)"
    using P u(2,3) accounts.verify_user by (auto intro!: bexI [OF _ update_whereI [OF u(1)]])
qed (auto simp: accounts_ok_def distinct_map_filterI)

lemma google_workspace_keeps:
  assumes "google_workspace env user b g s = (r, t)" "accounts_ok s \<and> (\<exists>u \<in> set (users s). usr_id u = i \<and> usr_email u = e)"
  shows "accounts_ok t \<and> (\<exists>u \<in> set (users t). usr_id u = i \<and> usr_email u = e)"
proof -
  have "keeps (\<lambda>s. accounts_ok s \<and> (\<exists>u \<in> set (users s). usr_id u = i \<and> usr_email u = e)) (google_workspace env user b g)"
    unfolding google_workspace_def by (intro valid_intros accounts_here.keeps_workspaces)
  from keepsD [OF this assms(2)] assms(1) show ?thesis by simp
qed

lemma create_session_row:
  assumes "create_session env u w s = (Inr (token, x), t)"
  shows "users t = users s \<and> (\<exists>r \<in> set (sessions t). ses_user r = u \<and> ses_hash r = sha256 env token)"
  using assms
  by (auto simp: create_session_def ensureAuthSchema_def storeOr_def bnd_run' insert_session_def guarded_Inr Let_def split: if_splits prod.splits sum.splits)

lemma google_handler_run:
  "google_handler env syntax active incomplete form s =
    (if google_client env = [] then (Inr (refusal 503 ''GOOGLE_AUTH_NOT_CONFIGURED'' ''Google sign-in is not configured for this deployment''), s)
     else case form of Inl e \<Rightarrow> (Inl e, s) | Inr p \<Rightarrow>
       if trimmed (field p ''credential'') = [] then (Inr (refusal 400 ''INVALID_INPUT'' ''Google credential is required''), s)
       else google_sign_in env syntax active incomplete (trimmed (field p ''credential'')) (trimmed (field p ''businessName'')) s)"
  by (simp add: google_handler_def Let_def bnd_run' lift_run split: sum.split)

lemma google_sign_in_outcome:
  assumes "google_sign_in env syntax active incomplete credential name s = (Inr b, t)" "accounts_ok s"
  shows "an_status b = 200 \<and> (\<exists>g token. vouched env s t credential g \<and> an_cookie b = Some (session_cookie token)
        \<and> (\<exists>u \<in> set (users t). usr_email u = google_email g \<and> (\<exists>x \<in> set (sessions t). ses_user x = usr_id u \<and> ses_hash x = sha256 env token)))
      \<or> an_status b \<in> {401, 503} \<and> an_cookie b = None \<and> (\<exists>cs. t = s\<lparr>net_calls := net_calls s @ cs\<rparr>)"
proof -
  obtain p s1 where p: "google_profile env syntax credential s = (Inr p, s1)"
    using assms(1) by (auto simp: google_sign_in_def bnd_run' split: prod.splits sum.splits)
  note profile = google_profile_outcome [OF p]
  have ok: "accounts_ok s1" using assms(2) profile by (simp add: accounts_ok_def)
  show ?thesis
  proof (cases "\<exists>g. p = Some g \<and> google_email g \<noteq> [] \<and> trimmed (field g ''sub'') \<noteq> [] \<and> configured env")
    case True
    then obtain g user s2 w s3 token x where g: "p = Some g" and run2: "google_account env g s1 = (Inr user, s2)" "google_workspace env user name g s2 = (Inr w, s3)"
        "create_session env (acc_id user) (active w) s3 = (Inr (token, x), t)" "b = google_answer user w token"
      using assms(1) p by (auto simp: google_sign_in_def bnd_run' split: prod.splits sum.splits)
    note user = google_account_outcome [OF run2(1) ok]
    note later = google_workspace_keeps [OF run2(2), of "acc_id user" "google_email g"]
    note session = create_session_row [OF run2(3)]
    obtain v where v: "v \<in> set (users t)" "usr_id v = acc_id user" "usr_email v = google_email g" using user later session by auto
    obtain r where r: "r \<in> set (sessions t)" "ses_user r = usr_id v" "ses_hash r = sha256 env token" using session v(2) by auto
    have "net_calls s2 = net_calls s1" using keepsD [OF keeps_calls_google(1), of s1 _ env g] run2(1) by force
    moreover have "net_calls s3 = net_calls s2" using keepsD [OF keeps_calls_google(2), of s2 _ env user name g] run2(2) by force
    moreover have "net_calls t = net_calls s3" using keepsD [OF keeps_calls_accounts(3), of s3 _ env "acc_id user" "active w"] run2(3) by force
    ultimately have "vouched env s t credential g" using profile g by (auto simp: vouched_def)
    moreover have "an_status b = 200" "an_cookie b = Some (session_cookie token)" using run2(4) by (simp_all add: google_answer_def answer_def)
    ultimately show ?thesis using v r by metis
  next
    case False
    then show ?thesis using assms(1) p profile
      by (auto simp: google_sign_in_def bnd_run' refusal_def answer_def split: option.splits if_splits)
  qed
qed

text \<open>C20: Safety. Sign-in with Google: a request is answered as signed in only when the handler made exactly one
  network call, to ask Google's token service about the very credential in the request's body, and
  the service answered it with a profile for this client, of an accepted issuer and with a verified
  address; the cookie then opens a session of the account with that profile's address. Every other
  answer sets no cookie, and unless it is an internal error (500) it changes no table.\<close>

theorem google_sign_in_is_vouched_for:
  assumes "handle_google env syntax rq s = (Inr a, t)" "accounts_ok s"
  shows "(an_status a = 200 \<longrightarrow> (\<exists>p g token. body_fields env syntax rq = Inr p \<and> trimmed (field p ''credential'') \<noteq> [] \<and> google_client env \<noteq> []
      \<and> vouched env s t (trimmed (field p ''credential'')) g \<and> an_cookie a = Some (session_cookie token)
      \<and> (\<exists>u \<in> set (users t). usr_email u = google_email g \<and> (\<exists>x \<in> set (sessions t). ses_user x = usr_id u \<and> ses_hash x = sha256 env token))))
    \<and> (an_status a \<noteq> 200 \<longrightarrow> an_cookie a = None \<and> (an_status a \<noteq> 500 \<longrightarrow> (\<exists>cs. t = s\<lparr>net_calls := net_calls s @ cs\<rparr>)))"
proof -
  have same: "\<exists>cs. s = s\<lparr>net_calls := net_calls s @ cs\<rparr>" by (rule exI [of _ "[]"]) simp
  note sign_in = google_sign_in_outcome [OF _ assms(2)]
  consider "an_status a \<notin> {200, 500}" "an_cookie a = None" "t = s" | "an_status a = 500" "an_cookie a = None"
    | p name where "body_fields env syntax rq = Inr p" "trimmed (field p ''credential'') \<noteq> []" "google_client env \<noteq> []"
        "google_sign_in env syntax (\<lambda>w. None) ''Google account profile is incomplete'' (trimmed (field p ''credential'')) name s = (Inr a, t)"
  proof (cases "hc_method rq = ''POST''")
    case True
    obtain r u where h: "google_handler env syntax (\<lambda>w. None) ''Google account profile is incomplete'' (body_fields env syntax rq) s = (r, u)" by fastforce
    show thesis
    proof (cases r)
      case (Inl e)
      then show thesis using that(2) assms(1) True h by (auto simp: handle_google_def try_catch_def refusal_def answer_def)
    next
      case (Inr b)
      then have b: "b = a" "u = t" using assms(1) True h by (auto simp: handle_google_def try_catch_def)
      show thesis using that h unfolding b Inr google_handler_run
        by (auto simp: refusal_def answer_def split: if_splits sum.splits)
    qed
  next
    case False
    then show thesis using that(1) assms(1) by (auto simp: handle_google_def method_not_allowed_def answer_def)
  qed
  then show ?thesis
  proof cases
    case 1
    have e: "\<exists>cs. t = s\<lparr>net_calls := net_calls s @ cs\<rparr>" unfolding 1(3) by (rule same)
    have "an_status a \<noteq> 200" "an_status a \<noteq> 500" using 1(1) by simp_all
    then show ?thesis using 1(2) e by blast
  next
    case (3 p name)
    from sign_in [OF 3(4)] show ?thesis
    proof (elim disjE conjE exE)
      fix g token
      assume "an_status a = 200" "vouched env s t (trimmed (field p ''credential'')) g" "an_cookie a = Some (session_cookie token)"
        "\<exists>u \<in> set (users t). usr_email u = google_email g \<and> (\<exists>x \<in> set (sessions t). ses_user x = usr_id u \<and> ses_hash x = sha256 env token)"
      then show ?thesis using 3(1,2,3) by (intro conjI impI) (blast, simp_all)
    qed auto
  qed simp
qed

section \<open>Example\<close>

definition demo_profile :: jsval where
  "demo_profile = Obj [(''aud'', Str ''cid''), (''iss'', Str ''accounts.google.com''), (''email_verified'', Str ''true''), (''email'', Str ''ann@bos.io''), (''sub'', Str ''7''), (''name'', Str ''Ann'')]"

definition demo_google :: app_env where
  "demo_google = demo_app\<lparr>parse_json := (\<lambda>_. Some demo_profile), config := (\<lambda>k. if k = ''GOOGLE_CLIENT_ID'' then ''cid'' else [])\<rparr>"

definition demo_call :: http_call where
  "demo_call = \<lparr>hc_method = ''POST'', hc_path = ''/api/v1/auth/google'', hc_body = Obj [(''credential'', Str ''x'')], hc_raw = [], hc_cookies = [], hc_authorization = Undefined\<rparr>"

lemma demo_texts: "trimmed (Str ''x'') = ''x''" "trimmed (Str ''7'') = ''7''" "trim ''cid'' = ''cid''" "google_email demo_profile = ''ann@bos.io''" "trimmed Undefined = []"
  by code_simp+

lemma demo_signed: "\<exists>a t. handle_google demo_google (\<lambda>t. t) demo_call demo_accounts = (Inr a, t) \<and> an_status a = 200"
proof -
  obtain cs where cs: "cs = net_calls demo_accounts @ [tokeninfo ''x'']" by blast
  let ?s = "demo_accounts\<lparr>net_calls := cs\<rparr>"
  have p: "field demo_profile ''aud'' = Str ''cid''" "field demo_profile ''iss'' = Str ''accounts.google.com''" "field demo_profile ''email_verified'' = Str ''true''"
     "field demo_profile ''sub'' = Str ''7''" "nullish demo_profile = False"
    by (simp_all add: demo_profile_def nullish_def)
  have c: "google_client demo_google = ''cid''" "configured demo_google" "parse_json demo_google t = Some demo_profile"
     "net_answer demo_google n k = Inr \<lparr>nr_ok = True, nr_status = 200, nr_text = ''{}''\<rparr>" for t n k
    by (simp_all add: google_client_def demo_google_def demo_texts demo_app_def)
  have profile: "google_profile demo_google (\<lambda>t. t) ''x'' demo_accounts = (Inr (Some demo_profile), ?s)"
    by (simp add: google_profile_def bnd_run' fetch_def c p parse_text_def google_issuers_def cs tokeninfo_def)
  have account: "google_account demo_google demo_profile ?s = (Inr \<lparr>acc_id = ''u1'', acc_email = ''ann@bos.io'', acc_name = usr_name demo_user\<rparr>, ?s)"
    by (simp add: google_account_def bnd_run' users_with_email_def demo_texts demo_accounts_def demo_user_def)
  have none: "select_workspaces ''u1'' None (fold backfill_owner (workspaces demo_accounts) ?s) = []"
    by (simp add: select_workspaces_def demo_accounts_def backfill_owner_def is_member_def empty_db_def)
  have workspace: "\<exists>w t. google_workspace demo_google \<lparr>acc_id = ''u1'', acc_email = ''ann@bos.io'', acc_name = usr_name demo_user\<rparr> [] demo_profile ?s = (Inr w, t)
      \<and> users t = users demo_accounts \<and> sessions t = sessions demo_accounts"
    by (simp add: google_workspace_def getWorkspaceForUser_def bnd_run' ensure_run c none split: option.split)
  then obtain w t where w: "google_workspace demo_google \<lparr>acc_id = ''u1'', acc_email = ''ann@bos.io'', acc_name = usr_name demo_user\<rparr> [] demo_profile ?s = (Inr w, t)"
    "users t = users demo_accounts" "sessions t = sessions demo_accounts" by blast
  have session: "\<exists>token e u. create_session demo_google ''u1'' None t = (Inr (token, e), u)"
    using w(2,3) by (simp add: create_session_run c Let_def insert_session_def guarded_def new_session_def demo_accounts_def demo_user_def demo_google_def demo_app_def empty_db_def)
  then obtain token e u where session: "create_session demo_google ''u1'' None t = (Inr (token, e), u)" by blast
  have "google_sign_in demo_google (\<lambda>t. t) (\<lambda>w. None) ''Google account profile is incomplete'' ''x'' [] demo_accounts = (Inr (google_answer \<lparr>acc_id = ''u1'', acc_email = ''ann@bos.io'', acc_name = usr_name demo_user\<rparr> w token), u)"
    using profile account w(1) session by (simp add: google_sign_in_def bnd_run' demo_texts p c)
  then show ?thesis
    by (simp add: handle_google_def google_handler_run try_catch_def demo_call_def body_fields_def nullish_def js_or_def demo_texts c google_answer_def answer_def)
qed
theorem google_sign_in_is_vouched_for_witness:
  "\<exists>a t. handle_google demo_google (\<lambda>t. t) demo_call demo_accounts = (Inr a, t) \<and> an_status a = 200 \<and> an_cookie a \<noteq> None"
proof -
  obtain a t where run: "handle_google demo_google (\<lambda>t. t) demo_call demo_accounts = (Inr a, t)" "an_status a = 200" using demo_signed by blast
  then show ?thesis using google_sign_in_is_vouched_for [OF run(1) demo_accounts_ok] by blast
qed

end
