(* ===== verification/IntegrationRoutes.thy ===== *)
theory IntegrationRoutes
  imports Connectors SaasAccess
begin

text \<open>
  The catalogue of connectors and their connection tests (\<^verbatim>\<open>modules/integrations/connector_registry.js\<close>),
  the routes that connect, test and disconnect them (\<^verbatim>\<open>apps/api/integration_routes.js\<close>) and those that
  publish and disable workflows (\<^verbatim>\<open>apps/api/workflow_controls.js\<close>). The message of a \<^verbatim>\<open>SyntaxError\<close> is a
  parameter.
\<close>

section \<open>The catalogue\<close>

definition input_field :: "string \<Rightarrow> string \<Rightarrow> string \<Rightarrow> bool \<Rightarrow> (string \<times> string) list \<Rightarrow> jsval" where
  "input_field key label type required extra =
     Obj ([(''key'', Str key), (''label'', Str label), (''type'', Str type), (''required'', Boolean required)] @ map (\<lambda>(k, v). (k, Str v)) extra)"

definition catalog_entry :: "string \<Rightarrow> string \<Rightarrow> string \<Rightarrow> string \<Rightarrow> string list \<Rightarrow> jsval list \<Rightarrow> jsval" where
  "catalog_entry name category mode description capabilities inputs =
     Obj [(''name'', Str name), (''category'', Str category), (''mode'', Str mode), (''description'', Str description),
          (''capabilities'', Arr (map Str capabilities)), (''fields'', Arr inputs)]"

definition CATALOG :: "jsval js_map" where
  "CATALOG =
     [(''whatsapp_cloud'', catalog_entry ''WhatsApp Cloud'' ''Messaging'' ''credentials'' ''Send WhatsApp messages from BOS workflows through Meta Cloud API.'' [''send_message'']
        [input_field ''accessToken'' ''Access token'' ''secret'' True [(''help'', ''Meta system-user or permanent access token.'')],
         input_field ''phoneNumberId'' ''Phone number ID'' ''text'' True [],
         input_field ''businessAccountId'' ''Business account ID'' ''text'' False [],
         input_field ''graphVersion'' ''Graph API version'' ''text'' False [(''default'', ''v23.0'')]]),
      (''resend'', catalog_entry (''Email '' @ [CHR 0xB7] @ '' Resend'') ''Email'' ''credentials'' ''Send transactional email from BOS workflows using Resend.'' [''send_email'']
        [input_field ''apiKey'' ''Resend API key'' ''secret'' True [(''help'', ''Create a restricted API key in Resend.'')],
         input_field ''fromEmail'' ''From email'' ''text'' True [(''help'', ''Use a verified sender/domain.'')]]),
      (''paystack'', catalog_entry ''Paystack'' ''Payments'' ''credentials'' ''Connect Nigerian payment operations and verify your Paystack account.''
        [''payment_events'', ''verify_transaction'']
        [input_field ''secretKey'' ''Secret key'' ''secret'' True [(''help'', ''Use a Paystack secret key. Keep it private.'')]]),
      (''stripe'', catalog_entry ''Stripe'' ''Payments'' ''credentials'' ''Connect Stripe billing and payment operations to BOS.'' [''payment_events'', ''verify_payment'']
        [input_field ''secretKey'' ''Secret key'' ''secret'' True [(''help'', ''Use a Stripe secret key. Keep it private.'')]]),
      (''google_workspace'', catalog_entry ''Google Workspace'' ''Productivity'' ''oauth'' ''Connect Calendar, Drive and Sheets with Google authorization.''
        [''calendar'', ''drive'', ''sheets''] []),
      (''webhooks'', catalog_entry ''Webhooks'' ''Developer tools'' ''native'' ''Receive events and send signed workflow callbacks.'' [''inbound'', ''outbound''] [])]"

definition getCatalog :: "jsval list" where
  "getCatalog = map (\<lambda>(_, v). Obj (map (\<lambda>k. (k, field v k)) [''name'', ''category'', ''mode'', ''description'', ''capabilities'', ''fields''])) CATALOG"

text \<open>A name every object inherits is found, too: a function or object without the members the code reads.\<close>

definition getConnector :: "string \<Rightarrow> jsval option" where
  "getConnector provider = (case index (Obj CATALOG) (Str (trim provider)) of
       Value v \<Rightarrow> if truthy v then Some v else None
     | Builtin \<Rightarrow> Some (Obj []))"

section \<open>Connection tests\<close>

definition tested :: "string \<Rightarrow> (string \<times> jsval) list \<Rightarrow> jsval" where
  "tested provider fs = Obj ([(''ok'', Boolean True), (''provider'', Str provider)] @ fs)"

definition test_google :: "app_env \<Rightarrow> (string \<Rightarrow> string) \<Rightarrow> string \<Rightarrow> jsval \<Rightarrow> (saas_db, jsval) act" where
  "test_google env syntax provider c =
     (if \<not> truthy (field c ''accessToken'') then throw (Error ''GOOGLE_ACCESS_TOKEN_REQUIRED'')
      else
        bnd (fetch env (get_call ''https://www.googleapis.com/oauth2/v3/userinfo'' [bearer (field c ''accessToken'')])) (\<lambda>r.
        if \<not> nr_ok r then throw (Error ''GOOGLE_TOKEN_INVALID'')
        else (case parse_json env (nr_text r) of
            None \<Rightarrow> throw (Exn ''SyntaxError'' (syntax (nr_text r)) [])
          | Some profile \<Rightarrow>
              if nullish profile then throw null_read_error
              else ret (tested provider [(''account'', js_or (field profile ''email'') (field profile ''sub''))]))))"

definition test_whatsapp :: "app_env \<Rightarrow> string \<Rightarrow> jsval \<Rightarrow> (saas_db, jsval) act" where
  "test_whatsapp env provider c =
     bnd (fetch env (get_call (''https://graph.facebook.com/'' @ encodeURIComponent (to_str (js_or (field c ''graphVersion'') (Str ''v23.0''))) @ ''/''
       @ encodeURIComponent (to_str (field c ''phoneNumberId'')) @ ''?fields=display_phone_number,verified_name,quality_rating'') [bearer (field c ''accessToken'')])) (\<lambda>r.
     let data = json_of env r in
     if \<not> nr_ok r then throw (provider_failure (field (field data ''error'') ''message'') ''WHATSAPP_CONNECTION_FAILED'')
     else if nullish data then throw null_read_error
     else ret (tested provider [(''account'', js_or (field data ''display_phone_number'') (js_or (field data ''verified_name'') (field c ''phoneNumberId''))),
       (''details'', data)]))"

definition test_resend :: "app_env \<Rightarrow> string \<Rightarrow> jsval \<Rightarrow> (saas_db, jsval) act" where
  "test_resend env provider c =
     bnd (fetch env (get_call ''https://api.resend.com/domains'' [bearer (field c ''apiKey'')])) (\<lambda>r.
     let data = json_of env r in
     if \<not> nr_ok r then throw (provider_failure (field data ''message'') ''RESEND_CONNECTION_FAILED'')
     else if nullish data then throw null_read_error
     else ret (tested provider [(''account'', field c ''fromEmail''),
       (''details'', Obj [(''domainCount'', case field data ''data'' of Arr xs \<Rightarrow> Num (int (length xs)) | _ \<Rightarrow> Num 0)])]))"

definition test_paystack :: "app_env \<Rightarrow> string \<Rightarrow> jsval \<Rightarrow> (saas_db, jsval) act" where
  "test_paystack env provider c =
     bnd (fetch env (get_call ''https://api.paystack.co/balance'' [bearer (field c ''secretKey'')])) (\<lambda>r.
     let data = json_of env r in
     if nr_ok r \<and> nullish data then throw null_read_error
     else if \<not> nr_ok r \<or> field data ''status'' = Boolean False then throw (provider_failure (field data ''message'') ''PAYSTACK_CONNECTION_FAILED'')
     else ret (tested provider [(''account'', Str ''Paystack account verified'')]))"

definition test_stripe :: "app_env \<Rightarrow> string \<Rightarrow> jsval \<Rightarrow> (saas_db, jsval) act" where
  "test_stripe env provider c =
     bnd (fetch env (get_call ''https://api.stripe.com/v1/account'' [(''authorization'', Str (''Basic '' @ base64 (to_str (field c ''secretKey'') @ '':'')))])) (\<lambda>r.
     let data = json_of env r in
     if \<not> nr_ok r then throw (provider_failure (field (field data ''error'') ''message'') ''STRIPE_CONNECTION_FAILED'')
     else if nullish data then throw null_read_error
     else ret (tested provider [(''account'', js_or (field (field data ''business_profile'') ''name'') (js_or (field data ''email'') (field data ''id''))),
       (''details'', Obj [(''id'', field data ''id''), (''country'', field data ''country''), (''chargesEnabled'', field data ''charges_enabled'')])]))"

definition testConnector :: "app_env \<Rightarrow> (string \<Rightarrow> string) \<Rightarrow> string \<Rightarrow> jsval \<Rightarrow> (saas_db, jsval) act" where
  "testConnector env syntax provider c = (case getConnector provider of
       None \<Rightarrow> throw (Error ''INTEGRATION_NOT_SUPPORTED'')
     | Some p \<Rightarrow>
         if field p ''mode'' = Str ''native'' then ret (tested provider [(''message'', Str ''Native connector is available.'')])
         else if field p ''mode'' = Str ''oauth'' then test_google env syntax provider c
         else if provider = ''whatsapp_cloud'' then test_whatsapp env provider c
         else if provider = ''resend'' then test_resend env provider c
         else if provider = ''paystack'' then test_paystack env provider c
         else if provider = ''stripe'' then test_stripe env provider c
         else throw (Error ''INTEGRATION_TEST_NOT_IMPLEMENTED''))"

section \<open>Integrations\<close>

definition catalog_reply :: "app_env \<Rightarrow> reply" where
  "catalog_reply env =
     (let client = config env ''GOOGLE_CLIENT_ID'' in
      ok_body [(''googleClientId'', js_or (Str client) Null),
        (''integrations'', Arr (map (\<lambda>x. spread x [(''configured'', Boolean (field x ''mode'' \<noteq> Str ''oauth'' \<or> client \<noteq> []))]) getCatalog))])"

definition provider_test_path :: "string \<Rightarrow> string option" where
  "provider_test_path url = (if ends_with url ''/test'' then path_under ''/api/v1/integrations/'' (take (length url - 5) url) else None)"

definition set_integration :: "string \<Rightarrow> string \<Rightarrow> (saas_db \<Rightarrow> integration_row \<Rightarrow> integration_row) \<Rightarrow> (saas_db, unit) act" where
  "set_integration w provider f = exec (\<lambda>s. s\<lparr>integrations := update_where (\<lambda>r. itg_workspace r = w \<and> itg_provider r = provider) (f s) (integrations s)\<rparr>)"

definition supplied_credentials :: "(jsval \<Rightarrow> js_error + string) \<Rightarrow> string \<Rightarrow> string \<Rightarrow> jsval \<Rightarrow> (saas_db, jsval) act" where
  "supplied_credentials dec w provider payload =
     (if truthy (field payload ''credentials'') then ret (field payload ''credentials'')
      else bnd (query (find_integration w provider)) (\<lambda>r. case r of
          None \<Rightarrow> throw (status_error ''INTEGRATION_NOT_CONNECTED'' 404)
        | Some i \<Rightarrow> lift (stored_credentials dec i)))"

definition test_integration ::
  "app_env \<Rightarrow> (jsval \<Rightarrow> js_error + string) \<Rightarrow> (string \<Rightarrow> string) \<Rightarrow> http_request \<Rightarrow> auth \<Rightarrow> string \<Rightarrow> (saas_db, reply) act" where
  "test_integration env dec syntax rq a seg =
     (let provider = clean (Str seg) 80 in
      if getConnector provider = None then throw (status_error ''INTEGRATION_NOT_SUPPORTED'' 404)
      else
        bnd (lift (read_body env rq)) (\<lambda>payload.
        if nullish payload then throw null_read_error
        else
          bnd (supplied_credentials dec (tenant a) provider payload) (\<lambda>c.
          try_catch
            (bnd (testConnector env syntax provider c) (\<lambda>result.
             bnd (set_integration (tenant a) provider (\<lambda>s r. r\<lparr>itg_status := ''connected'', itg_error := None, itg_updated := now s\<rparr>)) (\<lambda>_.
             ret (ok_body [(''result'', result)]))))
            (\<lambda>e. bnd (lift (message_of e)) (\<lambda>m.
             bnd (set_integration (tenant a) provider (\<lambda>s r. r\<lparr>itg_status := ''error'', itg_error := Some (clean m 500), itg_updated := now s\<rparr>)) (\<lambda>_.
             ret (422, Obj [(''status'', Str ''error''), (''code'', Str ''INTEGRATION_TEST_FAILED''), (''message'', m)])))))))"

text \<open>The loops over \<^verbatim>\<open>connector.fields\<close>: the first required field left empty, and the values given.\<close>

definition inputs_of :: "jsval \<Rightarrow> jsval list" where
  "inputs_of connector = (case field connector ''fields'' of Arr xs \<Rightarrow> xs | _ \<Rightarrow> [])"

definition given :: "jsval \<Rightarrow> jsval \<Rightarrow> jsval" where
  "given supplied input = field supplied (to_str (field input ''key''))"

definition missing_input :: "jsval \<Rightarrow> jsval \<Rightarrow> bool" where
  "missing_input supplied input \<longleftrightarrow> truthy (field input ''required'') \<and> clean (given supplied input) 2000 = []"

definition kept_inputs :: "jsval \<Rightarrow> jsval list \<Rightarrow> jsval js_map" where
  "kept_inputs supplied inputs =
     [(to_str (field i ''key''), Str (to_str (given supplied i))). i \<leftarrow> inputs, \<not> nullish (given supplied i) \<and> to_str (given supplied i) \<noteq> []]"

text \<open>\<^verbatim>\<open>INSERT INTO bos_integrations ... ON CONFLICT(workspace_id,provider) DO UPDATE SET\<close> every column but the identifier\<close>

definition replace_integration :: "integration_row \<Rightarrow> (saas_db, unit) act" where
  "replace_integration r = guarded
     (\<lambda>s. if \<exists>x \<in> set (integrations s). itg_workspace x = itg_workspace r \<and> itg_provider x = itg_provider r
       then (if no_user (itg_by r) s then Some (foreign_key_violation ''bos_integrations_connected_by_fkey'') else None)
       else first_error
       [(\<exists>x \<in> set (integrations s). itg_id x = itg_id r, unique_violation ''bos_integrations_pkey''),
        (no_workspace (itg_workspace r) s, foreign_key_violation ''bos_integrations_workspace_id_fkey''),
        (no_user (itg_by r) s, foreign_key_violation ''bos_integrations_connected_by_fkey'')])
     (\<lambda>s. if \<exists>x \<in> set (integrations s). itg_workspace x = itg_workspace r \<and> itg_provider x = itg_provider r
       then s\<lparr>integrations := update_where (\<lambda>x. itg_workspace x = itg_workspace r \<and> itg_provider x = itg_provider r) (\<lambda>x. r\<lparr>itg_id := itg_id x\<rparr>) (integrations s)\<rparr>
       else s\<lparr>integrations := integrations s @ [r]\<rparr>)"

definition connect_provider ::
  "app_env \<Rightarrow> (jsval \<Rightarrow> js_error + string) \<Rightarrow> (string \<Rightarrow> string) \<Rightarrow> http_request \<Rightarrow> auth \<Rightarrow> string \<Rightarrow> (saas_db, reply) act" where
  "connect_provider env enc syntax rq a seg =
     (let provider = clean (Str seg) 80 in case getConnector provider of
        None \<Rightarrow> throw (status_error ''INTEGRATION_NOT_SUPPORTED'' 404)
      | Some connector \<Rightarrow>
          bnd (lift (read_body env rq)) (\<lambda>p.
          if nullish p then throw null_read_error
          else
            let supplied = (if is_ref (field p ''credentials'') then field p ''credentials'' else Obj []) in
            case filter (missing_input supplied) (inputs_of connector) of
              i # _ \<Rightarrow> throw (status_error (toUpperCase (to_str (field i ''key'')) @ ''_REQUIRED'') 400)
            | [] \<Rightarrow>
                let c = kept_inputs supplied (inputs_of connector) in
                bnd (testConnector env syntax provider (Obj c)) (\<lambda>result.
                bnd (lift (encrypt_fields enc c)) (\<lambda>encrypted.
                bnd (randomUUID env ''integration_'') (\<lambda>i.
                bnd (lift (json_param env (js_or (field p ''config'') (Obj [])))) (\<lambda>conf.
                bnd (query now) (\<lambda>time.
                bnd (replace_integration \<lparr>itg_id = i, itg_workspace = tenant a, itg_provider = provider, itg_status = ''connected'',
                       itg_credentials = Obj encrypted, itg_config = conf, itg_by = au_user a, itg_error = None, itg_connected = time, itg_updated = time\<rparr>) (\<lambda>_.
                bnd (audit env (tenant a) (au_user a) ''integration.connected'' ''integration'' provider (Obj [(''account'', js_or (field result ''account'') Null)])) (\<lambda>_.
                ret (201, Obj [(''status'', Str ''connected''), (''provider'', Str provider), (''account'', js_or (field result ''account'') Null), (''result'', result)]))))))))))"

definition disconnect_provider :: "app_env \<Rightarrow> auth \<Rightarrow> string \<Rightarrow> (saas_db, reply) act" where
  "disconnect_provider env a seg =
     (let provider = clean (Str seg) 80 in
      bnd (set_integration (tenant a) provider (\<lambda>s r. r\<lparr>itg_status := ''disconnected'', itg_credentials := Obj [], itg_updated := now s\<rparr>)) (\<lambda>_.
      bnd (audit env (tenant a) (au_user a) ''integration.disconnected'' ''integration'' provider (Obj [])) (\<lambda>_.
      ret (200, Obj [(''status'', Str ''disconnected''), (''provider'', Str provider)]))))"

definition answered :: "(saas_db, reply) act \<Rightarrow> (saas_db, reply option) act" where
  "answered m = bnd m (\<lambda>r. ret (Some r))"

definition write_route ::
  "app_env \<Rightarrow> (jsval \<Rightarrow> js_error + string) \<Rightarrow> (jsval \<Rightarrow> js_error + string) \<Rightarrow> (string \<Rightarrow> string) \<Rightarrow> http_request \<Rightarrow> auth \<Rightarrow> (saas_db, reply option) act" where
  "write_route env enc dec syntax rq a =
     (case (if hr_method rq = ''POST'' then provider_test_path (hr_path rq) else None) of
        Some seg \<Rightarrow> answered (test_integration env dec syntax rq a seg)
      | None \<Rightarrow> (case path_under ''/api/v1/integrations/'' (hr_path rq) of
          None \<Rightarrow> ret None
        | Some seg \<Rightarrow>
            if hr_method rq = ''POST'' then answered (connect_provider env enc syntax rq a seg)
            else if hr_method rq = ''DELETE'' then answered (disconnect_provider env a seg)
            else ret None))"

definition handleIntegrationRoute ::
  "app_env \<Rightarrow> (jsval \<Rightarrow> js_error + string) \<Rightarrow> (jsval \<Rightarrow> js_error + string) \<Rightarrow> (string \<Rightarrow> string) \<Rightarrow> http_request \<Rightarrow> auth option \<Rightarrow> (saas_db, reply option) act" where
  "handleIntegrationRoute env enc dec syntax rq who =
     (if \<not> prefix ''/api/v1/integrations'' (hr_path rq) then ret None
      else if hr_method rq = ''GET'' \<and> hr_path rq = ''/api/v1/integrations/catalog'' then ret (Some (catalog_reply env))
      else (case who of
          None \<Rightarrow> throw (status_error ''UNAUTHENTICATED'' 401)
        | Some a \<Rightarrow>
            bnd (storeOr env (status_error ''DATABASE_NOT_CONFIGURED'' 503)) (\<lambda>_.
            if hr_method rq = ''GET'' \<and> hr_path rq = ''/api/v1/integrations'' then
              bnd (requireWorkspace a None) (\<lambda>_. answered (list_integrations env a))
            else bnd (requireWorkspace a (Some write_roles)) (\<lambda>_. write_route env enc dec syntax rq a))))"

section \<open>Workflow controls\<close>

definition control_path :: "string \<Rightarrow> string \<Rightarrow> string option" where
  "control_path verb url = (if ends_with url (CHR ''/'' # verb) then path_under ''/api/v1/workflows/'' (take (length url - Suc (length verb)) url) else None)"

definition active_role :: "auth \<Rightarrow> saas_db \<Rightarrow> string option" where
  "active_role a s = (case au_tenant a of None \<Rightarrow> None
     | Some w \<Rightarrow> map_option mem_role (row0 (filter (\<lambda>m. mem_workspace m = w \<and> mem_user m = au_user a \<and> mem_status m = ''active'') (members s))))"

text \<open>\<^verbatim>\<open>UPDATE bos_workflows SET status=..., updated_at=NOW() WHERE id=$1\<close>\<close>

definition set_status :: "string \<Rightarrow> string \<Rightarrow> (saas_db, unit) act" where
  "set_status i status = exec (\<lambda>s. s\<lparr>workflows := update_where (\<lambda>f. wfl_id f = i) (\<lambda>f. f\<lparr>wfl_status := status, wfl_updated := now s\<rparr>) (workflows s)\<rparr>)"

definition complete_definition :: "jsval \<Rightarrow> bool" where
  "complete_definition v \<longleftrightarrow> (let d = js_or v (Obj []) in truthy (field d ''trigger'') \<and> (case field d ''steps'' of Arr _ \<Rightarrow> True | _ \<Rightarrow> False))"

definition control_publish :: "app_env \<Rightarrow> auth \<Rightarrow> string \<Rightarrow> workflow_row \<Rightarrow> (saas_db, reply) act" where
  "control_publish env a i f =
     bnd (query (\<lambda>s. current_definition s i (wfl_version f))) (\<lambda>v. case v of
       None \<Rightarrow> throw (status_error ''WORKFLOW_VERSION_NOT_FOUND'' 404)
     | Some d \<Rightarrow>
         if \<not> complete_definition d then throw (status_error ''INVALID_WORKFLOW'' 400)
         else
           bnd (set_status i ''published'') (\<lambda>_.
           bnd (audit env (tenant a) (au_user a) ''workflow.published'' ''workflow'' i (Obj [(''version'', Num (wfl_version f))])) (\<lambda>_.
           ret (200, Obj [(''status'', Str ''published''), (''version'', Num (wfl_version f))]))))"

definition control_disable :: "app_env \<Rightarrow> auth \<Rightarrow> string \<Rightarrow> (saas_db, reply) act" where
  "control_disable env a i =
     bnd (set_status i ''disabled'') (\<lambda>_.
     bnd (audit env (tenant a) (au_user a) ''workflow.disabled'' ''workflow'' i (Obj [])) (\<lambda>_.
     ret (200, Obj [(''status'', Str ''disabled'')])))"

definition control_route :: "app_env \<Rightarrow> auth \<Rightarrow> bool \<Rightarrow> string \<Rightarrow> (saas_db, reply) act" where
  "control_route env a publishing i =
     bnd (storeOr env (status_error ''DATABASE_NOT_CONFIGURED'' 503)) (\<lambda>_.
     bnd (query (active_role a)) (\<lambda>r.
     if (case r of None \<Rightarrow> True | Some role \<Rightarrow> role \<notin> set write_roles) then throw (status_error ''INSUFFICIENT_PERMISSIONS'' 403)
     else
       bnd (query (find_workflow (tenant a) i)) (\<lambda>w. case w of
         None \<Rightarrow> throw (status_error ''WORKFLOW_NOT_FOUND'' 404)
       | Some f \<Rightarrow> if publishing then control_publish env a i f else control_disable env a i)))"

definition handleWorkflowControl :: "app_env \<Rightarrow> http_request \<Rightarrow> auth option \<Rightarrow> (saas_db, reply option) act" where
  "handleWorkflowControl env rq who = (case who of
       None \<Rightarrow> ret None
     | Some a \<Rightarrow> (case control_path ''publish'' (hr_path rq) of
         Some i \<Rightarrow> answered (control_route env a True i)
       | None \<Rightarrow> (case control_path ''disable'' (hr_path rq) of
           Some i \<Rightarrow> answered (control_route env a False i)
         | None \<Rightarrow> ret None)))"

end
