(* ===== verification/IntegrationProperties.thy ===== *)
theory IntegrationProperties
  imports IntegrationRoutes SaasHistories
begin

text \<open>
  Who can use the routes of integrations and workflow controls, what they change, and what has been
  established when a connection is stored or a workflow published.
\<close>

section \<open>Changes\<close>

locale api_change = member_change R w u True True for R :: "saas_db \<Rightarrow> saas_db \<Rightarrow> bool" and w u :: string +
  assumes calling: "R s (s\<lparr>net_calls := net_calls s @ [c]\<rparr>)"
begin

lemma moves_call [valid_intros]: "moves R (fetch env c)"
  by (simp add: moves_def fetch_def calling)

lemma moves_tests [valid_intros]: "moves R (testConnector env syntax provider c)"
  unfolding testConnector_def test_google_def test_whatsapp_def test_resend_def test_paystack_def test_stripe_def Let_def
  by (intro valid_intros)

lemma moves_audits [valid_intros]: "moves R (audit env w u action type i meta)"
  by (rule moves_audit [OF TrueI])

lemma moves_set_integration: "(\<And>s r. itg_workspace (f s r) = itg_workspace r) \<Longrightarrow> moves R (set_integration w p f)"
  unfolding set_integration_def
  by (rule moves_exec) (use update_integrations [of "f s" s p for s] in \<open>simp add: integration_at_def [abs_def]\<close>)

lemma moves_replace_integration:
  assumes "itg_workspace it = w"
  shows "moves R (replace_integration it)"
  unfolding replace_integration_def
proof (rule moves_guarded)
  fix s :: saas_db
  let ?at = "\<lambda>x. itg_workspace x = itg_workspace it \<and> itg_provider x = itg_provider it"
  let ?h = "\<lambda>x. it\<lparr>itg_id := itg_id x, itg_workspace := itg_workspace x\<rparr>"
  have row: "?h x = it\<lparr>itg_id := itg_id x\<rparr>" if "?at x" for x using that by (cases it) simp
  have at: "?at = integration_at w (itg_provider it)" using assms by (simp add: integration_at_def [abs_def])
  have "update_where ?at (\<lambda>x. it\<lparr>itg_id := itg_id x\<rparr>) (integrations s) = update_where (integration_at w (itg_provider it)) ?h (integrations s)"
    unfolding at [symmetric] update_where_def by (rule map_cong [OF refl]) (use row in auto)
  then show "R s (if \<exists>x \<in> set (integrations s). ?at x then s\<lparr>integrations := update_where ?at (\<lambda>x. it\<lparr>itg_id := itg_id x\<rparr>) (integrations s)\<rparr>
       else s\<lparr>integrations := integrations s @ [it]\<rparr>)"
    using update_integrations [of ?h s "itg_provider it"] add_integration [OF TrueI assms, of s] by simp
qed

lemma moves_write_route:
  assumes "tenant a = w" "au_user a = u"
  shows "moves R (write_route env enc dec syntax rq a)"
  unfolding write_route_def answered_def test_integration_def connect_provider_def disconnect_provider_def supplied_credentials_def Let_def assms
  by (intro valid_intros moves_set_integration moves_replace_integration) simp_all

lemma set_status_here:
  assumes "distinct (map wfl_id (workflows s))" "find_workflow w i s = Some f"
  shows "R s (snd (set_status i status s))"
proof -
  have "workflow_at w i g = (wfl_id g = i)" if "g \<in> set (workflows s)" for g
    using unique_row [OF assms(1) that, of f] find_workflow_in [OF assms(2)] by (auto simp: workflow_at_def)
  then have "update_where (\<lambda>g. wfl_id g = i) h (workflows s) = update_where (workflow_at w i) h (workflows s)" for h by (simp add: update_where_def)
  then show ?thesis
    using update_workflows [of "\<lambda>g. g\<lparr>wfl_status := status, wfl_updated := now s\<rparr>" s i] by (simp add: set_status_def unchanged_key_def)
qed

lemma moves_control_route:
  assumes "tenant a = w" "au_user a = u" "distinct (map wfl_id (workflows s))"
  shows "R s (snd (control_route env a publishing i s))"
proof -
  have publish: "R s (snd (control_publish env a i f s))" "R s (snd (control_disable env a i s))" if "find_workflow w i s = Some f" for f
  proof -
    have step: "R s (snd (bnd (set_status i status) (\<lambda>_. bnd (audit env w u action ''workflow'' i meta) (\<lambda>_. ret v)) s))" for status action meta and v :: reply
      by (rule moves_at_bnd [where m = "set_status i status", OF set_status_here [OF assms(3) that]]) (rule movesD, intro valid_intros)
    show "R s (snd (control_publish env a i f s))" "R s (snd (control_disable env a i s))"
      using step assms(1,2) same by (auto simp: control_publish_def control_disable_def bnd_run' [of "query _"] split: option.split)
  qed
  show ?thesis using publish assms(1)
    by (auto simp: control_route_def bnd_run' [of "query _"] storeOr_def same split: option.split)
qed

end

text \<open>Requests change rows of one workspace, and call services.\<close>

definition apart :: "string \<Rightarrow> saas_db \<Rightarrow> saas_db \<Rightarrow> bool" where
  "apart w s t \<longleftrightarrow> within w (s\<lparr>net_calls := []\<rparr>) (t\<lparr>net_calls := []\<rparr>)"

lemma find_workflow_calls [simp]: "find_workflow w i (s\<lparr>net_calls := cs\<rparr>) = find_workflow w i s"
  by (simp add: find_workflow_def)

lemma calls_forgotten:
  "s\<lparr>executions := xs, net_calls := cs\<rparr> = s\<lparr>net_calls := cs, executions := xs\<rparr>"
  "s\<lparr>workflows := fs, net_calls := cs\<rparr> = s\<lparr>net_calls := cs, workflows := fs\<rparr>"
  "s\<lparr>versions := vs, net_calls := cs\<rparr> = s\<lparr>net_calls := cs, versions := vs\<rparr>"
  by simp_all

interpretation apart: api_change "apart w" w u for w u
proof unfold_locales
  show "apart w s v" if "apart w s t" "apart w t v" for s t v using that within_compose unfolding apart_def by blast
  show "apart w s s" for s by (simp add: apart_def within.same)
  show "apart w s (s\<lparr>net_calls := net_calls s @ [c]\<rparr>)" for s c by (simp add: apart_def within.same)
  show "apart w s (s\<lparr>executions := executions s @ [x]\<rparr>)"
    if "exe_workspace x = w" "exe_status x = ''queued''" "find_workflow w (exe_workflow x) s = Some ef" "exe_id x \<notin> exe_id ` set (executions s)"
      "\<forall>y \<in> set (executions s). exe_workspace y = w \<longrightarrow> exe_key y = exe_key x \<longrightarrow> exe_key x = None" for x s ef
    using within.add_execution [where x = x and w = w and s = "s\<lparr>net_calls := []\<rparr>" and ef = ef] that by (simp add: apart_def calls_forgotten)
  show "apart w s (s\<lparr>versions := versions s @ [vr], workflows := update_where (workflow_at w i) g (workflows s)\<rparr>)"
    if "True" "find_workflow w i s = Some f" "unchanged_key g" "\<forall>r. wfl_version (g r) = wfl_version f + 1" "ver_workflow vr = i"
      "ver_number vr = wfl_version f + 1" "ver_id vr \<notin> ver_id ` set (versions s)" "\<forall>y \<in> set (versions s). \<not> (ver_workflow y = i \<and> ver_number y = ver_number vr)" for i s f g vr
    using within.save_version [where w = w and i = i and s = "s\<lparr>net_calls := []\<rparr>" and f = f and g = g and vr = vr] that by (simp add: apart_def calls_forgotten)
  show "apart w s (s\<lparr>workflows := workflows s @ [f], versions := versions s @ [vr]\<rparr>)"
    if "True" "wfl_workspace f = w" "wfl_version f = 1" "wfl_id f \<notin> wfl_id ` set (workflows s)" "ver_workflow vr = wfl_id f" "ver_number vr = 1"
      "ver_id vr \<notin> ver_id ` set (versions s)" "\<forall>y \<in> set (versions s). \<not> (ver_workflow y = wfl_id f \<and> ver_number y = 1)" for f s vr
    using within.add_workflow [where f = f and w = w and s = "s\<lparr>net_calls := []\<rparr>" and vr = vr] that by (simp add: apart_def calls_forgotten)
  show "apart w s (s\<lparr>workflows := update_where (workflow_at w i) g (workflows s)\<rparr>)" if "True" "unchanged_key g" "\<forall>r. wfl_version (g r) = wfl_version r" for g s i
    using within.update_workflows [where g = g and w = w and s = "s\<lparr>net_calls := []\<rparr>" and i = i] that by (simp add: apart_def calls_forgotten)
qed (auto simp: apart_def now_def elsewhere_def others_integration intro!: within_same_versions)

lemma answered_state [simp]: "snd (answered m s) = snd (m s)"
  by (simp add: answered_def bnd_run' split: prod.split sum.split)

text \<open>C19: Safety. Integrations and workflow controls: whatever the request and its outcome, these routes change
  something only for a signed-in active owner or admin of the session's workspace, and then nothing
  of any other workspace; a published or disabled workflow belongs to that workspace although the
  statement names only its identifier.\<close>

theorem controls_need_a_writer:
  assumes "distinct (map wfl_id (workflows s))" "t = snd (handleIntegrationRoute env enc dec syntax rq who s) \<or> t = snd (handleWorkflowControl env rq who s)" "t \<noteq> s"
  shows "\<exists>a. who = Some a \<and> (\<exists>m \<in> set (members s). mem_workspace m = tenant a \<and> mem_user m = au_user a \<and> mem_status m = ''active'' \<and> mem_role m \<in> {''owner'', ''admin''})
    \<and> apart (tenant a) s t"
proof -
  from assms(2) show ?thesis
  proof
    assume t: "t = snd (handleIntegrationRoute env enc dec syntax rq who s)"
    then obtain a where a: "who = Some a" using assms(3) by (cases who) (auto simp: handleIntegrationRoute_def)
    have idle: "requireWorkspace a r s = (x, s)" if "requireWorkspace a r s = (x, y)" for r x y using requireWorkspace_state [of a r s] that by (simp del: requireWorkspace_state)
    have unchanged: "snd (bnd (requireWorkspace a None) (\<lambda>_. answered (list_integrations env a)) s) = s"
      by (simp add: bnd_run' answered_def list_integrations_def split: prod.split sum.split) (metis requireWorkspace_state snd_conv)
    have "snd (bnd (requireWorkspace a (Some write_roles)) (\<lambda>_. write_route env enc dec syntax rq a) s) = t"
      using t assms(3) unchanged by (auto simp: a handleIntegrationRoute_def bnd_run' [of "storeOr _ _"] storeOr_def split: if_splits)
    then obtain m where m: "requireWorkspace a (Some write_roles) s = (Inr m, s)" and t': "t = snd (write_route env enc dec syntax rq a s)"
    proof (cases "requireWorkspace a (Some write_roles) s")
      case (Pair r s')
      have "s' = s" using idle [OF Pair] Pair by simp
      then show ?thesis using Pair that assms(3) \<open>snd _ = t\<close> by (cases r) (auto simp: bnd_run')
    qed
    have "m \<in> set (members s) \<and> mem_workspace m = tenant a \<and> mem_user m = au_user a"
      using requireWorkspace_Inr(2) [OF m] by (auto simp: find_member_def dest!: row0_in)
    moreover have "mem_role m \<in> {''owner'', ''admin''}" using requireWorkspace_Inr(4) [OF m refl] by (simp add: write_roles_def)
    moreover have "apart (tenant a) s t" unfolding t' by (rule movesD [OF apart.moves_write_route [OF refl refl]])
    ultimately show ?thesis using a requireWorkspace_Inr(3) [OF m] by blast
  next
    assume t: "t = snd (handleWorkflowControl env rq who s)"
    then obtain a where a: "who = Some a" using assms(3) by (cases who) (auto simp: handleWorkflowControl_def)
    obtain publishing i where run: "t = snd (control_route env a publishing i s)"
      using t assms(3) a by (auto simp: handleWorkflowControl_def answered_state split: option.splits)
    then obtain role where role: "active_role a s = Some role" "role \<in> set write_roles"
      using assms(3) by (auto simp: control_route_def bnd_run' [of "query _"] bnd_run' [of "storeOr _ _"] storeOr_def split: option.splits if_splits)
    then obtain m where "m \<in> set (members s)" "mem_workspace m = tenant a" "mem_user m = au_user a" "mem_status m = ''active''" "mem_role m = role"
      by (auto simp: active_role_def tenant_def split: option.splits dest!: row0_in)
    moreover have "apart (tenant a) s t" unfolding run by (rule apart.moves_control_route [OF refl refl assms(1)])
    ultimately show ?thesis using a role(2) unfolding write_roles_def by (intro exI [of _ a] conjI bexI [of _ m]) auto
  qed
qed

lemma audit_keeps: "audit env w u action type i meta s = (r, t) \<Longrightarrow> integrations t = integrations s \<and> workflows t = workflows s"
  by (cases "json_param env meta") (auto simp: audit_def bnd_run' guarded_def split: option.splits)

lemma audited: "workflows (snd (bnd (audit env w u action type i meta) (\<lambda>_. ret v) s)) = workflows s"
  by (simp add: bnd_run' split: prod.split sum.split) (metis audit_keeps)

definition demo_disable :: http_request where
  "demo_disable = demo_get\<lparr>hr_method := ''POST'', hr_path := ''/api/v1/workflows/f1/disable''\<rparr>"

theorem controls_need_a_writer_witness:
  "apart ''w1'' demo_saas (snd (handleWorkflowControl demo_app demo_disable (Some demo_auth) demo_saas))
   \<and> wfl_status (hd (workflows (snd (handleWorkflowControl demo_app demo_disable (Some demo_auth) demo_saas)))) = ''disabled''"
proof -
  let ?t = "snd (handleWorkflowControl demo_app demo_disable (Some demo_auth) demo_saas)"
  have paths: "control_path ''publish'' (hr_path demo_disable) = None" "control_path ''disable'' (hr_path demo_disable) = Some ''f1''" by code_simp+
  have "active_role demo_auth demo_saas = Some ''owner''" by (simp add: active_role_def demo_auth_def demo_saas_def demo_viewer_def row0_def)
  moreover have "find_workflow ''w1'' ''f1'' demo_saas = Some demo_workflow" by (rule demo_found)
  ultimately have "workflows ?t = update_where (\<lambda>f. wfl_id f = ''f1'') (\<lambda>f. f\<lparr>wfl_status := ''disabled'', wfl_updated := now demo_saas\<rparr>) (workflows demo_saas)"
    by (simp add: handleWorkflowControl_def paths control_route_def control_disable_def set_status_def storeOr_def demo_app_sized bnd_run' [of "exec _"]
        bnd_run' [of "query _"] bnd_run' [of "bnd _ _"] tenant_def demo_auth_def write_roles_def audited split: prod.split sum.split)
  then have status: "wfl_status (hd (workflows ?t)) = ''disabled''" by (simp add: demo_tables update_where_def demo_workflow_def)
  then have changed: "?t \<noteq> demo_saas" by (auto simp: demo_tables demo_workflow_def)
  have "distinct (map wfl_id (workflows demo_saas))" by (simp add: demo_tables demo_workflow_def)
  from controls_need_a_writer [OF this disjI2 [OF refl] changed] status show ?thesis by (auto simp: demo_auth_def tenant_def)
qed

section \<open>Connecting\<close>

lemma replaced_integration:
  assumes "replace_integration r s = (Inr (), t)"
  shows "\<exists>k. r\<lparr>itg_id := k\<rparr> \<in> set (integrations t)"
proof -
  let ?at = "\<lambda>x. itg_workspace x = itg_workspace r \<and> itg_provider x = itg_provider r"
  have t: "t = (if \<exists>x \<in> set (integrations s). ?at x then s\<lparr>integrations := update_where ?at (\<lambda>x. r\<lparr>itg_id := itg_id x\<rparr>) (integrations s)\<rparr>
       else s\<lparr>integrations := integrations s @ [r]\<rparr>)"
    using assms by (simp add: replace_integration_def guarded_Inr del: first_error.simps)
  show ?thesis
  proof (cases "\<exists>x \<in> set (integrations s). ?at x")
    case True
    then obtain x where "x \<in> set (integrations s)" "?at x" by blast
    then have "r\<lparr>itg_id := itg_id x\<rparr> \<in> set (integrations t)" using True by (auto simp: t update_where_def)
    then show ?thesis by blast
  qed (auto simp: t intro: exI [of _ "itg_id r"])
qed

text \<open>C18: Functional. A connection answered 201 is stored after its provider accepted it: the provider is a
  connector of the catalogue, every required field was given, the connection test succeeded with the
  given fields, and the integration's row holds exactly those fields, each encrypted, as connected
  by the session's user in the session's workspace.\<close>

theorem connections_are_tested:
  assumes "connect_provider env enc syntax rq a seg s = (Inr (201, body), t)"
  shows "\<exists>connector p supplied result s' c it.
     getConnector (clean (Str seg) 80) = Some connector \<and> read_body env rq = Inr p
   \<and> supplied = (if is_ref (field p ''credentials'') then field p ''credentials'' else Obj [])
   \<and> (\<forall>i \<in> set (inputs_of connector). truthy (field i ''required'') \<longrightarrow> clean (given supplied i) 2000 \<noteq> [])
   \<and> testConnector env syntax (clean (Str seg) 80) (Obj (kept_inputs supplied (inputs_of connector))) s = (Inr result, s')
   \<and> encrypt_fields enc (kept_inputs supplied (inputs_of connector)) = Inr c
   \<and> it \<in> set (integrations t) \<and> itg_workspace it = tenant a \<and> itg_provider it = clean (Str seg) 80 \<and> itg_by it = au_user a
   \<and> itg_status it = ''connected'' \<and> itg_credentials it = Obj c"
proof -
  let ?provider = "clean (Str seg) 80"
  obtain connector where connector: "getConnector ?provider = Some connector"
    using assms by (cases "getConnector ?provider") (simp_all add: connect_provider_def)
  obtain p where p: "read_body env rq = Inr p"
    using assms connector by (cases "read_body env rq") (simp_all add: connect_provider_def)
  have "\<not> nullish p" using assms connector p by (auto simp: connect_provider_def)
  define supplied where "supplied = (if is_ref (field p ''credentials'') then field p ''credentials'' else Obj [])"
  have complete: "filter (missing_input supplied) (inputs_of connector) = []"
    using assms connector p \<open>\<not> nullish p\<close> by (cases "filter (missing_input supplied) (inputs_of connector)") (simp_all add: connect_provider_def supplied_def Let_def)
  let ?kept = "kept_inputs supplied (inputs_of connector)"
  obtain x s' where test: "testConnector env syntax ?provider (Obj ?kept) s = (x, s')" by fastforce
  note run = assms [unfolded connect_provider_def Let_def connector option.case, unfolded p lift_simps bnd_ret_left if_not_P [OF \<open>\<not> nullish p\<close>], folded supplied_def, unfolded complete list.case]
  obtain result where result: "testConnector env syntax ?provider (Obj ?kept) s = (Inr result, s')" using run test by (cases x) (auto simp: bnd_run')
  obtain c where c: "encrypt_fields enc ?kept = Inr c" using run by (cases "encrypt_fields enc ?kept") (simp_all add: bnd_run' result)
  obtain conf where conf: "json_param env (js_or (field p ''config'') (Obj [])) = Inr conf"
    using run by (cases "json_param env (js_or (field p ''config'') (Obj []))") (simp_all add: bnd_run' result c)
  have rest: "bnd (replace_integration \<lparr>itg_id = ''integration_'' @ random_uuid env (draws s'), itg_workspace = tenant a, itg_provider = ?provider, itg_status = ''connected'',
         itg_credentials = Obj c, itg_config = conf, itg_by = au_user a, itg_error = None, itg_connected = now s', itg_updated = now s'\<rparr>)
       (\<lambda>_. bnd (audit env (tenant a) (au_user a) ''integration.connected'' ''integration'' ?provider (Obj [(''account'', js_or (field result ''account'') Null)]))
       (\<lambda>_. ret (201::int, Obj [(''status'', Str ''connected''), (''provider'', Str ?provider), (''account'', js_or (field result ''account'') Null), (''result'', result)])))
       (s'\<lparr>draws := Suc (draws s')\<rparr>) = (Inr (201, body), t)"
    using run by (simp add: bnd_run' result c conf now_def)
  obtain r s1 s2 where stored: "replace_integration r s1 = (Inr (), s2)" "integrations t = integrations s2" "itg_workspace r = tenant a" "itg_provider r = ?provider"
      "itg_by r = au_user a" "itg_status r = ''connected''" "itg_credentials r = Obj c"
    using rest by (elim bnd_InrE) (fastforce dest: audit_keeps)
  obtain k where it: "r\<lparr>itg_id := k\<rparr> \<in> set (integrations t)" using replaced_integration [OF stored(1)] stored(2) by auto
  have "itg_workspace (r\<lparr>itg_id := k\<rparr>) = tenant a \<and> itg_provider (r\<lparr>itg_id := k\<rparr>) = ?provider \<and> itg_by (r\<lparr>itg_id := k\<rparr>) = au_user a
      \<and> itg_status (r\<lparr>itg_id := k\<rparr>) = ''connected'' \<and> itg_credentials (r\<lparr>itg_id := k\<rparr>) = Obj c"
    using stored(3-7) by simp
  moreover have "\<forall>i \<in> set (inputs_of connector). truthy (field i ''required'') \<longrightarrow> clean (given supplied i) 2000 \<noteq> []"
    using complete by (auto simp: filter_empty_conv missing_input_def)
  ultimately show ?thesis using connector p supplied_def result c it by blast
qed

definition demo_connect :: http_request where
  "demo_connect = demo_get\<lparr>hr_method := ''POST'', hr_path := ''/api/v1/integrations/paystack'', hr_chunks := [''key'']\<rparr>"

definition demo_payments :: app_env where
  "demo_payments = demo_app\<lparr>parse_json := (\<lambda>_. Some (Obj [(''credentials'', Obj [(''secretKey'', Str ''sk''), (''other'', Str ''x'')])]))\<rparr>"

theorem connections_are_tested_witness:
  "\<exists>body t it. connect_provider demo_payments (\<lambda>v. Inr ''sealed'') (\<lambda>_. []) demo_connect demo_auth ''paystack'' demo_saas = (Inr (201, body), t)
     \<and> it \<in> set (integrations t) \<and> itg_workspace it = ''w1'' \<and> itg_credentials it = Obj [(''secretKey'', Str ''sealed'')]"
proof -
  have kept: "clean (Str ''paystack'') 80 = ''paystack''" "map_option inputs_of (getConnector ''paystack'') = Some [input_field ''secretKey'' ''Secret key'' ''secret'' True [(''help'', ''Use a Paystack secret key. Keep it private.'')]]"
    "filter (missing_input (Obj [(''secretKey'', Str ''sk''), (''other'', Str ''x'')])) [input_field ''secretKey'' ''Secret key'' ''secret'' True [(''help'', ''Use a Paystack secret key. Keep it private.'')]] = []"
    "kept_inputs (Obj [(''secretKey'', Str ''sk''), (''other'', Str ''x'')]) [input_field ''secretKey'' ''Secret key'' ''secret'' True [(''help'', ''Use a Paystack secret key. Keep it private.'')]] = [(''secretKey'', Str ''sk'')]"
    by code_simp+
  obtain connector where connector: "getConnector ''paystack'' = Some connector" using kept(2) by (cases "getConnector ''paystack''") auto
  have "map_option (\<lambda>x. field x ''mode'') (getConnector ''paystack'') = Some (Str ''credentials'')" by code_simp
  then have mode: "field connector ''mode'' = Str ''credentials''" by (simp add: connector)
  let ?body = "Obj [(''credentials'', Obj [(''secretKey'', Str ''sk''), (''other'', Str ''x'')])]"
  have body: "read_body demo_payments demo_connect = Inr ?body" "field ?body ''credentials'' = Obj [(''secretKey'', Str ''sk''), (''other'', Str ''x'')]"
    "field ?body ''status'' = Undefined" "js_or (field ?body ''config'') (Obj []) = Obj []" "is_ref (Obj [(''secretKey'', Str ''sk''), (''other'', Str ''x'')])"
    by (simp add: read_body_def demo_connect_def demo_payments_def demo_get_def, code_simp+)
  have test: "testConnector demo_payments (\<lambda>_. []) ''paystack'' (Obj [(''secretKey'', Str ''sk'')]) s
    = (Inr (tested ''paystack'' [(''account'', Str ''Paystack account verified'')]), s\<lparr>net_calls := net_calls s @ [get_call ''https://api.paystack.co/balance'' [bearer (Str ''sk'')]]\<rparr>)" for s
    using body(3) by (simp add: testConnector_def connector mode test_paystack_def fetch_def bnd_run' demo_payments_def demo_app_def json_of_def Let_def nullish_def)
  have rows: "pg_json demo_payments = Inr" "integrations demo_saas = []" "audits demo_saas = []" "\<exists>x \<in> set (workspaces demo_saas). wsp_tenant x = ''w1''"
      "\<exists>x \<in> set (users demo_saas). usr_id x = ''u0''"
    by (simp_all add: demo_payments_def demo_app_def demo_saas_def demo_accounts_def empty_db_def demo_user_def)
  have "\<exists>body t. connect_provider demo_payments (\<lambda>v. Inr ''sealed'') (\<lambda>_. []) demo_connect demo_auth ''paystack'' demo_saas = (Inr (201, body), t)"
    using kept by (simp add: connect_provider_def connector body test nullish_def bnd_run' Let_def js_or_def json_param_def replace_integration_def
        audit_def guarded_def rows no_workspace_def no_user_def demo_auth_def tenant_def)
  then obtain body t where run: "connect_provider demo_payments (\<lambda>v. Inr ''sealed'') (\<lambda>_. []) demo_connect demo_auth ''paystack'' demo_saas = (Inr (201, body), t)"
    by blast
  from connections_are_tested [OF run] obtain c it where "it \<in> set (integrations t)" "itg_workspace it = ''w1''" "itg_credentials it = Obj [(''secretKey'', Str ''sealed'')]"
    using kept(2-4) by (auto simp: demo_auth_def tenant_def kept(1) connector body)
  then show ?thesis using run by blast
qed

end
