(* ===== verification/Cron.thy ===== *)
theory Cron
  imports SignIn SaasHistories
begin

text \<open>
  The scheduled entry point (\<^verbatim>\<open>GET /api/v1/cron\<close> of \<^verbatim>\<open>api/[...path].js\<close>): it processes one due job as
  the background worker does, and starts the published workflows whose schedule matches the minute.
  The platform's offset from UTC, in minutes and by minute, is a parameter.
\<close>

section \<open>The caller\<close>

text \<open>\<^verbatim>\<open>.replace(/^Bearer\s+/i,'')\<close>\<close>

definition without_bearer :: "string \<Rightarrow> string" where
  "without_bearer t =
     (if toLowerCase (take 6 t) = ''bearer'' \<and> takeWhile is_space (drop 6 t) \<noteq> [] then dropWhile is_space (drop 6 t) else t)"

definition cron_authorized :: "app_env \<Rightarrow> http_call \<Rightarrow> bool" where
  "cron_authorized env rq =
     (let expected = trim (config env ''CRON_SECRET''); supplied = trim (without_bearer (to_str (js_or (hc_authorization rq) (Str [])))) in
      expected \<noteq> [] \<and> supplied = expected)"

section \<open>One job\<close>

definition run_next_job :: "app_env \<Rightarrow> (jsval \<Rightarrow> js_error + string) \<Rightarrow> (saas_db, int) act" where
  "run_next_job env dec =
     bnd (query (next_job env)) (\<lambda>r. case r of
       None \<Rightarrow> ret 0
     | Some j \<Rightarrow>
         bnd (update_job (job_id j) (\<lambda>s x. x\<lparr>job_status := ''running'', job_attempts := job_attempts x + 1\<rparr>)) (\<lambda>_.
         bnd (processJob env dec (j\<lparr>job_status := ''running'', job_attempts := job_attempts j + 1\<rparr>)) (\<lambda>_. ret 1)))"

section \<open>Schedules\<close>

text \<open>The condition \<^verbatim>\<open>matches\<close>, for the minute \<open>m\<close> since the epoch.\<close>

definition every_minutes :: "jsval \<Rightarrow> int \<Rightarrow> bool" where
  "every_minutes n m = (case to_num n of Num k \<Rightarrow> 0 < k \<and> m mod k = 0 | Inf b \<Rightarrow> b \<and> m = 0 | _ \<Rightarrow> False)"

definition clock_time :: "int \<Rightarrow> string" where
  "clock_time m = pad 2 (nat (m div 60 mod 24)) @ '':'' @ pad 2 (nat (m mod 60))"

definition schedule_matches :: "(int \<Rightarrow> int) \<Rightarrow> int \<Rightarrow> jsval \<Rightarrow> bool" where
  "schedule_matches offset m sch =
     (if truthy (field sch ''intervalMinutes'') then every_minutes (field sch ''intervalMinutes'') m
      else if field sch ''minuteOfHour'' \<noteq> Undefined then to_num (field sch ''minuteOfHour'') = Num ((m + offset m) mod 60)
      else if truthy (field sch ''time'') then take 5 (to_str (field sch ''time'')) = clock_time (m + offset m)
      else False)"

definition fires :: "(int \<Rightarrow> int) \<Rightarrow> int \<Rightarrow> jsval \<Rightarrow> bool" where
  "fires offset m d =
     (let t = js_or (field d ''trigger'') (Obj []) in
      field t ''type'' = Str ''schedule'' \<and> schedule_matches offset m (js_or (field t ''schedule'') (Obj [])))"

definition schedule_key :: "workflow_row \<Rightarrow> int \<Rightarrow> string" where
  "schedule_key f time = ''schedule:'' @ wfl_id f @ '':'' @ take 16 (iso_of_ms time)"

text \<open>\<^verbatim>\<open>SELECT ... FROM bos_workflows w JOIN bos_workflow_versions v ON v.workflow_id=w.id AND v.version=w.current_version WHERE w.status='published'\<close>\<close>

definition scheduled_workflows :: "saas_db \<Rightarrow> (workflow_row \<times> jsval) list" where
  "scheduled_workflows s = [(f, ver_definition v). f \<leftarrow> workflows s, v \<leftarrow> versions s,
     ver_workflow v = wfl_id f \<and> ver_number v = wfl_version f \<and> wfl_status f = ''published'']"

definition schedule_workflow :: "app_env \<Rightarrow> int \<Rightarrow> workflow_row \<Rightarrow> jsval \<Rightarrow> (saas_db, bool) act" where
  "schedule_workflow env time f d =
     bnd (randomUUID env ''execution_'') (\<lambda>i.
     bnd (query now) (\<lambda>created.
     bnd (insert_execution (new_execution i (wfl_workspace f) (wfl_id f) (wfl_version f) ''schedule'' (Some (schedule_key f time)) (Obj []) created)) (\<lambda>inserted.
     if inserted then
       bnd (insert_job env (wfl_workspace f) ''workflow.execute'' (Obj [(''executionId'', Str i), (''definition'', d)])) (\<lambda>_. ret True)
     else ret False)))"

fun schedule_each :: "app_env \<Rightarrow> (int \<Rightarrow> int) \<Rightarrow> int \<Rightarrow> (workflow_row \<times> jsval) list \<Rightarrow> (saas_db, int) act" where
  "schedule_each env offset time [] = ret 0"
| "schedule_each env offset time ((f, d) # fs) =
     (if fires offset (time div 60000) d then
        bnd (schedule_workflow env time f d) (\<lambda>inserted.
        bnd (schedule_each env offset time fs) (\<lambda>n. ret (if inserted then n + 1 else n)))
      else schedule_each env offset time fs)"

section \<open>The handler\<close>

definition cron_answer :: "int \<Rightarrow> int \<Rightarrow> http_answer" where
  "cron_answer processed scheduled = answer 200 [(''status'', Str ''ok''), (''processed'', Num processed), (''scheduled'', Num scheduled)]"

definition handle_cron :: "app_env \<Rightarrow> (jsval \<Rightarrow> js_error + string) \<Rightarrow> (int \<Rightarrow> int) \<Rightarrow> http_call \<Rightarrow> (saas_db, http_answer) act" where
  "handle_cron env dec offset rq =
     (if \<not> cron_authorized env rq then ret (answer 401 [(''error'', Str ''UNAUTHORIZED'')])
      else if \<not> configured env then ret (answer 503 [(''error'', Str ''DATABASE_NOT_CONFIGURED'')])
      else
        bnd (try_catch (bnd (run_next_job env dec) (\<lambda>n. ret (Inr n)))
               (\<lambda>e. bnd (lift (message_of e)) (\<lambda>m. ret (Inl (answer 500 [(''error'', Str ''CRON_FAILED''), (''message'', m)]))))) (\<lambda>r. case r of
          Inl a \<Rightarrow> ret a
        | Inr processed \<Rightarrow>
            bnd (query app_now) (\<lambda>time.
            bnd (query scheduled_workflows) (\<lambda>fs.
            bnd (schedule_each env offset time fs) (\<lambda>scheduled.
            ret (cron_answer processed scheduled))))))"

section \<open>What a call does\<close>

text \<open>The job is processed as in a turn of the worker.\<close>

lemma cron_turn: "snd (run_next_job env dec s) = snd (worker_turn env dec s)"
  by (simp add: run_next_job_def worker_turn_def try_catch_def bnd_run' split: option.split prod.split sum.split)

lemma worker_step_fixed:
  assumes "db_step False w ji xi s t"
  shows "workflows t = workflows s \<and> versions t = versions s \<and> app_now t = app_now s"
  using assms by cases auto

lemma worker_fixed:
  "workflows (snd (worker_turn env dec s)) = workflows s \<and> versions (snd (worker_turn env dec s)) = versions s \<and> app_now (snd (worker_turn env dec s)) = app_now s"
proof (cases "next_job env s")
  case None
  then show ?thesis by (simp add: idle_turn)
next
  case (Some j)
  have "workflows t = workflows s \<and> versions t = versions s \<and> app_now t = app_now s" if "db_steps False w ji xi s t" for w ji xi t
    using that by induction (auto dest: worker_step_fixed)
  from this [OF machine_turn [OF Some]] show ?thesis .
qed

definition keyed :: "string \<Rightarrow> string \<Rightarrow> saas_db \<Rightarrow> bool" where
  "keyed w k s \<longleftrightarrow> (\<exists>x \<in> set (executions s). exe_workspace x = w \<and> exe_key x = Some k)"

text \<open>What identifies an execution a schedule starts, and the job that runs it.\<close>

definition start_of :: "execution_row \<Rightarrow> string \<times> string \<times> int \<times> string \<times> string \<times> string option" where
  "start_of x = (exe_workspace x, exe_workflow x, exe_version x, exe_trigger x, exe_status x, exe_key x)"

definition scheduled_start :: "int \<Rightarrow> workflow_row \<times> jsval \<Rightarrow> string \<times> string \<times> int \<times> string \<times> string \<times> string option" where
  "scheduled_start time = (\<lambda>(f, d). (wfl_workspace f, wfl_id f, wfl_version f, ''schedule'', ''queued'', Some (schedule_key f time)))"

definition job_of :: "job_row \<Rightarrow> string \<times> string \<times> string \<times> jsval" where
  "job_of j = (job_workspace j, job_type j, job_status j, job_payload j)"

definition scheduled_job :: "execution_row \<Rightarrow> workflow_row \<times> jsval \<Rightarrow> string \<times> string \<times> string \<times> jsval" where
  "scheduled_job x = (\<lambda>(f, d). (wfl_workspace f, ''workflow.execute'', ''queued'', to_json (Obj [(''executionId'', Str (exe_id x)), (''definition'', d)])))"

definition pending :: "(int \<Rightarrow> int) \<Rightarrow> int \<Rightarrow> saas_db \<Rightarrow> workflow_row \<times> jsval \<Rightarrow> bool" where
  "pending offset time s = (\<lambda>(f, d). fires offset (time div 60000) d \<and> \<not> keyed (wfl_workspace f) (schedule_key f time) s)"

lemma schedule_workflow_runs:
  assumes "schedule_workflow env time f d s = (Inr inserted, u)"
  shows "if inserted
    then \<exists>x j. executions u = executions s @ [x] \<and> jobs u = jobs s @ [j] \<and> start_of x = scheduled_start time (f, d) \<and> job_of j = scheduled_job x (f, d)
      \<and> \<not> keyed (wfl_workspace f) (schedule_key f time) s
    else executions u = executions s \<and> jobs u = jobs s \<and> keyed (wfl_workspace f) (schedule_key f time) s"
  using assms
  by (auto simp: schedule_workflow_def insert_execution_def insert_job_def bnd_run' guarded_def keyed_def new_execution_def start_of_def scheduled_start_def
      job_of_def scheduled_job_def split: if_splits option.splits)

lemma schedule_key_inj: "schedule_key f time = schedule_key g time \<longleftrightarrow> wfl_id f = wfl_id g"
  by (simp add: schedule_key_def)

lemma schedule_each_runs:
  assumes "schedule_each env offset time fs s = (Inr n, u)" "distinct (map (wfl_id \<circ> fst) fs)"
  shows "\<exists>xs js. executions u = executions s @ xs \<and> jobs u = jobs s @ js \<and> n = int (length xs)
    \<and> map start_of xs = map (scheduled_start time) (filter (pending offset time s) fs)
    \<and> map job_of js = map2 scheduled_job xs (filter (pending offset time s) fs)"
  using assms
proof (induction env offset time fs arbitrary: s n rule: schedule_each.induct)
  case (2 env offset time f d fs)
  show ?case
  proof (cases "fires offset (time div 60000) d")
    case False
    then show ?thesis using 2 by (simp add: pending_def)
  next
    case True
    obtain b s1 n1 where one: "schedule_workflow env time f d s = (Inr b, s1)" and rest: "schedule_each env offset time fs s1 = (Inr n1, u)"
      and n: "n = (if b then n1 + 1 else n1)"
      using 2(3) True by (auto elim!: bnd_InrE)
    obtain xs js where IH: "executions u = executions s1 @ xs" "jobs u = jobs s1 @ js" "n1 = int (length xs)"
        "map start_of xs = map (scheduled_start time) (filter (pending offset time s1) fs)"
        "map job_of js = map2 scheduled_job xs (filter (pending offset time s1) fs)"
      using 2(1) [OF True rest] 2(4) by auto
    note first = schedule_workflow_runs [OF one]
    have same: "filter (pending offset time s1) fs = filter (pending offset time s) fs"
    proof (rule filter_cong [OF refl])
      fix g assume g: "g \<in> set fs"
      then have "wfl_id (fst g) \<noteq> wfl_id f" using 2(4) by force
      then have "schedule_key (fst g) time \<noteq> schedule_key f time" by (simp add: schedule_key_inj)
      then show "pending offset time s1 g = pending offset time s g"
        using first by (cases g) (auto simp: pending_def keyed_def start_of_def scheduled_start_def split: if_splits)
    qed
    show ?thesis
    proof (cases b)
      case False
      then show ?thesis using first IH n same True by (auto simp: pending_def)
    next
      case b: True
      then obtain x j where x: "executions s1 = executions s @ [x]" "jobs s1 = jobs s @ [j]" "start_of x = scheduled_start time (f, d)"
          "job_of j = scheduled_job x (f, d)" "\<not> keyed (wfl_workspace f) (schedule_key f time) s"
        using first by auto
      have "pending offset time s (f, d)" using True x(5) by (simp add: pending_def)
      then show ?thesis using IH x n b unfolding same by (intro exI [of _ "x # xs"] exI [of _ "j # js"]) simp
    qed
  qed
qed simp

lemma one_of_each:
  assumes "distinct (map h (filter P xs))"
  shows "length (filter (\<lambda>v. P v \<and> h v = n) xs) \<le> 1"
proof -
  have "length (filter (\<lambda>v. h v = n) ys) \<le> 1" if "distinct (map h ys)" for ys
    using that
  proof (induction ys)
    case (Cons y ys)
    have "h v \<noteq> n" if "h y = n" "v \<in> set ys" for v using Cons.prems that by (metis distinct.simps(2) image_eqI list.simps(9) set_map)
    then have "filter (\<lambda>v. h v = n) ys = []" if "h y = n" using that by (simp add: filter_empty_conv)
    then show ?case using Cons by auto
  qed simp
  from this [OF assms] show ?thesis by (simp add: conj_commute)
qed

lemma distinct_concat_singles:
  assumes "distinct (map g fs)" "\<And>f. f \<in> set fs \<Longrightarrow> length (A f) \<le> 1" "\<And>f x. x \<in> set (A f) \<Longrightarrow> k x = g f"
  shows "distinct (map k (concat (map A fs)))"
  using assms(1,2)
proof (induction fs)
  case (Cons f fs)
  have "distinct (map k xs)" if "length xs \<le> 1" for xs using that by (cases xs) auto
  then have "distinct (map k (A f))" using Cons.prems(2) by simp
  moreover have "distinct (map k (concat (map A fs)))" by (rule Cons.IH) (use Cons.prems in auto)
  moreover have "set (map k (A f)) \<inter> set (map k (concat (map A fs))) = {}"
  proof -
    have "x \<noteq> y" if "x \<in> set (map k (A f))" "y \<in> set (map k (concat (map A fs)))" for x y
      using that assms(3) Cons.prems(1) by auto
    then show ?thesis by blast
  qed
  ultimately have "distinct (map k (A f) @ map k (concat (map A fs)))" by (simp only: distinct_append)
  then show ?case by simp
qed simp

lemma scheduled_once:
  assumes "versions_ok s"
  shows "distinct (map (wfl_id \<circ> fst) (scheduled_workflows s))"
proof -
  let ?A = "\<lambda>f. if wfl_status f = ''published'' then map (\<lambda>v. (f, ver_definition v)) (filter (\<lambda>v. ver_workflow v = wfl_id f \<and> ver_number v = wfl_version f) (versions s)) else []"
  have "concat (map (\<lambda>v. if ver_workflow v = wfl_id f \<and> ver_number v = wfl_version f \<and> wfl_status f = ''published'' then [(f, ver_definition v)] else []) vs)
      = (if wfl_status f = ''published'' then map (\<lambda>v. (f, ver_definition v)) (filter (\<lambda>v. ver_workflow v = wfl_id f \<and> ver_number v = wfl_version f) vs) else [])" for f :: workflow_row and vs :: "version_row list"
    by (induction vs) simp_all
  then have "scheduled_workflows s = concat (map ?A (workflows s))" unfolding scheduled_workflows_def by (simp only:)
  moreover have "distinct (map (wfl_id \<circ> fst) (concat (map ?A (workflows s))))"
  proof (rule distinct_concat_singles [where g = wfl_id])
    show "length (?A f) \<le> 1" if "f \<in> set (workflows s)" for f
      using one_of_each [of ver_number "\<lambda>v. ver_workflow v = wfl_id f" "versions s" "wfl_version f"] that assms by (simp add: versions_ok_def version_numbers_def)
  qed (use assms in \<open>auto simp: versions_ok_def split: if_splits\<close>)
  ultimately show ?thesis by simp
qed

lemma cron_runs:
  assumes "handle_cron env dec offset rq s = (Inr a, u)" "an_status a = 200" "versions_ok s"
  shows "\<exists>xs js p. let v = snd (worker_turn env dec s); fs = filter (pending offset (app_now s) v) (scheduled_workflows s) in
     cron_authorized env rq \<and> executions u = executions v @ xs \<and> jobs u = jobs v @ js
     \<and> map start_of xs = map (scheduled_start (app_now s)) fs \<and> map job_of js = map2 scheduled_job xs fs
     \<and> a = cron_answer p (int (length fs))"
proof -
  let ?v = "snd (worker_turn env dec s)"
  obtain r where run: "run_next_job env dec s = (r, ?v)" by (metis cron_turn prod.collapse)
  have authorized: "cron_authorized env rq" and on: "configured env" using assms(1,2) by (auto simp: handle_cron_def answer_def split: if_splits)
  obtain p where p: "r = Inr p"
  proof (cases r)
    case (Inl e)
    then show ?thesis using assms(1,2) authorized on run by (cases "message_of e") (auto simp: handle_cron_def bnd_run' try_catch_def answer_def)
  qed (rule that)
  obtain n where each: "schedule_each env offset (app_now s) (scheduled_workflows s) ?v = (Inr n, u)" and a: "a = cron_answer p n"
  proof -
    have "scheduled_workflows ?v = scheduled_workflows s" using worker_fixed [of env dec s] by (simp add: scheduled_workflows_def)
    then have "bnd (schedule_each env offset (app_now s) (scheduled_workflows s)) (\<lambda>n. ret (cron_answer p n)) ?v = (Inr a, u)"
      using assms(1) authorized on worker_fixed [of env dec s] by (simp add: handle_cron_def bnd_run' try_catch_def run p)
    then show ?thesis by (rule bnd_InrE) (use that in simp)
  qed
  from schedule_each_runs [OF each scheduled_once [OF assms(3)]] obtain xs js where runs:
      "executions u = executions ?v @ xs" "jobs u = jobs ?v @ js" "n = int (length xs)"
      "map start_of xs = map (scheduled_start (app_now s)) (filter (pending offset (app_now s) ?v) (scheduled_workflows s))"
      "map job_of js = map2 scheduled_job xs (filter (pending offset (app_now s) ?v) (scheduled_workflows s))" by blast
  moreover have "length xs = length (filter (pending offset (app_now s) ?v) (scheduled_workflows s))" using arg_cong [OF runs(4), of length] by simp
  ultimately show ?thesis using authorized a by (auto simp: Let_def)
qed

section \<open>Once a minute\<close>

lemma same_minute:
  assumes "time div 60000 = time' div 60000"
  shows "schedule_key f time = schedule_key f time'" "fires offset (time div 60000) d = fires offset (time' div 60000) d"
proof -
  have "take 16 (iso_of_ms time) = take 16 (iso_of_ms time')"
  proof -
    let ?head = "\<lambda>y m d t. iso_year y @ ''-'' @ pad 2 (nat m) @ ''-'' @ pad 2 (nat d) @ ''T'' @ pad 2 (nat (t div 60)) @ '':'' @ pad 2 (nat (t mod 60))"
    have long: "16 \<le> length (?head y m d t)" for y m d t by (simp add: iso_year_def)
    have head: "take 16 (iso_of_ms n) = (case civil_of_days (n div 60000 div 1440) of (y, m, d) \<Rightarrow> take 16 (?head y m d (n div 60000 mod 1440)))" for n
    proof -
      have "n mod 86400000 div 60000 = n div 60000 mod 1440" by (simp add: zmod_zmult2_eq [of 1440 n 60000, simplified])
      moreover have "n mod 86400000 div 3600000 = n mod 86400000 div 60000 div 60" by (simp add: zdiv_zmult2_eq [symmetric])
      moreover have "n div 86400000 = n div 60000 div 1440" by (simp add: zdiv_zmult2_eq [symmetric])
      ultimately have whole: "iso_of_ms n = (case civil_of_days (n div 60000 div 1440) of (y, m, d) \<Rightarrow> ?head y m d (n div 60000 mod 1440)
          @ '':'' @ pad 2 (nat (n mod 86400000 div 1000 mod 60)) @ ''.'' @ pad 3 (nat (n mod 86400000 mod 1000)) @ ''Z'')"
        by (simp add: iso_of_ms_def iso_tail_def split: prod.split)
      show ?thesis unfolding whole using long by (simp add: split_beta del: append_assoc)
    qed
    show ?thesis unfolding head assms ..
  qed
  then show "schedule_key f time = schedule_key f time'" by (simp add: schedule_key_def)
  show "fires offset (time div 60000) d = fires offset (time' div 60000) d" by (simp add: assms)
qed

text \<open>C14: Functional. A call of the scheduled entry point that is answered 200 was authorized, did what one turn of the
  worker does, and then started exactly the published workflows whose schedule matches the minute
  and that had not been started for it: one queued execution of the current version with one job to
  run it for each, in order, and their number is in the answer.\<close>

theorem cron_fires_matching_schedules:
  assumes "handle_cron env dec offset rq s = (Inr a, u)" "an_status a = 200" "versions_ok s"
  shows "\<exists>xs js p. let v = snd (worker_turn env dec s); fs = filter (pending offset (app_now s) v) (scheduled_workflows s) in
     cron_authorized env rq \<and> executions u = executions v @ xs \<and> jobs u = jobs v @ js
     \<and> map start_of xs = map (scheduled_start (app_now s)) fs \<and> map job_of js = map2 scheduled_job xs fs
     \<and> a = cron_answer p (int (length fs))"
  using cron_runs [OF assms] .

lemma keyed_grows: "executions_grow s t \<Longrightarrow> keyed w k s \<Longrightarrow> keyed w k t"
proof -
  assume grow: "executions_grow s t" and "keyed w k s"
  then obtain x where "x \<in> set (executions s)" "exe_workspace x = w" "exe_key x = Some k" by (auto simp: keyed_def)
  moreover have "run_identity ` set (executions s) \<subseteq> run_identity ` set (executions t)"
    using grow set_mono_prefix unfolding executions_grow_def by fastforce
  ultimately show "keyed w k t" unfolding keyed_def by (fastforce simp: run_identity_def)
qed

lemma fired_is_keyed:
  assumes "handle_cron env dec offset rq s = (Inr a, u)" "an_status a = 200" "versions_ok s"
    and "(f, d) \<in> set (scheduled_workflows s)" "fires offset (app_now s div 60000) d"
  shows "keyed (wfl_workspace f) (schedule_key f (app_now s)) u"
proof -
  let ?v = "snd (worker_turn env dec s)"
  obtain xs where xs: "executions u = executions ?v @ xs"
      "map start_of xs = map (scheduled_start (app_now s)) (filter (pending offset (app_now s) ?v) (scheduled_workflows s))"
    using cron_runs [OF assms(1-3)] by (auto simp: Let_def)
  show ?thesis
  proof (cases "keyed (wfl_workspace f) (schedule_key f (app_now s)) ?v")
    case True
    then show ?thesis using xs(1) by (auto simp: keyed_def)
  next
    case False
    then have "scheduled_start (app_now s) (f, d) \<in> set (map start_of xs)" using assms(4,5) unfolding xs(2) by (auto simp: pending_def)
    then show ?thesis using xs(1) by (auto simp: keyed_def start_of_def scheduled_start_def)
  qed
qed

section \<open>Calls in any order and with any outcome\<close>

lemma schedule_workflow_adds:
  assumes "schedule_workflow env time f d s = (r, u)"
  shows "\<exists>xs js. executions u = executions s @ xs \<and> jobs u = jobs s @ js \<and> workflows u = workflows s
    \<and> (\<forall>y \<in> set xs. exe_workspace y = wfl_workspace f \<and> exe_workflow y = wfl_id f \<and> exe_key y = Some (schedule_key f time))
    \<and> (\<forall>j \<in> set js. \<exists>y \<in> set xs. field (job_payload j) ''executionId'' = Str (exe_id y))"
  using assms
  by (auto simp: schedule_workflow_def insert_execution_def insert_job_def bnd_run' guarded_def new_execution_def split: if_splits option.splits)

lemma schedule_each_adds:
  assumes "schedule_each env offset time fs s = (r, u)"
  shows "\<exists>xs js. executions u = executions s @ xs \<and> jobs u = jobs s @ js \<and> workflows u = workflows s
    \<and> (\<forall>y \<in> set xs. \<exists>f \<in> fst ` set fs. exe_workspace y = wfl_workspace f \<and> exe_workflow y = wfl_id f \<and> exe_key y = Some (schedule_key f time))
    \<and> (\<forall>j \<in> set js. \<exists>y \<in> set xs. field (job_payload j) ''executionId'' = Str (exe_id y))"
  using assms
proof (induction env offset time fs arbitrary: s r rule: schedule_each.induct)
  case (2 env offset time f d fs)
  show ?case
  proof (cases "fires offset (time div 60000) d")
    case False
    then show ?thesis using 2 by fastforce
  next
    case True
    obtain r1 s1 where one: "schedule_workflow env time f d s = (r1, s1)" by fastforce
    obtain xs js where first: "executions s1 = executions s @ xs" "jobs s1 = jobs s @ js" "workflows s1 = workflows s"
        "\<forall>y \<in> set xs. exe_workspace y = wfl_workspace f \<and> exe_workflow y = wfl_id f \<and> exe_key y = Some (schedule_key f time)"
        "\<forall>j \<in> set js. \<exists>y \<in> set xs. field (job_payload j) ''executionId'' = Str (exe_id y)"
      using schedule_workflow_adds [OF one] by blast
    show ?thesis
    proof (cases r1)
      case (Inl e)
      then have "u = s1" using "2.prems" True one by (simp add: bnd_run')
      then show ?thesis using first by (intro exI [of _ xs] exI [of _ js]) auto
    next
      case (Inr b)
      obtain r2 v where rest: "schedule_each env offset time fs s1 = (r2, v)" by fastforce
      then have "v = u" using "2.prems" True one Inr by (cases r2) (auto simp: bnd_run')
      from "2.IH"(1) [OF True rest [unfolded \<open>v = u\<close>]] obtain ys ks where then_: "executions u = executions s1 @ ys" "jobs u = jobs s1 @ ks" "workflows u = workflows s1"
          "\<forall>y \<in> set ys. \<exists>f \<in> fst ` set fs. exe_workspace y = wfl_workspace f \<and> exe_workflow y = wfl_id f \<and> exe_key y = Some (schedule_key f time)"
          "\<forall>j \<in> set ks. \<exists>y \<in> set ys. field (job_payload j) ''executionId'' = Str (exe_id y)" by blast
      show ?thesis using first then_
        by (intro exI [of _ "xs @ ys"] exI [of _ "js @ ks"]) (auto simp: ball_Un bex_Un)
    qed
  qed
qed simp

lemma schedule_workflow_grows:
  assumes "f \<in> set (workflows s)"
  shows "executions_grow s (snd (schedule_workflow env time f d s))"
proof -
  let ?e = "''execution_'' @ random_uuid env (draws s)" and ?u = "s\<lparr>draws := Suc (draws s)\<rparr>"
  let ?x = "new_execution ?e (wfl_workspace f) (wfl_id f) (wfl_version f) ''schedule'' (Some (schedule_key f time)) (Obj []) (now ?u)"
  have drawn: "executions_grow s ?u" by (rule executions_grow_same) simp_all
  obtain r t where ins: "insert_execution ?x ?u = (r, t)" by fastforce
  have "find_workflow (wfl_workspace f) (wfl_id f) ?u \<noteq> None" using assms by (auto simp: find_workflow_def row0_eq_None filter_empty_conv)
  then obtain g where g: "find_workflow (exe_workspace ?x) (exe_workflow ?x) ?u = Some g" by (auto simp: new_execution_def)
  have kept: "executions_grow z t" if "insert_execution y z = (r, t)" "find_workflow (exe_workspace y) (exe_workflow y) z = Some g" for y z
    using that(1) executions_grow_add [OF refl that(2)]
    by (auto simp: insert_execution_def bnd_run' guarded_def executions_grow.same image_iff split: if_splits option.splits) metis
  have inserted: "executions_grow ?u t" by (rule kept [OF ins g])
  have "executions_grow t (snd (insert_job env w ty p t))" for w ty p
    by (rule executions_grow_same) (auto simp: insert_job_def bnd_run' guarded_def split: option.split)
  then have "executions_grow t (snd ((if b then bnd (insert_job env w ty p) (\<lambda>_. ret True) else ret False) t))" for b w ty p
    by (auto simp: bnd_run' executions_grow.same split: prod.split sum.split) (metis snd_conv)+
  then have "executions_grow ?u (snd (bnd (insert_execution ?x) (\<lambda>b. if b then bnd (insert_job env w ty p) (\<lambda>_. ret True) else ret False) ?u))" for w ty p
    using ins inserted executions_grow.compose by (cases r) (simp_all add: bnd_run' [of "insert_execution _"])
  then show ?thesis using drawn executions_grow.compose by (simp add: schedule_workflow_def bnd_run' [of "query _"] bnd_run' [of "randomUUID _ _"])
qed

lemma schedule_each_grows:
  assumes "fst ` set fs \<subseteq> set (workflows s)"
  shows "executions_grow s (snd (schedule_each env offset time fs s))"
  using assms
proof (induction env offset time fs arbitrary: s rule: schedule_each.induct)
  case (2 env offset time f d fs)
  obtain r u where one: "schedule_workflow env time f d s = (r, u)" by fastforce
  have grow: "executions_grow s u" using schedule_workflow_grows [of f s env time d] 2(3) one by simp
  have "workflows u = workflows s" using schedule_workflow_adds [OF one] by blast
  then have "executions_grow u (snd (schedule_each env offset time fs u))" if "fires offset (time div 60000) d" using 2(1) [OF that] 2(3) by simp
  then show ?case using 2(2,3) one grow executions_grow.compose [OF grow] by (auto simp: bnd_run' split: sum.split prod.split)
qed (simp add: executions_grow.same)

text \<open>Whatever its outcome, a call does nothing, or a worker's turn and then starts of scheduled workflows.\<close>

lemma cron_cases:
  assumes "handle_cron env dec offset rq s = (r, u)"
  obtains "u = s" | "u = snd (worker_turn env dec s)"
    | q where "schedule_each env offset (app_now s) (scheduled_workflows s) (snd (worker_turn env dec s)) = (q, u)"
proof -
  let ?v = "snd (worker_turn env dec s)"
  obtain r1 where run: "run_next_job env dec s = (r1, ?v)" by (metis cron_turn prod.collapse)
  have fixed: "scheduled_workflows ?v = scheduled_workflows s" "app_now ?v = app_now s" using worker_fixed [of env dec s] by (simp_all add: scheduled_workflows_def)
  obtain q w where each: "schedule_each env offset (app_now s) (scheduled_workflows s) ?v = (q, w)" by fastforce
  consider "u = s" | "u = ?v" | "u = w"
    using assms fixed by (cases r1; cases q) (auto simp: handle_cron_def bnd_run' try_catch_def run each lift_run split: if_splits sum.splits)
  then show thesis using that each by cases auto
qed

lemma cron_grows: "executions_grow s (snd (handle_cron env dec offset rq s))"
proof (cases "handle_cron env dec offset rq s")
  case (Pair r u)
  have turn: "executions_grow s (snd (worker_turn env dec s))" using executions_grow.each_op [of s env undefined dec Turn] by simp
  have "fst ` set (scheduled_workflows s) \<subseteq> set (workflows (snd (worker_turn env dec s)))" using worker_fixed [of env dec s] by (auto simp: scheduled_workflows_def split: if_splits)
  note each = executions_grow.compose [OF turn schedule_each_grows [OF this]]
  from Pair show ?thesis by (rule cron_cases) (use turn each [of env offset "app_now s"] executions_grow.same Pair in \<open>auto dest: arg_cong [where f = snd]\<close>)
qed

datatype cron_op = Between saas_op | Call http_call

fun do_cron :: "app_env \<Rightarrow> (jsval \<Rightarrow> js_error + string) \<Rightarrow> (jsval \<Rightarrow> js_error + string) \<Rightarrow> (int \<Rightarrow> int) \<Rightarrow> cron_op \<Rightarrow> saas_db \<Rightarrow> saas_db" where
  "do_cron env enc dec offset (Between op) s = do_saas env enc dec op s"
| "do_cron env enc dec offset (Call rq) s = snd (handle_cron env dec offset rq s)"

definition cron_history :: "app_env \<Rightarrow> (jsval \<Rightarrow> js_error + string) \<Rightarrow> (jsval \<Rightarrow> js_error + string) \<Rightarrow> (int \<Rightarrow> int) \<Rightarrow> cron_op list \<Rightarrow> saas_db \<Rightarrow> saas_db" where
  "cron_history env enc dec offset ops = fold (do_cron env enc dec offset) ops"

lemma cron_history_grows: "executions_grow s (cron_history env enc dec offset ops s)"
proof -
  have "executions_grow s (do_cron env enc dec offset op s)" for op s by (cases op) (simp_all add: cron_grows executions_grow.each_op)
  then show ?thesis unfolding cron_history_def by (induction ops arbitrary: s) (auto intro: executions_grow.same executions_grow.compose)
qed

text \<open>An execution under a key is the only one under it, and no later start adds another for its workflow within the minute.\<close>

lemma only_one_keyed:
  assumes "executions_ok u" "started_as w key i u"
  shows "map exe_id (filter (\<lambda>y. exe_workspace y = w \<and> exe_key y = Some key) (executions u)) = [i]"
proof -
  obtain y where y: "y \<in> set (executions u)" "exe_workspace y = w" "exe_key y = Some key" "exe_id y = i" using assms(2) by (auto simp: started_as_def)
  have keys: "distinct (map (\<lambda>x. (exe_workspace x, exe_key x)) (filter (\<lambda>x. exe_key x \<noteq> None) (executions u)))" using assms(1) by (simp add: executions_ok_def)
  have "length (filter (\<lambda>y. exe_workspace y = w \<and> exe_key y = Some key) (executions u)) \<le> 1"
    using one_of_each [OF keys, of "(w, Some key)"] by (simp add: conj_commute conj_left_commute) (metis (mono_tags, lifting) filter_cong option.discI)
  moreover have "y \<in> set (filter (\<lambda>y. exe_workspace y = w \<and> exe_key y = Some key) (executions u))" using y by simp
  ultimately have "filter (\<lambda>y. exe_workspace y = w \<and> exe_key y = Some key) (executions u) = [y]"
    by (cases "filter (\<lambda>y. exe_workspace y = w \<and> exe_key y = Some key) (executions u)") auto
  then show ?thesis using y(4) by simp
qed

lemma no_second_start:
  assumes "executions_ok u" "executions u = executions v @ xs" "started_as (wfl_workspace f) (schedule_key f time) i v" "time' div 60000 = time div 60000"
    and "\<forall>y \<in> set xs. \<exists>g \<in> G. exe_workspace y = wfl_workspace g \<and> exe_workflow y = wfl_id g \<and> exe_key y = Some (schedule_key g time')"
  shows "\<forall>y \<in> set xs. \<not> (exe_workspace y = wfl_workspace f \<and> exe_workflow y = wfl_id f)"
proof (intro ballI notI)
  fix y assume y: "y \<in> set xs" and same: "exe_workspace y = wfl_workspace f \<and> exe_workflow y = wfl_id f"
  let ?key = "schedule_key f time" and ?id = "\<lambda>x. (exe_workspace x, exe_key x)"
  obtain z where z: "z \<in> set (executions v)" "exe_workspace z = wfl_workspace f" "exe_key z = Some ?key" using assms(3) by (auto simp: started_as_def)
  obtain g where "wfl_id g = wfl_id f" "exe_key y = Some (schedule_key g time')" using assms(5) y same by auto
  then have key: "exe_key y = Some ?key" using same_minute(1) [OF assms(4)] by (simp add: schedule_key_inj [of g time f, THEN iffD2])
  have "?id z = ?id y" using z same key by simp
  moreover have "?id z \<in> ?id ` set (filter (\<lambda>x. exe_key x \<noteq> None) (executions v))" using z by (intro imageI) simp
  moreover have "?id y \<in> ?id ` set (filter (\<lambda>x. exe_key x \<noteq> None) xs)" using y key by (intro imageI) simp
  moreover have "distinct (map ?id (filter (\<lambda>x. exe_key x \<noteq> None) (executions u)))" using assms(1) by (simp add: executions_ok_def)
  ultimately show False unfolding assms(2) filter_append map_append distinct_append set_map by auto
qed

text \<open>C13: Safety. Within a minute a schedule is started at most once. When, in a store that meets the
  constraints of the execution table (unique identifiers, unique keys, references to existing workflows; all
  of them are kept along histories), an execution of a workflow carries the workflow's key for a minute, however it came to be, then along every history of requests, worker turns, passing
  time and calls of the entry point, authorized or not, answered, refused or failing half-way, it
  remains the only execution under that key; and a call in that minute, whatever its outcome, adds
  after its worker turn neither an execution of that workflow nor a job for it. A call answered
  200 leaves every published workflow whose schedule matches the minute with such an execution.\<close>

theorem schedules_fire_once_a_minute:
  assumes "executions_ok s" "x \<in> set (executions s)" "exe_workspace x = wfl_workspace f" "exe_workflow x = wfl_id f" "exe_key x = Some (schedule_key f time)"
    and "t = cron_history env enc dec offset ops s" "handle_cron env dec offset rq t = (r, u)"
  shows "map exe_id (filter (\<lambda>y. exe_workspace y = wfl_workspace f \<and> exe_key y = Some (schedule_key f time)) (executions u)) = [exe_id x]
    \<and> (app_now t div 60000 = time div 60000 \<longrightarrow> (\<exists>v \<in> {t, snd (worker_turn env dec t)}. \<exists>xs js. executions u = executions v @ xs \<and> jobs u = jobs v @ js
         \<and> (\<forall>y \<in> set xs. \<not> (exe_workspace y = wfl_workspace f \<and> exe_workflow y = wfl_id f))
         \<and> (\<forall>j \<in> set js. \<exists>y \<in> set xs. field (job_payload j) ''executionId'' = Str (exe_id y))))
    \<and> (\<forall>a g d. r = Inr a \<and> an_status a = 200 \<and> versions_ok t \<and> (g, d) \<in> set (scheduled_workflows t) \<and> fires offset (app_now t div 60000) d
         \<longrightarrow> keyed (wfl_workspace g) (schedule_key g (app_now t)) u)"
proof (intro conjI impI allI)
  let ?v = "snd (worker_turn env dec t)"
  have since: "executions_grow s t" using cron_history_grows [of s env enc dec offset ops] unfolding assms(6) .
  have grow: "executions_grow s u" using executions_grow.compose [OF since] cron_grows [of t env dec offset rq] assms(7) by simp
  have turn: "executions_grow s ?v" using executions_grow.compose [OF since] executions_grow.each_op [of t env enc dec Turn] by simp
  have ok: "executions_ok u" using assms(1) grow by (simp add: executions_grow_def)
  have first: "started_as (wfl_workspace f) (schedule_key f time) (exe_id x) s" using assms(1-5) by (auto simp: started_as_def)
  show "map exe_id (filter (\<lambda>y. exe_workspace y = wfl_workspace f \<and> exe_key y = Some (schedule_key f time)) (executions u)) = [exe_id x]"
    by (rule only_one_keyed [OF ok started_grows [OF first grow]])
  show "keyed (wfl_workspace g) (schedule_key g (app_now t)) u"
    if "r = Inr a \<and> an_status a = 200 \<and> versions_ok t \<and> (g, d) \<in> set (scheduled_workflows t) \<and> fires offset (app_now t div 60000) d" for a g d
    using fired_is_keyed [of env dec offset rq t a u g d] that assms(7) by blast
  assume minute: "app_now t div 60000 = time div 60000"
  show "\<exists>v \<in> {t, ?v}. \<exists>xs js. executions u = executions v @ xs \<and> jobs u = jobs v @ js
         \<and> (\<forall>y \<in> set xs. \<not> (exe_workspace y = wfl_workspace f \<and> exe_workflow y = wfl_id f))
         \<and> (\<forall>j \<in> set js. \<exists>y \<in> set xs. field (job_payload j) ''executionId'' = Str (exe_id y))"
    using assms(7)
  proof (cases rule: cron_cases)
    case (3 q)
    from schedule_each_adds [OF 3] obtain xs js where added: "executions u = executions ?v @ xs" "jobs u = jobs ?v @ js"
        "\<forall>y \<in> set xs. \<exists>g \<in> fst ` set (scheduled_workflows t). exe_workspace y = wfl_workspace g \<and> exe_workflow y = wfl_id g \<and> exe_key y = Some (schedule_key g (app_now t))"
        "\<forall>j \<in> set js. \<exists>y \<in> set xs. field (job_payload j) ''executionId'' = Str (exe_id y)" by blast
    from no_second_start [OF ok added(1) started_grows [OF first turn] minute added(3)] show ?thesis using added(1,2,4) by blast
  qed (auto intro!: exI [of _ "[]"])
qed

definition demo_schedule :: jsval where
  "demo_schedule = Obj [(''trigger'', Obj [(''type'', Str ''schedule''), (''schedule'', Obj [(''intervalMinutes'', Num 5)])]), (''steps'', Arr [])]"

definition demo_scheduled :: saas_db where
  "demo_scheduled = demo_saas\<lparr>workflows := [demo_workflow],
     versions := [\<lparr>ver_id = ''v1'', ver_workflow = ''f1'', ver_number = 1, ver_definition = demo_schedule, ver_by = ''u0''\<rparr>]\<rparr>"

definition demo_cron :: app_env where
  "demo_cron = demo_app\<lparr>config := (\<lambda>_. ''key'')\<rparr>"

definition demo_tick :: http_call where
  "demo_tick = \<lparr>hc_method = ''GET'', hc_path = ''/api/v1/cron'', hc_body = Undefined, hc_raw = [], hc_cookies = [], hc_authorization = Str ''bearer  key''\<rparr>"

lemma demo_tick: "cron_authorized demo_cron demo_tick" "fires (\<lambda>_. 0) 0 demo_schedule" "configured demo_cron"
proof -
  have "cron_authorized (undefined\<lparr>config := (\<lambda>_. ''key'')\<rparr>) demo_tick" by (simp add: cron_authorized_def demo_tick_def, code_simp)
  then show "cron_authorized demo_cron demo_tick" by (simp add: cron_authorized_def demo_cron_def)
  show "fires (\<lambda>_. 0) 0 demo_schedule" by code_simp
  show "configured demo_cron" by (simp add: demo_cron_def demo_app_sized)
qed

lemma demo_scheduled_tables: "jobs demo_scheduled = []" "app_now demo_scheduled = 1000" "scheduled_workflows demo_scheduled = [(demo_workflow, demo_schedule)]"
  "versions_ok demo_scheduled" "executions demo_scheduled = [demo_execution]" "workflows demo_scheduled = [demo_workflow]"
  by (simp_all add: demo_scheduled_def demo_saas_def demo_accounts_def empty_db_def scheduled_workflows_def demo_workflow_def versions_ok_def version_numbers_def)

lemma demo_idle:
  assumes "jobs s = []" "app_now s div 60000 = 0" "scheduled_workflows s = [(demo_workflow, demo_schedule)]"
  shows "next_job env s = None"
    and "handle_cron demo_cron dec (\<lambda>_. 0) demo_tick s
      = bnd (schedule_workflow demo_cron (app_now s) demo_workflow demo_schedule) (\<lambda>inserted. ret (cron_answer 0 (if inserted then 1 else 0))) s"
proof -
  show none: "next_job env s = None" for env using assms(1) by (simp add: next_job_def sort_by_def)
  show "handle_cron demo_cron dec (\<lambda>_. 0) demo_tick s
      = bnd (schedule_workflow demo_cron (app_now s) demo_workflow demo_schedule) (\<lambda>inserted. ret (cron_answer 0 (if inserted then 1 else 0))) s"
    using demo_tick assms by (simp add: handle_cron_def run_next_job_def try_catch_def bnd_run' none split: prod.split sum.split)
qed

theorem cron_fires_matching_schedules_witness:
  "\<exists>u. handle_cron demo_cron (\<lambda>v. Inr []) (\<lambda>_. 0) demo_tick demo_scheduled = (Inr (cron_answer 0 1), u) \<and> length (executions u) = 2"
proof -
  have rows: "no_workspace ''w1'' demo_scheduled = False" "wfl_workspace demo_workflow = ''w1''" "wfl_id demo_workflow = ''f1''" "exe_id demo_execution = ''x1''" "exe_key demo_execution = Some ''k1''"
    using demo_not_lost(1) by (simp_all add: demo_scheduled_def no_workspace_def demo_workflow_def demo_execution_def new_execution_def)
  have "\<exists>u. handle_cron demo_cron (\<lambda>v. Inr []) (\<lambda>_. 0) demo_tick demo_scheduled = (Inr (cron_answer 0 1), u)"
    using rows by (simp add: demo_idle demo_scheduled_tables bnd_run' schedule_workflow_def insert_execution_def insert_job_def guarded_def new_execution_def schedule_key_def no_workspace_def)
  then obtain u where u: "handle_cron demo_cron (\<lambda>v. Inr []) (\<lambda>_. 0) demo_tick demo_scheduled = (Inr (cron_answer 0 1), u)" by blast
  have "an_status (cron_answer 0 1) = 200" by (simp add: cron_answer_def answer_def)
  from cron_fires_matching_schedules [OF u this demo_scheduled_tables(4)] obtain xs p where
      "executions u = executions (snd (worker_turn demo_cron (\<lambda>v. Inr []) demo_scheduled)) @ xs"
      "cron_answer 0 1 = cron_answer p (int (length xs))"
    by (auto simp: Let_def dest!: map_eq_imp_length_eq)
  then show ?thesis using u by (auto simp: idle_turn demo_idle(1) demo_scheduled_tables cron_answer_def answer_def)
qed

definition demo_fired :: saas_db where
  "demo_fired = demo_scheduled\<lparr>executions := [demo_execution\<lparr>exe_key := Some (schedule_key demo_workflow 1000)\<rparr>]\<rparr>"

lemma demo_again:
  assumes "s = demo_fired\<lparr>draws := n, records := d, app_now := time\<rparr>" "time div 60000 = 0"
  shows "handle_cron demo_cron (\<lambda>v. Inr []) (\<lambda>_. 0) demo_tick s = (Inr (cron_answer 0 0), s\<lparr>draws := Suc n\<rparr>)"
proof -
  have "jobs s = []" "app_now s = time" "scheduled_workflows s = [(demo_workflow, demo_schedule)]" "draws s = n"
    using demo_scheduled_tables by (simp_all add: assms(1) demo_fired_def scheduled_workflows_def)
  moreover have "insert_execution (new_execution i (wfl_workspace demo_workflow) (wfl_id demo_workflow) k x (Some (schedule_key demo_workflow time)) v c) (s\<lparr>draws := m\<rparr>) = (Inr False, s\<lparr>draws := m\<rparr>)" for i k x v c m
    using same_minute(1) [of time 1000 demo_workflow] assms(2)
    by (intro insert_conflict) (auto simp: assms(1) demo_fired_def new_execution_def demo_execution_def demo_workflow_def)
  ultimately show ?thesis using assms(2) by (simp add: demo_idle bnd_run' schedule_workflow_def)
qed

theorem schedules_fire_once_a_minute_witness:
  "\<exists>u. handle_cron demo_cron (\<lambda>v. Inr []) (\<lambda>_. 0) demo_tick
      (cron_history demo_cron (\<lambda>v. Inr []) (\<lambda>v. Inr []) (\<lambda>_. 0) [Between (Wait 2000), Call demo_tick] demo_fired) = (Inr (cron_answer 0 0), u)
    \<and> map exe_id (filter (\<lambda>y. exe_workspace y = ''w1'' \<and> exe_key y = Some (schedule_key demo_workflow 1000)) (executions u)) = [''x1'']"
proof -
  let ?dec = "\<lambda>v. Inr [] :: js_error + string" and ?d = "(records demo_fired)\<lparr>pg_now := pg_now (records demo_fired) + 2000\<rparr>"
  let ?s = "demo_fired\<lparr>draws := draws demo_fired, records := ?d, app_now := 3000\<rparr>"
  let ?t = "demo_fired\<lparr>draws := Suc (draws demo_fired), records := ?d, app_now := 3000\<rparr>"
  have now: "app_now demo_fired = 1000" using demo_scheduled_tables(2) by (simp add: demo_fired_def)
  have "handle_cron demo_cron ?dec (\<lambda>_. 0) demo_tick ?s = (Inr (cron_answer 0 0), ?s\<lparr>draws := Suc (draws demo_fired)\<rparr>)" by (rule demo_again [OF refl]) simp
  then have t: "?t = cron_history demo_cron (\<lambda>v. Inr []) ?dec (\<lambda>_. 0) [Between (Wait 2000), Call demo_tick] demo_fired" using now by (simp add: cron_history_def)
  have call: "handle_cron demo_cron ?dec (\<lambda>_. 0) demo_tick ?t = (Inr (cron_answer 0 0), ?t\<lparr>draws := Suc (Suc (draws demo_fired))\<rparr>)" by (rule demo_again [OF refl]) simp
  let ?x = "demo_execution\<lparr>exe_key := Some (schedule_key demo_workflow 1000)\<rparr>"
  have x: "?x \<in> set (executions demo_fired)" "exe_workspace ?x = wfl_workspace demo_workflow" "exe_workflow ?x = wfl_id demo_workflow"
      "exe_key ?x = Some (schedule_key demo_workflow 1000)" "exe_id ?x = ''x1''" "wfl_workspace demo_workflow = ''w1''"
    by (simp_all add: demo_fired_def demo_execution_def new_execution_def demo_workflow_def)
  have ok: "executions_ok demo_fired"
    using x demo_scheduled_tables by (simp add: executions_ok_def refs_ok_def demo_fired_def)
  from schedules_fire_once_a_minute [OF ok x(1-4) t call] show ?thesis using call x by (simp add: t [symmetric])
qed

end
