(* ===== verification/ServerApi.thy ===== *)
theory ServerApi
  imports SignIn IntegrationRoutes Automation JobWorker
begin

text \<open>
  The HTTP server: its request handler (\<^verbatim>\<open>apps/api/server.js\<close>) with the response writer
  (\<^verbatim>\<open>apps/api/http.js\<close>), the request context (\<^verbatim>\<open>apps/api/middleware.js\<close>) and the counters of requests and
  errors (\<^verbatim>\<open>packages/observability/metrics.js\<close>). The state is the database, the counters and what the
  handler has written to its response; writing a second time raises Node's error. Log lines and error
  reports are left out: no answer depends on them.
\<close>

section \<open>The response and the counters\<close>

datatype page = Json jsval | Html string | Moved string

record server =
  sv_db :: saas_db
  sv_requests :: int
  sv_errors :: int
  sv_started :: string
  sv_headers :: "(string \<times> string) list"
  sv_sent :: "(int \<times> page) option"

record server_env =
  se_app :: app_env
  se_enc :: "jsval \<Rightarrow> js_error + string" \<comment> \<open>\<^verbatim>\<open>encryptSecret\<close>\<close>
  se_dec :: "jsval \<Rightarrow> js_error + string" \<comment> \<open>\<^verbatim>\<open>decryptSecret\<close>\<close>
  se_syntax :: "string \<Rightarrow> string"
  se_file :: "string \<Rightarrow> string option" \<comment> \<open>the text of a page of \<^verbatim>\<open>apps/dashboard\<close>, where it can be read\<close>
  se_uptime :: int

definition in_db :: "(saas_db, 'a) act \<Rightarrow> (server, 'a) act" where
  "in_db m = (\<lambda>s. case m (sv_db s) of (r, d) \<Rightarrow> (r, s\<lparr>sv_db := d\<rparr>))"

definition headers_sent :: "string \<Rightarrow> js_error" where
  "headers_sent verb = Exn ''Error'' (''Cannot '' @ verb @ '' headers after they are sent to the client'') [(''code'', Str ''ERR_HTTP_HEADERS_SENT'')]"

definition send :: "int \<Rightarrow> page \<Rightarrow> (server, bool) act" where
  "send status p = (\<lambda>s. if sv_sent s = None then (Inr True, s\<lparr>sv_sent := Some (status, p)\<rparr>) else (Inl (headers_sent ''write''), s))"

definition set_header :: "string \<Rightarrow> string \<Rightarrow> (server, unit) act" where
  "set_header k v = (\<lambda>s. if sv_sent s = None then (Inr (), s\<lparr>sv_headers := sv_headers s @ [(k, v)]\<rparr>) else (Inl (headers_sent ''set''), s))"

definition jsonResponse :: "int \<Rightarrow> jsval \<Rightarrow> (server, bool) act" where
  "jsonResponse status v = send status (Json v)"

definition htmlResponse :: "server_env \<Rightarrow> string \<Rightarrow> (server, bool) act" where
  "htmlResponse E f = try_catch
     (case se_file E f of None \<Rightarrow> throw (Error ''ENOENT'') | Some t \<Rightarrow> send 200 (Html t))
     (\<lambda>e. jsonResponse 500 (Obj [(''status'', Str ''error''), (''code'', Str ''PAGE_UNAVAILABLE'')]))"

definition redirectToStart :: "(server, bool) act" where
  "redirectToStart = send 302 (Moved ''/start'')"

definition recordRequest :: "server \<Rightarrow> server" where
  "recordRequest s = s\<lparr>sv_requests := sv_requests s + 1\<rparr>"

definition recordError :: "server \<Rightarrow> server" where
  "recordError s = s\<lparr>sv_errors := sv_errors s + 1\<rparr>"

definition snapshot :: "jsval \<Rightarrow> int \<Rightarrow> server \<Rightarrow> jsval" where
  "snapshot queueDepth uptime s =
     Obj [(''requests'', Num (sv_requests s)), (''errors'', Num (sv_errors s)), (''queueDepth'', case queueDepth of Num n \<Rightarrow> Num n | _ \<Rightarrow> Num 0),
          (''uptimeSeconds'', Num uptime), (''startedAt'', Str (sv_started s))]"

definition resetForTests :: "string \<Rightarrow> server \<Rightarrow> server" where
  "resetForTests time s = s\<lparr>sv_requests := 0, sv_errors := 0, sv_started := time\<rparr>"

section \<open>The request\<close>

definition requestContext :: "app_env \<Rightarrow> http_request \<Rightarrow> (saas_db, jsval) act" where
  "requestContext env rq =
     (let h = field (hr_headers rq) ''x-request-id'' in if truthy h then ret h else bnd (randomUUID env []) (\<lambda>i. ret (Str i)))"

definition errorPayload :: "string \<Rightarrow> jsval \<Rightarrow> jsval \<Rightarrow> jsval" where
  "errorPayload c m requestId = Obj [(''error'', Obj [(''code'', Str c), (''message'', m), (''requestId'', requestId)])]"

text \<open>\<open>limit\<close> and \<open>cursor\<close> are the query's parameters, or null.\<close>

definition parsePagination :: "jsval \<Rightarrow> jsval \<Rightarrow> int \<Rightarrow> int \<Rightarrow> jsval \<times> jsval" where
  "parsePagination limit cursor defaultLimit maxLimit =
     (case to_num (js_or limit (Num defaultLimit)) of
        Num n \<Rightarrow> Num (min (max n 1) maxLimit)
      | Inf b \<Rightarrow> Num (min (if b then maxLimit else 1) maxLimit)
      | v \<Rightarrow> v,
      js_or cursor Null)"

definition request_token :: "http_request \<Rightarrow> js_error + string" where
  "request_token rq = map_sum id (\<lambda>c. case field c ''bos_session'' of Str t \<Rightarrow> t | _ \<Rightarrow> [])
     (parseCookies (to_str (js_or (field (hr_headers rq) ''cookie'') (Str []))))"

definition signed_auth :: "session_info \<Rightarrow> workspace_info option \<Rightarrow> auth" where
  "signed_auth i w = \<lparr>au_user = si_user i, au_email = si_email i, au_name = si_name i,
     au_tenant = (case w of None \<Rightarrow> None | Some x \<Rightarrow> if wi_tenant x = [] then None else Some (wi_tenant x))\<rparr>"

text \<open>The signed-in user and the workspace, if the session is valid.\<close>

definition authenticate :: "app_env \<Rightarrow> http_request \<Rightarrow> (saas_db, (auth \<times> workspace_info option) option) act" where
  "authenticate env rq =
     bnd (lift (request_token rq)) (\<lambda>token.
     bnd (getSession env token) (\<lambda>session. case session of
       None \<Rightarrow> ret None
     | Some i \<Rightarrow> bnd (getWorkspaceForUser env (si_user i) (si_workspace i)) (\<lambda>w. ret (Some (signed_auth i w, w)))))"

definition requireAuth :: "app_env \<Rightarrow> http_request \<Rightarrow> (saas_db, auth) act" where
  "requireAuth env rq = bnd (authenticate env rq) (\<lambda>a. case a of None \<Rightarrow> throw (status_error ''UNAUTHENTICATED'' 401) | Some x \<Rightarrow> ret (fst x))"

text \<open>\<^verbatim>\<open>if(!a.tenantId)throw new Error('WORKSPACE_REQUIRED')\<close>\<close>

definition requireTenant :: "app_env \<Rightarrow> http_request \<Rightarrow> (saas_db, auth) act" where
  "requireTenant env rq = bnd (requireAuth env rq) (\<lambda>a. if au_tenant a = None then throw (Error ''WORKSPACE_REQUIRED'') else ret a)"

text \<open>
  \<^verbatim>\<open>readJson\<close>, and what follows it: a body that was read before (\<open>used\<close>) has no further end event, and one
  that is too long ends with the connection, so that the handler then waits for ever.
\<close>

definition readJson :: "app_env \<Rightarrow> http_request \<Rightarrow> bool \<Rightarrow> (jsval \<Rightarrow> (server, bool) act) \<Rightarrow> (server, bool) act" where
  "readJson env rq used k =
     (let raw = concat (hr_chunks rq) in
      if used \<or> length raw > 100000 then ret False
      else if raw = [] then k (Obj [])
      else case parse_json env raw of None \<Rightarrow> throw (Error ''INVALID_JSON'') | Some v \<Rightarrow> k v)"

section \<open>Records and automation\<close>

definition stored :: "app_env \<Rightarrow> jsval \<Rightarrow> string \<Rightarrow> jsval \<Rightarrow> (saas_db, jsval) act" where
  "stored env tenantId type v =
     bnd (storeOr env (Error ''DATABASE_NOT_CONFIGURED'')) (\<lambda>_.
     bnd (if truthy (field v ''id'') then ret (field v ''id'') else bnd (randomUUID env []) (\<lambda>i. ret (Str i))) (\<lambda>i.
     in_records (pg_save tenantId type i (spread v [(''id'', i)]))))"

definition stored_integration :: "app_env \<Rightarrow> jsval \<Rightarrow> string \<Rightarrow> jsval \<Rightarrow> (saas_db, jsval) act" where
  "stored_integration env tenantId type i =
     bnd (storeOr env (Error ''DATABASE_NOT_CONFIGURED'')) (\<lambda>_. in_records (pg_find tenantId type i))"

definition simple_action :: "app_env \<Rightarrow> string \<Rightarrow> string \<Rightarrow> jsval \<Rightarrow> (saas_db, jsval) act" where
  "simple_action env type status arg = stored env (field arg ''tenantId'') type
     (Obj [(''status'', Str status), (''source'', Str ''automation''), (''input'', field arg ''input'')])"

definition webhook_action :: "app_env \<Rightarrow> jsval \<Rightarrow> (saas_db, jsval) act" where
  "webhook_action env arg =
     (let input = field arg ''input'' in
      bnd (sendOutboundWebhook env (field input ''url'')
        (Obj [(''tenantId'', field arg ''tenantId''), (''context'', field arg ''context''), (''input'', js_or (field input ''payload'') (Obj []))])
        (js_or (field input ''headers'') (Obj [])) (field input ''timeoutMs'')) (\<lambda>result.
      stored env (field arg ''tenantId'') ''outbound_webhook''
        (Obj [(''status'', Str (if truthy (field result ''ok'') then ''completed'' else ''failed'')), (''source'', Str ''automation''), (''result'', result)])))"

definition message_action :: "app_env \<Rightarrow> jsval \<Rightarrow> (saas_db, jsval) act" where
  "message_action env arg =
     (let input = field arg ''input'' in
      bnd (stored_integration env (field arg ''tenantId'') ''integration'' (Str ''whatsapp'')) (\<lambda>conf.
      if \<not> truthy conf then throw (Error ''WHATSAPP_NOT_CONNECTED'')
      else
        bnd (sendWhatsAppMessage env conf (field input ''to'') (field input ''text'')) (\<lambda>result.
        if nullish result then throw null_read_error
        else stored env (field arg ''tenantId'') ''whatsapp_message''
          (Obj [(''status'', Str ''completed''), (''source'', Str ''automation''), (''to'', field input ''to''),
                (''messageId'', js_or (field (member_or_undefined (field result ''messages'') ''0'') ''id'') Null), (''result'', result)]))))"

definition automationEngine :: "app_env \<Rightarrow> saas_db actions" where
  "automationEngine env =
     [(''create_task'', simple_action env ''task'' ''completed''),
      (''notify_sales'', simple_action env ''sales_notification'' ''queued''),
      (''ai_followup'', simple_action env ''ai_followup'' ''queued''),
      (''outbound_webhook'', webhook_action env),
      (''whatsapp_send'', message_action env)]"

definition executionStatus :: "jsval list \<Rightarrow> string" where
  "executionStatus results =
     (if results = [] then ''skipped''
      else if \<exists>r \<in> set results. field r ''status'' = Str ''failed'' then ''failed''
      else if \<exists>r \<in> set results. field r ''status'' = Str ''queued'' then ''queued''
      else ''completed'')"

section \<open>The server's own routes\<close>

text \<open>\<^verbatim>\<open>INSERT INTO bos_workspace_members ... ON CONFLICT DO NOTHING\<close>\<close>

definition ensure_owner :: "string \<Rightarrow> string \<Rightarrow> (saas_db, unit) act" where
  "ensure_owner workspaceId userId = guarded
     (\<lambda>s. if is_member s workspaceId userId then None else first_error
       [(\<forall>w \<in> set (workspaces s). wsp_tenant w \<noteq> workspaceId, foreign_key_violation ''bos_workspace_members_workspace_id_fkey''),
        (\<forall>u \<in> set (users s). usr_id u \<noteq> userId, foreign_key_violation ''bos_workspace_members_user_id_fkey'')])
     (\<lambda>s. if is_member s workspaceId userId then s
       else s\<lparr>members := members s @ [\<lparr>mem_workspace = workspaceId, mem_user = userId, mem_role = ''owner'', mem_status = ''active'', mem_joined = now s\<rparr>]\<rparr>)"

definition tenant_value :: "auth \<Rightarrow> jsval" where
  "tenant_value a = (case au_tenant a of None \<Rightarrow> Null | Some w \<Rightarrow> Str w)"

definition onboarding_route :: "app_env \<Rightarrow> http_request \<Rightarrow> jsval \<Rightarrow> bool \<Rightarrow> (server, bool) act" where
  "onboarding_route env rq requestId used =
     bnd (in_db (requireAuth env rq)) (\<lambda>a.
     readJson env rq used (\<lambda>v.
     bnd (lift (validate_onboarding v)) (\<lambda>p.
     bnd (in_db (createOrUpdateWorkspace env (au_user a) (field p ''businessName'') (Str (au_email a)) (Str (au_name a)) (Str ''email'') Undefined)) (\<lambda>w.
     bnd (in_db (storeOr env (Error ''DATABASE_NOT_CONFIGURED''))) (\<lambda>_. case w of
       None \<Rightarrow> throw null_read_error
     | Some x \<Rightarrow>
         bnd (in_db (ensure_owner (wi_tenant x) (au_user a))) (\<lambda>_.
         jsonResponse 201 (Obj [(''status'', Str ''created''), (''tenantId'', Str (wi_tenant x)), (''workspace'', workspace_json w), (''requestId'', requestId)])))))))"

definition workflows_route :: "app_env \<Rightarrow> http_request \<Rightarrow> jsval \<Rightarrow> (server, bool) act" where
  "workflows_route env rq requestId =
     bnd (in_db (requireTenant env rq)) (\<lambda>a.
     bnd (in_db (storeOr env (Error ''DATABASE_NOT_CONFIGURED''))) (\<lambda>_.
     bnd (in_db (in_records (pg_all (tenant_value a) ''workflow''))) (\<lambda>ws.
     jsonResponse 200 (Obj [(''status'', Str ''ok''), (''workflows'', Arr ws), (''requestId'', requestId)]))))"

definition add_workflow_route :: "app_env \<Rightarrow> http_request \<Rightarrow> jsval \<Rightarrow> bool \<Rightarrow> (server, bool) act" where
  "add_workflow_route env rq requestId used =
     bnd (in_db (requireTenant env rq)) (\<lambda>a.
     readJson env rq used (\<lambda>v.
     bnd (lift (validate_workflow v)) (\<lambda>p.
     bnd (in_db (stored env (tenant_value a) ''workflow'' (Obj [(''name'', field p ''name''), (''trigger'', field p ''trigger''), (''steps'', field p ''steps''),
       (''enabled'', field p ''enabled''), (''createdBy'', Str (au_user a))]))) (\<lambda>saved.
     jsonResponse 201 (Obj [(''status'', Str ''created''), (''workflow'', saved), (''requestId'', requestId)])))))"

definition whatsapp_status_route :: "app_env \<Rightarrow> http_request \<Rightarrow> jsval \<Rightarrow> (server, bool) act" where
  "whatsapp_status_route env rq requestId =
     bnd (in_db (requireTenant env rq)) (\<lambda>a.
     bnd (in_db (stored_integration env (tenant_value a) ''integration'' (Str ''whatsapp''))) (\<lambda>conf.
     jsonResponse 200 (Obj [(''status'', Str (if truthy conf then ''connected'' else ''not_connected'')), (''provider'', Str ''whatsapp_cloud''),
       (''phoneNumberId'', js_or (field conf ''phoneNumberId'') Null), (''requestId'', requestId)])))"

definition whatsapp_connect_route :: "server_env \<Rightarrow> http_request \<Rightarrow> jsval \<Rightarrow> bool \<Rightarrow> (server, bool) act" where
  "whatsapp_connect_route E rq requestId used = (let env = se_app E in
     bnd (in_db (requireTenant env rq)) (\<lambda>a.
     readJson env rq used (\<lambda>v.
     bnd (lift (validate_whatsappConnect v)) (\<lambda>p.
     bnd (lift (se_enc E (field p ''accessToken''))) (\<lambda>token.
     bnd (in_db (stored env (tenant_value a) ''integration'' (Obj [(''id'', Str ''whatsapp''), (''provider'', Str ''whatsapp_cloud''), (''phoneNumberId'', field p ''phoneNumberId''),
       (''accessToken'', Str token), (''status'', Str ''connected''), (''connectedBy'', Str (au_user a))]))) (\<lambda>_.
     jsonResponse 201 (Obj [(''status'', Str ''connected''), (''provider'', Str ''whatsapp_cloud''), (''phoneNumberId'', field p ''phoneNumberId''), (''requestId'', requestId)])))))))"

text \<open>The steps of a run: those of the payload, or those of the stored workflow it names.\<close>

definition run_steps_of :: "app_env \<Rightarrow> jsval \<Rightarrow> jsval \<Rightarrow> (saas_db, jsval) act" where
  "run_steps_of env tenantId p =
     (if \<not> truthy (field p ''workflowId'') then ret (field p ''steps'')
      else
        bnd (stored_integration env tenantId ''workflow'' (field p ''workflowId'')) (\<lambda>w.
        if \<not> truthy w then throw (Error ''WORKFLOW_NOT_FOUND'')
        else if field w ''enabled'' = Boolean False then throw (Error ''WORKFLOW_DISABLED'')
        else
          bnd (lift (validate_workflow (Obj [(''name'', js_or (field w ''name'') (Str ''stored'')), (''trigger'', js_or (field w ''trigger'') (Obj [(''type'', Str ''manual'')])),
            (''steps'', field w ''steps'')]))) (\<lambda>d. ret (field d ''steps''))))"

definition result_list :: "jsval \<Rightarrow> jsval list" where
  "result_list result = (case field result ''results'' of Arr xs \<Rightarrow> xs | _ \<Rightarrow> [])"

text \<open>The run, or the record of its failure: \<^verbatim>\<open>Inl\<close> for the latter.\<close>

definition run_recorded :: "app_env \<Rightarrow> auth \<Rightarrow> string \<Rightarrow> jsval \<Rightarrow> jsval \<Rightarrow> (saas_db, jsval + jsval) act" where
  "run_recorded env a i p todo =
     (let workflowId = js_or (field p ''workflowId'') Null in try_catch
       (bnd (run_automation (automationEngine env) (tenant_value a) todo (js_or (field p ''context'') (Obj []))) (\<lambda>result.
        bnd (stored env (tenant_value a) ''execution'' (Obj [(''id'', Str i), (''workflowId'', workflowId), (''status'', Str (executionStatus (result_list result))),
          (''results'', field result ''results''), (''context'', js_or (field p ''context'') (Obj [])), (''userId'', Str (au_user a))])) (\<lambda>x. ret (Inr x))))
       (\<lambda>e. bnd (lift (message_of e)) (\<lambda>m.
        bnd (stored env (tenant_value a) ''execution'' (Obj [(''id'', Str i), (''workflowId'', workflowId), (''status'', Str ''failed''), (''error'', m), (''userId'', Str (au_user a))])) (\<lambda>x.
        ret (Inl x)))))"

definition run_route :: "app_env \<Rightarrow> http_request \<Rightarrow> jsval \<Rightarrow> bool \<Rightarrow> (server, bool) act" where
  "run_route env rq requestId used =
     bnd (in_db (requireTenant env rq)) (\<lambda>a.
     readJson env rq used (\<lambda>v.
     bnd (lift (validate_automationRun v)) (\<lambda>p.
     bnd (in_db (run_steps_of env (tenant_value a) p)) (\<lambda>todo.
     bnd (in_db (randomUUID env ''execution_'')) (\<lambda>i.
     bnd (in_db (run_recorded env a i p todo)) (\<lambda>r. case r of
       Inl x \<Rightarrow> jsonResponse 422 (Obj [(''status'', Str ''failed''), (''execution'', x), (''requestId'', requestId)])
     | Inr x \<Rightarrow> jsonResponse 200 (Obj [(''status'', field x ''status''), (''execution'', x), (''requestId'', requestId)])))))))"

definition sign_out_route :: "app_env \<Rightarrow> http_request \<Rightarrow> jsval \<Rightarrow> (server, bool) act" where
  "sign_out_route env rq requestId =
     bnd (lift (request_token rq)) (\<lambda>token.
     bnd (in_db (revokeSession env token)) (\<lambda>_.
     bnd (set_header ''Set-Cookie'' cleared_cookie) (\<lambda>_.
     jsonResponse 200 (Obj [(''status'', Str ''signed_out''), (''requestId'', requestId)]))))"

definition own_route :: "server_env \<Rightarrow> http_request \<Rightarrow> jsval \<Rightarrow> bool \<Rightarrow> (server, bool) act" where
  "own_route E rq requestId used =
     (let env = se_app E; is = (\<lambda>m p. hr_method rq = m \<and> hr_path rq = p) in
      if is ''POST'' ''/api/v1/onboarding'' then onboarding_route env rq requestId used
      else if is ''GET'' ''/api/v1/workflows'' then workflows_route env rq requestId
      else if is ''POST'' ''/api/v1/workflows'' then add_workflow_route env rq requestId used
      else if is ''GET'' ''/api/v1/integrations/whatsapp'' then whatsapp_status_route env rq requestId
      else if is ''POST'' ''/api/v1/integrations/whatsapp/connect'' then whatsapp_connect_route E rq requestId used
      else if is ''POST'' ''/api/v1/automations/run'' then run_route env rq requestId used
      else if is ''POST'' ''/api/v1/auth/logout'' then sign_out_route env rq requestId
      else if is ''GET'' ''/api/v1/meta'' then
        jsonResponse 200 (Obj [(''name'', Str ''Business Operating System''), (''service'', Str ''bos-api''), (''apiVersion'', Str ''v1''), (''requestId'', requestId)])
      else jsonResponse 404 (errorPayload ''NOT_FOUND'' (Str ''Route not found'') requestId))"

section \<open>The request handler\<close>

definition open_pages :: "(string \<times> string) list" where
  "open_pages = [(''/start'', ''onboarding.html''), (''/onboarding'', ''onboarding.html''), (''/workflows'', ''workflows.html''), (''/dashboard/workflows'', ''workflows.html''),
     (''/ai-employees'', ''ai-employees.html''), (''/dashboard/ai-employees'', ''ai-employees.html''), (''/execution'', ''execution.html''), (''/dashboard/execution'', ''execution.html''),
     (''/analytics'', ''analytics.html''), (''/dashboard/analytics'', ''analytics.html''), (''/billing'', ''billing.html''), (''/dashboard/billing'', ''billing.html''),
     (''/support'', ''support.html''), (''/dashboard/support'', ''support.html''), (''/launch'', ''launch-readiness.html''), (''/dashboard/launch'', ''launch-readiness.html'')]"

definition member_pages :: "(string \<times> string) list" where
  "member_pages = [(''/'', ''index.html''), (''/dashboard'', ''index.html''), (''/integrations'', ''integrations.html''), (''/dashboard/integrations'', ''integrations.html''),
     (''/api/dashboard/integrations'', ''integrations.html'')]"

definition member_page :: "server_env \<Rightarrow> http_request \<Rightarrow> string \<Rightarrow> (server, bool) act" where
  "member_page E rq f =
     bnd (in_db (authenticate (se_app E) rq)) (\<lambda>a. case a of
       Some (_, Some w) \<Rightarrow> htmlResponse E f
     | _ \<Rightarrow> redirectToStart)"

text \<open>Requests that \<^verbatim>\<open>saas_routes.js\<close> answers after reading their body, among those the server has a route for, too.\<close>

definition body_was_read :: "http_request \<Rightarrow> bool" where
  "body_was_read rq \<longleftrightarrow> hr_method rq = ''POST'' \<and> hr_path rq = ''/api/v1/workflows''"

text \<open>The three route tables and the server's own; what the workspace API's \<^verbatim>\<open>reply\<close> returns is undefined, so the handler goes on after it.\<close>

definition api_routes :: "server_env \<Rightarrow> http_request \<Rightarrow> jsval \<Rightarrow> auth option \<Rightarrow> (server, bool) act" where
  "api_routes E rq requestId who =
     (let env = se_app E in
      bnd (in_db (handleIntegrationRoute env (se_enc E) (se_dec E) (se_syntax E) rq who)) (\<lambda>r. case r of
        Some (status, v) \<Rightarrow> jsonResponse status v
      | None \<Rightarrow>
      bnd (in_db (handleWorkflowControl env rq who)) (\<lambda>r. case r of
        Some (status, v) \<Rightarrow> jsonResponse status v
      | None \<Rightarrow> (case who of
          None \<Rightarrow> own_route E rq requestId False
        | Some a \<Rightarrow>
            bnd (in_db (handleSaaSRoute env (se_enc E) rq who)) (\<lambda>r. case r of
              Some (status, v) \<Rightarrow> bnd (jsonResponse status v) (\<lambda>_. own_route E rq requestId (body_was_read rq))
            | None \<Rightarrow> own_route E rq requestId False)))))"

definition server_routes :: "server_env \<Rightarrow> http_request \<Rightarrow> jsval \<Rightarrow> (server, bool) act" where
  "server_routes E rq requestId =
     (let url = hr_path rq; is_get = (hr_method rq = ''GET'') in
      if is_get \<and> url \<in> {''/health'', ''/api/health''} then
        jsonResponse 200 (Obj [(''status'', Str ''ok''), (''service'', Str ''bos-api''), (''requestId'', requestId)])
      else if is_get \<and> url = ''/api/metrics'' then
        (\<lambda>s. jsonResponse 200 (Obj [(''status'', Str ''ok''), (''service'', Str ''bos-api''), (''metrics'', snapshot (Num 0) (se_uptime E) s)]) s)
      else if is_get \<and> map_of member_pages url \<noteq> None then member_page E rq (the (map_of member_pages url))
      else if is_get \<and> map_of open_pages url \<noteq> None then htmlResponse E (the (map_of open_pages url))
      else bnd (in_db (authenticate (se_app E) rq)) (\<lambda>a. api_routes E rq requestId (map_option fst a)))"

text \<open>The handler's \<^verbatim>\<open>catch\<close>, for status codes that are numbers.\<close>

definition failure_status :: "js_error \<Rightarrow> int" where
  "failure_status e =
     (let m = error_field e ''message'';
          otherwise = (if (case e of Exn n t ps \<Rightarrow> n = ''TypeError'' | _ \<Rightarrow> False) \<or> m = Str ''INVALID_JSON'' then 400 else if m = Str ''UNAUTHENTICATED'' then 401 else 422) in
      case js_or (error_field e ''statusCode'') (Num otherwise) of Num n \<Rightarrow> n | _ \<Rightarrow> 500)"

definition failure_code :: "js_error \<Rightarrow> string" where
  "failure_code e =
     (if error_field e ''code'' = Str ''VALIDATION_FAILED'' then ''VALIDATION_FAILED''
      else if failure_status e = 401 then ''UNAUTHENTICATED''
      else if failure_status e = 400 then ''INVALID_REQUEST''
      else if failure_status e = 503 then ''SERVICE_UNAVAILABLE''
      else ''API_FAILED'')"

definition request_failed :: "jsval \<Rightarrow> js_error \<Rightarrow> (server, bool) act" where
  "request_failed requestId e =
     bnd (\<lambda>s. (Inr (), recordError s)) (\<lambda>_.
     bnd (lift (message_of e)) (\<lambda>m.
     jsonResponse (failure_status e) (errorPayload (failure_code e) m requestId)))"

text \<open>The value is false where the handler waits for ever.\<close>

definition requestHandler :: "server_env \<Rightarrow> http_request \<Rightarrow> (server, bool) act" where
  "requestHandler E rq =
     bnd (\<lambda>s. (Inr (), recordRequest s)) (\<lambda>_.
     bnd (in_db (requestContext (se_app E) rq)) (\<lambda>requestId.
     bnd (set_header ''x-request-id'' (to_str requestId)) (\<lambda>_.
     try_catch (server_routes E rq requestId) (request_failed requestId))))"

end
