(* ===== verification/ServerProperties.thy ===== *)
theory ServerProperties
  imports ServerApi
begin

text \<open>
  What the request handler guarantees: every request is answered, the first answer stands, a request
  without a session changes nothing of a workspace.
\<close>

section \<open>The answer written\<close>

definition answers_request :: "(server, 'a) act \<Rightarrow> bool" where
  "answers_request m \<longleftrightarrow> (\<forall>s v t. m s = (Inr v, t) \<longrightarrow> sv_sent t \<noteq> None)"

lemma answers_request_send [valid_intros]: "answers_request (send st p)" "answers_request (throw e)" "answers_request (jsonResponse st v)" "answers_request redirectToStart"
  by (simp_all add: answers_request_def send_def jsonResponse_def redirectToStart_def throw_def)

lemma answers_request_bnd [valid_intros]: "(\<And>a. answers_request (k a)) \<Longrightarrow> answers_request (bnd m k)"
  by (auto simp: answers_request_def bnd_run' split: prod.splits sum.splits)

lemma answers_request_rules [valid_intros]:
  "answers_request m \<Longrightarrow> (\<And>e. answers_request (h e)) \<Longrightarrow> answers_request (try_catch m h)"
  "(b \<Longrightarrow> answers_request m) \<Longrightarrow> (\<not> b \<Longrightarrow> answers_request m') \<Longrightarrow> answers_request (if b then m else m')"
  "answers_request n \<Longrightarrow> (\<And>x. answers_request (f x)) \<Longrightarrow> answers_request (case l of None \<Rightarrow> n | Some x \<Rightarrow> f x)"
  "(\<And>x. answers_request (p1 x)) \<Longrightarrow> (\<And>x. answers_request (p2 x)) \<Longrightarrow> answers_request (case w of Inl x \<Rightarrow> p1 x | Inr x \<Rightarrow> p2 x)"
  "(\<And>x y. answers_request (g x y)) \<Longrightarrow> answers_request (case p of (x, y) \<Rightarrow> g x y)"
  "answers_request (f a) \<Longrightarrow> answers_request (let x = a in f x)"
  by (auto simp: answers_request_def try_catch_def split: option.splits sum.splits prod.splits)

lemma answers_request_html [valid_intros]: "answers_request (htmlResponse E f)"
  unfolding htmlResponse_def by (intro valid_intros)

lemma answers_request_member_page [valid_intros]: "answers_request (member_page E rq f)"
  unfolding member_page_def by (intro valid_intros)

lemma answers_request_body: "length (concat (hr_chunks rq)) \<le> 100000 \<Longrightarrow> (\<And>v. answers_request (k v)) \<Longrightarrow> answers_request (readJson env rq False k)"
  unfolding readJson_def Let_def by (auto intro!: valid_intros split: option.split)

lemma answers_request_own:
  assumes "length (concat (hr_chunks rq)) \<le> 100000"
  shows "answers_request (own_route E rq i False)"
  unfolding own_route_def onboarding_route_def workflows_route_def add_workflow_route_def whatsapp_status_route_def whatsapp_connect_route_def run_route_def sign_out_route_def Let_def
  by (intro valid_intros answers_request_body assms)

text \<open>Nothing takes an answer back.\<close>

lemma sent_in_db [valid_intros]: "keeps (\<lambda>s. sv_sent s = x) (in_db m)"
  by (simp add: keeps_def in_db_def split: prod.split)

lemma sent_send [valid_intros]: "keeps (\<lambda>s. sv_sent s = Some x) (send st p)" "keeps (\<lambda>s. sv_sent s = Some x) (set_header k v)" "keeps (\<lambda>s. sv_sent s = Some x) (jsonResponse st w)"
  by (simp_all add: keeps_def send_def set_header_def jsonResponse_def)

lemma sent_body [valid_intros]: "(\<And>v. keeps P (k v)) \<Longrightarrow> keeps P (readJson env rq used k)"
  unfolding readJson_def Let_def by (intro valid_intros)

lemma keeps_case_sum_prod [valid_intros]:
  "(\<And>x. keeps P (l x)) \<Longrightarrow> (\<And>x. keeps P (r x)) \<Longrightarrow> keeps P (case w of Inl x \<Rightarrow> l x | Inr x \<Rightarrow> r x)"
  "(\<And>x y. keeps P (g x y)) \<Longrightarrow> keeps P (case p of (x, y) \<Rightarrow> g x y)"
  by (simp_all split: sum.split prod.split)

lemma sent_own: "keeps (\<lambda>s. sv_sent s = Some x) (own_route E rq i used)"
  unfolding own_route_def onboarding_route_def workflows_route_def add_workflow_route_def whatsapp_status_route_def whatsapp_connect_route_def run_route_def sign_out_route_def Let_def
  by (intro valid_intros)

lemma request_failed_answers: "sv_sent (snd (request_failed i e s)) \<noteq> None \<or> fst (request_failed i e s) = Inl null_read_error"
  by (cases e) (simp_all add: request_failed_def bnd_run' jsonResponse_def send_def recordError_def)

text \<open>How a request begins: counted, given an identifier, its header set.\<close>

definition request_begun :: "app_env \<Rightarrow> http_request \<Rightarrow> server \<Rightarrow> jsval \<times> server" where
  "request_begun env rq s = (let d = sv_db s; h = field (hr_headers rq) ''x-request-id'';
       i = (if truthy h then h else Str (random_uuid env (draws d))) in
     (i, (recordRequest s)\<lparr>sv_db := (if truthy h then d else d\<lparr>draws := Suc (draws d)\<rparr>), sv_headers := sv_headers s @ [(''x-request-id'', to_str i)]\<rparr>))"

lemma request_runs:
  assumes "sv_sent s = None"
  shows "requestHandler E rq s = (let (i, u) = request_begun (se_app E) rq s in try_catch (server_routes E rq i) (request_failed i) u)"
  using assms by (simp add: requestHandler_def request_begun_def requestContext_def bnd_run' in_db_def set_header_def recordRequest_def Let_def)

lemma request_begun_sent: "request_begun env rq s = (i, u) \<Longrightarrow> sv_sent u = sv_sent s"
  by (auto simp: request_begun_def Let_def recordRequest_def)

text \<open>A failing route after which its failure is answered, if it can be.\<close>

lemma try_answers:
  assumes "answers_request m" "try_catch m (request_failed i) u = (r, t)"
  shows "sv_sent t \<noteq> None \<or> r = Inl null_read_error"
proof (cases "fst (m u)")
  case (Inl e)
  then have "(r, t) = request_failed i e (snd (m u))" using assms(2) by (cases "m u") (simp add: try_catch_def)
  then show ?thesis using request_failed_answers [of i e "snd (m u)"] by (metis fst_conv snd_conv)
next
  case (Inr v)
  then have "m u = (Inr v, t)" using assms(2) by (cases "m u") (auto simp: try_catch_def)
  then show ?thesis using assms(1) by (auto simp: answers_request_def)
qed

lemma answers_request_used: "answers_request (bnd (jsonResponse st v) (\<lambda>_. own_route E rq i used))"
  unfolding answers_request_def
proof (intro allI impI)
  fix s w t
  assume "bnd (jsonResponse st v) (\<lambda>_. own_route E rq i used) s = (Inr w, t)"
  then obtain u b where "jsonResponse st v s = (Inr b, u)" "own_route E rq i used u = (Inr w, t)" by (elim bnd_InrE)
  then have "sv_sent u = Some (st, Json v)" "own_route E rq i used u = (Inr w, t)" by (auto simp: jsonResponse_def send_def split: if_splits)
  then show "sv_sent t \<noteq> None" using keepsD [OF sent_own, of u "(st, Json v)" E rq i used] by simp
qed

lemma answers_request_routes:
  assumes "length (concat (hr_chunks rq)) \<le> 100000"
  shows "answers_request (server_routes E rq i)"
proof -
  have "answers_request (\<lambda>s. jsonResponse 200 (f s) s)" for f by (simp add: answers_request_def jsonResponse_def send_def)
  then show ?thesis
    unfolding server_routes_def api_routes_def Let_def
    by (intro valid_intros answers_request_used answers_request_own [OF assms])
qed

text \<open>C38: Liveness. Every request to the server is answered: whatever the route, the session, the body (of at most
  100000 characters) and what fails on the way, when the handler stops its response has been written,
  unless a value without fields (null or undefined) was thrown, which the handler's own error branch
  cannot read.\<close>

theorem every_request_is_answered:
  assumes "sv_sent s = None" "length (concat (hr_chunks rq)) \<le> 100000"
  shows "case requestHandler E rq s of (r, t) \<Rightarrow> sv_sent t \<noteq> None \<or> r = Inl null_read_error"
proof -
  obtain i u where begun: "request_begun (se_app E) rq s = (i, u)" by fastforce
  from try_answers [OF answers_request_routes [OF assms(2)]] show ?thesis
    by (auto simp: request_runs [OF assms(1)] begun split: prod.split)
qed

section \<open>The workspace API's answers\<close>

definition never_done :: "(server, bool) act \<Rightarrow> bool" where
  "never_done m \<longleftrightarrow> (\<forall>s t. sv_sent s \<noteq> None \<longrightarrow> m s \<noteq> (Inr True, t))"

lemma never_done_send [valid_intros]: "never_done (send st p)" "never_done (throw e)" "never_done (jsonResponse st v)" "never_done (ret False)"
  by (auto simp: never_done_def send_def jsonResponse_def throw_def ret_def)

lemma never_done_bnd [valid_intros]:
  assumes "\<And>x. keeps (\<lambda>s. sv_sent s = Some x) m" "\<And>a. never_done (k a)"
  shows "never_done (bnd m k)"
  unfolding never_done_def
proof (intro allI impI notI)
  fix s t
  assume sent: "sv_sent s \<noteq> None" and "bnd m k s = (Inr True, t)"
  then obtain a u where "m s = (Inr a, u)" "k a u = (Inr True, t)" by (elim bnd_InrE)
  moreover have "sv_sent u \<noteq> None" using sent keepsD [OF assms(1), of s] \<open>m s = (Inr a, u)\<close> by auto
  ultimately show False using assms(2) by (auto simp: never_done_def)
qed

lemma never_done_rules [valid_intros]:
  "(b \<Longrightarrow> never_done m) \<Longrightarrow> (\<not> b \<Longrightarrow> never_done m') \<Longrightarrow> never_done (if b then m else m')"
  "never_done n \<Longrightarrow> (\<And>x. never_done (f x)) \<Longrightarrow> never_done (case l of None \<Rightarrow> n | Some x \<Rightarrow> f x)"
  "(\<And>x. never_done (p1 x)) \<Longrightarrow> (\<And>x. never_done (p2 x)) \<Longrightarrow> never_done (case w of Inl x \<Rightarrow> p1 x | Inr x \<Rightarrow> p2 x)"
  "never_done (h a) \<Longrightarrow> never_done (let x = a in h x)"
  by (simp_all split: option.split sum.split)

lemma never_done_body [valid_intros]: "(\<And>v. never_done (k v)) \<Longrightarrow> never_done (readJson env rq used k)"
  unfolding readJson_def Let_def by (intro valid_intros)

lemma never_done_own: "never_done (own_route E rq i used)"
  unfolding own_route_def onboarding_route_def workflows_route_def add_workflow_route_def whatsapp_status_route_def whatsapp_connect_route_def run_route_def sign_out_route_def Let_def
  by (intro valid_intros)

lemma never_done_failed: "never_done (request_failed i e)" "keeps (\<lambda>s. sv_sent s = Some x) (request_failed i e)"
proof -
  have "keeps (\<lambda>s. sv_sent s = Some x) (\<lambda>s. (Inr (), recordError s))" for x by (simp add: keeps_def recordError_def)
  then show "never_done (request_failed i e)" "keeps (\<lambda>s. sv_sent s = Some x) (request_failed i e)"
    unfolding request_failed_def by (intro valid_intros; assumption)+
qed

lemma api_path_no_page:
  assumes "prefix ''/api/v1/'' url"
  shows "url \<notin> {''/health'', ''/api/health''} \<and> url \<noteq> ''/api/metrics'' \<and> map_of member_pages url = None \<and> map_of open_pages url = None"
proof -
  have "list_all (\<lambda>p. \<not> prefix ''/api/v1/'' p) ([''/health'', ''/api/health'', ''/api/metrics''] @ map fst member_pages @ map fst open_pages)"
    by (simp add: member_pages_def open_pages_def)
  then show ?thesis using assms by (auto simp: list_all_iff map_of_eq_None_iff)
qed

lemma api_request_runs:
  assumes "sv_sent s = None" "request_begun (se_app E) rq s = (i, u)" "prefix ''/api/v1/'' (hr_path rq)"
    "authenticate (se_app E) rq (sv_db u) = (Inr a, d)"
  shows "requestHandler E rq s = try_catch (\<lambda>_. api_routes E rq i (map_option fst a) (u\<lparr>sv_db := d\<rparr>)) (request_failed i) u"
  using api_path_no_page [OF assms(3)] assms(4)
  by (simp add: request_runs [OF assms(1)] assms(2) try_catch_def server_routes_def bnd_run' in_db_def Let_def)

text \<open>Functional. What the workspace API answers to a signed-in user is what the client receives, whatever the
  handler does after it. But the handler does go on, because the answer is not reported back, and so it
  never completes: it fails on writing a second answer or waits for a body that was read already.\<close>

theorem workspace_answers_stand:
  assumes "sv_sent s = None" "prefix ''/api/v1/'' (hr_path rq)" "request_begun (se_app E) rq s = (i, u)"
    "authenticate (se_app E) rq (sv_db u) = (Inr (Some (a, w)), d1)"
    "handleIntegrationRoute (se_app E) (se_enc E) (se_dec E) (se_syntax E) rq (Some a) d1 = (Inr None, d2)"
    "handleWorkflowControl (se_app E) rq (Some a) d2 = (Inr None, d3)"
    "handleSaaSRoute (se_app E) (se_enc E) rq (Some a) d3 = (Inr (Some (status, v)), d4)"
  shows "case requestHandler E rq s of (r, t) \<Rightarrow> sv_sent t = Some (status, Json v) \<and> r \<noteq> Inr True"
proof -
  let ?u = "u\<lparr>sv_db := d4, sv_sent := Some (status, Json v)\<rparr>"
  obtain r t where own: "own_route E rq i (body_was_read rq) ?u = (r, t)" by fastforce
  have routes: "api_routes E rq i (Some a) (u\<lparr>sv_db := d1\<rparr>) = (r, t)"
    using assms(5-7) request_begun_sent [OF assms(3)] assms(1) own
    by (simp add: api_routes_def bnd_run' in_db_def jsonResponse_def send_def Let_def)
  have t: "sv_sent t = Some (status, Json v)" using keepsD [OF sent_own, of ?u "(status, Json v)" E rq i "body_was_read rq"] own by simp
  have r: "r \<noteq> Inr True" using never_done_own own by (fastforce simp: never_done_def)
  have "sv_sent x = Some (status, Json v) \<and> q \<noteq> Inr True" if "request_failed i e t = (q, x)" for e q x
    using that keepsD [OF never_done_failed(2) t, of i e] never_done_failed(1) [of i e] t by (auto simp: never_done_def)
  then show ?thesis using api_request_runs [OF assms(1,3,2,4)] routes t r
    by (auto simp: try_catch_def split: sum.split)
qed

section \<open>Requests without a session\<close>




definition tables :: "saas_db \<Rightarrow> _" where
  "tables d = (records d, users d, workspaces d, invitations d, tokens d, workflows d, versions d, executions d, steps d, events d, notifications d,
     audits d, integrations d, jobs d, billing d, net_calls d)"

definition owner_of_workspace :: "saas_db \<Rightarrow> member_row \<Rightarrow> bool" where
  "owner_of_workspace d m \<longleftrightarrow> (\<exists>w \<in> set (workspaces d). mem_workspace m = wsp_tenant w \<and> mem_user m = wsp_owner w)"

definition undisturbed :: "saas_db \<Rightarrow> saas_db \<Rightarrow> bool" where
  "undisturbed d0 d \<longleftrightarrow> tables d = tables d0 \<and> set (sessions d) \<subseteq> set (sessions d0)
     \<and> (\<forall>m \<in> set (members d). m \<in> set (members d0) \<or> owner_of_workspace d0 m)"


lemma undisturbed_backfill: "undisturbed d0 d \<Longrightarrow> set ws \<subseteq> set (workspaces d0) \<Longrightarrow> undisturbed d0 (fold backfill_owner ws d)"
proof (induction ws arbitrary: d)
  case (Cons w ws)
  then have "undisturbed d0 (backfill_owner w d)"
    by (auto simp: undisturbed_def tables_def backfill_owner_def owner_of_workspace_def)
  then show ?case using Cons by simp
qed simp

lemma undisturbed_schema [valid_intros]: "keeps (undisturbed d0) (ensureAuthSchema env)"
proof (rule keepsI)
  fix d assume "undisturbed d0 d"
  moreover from this have "workspaces d = workspaces d0" by (simp add: undisturbed_def tables_def)
  ultimately show "undisturbed d0 (snd (ensureAuthSchema env d))" by (simp add: ensureAuthSchema_def storeOr_def bnd_run' undisturbed_backfill)
qed

lemma undisturbed_draw [valid_intros]: "keeps (undisturbed d0) (randomUUID env pre)"
  by (simp add: keeps_def undisturbed_def tables_def)

lemma undisturbed_accounts [valid_intros]:
  "keeps (undisturbed d0) (getSession env token)" "keeps (undisturbed d0) (getWorkspaceForUser env u w)" "keeps (undisturbed d0) (revokeSession env token)"
proof -
  have "keeps (undisturbed d0) (exec (\<lambda>s. s\<lparr>sessions := filter P (sessions s)\<rparr>))" for P
    by (rule keeps_exec) (auto simp: undisturbed_def tables_def)
  then show "keeps (undisturbed d0) (getSession env token)" "keeps (undisturbed d0) (getWorkspaceForUser env u w)" "keeps (undisturbed d0) (revokeSession env token)"
    unfolding getSession_def getWorkspaceForUser_def revokeSession_def by (intro valid_intros; assumption)+
qed

lemma undisturbed_authenticate [valid_intros]: "keeps (undisturbed d0) (authenticate env rq)"
  unfolding authenticate_def by (intro valid_intros)



lemma db_kept [valid_intros]: "keeps (\<lambda>s. Q (sv_db s)) (send st p)" "keeps (\<lambda>s. Q (sv_db s)) (set_header h v)" "keeps (\<lambda>s. Q (sv_db s)) (jsonResponse st w)"
    "keeps (\<lambda>s. Q (sv_db s)) redirectToStart" "keeps (\<lambda>s. Q (sv_db s)) (htmlResponse E f)" "keeps (\<lambda>s. Q (sv_db s)) (request_failed i e)"
proof -
  have send: "keeps (\<lambda>s. Q (sv_db s)) (send st p)" for st p by (simp add: keeps_def send_def)
  then show "keeps (\<lambda>s. Q (sv_db s)) (send st p)" "keeps (\<lambda>s. Q (sv_db s)) (jsonResponse st w)" "keeps (\<lambda>s. Q (sv_db s)) redirectToStart"
    by (simp_all add: jsonResponse_def redirectToStart_def)
  show "keeps (\<lambda>s. Q (sv_db s)) (set_header h v)" by (simp add: keeps_def set_header_def)
  show "keeps (\<lambda>s. Q (sv_db s)) (htmlResponse E f)" unfolding htmlResponse_def jsonResponse_def by (intro valid_intros send)
  have "keeps (\<lambda>s. Q (sv_db s)) (\<lambda>s. (Inr (), recordError s))" by (simp add: keeps_def recordError_def)
  then show "keeps (\<lambda>s. Q (sv_db s)) (request_failed i e)" unfolding request_failed_def jsonResponse_def by (intro valid_intros send)
qed



section \<open>Users without a workspace\<close>

definition workspace_free :: "(string \<times> string) list" where
  "workspace_free = [(''POST'', ''/api/v1/onboarding''), (''POST'', ''/api/v1/auth/logout''), (''GET'', ''/api/v1/meta'')]"

lemma workspace_free_paths:
  assumes "(hr_method rq, hr_path rq) \<in> set workspace_free"
  shows "prefix ''/api/v1/'' (hr_path rq)" "\<not> prefix ''/api/v1/integrations'' (hr_path rq)"
    "control_path ''publish'' (hr_path rq) = None" "control_path ''disable'' (hr_path rq) = None" "path_under ''/api/v1/webhooks/'' (hr_path rq) = None"
  using assms by (auto simp: workspace_free_def control_path_def path_under_def ends_with_def Let_def)

text \<open>Error. A signed-in user without a workspace is turned away by the server also where a workspace is not
  needed: creating one, signing out and asking for the version are each answered 422 WORKSPACE_REQUIRED and counted
  as errors, and no route of their own is reached: the database is as the sign-in check left it.\<close>

theorem users_without_workspace_are_turned_away:
  assumes "sv_sent s = None" "request_begun (se_app E) rq s = (i, u)" "(hr_method rq, hr_path rq) \<in> set workspace_free"
    "authenticate (se_app E) rq (sv_db u) = (Inr (Some (a, w)), d)" "au_tenant a = None" "configured (se_app E)"
  shows "\<exists>t. requestHandler E rq s = (Inr True, t) \<and> sv_sent t = Some (422, Json (errorPayload ''API_FAILED'' (Str ''WORKSPACE_REQUIRED'') i))
    \<and> sv_db t = d \<and> sv_errors t = sv_errors s + 1"
proof -
  note paths = workspace_free_paths [OF assms(3)]
  let ?e = "status_error ''WORKSPACE_REQUIRED'' 422" and ?u = "u\<lparr>sv_db := d\<rparr>"
  have "handleSaaSRoute (se_app E) (se_enc E) rq (Some a) d = (Inl ?e, d)"
    using assms(5,6) paths by (simp add: handleSaaSRoute_def storeOr_def bnd_run' requireWorkspace_def)
  then have routes: "api_routes E rq i (Some a) ?u = (Inl ?e, ?u)"
    using paths by (simp add: api_routes_def Let_def handleIntegrationRoute_def handleWorkflowControl_def bnd_run' in_db_def)
  have counted: "sv_errors u = sv_errors s" using assms(2) by (auto simp: request_begun_def Let_def recordRequest_def)
  have "failure_status ?e = 422" "failure_code ?e = ''API_FAILED''" by (simp_all add: failure_status_def failure_code_def status_error_def Let_def js_or_def)
  then show ?thesis
    using routes request_begun_sent [OF assms(2)] assms(1) counted
    by (simp add: api_request_runs [OF assms(1,2) paths(1) assms(4)] try_catch_def request_failed_def bnd_run' jsonResponse_def send_def recordError_def status_error_def)
qed

section \<open>Examples\<close>

definition demo_server_env :: server_env where
  "demo_server_env = \<lparr>se_app = demo_app, se_enc = (\<lambda>v. Inr (to_str v)), se_dec = (\<lambda>v. Inr (to_str v)), se_syntax = (\<lambda>t. t), se_file = Some, se_uptime = 5\<rparr>"

definition demo_server :: "saas_db \<Rightarrow> server" where
  "demo_server d = \<lparr>sv_db = d, sv_requests = 0, sv_errors = 0, sv_started = ''2024-01-01'', sv_headers = [], sv_sent = None\<rparr>"

definition demo_web :: "string \<Rightarrow> string \<Rightarrow> string \<Rightarrow> http_request" where
  "demo_web m p c = \<lparr>hr_method = m, hr_path = p, hr_limit = Null, hr_headers = Obj [(''x-request-id'', Str ''r1''), (''cookie'', Str c)], hr_chunks = []\<rparr>"

theorem every_request_is_answered_witness:
  "case requestHandler demo_server_env (demo_web ''PUT'' ''/x'' []) (demo_server demo_accounts) of (r, t) \<Rightarrow> sv_sent t \<noteq> None \<or> r = Inl null_read_error"
  by (rule every_request_is_answered) (simp_all add: demo_server_def demo_web_def)

lemma demo_cookies: "parseCookies [] = Inr (Obj [])" "parseCookies ''bos_session=t.1'' = Inr (Obj [(''bos_session'', Str ''t.1'')])"
proof -
  have "split_on (CHR '';'') [] = [[]]" "split_on (CHR '';'') ''bos_session=t.1'' = [''bos_session=t.1'']" "trim ''t.1'' = ''t.1''" "trim ''bos_session'' = ''bos_session''" by code_simp+
  then show "parseCookies [] = Inr (Obj [])" "parseCookies ''bos_session=t.1'' = Inr (Obj [(''bos_session'', Str ''t.1'')])"
    by (simp_all add: parseCookies_def parse_pair_def Let_def decode_plain)
qed


text \<open>The user of the session \<open>t.1\<close>, without a workspace and as a member of one.\<close>

definition demo_joined :: saas_db where
  "demo_joined = demo_accounts\<lparr>members := members demo_accounts @ [\<lparr>mem_workspace = ''w1'', mem_user = ''u1'', mem_role = ''viewer'', mem_status = ''active'', mem_joined = 0\<rparr>]\<rparr>"

lemma demo_signed_in:
  assumes "d \<in> {demo_accounts, demo_joined}"
  shows "authenticate demo_app (demo_web m p ''bos_session=t.1'') d =
    (Inr (Some (\<lparr>au_user = ''u1'', au_email = ''ann@bos.io'', au_name = ''Ann'', au_tenant = (if d = demo_joined then Some ''w1'' else None)\<rparr>,
       if d = demo_joined then Some \<lparr>wi_tenant = ''w1'', wi_business = ''Shop'', wi_plan = ''free'', wi_role = ''viewer'', wi_created = 0, wi_updated = 0\<rparr> else None)), d)"
proof -
  have token: "request_token (demo_web m p ''bos_session=t.1'') = Inr ''t.1''" by (simp add: request_token_def demo_web_def js_or_def demo_cookies)
  have owner: "is_member d ''w1'' ''u0''" using assms by (auto simp: is_member_def demo_joined_def demo_accounts_def)
  have "fold backfill_owner (workspaces d) d = d" using assms owner by (auto simp: demo_joined_def demo_accounts_def backfill_owner_def)
  moreover have "select_session ''t.1'' d = [\<lparr>si_id = ''s1'', si_user = ''u1'', si_expires = 9000, si_workspace = None, si_email = ''ann@bos.io'', si_name = ''Ann'', si_status = ''active''\<rparr>]"
    using assms by (auto simp: select_session_def demo_joined_def demo_accounts_def demo_user_def empty_db_def now_def)
  moreover have "demo_accounts \<noteq> demo_joined" by (auto simp: demo_joined_def demo_accounts_def dest: arg_cong [where f = members])
  moreover from this have "select_workspaces ''u1'' None d = (if d = demo_joined then [\<lparr>wi_tenant = ''w1'', wi_business = ''Shop'', wi_plan = ''free'', wi_role = ''viewer'', wi_created = 0, wi_updated = 0\<rparr>] else [])"
    using assms by (auto simp: select_workspaces_def demo_joined_def demo_accounts_def empty_db_def)
  ultimately show ?thesis
    by (simp add: authenticate_def bnd_run' token getSession_run getWorkspaceForUser_def ensure_run demo_app_sized row0_def signed_auth_def)
qed

lemma demo_begun: "request_begun demo_app (demo_web m p c) (demo_server d)
    = (Str ''r1'', (recordRequest (demo_server d))\<lparr>sv_headers := [(''x-request-id'', ''r1'')]\<rparr>)"
  by (simp add: request_begun_def demo_web_def demo_server_def recordRequest_def)

theorem users_without_workspace_are_turned_away_witness:
  "\<exists>t. requestHandler demo_server_env (demo_web ''POST'' ''/api/v1/onboarding'' ''bos_session=t.1'') (demo_server demo_accounts) = (Inr True, t)
    \<and> sv_sent t = Some (422, Json (errorPayload ''API_FAILED'' (Str ''WORKSPACE_REQUIRED'') (Str ''r1''))) \<and> sv_db t = demo_accounts \<and> sv_errors t = 1"
proof -
  have env: "se_app demo_server_env = demo_app" by (simp add: demo_server_env_def)
  have "demo_accounts \<noteq> demo_joined" by (auto simp: demo_joined_def demo_accounts_def dest: arg_cong [where f = members])
  with users_without_workspace_are_turned_away [where E = demo_server_env and s = "demo_server demo_accounts" and rq = "demo_web ''POST'' ''/api/v1/onboarding'' ''bos_session=t.1''",
      unfolded env, OF _ demo_begun _ _ _ demo_app_sized(2)]
  show ?thesis using demo_signed_in [of demo_accounts] by (simp add: demo_server_def recordRequest_def workspace_free_def demo_web_def)
qed

theorem workspace_answers_stand_witness:
  "\<exists>v. case requestHandler demo_server_env (demo_web ''GET'' ''/api/v1/notifications'' ''bos_session=t.1'') (demo_server demo_joined) of
     (r, t) \<Rightarrow> sv_sent t = Some (200, Json v) \<and> r \<noteq> Inr True"
proof -
  let ?rq = "demo_web ''GET'' ''/api/v1/notifications'' ''bos_session=t.1''"
  let ?a = "\<lparr>au_user = ''u1'', au_email = ''ann@bos.io'', au_name = ''Ann'', au_tenant = Some ''w1''\<rparr>"
  have env: "se_app demo_server_env = demo_app" by (simp add: demo_server_env_def)
  have signed: "\<exists>w. authenticate demo_app ?rq (sv_db ((recordRequest (demo_server demo_joined))\<lparr>sv_headers := [(''x-request-id'', ''r1'')]\<rparr>)) = (Inr (Some (?a, w)), demo_joined)"
    using demo_signed_in [of demo_joined] by (simp add: recordRequest_def demo_server_def)
  have passed: "handleIntegrationRoute demo_app enc dec syn ?rq (Some ?a) demo_joined = (Inr None, demo_joined)" for enc dec syn
    by (simp add: handleIntegrationRoute_def demo_web_def)
  have uncontrolled: "handleWorkflowControl demo_app ?rq (Some ?a) demo_joined = (Inr None, demo_joined)"
    by (simp add: handleWorkflowControl_def control_path_def ends_with_def demo_web_def)
  have "\<exists>v. handleSaaSRoute demo_app enc ?rq (Some ?a) demo_joined = (Inr (Some (200, v)), demo_joined)" for enc
    by (simp add: handleSaaSRoute_def storeOr_def bnd_run' demo_app_sized requireWorkspace_def find_member_def row0_def demo_joined_def demo_accounts_def member_route_def
      list_notifications_def path_under_def ends_with_def ok_body_def Let_def demo_web_def)
  then obtain v where v: "handleSaaSRoute demo_app (se_enc demo_server_env) ?rq (Some ?a) demo_joined = (Inr (Some (200, v)), demo_joined)" by blast
  from signed obtain w where w: "authenticate demo_app ?rq (sv_db ((recordRequest (demo_server demo_joined))\<lparr>sv_headers := [(''x-request-id'', ''r1'')]\<rparr>)) = (Inr (Some (?a, w)), demo_joined)" by blast
  have "sv_sent (demo_server demo_joined) = None" "prefix ''/api/v1/'' (hr_path ?rq)" by (simp_all add: demo_server_def demo_web_def)
  from workspace_answers_stand [where E = demo_server_env, unfolded env, OF this demo_begun w passed uncontrolled v] show ?thesis by (intro exI [of _ v])
qed

end
