(* ===== verification/AccountApi.thy ===== *)
theory AccountApi
  imports Cron ServerProperties
begin

text \<open>
  The entry point of the deployed API (\<^verbatim>\<open>api/[...path].js\<close>): the routes of accounts, sessions, invitations
  and workspaces, the scheduled one, and every other request, which is handed to the server's handler
  (\<open>requestHandler\<close>). Routes whose promise is returned without \<^verbatim>\<open>await\<close> are outside of the handler's \<^verbatim>\<open>try\<close>.
  Reports of errors to a tracking service are not modelled.
\<close>

section \<open>Bodies and answers\<close>

definition api_body :: "app_env \<Rightarrow> (string \<Rightarrow> string) \<Rightarrow> http_call \<Rightarrow> js_error + jsval" where
  "api_body env syntax rq =
     (if is_ref (hc_body rq) then Inr (hc_body rq)
      else if hc_raw rq = [] then Inr (Obj [])
      else parse_text env syntax (hc_raw rq))"

text \<open>A body whose fields are read.\<close>

definition api_fields :: "app_env \<Rightarrow> (string \<Rightarrow> string) \<Rightarrow> http_call \<Rightarrow> js_error + jsval" where
  "api_fields env syntax rq = (case api_body env syntax rq of Inl e \<Rightarrow> Inl e | Inr v \<Rightarrow> if nullish v then Inl null_read_error else Inr v)"

definition or_empty :: "jsval \<Rightarrow> string" where
  "or_empty v = to_str (js_or v (Str []))"

definition validation_answer :: "js_error \<Rightarrow> http_answer" where
  "validation_answer e = answer 400 [(''error'', Obj [(''code'', Str ''VALIDATION_FAILED''), (''message'', error_field e ''message''),
     (''field'', js_or (error_field e ''field'') Null)])]"

definition with_cookie :: "string \<Rightarrow> http_answer \<Rightarrow> http_answer" where
  "with_cookie c a = a\<lparr>an_cookie := Some c\<rparr>"

section \<open>Accounts\<close>

definition email_register :: "app_env \<Rightarrow> (string \<Rightarrow> string) \<Rightarrow> http_call \<Rightarrow> (saas_db, http_answer) act" where
  "email_register env syntax rq =
     bnd (lift (api_body env syntax rq)) (\<lambda>p.
     bnd (lift (validate_register p)) (\<lambda>d.
     bnd (register env (field d ''email'') (field d ''password'') (field d ''name'')) (\<lambda>user.
     bnd (requestVerification env user) (\<lambda>delivery.
     bnd (create_session env (acc_id user) None) (\<lambda>(token, expires).
     ret (with_cookie (session_cookie token) (answer 201 [(''status'', Str ''authenticated''), (''user'', user_json user),
       (''emailVerification'', Str (if sent_ok delivery then ''sent'' else ''not_configured''))])))))))"

definition email_login :: "app_env \<Rightarrow> (string \<Rightarrow> string) \<Rightarrow> http_call \<Rightarrow> (saas_db, http_answer) act" where
  "email_login env syntax rq =
     bnd (lift (api_body env syntax rq)) (\<lambda>p.
     bnd (lift (validate_login p)) (\<lambda>d.
     bnd (login env (field d ''email'') (field d ''password'')) (\<lambda>user.
     bnd (create_session env (acc_id user) None) (\<lambda>(token, expires).
     bnd (getWorkspaceForUser env (acc_id user) None) (\<lambda>w.
     ret (with_cookie (session_cookie token) (answer 200 [(''status'', Str ''authenticated''), (''user'', user_json user), (''workspace'', workspace_json w)])))))))"

text \<open>The handlers' own \<^verbatim>\<open>catch\<close>: a rejected payload, or the error's message as code.\<close>

definition account_failure :: "int \<Rightarrow> (jsval \<Rightarrow> jsval) \<Rightarrow> js_error \<Rightarrow> (saas_db, http_answer) act" where
  "account_failure status text e =
     bnd (lift (message_of e)) (\<lambda>m.
     ret (if error_field e ''code'' = Str ''VALIDATION_FAILED'' then validation_answer e
       else answer status [(''error'', Obj [(''code'', m), (''message'', text m)])]))"

definition register_route :: "app_env \<Rightarrow> (string \<Rightarrow> string) \<Rightarrow> http_call \<Rightarrow> (saas_db, http_answer) act" where
  "register_route env syntax rq = try_catch (email_register env syntax rq) (account_failure 400 (\<lambda>m. m))"

definition login_route :: "app_env \<Rightarrow> (string \<Rightarrow> string) \<Rightarrow> http_call \<Rightarrow> (saas_db, http_answer) act" where
  "login_route env syntax rq = try_catch (email_login env syntax rq) (account_failure 401 (\<lambda>m. Str ''Invalid email or password''))"

definition google_config :: "app_env \<Rightarrow> http_answer" where
  "google_config env =
     (if google_client env = [] then refusal 503 ''GOOGLE_AUTH_NOT_CONFIGURED'' ''Google sign-in is not configured for this deployment''
      else answer 200 [(''clientId'', Str (google_client env))])"

text \<open>The session starts in the workspace.\<close>

definition google_route :: "app_env \<Rightarrow> (string \<Rightarrow> string) \<Rightarrow> http_call \<Rightarrow> (saas_db, http_answer) act" where
  "google_route env syntax rq = google_handler env syntax (map_option wi_tenant) ''Google profile is incomplete'' (api_fields env syntax rq)"

definition logout_route :: "app_env \<Rightarrow> http_call \<Rightarrow> (saas_db, http_answer) act" where
  "logout_route env rq =
     bnd (lift (session_token rq)) (\<lambda>token.
     bnd (revokeSession env token) (\<lambda>_.
     ret (with_cookie cleared_cookie (answer 200 [(''status'', Str ''signed_out'')]))))"

definition sign_in_required :: http_answer where
  "sign_in_required = refusal 401 ''UNAUTHENTICATED'' ''Sign in required''"

text \<open>The routes that need a session.\<close>

definition with_session :: "app_env \<Rightarrow> http_call \<Rightarrow> (string \<Rightarrow> session_info \<Rightarrow> (saas_db, http_answer) act) \<Rightarrow> (saas_db, http_answer) act" where
  "with_session env rq k =
     bnd (lift (session_token rq)) (\<lambda>token.
     bnd (getSession env token) (\<lambda>session. case session of None \<Rightarrow> ret sign_in_required | Some info \<Rightarrow> k token info))"

definition current_user :: "app_env \<Rightarrow> http_call \<Rightarrow> (saas_db, http_answer) act" where
  "current_user env rq = with_session env rq (\<lambda>token info.
     bnd (getWorkspaceForUser env (si_user info) (si_workspace info)) (\<lambda>w.
     ret (answer 200 [(''authenticated'', Boolean True),
       (''user'', Obj [(''id'', Str (si_user info)), (''email'', Str (si_email info)), (''name'', Str (si_name info))]), (''workspace'', workspace_json w)])))"

definition verify_route :: "app_env \<Rightarrow> (string \<Rightarrow> string) \<Rightarrow> http_call \<Rightarrow> (saas_db, http_answer) act" where
  "verify_route env syntax rq =
     bnd (lift (api_fields env syntax rq)) (\<lambda>p.
     bnd (verifyEmail env (or_empty (field p ''token''))) (\<lambda>_.
     ret (answer 200 [(''status'', Str ''verified'')])))"

definition ask_reset_route :: "app_env \<Rightarrow> (string \<Rightarrow> string) \<Rightarrow> http_call \<Rightarrow> (saas_db, http_answer) act" where
  "ask_reset_route env syntax rq =
     bnd (lift (api_fields env syntax rq)) (\<lambda>p.
     bnd (requestPasswordReset env (field p ''email'')) (\<lambda>r.
     ret (answer 200 [(''status'', Str ''accepted''), (''delivery'', Str (case r of Some x \<Rightarrow> if sent_ok x then ''sent'' else ''not_configured'' | None \<Rightarrow> ''not_configured''))])))"

definition reset_route :: "app_env \<Rightarrow> (string \<Rightarrow> string) \<Rightarrow> http_call \<Rightarrow> (saas_db, http_answer) act" where
  "reset_route env syntax rq =
     bnd (lift (api_fields env syntax rq)) (\<lambda>p.
     bnd (resetPassword env (or_empty (field p ''token'')) (Str (or_empty (field p ''password'')))) (\<lambda>_.
     ret (answer 200 [(''status'', Str ''reset'')])))"

text \<open>The rows of \<^verbatim>\<open>listWorkspaces\<close>\<close>

definition workspace_rows :: "string \<Rightarrow> saas_db \<Rightarrow> jsval list" where
  "workspace_rows u s = map (\<lambda>(w, m). Obj [(''tenant_id'', Str (wsp_tenant w)), (''business_name'', Str (wsp_business w)), (''plan'', Str (wsp_plan w)),
       (''role'', Str (mem_role m)), (''joined_at'', time_json (mem_joined m))])
     (sort_key (\<lambda>(w, m). wsp_created w) [(w, m). w \<leftarrow> workspaces s, m \<leftarrow> members s, mem_workspace m = wsp_tenant w \<and> mem_user m = u \<and> mem_status m = ''active''])"

definition workspaces_route :: "app_env \<Rightarrow> http_call \<Rightarrow> (saas_db, http_answer) act" where
  "workspaces_route env rq = with_session env rq (\<lambda>token info.
     query (\<lambda>s. answer 200 [(''status'', Str ''ok''), (''workspaces'', Arr (workspace_rows (si_user info) s))]))"

definition switch_route :: "app_env \<Rightarrow> (string \<Rightarrow> string) \<Rightarrow> http_call \<Rightarrow> (saas_db, http_answer) act" where
  "switch_route env syntax rq = with_session env rq (\<lambda>token info.
     bnd (lift (api_fields env syntax rq)) (\<lambda>p.
     bnd (setActiveWorkspace env token (or_empty (field p ''workspaceId''))) (\<lambda>w.
     ret (answer 200 [(''status'', Str ''switched''), (''workspace'', workspace_json w)]))))"

definition accept_route :: "app_env \<Rightarrow> (string \<Rightarrow> string) \<Rightarrow> http_call \<Rightarrow> (saas_db, http_answer) act" where
  "accept_route env syntax rq =
     bnd (lift (session_token rq)) (\<lambda>token.
     bnd (lift (api_fields env syntax rq)) (\<lambda>p.
     bnd (acceptInvitation env token (field p ''token'')) (\<lambda>(w, role).
     ret (answer 200 [(''status'', Str ''accepted''), (''workspaceId'', Str w), (''role'', Str role)]))))"

section \<open>Dispatch\<close>

text \<open>The routes inside of the \<^verbatim>\<open>try\<close>; none for a request the server's handler answers.\<close>

definition guarded_route ::
  "app_env \<Rightarrow> (string \<Rightarrow> string) \<Rightarrow> (jsval \<Rightarrow> js_error + string) \<Rightarrow> (int \<Rightarrow> int) \<Rightarrow> http_call \<Rightarrow> (saas_db, http_answer) act option" where
  "guarded_route env syntax dec offset rq =
     (let is = (\<lambda>m p. hc_method rq = m \<and> hc_path rq = p) in
      if is ''POST'' ''/api/v1/auth/register'' then Some (register_route env syntax rq)
      else if is ''POST'' ''/api/v1/auth/login'' then Some (login_route env syntax rq)
      else if is ''POST'' ''/api/v1/auth/logout'' then Some (logout_route env rq)
      else if is ''POST'' ''/api/v1/auth/verify-email'' then Some (verify_route env syntax rq)
      else if is ''POST'' ''/api/v1/auth/password-reset/request'' then Some (ask_reset_route env syntax rq)
      else if is ''POST'' ''/api/v1/auth/password-reset/confirm'' then Some (reset_route env syntax rq)
      else if is ''GET'' ''/api/v1/workspaces'' then Some (workspaces_route env rq)
      else if is ''POST'' ''/api/v1/workspaces/switch'' then Some (switch_route env syntax rq)
      else if is ''POST'' ''/api/v1/invitations/accept'' then Some (accept_route env syntax rq)
      else if is ''GET'' ''/api/v1/cron'' then Some (handle_cron env dec offset rq)
      else None)"

text \<open>The handler's \<^verbatim>\<open>catch\<close>, for status codes that are numbers.\<close>

definition api_failure :: "js_error \<Rightarrow> (saas_db, http_answer) act" where
  "api_failure e =
     bnd (lift (message_of e)) (\<lambda>m.
     let status = (case js_or (error_field e ''statusCode'') (Num 500) of Num n \<Rightarrow> n | _ \<Rightarrow> 500) in
     ret (answer status [(''error'', Obj [(''code'', js_or m (Str ''API_FAILED'')),
       (''message'', if status \<ge> 500 then Str ''Request could not be completed'' else m)])]))"

text \<open>\<^verbatim>\<open>setSessionCookie\<close> or \<^verbatim>\<open>clearSessionCookie\<close>, where the answer has a cookie, and \<^verbatim>\<open>json(res, status, value)\<close>\<close>

definition api_reply :: "http_answer \<Rightarrow> (server, bool) act" where
  "api_reply a =
     bnd (case an_cookie a of None \<Rightarrow> ret () | Some c \<Rightarrow> set_header ''Set-Cookie'' c) (\<lambda>_.
     jsonResponse (an_status a) (an_body a))"

text \<open>A request with what only the server's routes look at: its other headers and the query parameter \<^verbatim>\<open>limit\<close>.\<close>

record web_call =
  wc_call :: http_call
  wc_headers :: "jsval js_map"
  wc_limit :: jsval

definition server_view :: "web_call \<Rightarrow> http_request" where
  "server_view w =
     (let rq = wc_call w in
      \<lparr>hr_method = hc_method rq, hr_path = hc_path rq, hr_limit = wc_limit w,
       hr_headers = Obj ((''cookie'', Str (hc_cookies rq)) # (''authorization'', hc_authorization rq) # wc_headers w), hr_chunks = [hc_raw rq]\<rparr>)"

definition catch_all :: "server_env \<Rightarrow> (int \<Rightarrow> int) \<Rightarrow> web_call \<Rightarrow> (server, bool) act" where
  "catch_all E offset w =
     (let env = se_app E; rq = wc_call w in
      if hc_method rq = ''GET'' \<and> hc_path rq = ''/api/health'' then api_reply (answer 200 [(''status'', Str ''ok''), (''service'', Str ''bos-api'')])
      else if hc_method rq = ''GET'' \<and> hc_path rq = ''/api/v1/auth/google-config'' then api_reply (google_config env)
      else if hc_method rq = ''POST'' \<and> hc_path rq = ''/api/v1/auth/google'' then bnd (in_db (google_route env (se_syntax E) rq)) api_reply
      else if hc_method rq = ''GET'' \<and> hc_path rq = ''/api/v1/auth/me'' then bnd (in_db (current_user env rq)) api_reply
      else (case guarded_route env (se_syntax E) (se_dec E) offset rq of
          Some m \<Rightarrow> try_catch (bnd (in_db m) api_reply) (\<lambda>e. bnd (in_db (api_failure e)) api_reply)
        | None \<Rightarrow> requestHandler E (server_view w)))"

section \<open>Who gets a session\<close>

lemma answers [simp]: "an_cookie (answer st fs) = None" "an_cookie (refusal st c m) = None" "an_cookie (validation_answer e) = None"
  "an_cookie sign_in_required = None" "an_cookie (google_config env) = None" "an_cookie (with_cookie c a) = Some c"
  by (simp_all add: answer_def refusal_def validation_answer_def sign_in_required_def google_config_def with_cookie_def)

lemma register_new:
  assumes "register env e p n s = (Inr acc, t)"
  shows "acc_id acc \<notin> usr_id ` set (users s)" "\<exists>u \<in> set (users t). usr_id u = acc_id acc \<and> usr_email u = normalizeEmail e"
proof -
  have conf: "configured env" using assms by (auto simp: register_def Let_def ensureAuthSchema_def storeOr_def bnd_run' split: if_splits)
  then have "acc_id acc \<notin> usr_id ` set (users s) \<and> (\<exists>u \<in> set (users t). usr_id u = acc_id acc \<and> usr_email u = normalizeEmail e)"
    using assms by (auto simp: register_def Let_def ensure_run bnd_run' hashPassword_run insert_user_def guarded_Inr split: if_splits prod.splits sum.splits)
  then show "acc_id acc \<notin> usr_id ` set (users s)" "\<exists>u \<in> set (users t). usr_id u = acc_id acc \<and> usr_email u = normalizeEmail e" by blast+
qed

lemma login_verifies:
  assumes "login env e p s = (Inr acc, t)"
  shows "\<exists>r \<in> set (users s). usr_id r = acc_id acc \<and> usr_email r = acc_email acc \<and> usr_email r = normalizeEmail e \<and> usr_status r = ''active'' \<and> verifyPassword env p (usr_password_hash r)"
    and "users t = users s"
proof -
  have conf: "configured env" using assms by (auto simp: login_def ensureAuthSchema_def storeOr_def bnd_run' split: if_splits)
  obtain r rs where r: "users_with_email (normalizeEmail e) s = r # rs"
    using assms conf by (auto simp: login_def ensure_run bnd_run' users_with_email_def split: list.splits)
  then have "r \<in> set (users_with_email (normalizeEmail e) s)" by simp
  then have "r \<in> set (users s)" "usr_email r = normalizeEmail e" by (simp_all add: users_with_email_def)
  then show "\<exists>r \<in> set (users s). usr_id r = acc_id acc \<and> usr_email r = acc_email acc \<and> usr_email r = normalizeEmail e \<and> usr_status r = ''active'' \<and> verifyPassword env p (usr_password_hash r)"
    and "users t = users s"
    using assms conf r by (auto simp: login_def ensure_run bnd_run' users_with_email_def split: if_splits)
qed

text \<open>An account stays, and so does a session that nobody closes.\<close>

interpretation opened: account_invariant env "\<lambda>s. (\<exists>u \<in> set (users s). usr_id u = i) \<and> (\<exists>x \<in> set (sessions s). ses_hash x = h \<and> ses_user x = i)"
    "\<lambda>_. True" "\<lambda>_. False" False for env h i
proof unfold_locales
  fix s U v X w
  assume P: "(\<exists>u \<in> set (users s). usr_id u = i) \<and> (\<exists>x \<in> set (sessions s). ses_hash x = h \<and> ses_user x = i)"
  then obtain u x where u: "u \<in> set (users s)" "usr_id u = i" and x: "x \<in> set (sessions s)" "ses_hash x = h" "ses_user x = i" by blast
  show "(\<exists>u \<in> set (users (s\<lparr>users := update_where U (\<lambda>u. u\<lparr>usr_verified := v\<rparr>) (users s)\<rparr>)). usr_id u = i)
      \<and> (\<exists>x \<in> set (sessions (s\<lparr>users := update_where U (\<lambda>u. u\<lparr>usr_verified := v\<rparr>) (users s)\<rparr>)). ses_hash x = h \<and> ses_user x = i)"
    using P u(2) by (auto intro!: bexI [OF _ update_whereI [OF u(1)]])
  show "(\<exists>u \<in> set (users (s\<lparr>sessions := update_where X (\<lambda>x. x\<lparr>ses_workspace := w\<rparr>) (sessions s)\<rparr>)). usr_id u = i)
      \<and> (\<exists>x \<in> set (sessions (s\<lparr>sessions := update_where X (\<lambda>x. x\<lparr>ses_workspace := w\<rparr>) (sessions s)\<rparr>)). ses_hash x = h \<and> ses_user x = i)"
    using P x(2,3) by (auto intro!: bexI [OF _ update_whereI [OF x(1)]])
qed auto

definition opens_session :: "app_env \<Rightarrow> string \<Rightarrow> string \<Rightarrow> saas_db \<Rightarrow> bool" where
  "opens_session env i c t \<longleftrightarrow> (\<exists>token. c = session_cookie token \<and> (\<exists>u \<in> set (users t). usr_id u = i) \<and> (\<exists>x \<in> set (sessions t). ses_hash x = sha256 env token \<and> ses_user x = i))"

lemma email_register_opens:
  assumes "email_register env syntax rq s = (Inr a, t)"
  shows "\<exists>i c p d. an_cookie a = Some c \<and> opens_session env i c t \<and> i \<notin> usr_id ` set (users s)
    \<and> api_body env syntax rq = Inr p \<and> validate_register p = Inr d \<and> (\<exists>u \<in> set (users t). usr_id u = i \<and> usr_email u = normalizeEmail (field d ''email''))"
proof -
  obtain p d user s1 delivery s2 token x where form: "api_body env syntax rq = Inr p" "validate_register p = Inr d"
    and run: "register env (field d ''email'') (field d ''password'') (field d ''name'') s = (Inr user, s1)"
      "requestVerification env user s1 = (Inr delivery, s2)" "create_session env (acc_id user) None s2 = (Inr (token, x), t)" "an_cookie a = Some (session_cookie token)"
    using assms by (auto simp: email_register_def lift_run elim!: bnd_InrE split: prod.splits)
  have "users s2 = users s1"
    using run(2) by (auto simp: requestVerification_def issue_token_def auth_schema_def storeOr_def sendEmail_def insert_token_def fetch_def bnd_run' guarded_def Let_def split: if_splits option.splits sum.splits)
  then show ?thesis using register_new [OF run(1)] create_session_row [OF run(3)] run(4) form unfolding opens_session_def by fastforce
qed

lemma email_login_opens:
  assumes "email_login env syntax rq s = (Inr a, t)"
  shows "\<exists>i c p d. an_cookie a = Some c \<and> opens_session env i c t \<and> api_body env syntax rq = Inr p \<and> validate_login p = Inr d
    \<and> (\<exists>r \<in> set (users s). usr_id r = i \<and> usr_email r = normalizeEmail (field d ''email'') \<and> usr_status r = ''active'' \<and> verifyPassword env (field d ''password'') (usr_password_hash r))"
proof -
  obtain p d user s1 token x s2 w where run: "api_body env syntax rq = Inr p" "validate_login p = Inr d" "login env (field d ''email'') (field d ''password'') s = (Inr user, s1)"
      "create_session env (acc_id user) None s1 = (Inr (token, x), s2)" "getWorkspaceForUser env (acc_id user) None s2 = (Inr w, t)" "an_cookie a = Some (session_cookie token)"
    using assms by (auto simp: email_login_def lift_run elim!: bnd_InrE split: prod.splits)
  note verified = login_verifies [OF run(3)]
  note session = create_session_row [OF run(4)]
  have "(\<exists>u \<in> set (users t). usr_id u = acc_id user) \<and> (\<exists>x \<in> set (sessions t). ses_hash x = sha256 env token \<and> ses_user x = acc_id user)"
    using keepsD [OF opened.keeps_workspaces(1), of s2 "acc_id user" "sha256 env token" env "acc_id user" None] verified session run(5) by fastforce
  then show ?thesis using run(1,2,6) verified(1) unfolding opens_session_def by blast
qed

lemma account_failure_cookie: "account_failure st f e s = (Inr a, t) \<Longrightarrow> an_cookie a = None"
  by (auto simp: account_failure_def bnd_run' lift_run split: sum.splits if_splits)

lemma api_failure_cookie: "api_failure e s = (Inr a, t) \<Longrightarrow> an_cookie a = None"
  by (auto simp: api_failure_def bnd_run' lift_run Let_def split: sum.splits)

lemma cron_cookie: "handle_cron env dec offset rq s = (Inr a, t) \<Longrightarrow> an_cookie a = None"
  by (auto simp: handle_cron_def cron_answer_def try_catch_def bnd_run' lift_run split: if_splits sum.splits prod.splits)

lemma other_routes_cookie:
  assumes "m s = (Inr a, t)" "m \<in> {current_user env rq, verify_route env syntax rq, ask_reset_route env syntax rq, reset_route env syntax rq, workspaces_route env rq,
    switch_route env syntax rq, accept_route env syntax rq}"
  shows "an_cookie a = None"
  using assms
  by (auto simp: current_user_def verify_route_def ask_reset_route_def reset_route_def workspaces_route_def switch_route_def accept_route_def with_session_def
      query_def elim!: bnd_InrE split: option.splits prod.splits if_splits sum.splits)

lemma guarded_route_cookie:
  assumes "guarded_route env syntax dec offset rq = Some m" "m s = (Inr a, t)" "an_cookie a = Some c" "c \<noteq> cleared_cookie"
  shows "email_register env syntax rq s = (Inr a, t) \<or> email_login env syntax rq s = (Inr a, t)"
proof -
  have caught: "k s = (Inr a, t)" if "try_catch k (account_failure st f) s = (Inr a, t)" for k st f
    using that assms(3) account_failure_cookie by (fastforce simp: try_catch_def split: prod.splits sum.splits)
  have "logout_route env rq s \<noteq> (Inr a, t)" using assms(3,4) by (auto simp: logout_route_def elim!: bnd_InrE)
  moreover have "handle_cron env dec offset rq s \<noteq> (Inr a, t)" using assms(3) cron_cookie by fastforce
  moreover have "m \<notin> {verify_route env syntax rq, ask_reset_route env syntax rq, reset_route env syntax rq, workspaces_route env rq, switch_route env syntax rq, accept_route env syntax rq}"
    using other_routes_cookie [of m s a t env rq "syntax"] assms(2,3) by auto
  moreover have "m \<in> {register_route env syntax rq, login_route env syntax rq, logout_route env rq, handle_cron env dec offset rq, verify_route env syntax rq,
      ask_reset_route env syntax rq, reset_route env syntax rq, workspaces_route env rq, switch_route env syntax rq, accept_route env syntax rq}"
    using assms(1) unfolding guarded_route_def Let_def by (simp only: option.inject option.simps insert_iff split: if_split_asm) simp_all
  ultimately have "register_route env syntax rq s = (Inr a, t) \<or> login_route env syntax rq s = (Inr a, t)" using assms(2) by blast
  then show ?thesis using caught unfolding register_route_def login_route_def by blast
qed

text \<open>What the server's own handler sets: never the cookie of a session.\<close>

definition no_session_set :: "server \<Rightarrow> bool" where
  "no_session_set s \<longleftrightarrow> (\<forall>c. (''Set-Cookie'', c) \<in> set (sv_headers s) \<longrightarrow> c = cleared_cookie)"

lemma keeps_no_session [valid_intros]:
  "keeps no_session_set (in_db m)" "keeps no_session_set (send st p)" "keeps no_session_set (jsonResponse st v)" "keeps no_session_set redirectToStart"
  "k \<noteq> ''Set-Cookie'' \<or> c = cleared_cookie \<Longrightarrow> keeps no_session_set (set_header k c)" "keeps no_session_set (htmlResponse E f)"
proof -
  show "keeps no_session_set (in_db m)" by (simp add: keeps_def in_db_def no_session_set_def split: prod.split)
  show send: "keeps no_session_set (send st p)" for st p by (simp add: keeps_def send_def no_session_set_def)
  then show json: "keeps no_session_set (jsonResponse st v)" for st v by (simp add: jsonResponse_def)
  show "keeps no_session_set redirectToStart" unfolding redirectToStart_def by (rule send)
  show "keeps no_session_set (set_header k c)" if "k \<noteq> ''Set-Cookie'' \<or> c = cleared_cookie" using that by (auto simp: keeps_def set_header_def no_session_set_def)
  show "keeps no_session_set (htmlResponse E f)" unfolding htmlResponse_def by (intro valid_intros send json)
qed

lemma keeps_no_session_handler: "keeps no_session_set (requestHandler E rq)"
proof -
  have count: "keeps no_session_set (\<lambda>s. (Inr (), recordRequest s))" "keeps no_session_set (\<lambda>s. (Inr (), recordError s))"
    by (simp_all add: keeps_def recordRequest_def recordError_def no_session_set_def)
  have own: "keeps no_session_set (own_route E rq i used)" for i used
    unfolding own_route_def onboarding_route_def workflows_route_def add_workflow_route_def whatsapp_status_route_def whatsapp_connect_route_def run_route_def sign_out_route_def Let_def
    by (intro valid_intros) simp
  have metrics: "keeps no_session_set (\<lambda>s. jsonResponse 200 (f s) s)" for f by (simp add: keeps_def jsonResponse_def send_def no_session_set_def)
  show ?thesis
    unfolding requestHandler_def request_failed_def server_routes_def api_routes_def member_page_def Let_def
    by (intro valid_intros count own metrics) simp
qed

lemma api_reply_run:
  assumes "sv_sent s = None"
  shows "api_reply a s = (Inr True, s\<lparr>sv_headers := sv_headers s @ (case an_cookie a of None \<Rightarrow> [] | Some c \<Rightarrow> [(''Set-Cookie'', c)]),
    sv_sent := Some (an_status a, Json (an_body a))\<rparr>)"
  using assms by (simp add: api_reply_def bnd_run' set_header_def jsonResponse_def send_def split: option.split)

lemma replied:
  assumes "bnd (in_db m) api_reply s = (r, t)" "sv_sent s = None" "sv_headers s = []" "(''Set-Cookie'', c) \<in> set (sv_headers t)"
  shows "\<exists>a. m (sv_db s) = (Inr a, sv_db t) \<and> an_cookie a = Some c"
  using assms by (auto simp: bnd_run' in_db_def api_reply_run split: prod.splits sum.splits option.splits)

text \<open>
  The request proves that it comes from the account \<open>i\<close>: its body registered the account just now, with
  the account's address; or it gives the address of this active account and its password; or it gives
  a credential about which Google's token service was asked, and vouched for the account's address.
\<close>

definition proven :: "app_env \<Rightarrow> (string \<Rightarrow> string) \<Rightarrow> http_call \<Rightarrow> saas_db \<Rightarrow> saas_db \<Rightarrow> string \<Rightarrow> bool" where
  "proven env syntax rq s t i \<longleftrightarrow>
     (\<exists>p d. i \<notin> usr_id ` set (users s) \<and> api_body env syntax rq = Inr p \<and> validate_register p = Inr d
        \<and> (\<exists>u \<in> set (users t). usr_id u = i \<and> usr_email u = normalizeEmail (field d ''email'')))
   \<or> (\<exists>p d. api_body env syntax rq = Inr p \<and> validate_login p = Inr d
        \<and> (\<exists>u \<in> set (users s). usr_id u = i \<and> usr_email u = normalizeEmail (field d ''email'') \<and> usr_status u = ''active''
            \<and> verifyPassword env (field d ''password'') (usr_password_hash u)))
   \<or> (\<exists>p g. api_fields env syntax rq = Inr p \<and> vouched env s t (trimmed (field p ''credential'')) g
        \<and> (\<exists>u \<in> set (users t). usr_id u = i \<and> usr_email u = google_email g))"

lemma google_route_proves:
  assumes "google_route env syntax rq s = (Inr a, t)" "an_cookie a = Some c" "accounts_ok s"
  shows "\<exists>i. opens_session env i c t \<and> proven env syntax rq s t i"
proof -
  obtain p name where p: "api_fields env syntax rq = Inr p"
    and run: "google_sign_in env syntax (map_option wi_tenant) ''Google profile is incomplete'' (trimmed (field p ''credential'')) name s = (Inr a, t)"
    using assms(1,2) by (auto simp: google_route_def google_handler_run split: if_splits sum.splits)
  from google_sign_in_outcome [OF run assms(3)] assms(2) obtain g token u x where "vouched env s t (trimmed (field p ''credential'')) g" "c = session_cookie token"
      "u \<in> set (users t)" "usr_email u = google_email g" "x \<in> set (sessions t)" "ses_user x = usr_id u" "ses_hash x = sha256 env token" by auto
  then show ?thesis using p unfolding opens_session_def proven_def by blast
qed

lemma guarded_route_proves:
  assumes "guarded_route env syntax dec offset rq = Some m" "m s = (Inr a, t)" "an_cookie a = Some c" "c \<noteq> cleared_cookie"
  shows "\<exists>i. opens_session env i c t \<and> proven env syntax rq s t i"
  using guarded_route_cookie [OF assms]
proof
  assume "email_register env syntax rq s = (Inr a, t)"
  from email_register_opens [OF this] assms(3) obtain i p d where "opens_session env i c t" "i \<notin> usr_id ` set (users s)" "api_body env syntax rq = Inr p" "validate_register p = Inr d"
      "\<exists>u \<in> set (users t). usr_id u = i \<and> usr_email u = normalizeEmail (field d ''email'')" by auto
  then show ?thesis unfolding proven_def by blast
next
  assume "email_login env syntax rq s = (Inr a, t)"
  from email_login_opens [OF this] assms(3) obtain i p d where "opens_session env i c t" "api_body env syntax rq = Inr p" "validate_login p = Inr d"
      "\<exists>u \<in> set (users s). usr_id u = i \<and> usr_email u = normalizeEmail (field d ''email'') \<and> usr_status u = ''active'' \<and> verifyPassword env (field d ''password'') (usr_password_hash u)" by auto
  then show ?thesis unfolding proven_def by blast
qed

lemma caught_route_proves:
  assumes "guarded_route env syntax dec offset rq = Some m" "try_catch (bnd (in_db m) api_reply) (\<lambda>e. bnd (in_db (api_failure e)) api_reply) s = (r, t)"
    and "sv_sent s = None" "sv_headers s = []" "(''Set-Cookie'', c) \<in> set (sv_headers t)" "c \<noteq> cleared_cookie"
  shows "\<exists>i. opens_session env i c (sv_db t) \<and> proven env syntax rq (sv_db s) (sv_db t) i"
proof -
  obtain q u where q: "bnd (in_db m) api_reply s = (q, u)" by fastforce
  show ?thesis
  proof (cases q)
    case (Inr v)
    then have "bnd (in_db m) api_reply s = (r, t)" using assms(2) q by (simp add: try_catch_def)
    from replied [OF this assms(3-5)] show ?thesis using guarded_route_proves [OF assms(1) _ _ assms(6)] by blast
  next
    case (Inl e)
    then have "sv_sent u = None" "sv_headers u = []" using q assms(3,4) by (auto simp: bnd_run' in_db_def api_reply_run split: prod.splits sum.splits)
    moreover have "bnd (in_db (api_failure e)) api_reply u = (r, t)" using assms(2) q Inl by (simp add: try_catch_def)
    ultimately obtain a where "api_failure e (sv_db u) = (Inr a, sv_db t)" "an_cookie a = Some c" using replied [OF _ _ _ assms(5)] by blast
    then show ?thesis using api_failure_cookie by fastforce
  qed
qed

text \<open>C15: Safety. The deployed API opens sessions only for those who prove who they are. When the response to a
  request, of whatever method, path, body and headers, and whether the API answers it itself or hands it
  to the server's handler, sets a cookie that is not the cleared one, the cookie carries the token of a
  session stored for an existing account, and the request proves that it comes from this account: its body registered it just now;
  or gave its address and password; or gave a credential about which the handler, in its only network
  call, asked Google's token service, which vouched for the account's address.\<close>

theorem sessions_open_with_proof:
  assumes "catch_all E offset w s = (r, t)" "sv_sent s = None" "sv_headers s = []" "accounts_ok (sv_db s)"
    and "(''Set-Cookie'', c) \<in> set (sv_headers t)" "c \<noteq> cleared_cookie"
  shows "\<exists>i. opens_session (se_app E) i c (sv_db t) \<and> proven (se_app E) (se_syntax E) (wc_call w) (sv_db s) (sv_db t) i"
proof -
  let ?env = "se_app E" and ?syn = "se_syntax E" and ?rq = "wc_call w"
  note reply = replied [OF _ assms(2,3,5)]
  consider (static) a where "api_reply a s = (r, t)" "an_cookie a = None" | (google) "bnd (in_db (google_route ?env ?syn ?rq)) api_reply s = (r, t)"
    | (me) "bnd (in_db (current_user ?env ?rq)) api_reply s = (r, t)"
    | (guarded) m where "guarded_route ?env ?syn (se_dec E) offset ?rq = Some m" "try_catch (bnd (in_db m) api_reply) (\<lambda>e. bnd (in_db (api_failure e)) api_reply) s = (r, t)"
    | (handed) "requestHandler E (server_view w) s = (r, t)"
    using assms(1) by (auto simp: catch_all_def Let_def split: if_splits option.splits)
  then show ?thesis
  proof cases
    case static
    then show ?thesis using assms(2,3,5) by (auto simp: api_reply_run)
  next
    case google
    from reply [OF this] show ?thesis using google_route_proves assms(4) by blast
  next
    case me
    from reply [OF this] show ?thesis using other_routes_cookie [of "current_user ?env ?rq" "sv_db s" _ "sv_db t" ?env ?rq ?syn] by auto
  next
    case guarded
    then show ?thesis using caught_route_proves assms(2,3,5,6) by blast
  next
    case handed
    have "no_session_set s" using assms(3) by (simp add: no_session_set_def)
    from keepsD [OF keeps_no_session_handler this, of E "server_view w"] have "no_session_set t" by (simp add: handed)
    then show ?thesis using assms(5,6) by (simp add: no_session_set_def)
  qed
qed

lemma session_cookie_not_cleared: "session_cookie token \<noteq> cleared_cookie"
proof
  have "nat_str 259200 = nat_str 25920 @ ''0''" by (subst nat_str.simps) simp
  moreover have "nat_str 2592000 = nat_str 259200 @ ''0''" by (subst nat_str.simps) simp
  ultimately have "int_str (session_days * 86400) = nat_str 25920 @ ''00''" by (simp add: session_days_def int_str_def)
  then have "take 2 (rev (session_cookie token)) = ''00''" by (simp add: session_cookie_def)
  moreover assume "session_cookie token = cleared_cookie"
  ultimately show False by (simp add: cleared_cookie_def)
qed

definition demo_lock :: app_env where
  "demo_lock = demo_app\<lparr>scrypt := (\<lambda>p x. of_hex ''00'')\<rparr>"

definition demo_login :: http_call where
  "demo_login = \<lparr>hc_method = ''POST'', hc_path = ''/api/v1/auth/login'', hc_body = Obj [(''email'', Str '' Ann@bos.io''), (''password'', Str ''pw'')], hc_raw = [], hc_cookies = [],
     hc_authorization = Undefined\<rparr>"

definition demo_front :: server_env where
  "demo_front = \<lparr>se_app = demo_lock, se_enc = (\<lambda>_. Inr []), se_dec = (\<lambda>_. Inr []), se_syntax = (\<lambda>t. t), se_file = (\<lambda>_. None), se_uptime = 0\<rparr>"

definition demo_login_call :: web_call where
  "demo_login_call = \<lparr>wc_call = demo_login, wc_headers = [], wc_limit = Null\<rparr>"

definition demo_idle_server :: server where
  "demo_idle_server = \<lparr>sv_db = demo_accounts, sv_requests = 0, sv_errors = 0, sv_started = [], sv_headers = [], sv_sent = None\<rparr>"

lemma demo_login_succeeds:
  "\<exists>t c. catch_all demo_front offset demo_login_call demo_idle_server = (Inr True, t) \<and> (''Set-Cookie'', c) \<in> set (sv_headers t) \<and> c \<noteq> cleared_cookie"
proof -
  let ?d = "Obj [(''email'', Str ''ann@bos.io''), (''password'', Str ''pw'')]"
  have form: "validate_login (hc_body demo_login) = Inr ?d" "normalizeEmail (Str ''ann@bos.io'') = ''ann@bos.io''" by (simp add: demo_login_def, code_simp, code_simp)
  have paths: "guarded_route demo_lock (\<lambda>t. t) (\<lambda>_. Inr []) offset demo_login = Some (login_route demo_lock (\<lambda>t. t) demo_login)"
    "hc_method demo_login = ''POST''" "hc_path demo_login = ''/api/v1/auth/login''"
    by (simp_all add: guarded_route_def demo_login_def)
  have c: "configured demo_lock" "verifyPassword demo_lock p ''scrypt$00$00''" for p
  proof -
    have "part 1 (split_on (CHR ''$'') ''scrypt$00$00'') = ''00''" "part 2 (split_on (CHR ''$'') ''scrypt$00$00'') = ''00''" by code_simp+
    then show "configured demo_lock" "verifyPassword demo_lock p ''scrypt$00$00''" by (simp_all add: demo_lock_def demo_app_sized verifyPassword_def)
  qed
  let ?user = "\<lparr>acc_id = ''u1'', acc_email = ''ann@bos.io'', acc_name = ''Ann''\<rparr>"
  let ?t = "fold backfill_owner (workspaces demo_accounts) demo_accounts"
  have login: "login demo_lock (Str ''ann@bos.io'') (Str ''pw'') demo_accounts = (Inr ?user, ?t)"
    using c by (simp add: login_def ensure_run bnd_run' form(2) users_with_email_def demo_accounts_def demo_user_def)
  have "\<exists>token e u. create_session demo_lock ''u1'' None ?t = (Inr (token, e), u)"
    by (simp add: create_session_run c Let_def insert_session_def guarded_def new_session_def demo_accounts_def demo_user_def demo_lock_def demo_app_def empty_db_def)
  then obtain token e u where session: "create_session demo_lock ''u1'' None ?t = (Inr (token, e), u)" by blast
  obtain w v where workspace: "getWorkspaceForUser demo_lock ''u1'' None u = (Inr w, v)" using c by (auto simp: getWorkspaceForUser_def ensure_run bnd_run')
  have "\<exists>a. email_login demo_lock (\<lambda>t. t) demo_login demo_accounts = (Inr a, v) \<and> an_cookie a = Some (session_cookie token)"
    using form(1) login session workspace by (simp add: email_login_def bnd_run' api_body_def demo_login_def)
  then show ?thesis using session_cookie_not_cleared [of token]
    by (auto simp: catch_all_def paths login_route_def try_catch_def demo_front_def demo_login_call_def demo_idle_server_def bnd_run' in_db_def api_reply_run)
qed

theorem sessions_open_with_proof_witness:
  "\<exists>t c i. catch_all demo_front (\<lambda>_. 0) demo_login_call demo_idle_server = (Inr True, t) \<and> (''Set-Cookie'', c) \<in> set (sv_headers t)
     \<and> opens_session demo_lock i c (sv_db t)"
proof -
  obtain t c where run: "catch_all demo_front (\<lambda>_. 0) demo_login_call demo_idle_server = (Inr True, t)" "(''Set-Cookie'', c) \<in> set (sv_headers t)" "c \<noteq> cleared_cookie"
    using demo_login_succeeds by blast
  have "se_app demo_front = demo_lock" by (simp add: demo_front_def)
  with sessions_open_with_proof [OF run(1) _ _ _ run(2,3)] run demo_accounts_ok show ?thesis by (auto simp: demo_idle_server_def)
qed

end
