(* ===== verification/WorkflowApi.thy ===== *)
theory WorkflowApi
  imports SignIn Webhooks
begin

text \<open>
  The workflows and automation runs kept as records: who calls (\<^verbatim>\<open>modules/auth/session.js\<close>), the handler
  of workflows (\<^verbatim>\<open>api/v1/workflows.js\<close>) and that of automation runs (\<^verbatim>\<open>api/v1/automations/run-production.js\<close>).
  An answer is its status and body. The reading of dates in other formats than that of \<^verbatim>\<open>toISOString\<close> is a parameter.
\<close>

record api_request =
  ar_method :: string
  ar_id :: jsval \<comment> \<open>\<^verbatim>\<open>url.searchParams.get('id')\<close>: a text or null\<close>
  ar_request_id :: jsval
  ar_idempotency :: jsval
  ar_cookies :: string
  ar_body :: jsval
  ar_chunks :: "string list"

section \<open>The caller's tenant\<close>

definition cookie_value :: "string \<Rightarrow> string \<Rightarrow> js_error + string option" where
  "cookie_value cookies name =
     (case row0 (filter (prefix (name @ ''='')) (map trim (split_on (CHR '';'') cookies))) of
        None \<Rightarrow> Inr None
      | Some item \<Rightarrow> map_sum id Some (decodeURIComponent (drop (length name + 1) item)))"

text \<open>\<^verbatim>\<open>SELECT tenant_id,value FROM bos_records WHERE record_type='auth_session' AND record_id=$1 LIMIT 1\<close>\<close>

definition auth_session :: "string \<Rightarrow> saas_db \<Rightarrow> bos_row option" where
  "auth_session h s = row0 (filter (\<lambda>r. row_type r = ''auth_session'' \<and> row_id r = h) (bos_records (records s)))"

definition live_until :: "(string \<Rightarrow> int option) \<Rightarrow> int \<Rightarrow> jsval \<Rightarrow> bool" where
  "live_until dates time session \<longleftrightarrow> truthy (field session ''expiresAt'') \<and> num_gt (date_time dates (field session ''expiresAt'')) (Num time)"

definition authenticatedTenantId :: "app_env \<Rightarrow> (string \<Rightarrow> int option) \<Rightarrow> string \<Rightarrow> (saas_db, jsval) act" where
  "authenticatedTenantId env dates cookies =
     bnd (lift (cookie_value cookies ''bos_session'')) (\<lambda>c. case c of
       None \<Rightarrow> ret Null
     | Some token \<Rightarrow>
         if token = [] \<or> \<not> configured env then ret Null
         else
           bnd (try_catch (getSession env token) (\<lambda>e. ret None)) (\<lambda>session.
           bnd (query (\<lambda>s. case session of None \<Rightarrow> None | Some info \<Rightarrow> legacy_workspace (si_user info) s)) (\<lambda>found. case found of
             Some v \<Rightarrow> ret (field v ''tenantId'')
           | None \<Rightarrow> query (\<lambda>s. case auth_session (sha256 env token) s of
                 None \<Rightarrow> Null
               | Some r \<Rightarrow> if live_until dates (app_now s) (row_value r) then Str (row_tenant r) else Null))))"

section \<open>Workflows\<close>

definition problem :: "int \<Rightarrow> string \<Rightarrow> jsval \<Rightarrow> http_answer" where
  "problem status c m = answer status [(''error'', Obj [(''code'', Str c), (''message'', m)])]"

definition read_workflow_body :: "app_env \<Rightarrow> api_request \<Rightarrow> js_error + jsval" where
  "read_workflow_body env rq =
     (if is_ref (ar_body rq) then Inr (ar_body rq)
      else let raw = concat (ar_chunks rq) in
        if length raw > 100000 then Inl (Error ''PAYLOAD_TOO_LARGE'')
        else if raw = [] then Inr (Obj [])
        else case parse_json env raw of None \<Rightarrow> Inl (Error ''INVALID_JSON'') | Some v \<Rightarrow> Inr v)"

definition clock :: "saas_db \<Rightarrow> jsval" where
  "clock s = Str (iso_of_ms (app_now s))"

definition is_array :: "jsval \<Rightarrow> bool" where
  "is_array v = (case v of Arr xs \<Rightarrow> True | _ \<Rightarrow> False)"

definition workflow_problem :: "jsval \<Rightarrow> string option" where
  "workflow_problem p =
     (if \<not> truthy (field p ''name'') \<or> \<not> is_str (field p ''name'') then Some ''name is required''
      else if \<not> truthy (field p ''trigger'') \<or> \<not> is_ref (field p ''trigger'') then Some ''trigger is required''
      else if \<not> is_array (field p ''steps'') \<or> field p ''steps'' = Arr [] then Some ''steps must contain at least one action''
      else None)"

definition new_workflow :: "string \<Rightarrow> jsval \<Rightarrow> jsval \<Rightarrow> jsval \<Rightarrow> jsval" where
  "new_workflow i tenantId p time =
     Obj [(''id'', Str i), (''tenantId'', tenantId), (''name'', Str (trim (to_str (field p ''name'')))), (''trigger'', field p ''trigger''), (''steps'', field p ''steps''),
          (''enabled'', Boolean (field p ''enabled'' \<noteq> Boolean False)), (''version'', Num 1), (''createdAt'', time), (''updatedAt'', time)]"

definition add_workflow_record :: "app_env \<Rightarrow> api_request \<Rightarrow> jsval \<Rightarrow> (saas_db, http_answer) act" where
  "add_workflow_record env rq tenantId =
     bnd (lift (read_workflow_body env rq)) (\<lambda>p.
     if nullish p then throw null_read_error
     else case workflow_problem p of
       Some m \<Rightarrow> ret (problem 400 ''INVALID_WORKFLOW'' (Str m))
     | None \<Rightarrow>
         bnd (randomUUID env []) (\<lambda>i.
         bnd (query clock) (\<lambda>time.
         let w = new_workflow i tenantId p time in
         bnd (in_records (pg_save tenantId ''workflow'' (Str i) w)) (\<lambda>_.
         ret (answer 201 [(''status'', Str ''created''), (''workflow'', w)])))))"

definition changed_workflow :: "jsval \<Rightarrow> jsval \<Rightarrow> jsval \<Rightarrow> jsval \<Rightarrow> jsval \<Rightarrow> jsval" where
  "changed_workflow current p i tenantId time =
     spread (spread current (own_fields p))
       [(''id'', i), (''tenantId'', tenantId), (''version'', num_add (to_num (js_or (field current ''version'') (Num 1))) (Num 1)), (''updatedAt'', time)]"

definition id_required :: http_answer where
  "id_required = problem 400 ''WORKFLOW_ID_REQUIRED'' (Str ''id query parameter is required'')"

definition workflow_not_found :: http_answer where
  "workflow_not_found = problem 404 ''WORKFLOW_NOT_FOUND'' (Str ''Workflow not found'')"

definition change_workflow_record :: "app_env \<Rightarrow> api_request \<Rightarrow> jsval \<Rightarrow> (saas_db, http_answer) act" where
  "change_workflow_record env rq tenantId =
     (if \<not> truthy (ar_id rq) then ret id_required
      else
        bnd (in_records (pg_find tenantId ''workflow'' (ar_id rq))) (\<lambda>current.
        if \<not> truthy current then ret workflow_not_found
        else
          bnd (lift (read_workflow_body env rq)) (\<lambda>p.
          bnd (query clock) (\<lambda>time.
          let w = changed_workflow current p (ar_id rq) tenantId time in
          bnd (in_records (pg_save tenantId ''workflow'' (ar_id rq) w)) (\<lambda>_.
          ret (answer 200 [(''status'', Str ''updated''), (''workflow'', w)]))))))"

definition delete_workflow_record :: "api_request \<Rightarrow> jsval \<Rightarrow> (saas_db, http_answer) act" where
  "delete_workflow_record rq tenantId =
     (if \<not> truthy (ar_id rq) then ret id_required
      else
        bnd (in_records (pg_delete tenantId ''workflow'' (ar_id rq))) (\<lambda>deleted.
        ret (if deleted then answer 200 [(''status'', Str ''deleted''), (''id'', ar_id rq)] else workflow_not_found)))"

definition read_workflow_records :: "api_request \<Rightarrow> jsval \<Rightarrow> (saas_db, http_answer) act" where
  "read_workflow_records rq tenantId =
     (if truthy (ar_id rq) then
        bnd (in_records (pg_find tenantId ''workflow'' (ar_id rq))) (\<lambda>w.
        ret (if truthy w then answer 200 [(''status'', Str ''ok''), (''workflow'', w)] else workflow_not_found))
      else
        bnd (in_records (pg_all tenantId ''workflow'')) (\<lambda>ws.
        ret (answer 200 [(''status'', Str ''ok''), (''workflows'', Arr ws)])))"

definition workflow_call :: "app_env \<Rightarrow> api_request \<Rightarrow> jsval \<Rightarrow> (saas_db, http_answer) act" where
  "workflow_call env rq tenantId =
     (if ar_method rq = ''GET'' then read_workflow_records rq tenantId
      else if ar_method rq = ''POST'' then add_workflow_record env rq tenantId
      else if ar_method rq = ''PATCH'' then change_workflow_record env rq tenantId
      else if ar_method rq = ''DELETE'' then delete_workflow_record rq tenantId
      else ret (problem 405 ''METHOD_NOT_ALLOWED'' (Str ''Use GET, POST, PATCH or DELETE'')))"

definition workflow_failure :: "js_error \<Rightarrow> (saas_db, http_answer) act" where
  "workflow_failure e =
     bnd (lift (message_of e)) (\<lambda>m.
     ret (if m = Str ''INVALID_JSON'' then problem 400 ''INVALID_JSON'' m
       else if m = Str ''PAYLOAD_TOO_LARGE'' then problem 413 ''PAYLOAD_TOO_LARGE'' m
       else problem 503 ''WORKFLOW_STORE_FAILED'' (js_or m (Str ''Workflow persistence failed''))))"

definition handle_workflows :: "app_env \<Rightarrow> (string \<Rightarrow> int option) \<Rightarrow> api_request \<Rightarrow> (saas_db, http_answer) act" where
  "handle_workflows env dates rq = try_catch
     (bnd (authenticatedTenantId env dates (ar_cookies rq)) (\<lambda>tenantId.
      if \<not> truthy tenantId then ret (problem 401 ''AUTH_REQUIRED'' (Str ''Sign in is required''))
      else if \<not> configured env then ret (problem 503 ''DATABASE_NOT_READY'' (Str ''Production database is required''))
      else workflow_call env rq tenantId))
     workflow_failure"

section \<open>Automation runs\<close>

definition save_action :: "app_env \<Rightarrow> string \<Rightarrow> string \<Rightarrow> jsval \<Rightarrow> (saas_db, jsval) act" where
  "save_action env action status arg =
     bnd (randomUUID env []) (\<lambda>i.
     bnd (query clock) (\<lambda>time.
     bnd (in_records (pg_save (field arg ''tenantId'') action (Str i)
       (Obj [(''id'', Str i), (''tenantId'', field arg ''tenantId''), (''action'', Str action), (''status'', Str status), (''input'', field arg ''input''), (''createdAt'', time)]))) (\<lambda>_.
     ret (Obj [(''action'', Str action), (''id'', Str i), (''status'', Str status), (''persisted'', Boolean True), (''input'', field arg ''input'')]))))"

definition run_actions :: "app_env \<Rightarrow> saas_db actions" where
  "run_actions env =
     [(''create_task'', save_action env ''task'' ''open''),
      (''notify_sales'', save_action env ''sales_notification'' ''queued''),
      (''ai_followup'', save_action env ''ai_followup'' ''queued'')]"

definition run_problem :: "jsval \<Rightarrow> int \<Rightarrow> string \<Rightarrow> jsval \<Rightarrow> http_answer" where
  "run_problem requestId status c m = answer status [(''error'', Obj [(''code'', Str c), (''message'', m), (''requestId'', requestId)])]"

definition steps_of :: "jsval \<Rightarrow> jsval list" where
  "steps_of v = (case field v ''steps'' of Arr xs \<Rightarrow> xs | _ \<Rightarrow> [])"

definition run_id :: "app_env \<Rightarrow> jsval \<Rightarrow> jsval \<Rightarrow> string" where
  "run_id env tenantId key = take 40 (sha256 env (to_str tenantId @ '':'' @ to_str key))"

text \<open>The run: \<open>w\<close> is the stored workflow or null.\<close>

definition run_context :: "jsval \<Rightarrow> jsval \<Rightarrow> string \<Rightarrow> jsval" where
  "run_context p w i = spread (js_or (field p ''context'') (Obj []))
     [(''executionId'', Str i), (''workflowId'', js_or (field w ''id'') Null), (''workflowVersion'', js_or (field w ''version'') Null)]"

definition execution_record :: "string \<Rightarrow> jsval \<Rightarrow> jsval \<Rightarrow> jsval \<Rightarrow> jsval list \<Rightarrow> jsval \<Rightarrow> jsval \<Rightarrow> jsval \<Rightarrow> jsval \<Rightarrow> jsval" where
  "execution_record i tenantId key w todo p result started completed =
     Obj [(''id'', Str i), (''tenantId'', tenantId), (''status'', Str ''completed''), (''idempotencyKey'', key), (''workflowId'', js_or (field w ''id'') Null),
          (''workflowVersion'', js_or (field w ''version'') Null), (''steps'', Arr todo), (''context'', js_or (field p ''context'') (Obj [])), (''result'', result),
          (''startedAt'', started), (''completedAt'', completed)]"

definition idempotency_key :: "app_env \<Rightarrow> api_request \<Rightarrow> (saas_db, jsval) act" where
  "idempotency_key env rq = (if truthy (ar_idempotency rq) then ret (ar_idempotency rq) else bnd (randomUUID env []) (\<lambda>i. ret (Str i)))"

definition run_once :: "app_env \<Rightarrow> api_request \<Rightarrow> jsval \<Rightarrow> jsval \<Rightarrow> jsval \<Rightarrow> jsval \<Rightarrow> jsval list \<Rightarrow> (saas_db, http_answer) act" where
  "run_once env rq requestId tenantId p w todo =
     bnd (idempotency_key env rq) (\<lambda>key.
     let i = run_id env tenantId key in
     bnd (in_records (pg_find tenantId ''execution'' (Str i))) (\<lambda>existing.
     if truthy existing then
       ret (answer 200 [(''status'', Str ''completed''), (''replayed'', Boolean True), (''persisted'', Boolean True), (''execution'', existing), (''requestId'', requestId)])
     else
       bnd (query clock) (\<lambda>started.
       bnd (run_automation (run_actions env) tenantId (Arr todo) (run_context p w i)) (\<lambda>result.
       bnd (query clock) (\<lambda>completed.
       let x = execution_record i tenantId key w todo p result started completed in
       bnd (in_records (pg_save tenantId ''execution'' (Str i) x)) (\<lambda>_.
       ret (answer 200 [(''status'', Str ''completed''), (''persisted'', Boolean True), (''execution'', x), (''requestId'', requestId)])))))))"

definition run_call :: "app_env \<Rightarrow> api_request \<Rightarrow> jsval \<Rightarrow> jsval \<Rightarrow> (saas_db, http_answer) act" where
  "run_call env rq requestId tenantId =
     (let p = (if is_ref (ar_body rq) then ar_body rq else Obj []);
          go = (\<lambda>w todo. if todo = [] then ret (run_problem requestId 400 ''INVALID_REQUEST'' (Str ''steps or workflowId must resolve to at least one action''))
                 else run_once env rq requestId tenantId p w todo) in
      if \<not> configured env then ret (run_problem requestId 503 ''DATABASE_NOT_READY'' (Str ''Production database is required for automation execution''))
      else if truthy (field p ''workflowId'') then
        bnd (in_records (pg_find tenantId ''workflow'' (Str (to_str (field p ''workflowId''))))) (\<lambda>w.
        if \<not> truthy w then ret (run_problem requestId 404 ''WORKFLOW_NOT_FOUND'' (Str ''Workflow not found''))
        else if field w ''enabled'' = Boolean False then ret (run_problem requestId 409 ''WORKFLOW_DISABLED'' (Str ''Workflow is disabled''))
        else go w (steps_of w))
      else go Null (steps_of p))"

definition handle_run :: "app_env \<Rightarrow> (string \<Rightarrow> int option) \<Rightarrow> api_request \<Rightarrow> (saas_db, http_answer) act" where
  "handle_run env dates rq =
     bnd (if truthy (ar_request_id rq) then ret (ar_request_id rq) else bnd (randomUUID env []) (\<lambda>i. ret (Str i))) (\<lambda>requestId.
     if ar_method rq \<noteq> ''POST'' then ret (run_problem requestId 405 ''METHOD_NOT_ALLOWED'' (Str ''Use POST for automation execution''))
     else try_catch
       (bnd (authenticatedTenantId env dates (ar_cookies rq)) (\<lambda>tenantId.
        if \<not> truthy tenantId then ret (run_problem requestId 401 ''AUTH_REQUIRED'' (Str ''Sign in is required''))
        else run_call env rq requestId tenantId))
       (\<lambda>e. bnd (lift (message_of e)) (\<lambda>m. ret (run_problem requestId 422 ''AUTOMATION_FAILED'' (js_or m (Str ''Automation failed''))))))"

section \<open>Other tenants\<close>

definition foreign_rows :: "string \<Rightarrow> saas_db \<Rightarrow> bos_row list" where
  "foreign_rows w s = filter (\<lambda>r. row_tenant r \<noteq> w) (bos_records (records s))"

lemma foreign_upsert: "row_tenant x = w \<Longrightarrow> filter (\<lambda>r. row_tenant r \<noteq> w) (sql_upsert x rs) = filter (\<lambda>r. row_tenant r \<noteq> w) rs"
  by (induction x rs rule: sql_upsert.induct) (auto simp: row_key_def)

lemma keeps_foreign_records [valid_intros]:
  "keeps (\<lambda>s. foreign_rows w s = rs) (in_records (pg_save n ty i v))" if "to_str n = w" for n v
  using that by (auto simp: keeps_def in_records_def pg_save_def foreign_rows_def foreign_upsert Let_def split: option.splits prod.splits)

lemma keeps_foreign_reads [valid_intros]:
  "keeps (\<lambda>s. foreign_rows w s = rs) (in_records (pg_find n ty i))" "keeps (\<lambda>s. foreign_rows w s = rs) (in_records (pg_all n ty))"
  "to_str n = w \<Longrightarrow> keeps (\<lambda>s. foreign_rows w s = rs) (in_records (pg_delete n ty i))"
  "keeps (\<lambda>s. foreign_rows w s = rs) (randomUUID env pre)"
  by (auto simp: keeps_def in_records_def pg_find_def pg_all_def pg_delete_def sql_delete_def foreign_rows_def row_key_def split: option.splits prod.splits if_splits intro: filter_cong)

lemma keeps_foreign_workflows: "to_str n = w \<Longrightarrow> keeps (\<lambda>s. foreign_rows w s = rs) (workflow_call env rq n)"
  unfolding workflow_call_def read_workflow_records_def add_workflow_record_def change_workflow_record_def delete_workflow_record_def Let_def
  by (intro valid_intros)

lemma keeps_foreign_actions:
  assumes "to_str n = w"
  shows "keeps (\<lambda>s. foreign_rows w s = rs) (run_automation (run_actions env) n todo context)"
proof -
  have saved: "keeps (\<lambda>s. foreign_rows w s = rs) (save_action env action status (Obj [(''tenantId'', n), (''context'', c), (''input'', v)]))" for action status c v
    unfolding save_action_def using assms by (intro valid_intros) simp
  have "keeps (\<lambda>s. foreign_rows w s = rs) (call_action (run_actions env) action (Obj [(''tenantId'', n), (''context'', c), (''input'', v)]))" for action c v
    unfolding call_action_def run_actions_def by (auto intro!: valid_intros saved split: option.split sum.split)
  then show ?thesis unfolding run_automation_def run_step_def Let_def by (auto intro!: valid_intros split: sum.split)
qed

lemma keeps_foreign_run:
  assumes "to_str n = w"
  shows "keeps (\<lambda>s. foreign_rows w s = rs) (run_call env rq requestId n)"
  unfolding run_call_def run_once_def idempotency_key_def Let_def
  by (intro valid_intros keeps_foreign_actions assms)

lemma keeps_session: "keeps (\<lambda>s. foreign_rows w s = rs) (getSession env token)"
proof -
  have "records (fold backfill_owner ws s) = records s" for ws s by simp
  then show ?thesis by (simp add: keeps_def getSession_def ensureAuthSchema_def storeOr_def bnd_run' foreign_rows_def)
qed

lemma keeps_caller: "keeps (\<lambda>s. foreign_rows w s = rs) (authenticatedTenantId env dates cookies)"
  unfolding authenticatedTenantId_def by (intro valid_intros keeps_session)

text \<open>Drawing a request id does not change who calls.\<close>

lemma caller_drawn: "authenticatedTenantId env dates cookies (s\<lparr>draws := n\<rparr>) = map_prod id (\<lambda>t. t\<lparr>draws := n\<rparr>) (authenticatedTenantId env dates cookies s)"
proof -
  have backfill: "backfill_owner w (s\<lparr>draws := n\<rparr>) = (backfill_owner w s)\<lparr>draws := n\<rparr>" for w s by (simp add: backfill_owner_def is_member_def now_def)
  have "fold backfill_owner ws (s\<lparr>draws := n\<rparr>) = (fold backfill_owner ws s)\<lparr>draws := n\<rparr>" for ws s by (induction ws arbitrary: s) (simp_all add: backfill)
  then have "getSession env token (s\<lparr>draws := n\<rparr>) = map_prod id (\<lambda>t. t\<lparr>draws := n\<rparr>) (getSession env token s)" for token
    by (simp add: getSession_def ensureAuthSchema_def storeOr_def bnd_run' select_session_def now_def)
  then show ?thesis
    by (simp add: authenticatedTenantId_def bnd_run' try_catch_def lift_run legacy_workspace_def auth_session_def split: prod.split sum.split option.split)
qed

lemma caller_records: "bos_records (records (snd (authenticatedTenantId env dates cookies s))) = bos_records (records s)"
proof -
  have "keeps (\<lambda>s. records s = d) (getSession env token)" for d token by (simp add: keeps_def getSession_def ensureAuthSchema_def storeOr_def bnd_run')
  then have "keeps (\<lambda>s. records s = d) (authenticatedTenantId env dates cookies)" for d unfolding authenticatedTenantId_def by (intro valid_intros)
  from keepsD [OF this refl] show ?thesis by simp
qed

text \<open>What follows the question who calls: a failure is answered without touching the records.\<close>

definition called_by :: "app_env \<Rightarrow> (string \<Rightarrow> int option) \<Rightarrow> string \<Rightarrow> http_answer \<Rightarrow> (jsval \<Rightarrow> (saas_db, http_answer) act) \<Rightarrow> (js_error \<Rightarrow> (saas_db, http_answer) act) \<Rightarrow> (saas_db, http_answer) act" where
  "called_by env dates cookies denied k failed = try_catch
     (bnd (authenticatedTenantId env dates cookies) (\<lambda>tenantId. if \<not> truthy tenantId then ret denied else k tenantId)) failed"

lemma called_by_keeps:
  assumes "\<And>w rs n. to_str n = w \<Longrightarrow> keeps (\<lambda>s. foreign_rows w s = rs) (k n)" "\<And>e s. records (snd (failed e s)) = records s"
  shows "case fst (authenticatedTenantId env dates cookies s) of
      Inr n \<Rightarrow> (if truthy n then foreign_rows (to_str n) (snd (called_by env dates cookies denied k failed s)) = foreign_rows (to_str n) s
        else bos_records (records (snd (called_by env dates cookies denied k failed s))) = bos_records (records s))
    | Inl e \<Rightarrow> bos_records (records (snd (called_by env dates cookies denied k failed s))) = bos_records (records s)"
proof -
  obtain r t where run: "authenticatedTenantId env dates cookies s = (r, t)" by fastforce
  have rows: "bos_records (records t) = bos_records (records s)" using caller_records [of env dates cookies s] by (simp add: run)
  have kept: "foreign_rows (to_str n) (snd (k n t)) = foreign_rows (to_str n) s" for n
    using keepsD [OF assms(1) [OF refl], of n t "foreign_rows (to_str n) t"] rows by (simp add: foreign_rows_def)
  show ?thesis
  proof (cases r)
    case (Inl e)
    then show ?thesis using rows assms(2) by (simp add: run called_by_def try_catch_def bnd_run')
  next
    case (Inr n)
    then show ?thesis using rows kept [of n] assms(2) by (auto simp: run called_by_def try_catch_def bnd_run' foreign_rows_def split: prod.split sum.split)
  qed
qed

text \<open>C16: Safety. The handlers of workflows and of automation runs change records of the caller's tenant only: whatever
  the request and its outcome, the records of every other tenant are as they were, and a caller
  without a tenant changes none.\<close>

theorem record_calls_stay_in_their_tenant:
  assumes "t = snd (handle_workflows env dates rq s) \<or> t = snd (handle_run env dates rq s)"
  shows "case fst (authenticatedTenantId env dates (ar_cookies rq) s) of
      Inr tenantId \<Rightarrow> (if truthy tenantId then foreign_rows (to_str tenantId) t = foreign_rows (to_str tenantId) s else bos_records (records t) = bos_records (records s))
    | Inl e \<Rightarrow> bos_records (records t) = bos_records (records s)"
  using assms
proof
  let ?refused = "problem 401 ''AUTH_REQUIRED'' (Str ''Sign in is required'')"
  let ?k = "\<lambda>n. if \<not> configured env then ret (problem 503 ''DATABASE_NOT_READY'' (Str ''Production database is required'')) else workflow_call env rq n"
  assume t: "t = snd (handle_workflows env dates rq s)"
  have "handle_workflows env dates rq = called_by env dates (ar_cookies rq) ?refused ?k workflow_failure"
    by (simp add: handle_workflows_def called_by_def cong: if_cong)
  moreover have "keeps (\<lambda>s. foreign_rows w s = rs) (?k n)" if "to_str n = w" for w rs n by (intro valid_intros keeps_foreign_workflows that)
  moreover have "records (snd (workflow_failure e s)) = records s" for e s by (simp add: workflow_failure_def bnd_run' lift_run split: sum.split)
  ultimately show ?thesis unfolding t by (simp only: called_by_keeps)
next
  assume t: "t = snd (handle_run env dates rq s)"
  obtain i n where start: "(if truthy (ar_request_id rq) then ret (ar_request_id rq) else bnd (randomUUID env []) (\<lambda>i. ret (Str i))) s = (Inr i, s\<lparr>draws := n\<rparr>)"
    by (cases "truthy (ar_request_id rq)") (auto simp: bnd_run' intro: that [of _ "draws s"])
  let ?s = "s\<lparr>draws := n\<rparr>"
  let ?denied = "run_problem i 401 ''AUTH_REQUIRED'' (Str ''Sign in is required'')"
  let ?failed = "\<lambda>e. bnd (lift (message_of e)) (\<lambda>m. ret (run_problem i 422 ''AUTOMATION_FAILED'' (js_or m (Str ''Automation failed''))))"
  have same: "foreign_rows w ?s = foreign_rows w s" "records ?s = records s" for w by (simp_all add: foreign_rows_def)
  show ?thesis
  proof (cases "ar_method rq = ''POST''")
    case False
    then have "t = ?s" using start by (simp add: t handle_run_def bnd_run')
    then show ?thesis using same by (simp split: sum.split)
  next
    case True
    then have run: "t = snd (called_by env dates (ar_cookies rq) ?denied (run_call env rq i) ?failed ?s)"
      using start by (simp add: t handle_run_def called_by_def bnd_run' [of "if _ then _ else _"])
    have "records (snd (?failed e s)) = records s" for e s by (simp add: bnd_run' lift_run split: sum.split)
    from called_by_keeps [where k = "run_call env rq i" and failed = ?failed, OF keeps_foreign_run this, where env = env and dates = dates and cookies = "ar_cookies rq" and s = ?s and denied = ?denied]
    show ?thesis unfolding run by (auto simp: caller_drawn same split: sum.splits if_splits)
  qed
qed

section \<open>What the handler stores\<close>

definition well_typed_workflow :: "jsval \<Rightarrow> bool" where
  "well_typed_workflow w \<longleftrightarrow> is_str (field w ''id'') \<and> truthy (field w ''tenantId'') \<and> is_str (field w ''name'') \<and> is_ref (field w ''trigger'')
     \<and> is_array (field w ''steps'') \<and> steps_of w \<noteq> [] \<and> field w ''enabled'' \<in> range Boolean \<and> field w ''version'' = Num 1
     \<and> is_str (field w ''createdAt'') \<and> field w ''updatedAt'' = field w ''createdAt''"

text \<open>C17: Type. A workflow answered as created is well typed: identifier, name and times are texts, the trigger is an
  object, the steps a list with at least one, enabled a boolean and the version 1; and the record
  stored under its identifier for the caller's tenant is its JSON form.\<close>

theorem created_workflows_are_well_typed:
  assumes "handle_workflows env dates rq s = (Inr a, t)" "an_status a = 201"
  shows "\<exists>w tenantId. fst (authenticatedTenantId env dates (ar_cookies rq) s) = Inr tenantId \<and> an_body a = Obj [(''status'', Str ''created''), (''workflow'', w)]
    \<and> well_typed_workflow w \<and> field w ''tenantId'' = tenantId
    \<and> pg_look (records t) (to_str tenantId) ''workflow'' (to_str (field w ''id'')) = Some (to_json w)"
proof -
  have failed: "workflow_failure e u = (Inr a, t) \<Longrightarrow> False" for e u
    using assms(2) by (auto simp: workflow_failure_def bnd_run' lift_run problem_def answer_def split: sum.splits if_splits)
  obtain tenantId v where caller: "authenticatedTenantId env dates (ar_cookies rq) s = (Inr tenantId, v)" "truthy tenantId"
    and call: "workflow_call env rq tenantId v = (Inr a, t)"
    using assms failed by (fastforce simp: handle_workflows_def try_catch_def bnd_run' problem_def answer_def split: prod.splits sum.splits if_splits)
  have create: "add_workflow_record env rq tenantId v = (Inr a, t)"
    using call assms(2)
    by (auto simp: workflow_call_def read_workflow_records_def change_workflow_record_def delete_workflow_record_def problem_def answer_def id_required_def workflow_not_found_def Let_def
        elim!: bnd_InrE split: if_splits)
  obtain p where p: "read_workflow_body env rq = Inr p" "\<not> nullish p" "workflow_problem p = None"
    using create assms(2) by (cases "read_workflow_body env rq") (auto simp: add_workflow_record_def problem_def answer_def split: if_splits option.splits)
  let ?i = "random_uuid env (draws v)"
  let ?w = "new_workflow ?i tenantId p (clock (v\<lparr>draws := Suc (draws v)\<rparr>))"
  have "bnd (in_records (pg_save tenantId ''workflow'' (Str ?i) ?w)) (\<lambda>_. ret (answer 201 [(''status'', Str ''created''), (''workflow'', ?w)])) (v\<lparr>draws := Suc (draws v)\<rparr>) = (Inr a, t)"
    using create p by (simp add: add_workflow_record_def bnd_run' Let_def)
  then have a: "a = answer 201 [(''status'', Str ''created''), (''workflow'', ?w)]"
    and look: "pg_look (records t) (to_str tenantId) ''workflow'' ?i = Some (to_json ?w)"
    by (auto simp: bnd_run' in_records_def pg_save_def new_workflow_def pg_look_def content_upsert row_key_def Let_def split: prod.splits sum.splits option.splits if_splits)
  have "well_typed_workflow ?w" using p(3) caller(2)
    by (auto simp: well_typed_workflow_def new_workflow_def workflow_problem_def steps_of_def is_array_def clock_def split: if_splits jsval.splits)
  then show ?thesis using caller a look by (intro exI [of _ ?w] exI [of _ tenantId]) (simp add: answer_def new_workflow_def)
qed

section \<open>Example\<close>

definition demo_workflow_post :: api_request where
  "demo_workflow_post = \<lparr>ar_method = ''POST'', ar_id = Null, ar_request_id = Undefined, ar_idempotency = Undefined, ar_cookies = ''bos_session=t.1'',
     ar_body = Obj [(''name'', Str '' Onboard ''), (''trigger'', Obj [(''type'', Str ''manual'')]), (''steps'', Arr [Obj [(''action'', Str ''create_task'')]])], ar_chunks = []\<rparr>"

definition demo_tenants :: saas_db where
  "demo_tenants = demo_accounts\<lparr>records := \<lparr>bos_records =
     [\<lparr>row_tenant = ''w1'', row_type = ''workspace'', row_id = ''w1'', row_value = Obj [(''userId'', Str ''u1''), (''tenantId'', Str ''w1'')], row_created = 0, row_updated = 0\<rparr>,
      \<lparr>row_tenant = ''w2'', row_type = ''workflow'', row_id = ''f'', row_value = Null, row_created = 0, row_updated = 0\<rparr>],
     pg_now = 1000\<rparr>\<rparr>"

lemma demo_cookie: "cookie_value ''bos_session=t.1'' ''bos_session'' = Inr (Some ''t.1'')"
proof -
  have "row0 (filter (prefix (''bos_session'' @ ''='')) (map trim (split_on (CHR '';'') ''bos_session=t.1''))) = Some ''bos_session=t.1''" by code_simp
  then show ?thesis by (simp add: cookie_value_def decode_plain)
qed

lemma demo_caller: "authenticatedTenantId demo_app dates ''bos_session=t.1'' demo_tenants = (Inr (Str ''w1''), fold backfill_owner (workspaces demo_tenants) demo_tenants)"
proof -
  let ?t = "fold backfill_owner (workspaces demo_tenants) demo_tenants"
  have "getSession demo_app ''t.1'' demo_tenants = (Inr (Some \<lparr>si_id = ''s1'', si_user = ''u1'', si_expires = 9000, si_workspace = None, si_email = ''ann@bos.io'', si_name = ''Ann'', si_status = ''active''\<rparr>), ?t)"
    by (simp add: getSession_def ensure_run bnd_run' demo_app_sized select_session_def demo_tenants_def demo_accounts_def demo_user_def empty_db_def now_def)
  moreover have "legacy_workspace ''u1'' ?t = Some (Obj [(''userId'', Str ''u1''), (''tenantId'', Str ''w1'')])"
    by (simp add: legacy_workspace_def demo_tenants_def json_member_text_def nullish_def)
  ultimately show ?thesis by (simp add: authenticatedTenantId_def bnd_run' try_catch_def demo_cookie demo_app_sized)
qed

lemma demo_post: "\<exists>a t. handle_workflows demo_app dates demo_workflow_post demo_tenants = (Inr a, t) \<and> an_status a = 201"
proof -
  have p: "workflow_problem (ar_body demo_workflow_post) = None" "ar_method demo_workflow_post = ''POST''" "is_ref (ar_body demo_workflow_post)"
    "ar_cookies demo_workflow_post = ''bos_session=t.1''" "\<not> nullish (ar_body demo_workflow_post)"
    by (simp_all add: demo_workflow_post_def workflow_problem_def is_array_def nullish_def)
  have i: "random_uuid demo_app n \<noteq> []" for n by (simp add: demo_app_def, subst nat_str.simps) simp
  show ?thesis
    by (simp add: handle_workflows_def i validateIdentity_def new_workflow_def try_catch_def bnd_run' demo_caller p demo_app_sized workflow_call_def add_workflow_record_def read_workflow_body_def in_records_def pg_save_def Let_def answer_def split: prod.split)
qed

theorem record_calls_stay_in_their_tenant_witness:
  "foreign_rows ''w1'' (snd (handle_workflows demo_app (\<lambda>t. None) demo_workflow_post demo_tenants)) = foreign_rows ''w1'' demo_tenants
    \<and> length (foreign_rows ''w1'' demo_tenants) = 1"
proof -
  have "ar_cookies demo_workflow_post = ''bos_session=t.1''" by (simp add: demo_workflow_post_def)
  with record_calls_stay_in_their_tenant [of "snd (handle_workflows demo_app (\<lambda>t. None) demo_workflow_post demo_tenants)" demo_app "\<lambda>t. None" demo_workflow_post demo_tenants]
  show ?thesis by (simp add: demo_caller foreign_rows_def [of _ demo_tenants] demo_tenants_def [THEN arg_cong, of records])
qed

theorem created_workflows_are_well_typed_witness:
  "\<exists>a t w. handle_workflows demo_app (\<lambda>t. None) demo_workflow_post demo_tenants = (Inr a, t) \<and> an_body a = Obj [(''status'', Str ''created''), (''workflow'', w)]
    \<and> well_typed_workflow w \<and> field w ''tenantId'' = Str ''w1''"
proof -
  have cookies: "ar_cookies demo_workflow_post = ''bos_session=t.1''" by (simp add: demo_workflow_post_def)
  obtain a t where run: "handle_workflows demo_app (\<lambda>t. None) demo_workflow_post demo_tenants = (Inr a, t)" "an_status a = 201" using demo_post by blast
  from created_workflows_are_well_typed [OF this] show ?thesis unfolding run(1) by (auto simp: cookies demo_caller)
qed

end
