(* ===== verification/Migrations.thy ===== *)
theory Migrations
  imports Automation SaasRoutes "HOL-Library.Char_ord" "HOL-Library.List_Lexorder"
begin

text \<open>
  The migration runner (\<^verbatim>\<open>packages/persistence/migrator.js\<close>): the scripts of a directory that the table
  \<^verbatim>\<open>bos_schema_migrations\<close> does not list are run, in the order of their names, and listed, in one transaction.
  What a script does to the other tables, and the file system, are parameters; scripts are taken not to
  end the transaction themselves.
\<close>

record migration_runner =
  mr_dir :: string

record 'd migration_db =
  md_applied :: "string list option" \<comment> \<open>the versions listed, where the table exists\<close>
  md_data :: 'd

record 'd migration_env =
  me_readdir :: "string \<Rightarrow> js_error + string list"
  me_read :: "string \<Rightarrow> string \<Rightarrow> js_error + string"
  me_sql :: "string \<Rightarrow> 'd \<Rightarrow> js_error + 'd"

definition new_MigrationRunner :: "bool \<Rightarrow> string option \<Rightarrow> js_error + migration_runner" where
  "new_MigrationRunner connects dir =
     (if \<not> connects then Inl (TypeError ''MigrationRunner requires a pg-compatible pool'')
      else Inr \<lparr>mr_dir = (case dir of None \<Rightarrow> ''migrations'' | Some d \<Rightarrow> d)\<rparr>)"

text \<open>\<^verbatim>\<open>/^\d+_.+\.sql$/\<close>\<close>

definition line_end :: "char \<Rightarrow> bool" where
  "line_end c \<longleftrightarrow> c = char_of (10 :: nat) \<or> c = char_of (13 :: nat)"

definition migration_file :: "string \<Rightarrow> bool" where
  "migration_file f =
     (case dropWhile is_digit f of
        c # r \<Rightarrow> c = CHR ''_'' \<and> takeWhile is_digit f \<noteq> [] \<and> 4 < length r \<and> ends_with r ''.sql'' \<and> list_all (\<lambda>c. \<not> line_end c) (take (length r - 4) r)
      | [] \<Rightarrow> False)"

definition create_table :: "('d migration_db, unit) act" where
  "create_table = (\<lambda>s. (Inr (), if md_applied s = None then s\<lparr>md_applied := Some []\<rparr> else s))"

definition listed :: "'d migration_db \<Rightarrow> string list" where
  "listed s = (case md_applied s of None \<Rightarrow> [] | Some vs \<Rightarrow> vs)"

definition run_script :: "'d migration_env \<Rightarrow> string \<Rightarrow> ('d migration_db, unit) act" where
  "run_script env t = (\<lambda>s. case me_sql env t (md_data s) of Inl e \<Rightarrow> (Inl e, s) | Inr d \<Rightarrow> (Inr (), s\<lparr>md_data := d\<rparr>))"

definition list_version :: "string \<Rightarrow> ('d migration_db, unit) act" where
  "list_version f = (\<lambda>s. if f \<in> set (listed s) then (Inl (unique_violation ''bos_schema_migrations_pkey''), s)
     else (Inr (), s\<lparr>md_applied := Some (listed s @ [f])\<rparr>))"

text \<open>The files not yet listed, one after the other.\<close>

fun apply_files :: "'d migration_env \<Rightarrow> string \<Rightarrow> string list \<Rightarrow> string list \<Rightarrow> ('d migration_db, unit) act" where
  "apply_files env dir applied [] = ret ()"
| "apply_files env dir applied (f # fs) =
     (if f \<in> set applied then apply_files env dir applied fs
      else
        bnd (lift (me_read env dir f)) (\<lambda>t.
        bnd (run_script env t) (\<lambda>_.
        bnd (list_version f) (\<lambda>_. apply_files env dir applied fs))))"

definition migration_files :: "string list \<Rightarrow> string list" where
  "migration_files names = sort (filter migration_file names)"

definition migrate :: "'d migration_env \<Rightarrow> migration_runner \<Rightarrow> ('d migration_db, string list) act" where
  "migrate env r = (\<lambda>s. case
     bnd create_table (\<lambda>_.
     bnd (lift (me_readdir env (mr_dir r))) (\<lambda>names.
     bnd (\<lambda>s. (Inr (listed s), s)) (\<lambda>applied.
     bnd (apply_files env (mr_dir r) applied (migration_files names)) (\<lambda>_.
     ret (filter (\<lambda>f. f \<notin> set applied) (migration_files names)))))) s of
       (Inr xs, t) \<Rightarrow> (Inr xs, t)
     | (Inl e, t) \<Rightarrow> (Inl e, s))"

section \<open>What a migration does\<close>

text \<open>The scripts of the files on the data, in order, and their first error.\<close>

fun scripts_on :: "'d migration_env \<Rightarrow> string \<Rightarrow> string list \<Rightarrow> 'd \<Rightarrow> js_error + 'd" where
  "scripts_on env dir [] d = Inr d"
| "scripts_on env dir (f # fs) d =
     (case me_read env dir f of Inl e \<Rightarrow> Inl e | Inr t \<Rightarrow> (case me_sql env t d of Inl e \<Rightarrow> Inl e | Inr d' \<Rightarrow> scripts_on env dir fs d'))"

lemma apply_files_run:
  assumes "distinct fs" "set (listed s) \<inter> set (filter (\<lambda>f. f \<notin> set applied) fs) = {}" "md_applied s \<noteq> None"
  shows "case scripts_on env dir (filter (\<lambda>f. f \<notin> set applied) fs) (md_data s) of
      Inl e \<Rightarrow> fst (apply_files env dir applied fs s) = Inl e
    | Inr d \<Rightarrow> apply_files env dir applied fs s = (Inr (), s\<lparr>md_applied := Some (listed s @ filter (\<lambda>f. f \<notin> set applied) fs), md_data := d\<rparr>)"
  using assms
proof (induction fs arbitrary: s)
  case Nil
  then show ?case by (auto simp: listed_def)
next
  case (Cons f fs)
  show ?case
  proof (cases "f \<in> set applied")
    case True
    then show ?thesis using Cons.IH [of s] Cons.prems by (auto split: sum.splits)
  next
    case False
    let ?fs = "filter (\<lambda>f. f \<notin> set applied) fs" and ?t = "\<lambda>d. s\<lparr>md_data := d, md_applied := Some (listed s @ [f])\<rparr>"
    show ?thesis
    proof (cases "case me_read env dir f of Inl e \<Rightarrow> Inl e | Inr t \<Rightarrow> me_sql env t (md_data s)")
      case (Inl e)
      then show ?thesis using False by (cases "me_read env dir f") (auto simp: bnd_run' run_script_def split: sum.splits)
    next
      case (Inr d)
      then have step: "apply_files env dir applied (f # fs) s = apply_files env dir applied fs (?t d)"
        and scripts: "scripts_on env dir (filter (\<lambda>f. f \<notin> set applied) (f # fs)) (md_data s) = scripts_on env dir ?fs d"
        using False Cons.prems(2) by (cases "me_read env dir f"; auto simp: bnd_run' run_script_def list_version_def listed_def split: sum.splits)+
      have t: "listed (?t d) = listed s @ [f]" "md_data (?t d) = d" "md_applied (?t d) \<noteq> None" by (simp_all add: listed_def)
      have "distinct fs" "set (listed (?t d)) \<inter> set ?fs = {}" using Cons.prems False unfolding t by auto
      from Cons.IH [OF this t(3)] have "case scripts_on env dir ?fs d of
          Inl e \<Rightarrow> fst (apply_files env dir applied fs (?t d)) = Inl e
        | Inr d' \<Rightarrow> apply_files env dir applied fs (?t d) = (Inr (), (?t d)\<lparr>md_applied := Some ((listed s @ [f]) @ ?fs), md_data := d'\<rparr>)"
        unfolding t .
      then show ?thesis unfolding step scripts using False by (simp split: sum.splits)
    qed
  qed
qed

text \<open>C40: Functional. Where the directory can be read, a migration runs the scripts of exactly the migration files not yet listed, in the order of
  their names, and lists them: either all of them, and then a further run finds nothing to do and changes
  nothing, or, when a script cannot be read or fails, none of them: the database is as it was.\<close>

theorem migrations_run_once_in_order:
  assumes "me_readdir env (mr_dir r) = Inr names" "distinct names"
  shows "let todo = filter (\<lambda>f. f \<notin> set (listed s)) (migration_files names); t = (\<lambda>d. \<lparr>md_applied = Some (listed s @ todo), md_data = d\<rparr>) in
    sorted todo \<and> set todo = {f \<in> set names. migration_file f \<and> f \<notin> set (listed s)}
    \<and> (case scripts_on env (mr_dir r) todo (md_data s) of
         Inl e \<Rightarrow> migrate env r s = (Inl e, s)
       | Inr d \<Rightarrow> migrate env r s = (Inr todo, t d) \<and> migrate env r (t d) = (Inr [], t d))"
proof -
  let ?fs = "migration_files names"
  have fs: "distinct ?fs" "sorted ?fs" "set ?fs = {f \<in> set names. migration_file f}"
    using assms(2) by (auto simp: migration_files_def)
  have run: "case scripts_on env (mr_dir r) (filter (\<lambda>f. f \<notin> set (listed u)) ?fs) (md_data u) of
      Inl e \<Rightarrow> migrate env r u = (Inl e, u)
    | Inr d \<Rightarrow> migrate env r u = (Inr (filter (\<lambda>f. f \<notin> set (listed u)) ?fs), \<lparr>md_applied = Some (listed u @ filter (\<lambda>f. f \<notin> set (listed u)) ?fs), md_data = d\<rparr>)" for u
  proof -
    let ?u = "snd (create_table u)"
    have u: "md_applied ?u \<noteq> None" "listed ?u = listed u" "md_data ?u = md_data u" "fst (create_table u) = Inr ()" by (auto simp: create_table_def listed_def)
    have "set (listed ?u) \<inter> set (filter (\<lambda>f. f \<notin> set (listed u)) ?fs) = {}" using u(2) by auto
    moreover have "v\<lparr>md_applied := x, md_data := y\<rparr> = \<lparr>md_applied = x, md_data = y\<rparr>" for v x y by simp
    ultimately show ?thesis using apply_files_run [OF fs(1) _ u(1), of "listed u" env "mr_dir r"] u(2-4)
      by (cases "create_table u") (auto simp: migrate_def bnd_run' assms(1) split: sum.splits prod.splits)
  qed
  show ?thesis unfolding Let_def
  proof (intro conjI)
    show "sorted (filter (\<lambda>f. f \<notin> set (listed s)) ?fs)" using fs(2) sorted_filter [of id] by simp
    show "set (filter (\<lambda>f. f \<notin> set (listed s)) ?fs) = {f \<in> set names. migration_file f \<and> f \<notin> set (listed s)}" using fs(3) by auto
    have "migrate env r \<lparr>md_applied = Some (listed s @ filter (\<lambda>f. f \<notin> set (listed s)) ?fs), md_data = d\<rparr>
        = (Inr [], \<lparr>md_applied = Some (listed s @ filter (\<lambda>f. f \<notin> set (listed s)) ?fs), md_data = d\<rparr>)" for d
    proof -
      let ?t = "\<lparr>md_applied = Some (listed s @ filter (\<lambda>f. f \<notin> set (listed s)) ?fs), md_data = d\<rparr>"
      have "filter (\<lambda>f. f \<notin> set (listed ?t)) ?fs = []" by (auto simp: listed_def filter_empty_conv)
      then show ?thesis using run [of ?t] by (simp add: listed_def)
    qed
    then show "case scripts_on env (mr_dir r) (filter (\<lambda>f. f \<notin> set (listed s)) ?fs) (md_data s) of
         Inl e \<Rightarrow> migrate env r s = (Inl e, s)
       | Inr d \<Rightarrow> migrate env r s = (Inr (filter (\<lambda>f. f \<notin> set (listed s)) ?fs), \<lparr>md_applied = Some (listed s @ filter (\<lambda>f. f \<notin> set (listed s)) ?fs), md_data = d\<rparr>)
           \<and> migrate env r \<lparr>md_applied = Some (listed s @ filter (\<lambda>f. f \<notin> set (listed s)) ?fs), md_data = d\<rparr>
             = (Inr [], \<lparr>md_applied = Some (listed s @ filter (\<lambda>f. f \<notin> set (listed s)) ?fs), md_data = d\<rparr>)"
      using run [of s] by (simp split: sum.splits)
  qed
qed

text \<open>Names are ordered as texts: without leading zeros, the tenth migration comes before the second.\<close>

lemma tenth_before_second: "migration_files [''2_b.sql'', ''10_j.sql''] = [''10_j.sql'', ''2_b.sql'']"
proof -
  have "migration_file ''2_b.sql''" "migration_file ''10_j.sql''" by code_simp+
  then show ?thesis by (simp add: migration_files_def)
qed

definition demo_migrations :: "string list migration_env" where
  "demo_migrations = \<lparr>me_readdir = (\<lambda>_. Inr [''2_b.sql'', ''README.md'', ''1_a.sql'']), me_read = (\<lambda>_ f. Inr f), me_sql = (\<lambda>t d. Inr (d @ [t]))\<rparr>"

theorem migrations_run_once_in_order_witness:
  "migrate demo_migrations \<lparr>mr_dir = ''m''\<rparr> \<lparr>md_applied = None, md_data = []\<rparr>
    = (Inr [''1_a.sql'', ''2_b.sql''], \<lparr>md_applied = Some [''1_a.sql'', ''2_b.sql''], md_data = [''1_a.sql'', ''2_b.sql'']\<rparr>)"
proof -
  have "migration_file ''2_b.sql''" "migration_file ''1_a.sql''" "\<not> migration_file ''README.md''" by code_simp+
  then have files: "migration_files [''2_b.sql'', ''README.md'', ''1_a.sql''] = [''1_a.sql'', ''2_b.sql'']" by (simp add: migration_files_def)
  have "me_readdir demo_migrations (mr_dir \<lparr>mr_dir = ''m''\<rparr>) = Inr [''2_b.sql'', ''README.md'', ''1_a.sql'']" by (simp add: demo_migrations_def)
  from migrations_run_once_in_order [OF this, of "\<lparr>md_applied = None, md_data = []\<rparr>"] show ?thesis
    by (simp add: Let_def files listed_def demo_migrations_def)
qed

end
