(* ===== verification/Launch.thy ===== *)
theory Launch
  imports Action Domain
begin

text \<open>
  In-memory onboarding (\<^verbatim>\<open>modules/onboarding/onboarding.js\<close>), the organization directory
  (\<^verbatim>\<open>modules/identity/organization.js\<close>) and the checks of release evidence: certifications over a fixed
  list of gates (\<^verbatim>\<open>modules/release/certification.js\<close>, \<^verbatim>\<open>ops/ai/readiness.js\<close>,
  \<^verbatim>\<open>ops/release/commercial_launch.js\<close>, \<^verbatim>\<open>ops/production/commercial_readiness.js\<close>) and the three gates of
  operations (\<^verbatim>\<open>ops/production/release_policy.js\<close>, \<^verbatim>\<open>ops/recovery/recovery_gate.js\<close>,
  \<^verbatim>\<open>ops/security/audit_gate.js\<close>). \<open>now\<close> is the text of \<^verbatim>\<open>new Date().toISOString()\<close>; identifiers of
  organizations and members are primitive values.
\<close>

section \<open>Onboarding\<close>

record onboarding =
  ob_workspaces :: "string \<Rightarrow> jsval option"

definition new_Onboarding :: onboarding where
  "new_Onboarding = \<lparr>ob_workspaces = (\<lambda>_. None)\<rparr>"

definition onboarding_key :: "jsval \<Rightarrow> jsval \<Rightarrow> string option" where
  "onboarding_key tenantId idempotencyKey =
     (if truthy idempotencyKey then Some (to_str tenantId @ '':'' @ to_str idempotencyKey) else None)"

definition onboard_workspace :: "string \<Rightarrow> jsval \<Rightarrow> jsval \<Rightarrow> jsval \<Rightarrow> jsval \<Rightarrow> (onboarding, jsval) act" where
  "onboard_workspace now tenantId ownerId businessName idempotencyKey = (\<lambda>s.
     if \<not> truthy tenantId \<or> \<not> truthy ownerId \<or> \<not> truthy businessName
     then (Inl (Error ''tenantId, ownerId and businessName are required''), s)
     else let key = onboarding_key tenantId idempotencyKey in
       case Option.bind key (ob_workspaces s) of
         Some workspace \<Rightarrow> (Inr workspace, s)
       | None \<Rightarrow> (case businessName of
           Str b \<Rightarrow>
             let workspace = Obj [(''tenantId'', tenantId), (''ownerId'', ownerId), (''businessName'', Str (trim b)), (''status'', Str ''active''),
                   (''onboarding'', Str ''started''), (''template'', Null), (''createdAt'', Str now)] in
             if trim b = [] then (Inl (Error ''businessName is required''), s)
             else (Inr workspace, (case key of None \<Rightarrow> s | Some k \<Rightarrow> s\<lparr>ob_workspaces := (ob_workspaces s)(k \<mapsto> workspace)\<rparr>))
         | _ \<Rightarrow> (Inl (TypeError ''businessName.trim is not a function''), s)))"

definition complete_onboarding :: "jsval \<Rightarrow> jsval \<Rightarrow> js_error + jsval" where
  "complete_onboarding workspace template =
     (if \<not> truthy workspace \<or> \<not> truthy (field workspace ''tenantId'') then Inl (Error ''workspace is required'')
      else if field workspace ''onboarding'' = Str ''completed'' then Inr workspace
      else Inr (spread workspace [(''template'', default_to template Null), (''onboarding'', Str ''completed'')]))"

text \<open>One attempt under a key; each names its own time.\<close>

type_synonym attempt = "string \<times> jsval \<times> jsval \<times> jsval \<times> jsval"

fun attempts :: "attempt list \<Rightarrow> onboarding \<Rightarrow> onboarding" where
  "attempts [] s = s"
| "attempts ((now, t, u, b, k) # xs) s = attempts xs (snd (onboard_workspace now t u b k s))"

lemma remembered:
  assumes "ob_workspaces s k = Some w"
  shows "ob_workspaces (attempts xs s) k = Some w"
  using assms
proof (induction xs s rule: attempts.induct)
  case (2 now t u b i xs s)
  have "ob_workspaces (snd (onboard_workspace now t u b i s)) k = Some w"
    using 2(2) by (auto simp: onboard_workspace_def Let_def split: option.split jsval.split)
  then show ?case using 2(1) by simp
qed simp

text \<open>A repeated attempt is given the workspace of the first, whatever it asks for and whatever came in between.\<close>

lemma repeated_attempt_gets_first_workspace:
  assumes "onboard_workspace now t u b k s = (Inr w, s1)" "truthy k" "truthy u'" "truthy b'"
  shows "onboard_workspace now' t u' b' k (attempts xs s1) = (Inr w, attempts xs s1)"
proof -
  obtain i where i: "onboarding_key t k = Some i" using assms(2) by (simp add: onboarding_key_def)
  have "truthy t" "ob_workspaces s1 i = Some w"
    using assms(1) i by (auto simp: onboard_workspace_def Let_def split: if_splits option.splits jsval.splits)
  then show ?thesis using remembered [of s1 i w xs] assms(3,4) i by (simp add: onboard_workspace_def)
qed

text \<open>But keys of different tenants can meet: the second tenant is given the first one's workspace.\<close>

lemma onboarding_keys_collide:
  "let (r, s) = onboard_workspace ''t'' (Str ''a'') (Str ''u1'') (Str ''Acme'') (Str ''b:c'') new_Onboarding in
     fst (onboard_workspace ''t'' (Str ''a:b'') (Str ''u2'') (Str ''Other'') (Str ''c'') s) = r
     \<and> map_sum id (\<lambda>w. field w ''tenantId'') r = Inr (Str ''a'')"
  by code_simp

section \<open>Organizations\<close>

record organization =
  org_id :: jsval
  org_tenant :: jsval
  org_name :: jsval
  org_members :: "jsval \<Rightarrow> jsval option"

type_synonym directory = "jsval \<Rightarrow> organization option"

definition add_organization :: "jsval \<Rightarrow> jsval \<Rightarrow> jsval \<Rightarrow> (directory, organization) act" where
  "add_organization i tenantId name = (\<lambda>d.
     if \<not> truthy i \<or> \<not> truthy tenantId \<or> \<not> truthy name then (Inl (Error ''id, tenantId and name are required''), d)
     else let org = \<lparr>org_id = i, org_tenant = tenantId, org_name = name, org_members = (\<lambda>_. None)\<rparr> in (Inr org, d(i \<mapsto> org)))"

definition addMember :: "jsval \<Rightarrow> jsval \<Rightarrow> jsval \<Rightarrow> (directory, jsval) act" where
  "addMember orgId userId role0 = (\<lambda>d.
     let role = default_to role0 (Str ''member'') in
     case d orgId of
       None \<Rightarrow> (Inl (Error ''Organization not found''), d)
     | Some org \<Rightarrow> (Inr (Obj [(''userId'', userId), (''role'', role)]), d(orgId \<mapsto> org\<lparr>org_members := (org_members org)(userId \<mapsto> role)\<rparr>)))"

definition role_in :: "jsval \<Rightarrow> jsval \<Rightarrow> directory \<Rightarrow> jsval" where
  "role_in orgId userId d = (case Option.bind (d orgId) (\<lambda>org. org_members org userId) of None \<Rightarrow> Null | Some r \<Rightarrow> js_coalesce r Null)"

lemma role_after_adding:
  assumes "addMember o1 u1 r d = (Inr v, d1)"
  shows "role_in o2 u2 d1 = (if o2 = o1 \<and> u2 = u1 then js_coalesce (default_to r (Str ''member'')) Null else role_in o2 u2 d)"
  using assms by (cases "o2 = o1") (auto simp: addMember_def role_in_def Let_def split: option.splits)

section \<open>Release evidence\<close>

definition missing_gates :: "string list \<Rightarrow> jsval \<Rightarrow> string list" where
  "missing_gates required gates = filter (\<lambda>name. field gates name \<noteq> Boolean True) required"

definition RELEASE_GATES :: "string list" where
  "RELEASE_GATES = [''persistence'', ''orchestration'', ''workers'', ''leases'', ''failureHandling'', ''observability'', ''tenantIsolation'', ''productionApi'', ''onboarding'',
     ''organizations'', ''integrations'', ''billing'', ''deployment'', ''recovery'', ''security'']"

definition certify_release :: "jsval \<Rightarrow> jsval" where
  "certify_release gates =
     (let missing = missing_gates RELEASE_GATES gates in
      Obj [(''certified'', Boolean (length missing = 0)), (''missing'', Arr (map Str missing)), (''gates'', spread gates [])])"

definition AI_GATES :: "string list" where
  "AI_GATES = [''identity'', ''policy'', ''memory'', ''verification'', ''approval'', ''usage'']"

definition assessAIReadiness :: "jsval \<Rightarrow> js_error + jsval" where
  "assessAIReadiness gates0 =
     (let gates = default_to gates0 (Obj []); missing = missing_gates AI_GATES gates in
      if gates = Null then Inl null_read_error
      else Inr (Obj [(''ready'', Boolean (length missing = 0)), (''missing'', Arr (map Str missing)), (''required'', Arr (map Str AI_GATES))]))"

definition PRODUCTION_PROOFS :: "string list" where
  "PRODUCTION_PROOFS = [''managedDatabase'', ''secrets'', ''dnsTls'', ''paymentProvider'', ''loadTest'', ''penetrationTest'', ''backupRestore'', ''disasterRecoveryExercise'']"

definition certify_launch :: "jsval \<Rightarrow> js_error + jsval" where
  "certify_launch proofs0 =
     (let proofs = default_to proofs0 (Obj []); missing = missing_gates PRODUCTION_PROOFS proofs in
      if proofs = Null then Inl null_read_error
      else Inr (Obj [(''certified'', Boolean (length missing = 0)), (''missing'', Arr (map Str missing)), (''proofs'', spread proofs []),
        (''statement'', Str (if length missing = 0 then ''Live commercial launch prerequisites demonstrated.''
           else ''Repository readiness does not establish live production launch readiness.''))]))"

fun comma_join :: "string list \<Rightarrow> string" where
  "comma_join [] = []"
| "comma_join [x] = x"
| "comma_join (x # y # ys) = x @ '','' @ comma_join (y # ys)"

definition refuse_missing :: "string \<Rightarrow> string \<Rightarrow> string list \<Rightarrow> js_error + jsval \<Rightarrow> js_error + jsval" where
  "refuse_missing label flag missing checked =
     (case checked of
        Inl e \<Rightarrow> Inl e
      | Inr result \<Rightarrow> if \<not> truthy (field result flag) then Inl (Error (label @ '':'' @ comma_join missing)) else Inr result)"

definition assertCertified :: "jsval \<Rightarrow> js_error + jsval" where
  "assertCertified proofs =
     refuse_missing ''LIVE_LAUNCH_NOT_CERTIFIED'' ''certified'' (missing_gates PRODUCTION_PROOFS (default_to proofs (Obj []))) (certify_launch proofs)"

definition COMMERCIAL_GATES :: "string list" where
  "COMMERCIAL_GATES = [''onboarding'', ''billing'', ''entitlements'', ''apiKeys'', ''webhooks'', ''tenantIsolation'', ''observability'', ''recovery'']"

definition certify_commercial :: "jsval \<Rightarrow> js_error + jsval" where
  "certify_commercial gates0 =
     (let gates = default_to gates0 (Obj []); missing = missing_gates COMMERCIAL_GATES gates in
      if gates = Null then Inl null_read_error
      else Inr (Obj [(''ready'', Boolean (length missing = 0)), (''missing'', Arr (map Str missing)), (''gates'', spread gates [])]))"

definition assertReady :: "jsval \<Rightarrow> js_error + jsval" where
  "assertReady gates = refuse_missing ''COMMERCIAL_NOT_READY'' ''ready'' (missing_gates COMMERCIAL_GATES (default_to gates (Obj []))) (certify_commercial gates)"

text \<open>The destructured parameter of a gate; without one the call throws.\<close>

definition all_given :: "string list \<Rightarrow> jsval \<Rightarrow> js_error + bool" where
  "all_given names v = (if v = Null \<or> v = Undefined then Inl null_read_error else Inr (\<forall>k \<in> set names. truthy (field v k)))"

definition releaseGate :: "jsval \<Rightarrow> js_error + bool" where
  "releaseGate = all_given [''ciGreen'', ''readinessGreen'', ''backupFresh'']"

definition recoveryGate :: "jsval \<Rightarrow> js_error + bool" where
  "recoveryGate = all_given [''backupVerified'', ''isolationVerified'', ''readinessVerified'', ''operatorApproved'']"

definition securityGate :: "jsval \<Rightarrow> js_error + bool" where
  "securityGate = all_given [''tenantIsolation'', ''authz'', ''secretsHygiene'', ''ciGreen'', ''recoveryControls'']"

text \<open>Evidence counts only when every gate is literally true; a truthy value is not enough.\<close>

lemma certified_iff:
  "assertCertified (Obj fs) = certify_launch (Obj fs) \<longleftrightarrow> (\<forall>k \<in> set PRODUCTION_PROOFS. map_of fs k = Some (Boolean True))"
proof -
  have "missing_gates PRODUCTION_PROOFS (Obj fs) = [] \<longleftrightarrow> (\<forall>k \<in> set PRODUCTION_PROOFS. map_of fs k = Some (Boolean True))"
    by (auto simp: missing_gates_def filter_empty_conv split: option.splits)
  then show ?thesis
    by (auto simp: assertCertified_def certify_launch_def refuse_missing_def default_to_def Let_def)
qed

end
