(* ===== verification/Spec2Isabelle.thy ===== *)
theory Spec2Isabelle
  imports ClaimRace FailurePolicy WorkerRuntime SchedulerProperties OrchestrationProperties
    SystemProperties WorkflowDefinition Access Approvals Validation Billing Agents
    Credentials Webhooks
    Encoding
    Secrets
    Database
    Accounts
    Lifecycle
    AccountProperties
    AccountSafety
    SaasRoutes
    SaasChanges
    SaasAccess
    SaasReads
    Connectors
    JobWorker
    SaasMachine
    SaasHistories
    WorkerProperties
    WorkerQueue
    SignIn
    IntegrationRoutes
    IntegrationProperties
    Cron
    AccountApi
    WorkflowApi
    OrchestrationRefinement
    ServerApi
    ServerProperties
    Migrations
    Launch
begin

text \<open>
  A verification of the Business Operating System (BOS): a multi-tenant backend in JavaScript that
  keeps business records, runs workflows through a leased work queue, schedules and an event bus,
  and exposes them over HTTP on a Postgres database.

  \<^bold>\<open>How the model is built.\<close> A JavaScript value is a \<open>jsval\<close> (theory \<open>JsValue\<close>): numbers are
  integers or \<^verbatim>\<open>NaN\<close>, objects are insertion-ordered field lists, and the operators the code
  applies (truthiness, \<^verbatim>\<open>===\<close>, \<^verbatim>\<open>String\<close>, \<^verbatim>\<open>Number\<close>, spread, property reads) are functions on it.
  \<open>JsDate\<close> holds \<^verbatim>\<open>Date\<close> by ECMAScript time values, \<open>JsObject\<close> the object literals with the
  members every object inherits, indexing and JSON text. An \<^verbatim>\<open>async\<close> method is an \<open>act\<close> (theory
  \<open>Action\<close>): from the state of everything it can reach to a new state and an error or a value; an
  \<^verbatim>\<open>await\<close> that can be interleaved with other code is a step of a transition system instead
  (\<open>ClaimRace\<close>, \<open>WorkerRuntime\<close>). Clocks, random ids and hash functions are arguments.

  \<^bold>\<open>Parts and theories.\<close>
  \<^item> Persistence (\<^verbatim>\<open>packages/persistence\<close>). \<open>Repository\<close> states the record repository interface as
    the locales \<open>record_repository\<close> and its extension; \<open>MemoryRepository\<close>
    (\<^verbatim>\<open>repository.js\<close>, \<^verbatim>\<open>test_store.js\<close>) and \<open>PostgresRepository\<close> (\<^verbatim>\<open>postgres_repository.js\<close>,
    \<^verbatim>\<open>tenant_scoped_repository.js\<close>, \<^verbatim>\<open>production_store.js\<close>) interpret it.
  \<^item> Records and workflows. \<open>Domain\<close> (\<^verbatim>\<open>modules/business/domain.js\<close>, \<^verbatim>\<open>modules/identity/domain.js\<close>),
    \<open>Workflow\<close> and \<open>WorkflowProperties\<close> (\<^verbatim>\<open>modules/workflow/engine.js\<close>), \<open>WorkflowDefinition\<close>
    (\<^verbatim>\<open>definition.js\<close>, \<^verbatim>\<open>versioning.js\<close>).
  \<^item> The queue. \<open>Queue\<close> (\<^verbatim>\<open>modules/queue/engine.js\<close>), its abstract machine \<open>QueueSpec\<close>, the
    refinement \<open>QueueRefinement\<close>, histories of requests \<open>QueueProtocol\<close>, \<open>QueueProperties\<close>,
    concurrent claims \<open>ClaimRace\<close>, \<open>FailurePolicy\<close> (\<^verbatim>\<open>failure_policy.js\<close>) and \<open>WorkerRuntime\<close>
    (\<^verbatim>\<open>worker_runtime.js\<close>).
  \<^item> Scheduling and orchestration. \<open>Scheduler\<close>, \<open>SchedulerRefinement\<close>, \<open>SchedulerProperties\<close>
    (\<^verbatim>\<open>modules/scheduler/engine.js\<close>); \<open>Orchestration\<close>, \<open>OrchestrationRefinement\<close>,
    \<open>OrchestrationProperties\<close> (\<^verbatim>\<open>modules/orchestration\<close>).
  \<^item> Events. \<open>EventStore\<close> and \<open>EventBus\<close> (\<^verbatim>\<open>modules/events\<close>) with \<open>EventProperties\<close>; \<open>System\<close> and
    \<open>SystemProperties\<close> put the three engines on one repository and one bus, wired by the
    subscriptions their constructors make.
  \<^item> Access and commerce. \<open>Access\<close> (\<^verbatim>\<open>packages/authz\<close>, \<^verbatim>\<open>tenant_guard.js\<close>, \<^verbatim>\<open>tenant_context.js\<close>),
    \<open>Approvals\<close> (\<^verbatim>\<open>modules/governance\<close>, \<^verbatim>\<open>modules/ai/approval_gate.js\<close>), \<open>Validation\<close>
    (\<^verbatim>\<open>packages/validation/schemas.js\<close>), \<open>Billing\<close> (\<^verbatim>\<open>modules/billing\<close>), \<open>Agents\<close>
    (\<^verbatim>\<open>modules/ai\<close>, \<^verbatim>\<open>packages/ai\<close>), \<open>Credentials\<close> (\<^verbatim>\<open>packages/auth/api_keys.js\<close>, \<^verbatim>\<open>auth.js\<close>,
    \<^verbatim>\<open>webhook_delivery.js\<close>).
  \<^item> Automation. \<open>Automation\<close> (\<^verbatim>\<open>modules/automation/engine.js\<close>, \<^verbatim>\<open>rules.js\<close>,
    \<^verbatim>\<open>modules/integrations/registry.js\<close>) and \<open>Webhooks\<close> (\<^verbatim>\<open>api/v1/webhooks.js\<close>).
  \<^item> Texts, bytes and secrets. \<open>Encoding\<close> (hexadecimal, base64url, UTF-8 bytes, percent encoding), \<open>Secrets\<close>
    (signed sessions of \<^verbatim>\<open>modules/auth/google.js\<close>, \<^verbatim>\<open>modules/integrations/secret_store.js\<close>).
  \<^item> The database of the deployed program. \<open>Database\<close> holds its tables as one record of row lists with
    their constraints, and the environment (configuration, clock, randomness, network, hashes).
  \<^item> Accounts. \<open>Accounts\<close> (\<^verbatim>\<open>packages/auth/email_auth.js\<close>), \<open>Lifecycle\<close> (\<^verbatim>\<open>email_lifecycle.js\<close>,
    \<^verbatim>\<open>workspace_membership.js\<close>) and their histories in \<open>AccountProperties\<close> and \<open>AccountSafety\<close>;
    \<open>SignIn\<close> (\<^verbatim>\<open>api/v1/auth\<close>, \<^verbatim>\<open>api/v1/onboarding.js\<close>).
  \<^item> The workspace API. \<open>SaasRoutes\<close> (\<^verbatim>\<open>apps/api/saas_routes.js\<close>); what a request changes
    (\<open>SaasChanges\<close>), who may change it (\<open>SaasAccess\<close>), what its answers depend on (\<open>SaasReads\<close>), and
    histories of requests (\<open>SaasMachine\<close>, \<open>SaasHistories\<close>).
  \<^item> Integrations. \<open>Connectors\<close> (\<^verbatim>\<open>modules/integrations\<close>), \<open>IntegrationRoutes\<close>
    (\<^verbatim>\<open>apps/api/integration_routes.js\<close>, \<^verbatim>\<open>workflow_controls.js\<close>) with \<open>IntegrationProperties\<close>.
  \<^item> The background worker. \<open>JobWorker\<close> (\<^verbatim>\<open>modules/automation/production_worker.js\<close>),
    \<open>WorkerProperties\<close>, \<open>WorkerQueue\<close>.
  \<^item> The entry points. \<open>ServerApi\<close> (\<^verbatim>\<open>apps/api/server.js\<close>, \<^verbatim>\<open>http.js\<close>, \<^verbatim>\<open>middleware.js\<close>,
    \<^verbatim>\<open>packages/observability/metrics.js\<close>) with \<open>ServerProperties\<close>; \<open>Cron\<close> and \<open>AccountApi\<close>
    (\<^verbatim>\<open>api/[...path].js\<close>, which hands every request it does not know to the server's handler);
    \<open>WorkflowApi\<close> (\<^verbatim>\<open>api/v1/workflows.js\<close>, \<^verbatim>\<open>api/v1/automations\<close>).
  \<^item> Deployment. \<open>Migrations\<close> (\<^verbatim>\<open>packages/persistence/migrator.js\<close>) and \<open>Launch\<close> (release
    evidence, in-memory onboarding and organizations).

  \<^bold>\<open>What is shown.\<close> Each engine's operations refine an abstract specification (the lease machine
  of \<open>QueueSpec\<close>, the task transitions, the key directory), keep the invariant
  of its store in every history of requests, and are characterized on every branch, rejections
  included. For the deployed API: requests stay in their workspace and within the roles of their
  sender, answers depend only on what the sender may see, sessions are opened only with proof of
  identity and last until they are closed, tokens and invitations are spent once, executions and
  scheduled starts happen once, versions are permanent. Liveness: the worker empties its queue, the
  server answers every request. Round trips (sessions, encrypted secrets), and safety under
  interleaving (exclusive leases, bounded concurrency, racing claims).

  \<^bold>\<open>Histories.\<close> A claim about \<open>every history\<close> quantifies over lists of a datatype of operations
  (queue requests, account operations, API requests with worker turns and passing time, deliveries),
  each of which runs the modelled handler on the state and keeps its effects whatever it answers.

  \<^bold>\<open>Bounds and fuel.\<close> Publishing on the wired system carries fuel for nested publishing: a handler
  publishes at most once more, so two levels suffice, and the theorems of \<open>SystemProperties\<close> show
  the result under that fuel. Loops that may not end (delivering to a set that handlers extend,
  evicting under a bad bound) are \<open>partial_function\<close>s into \<open>option\<close>; that they return is proved.
  Numbers in the code are doubles; the model's are integers, so the claims are about inputs whose
  arithmetic stays in the exact range. The characters of the model's strings are U+0000 to U+00FF: texts
  with other characters are outside of it (\<open>Encoding\<close> treats their UTF-8 bytes), which matters
  where the code lower-cases: on these characters lower-casing maps each to one character.

  \<^bold>\<open>Hypotheses about code outside the repository.\<close> Hash functions and digests are parameters;
  where a claim needs it, they are assumed injective on the values at hand (collision freedom).
  \<^verbatim>\<open>localeCompare\<close> is a parameter, assumed a consistent total preorder where an order is claimed.
  Network answers are a parameter indexed by the number of the call. SQL statements are modelled by
  their documented effect on the rows of their tables, with the constraints that can reject them;
  a connection that fails between two statements is not modelled.

  \<^bold>\<open>Not modelled.\<close> Listening on a port, process timers, log lines and error reports, the markup
  of the pages, and the repository's own scripts: they are input and output with no state of the
  program behind it. The SQL schema files are data; the dashboard and the mobile application are other
  programs.
\<close>

end
